(* ===== verification/Prelude.thy ===== *)
theory Prelude
  imports Complex_Main "HOL-Library.AList" "HOL-Library.Sublist" "HOL-Library.Char_ord"
begin

text \<open>
  What the gateway uses of the Go language and its standard library, shared by every
  component: byte strings (package \<^verbatim>\<open>strings\<close>), decimal rendering
  (\<^verbatim>\<open>strconv.Itoa\<close>), 64-bit integers, IEEE-754 doubles as far as the code compares
  them, and HTTP header maps (\<^verbatim>\<open>net/http.Header\<close>) with their canonical keys.

  A Go \<^verbatim>\<open>string\<close> is a sequence of bytes, and so is HOL's \<^typ>\<open>string\<close> (a \<^typ>\<open>char\<close> is
  one byte). A Go map that the code only looks keys up in is a partial function; a map the
  code ranges over is an association list with distinct keys, in the (arbitrary) order of
  that iteration. Four routines of the standard library are not transcribed: the two Unicode
  case mappings, the RE2 engine and the URL parser's verdict. They are fields of the record \<open>golib\<close>, an argument
  of the definitions that use them.
\<close>

named_theorems go_defs \<open>definitions of the string and header helpers, for evaluation\<close>

section \<open>Strings\<close>

record golib =
  to_lower :: "string \<Rightarrow> string"
  to_upper :: "string \<Rightarrow> string"
  re_compiles :: "string \<Rightarrow> bool"
    \<comment> \<open>\<^verbatim>\<open>regexp.Compile(pattern)\<close> returns no error\<close>
  re_match :: "string \<Rightarrow> string \<Rightarrow> bool"
    \<comment> \<open>\<^verbatim>\<open>MatchString(subject)\<close> of the compiled pattern\<close>
  url_valid :: "string \<Rightarrow> bool"
    \<comment> \<open>\<^verbatim>\<open>url.Parse\<close> returns no error\<close>

abbreviation has_prefix :: "string \<Rightarrow> string \<Rightarrow> bool" where
  "has_prefix s p \<equiv> prefix p s"

definition has_suffix :: "string \<Rightarrow> string \<Rightarrow> bool" where
  [go_defs]: "has_suffix s p \<longleftrightarrow> prefix (rev p) (rev s)"

lemma has_suffix_iff: "has_suffix s p \<longleftrightarrow> (\<exists>t. s = t @ p)"
  by (simp add: has_suffix_def suffix_to_prefix [symmetric] suffix_def)

fun str_contains :: "string \<Rightarrow> string \<Rightarrow> bool" where
  "str_contains [] p = (p = [])"
| "str_contains (c # s) p = (has_prefix (c # s) p \<or> str_contains s p)"

lemma str_contains_iff: "str_contains s p \<longleftrightarrow> sublist p s"
  by (induction s) (auto simp: sublist_Cons_right)

text \<open>\<^verbatim>\<open>strings.TrimSpace\<close>: the white space runes of Unicode in their UTF-8 encoding.\<close>

definition ascii_space :: "char \<Rightarrow> bool" where
  [go_defs]: "ascii_space c \<longleftrightarrow> c \<in> {CHR 0x09, CHR 0x0A, CHR 0x0B, CHR 0x0C, CHR 0x0D, CHR 0x20}"

definition space2 :: "char \<Rightarrow> char \<Rightarrow> bool" where
  [go_defs]: "space2 a b \<longleftrightarrow> a = CHR 0xC2 \<and> b \<in> {CHR 0x85, CHR 0xA0}"

definition space3 :: "char \<Rightarrow> char \<Rightarrow> char \<Rightarrow> bool" where
  [go_defs]: "space3 a b c \<longleftrightarrow>
     a = CHR 0xE1 \<and> b = CHR 0x9A \<and> c = CHR 0x80 \<or>
     a = CHR 0xE2 \<and> b = CHR 0x80 \<and>
       c \<in> {CHR 0x80, CHR 0x81, CHR 0x82, CHR 0x83, CHR 0x84, CHR 0x85, CHR 0x86, CHR 0x87,
            CHR 0x88, CHR 0x89, CHR 0x8A, CHR 0xA8, CHR 0xA9, CHR 0xAF} \<or>
     a = CHR 0xE2 \<and> b = CHR 0x81 \<and> c = CHR 0x9F \<or>
     a = CHR 0xE3 \<and> b = CHR 0x80 \<and> c = CHR 0x80"

fun trim_left :: "string \<Rightarrow> string" where
  "trim_left (a # b # c # s) =
     (if ascii_space a then trim_left (b # c # s)
      else if space2 a b then trim_left (c # s)
      else if space3 a b c then trim_left s
      else a # b # c # s)"
| "trim_left [a, b] =
     (if ascii_space a then trim_left [b] else if space2 a b then [] else [a, b])"
| "trim_left [a] = (if ascii_space a then [] else [a])"
| "trim_left [] = []"

fun trim_rev :: "string \<Rightarrow> string" where
  "trim_rev (c # b # a # s) =
     (if ascii_space c then trim_rev (b # a # s)
      else if space2 b c then trim_rev (a # s)
      else if space3 a b c then trim_rev s
      else c # b # a # s)"
| "trim_rev [b, a] =
     (if ascii_space b then trim_rev [a] else if space2 a b then [] else [b, a])"
| "trim_rev [a] = (if ascii_space a then [] else [a])"
| "trim_rev [] = []"

definition trim_space :: "string \<Rightarrow> string" where
  [go_defs]: "trim_space s = rev (trim_rev (rev (trim_left s)))"

lemma trim_space_Nil [simp]: "trim_space [] = []"
  by (simp add: trim_space_def)

text \<open>\<^verbatim>\<open>strings.Split(s, sep)\<close> for a one-byte separator, and \<^verbatim>\<open>strings.Join\<close>.\<close>

fun split_on :: "char \<Rightarrow> string \<Rightarrow> string list" where
  "split_on c [] = [[]]"
| "split_on c (x # xs) =
     (if x = c then [] # split_on c xs
      else (case split_on c xs of [] \<Rightarrow> [[x]] | y # ys \<Rightarrow> (x # y) # ys))"

fun join_with :: "string \<Rightarrow> string list \<Rightarrow> string" where
  "join_with sep [] = []"
| "join_with sep [s] = s"
| "join_with sep (s # t # ts) = s @ sep @ join_with sep (t # ts)"

lemma split_on_plain: "c \<notin> set x \<Longrightarrow> split_on c x = [x]"
  by (induction x) auto

lemma split_on_append: "c \<notin> set x \<Longrightarrow> split_on c (x @ c # s) = x # split_on c s"
  by (induction x) auto

lemma split_join: "xs \<noteq> [] \<Longrightarrow> \<forall>x \<in> set xs. c \<notin> set x \<Longrightarrow> split_on c (join_with [c] xs) = xs"
proof (induction xs rule: induct_list012)
  case (3 x y zs)
  then show ?case by (simp add: split_on_append)
qed (simp_all add: split_on_plain)

text \<open>\<^verbatim>\<open>strings.IndexByte\<close>: the position of the first \<open>c\<close>, \<open>None\<close> for \<^verbatim>\<open>-1\<close>.\<close>

fun index_byte :: "char \<Rightarrow> string \<Rightarrow> nat option" where
  "index_byte c [] = None"
| "index_byte c (x # xs) = (if x = c then Some 0 else map_option Suc (index_byte c xs))"

text \<open>ASCII letters; \<^verbatim>\<open>strings.EqualFold\<close> against a pattern of letters other than \<^verbatim>\<open>k\<close>, \<^verbatim>\<open>s\<close>
  (whose case orbits leave ASCII).\<close>

definition is_upper_ascii :: "char \<Rightarrow> bool" where
  [go_defs]: "is_upper_ascii c \<longleftrightarrow> CHR ''A'' \<le> c \<and> c \<le> CHR ''Z''"

definition is_lower_ascii :: "char \<Rightarrow> bool" where
  [go_defs]: "is_lower_ascii c \<longleftrightarrow> CHR ''a'' \<le> c \<and> c \<le> CHR ''z''"

definition is_digit_ascii :: "char \<Rightarrow> bool" where
  [go_defs]: "is_digit_ascii c \<longleftrightarrow> CHR ''0'' \<le> c \<and> c \<le> CHR ''9''"

text \<open>The two cases of an ASCII letter differ in bit 5.\<close>

fun with_bit5 :: "bool \<Rightarrow> char \<Rightarrow> char" where
  "with_bit5 b (Char b0 b1 b2 b3 b4 b5 b6 b7) = Char b0 b1 b2 b3 b4 b b6 b7"

definition upper_char :: "char \<Rightarrow> char" where
  [go_defs]: "upper_char c = (if is_lower_ascii c then with_bit5 False c else c)"

definition lower_char :: "char \<Rightarrow> char" where
  [go_defs]: "lower_char c = (if is_upper_ascii c then with_bit5 True c else c)"

definition equal_fold_ascii :: "string \<Rightarrow> string \<Rightarrow> bool" where
  [go_defs]: "equal_fold_ascii s t \<longleftrightarrow> map lower_char s = map lower_char t"

text \<open>
  \<^verbatim>\<open>strings.EqualFold\<close> against an ASCII pattern, with the two letters whose case orbit leaves
  ASCII: the long s (U+017F) and the Kelvin sign (U+212A).
\<close>

fun fold_case :: "string \<Rightarrow> string" where
  "fold_case (a # b # c # s) =
     (if a = CHR 0xC5 \<and> b = CHR 0xBF then CHR ''s'' # fold_case (c # s)
      else if a = CHR 0xE2 \<and> b = CHR 0x84 \<and> c = CHR 0xAA then CHR ''k'' # fold_case s
      else lower_char a # fold_case (b # c # s))"
| "fold_case [a, b] =
     (if a = CHR 0xC5 \<and> b = CHR 0xBF then ''s'' else [lower_char a, lower_char b])"
| "fold_case [a] = [lower_char a]"
| "fold_case [] = []"

definition equal_fold :: "string \<Rightarrow> string \<Rightarrow> bool" where
  "equal_fold s t \<longleftrightarrow> fold_case s = fold_case t"

text \<open>A concrete library for evaluation: ASCII case mapping, and an engine that compiles no
  pattern.\<close>

definition ascii_lib :: golib where
  [go_defs]: "ascii_lib = \<lparr>to_lower = map lower_char, to_upper = map upper_char, re_compiles = (\<lambda>_. False),
     re_match = (\<lambda>_ _. False),
     url_valid = (\<lambda>_. True)\<rparr>"

text \<open>\<^verbatim>\<open>strconv.Itoa\<close> on a non-negative number.\<close>

definition digit_char :: "nat \<Rightarrow> char" where
  [go_defs]: "digit_char d = ''0123456789'' ! d"

fun itoa :: "nat \<Rightarrow> string" where
  "itoa n = (if n < 10 then [digit_char n] else itoa (n div 10) @ [digit_char (n mod 10)])"

declare itoa.simps [simp del]

text \<open>The value of a decimal numeral.\<close>

definition digit_value :: "char \<Rightarrow> nat" where
  "digit_value c = of_char c - 48"

definition number_value :: "string \<Rightarrow> nat" where
  "number_value s = fold (\<lambda>c n. 10 * n + digit_value c) s 0"

lemma digit_value_char: "d < 10 \<Longrightarrow> digit_value (digit_char d) = d"
  by (cases d rule: nat.exhaust)
     (auto simp: digit_char_def digit_value_def numeral_eq_Suc less_Suc_eq nth_Cons split: nat.splits)

lemma digit_char_digit: "d < 10 \<Longrightarrow> is_digit_ascii (digit_char d)"
  by (auto simp: digit_char_def numeral_eq_Suc less_Suc_eq go_defs)

lemma number_value_snoc: "number_value (s @ [c]) = 10 * number_value s + digit_value c"
  by (simp add: number_value_def)

lemma number_value_itoa: "number_value (itoa n) = n"
proof (induction n rule: itoa.induct)
  case (1 n)
  show ?case
  proof (cases "n < 10")
    case True
    then show ?thesis by (subst itoa.simps) (simp add: number_value_def digit_value_char)
  next
    case False
    then show ?thesis using 1 by (subst itoa.simps) (simp add: number_value_snoc digit_value_char)
  qed
qed

lemma itoa_digits: "list_all is_digit_ascii (itoa n)"
proof (induction n rule: itoa.induct)
  case (1 n)
  then show ?case by (subst itoa.simps) (simp add: digit_char_digit)
qed

section \<open>Integers and floating point\<close>

text \<open>Wrap-around of a 64-bit signed result, and Go's integer division, which truncates.\<close>

definition i64 :: "int \<Rightarrow> int" where
  "i64 x = signed_take_bit 63 x"

lemma i64_id: "- (2 ^ 63) \<le> x \<Longrightarrow> x < 2 ^ 63 \<Longrightarrow> i64 x = x"
  unfolding i64_def by (rule signed_take_bit_int_eq_self) simp_all

lemma i64_bounds: "- (2 ^ 63) \<le> i64 x \<and> i64 x < 2 ^ 63"
  using signed_take_bit_int_greater_eq_minus_exp [of 63 x] signed_take_bit_int_less_exp [of 63 x]
  by (simp add: i64_def)

definition go_quot :: "int \<Rightarrow> int \<Rightarrow> int" where
  "go_quot a b = sgn a * sgn b * (\<bar>a\<bar> div \<bar>b\<bar>)"

lemma go_quot_nonneg: "0 \<le> a \<Longrightarrow> 0 < b \<Longrightarrow> go_quot a b = a div b"
  by (cases "a = 0") (simp_all add: go_quot_def)

lemma go_quot_neg: "a \<le> 0 \<Longrightarrow> 0 < b \<Longrightarrow> go_quot a b \<le> 0"
proof -
  assume "a \<le> 0" and "0 < b"
  then have "0 \<le> \<bar>a\<bar> div \<bar>b\<bar>" and "sgn b = 1" and "sgn a = 0 \<or> sgn a = - 1"
    by (auto simp: sgn_if pos_imp_zdiv_nonneg_iff)
  then show ?thesis by (auto simp: go_quot_def)
qed

text \<open>
  A \<^verbatim>\<open>float64\<close> the code only compares: a finite value (an exact rational), an infinity or
  \<^verbatim>\<open>NaN\<close>, for which every comparison is false. \<open>quot53 f t\<close> is the double nearest to
  \<open>f / t\<close> (ties to even) for \<open>0 \<le> f \<le> t\<close>, \<open>t < 2 ^ 53\<close>: the quotient is scaled to 53
  significant bits and rounded.
\<close>

datatype f64 = Fin rat | PosInf | NegInf | NaN

fun f64_less :: "f64 \<Rightarrow> f64 \<Rightarrow> bool" where
  "f64_less (Fin a) (Fin b) = (a < b)"
| "f64_less NegInf (Fin b) = True"
| "f64_less NegInf PosInf = True"
| "f64_less (Fin a) PosInf = True"
| "f64_less _ _ = False"

fun f64_eq :: "f64 \<Rightarrow> f64 \<Rightarrow> bool" where
  "f64_eq (Fin a) (Fin b) = (a = b)"
| "f64_eq PosInf PosInf = True"
| "f64_eq NegInf NegInf = True"
| "f64_eq _ _ = False"

fun bit_len :: "nat \<Rightarrow> nat" where
  "bit_len n = (if n = 0 then 0 else Suc (bit_len (n div 2)))"

declare bit_len.simps [simp del]

definition quot53 :: "nat \<Rightarrow> nat \<Rightarrow> rat" where
  "quot53 f t =
     (if f = 0 \<or> t = 0 then 0
      else let k0 = 52 + bit_len t - bit_len f;
               k = (if f * 2 ^ k0 < t * 2 ^ 52 then Suc k0 else k0);
               q = (f * 2 ^ k) div t;
               r = (f * 2 ^ k) mod t;
               q' = (if t < 2 * r \<or> (2 * r = t \<and> odd q) then Suc q else q)
           in of_nat q' / 2 ^ k)"

section \<open>Maps that are ranged over\<close>

type_synonym 'a gomap = "(string \<times> 'a) list"

text \<open>\<^verbatim>\<open>maps.Equal\<close>: as many entries, and every entry of the one in the other.\<close>

definition maps_equal :: "'a gomap \<Rightarrow> 'a gomap \<Rightarrow> bool" where
  "maps_equal a b \<longleftrightarrow> length a = length b \<and> list_all (\<lambda>(k, v). map_of b k = Some v) a"

lemma maps_equal_iff:
  assumes "distinct (map fst a)" and "distinct (map fst b)"
  shows "maps_equal a b \<longleftrightarrow> map_of a = map_of b"
proof
  assume e: "maps_equal a b"
  then have sub: "set a \<subseteq> set b" and len: "length a = length b"
    by (auto simp: maps_equal_def list_all_iff dest: map_of_SomeD)
  have "card (set a) = card (set b)"
    using assms len by (simp add: distinct_card distinct_map)
  then have "set a = set b" using sub by (simp add: card_subset_eq)
  then show "map_of a = map_of b" using assms by (simp add: map_of_inject_set)
next
  assume "map_of a = map_of b"
  then have s: "set a = set b" using assms by (simp add: map_of_inject_set)
  then have "length a = length b" using assms by (metis distinct_card distinct_map)
  then show "maps_equal a b" using s assms(2) by (auto simp: maps_equal_def list_all_iff)
qed

section \<open>The first error of a list\<close>

fun first_error :: "('a \<Rightarrow> 'e option) \<Rightarrow> 'a list \<Rightarrow> 'e option" where
  "first_error f [] = None"
| "first_error f (x # xs) = (case f x of Some e \<Rightarrow> Some e | None \<Rightarrow> first_error f xs)"

lemma first_error_None_iff [simp]: "first_error f xs = None \<longleftrightarrow> (\<forall>x \<in> set xs. f x = None)"
  by (induction xs) (auto split: option.split)

section \<open>HTTP headers\<close>

text \<open>
  \<^verbatim>\<open>http.Header\<close> is a map from canonical names to value lists; here an association list in
  the order of some iteration over that map. \<open>canonical_key\<close> is
  \<^verbatim>\<open>http.CanonicalHeaderKey\<close>: a name made of token bytes gets an upper-case letter at the
  start and after every \<^verbatim>\<open>-\<close> and lower case elsewhere; any other name is returned as it is.
\<close>

type_synonym headers = "(string \<times> string list) list"

definition token_byte :: "char \<Rightarrow> bool" where
  [go_defs]: "token_byte c \<longleftrightarrow>
     is_upper_ascii c \<or> is_lower_ascii c \<or> is_digit_ascii c \<or>
     c \<in> set ''!#$%&*+-.^_|~'' \<or> c = CHR 0x27 \<or> c = CHR 0x60"

fun canon_go :: "bool \<Rightarrow> string \<Rightarrow> string" where
  "canon_go upper [] = []"
| "canon_go upper (c # s) =
     (if upper then upper_char c else lower_char c) # canon_go (c = CHR ''-'') s"

definition canonical_key :: "string \<Rightarrow> string" where
  [go_defs]: "canonical_key s = (if list_all token_byte s then canon_go True s else s)"

definition header_values :: "headers \<Rightarrow> string \<Rightarrow> string list" where
  [go_defs]: "header_values h k = (case map_of h (canonical_key k) of None \<Rightarrow> [] | Some vs \<Rightarrow> vs)"

definition header_get :: "headers \<Rightarrow> string \<Rightarrow> string" where
  [go_defs]: "header_get h k = (case header_values h k of [] \<Rightarrow> [] | v # _ \<Rightarrow> v)"

definition header_set :: "headers \<Rightarrow> string \<Rightarrow> string \<Rightarrow> headers" where
  [go_defs]: "header_set h k v = AList.update (canonical_key k) [v] h"

definition header_add :: "headers \<Rightarrow> string \<Rightarrow> string \<Rightarrow> headers" where
  [go_defs]: "header_add h k v = AList.update (canonical_key k) (header_values h k @ [v]) h"

definition header_del :: "headers \<Rightarrow> string \<Rightarrow> headers" where
  [go_defs]: "header_del h k = AList.delete (canonical_key k) h"

subsection \<open>Laws of headers\<close>

lemma length_canon_go [simp]: "length (canon_go u s) = length s"
  by (induction s arbitrary: u) simp_all

lemma canonical_key_Nil_iff [simp]: "canonical_key s = [] \<longleftrightarrow> s = []"
proof -
  have "length (canonical_key s) = length s" by (simp add: canonical_key_def)
  then show ?thesis by (metis length_0_conv)
qed

lemma lower_upper_char [simp]:
  "lower_char (lower_char c) = lower_char c" "upper_char (upper_char c) = upper_char c"
  by (cases c; simp add: go_defs)+

lemma dash_case [simp]: "(upper_char c = CHR ''-'') = (c = CHR ''-'')" "(lower_char c = CHR ''-'') = (c = CHR ''-'')"
  by (cases c; auto simp add: go_defs)+

lemma token_case [simp]: "token_byte c \<Longrightarrow> token_byte (upper_char c)" "token_byte c \<Longrightarrow> token_byte (lower_char c)"
  by (cases c; auto simp add: go_defs split: if_splits)+

lemma canon_go_idem: "canon_go u (canon_go u s) = canon_go u s"
  by (induction s arbitrary: u) simp_all

lemma token_canon_go: "list_all token_byte s \<Longrightarrow> list_all token_byte (canon_go u s)"
  by (induction s arbitrary: u) simp_all

lemma canonical_key_idem [simp]: "canonical_key (canonical_key s) = canonical_key s"
  by (simp add: canonical_key_def canon_go_idem token_canon_go)

lemma header_values_set:
  "header_values (header_set h k v) k' =
     (if canonical_key k' = canonical_key k then [v] else header_values h k')"
  by (simp add: header_values_def header_set_def update_conv')

lemma header_values_del:
  "header_values (header_del h k) k' =
     (if canonical_key k' = canonical_key k then [] else header_values h k')"
  by (simp add: header_values_def header_del_def delete_conv')

lemma header_values_add:
  "header_values (header_add h k v) k' =
     (if canonical_key k' = canonical_key k then header_values h k @ [v] else header_values h k')"
  by (simp add: header_values_def header_add_def update_conv')

lemma header_get_set:
  "header_get (header_set h k v) k' = (if canonical_key k' = canonical_key k then v else header_get h k')"
  by (simp add: header_get_def header_values_set)

lemma header_get_del:
  "header_get (header_del h k) k' = (if canonical_key k' = canonical_key k then [] else header_get h k')"
  by (simp add: header_get_def header_values_del)

lemma header_set_distinct: "distinct (map fst h) \<Longrightarrow> distinct (map fst (header_set h k v))"
  by (simp add: header_set_def distinct_update)
lemma header_add_distinct: "distinct (map fst h) \<Longrightarrow> distinct (map fst (header_add h k v))"
  by (simp add: header_add_def distinct_update)

lemma header_del_distinct: "distinct (map fst h) \<Longrightarrow> distinct (map fst (header_del h k))"
  by (simp add: header_del_def distinct_delete)

lemmas header_laws = header_get_set header_get_del header_values_set header_values_del header_values_add

lemmas header_distinct = header_set_distinct header_add_distinct header_del_distinct

end
