(* ===== verification/Rule_Schema.thy ===== *)
theory Rule_Schema
  imports Prelude
begin

text \<open>
  The public schema of the rules engine, package \<^verbatim>\<open>contracts/rules\<close>: operators, conditions,
  actions, rules, body targets and rewrite values, and the load-time validation
  (\<^verbatim>\<open>RuleContract.Validate\<close>). A Go string type with a closed set of constants is a datatype
  with one constructor per constant and one for every other string, which the code also
  handles. An interface value is a datatype with one constructor per implementing struct, one
  for a \<^verbatim>\<open>nil\<close> condition (a rule may lack one; no decoder yields a nil action), and the
  catch-all of the registry. The discriminator \<^verbatim>\<open>Type\<close> is the
  constructor; \<^verbatim>\<open>DynamicProperties\<close>, which evaluation never reads, is left out. An error is
  the sentinel that \<^verbatim>\<open>errors.Is\<close> finds in the wrapped chain.
\<close>

section \<open>Operators\<close>

datatype string_op = StringEquals | StringStartsWith | StringEndsWith | StringContains
  | StringRegex | StringOpOther string

datatype enum_op = EnumEquals | EnumOpOther string

datatype logical_op = LogicalAnd | LogicalOr | LogicalOpOther string

datatype header_op = HeaderSet | HeaderAppend | HeaderPrepend | HeaderRemove | HeaderOpOther string

datatype status_body = StatusBodyText | StatusBodyJSON | StatusBodyHTML | StatusBodyOther string

datatype rule_behavior = BehaviorEmpty | BehaviorContinue | BehaviorExit | BehaviorOther string

datatype body_field_op = BodyFieldEquals | BodyFieldContains | BodyFieldMatches | BodyFieldExists
  | BodyFieldIsType | BodyFieldOther string

datatype rule_error = ErrEmptyRuleName | ErrNoCondition | ErrNoActions | ErrUnknownBehavior
  | ErrEmptyActionField | ErrInvalidActionField | ErrEmptyTranslateTarget | ErrInvalidTarget
  | ErrResponseScopeUnsupported | ErrUnknownBodyFieldOperator | ErrInvalidBodyFieldRegex

section \<open>Body targets\<close>

datatype target_scope = ScopeRequestBody | ScopeResponseBody

fun scope_string :: "target_scope \<Rightarrow> string" where
  "scope_string ScopeRequestBody = ''request.body''"
| "scope_string ScopeResponseBody = ''response.body''"

record target =
  tgt_Scope :: target_scope
  tgt_Path :: string

text \<open>The regular expression \<^verbatim>\<open>^[A-Za-z_][A-Za-z0-9_]*$\<close>.\<close>

definition ident_start :: "char \<Rightarrow> bool" where
  [go_defs]: "ident_start c \<longleftrightarrow> is_upper_ascii c \<or> is_lower_ascii c \<or> c = CHR ''_''"

definition ident_rest :: "char \<Rightarrow> bool" where
  [go_defs]: "ident_rest c \<longleftrightarrow> ident_start c \<or> is_digit_ascii c"

fun identSegment :: "string \<Rightarrow> bool" where
  "identSegment [] = False"
| "identSegment (c # s) = (ident_start c \<and> list_all ident_rest s)"

definition splitScope :: "string \<Rightarrow> rule_error + (target_scope \<times> string)" where
  "splitScope raw0 =
     (let raw = trim_space raw0;
          p1 = scope_string ScopeRequestBody @ ''.'';
          p2 = scope_string ScopeResponseBody @ ''.''
      in if has_prefix raw p1 then Inr (ScopeRequestBody, drop (length p1) raw)
         else if has_prefix raw p2 then Inr (ScopeResponseBody, drop (length p2) raw)
         else Inl ErrInvalidTarget)"

definition ParseTarget :: "string \<Rightarrow> rule_error + target" where
  "ParseTarget raw =
     (case splitScope raw of
        Inl e \<Rightarrow> Inl e
      | Inr (scope, rest) \<Rightarrow>
          if rest = [] then Inl ErrInvalidTarget
          else if \<not> list_all identSegment (split_on CHR ''.'' rest) then Inl ErrInvalidTarget
          else Inr \<lparr>tgt_Scope = scope, tgt_Path = rest\<rparr>)"

definition ParseReadTarget :: "string \<Rightarrow> rule_error + target" where
  "ParseReadTarget raw =
     (case splitScope raw of
        Inl e \<Rightarrow> Inl e
      | Inr (scope, rest) \<Rightarrow>
          if rest = [] then Inl ErrInvalidTarget
          else Inr \<lparr>tgt_Scope = scope, tgt_Path = rest\<rparr>)"

text \<open>A rewrite value; \<open>RVUnknown\<close> is any kind outside the three constants.\<close>

datatype rewrite_value = RVLiteral string | RVTemplate string | RVStructured string | RVUnknown int

section \<open>Conditions\<close>

record provider_condition =
  pc_Operator :: enum_op
  pc_ExpectedProvider :: string
  pc_Not :: bool

record protocol_condition =
  prc_Operator :: enum_op
  prc_ExpectedProtocol :: string
  prc_Not :: bool

record model_name_condition =
  mc_Operator :: string_op
  mc_ExpectedModelName :: string
  mc_CaseInsensitive :: bool
  mc_Not :: bool

record header_condition =
  hc_KeyOperator :: string_op
  hc_KeyPattern :: string
  hc_ValueOperator :: "string_op option"
  hc_ValuePattern :: string
  hc_CaseInsensitive :: bool
  hc_Not :: bool

record tag_condition =
  tc_Operator :: enum_op
  tc_ExpectedTag :: string
  tc_Not :: bool

record body_field_condition =
  bfc_Target :: string
  bfc_Operator :: body_field_op
  bfc_Value :: string
  bfc_Not :: bool

datatype condition =
    NilCondition
  | ProviderCondition provider_condition
  | ProtocolCondition protocol_condition
  | ModelNameCondition model_name_condition
  | HeaderCondition header_condition
  | TagCondition tag_condition
  | BodyFieldCondition body_field_condition
  | RuleGroup (grp_op: logical_op) (grp_children: "condition list") (grp_not: bool)
  | UnknownCondition string

section \<open>Actions\<close>

record change_provider_action =
  cp_NewProvider :: string

record translate_action =
  tr_TargetProtocol :: string

record change_model_name_action =
  cmn_NewModelName :: string

record change_url_action =
  cu_NewURL :: string

record change_api_key_action =
  cak_APIKey :: string
  cak_UseSlipSpaceKey :: bool

record set_header_action =
  sh_HeaderName :: string
  sh_HeaderAction :: header_op
  sh_HeaderValue :: string

record append_query_action =
  aq_Key :: string
  aq_Value :: string

record return_status_action =
  rs_StatusCode :: int
  rs_Body :: string
  rs_BodyType :: status_body

record llm_impersonation_action =
  li_Message :: string

record add_tag_action =
  at_Tag :: string

record use_policy_action =
  up_PolicyName :: string

record rewrite_field_action =
  rf_Target :: string
  rf_Value :: rewrite_value

record remove_field_action =
  rm_Target :: string

record append_field_action =
  af_Target :: string
  af_Value :: rewrite_value

datatype action =
    ChangeProviderAction change_provider_action
  | TranslateAction translate_action
  | ChangeModelNameAction change_model_name_action
  | ChangeUrlAction change_url_action
  | ChangeApiKeyAction change_api_key_action
  | SetHeaderAction set_header_action
  | AppendQueryStringAction append_query_action
  | ReturnStatusCodeAction return_status_action
  | LlmImpersonationAction llm_impersonation_action
  | AddTagAction add_tag_action
  | UseResiliencePolicyAction use_policy_action
  | RewriteFieldAction rewrite_field_action
  | RemoveFieldAction remove_field_action
  | AppendFieldAction append_field_action
  | UnknownAction string

fun actionType :: "action \<Rightarrow> string" where
  "actionType (ChangeProviderAction _) = ''changeProvider''"
| "actionType (TranslateAction _) = ''translate''"
| "actionType (ChangeModelNameAction _) = ''changeModelName''"
| "actionType (ChangeUrlAction _) = ''changeUrl''"
| "actionType (ChangeApiKeyAction _) = ''changeApiKey''"
| "actionType (SetHeaderAction _) = ''setHeader''"
| "actionType (AppendQueryStringAction _) = ''appendQueryString''"
| "actionType (ReturnStatusCodeAction _) = ''returnStatusCode''"
| "actionType (LlmImpersonationAction _) = ''llmImpersonation''"
| "actionType (AddTagAction _) = ''addTag''"
| "actionType (UseResiliencePolicyAction _) = ''useResiliencePolicy''"
| "actionType (RewriteFieldAction _) = ''rewriteField''"
| "actionType (RemoveFieldAction _) = ''removeField''"
| "actionType (AppendFieldAction _) = ''appendField''"
| "actionType (UnknownAction t) = t"

record response =
  resp_StatusCode :: int
  resp_Body :: string
  resp_BodyType :: status_body

record outcome =
  out_Terminate :: bool
  out_Response :: "response option"

definition no_outcome :: outcome where
  "no_outcome = \<lparr>out_Terminate = False, out_Response = None\<rparr>"

record rule_contract =
  rule_ID :: "string option"
  rule_Name :: string
  rule_Condition :: condition
  rule_Actions :: "action list"
  rule_Behavior :: rule_behavior

section \<open>Load-time validation\<close>

definition requireNonEmpty :: "string \<Rightarrow> rule_error option" where
  "requireNonEmpty value = (if trim_space value = [] then Some ErrEmptyActionField else None)"

definition validate_changeProvider :: "change_provider_action \<Rightarrow> rule_error option" where
  "validate_changeProvider a = requireNonEmpty (cp_NewProvider a)"

definition validate_translate :: "translate_action \<Rightarrow> rule_error option" where
  "validate_translate a =
     (if trim_space (tr_TargetProtocol a) = [] then Some ErrEmptyTranslateTarget else None)"

definition validate_changeModelName :: "change_model_name_action \<Rightarrow> rule_error option" where
  "validate_changeModelName a = requireNonEmpty (cmn_NewModelName a)"

definition validate_changeUrl :: "golib \<Rightarrow> change_url_action \<Rightarrow> rule_error option" where
  "validate_changeUrl lib a =
     (case requireNonEmpty (cu_NewURL a) of
        Some e \<Rightarrow> Some e
      | None \<Rightarrow> if url_valid lib (trim_space (cu_NewURL a)) then None else Some ErrInvalidActionField)"

definition validate_changeApiKey :: "change_api_key_action \<Rightarrow> rule_error option" where
  "validate_changeApiKey a =
     (if cak_UseSlipSpaceKey a then None else requireNonEmpty (cak_APIKey a))"

definition validate_setHeader :: "set_header_action \<Rightarrow> rule_error option" where
  "validate_setHeader a =
     (case requireNonEmpty (sh_HeaderName a) of
        Some e \<Rightarrow> Some e
      | None \<Rightarrow>
          (case sh_HeaderAction a of
             HeaderSet \<Rightarrow> None
           | HeaderAppend \<Rightarrow> None
           | HeaderPrepend \<Rightarrow> None
           | HeaderRemove \<Rightarrow> None
           | HeaderOpOther _ \<Rightarrow> Some ErrInvalidActionField))"

definition validate_appendQueryString :: "append_query_action \<Rightarrow> rule_error option" where
  "validate_appendQueryString a = requireNonEmpty (aq_Key a)"

definition validate_returnStatusCode :: "return_status_action \<Rightarrow> rule_error option" where
  "validate_returnStatusCode a =
     (if rs_StatusCode a < 100 \<or> 599 < rs_StatusCode a then Some ErrInvalidActionField else None)"

definition validate_llmImpersonation :: "llm_impersonation_action \<Rightarrow> rule_error option" where
  "validate_llmImpersonation a = requireNonEmpty (li_Message a)"

definition validate_addTag :: "add_tag_action \<Rightarrow> rule_error option" where
  "validate_addTag a = requireNonEmpty (at_Tag a)"

definition validate_useResiliencePolicy :: "use_policy_action \<Rightarrow> rule_error option" where
  "validate_useResiliencePolicy a = requireNonEmpty (up_PolicyName a)"

definition validateWriteTarget :: "string \<Rightarrow> rule_error option" where
  "validateWriteTarget raw = (case ParseTarget raw of Inl e \<Rightarrow> Some e | Inr _ \<Rightarrow> None)"

text \<open>The optional \<^verbatim>\<open>validate()\<close> hook of an action; a type without one passes.\<close>

fun validate_action :: "golib \<Rightarrow> action \<Rightarrow> rule_error option" where
  "validate_action lib (ChangeProviderAction a) = validate_changeProvider a"
| "validate_action lib (TranslateAction a) = validate_translate a"
| "validate_action lib (ChangeModelNameAction a) = validate_changeModelName a"
| "validate_action lib (ChangeUrlAction a) = validate_changeUrl lib a"
| "validate_action lib (ChangeApiKeyAction a) = validate_changeApiKey a"
| "validate_action lib (SetHeaderAction a) = validate_setHeader a"
| "validate_action lib (AppendQueryStringAction a) = validate_appendQueryString a"
| "validate_action lib (ReturnStatusCodeAction a) = validate_returnStatusCode a"
| "validate_action lib (LlmImpersonationAction a) = validate_llmImpersonation a"
| "validate_action lib (AddTagAction a) = validate_addTag a"
| "validate_action lib (UseResiliencePolicyAction a) = validate_useResiliencePolicy a"
| "validate_action lib (RewriteFieldAction a) = validateWriteTarget (rf_Target a)"
| "validate_action lib (RemoveFieldAction a) = validateWriteTarget (rm_Target a)"
| "validate_action lib (AppendFieldAction a) = validateWriteTarget (af_Target a)"
| "validate_action lib (UnknownAction _) = None"

definition validate_bodyField :: "golib \<Rightarrow> body_field_condition \<Rightarrow> rule_error option" where
  "validate_bodyField lib c =
     (case ParseReadTarget (bfc_Target c) of
        Inl e \<Rightarrow> Some e
      | Inr t \<Rightarrow>
          if tgt_Scope t = ScopeResponseBody then Some ErrResponseScopeUnsupported
          else (case bfc_Operator c of
                  BodyFieldOther _ \<Rightarrow> Some ErrUnknownBodyFieldOperator
                | BodyFieldMatches \<Rightarrow>
                    (if re_compiles lib (bfc_Value c) then None else Some ErrInvalidBodyFieldRegex)
                | _ \<Rightarrow> None))"

fun validateCondition :: "golib \<Rightarrow> condition \<Rightarrow> rule_error option"
and validateChildren :: "golib \<Rightarrow> condition list \<Rightarrow> rule_error option" where
  "validateCondition lib (RuleGroup _ children _) = validateChildren lib children"
| "validateCondition lib (BodyFieldCondition c) = validate_bodyField lib c"
| "validateCondition lib _ = None"
| "validateChildren lib [] = None"
| "validateChildren lib (c # cs) =
     (case validateCondition lib c of Some e \<Rightarrow> Some e | None \<Rightarrow> validateChildren lib cs)"

fun validate_actions :: "golib \<Rightarrow> action list \<Rightarrow> rule_error option" where
  "validate_actions lib [] = None"
| "validate_actions lib (a # as) =
     (case validate_action lib a of Some e \<Rightarrow> Some e | None \<Rightarrow> validate_actions lib as)"

definition rule_Validate :: "golib \<Rightarrow> rule_contract \<Rightarrow> rule_error option" where
  "rule_Validate lib r =
     (if rule_Name r = [] then Some ErrEmptyRuleName
      else if rule_Condition r = NilCondition then Some ErrNoCondition
      else if rule_Actions r = [] then Some ErrNoActions
      else (case rule_Behavior r of
              BehaviorOther _ \<Rightarrow> Some ErrUnknownBehavior
            | _ \<Rightarrow>
                (case validateCondition lib (rule_Condition r) of
                   Some e \<Rightarrow> Some e
                 | None \<Rightarrow> validate_actions lib (rule_Actions r))))"

lemma validate_actions_None_iff:
  "validate_actions lib as = None \<longleftrightarrow> list_all (\<lambda>a. validate_action lib a = None) as"
  by (induction as) (auto split: option.splits)

lemma validateChildren_None_iff:
  "validateChildren lib cs = None \<longleftrightarrow> list_all (\<lambda>c. validateCondition lib c = None) cs"
  by (induction cs) (auto split: option.splits)

lemma rule_Validate_None:
  assumes "rule_Validate lib r = None"
  shows "rule_Name r \<noteq> []" "rule_Condition r \<noteq> NilCondition" "rule_Actions r \<noteq> []"
    "validateCondition lib (rule_Condition r) = None"
    "list_all (\<lambda>a. validate_action lib a = None) (rule_Actions r)"
  using assms
  by (auto simp: rule_Validate_def validate_actions_None_iff
      split: if_splits option.splits rule_behavior.splits)

end
