(* ===== verification/Rule_State.thy ===== *)
theory Rule_State
  imports Rule_Schema
begin

text \<open>
  The per-request state the rules write, \<^verbatim>\<open>internal/middleware/rules/state.go\<close>, and the body
  patch operations it queues (\<^verbatim>\<open>internal/bodypatch\<close>). A pointer field that may be nil is an
  \<open>option\<close>; the path parameters, which the destination builder ranges over, are an association
  list. The typed request body is a shared pointer outside the state; the rules read and write
  only its \<^verbatim>\<open>Model\<close> field, so \<open>typed_body\<close> carries that field and the body's Go type.
\<close>

datatype op_kind = OpSet | OpRemove | OpAppend

record body_op =
  bop_Kind :: op_kind
  bop_Path :: string
  bop_Value :: rewrite_value
  bop_ActionType :: string

record query_addition =
  qa_Key :: string
  qa_Value :: string

record mutable_state =
  ms_Provider :: string
  ms_ProviderOverridden :: bool
  ms_Protocol :: string
  ms_SourceProtocol :: string
  ms_MatchedPath :: string
  ms_UpstreamURL :: "string option"
  ms_OutgoingHeaders :: headers
  ms_DropHeaders :: "string list"
  ms_UpstreamCredentialOverride :: "string option"
  ms_PathParams :: "(string \<times> string) list"
  ms_TargetPath :: string
  ms_TargetQuery :: "string gomap"
  ms_BodyMutated :: bool
  ms_QueryAdditions :: "query_addition list"
  ms_Tags :: "string list"
  ms_BodyRewrites :: "body_op list"
  ms_ResponseRewrites :: "body_op list"
  ms_PolicyRef :: string

datatype typed_body =
    NilBody
  | ChatBody string
  | ResponsesBody string
  | MessagesBody string
  | GenerateContentBody
  | OtherBody

definition AddTag :: "mutable_state \<Rightarrow> string \<Rightarrow> bool \<times> mutable_state" where
  "AddTag s t =
     (if t = [] then (False, s)
      else if t \<in> set (ms_Tags s) then (False, s)
      else (True, s\<lparr>ms_Tags := ms_Tags s @ [t]\<rparr>))"

definition DropHeader :: "mutable_state \<Rightarrow> string \<Rightarrow> mutable_state" where
  "DropHeader s name =
     (let canonical = canonical_key name
      in if canonical = [] then s
         else if canonical \<in> set (ms_DropHeaders s) then s
         else s\<lparr>ms_DropHeaders := ms_DropHeaders s @ [canonical]\<rparr>)"

definition UndropHeader :: "mutable_state \<Rightarrow> string \<Rightarrow> mutable_state" where
  "UndropHeader s name =
     (if ms_DropHeaders s = [] then s
      else let canonical = canonical_key name
           in s\<lparr>ms_DropHeaders := filter (\<lambda>existing. existing \<noteq> canonical) (ms_DropHeaders s)\<rparr>)"

definition HasTag :: "mutable_state \<Rightarrow> string \<Rightarrow> bool" where
  "HasTag s t \<longleftrightarrow> t \<in> set (ms_Tags s)"

text \<open>
  \<^verbatim>\<open>Clone\<close> copies field by field. Values of this model are immutable, so the copy is equal to
  the original and can never share a map or slice with it.
\<close>

definition Clone :: "mutable_state \<Rightarrow> mutable_state" where
  "Clone s =
     \<lparr>ms_Provider = ms_Provider s,
      ms_ProviderOverridden = ms_ProviderOverridden s,
      ms_Protocol = ms_Protocol s,
      ms_SourceProtocol = ms_SourceProtocol s,
      ms_MatchedPath = ms_MatchedPath s,
      ms_UpstreamURL = ms_UpstreamURL s,
      ms_OutgoingHeaders = ms_OutgoingHeaders s,
      ms_DropHeaders = ms_DropHeaders s,
      ms_UpstreamCredentialOverride = ms_UpstreamCredentialOverride s,
      ms_PathParams = ms_PathParams s,
      ms_TargetPath = ms_TargetPath s,
      ms_TargetQuery = ms_TargetQuery s,
      ms_BodyMutated = ms_BodyMutated s,
      ms_QueryAdditions = ms_QueryAdditions s,
      ms_Tags = ms_Tags s,
      ms_BodyRewrites = ms_BodyRewrites s,
      ms_ResponseRewrites = ms_ResponseRewrites s,
      ms_PolicyRef = ms_PolicyRef s\<rparr>"

definition NewMutableState ::
  "string \<Rightarrow> string \<Rightarrow> string \<Rightarrow> (string \<times> string) list \<Rightarrow> mutable_state" where
  "NewMutableState provider protocol matchedPath pathParams =
     \<lparr>ms_Provider = provider,
      ms_ProviderOverridden = False,
      ms_Protocol = protocol,
      ms_SourceProtocol = [],
      ms_MatchedPath = matchedPath,
      ms_UpstreamURL = None,
      ms_OutgoingHeaders = [],
      ms_DropHeaders = [],
      ms_UpstreamCredentialOverride = None,
      ms_PathParams = pathParams,
      ms_TargetPath = [],
      ms_TargetQuery = [],
      ms_BodyMutated = False,
      ms_QueryAdditions = [],
      ms_Tags = [],
      ms_BodyRewrites = [],
      ms_ResponseRewrites = [],
      ms_PolicyRef = []\<rparr>"

text \<open>A lookup in a Go map of strings: the zero value for an absent key.\<close>

definition param :: "(string \<times> string) list \<Rightarrow> string \<Rightarrow> string" where
  "param m k = (case map_of m k of None \<Rightarrow> [] | Some v \<Rightarrow> v)"

section \<open>The state invariant\<close>

text \<open>
  What every write keeps: tags and drop names are sets (no repeats, no empty entry), the header
  and parameter maps have one entry per key, and no header is both recorded for removal and set
  (so the drop list never contradicts the headers that will be sent).
\<close>

definition state_wf :: "mutable_state \<Rightarrow> bool" where
  "state_wf s \<longleftrightarrow>
     distinct (ms_Tags s) \<and> [] \<notin> set (ms_Tags s) \<and>
     distinct (ms_DropHeaders s) \<and> [] \<notin> set (ms_DropHeaders s) \<and>
     distinct (map fst (ms_OutgoingHeaders s)) \<and> distinct (map fst (ms_PathParams s)) \<and>
     set (ms_DropHeaders s) \<inter> fst ` set (ms_OutgoingHeaders s) = {}"

lemma Clone_id [simp]: "Clone s = s"
  by (simp add: Clone_def)

lemma AddTag_wf: "state_wf s \<Longrightarrow> state_wf (snd (AddTag s t))"
  by (auto simp: AddTag_def state_wf_def)

lemma AddTag_mem: "t \<noteq> [] \<Longrightarrow> t \<in> set (ms_Tags (snd (AddTag s t)))"
  by (simp add: AddTag_def)

lemma DropHeader_wf:
  "state_wf s \<Longrightarrow> canonical_key n \<notin> fst ` set (ms_OutgoingHeaders s) \<Longrightarrow> state_wf (DropHeader s n)"
  by (auto simp: DropHeader_def state_wf_def Let_def dest!: sym [of "[]"])

lemma UndropHeader_wf: "state_wf s \<Longrightarrow> state_wf (UndropHeader s n)"
  by (auto simp: UndropHeader_def state_wf_def Let_def)

lemma DropHeader_mem:
  "canonical_key n \<noteq> [] \<Longrightarrow> canonical_key n \<in> set (ms_DropHeaders (DropHeader s n))"
  by (simp add: DropHeader_def Let_def)

lemma UndropHeader_not_mem: "canonical_key n \<notin> set (ms_DropHeaders (UndropHeader s n))"
  by (auto simp: UndropHeader_def Let_def)

lemma Undrop_headers [simp]: "ms_OutgoingHeaders (UndropHeader s n) = ms_OutgoingHeaders s"
  by (simp add: UndropHeader_def Let_def)

lemma Drop_headers [simp]: "ms_OutgoingHeaders (DropHeader s n) = ms_OutgoingHeaders s"
  by (simp add: DropHeader_def Let_def)

lemma NewMutableState_wf:
  "distinct (map fst params) \<Longrightarrow> state_wf (NewMutableState p q m params)"
  by (simp add: NewMutableState_def state_wf_def)

end
