(* ===== verification/Rule_Conditions.thy ===== *)
theory Rule_Conditions
  imports Rule_State
begin

text \<open>
  Condition matching, \<^verbatim>\<open>internal/middleware/rules/conditions.go\<close>, over the read-only
  \<^verbatim>\<open>GatewayContext\<close>. Reads of the JSON body go through the third-party package gjson, a
  parameter: \<open>me_gjson body path\<close> is its \<^verbatim>\<open>GetBytes\<close>. The callback \<^verbatim>\<open>groupDepthExceeded\<close>
  only counts, so a match returns the number of its calls beside the verdict.
\<close>

datatype gjson_type = GNull | GFalse | GNumber | GString | GTrue | GJSON

record gresult =
  gr_Exists :: bool
  gr_Type :: gjson_type
  gr_String :: string
  gr_Raw :: string
  gr_IsArray :: bool
  gr_IsObject :: bool

record match_env =
  me_lib :: golib
  me_gjson :: "string \<Rightarrow> string \<Rightarrow> gresult"

record gateway_context =
  gc_Provider :: string
  gc_Protocol :: string
  gc_Model :: string
  gc_Headers :: headers
  gc_ConfigurationName :: string
  gc_Body :: typed_body
  gc_BodyRaw :: string
  gc_Tags :: "string list"

definition invertIf :: "bool \<Rightarrow> bool \<Rightarrow> bool" where
  "invertIf neg result = (if neg then \<not> result else result)"

definition matchProvider :: "provider_condition \<Rightarrow> gateway_context \<Rightarrow> bool" where
  "matchProvider c gc =
     (if pc_Operator c \<noteq> EnumEquals then False else pc_ExpectedProvider c = gc_Provider gc)"

definition matchProtocol :: "protocol_condition \<Rightarrow> gateway_context \<Rightarrow> bool" where
  "matchProtocol c gc =
     (if prc_Operator c \<noteq> EnumEquals then False else prc_ExpectedProtocol c = gc_Protocol gc)"

definition matchString :: "golib \<Rightarrow> string_op \<Rightarrow> string \<Rightarrow> string \<Rightarrow> bool \<Rightarrow> bool" where
  "matchString lib sop pattern0 subject0 caseInsensitive =
     (let pattern = (if caseInsensitive then to_lower lib pattern0 else pattern0);
          subject = (if caseInsensitive then to_lower lib subject0 else subject0)
      in case sop of
           StringEquals \<Rightarrow> subject = pattern
         | StringStartsWith \<Rightarrow> has_prefix subject pattern
         | StringEndsWith \<Rightarrow> has_suffix subject pattern
         | StringContains \<Rightarrow> str_contains subject pattern
         | StringRegex \<Rightarrow> (if re_compiles lib pattern then re_match lib pattern subject else False)
         | StringOpOther _ \<Rightarrow> False)"

definition matchModelName :: "golib \<Rightarrow> model_name_condition \<Rightarrow> gateway_context \<Rightarrow> bool" where
  "matchModelName lib c gc =
     matchString lib (mc_Operator c) (mc_ExpectedModelName c) (gc_Model gc) (mc_CaseInsensitive c)"

text \<open>The loop over the header map, in the order of one iteration.\<close>

fun matchHeader_loop :: "golib \<Rightarrow> header_condition \<Rightarrow> headers \<Rightarrow> bool" where
  "matchHeader_loop lib c [] = False"
| "matchHeader_loop lib c ((k, vs) # hs) =
     (if \<not> matchString lib (hc_KeyOperator c) (hc_KeyPattern c) k (hc_CaseInsensitive c)
      then matchHeader_loop lib c hs
      else (case hc_ValueOperator c of
              None \<Rightarrow> True
            | Some vop \<Rightarrow>
                if matchString lib vop (hc_ValuePattern c) (join_with '', '' vs)
                     (hc_CaseInsensitive c)
                then True else matchHeader_loop lib c hs))"

definition matchHeader :: "golib \<Rightarrow> header_condition \<Rightarrow> gateway_context \<Rightarrow> bool" where
  "matchHeader lib c gc = matchHeader_loop lib c (gc_Headers gc)"

definition matchTag :: "tag_condition \<Rightarrow> gateway_context \<Rightarrow> bool" where
  "matchTag c gc =
     (if tc_Operator c \<noteq> EnumEquals then False
      else if tc_ExpectedTag c = [] then False
      else tc_ExpectedTag c \<in> set (gc_Tags gc))"

definition bodyTypeMatches :: "gresult \<Rightarrow> string \<Rightarrow> bool" where
  "bodyTypeMatches r want =
     (if want = ''string'' then gr_Type r = GString
      else if want = ''number'' then gr_Type r = GNumber
      else if want = ''bool'' then gr_Type r = GTrue \<or> gr_Type r = GFalse
      else if want = ''null'' then gr_Type r = GNull
      else if want = ''array'' then gr_IsArray r
      else if want = ''object'' then gr_IsObject r
      else False)"

definition matchBodyField :: "match_env \<Rightarrow> body_field_condition \<Rightarrow> gateway_context \<Rightarrow> bool" where
  "matchBodyField env c gc =
     (if gc_BodyRaw gc = [] then False
      else (case ParseReadTarget (bfc_Target c) of
              Inl _ \<Rightarrow> False
            | Inr t \<Rightarrow>
                if tgt_Scope t \<noteq> ScopeRequestBody then False
                else (let r = me_gjson env (gc_BodyRaw gc) (tgt_Path t) in
                      case bfc_Operator c of
                        BodyFieldExists \<Rightarrow> gr_Exists r
                      | BodyFieldEquals \<Rightarrow> gr_Exists r \<and> gr_String r = bfc_Value c
                      | BodyFieldContains \<Rightarrow> gr_Exists r \<and> str_contains (gr_String r) (bfc_Value c)
                      | BodyFieldMatches \<Rightarrow>
                          (if \<not> gr_Exists r then False
                           else if \<not> re_compiles (me_lib env) (bfc_Value c) then False
                           else re_match (me_lib env) (bfc_Value c) (gr_String r))
                      | BodyFieldIsType \<Rightarrow> gr_Exists r \<and> bodyTypeMatches r (bfc_Value c)
                      | BodyFieldOther _ \<Rightarrow> False)))"

function (sequential) matchCondition ::
  "match_env \<Rightarrow> condition \<Rightarrow> gateway_context \<Rightarrow> nat \<Rightarrow> nat \<Rightarrow> bool \<times> nat"
and matchGroup ::
  "match_env \<Rightarrow> logical_op \<Rightarrow> condition list \<Rightarrow> gateway_context \<Rightarrow> nat \<Rightarrow> nat \<Rightarrow>
     (bool \<times> bool) \<times> nat"
and matchAll ::
  "match_env \<Rightarrow> condition list \<Rightarrow> gateway_context \<Rightarrow> nat \<Rightarrow> nat \<Rightarrow> bool \<times> nat"
and matchAny ::
  "match_env \<Rightarrow> condition list \<Rightarrow> gateway_context \<Rightarrow> nat \<Rightarrow> nat \<Rightarrow> bool \<times> nat"
where
  "matchCondition env NilCondition gc depth maxDepth = (False, 0)"
| "matchCondition env (ProviderCondition c) gc depth maxDepth =
     (invertIf (pc_Not c) (matchProvider c gc), 0)"
| "matchCondition env (ProtocolCondition c) gc depth maxDepth =
     (invertIf (prc_Not c) (matchProtocol c gc), 0)"
| "matchCondition env (ModelNameCondition c) gc depth maxDepth =
     (invertIf (mc_Not c) (matchModelName (me_lib env) c gc), 0)"
| "matchCondition env (HeaderCondition c) gc depth maxDepth =
     (invertIf (hc_Not c) (matchHeader (me_lib env) c gc), 0)"
| "matchCondition env (TagCondition c) gc depth maxDepth =
     (invertIf (tc_Not c) (matchTag c gc), 0)"
| "matchCondition env (BodyFieldCondition c) gc depth maxDepth =
     (invertIf (bfc_Not c) (matchBodyField env c gc), 0)"
| "matchCondition env (RuleGroup lop children neg) gc depth maxDepth =
     (case matchGroup env lop children gc depth maxDepth of
        ((matched, exceeded), n) \<Rightarrow>
          if exceeded then (False, n) else (invertIf neg matched, n))"
| "matchCondition env (UnknownCondition _) gc depth maxDepth = (False, 0)"
| "matchGroup env lop children gc depth maxDepth =
     (if maxDepth \<le> depth then ((False, True), 1)
      else if children = [] then ((False, False), 0)
      else (case lop of
              LogicalAnd \<Rightarrow>
                (case matchAll env children gc (Suc depth) maxDepth of (r, n) \<Rightarrow> ((r, False), n))
            | LogicalOr \<Rightarrow>
                (case matchAny env children gc (Suc depth) maxDepth of (r, n) \<Rightarrow> ((r, False), n))
            | LogicalOpOther _ \<Rightarrow> ((False, False), 0)))"
| "matchAll env [] gc depth maxDepth = (True, 0)"
| "matchAll env (c # cs) gc depth maxDepth =
     (case matchCondition env c gc depth maxDepth of
        (r, n) \<Rightarrow>
          if \<not> r then (False, n)
          else (case matchAll env cs gc depth maxDepth of (r', n') \<Rightarrow> (r', n + n')))"
| "matchAny env [] gc depth maxDepth = (False, 0)"
| "matchAny env (c # cs) gc depth maxDepth =
     (case matchCondition env c gc depth maxDepth of
        (r, n) \<Rightarrow>
          if r then (True, n)
          else (case matchAny env cs gc depth maxDepth of (r', n') \<Rightarrow> (r', n + n')))"

  by pat_completeness auto
termination
  by (relation "measure (\<lambda>x. case x of
       Inl (Inl (env, c, _)) \<Rightarrow> 2 * size c
     | Inl (Inr (env, lop, cs, _)) \<Rightarrow> 2 * size_list size cs + 1
     | Inr (Inl (env, cs, _)) \<Rightarrow> 2 * size_list size cs
     | Inr (Inr (env, cs, _)) \<Rightarrow> 2 * size_list size cs)") auto

section \<open>What a condition means\<close>

text \<open>
  The reference reading of a condition, with no depth cap: a leaf by its evaluator, a group by
  the quantifier of its operator, \<^verbatim>\<open>not\<close> by negation. A group with no children is false
  before \<^verbatim>\<open>not\<close> is applied.
\<close>

fun holds :: "match_env \<Rightarrow> gateway_context \<Rightarrow> condition \<Rightarrow> bool" where
  "holds env gc NilCondition = False"
| "holds env gc (ProviderCondition c) = (pc_Not c \<noteq> matchProvider c gc)"
| "holds env gc (ProtocolCondition c) = (prc_Not c \<noteq> matchProtocol c gc)"
| "holds env gc (ModelNameCondition c) = (mc_Not c \<noteq> matchModelName (me_lib env) c gc)"
| "holds env gc (HeaderCondition c) = (hc_Not c \<noteq> matchHeader (me_lib env) c gc)"
| "holds env gc (TagCondition c) = (tc_Not c \<noteq> matchTag c gc)"
| "holds env gc (BodyFieldCondition c) = (bfc_Not c \<noteq> matchBodyField env c gc)"
| "holds env gc (RuleGroup lop children neg) =
     (neg \<noteq> (children \<noteq> [] \<and>
        (case lop of LogicalAnd \<Rightarrow> list_all (holds env gc) children
                   | LogicalOr \<Rightarrow> list_ex (holds env gc) children
                   | LogicalOpOther _ \<Rightarrow> False)))"
| "holds env gc (UnknownCondition _) = False"

fun group_depth :: "condition \<Rightarrow> nat" where
  "group_depth (RuleGroup _ children _) = Suc (fold max (map group_depth children) 0)"
| "group_depth _ = 0"

lemma fold_max_ge: "x \<in> set xs \<or> x \<le> m \<Longrightarrow> x \<le> fold max xs m" for x :: nat
  by (induction xs arbitrary: m) (auto simp: le_max_iff_disj)

lemma group_depth_child: "c \<in> set cs \<Longrightarrow> group_depth c < group_depth (RuleGroup lop cs neg)"
  by (simp add: less_Suc_eq_le fold_max_ge)

lemma matchAll_holds:
  "list_all (\<lambda>c. matchCondition env c gc d m = (holds env gc c, 0)) cs \<Longrightarrow>
   matchAll env cs gc d m = (list_all (holds env gc) cs, 0)"
  by (induction cs) auto

lemma matchAny_holds:
  "list_all (\<lambda>c. matchCondition env c gc d m = (holds env gc c, 0)) cs \<Longrightarrow>
   matchAny env cs gc d m = (list_ex (holds env gc) cs, 0)"
  by (induction cs) auto

lemma matchCondition_holds:
  "depth + group_depth c \<le> maxDepth \<Longrightarrow>
   matchCondition env c gc depth maxDepth = (holds env gc c, 0)"
proof (induction c arbitrary: depth)
  case (RuleGroup lop cs neg)
  have "Suc depth + group_depth c \<le> maxDepth" if "c \<in> set cs" for c
    using RuleGroup.prems group_depth_child [OF that, of lop neg] by linarith
  with RuleGroup.IH have *:
    "list_all (\<lambda>c. matchCondition env c gc (Suc depth) maxDepth = (holds env gc c, 0)) cs"
    by (simp add: list_all_iff)
  moreover have "depth < maxDepth" using RuleGroup.prems by simp
  ultimately show ?case
    by (cases lop) (auto simp: matchAll_holds [OF *] matchAny_holds [OF *] invertIf_def)
qed (auto simp: invertIf_def)

lemma matchHeader_loop_iff:
  "matchHeader_loop lib c hs \<longleftrightarrow>
   (\<exists>(k, vs) \<in> set hs.
      matchString lib (hc_KeyOperator c) (hc_KeyPattern c) k (hc_CaseInsensitive c) \<and>
      (case hc_ValueOperator c of None \<Rightarrow> True
       | Some vop \<Rightarrow>
           matchString lib vop (hc_ValuePattern c) (join_with '', '' vs) (hc_CaseInsensitive c)))"
  by (induction lib c hs rule: matchHeader_loop.induct) (auto split: option.splits)

text \<open>
  C2. Conditions mean what the schema says: for every condition whose groups nest no deeper
  than the cap, the capped short-circuit evaluator of the code returns exactly the reference
  reading (quantifiers over children, negation by \<^verbatim>\<open>not\<close>) and never calls the depth callback.
\<close>

theorem condition_meaning:
  "depth + group_depth c \<le> maxDepth \<Longrightarrow>
   matchCondition env c gc depth maxDepth = (holds env gc c, 0)"
  by (rule matchCondition_holds)

definition sample_env :: match_env where
  "sample_env = \<lparr>me_lib = ascii_lib,
     me_gjson = (\<lambda>_ _. \<lparr>gr_Exists = False, gr_Type = GNull, gr_String = [], gr_Raw = [],
                       gr_IsArray = False, gr_IsObject = False\<rparr>)\<rparr>"

definition sample_context :: gateway_context where
  "sample_context =
     \<lparr>gc_Provider = ''openai'', gc_Protocol = ''chat_completions'', gc_Model = ''gpt-4o'',
      gc_Headers = [(''X-Team'', [''ml'', ''eu'']), (''Accept'', [''*''])],
      gc_ConfigurationName = ''dev'', gc_Body = ChatBody ''gpt-4o'', gc_BodyRaw = [],
      gc_Tags = [''beta'']\<rparr>"

definition sample_provider :: condition where
  "sample_provider = ProviderCondition
     \<lparr>pc_Operator = EnumEquals, pc_ExpectedProvider = ''openai'', pc_Not = False\<rparr>"

definition sample_tag :: condition where
  "sample_tag = TagCondition \<lparr>tc_Operator = EnumEquals, tc_ExpectedTag = ''gold'', tc_Not = True\<rparr>"

lemmas sample_condition_defs = sample_env_def sample_context_def sample_provider_def sample_tag_def

lemma condition_meaning_witness:
  "matchCondition sample_env
     (RuleGroup LogicalAnd [sample_provider, RuleGroup LogicalOr [sample_tag] False] False)
     sample_context 0 8 = (True, 0)"
  using condition_meaning [of 0
      "RuleGroup LogicalAnd [sample_provider, RuleGroup LogicalOr [sample_tag] False] False" 8
      sample_env sample_context]
  by (simp add: sample_condition_defs matchProvider_def matchTag_def)

text \<open>
  A header condition does not depend on the order in which Go ranges over the header map,
  although the loop returns at the first entry that matches.
\<close>

theorem header_condition_order_free:
  assumes "set hs = set (gc_Headers gc)"
  shows "matchHeader lib c (gc\<lparr>gc_Headers := hs\<rparr>) = matchHeader lib c gc"
  using assms by (simp add: matchHeader_def matchHeader_loop_iff)

lemma header_condition_order_free_witness:
  "matchHeader ascii_lib
     \<lparr>hc_KeyOperator = StringEquals, hc_KeyPattern = ''x-team'', hc_ValueOperator = Some StringEndsWith,
      hc_ValuePattern = '', EU'', hc_CaseInsensitive = True, hc_Not = False\<rparr>
     (sample_context\<lparr>gc_Headers := [(''Accept'', [''*'']), (''X-Team'', [''ml'', ''eu''])]\<rparr>)"
  by (subst header_condition_order_free)
     (auto simp: sample_context_def matchHeader_def matchString_def go_defs)

text \<open>
  Over the cap the evaluator does not always fail closed. A group that exceeds the cap is
  false whatever its own \<^verbatim>\<open>not\<close> says, but an enclosing group sees only that false: under an
  outer \<^verbatim>\<open>not\<close> the whole condition becomes true although its reference reading is false.
\<close>

theorem depth_cap_inverted_by_outer_not:
  "matchCondition env (RuleGroup lop cs neg) gc 1 1 = (False, 1) \<and>
   matchCondition env
     (RuleGroup LogicalAnd [RuleGroup LogicalAnd [sample_provider] False] True)
     sample_context 0 1 = (True, 1) \<and>
   holds env sample_context
     (RuleGroup LogicalAnd [RuleGroup LogicalAnd [sample_provider] False] True) = False"
  by (simp add: invertIf_def sample_condition_defs matchProvider_def)

end
