(* ===== verification/Rule_Actions.thy ===== *)
theory Rule_Actions
  imports Rule_State
begin

text \<open>
  The action evaluators of \<^verbatim>\<open>internal/middleware/rules/actions.go\<close>. Each takes the state (and
  the typed body where it writes one) and returns the outcome with the error of the call, and
  the state after it. \<^verbatim>\<open>applyAction\<close> is the dispatch.
\<close>

datatype action_error = ErrEmptyValue | ErrUnknownModelField | ErrParseURL
  | ErrUnknownHeaderAction | ErrTarget rule_error

type_synonym action_result = "outcome \<times> action_error option"

abbreviation ok_result :: action_result where
  "ok_result \<equiv> (no_outcome, None)"

abbreviation err_result :: "action_error \<Rightarrow> action_result" where
  "err_result e \<equiv> (no_outcome, Some e)"

definition applyChangeProvider ::
  "change_provider_action \<Rightarrow> mutable_state \<Rightarrow> action_result \<times> mutable_state" where
  "applyChangeProvider a s =
     (let v = trim_space (cp_NewProvider a)
      in if v = [] then (err_result ErrEmptyValue, s)
         else (ok_result, s\<lparr>ms_Provider := v, ms_ProviderOverridden := True\<rparr>))"

definition applyTranslate ::
  "translate_action \<Rightarrow> mutable_state \<Rightarrow> action_result \<times> mutable_state" where
  "applyTranslate a s =
     (let target = trim_space (tr_TargetProtocol a)
      in if target = [] then (err_result ErrEmptyValue, s)
         else let s1 = (if ms_SourceProtocol s = []
                        then s\<lparr>ms_SourceProtocol := ms_Protocol s\<rparr> else s)
              in (ok_result, s1\<lparr>ms_Protocol := target\<rparr>))"

definition applyChangeModelName ::
  "change_model_name_action \<Rightarrow> mutable_state \<Rightarrow> typed_body \<Rightarrow>
     action_result \<times> mutable_state \<times> typed_body" where
  "applyChangeModelName a s body =
     (let newName = trim_space (cmn_NewModelName a);
          s' = s\<lparr>ms_PathParams := AList.update ''model'' newName (ms_PathParams s),
                 ms_BodyMutated := True\<rparr>
      in if newName = [] then (err_result ErrEmptyValue, s, body)
         else (case body of
                 ChatBody _ \<Rightarrow> (ok_result, s', ChatBody newName)
               | ResponsesBody _ \<Rightarrow> (ok_result, s', ResponsesBody newName)
               | MessagesBody _ \<Rightarrow> (ok_result, s', MessagesBody newName)
               | GenerateContentBody \<Rightarrow> (ok_result, s', GenerateContentBody)
               | NilBody \<Rightarrow> (ok_result, s', NilBody)
               | OtherBody \<Rightarrow> (err_result ErrUnknownModelField, s, OtherBody)))"

definition applyChangeUrl ::
  "golib \<Rightarrow> change_url_action \<Rightarrow> mutable_state \<Rightarrow> action_result \<times> mutable_state" where
  "applyChangeUrl lib a s =
     (let v = trim_space (cu_NewURL a)
      in if v = [] then (err_result ErrEmptyValue, s)
         else if \<not> url_valid lib v then (err_result ErrParseURL, s)
         else (ok_result, s\<lparr>ms_UpstreamURL := Some v\<rparr>))"

definition applyChangeApiKey ::
  "change_api_key_action \<Rightarrow> mutable_state \<Rightarrow> action_result \<times> mutable_state" where
  "applyChangeApiKey a s =
     (if cak_UseSlipSpaceKey a
      then (ok_result, s\<lparr>ms_UpstreamCredentialOverride := Some []\<rparr>)
      else let v = trim_space (cak_APIKey a)
           in if v = [] then (err_result ErrEmptyValue, s)
              else (ok_result, s\<lparr>ms_UpstreamCredentialOverride := Some v\<rparr>))"

definition applySetHeader ::
  "set_header_action \<Rightarrow> mutable_state \<Rightarrow> action_result \<times> mutable_state" where
  "applySetHeader a s =
     (let name = trim_space (sh_HeaderName a);
          value = sh_HeaderValue a
      in if name = [] then (err_result ErrEmptyValue, s)
         else (case sh_HeaderAction a of
                 HeaderSet \<Rightarrow>
                   (let s1 = UndropHeader s name
                    in (ok_result, s1\<lparr>ms_OutgoingHeaders :=
                          header_set (ms_OutgoingHeaders s1) name value\<rparr>))
               | HeaderRemove \<Rightarrow>
                   (let s1 = s\<lparr>ms_OutgoingHeaders := header_del (ms_OutgoingHeaders s) name\<rparr>
                    in (ok_result, DropHeader s1 name))
               | HeaderAppend \<Rightarrow>
                   (let s1 = UndropHeader s name;
                        existing = header_get (ms_OutgoingHeaders s1) name
                    in (ok_result, s1\<lparr>ms_OutgoingHeaders :=
                          header_set (ms_OutgoingHeaders s1) name
                            (if existing = [] then value else existing @ '', '' @ value)\<rparr>))
               | HeaderPrepend \<Rightarrow>
                   (let s1 = UndropHeader s name;
                        existing = header_get (ms_OutgoingHeaders s1) name
                    in (ok_result, s1\<lparr>ms_OutgoingHeaders :=
                          header_set (ms_OutgoingHeaders s1) name
                            (if existing = [] then value else value @ '', '' @ existing)\<rparr>))
               | HeaderOpOther _ \<Rightarrow> (err_result ErrUnknownHeaderAction, s)))"

definition applyAppendQueryString ::
  "append_query_action \<Rightarrow> mutable_state \<Rightarrow> action_result \<times> mutable_state" where
  "applyAppendQueryString a s =
     (let key = trim_space (aq_Key a)
      in if key = [] then (err_result ErrEmptyValue, s)
         else (ok_result, s\<lparr>ms_QueryAdditions :=
                 ms_QueryAdditions s @ [\<lparr>qa_Key = key, qa_Value = aq_Value a\<rparr>]\<rparr>))"

definition applyLlmImpersonation :: "llm_impersonation_action \<Rightarrow> action_result" where
  "applyLlmImpersonation a =
     (let msg = trim_space (li_Message a)
      in if msg = [] then err_result ErrEmptyValue
         else (\<lparr>out_Terminate = True,
                out_Response = Some \<lparr>resp_StatusCode = 200, resp_Body = msg,
                                     resp_BodyType = StatusBodyText\<rparr>\<rparr>, None))"

definition applyAddTag ::
  "add_tag_action \<Rightarrow> mutable_state \<Rightarrow> action_result \<times> mutable_state" where
  "applyAddTag a s =
     (let t = trim_space (at_Tag a)
      in if t = [] then (err_result ErrEmptyValue, s)
         else (ok_result, snd (AddTag s t)))"

definition recordBodyOp ::
  "mutable_state \<Rightarrow> op_kind \<Rightarrow> string \<Rightarrow> string \<Rightarrow> rewrite_value \<Rightarrow> action_result \<times> mutable_state"
where
  "recordBodyOp s kind actType tgt value =
     (case ParseTarget tgt of
        Inl e \<Rightarrow> (err_result (ErrTarget e), s)
      | Inr t \<Rightarrow>
          (let bop = \<lparr>bop_Kind = kind, bop_Path = tgt_Path t, bop_Value = value,
                      bop_ActionType = actType\<rparr>
           in if tgt_Scope t = ScopeResponseBody
              then (ok_result, s\<lparr>ms_ResponseRewrites := ms_ResponseRewrites s @ [bop]\<rparr>)
              else (ok_result, s\<lparr>ms_BodyRewrites := ms_BodyRewrites s @ [bop]\<rparr>)))"

definition applyRewriteField ::
  "rewrite_field_action \<Rightarrow> mutable_state \<Rightarrow> action_result \<times> mutable_state" where
  "applyRewriteField a s = recordBodyOp s OpSet ''rewriteField'' (rf_Target a) (rf_Value a)"

text \<open>The zero \<^verbatim>\<open>RewriteValue{}\<close> is an empty literal.\<close>

definition applyRemoveField ::
  "remove_field_action \<Rightarrow> mutable_state \<Rightarrow> action_result \<times> mutable_state" where
  "applyRemoveField a s = recordBodyOp s OpRemove ''removeField'' (rm_Target a) (RVLiteral [])"

definition applyAppendField ::
  "append_field_action \<Rightarrow> mutable_state \<Rightarrow> action_result \<times> mutable_state" where
  "applyAppendField a s = recordBodyOp s OpAppend ''appendField'' (af_Target a) (af_Value a)"

definition applyUseResiliencePolicy ::
  "use_policy_action \<Rightarrow> mutable_state \<Rightarrow> action_result \<times> mutable_state" where
  "applyUseResiliencePolicy a s =
     (ok_result, s\<lparr>ms_PolicyRef := trim_space (up_PolicyName a)\<rparr>)"

definition applyReturnStatusCode :: "return_status_action \<Rightarrow> action_result" where
  "applyReturnStatusCode a =
     (let status = (if rs_StatusCode a < 100 \<or> 599 < rs_StatusCode a then 500 else rs_StatusCode a)
      in (\<lparr>out_Terminate = True,
           out_Response = Some \<lparr>resp_StatusCode = status, resp_Body = rs_Body a,
                                resp_BodyType = rs_BodyType a\<rparr>\<rparr>, None))"

text \<open>The result of an action that leaves the typed body alone.\<close>

definition keep_body ::
  "typed_body \<Rightarrow> action_result \<times> mutable_state \<Rightarrow> action_result \<times> mutable_state \<times> typed_body" where
  "keep_body body r = (fst r, snd r, body)"

fun applyAction ::
  "golib \<Rightarrow> action \<Rightarrow> mutable_state \<Rightarrow> typed_body \<Rightarrow> action_result \<times> mutable_state \<times> typed_body"
where
  "applyAction lib (ChangeProviderAction a) s b = keep_body b (applyChangeProvider a s)"
| "applyAction lib (TranslateAction a) s b = keep_body b (applyTranslate a s)"
| "applyAction lib (ChangeModelNameAction a) s b = applyChangeModelName a s b"
| "applyAction lib (ChangeUrlAction a) s b = keep_body b (applyChangeUrl lib a s)"
| "applyAction lib (ChangeApiKeyAction a) s b = keep_body b (applyChangeApiKey a s)"
| "applyAction lib (SetHeaderAction a) s b = keep_body b (applySetHeader a s)"
| "applyAction lib (AppendQueryStringAction a) s b = keep_body b (applyAppendQueryString a s)"
| "applyAction lib (ReturnStatusCodeAction a) s b = (applyReturnStatusCode a, s, b)"
| "applyAction lib (LlmImpersonationAction a) s b = (applyLlmImpersonation a, s, b)"
| "applyAction lib (AddTagAction a) s b = keep_body b (applyAddTag a s)"
| "applyAction lib (UseResiliencePolicyAction a) s b = keep_body b (applyUseResiliencePolicy a s)"
| "applyAction lib (RewriteFieldAction a) s b = keep_body b (applyRewriteField a s)"
| "applyAction lib (RemoveFieldAction a) s b = keep_body b (applyRemoveField a s)"
| "applyAction lib (AppendFieldAction a) s b = keep_body b (applyAppendField a s)"
| "applyAction lib (UnknownAction _) s b = (ok_result, s, b)"

section \<open>What the actions keep\<close>

lemmas apply_defs = applyChangeProvider_def applyTranslate_def applyChangeModelName_def
  applyChangeUrl_def applyChangeApiKey_def applySetHeader_def applyAppendQueryString_def
  applyLlmImpersonation_def applyAddTag_def recordBodyOp_def applyRewriteField_def
  applyRemoveField_def applyAppendField_def applyUseResiliencePolicy_def
  applyReturnStatusCode_def keep_body_def no_outcome_def

lemmas validate_defs = validate_changeProvider_def validate_translate_def validate_changeModelName_def
  validate_changeUrl_def validate_changeApiKey_def validate_setHeader_def
  validate_appendQueryString_def validate_returnStatusCode_def validate_llmImpersonation_def
  validate_addTag_def validate_useResiliencePolicy_def validateWriteTarget_def requireNonEmpty_def

lemma set_outgoing_wf:
  assumes "state_wf t" and "canonical_key n \<notin> set (ms_DropHeaders t)"
  shows "state_wf (t\<lparr>ms_OutgoingHeaders := header_set (ms_OutgoingHeaders t) n v\<rparr>)"
proof -
  have "fst ` set (header_set (ms_OutgoingHeaders t) n v)
      = insert (canonical_key n) (fst ` set (ms_OutgoingHeaders t))"
    by (simp add: header_set_def dom_update)
  with assms show ?thesis by (auto simp: state_wf_def intro: header_distinct)
qed

lemma del_outgoing_keys:
  "fst ` set (header_del h n) = fst ` set h - {canonical_key n}"
  by (metis delete_keys header_del_def set_map set_removeAll)

lemma applySetHeader_wf: "state_wf s \<Longrightarrow> state_wf (snd (applySetHeader a s))"
proof -
  assume wf: "state_wf s"
  have upd: "state_wf (UndropHeader s n\<lparr>ms_OutgoingHeaders := header_set (ms_OutgoingHeaders s) n v\<rparr>)" for n v
    using set_outgoing_wf [OF UndropHeader_wf [OF wf] UndropHeader_not_mem, of n v] by simp
  have del: "state_wf (DropHeader (s\<lparr>ms_OutgoingHeaders := header_del (ms_OutgoingHeaders s) n\<rparr>) n)" for n
    by (rule DropHeader_wf) (use wf in \<open>auto simp: state_wf_def del_outgoing_keys header_distinct\<close>)
  show ?thesis
    using upd del wf by (auto simp: applySetHeader_def Let_def split: header_op.splits)
qed

lemma applyAction_wf:
  assumes "state_wf s"
  shows "state_wf (fst (snd (applyAction lib a s b)))"
proof (cases a)
  case (SetHeaderAction x)
  then show ?thesis using applySetHeader_wf [OF assms] by (simp add: keep_body_def)
next
  case (AddTagAction x)
  then show ?thesis using AddTag_wf [OF assms] assms by (simp add: apply_defs Let_def)
qed (use assms in \<open>auto simp: apply_defs state_wf_def Let_def distinct_update
       split: typed_body.splits sum.splits\<close>)

lemma applyAction_error:
  assumes "applyAction lib a s b = ((out, Some e), s', b')"
  shows "s' = s \<and> b' = b \<and> out = no_outcome"
  using assms
  by (cases a) (auto simp: apply_defs Let_def split: typed_body.splits sum.splits if_splits header_op.splits)

lemma validated_action_applies:
  assumes "validate_action lib a = None" and "b \<noteq> OtherBody"
  shows "snd (fst (applyAction lib a s b)) = None"
  using assms
  by (cases a) (auto simp: apply_defs validate_defs Let_def
      split: typed_body.splits sum.splits if_splits header_op.splits option.splits)

lemma unvalidated_action_rejected:
  assumes "validate_action lib a \<noteq> None"
  shows "snd (fst (applyAction lib a s b)) \<noteq> None \<or>
    (\<exists>x. a = UseResiliencePolicyAction x) \<or>
    (\<exists>x r. a = ReturnStatusCodeAction x \<and> applyReturnStatusCode x = (\<lparr>out_Terminate = True, out_Response = Some r\<rparr>, None) \<and> resp_StatusCode r = 500)"
  using assms
  by (cases a) (auto simp: apply_defs validate_defs Let_def
      split: typed_body.splits sum.splits if_splits header_op.splits option.splits)

lemma applyAction_tags: "prefix (ms_Tags s) (ms_Tags (fst (snd (applyAction lib a s b))))"
  by (cases a) (auto simp: apply_defs Let_def AddTag_def UndropHeader_def DropHeader_def
      split: typed_body.splits sum.splits header_op.splits)

lemma applyAction_body: "snd (snd (applyAction lib a s b)) = OtherBody \<longleftrightarrow> b = OtherBody"
  by (cases a) (auto simp: apply_defs Let_def split: typed_body.splits)

lemma applyAction_response:
  "out_Terminate (fst (fst (applyAction lib a s b))) \<longleftrightarrow>
   out_Response (fst (fst (applyAction lib a s b))) \<noteq> None"
  by (cases a) (auto simp: apply_defs Let_def split: typed_body.splits sum.splits header_op.splits)

end
