(* ===== verification/Rule_Engine.thy ===== *)
theory Rule_Engine
  imports Rule_Conditions Rule_Actions
begin

text \<open>
  The evaluator, \<^verbatim>\<open>internal/middleware/rules/evaluator.go\<close>: the walk over a configuration's
  rules, each against the live context the earlier rules left behind. Meters and timestamps are
  left out; the match buffer and the error counter are the lists \<open>res_Matches\<close> and
  \<open>res_Errors\<close> (rule name and error kind) of the result.
\<close>

record rule_matched =
  rm_RuleName :: string
  rm_RuleID :: string
  rm_Configuration :: string
  rm_ActionsApplied :: "string list"
  rm_Terminated :: bool
  rm_Error :: "action_error option"

record eval_result =
  res_Outcome :: outcome
  res_SourceRule :: "rule_contract option"
  res_Matches :: "rule_matched list"
  res_Errors :: "(string \<times> string) list"
  res_State :: mutable_state
  res_Body :: typed_body

text \<open>\<^verbatim>\<open>NewEvaluator\<close>: a non-positive cap becomes 8.\<close>

definition effective_max_depth :: "int \<Rightarrow> nat" where
  "effective_max_depth maxGroupDepth = (if maxGroupDepth \<le> 0 then 8 else nat maxGroupDepth)"

definition liveModelName :: "mutable_state \<Rightarrow> typed_body \<Rightarrow> string" where
  "liveModelName s body =
     (let v = trim_space (param (ms_PathParams s) ''model'')
      in if v \<noteq> [] then v
         else (case body of
                 ChatBody m \<Rightarrow> trim_space m
               | ResponsesBody m \<Rightarrow> trim_space m
               | MessagesBody m \<Rightarrow> trim_space m
               | GenerateContentBody \<Rightarrow> []
               | NilBody \<Rightarrow> []
               | OtherBody \<Rightarrow> []))"

definition mergeRuleHeaders :: "headers \<Rightarrow> headers \<Rightarrow> headers" where
  "mergeRuleHeaders inbound outgoing =
     (if inbound = [] \<and> outgoing = [] then []
      else fold (\<lambda>(k, vs) h. AList.update k vs h) outgoing
             (fold (\<lambda>(k, vs) h. AList.update k vs h) inbound []))"

definition liveGatewayContext ::
  "gateway_context \<Rightarrow> mutable_state \<Rightarrow> typed_body \<Rightarrow> gateway_context" where
  "liveGatewayContext initial s body =
     (let model = liveModelName s body
      in initial\<lparr>gc_Provider := ms_Provider s,
                 gc_Protocol := ms_Protocol s,
                 gc_Tags := ms_Tags s,
                 gc_Body := body,
                 gc_Model := (if model \<noteq> [] then model else gc_Model initial),
                 gc_Headers := mergeRuleHeaders (gc_Headers initial) (ms_OutgoingHeaders s)\<rparr>)"

text \<open>
  \<^verbatim>\<open>applyRuleActions\<close>: the types of the actions run, the terminating outcome (or the empty one),
  the last error, one \<^verbatim>\<open>action_apply\<close> record per error, and the state and body after it.
\<close>

record applied =
  ap_Types :: "string list"
  ap_Outcome :: outcome
  ap_Error :: "action_error option"
  ap_Errors :: nat
  ap_State :: mutable_state
  ap_Body :: typed_body

fun applyRuleActions ::
  "golib \<Rightarrow> action list \<Rightarrow> action_error option \<Rightarrow> mutable_state \<Rightarrow> typed_body \<Rightarrow> applied" where
  "applyRuleActions lib [] lastErr s b =
     \<lparr>ap_Types = [], ap_Outcome = no_outcome, ap_Error = lastErr, ap_Errors = 0,
      ap_State = s, ap_Body = b\<rparr>"
| "applyRuleActions lib (act # acts) lastErr s b =
     (case applyAction lib act s b of
        ((out, err), s', b') \<Rightarrow>
          (let lastErr' = (case err of None \<Rightarrow> lastErr | Some e \<Rightarrow> Some e);
               nerr = (case err of None \<Rightarrow> 0 | Some _ \<Rightarrow> 1)
           in if out_Terminate out
              then \<lparr>ap_Types = [actionType act], ap_Outcome = out, ap_Error = lastErr',
                    ap_Errors = nerr, ap_State = s', ap_Body = b'\<rparr>
              else (let r = applyRuleActions lib acts lastErr' s' b'
                    in r\<lparr>ap_Types := actionType act # ap_Types r,
                         ap_Errors := nerr + ap_Errors r\<rparr>)))"

definition rule_match_event :: "gateway_context \<Rightarrow> rule_contract \<Rightarrow> applied \<Rightarrow> rule_matched" where
  "rule_match_event gc rule ap =
     \<lparr>rm_RuleName = rule_Name rule,
      rm_RuleID = (case rule_ID rule of None \<Rightarrow> [] | Some i \<Rightarrow> i),
      rm_Configuration = gc_ConfigurationName gc,
      rm_ActionsApplied = ap_Types ap,
      rm_Terminated = out_Terminate (ap_Outcome ap),
      rm_Error = ap_Error ap\<rparr>"

fun evalRules ::
  "match_env \<Rightarrow> nat \<Rightarrow> gateway_context \<Rightarrow> rule_contract list \<Rightarrow> mutable_state \<Rightarrow> typed_body \<Rightarrow>
     eval_result"
where
  "evalRules env maxDepth gc [] s b =
     \<lparr>res_Outcome = no_outcome, res_SourceRule = None, res_Matches = [], res_Errors = [],
      res_State = s, res_Body = b\<rparr>"
| "evalRules env maxDepth gc (rule # rules) s b =
     (case matchCondition env (rule_Condition rule) (liveGatewayContext gc s b) 0 maxDepth of
        (matched, exceeded) \<Rightarrow>
          (let depthErrs = replicate exceeded (rule_Name rule, ''group_depth'')
           in if \<not> matched
              then (let r = evalRules env maxDepth gc rules s b
                    in r\<lparr>res_Errors := depthErrs @ res_Errors r\<rparr>)
              else
                (let ap = applyRuleActions (me_lib env) (rule_Actions rule) None s b;
                     match = rule_match_event gc rule ap;
                     errs = depthErrs @ replicate (ap_Errors ap) (rule_Name rule, ''action_apply'')
                 in if out_Terminate (ap_Outcome ap)
                    then \<lparr>res_Outcome = ap_Outcome ap, res_SourceRule = Some rule,
                          res_Matches = [match], res_Errors = errs,
                          res_State = ap_State ap, res_Body = ap_Body ap\<rparr>
                    else if rule_Behavior rule = BehaviorExit
                    then \<lparr>res_Outcome = no_outcome, res_SourceRule = None,
                          res_Matches = [match], res_Errors = errs,
                          res_State = ap_State ap, res_Body = ap_Body ap\<rparr>
                    else (let r = evalRules env maxDepth gc rules (ap_State ap) (ap_Body ap)
                          in r\<lparr>res_Matches := match # res_Matches r,
                               res_Errors := errs @ res_Errors r\<rparr>))))"

text \<open>\<^verbatim>\<open>Evaluate\<close> on a snapshot: the rules attached to the configuration's name.\<close>

definition Evaluate ::
  "match_env \<Rightarrow> nat \<Rightarrow> (string \<rightharpoonup> rule_contract list) \<Rightarrow> gateway_context \<Rightarrow> mutable_state \<Rightarrow>
     typed_body \<Rightarrow> eval_result"
where
  "Evaluate env maxDepth perConfiguration gc s b =
     evalRules env maxDepth gc
       (case perConfiguration (gc_ConfigurationName gc) of None \<Rightarrow> [] | Some rs \<Rightarrow> rs) s b"

section \<open>Lemmas on the walk\<close>

lemma applyRuleActions_wf: "state_wf s \<Longrightarrow> state_wf (ap_State (applyRuleActions lib as e s b))"
proof (induction as arbitrary: e s b)
  case (Cons a as)
  then show ?case using applyAction_wf [OF Cons.prems, of lib a b]
    by (auto simp: Let_def split: prod.splits)
qed simp

lemma applyRuleActions_tags:
  "prefix (ms_Tags s) (ms_Tags (ap_State (applyRuleActions lib as e s b)))"
proof (induction as arbitrary: e s b)
  case (Cons a as)
  obtain out err s' b' where r: "applyAction lib a s b = ((out, err), s', b')" by (metis prod.exhaust)
  have "prefix (ms_Tags s) (ms_Tags s')" using applyAction_tags [of s lib a b] by (simp add: r)
  then show ?case
    using Cons.IH [of s' "case err of None \<Rightarrow> e | Some x \<Rightarrow> Some x" b'] by (auto simp: r Let_def intro: prefix_order.trans)
qed simp

lemma applyRuleActions_response:
  "out_Terminate (ap_Outcome (applyRuleActions lib as e s b)) \<longleftrightarrow>
   out_Response (ap_Outcome (applyRuleActions lib as e s b)) \<noteq> None"
proof (induction as arbitrary: e s b)
  case (Cons a as)
  then show ?case using applyAction_response [of lib a s b] by (auto simp: Let_def split: prod.splits)
qed (simp add: no_outcome_def)

lemma applyRuleActions_validated:
  "\<lbrakk>list_all (\<lambda>a. validate_action lib a = None) as; b \<noteq> OtherBody\<rbrakk> \<Longrightarrow>
   ap_Errors (applyRuleActions lib as e s b) = 0 \<and> ap_Error (applyRuleActions lib as e s b) = e \<and>
   ap_Body (applyRuleActions lib as e s b) \<noteq> OtherBody"
proof (induction as arbitrary: e s b)
  case (Cons a as)
  obtain out err s' b' where r: "applyAction lib a s b = ((out, err), s', b')" by (metis prod.exhaust)
  have "err = None" using validated_action_applies [of lib a b s] Cons.prems by (simp add: r)
  moreover have "b' \<noteq> OtherBody" using applyAction_body [of lib a s b] Cons.prems by (simp add: r)
  ultimately show ?case using Cons.IH [of b' e s'] Cons.prems by (simp add: r Let_def)
qed simp

text \<open>The action list runs left to right up to the first terminating action.\<close>

lemma applyRuleActions_types:
  "prefix (ap_Types (applyRuleActions lib as e s b)) (map actionType as)"
  by (induction as arbitrary: e s b) (auto simp: Let_def split: prod.splits)

definition stop_at :: "match_env \<Rightarrow> nat \<Rightarrow> gateway_context \<Rightarrow> rule_contract \<Rightarrow> mutable_state \<Rightarrow> typed_body \<Rightarrow> bool" where
  "stop_at env maxDepth gc rule s b \<longleftrightarrow>
     fst (matchCondition env (rule_Condition rule) (liveGatewayContext gc s b) 0 maxDepth) \<and>
     (rule_Behavior rule = BehaviorExit \<or>
      out_Terminate (ap_Outcome (applyRuleActions (me_lib env) (rule_Actions rule) None s b)))"

fun stopped :: "match_env \<Rightarrow> nat \<Rightarrow> gateway_context \<Rightarrow> rule_contract list \<Rightarrow> mutable_state \<Rightarrow> typed_body \<Rightarrow> bool" where
  "stopped env maxDepth gc [] s b = False"
| "stopped env maxDepth gc (rule # rules) s b =
     (stop_at env maxDepth gc rule s b \<or>
      (let r = evalRules env maxDepth gc [rule] s b
       in stopped env maxDepth gc rules (res_State r) (res_Body r)))"

definition then_result :: "eval_result \<Rightarrow> eval_result \<Rightarrow> eval_result" where
  "then_result r q = q\<lparr>res_Matches := res_Matches r @ res_Matches q, res_Errors := res_Errors r @ res_Errors q\<rparr>"

lemma then_result_assoc: "then_result (then_result a b) c = then_result a (then_result b c)"
  by (simp add: then_result_def)

lemma evalRules_Cons:
  "evalRules env d gc (rule # rules) s b =
     (let r = evalRules env d gc [rule] s b
      in if stop_at env d gc rule s b then r
         else then_result r (evalRules env d gc rules (res_State r) (res_Body r)))"
  by (auto simp: then_result_def stop_at_def Let_def split: prod.splits)

lemma then_result_state [simp]: "res_State (then_result r q) = res_State q" "res_Body (then_result r q) = res_Body q"
  by (simp_all add: then_result_def)

lemma evalRules_append:
  "evalRules env d gc (xs @ ys) s b =
     (let r = evalRules env d gc xs s b
      in if stopped env d gc xs s b then r
         else then_result r (evalRules env d gc ys (res_State r) (res_Body r)))"
proof (induction xs arbitrary: s b)
  case Nil
  show ?case by (simp add: then_result_def)
next
  case (Cons x xs)
  then show ?case
    by (simp only: append_Cons evalRules_Cons [of _ _ _ x "xs @ ys"] evalRules_Cons [of _ _ _ x xs]
        stopped.simps Let_def then_result_assoc then_result_state if_distrib [where f = "then_result _"] split: if_split) auto
qed

lemma evalRules_wf: "state_wf s \<Longrightarrow> state_wf (res_State (evalRules env d gc rules s b))"
  by (induction rules arbitrary: s b) (auto simp: Let_def applyRuleActions_wf split: prod.splits)

lemma evalRules_tags: "prefix (ms_Tags s) (ms_Tags (res_State (evalRules env d gc rules s b)))"
proof (induction rules arbitrary: s b)
  case (Cons r rs)
  have t: "prefix (ms_Tags s) (ms_Tags (ap_State (applyRuleActions l as e s b)))" for l as e
    by (rule applyRuleActions_tags)
  show ?case
    by (auto simp: Let_def t Cons.IH split: prod.splits intro: prefix_order.trans [OF t Cons.IH])
qed simp

lemma evalRules_response:
  "out_Terminate (res_Outcome (evalRules env d gc rules s b)) \<longleftrightarrow>
     out_Response (res_Outcome (evalRules env d gc rules s b)) \<noteq> None"
proof (induction rules arbitrary: s b)
  case (Cons r rs)
  show ?case
    using Cons.IH applyRuleActions_response
    by (cases "matchCondition env (rule_Condition r) (liveGatewayContext gc s b) 0 d")
       (simp add: Let_def no_outcome_def)
qed (simp add: no_outcome_def)

lemma evalRules_source:
  "out_Terminate (res_Outcome (evalRules env d gc rules s b)) \<longleftrightarrow>
     res_SourceRule (evalRules env d gc rules s b) \<noteq> None"
proof (induction rules arbitrary: s b)
  case (Cons r rs)
  show ?case
    using Cons.IH
    by (cases "matchCondition env (rule_Condition r) (liveGatewayContext gc s b) 0 d")
       (simp add: Let_def no_outcome_def)
qed (simp add: no_outcome_def)

lemma evalRules_matches:
  "subseq (map rm_RuleName (res_Matches (evalRules env d gc rules s b))) (map rule_Name rules)"
  by (induction rules arbitrary: s b) (auto simp: Let_def rule_match_event_def split: prod.splits)

lemma evalRules_validated:
  "\<lbrakk>list_all (\<lambda>r. rule_Validate (me_lib env) r = None) rules; b \<noteq> OtherBody\<rbrakk> \<Longrightarrow>
   set (map snd (res_Errors (evalRules env d gc rules s b))) \<subseteq> {''group_depth''} \<and>
   set (map rm_Error (res_Matches (evalRules env d gc rules s b))) \<subseteq> {None}"
proof (induction rules arbitrary: s b)
  case (Cons r rs)
  let ?ap = "applyRuleActions (me_lib env) (rule_Actions r) None s b"
  have "ap_Errors ?ap = 0 \<and> ap_Error ?ap = None \<and> ap_Body ?ap \<noteq> OtherBody"
    using Cons.prems rule_Validate_None by (intro applyRuleActions_validated) auto
  with Cons.IH [of "ap_Body ?ap" "ap_State ?ap"] Cons.IH [of b s] Cons.prems show ?case
    by (cases "matchCondition env (rule_Condition r) (liveGatewayContext gc s b) 0 d")
       (auto simp: Let_def rule_match_event_def)
qed simp

lemma evalRules_source_last:
  "res_SourceRule (evalRules env d gc rules s b) = Some r \<Longrightarrow>
   r \<in> set rules \<and> res_Matches (evalRules env d gc rules s b) \<noteq> [] \<and>
   rm_RuleName (last (res_Matches (evalRules env d gc rules s b))) = rule_Name r \<and>
   rm_Terminated (last (res_Matches (evalRules env d gc rules s b)))"
proof (induction rules arbitrary: s b)
  case (Cons x xs)
  then show ?case
    by (cases "matchCondition env (rule_Condition x) (liveGatewayContext gc s b) 0 d")
       (auto simp: Let_def rule_match_event_def split: if_splits)
qed simp

section \<open>Properties\<close>

text \<open>
  C1. The rule chain is sequential: evaluating \<open>xs @ ys\<close> is evaluating \<open>xs\<close> and, unless a
  matching rule of \<open>xs\<close> stopped the chain (an \<^verbatim>\<open>exit\<close> behaviour or a terminating action),
  evaluating \<open>ys\<close> from the state and body \<open>xs\<close> left behind, with the match and error logs
  appended. A stopped chain is not influenced by any later rule.
\<close>

theorem rule_chain_sequential:
  "evalRules env d gc (xs @ ys) s b =
     (let r = evalRules env d gc xs s b
      in if stopped env d gc xs s b then r
         else then_result r (evalRules env d gc ys (res_State r) (res_Body r)))"
  by (rule evalRules_append)

text \<open>
  C3. Every evaluation keeps the state invariant (tags and dropped headers are sets, header and
  parameter maps have one entry per key, no header is both dropped and set) and only ever adds
  tags after the ones already there.
\<close>

theorem evaluation_keeps_state:
  assumes "state_wf s"
  shows "state_wf (res_State (Evaluate env d cfg gc s b)) \<and>
    prefix (ms_Tags s) (ms_Tags (res_State (Evaluate env d cfg gc s b)))"
  using assms by (simp add: Evaluate_def evalRules_wf evalRules_tags)

definition sample_rule :: "string \<Rightarrow> rule_behavior \<Rightarrow> action list \<Rightarrow> rule_contract" where
  "sample_rule n bh acts =
     \<lparr>rule_ID = None, rule_Name = n, rule_Condition = sample_provider, rule_Actions = acts,
      rule_Behavior = bh\<rparr>"

definition sample_rules :: "rule_contract list" where
  "sample_rules =
     [sample_rule ''tagger'' BehaviorContinue
        [AddTagAction \<lparr>at_Tag = ''gold''\<rparr>,
         SetHeaderAction \<lparr>sh_HeaderName = ''x-drop'', sh_HeaderAction = HeaderRemove, sh_HeaderValue = []\<rparr>],
      sample_rule ''blocker'' BehaviorContinue
        [ReturnStatusCodeAction \<lparr>rs_StatusCode = 403, rs_Body = ''no'', rs_BodyType = StatusBodyText\<rparr>],
      sample_rule ''never'' BehaviorContinue [AddTagAction \<lparr>at_Tag = ''late''\<rparr>]]"

definition sample_state :: mutable_state where
  "sample_state = NewMutableState ''openai'' ''chat_completions'' ''/v1/chat/completions'' []"

lemmas sample_rule_defs = sample_condition_defs sample_rule_def sample_rules_def sample_state_def
  NewMutableState_def

lemma sample_evaluation:
  "evalRules sample_env 8 sample_context sample_rules sample_state NilBody =
     \<lparr>res_Outcome = \<lparr>out_Terminate = True,
        out_Response = Some \<lparr>resp_StatusCode = 403, resp_Body = ''no'', resp_BodyType = StatusBodyText\<rparr>\<rparr>,
      res_SourceRule = Some (sample_rules ! 1),
      res_Matches = [\<lparr>rm_RuleName = ''tagger'', rm_RuleID = [], rm_Configuration = ''dev'',
          rm_ActionsApplied = [''addTag'', ''setHeader''], rm_Terminated = False, rm_Error = None\<rparr>,
        \<lparr>rm_RuleName = ''blocker'', rm_RuleID = [], rm_Configuration = ''dev'',
          rm_ActionsApplied = [''returnStatusCode''], rm_Terminated = True, rm_Error = None\<rparr>],
      res_Errors = [],
      res_State = sample_state\<lparr>ms_Tags := [''gold''], ms_DropHeaders := [''X-Drop'']\<rparr>,
      res_Body = NilBody\<rparr>"
  by (simp add: sample_rule_defs invertIf_def matchProvider_def liveGatewayContext_def
      apply_defs AddTag_def DropHeader_def header_del_def rule_match_event_def Let_def go_defs)

lemma evaluation_keeps_state_witness:
  "state_wf (res_State (Evaluate sample_env 8 [''dev'' \<mapsto> sample_rules] sample_context sample_state NilBody)) \<and>
   prefix [] (ms_Tags (res_State
     (Evaluate sample_env 8 [''dev'' \<mapsto> sample_rules] sample_context sample_state NilBody)))"
  using evaluation_keeps_state [of sample_state sample_env 8 "[''dev'' \<mapsto> sample_rules]"
      sample_context NilBody]
  by (simp add: sample_state_def NewMutableState_def state_wf_def)

text \<open>
  The verdict of an evaluation and its log agree: the chain terminates exactly when a
  response is to be written, exactly when a source rule is named; that rule is one of the
  configuration's rules; and the logged matches are in the order of the rules.
\<close>

theorem evaluation_verdict:
  "(out_Terminate (res_Outcome (evalRules env d gc rules s b)) \<longleftrightarrow>
      out_Response (res_Outcome (evalRules env d gc rules s b)) \<noteq> None) \<and>
   (out_Terminate (res_Outcome (evalRules env d gc rules s b)) \<longleftrightarrow>
      res_SourceRule (evalRules env d gc rules s b) \<noteq> None) \<and>
   res_SourceRule (evalRules env d gc rules s b) \<in> insert None (Some ` set rules) \<and>
   subseq (map rm_RuleName (res_Matches (evalRules env d gc rules s b))) (map rule_Name rules)"
  using evalRules_source_last [of env d gc rules s b] evalRules_source [of env d gc rules s b]
    evalRules_response [of env d gc rules s b]
  by (cases "res_SourceRule (evalRules env d gc rules s b)")
     (auto simp: evalRules_matches)

text \<open>
  C4. Validation at load time rules out run-time action errors: when every rule of the chain
  passed \<^verbatim>\<open>Validate\<close> and the typed body is one of the protocols' request types, the only error
  an evaluation can count is the group depth, and no match carries an error.
\<close>

theorem validated_rules_never_fail:
  assumes "list_all (\<lambda>r. rule_Validate (me_lib env) r = None) rules" and "b \<noteq> OtherBody"
  shows "set (map snd (res_Errors (evalRules env d gc rules s b))) \<subseteq> {''group_depth''} \<and>
    set (map rm_Error (res_Matches (evalRules env d gc rules s b))) \<subseteq> {None}"
  using assms by (rule evalRules_validated)

lemma validated_rules_never_fail_witness:
  "set (map rm_Error (res_Matches (evalRules sample_env 8 sample_context sample_rules sample_state NilBody)))
     \<subseteq> {None}"
  using validated_rules_never_fail [of sample_env sample_rules NilBody 8 sample_context sample_state]
  by (simp add: sample_rule_defs rule_Validate_def validate_defs go_defs)

text \<open>
  A header action decides what an earlier action may have decided otherwise: after any
  successful \<^verbatim>\<open>setHeader\<close> with \<^verbatim>\<open>set\<close>, the header has that value and is not recorded for removal;
  after \<^verbatim>\<open>remove\<close> it is gone and recorded for removal; every other header is untouched.
\<close>

theorem setHeader_effect:
  assumes "trim_space n \<noteq> []"
  shows "header_values (ms_OutgoingHeaders (snd (applySetHeader
            \<lparr>sh_HeaderName = n, sh_HeaderAction = HeaderSet, sh_HeaderValue = v\<rparr> s))) k =
          (if canonical_key k = canonical_key (trim_space n) then [v]
           else header_values (ms_OutgoingHeaders s) k) \<and>
    canonical_key (trim_space n) \<notin> set (ms_DropHeaders (snd (applySetHeader
            \<lparr>sh_HeaderName = n, sh_HeaderAction = HeaderSet, sh_HeaderValue = v\<rparr> s))) \<and>
    header_values (ms_OutgoingHeaders (snd (applySetHeader
            \<lparr>sh_HeaderName = n, sh_HeaderAction = HeaderRemove, sh_HeaderValue = v\<rparr> s))) k =
          (if canonical_key k = canonical_key (trim_space n) then []
           else header_values (ms_OutgoingHeaders s) k) \<and>
    canonical_key (trim_space n) \<in> set (ms_DropHeaders (snd (applySetHeader
            \<lparr>sh_HeaderName = n, sh_HeaderAction = HeaderRemove, sh_HeaderValue = v\<rparr> s)))"
  using assms
  by (simp add: applySetHeader_def Let_def header_laws UndropHeader_not_mem [simplified] DropHeader_mem)

lemma setHeader_effect_witness:
  "header_values (ms_OutgoingHeaders (snd (applySetHeader
      \<lparr>sh_HeaderName = '' x-team'', sh_HeaderAction = HeaderSet, sh_HeaderValue = ''ml''\<rparr> sample_state)))
      ''X-TEAM'' = [''ml'']"
  using setHeader_effect [of "'' x-team''" "''ml''" sample_state "''X-TEAM''"]
  by (simp add: go_defs)

end
