(* ===== verification/Resilience_Schema.thy ===== *)
theory Resilience_Schema
  imports Rule_Schema
begin

text \<open>
  The resilience policy, package \<^verbatim>\<open>contracts/resilience\<close>: the records of \<^verbatim>\<open>types.go\<close> and the
  validation of \<^verbatim>\<open>validate.go\<close>. Numbers of type \<^verbatim>\<open>int\<close> are HOL integers; the failure rate
  is a \<^verbatim>\<open>float64\<close> with its special values, because \<^verbatim>\<open>NaN\<close> passes every range comparison.
  An error is the sentinel of the wrapped chain.
\<close>

datatype resilience_mode = ModeEmpty | ModeNone | ModeFailover | ModeLoadBalance
  | ModeLoadBalanceWithFailover | ModeOther string

datatype backoff_type = BackoffUnset | BackoffConstant | BackoffLinear | BackoffExponential
  | BackoffOther string

datatype resilience_error = ErrUnknownMode | ErrUnknownBackoffType | ErrTargetsRequired
  | ErrInvalidThreshold | ErrInvalidCircuitBreakerConfig | ErrInvalidRetryConfig
  | ErrEmptyProvider | ErrEmptyTargetName | ErrDuplicateTargetName | ErrInvalidFailureStatusCode
  | ErrFailoverNeedsOrder | ErrLoadBalanceNeedsWeight | ErrTerminatingTargetAction
  | ErrEmptyResilienceName | ErrInvalidResilienceID

record breaker_config =
  cb_Enabled :: bool
  cb_FailureThreshold :: int
  cb_FailureRateThreshold :: f64
  cb_SamplingDurationSeconds :: int
  cb_CooldownSeconds :: int
  cb_HalfOpenSuccessThreshold :: int
  cb_MinimumThroughput :: int

record retry_config =
  rt_Enabled :: bool
  rt_MaxAttempts :: int
  rt_BackoffType :: backoff_type
  rt_DelayMilliseconds :: int
  rt_MaxDelayMs :: int
  rt_UseJitter :: bool

record resilience_target =
  tg_Name :: string
  tg_Provider :: string
  tg_Order :: int
  tg_Weight :: int
  tg_TimeoutSeconds :: int
  tg_ModelRewrite :: string
  tg_Path :: string
  tg_Query :: "string gomap"
  tg_FailureStatusCodes :: "int list"
  tg_CircuitBreaker :: "breaker_config option"
  tg_Actions :: "action list"

text \<open>The \<^verbatim>\<open>ID\<close> is the 16 bytes of a UUID.\<close>

record resilience_config =
  rc_Name :: string
  rc_ID :: "string option"
  rc_Mode :: resilience_mode
  rc_TimeoutSeconds :: int
  rc_Targets :: "resilience_target list"
  rc_CircuitBreaker :: "breaker_config option"
  rc_Retry :: "retry_config option"
  rc_StrictWeights :: bool
  rc_ResponseHeaderTimeoutSeconds :: int
  rc_FailureStatusCodes :: "int list"

section \<open>Validation\<close>

definition breaker_Validate :: "breaker_config \<Rightarrow> resilience_error option" where
  "breaker_Validate c =
     (if f64_less (cb_FailureRateThreshold c) (Fin 0) \<or> f64_less (Fin 1) (cb_FailureRateThreshold c)
      then Some ErrInvalidCircuitBreakerConfig
      else if cb_FailureThreshold c < 0 then Some ErrInvalidCircuitBreakerConfig
      else if cb_SamplingDurationSeconds c < 0 then Some ErrInvalidCircuitBreakerConfig
      else if cb_CooldownSeconds c < 0 then Some ErrInvalidCircuitBreakerConfig
      else if cb_HalfOpenSuccessThreshold c < 0 then Some ErrInvalidCircuitBreakerConfig
      else if cb_MinimumThroughput c < 0 then Some ErrInvalidCircuitBreakerConfig
      else if \<not> cb_Enabled c then None
      else if cb_FailureThreshold c = 0 \<and> f64_eq (cb_FailureRateThreshold c) (Fin 0)
      then Some ErrInvalidCircuitBreakerConfig
      else if cb_CooldownSeconds c = 0 then Some ErrInvalidCircuitBreakerConfig
      else None)"

definition retry_Validate :: "retry_config \<Rightarrow> resilience_error option" where
  "retry_Validate r =
     (if (case rt_BackoffType r of BackoffOther _ \<Rightarrow> True | _ \<Rightarrow> False) then Some ErrUnknownBackoffType
      else if rt_MaxAttempts r < 0 then Some ErrInvalidRetryConfig
      else if rt_DelayMilliseconds r < 0 then Some ErrInvalidRetryConfig
      else if rt_MaxDelayMs r < 0 then Some ErrInvalidRetryConfig
      else if rt_MaxDelayMs r \<noteq> 0 \<and> rt_DelayMilliseconds r > rt_MaxDelayMs r
      then Some ErrInvalidRetryConfig
      else if rt_Enabled r \<and> rt_MaxAttempts r = 0 then Some ErrInvalidRetryConfig
      else None)"

definition terminatingActionTypes :: "string list" where
  "terminatingActionTypes = [''returnStatusCode'', ''llmImpersonation'']"

definition bad_status_code :: "int \<Rightarrow> bool" where
  "bad_status_code code \<longleftrightarrow> code < 400 \<or> code > 599"

definition target_Validate :: "resilience_target \<Rightarrow> resilience_error option" where
  "target_Validate t =
     (if tg_Name t = [] then Some ErrEmptyTargetName
      else if tg_Provider t = [] then Some ErrEmptyProvider
      else if tg_Order t < 0 then Some ErrInvalidThreshold
      else if tg_Weight t < 0 then Some ErrInvalidThreshold
      else if tg_TimeoutSeconds t < 0 then Some ErrInvalidThreshold
      else if list_ex bad_status_code (tg_FailureStatusCodes t) then Some ErrInvalidFailureStatusCode
      else (case (case tg_CircuitBreaker t of None \<Rightarrow> None | Some cb \<Rightarrow> breaker_Validate cb) of
              Some e \<Rightarrow> Some e
            | None \<Rightarrow>
                if list_ex (\<lambda>act. actionType act \<in> set terminatingActionTypes) (tg_Actions t)
                then Some ErrTerminatingTargetAction else None))"

text \<open>The loop over the targets; \<open>names\<close> is the set of the names seen so far.\<close>

fun validate_targets :: "string list \<Rightarrow> resilience_target list \<Rightarrow> resilience_error option" where
  "validate_targets names [] = None"
| "validate_targets names (t # ts) =
     (case target_Validate t of
        Some e \<Rightarrow> Some e
      | None \<Rightarrow>
          if tg_Name t \<in> set names then Some ErrDuplicateTargetName
          else validate_targets (tg_Name t # names) ts)"

fun total_weight :: "int \<Rightarrow> resilience_target list \<Rightarrow> int" where
  "total_weight acc [] = acc"
| "total_weight acc (t # ts) = total_weight (i64 (acc + tg_Weight t)) ts"

definition validateModeShape :: "resilience_config \<Rightarrow> resilience_error option" where
  "validateModeShape c =
     (if rc_Mode c = ModeFailover
      then (if list_ex (\<lambda>t. tg_Order t \<le> 0) (rc_Targets c) then Some ErrFailoverNeedsOrder else None)
      else if rc_Mode c = ModeLoadBalance \<or> rc_Mode c = ModeLoadBalanceWithFailover
      then (if list_ex (\<lambda>t. tg_Weight t \<le> 0) (rc_Targets c) then Some ErrLoadBalanceNeedsWeight
            else if total_weight 0 (rc_Targets c) = 0 then Some ErrLoadBalanceNeedsWeight
            else None)
      else None)"

definition nil_uuid :: string where
  "nil_uuid = replicate 16 (CHR 0x00)"

definition validate_mode :: "resilience_config \<Rightarrow> resilience_error option" where
  "validate_mode c =
     (case rc_Mode c of
        ModeNone \<Rightarrow> None
      | ModeEmpty \<Rightarrow> None
      | ModeOther _ \<Rightarrow> Some ErrUnknownMode
      | _ \<Rightarrow> if rc_Targets c = [] then Some ErrTargetsRequired else None)"

definition policy_Validate :: "resilience_config \<Rightarrow> resilience_error option" where
  "policy_Validate c =
     (if rc_Name c = [] then Some ErrEmptyResilienceName
      else if rc_ID c = Some nil_uuid then Some ErrInvalidResilienceID
      else case validate_mode c of Some e \<Rightarrow> Some e | None \<Rightarrow>
     (if rc_TimeoutSeconds c < 0 then Some ErrInvalidThreshold
      else if rc_ResponseHeaderTimeoutSeconds c < 0 then Some ErrInvalidThreshold
      else if list_ex bad_status_code (rc_FailureStatusCodes c) then Some ErrInvalidFailureStatusCode
      else case (case rc_CircuitBreaker c of None \<Rightarrow> None | Some cb \<Rightarrow> breaker_Validate cb) of
        Some e \<Rightarrow> Some e | None \<Rightarrow>
     (case (case rc_Retry c of None \<Rightarrow> None | Some r \<Rightarrow> retry_Validate r) of
        Some e \<Rightarrow> Some e | None \<Rightarrow>
     (case validate_targets [] (rc_Targets c) of
        Some e \<Rightarrow> Some e | None \<Rightarrow> validateModeShape c))))"

section \<open>What a valid policy guarantees\<close>

lemma validate_targets_None:
  "validate_targets names ts = None \<Longrightarrow>
   list_all (\<lambda>t. target_Validate t = None) ts \<and> distinct (map tg_Name ts) \<and>
   set (map tg_Name ts) \<inter> set names = {}"
proof (induction ts arbitrary: names)
  case (Cons t ts)
  then have "target_Validate t = None" "tg_Name t \<notin> set names"
    and "validate_targets (tg_Name t # names) ts = None"
    by (auto split: option.splits if_splits)
  with Cons.IH [of "tg_Name t # names"] show ?case by auto
qed simp

lemma target_Validate_None:
  "target_Validate t = None \<Longrightarrow>
   tg_Name t \<noteq> [] \<and> tg_Provider t \<noteq> [] \<and> 0 \<le> tg_Order t \<and> 0 \<le> tg_Weight t \<and>
   0 \<le> tg_TimeoutSeconds t \<and>
   list_all (\<lambda>code. 400 \<le> code \<and> code \<le> 599) (tg_FailureStatusCodes t) \<and>
   list_all (\<lambda>act. actionType act \<notin> set terminatingActionTypes) (tg_Actions t)"
  by (auto simp: target_Validate_def list_all_iff list_ex_iff bad_status_code_def not_less
      split: if_splits option.splits)

lemma policy_Validate_targets:
  assumes "policy_Validate c = None"
  shows "list_all (\<lambda>t. target_Validate t = None) (rc_Targets c)" "distinct (map tg_Name (rc_Targets c))"
  using assms validate_targets_None [of "[]" "rc_Targets c"]
  by (auto simp: policy_Validate_def split: if_splits option.splits)

lemma policy_Validate_None:
  assumes "policy_Validate c = None"
  shows "rc_Name c \<noteq> []" "validate_mode c = None" "0 \<le> rc_TimeoutSeconds c"
    "list_all (\<lambda>code. 400 \<le> code \<and> code \<le> 599) (rc_FailureStatusCodes c)"
    "validateModeShape c = None"
  using assms
  by (auto simp: policy_Validate_def list_all_iff list_ex_iff bad_status_code_def not_less
      split: if_splits option.splits)

lemma policy_Validate_retry:
  "policy_Validate c = None \<Longrightarrow> rc_Retry c = Some r \<Longrightarrow> retry_Validate r = None"
  by (auto simp: policy_Validate_def split: if_splits option.splits)

lemma retry_Validate_None:
  "retry_Validate r = None \<Longrightarrow>
   0 \<le> rt_MaxAttempts r \<and> 0 \<le> rt_DelayMilliseconds r \<and> 0 \<le> rt_MaxDelayMs r \<and>
   (rt_Enabled r \<longrightarrow> 0 < rt_MaxAttempts r) \<and>
   (rt_MaxDelayMs r = 0 \<or> rt_DelayMilliseconds r \<le> rt_MaxDelayMs r)"
  by (auto simp: retry_Validate_def not_less split: if_splits backoff_type.splits)

lemma policy_Validate_breaker:
  "policy_Validate c = None \<Longrightarrow> rc_CircuitBreaker c = Some cb \<Longrightarrow> breaker_Validate cb = None"
  by (auto simp: policy_Validate_def split: if_splits option.splits)

lemma breaker_Validate_None:
  "breaker_Validate c = None \<Longrightarrow>
   0 \<le> cb_FailureThreshold c \<and> 0 \<le> cb_SamplingDurationSeconds c \<and> 0 \<le> cb_CooldownSeconds c \<and>
   0 \<le> cb_HalfOpenSuccessThreshold c \<and> 0 \<le> cb_MinimumThroughput c \<and>
   (cb_Enabled c \<longrightarrow> 0 < cb_CooldownSeconds c)"
  by (auto simp: breaker_Validate_def not_less split: if_splits)

end
