(* ===== verification/Config_Schema.thy ===== *)
theory Config_Schema
  imports Resilience_Schema
begin

text \<open>
  The configuration model, \<^verbatim>\<open>contracts/config/model.go\<close>: providers, resilience groups, targets,
  bindings and configurations, and the connector bindings and agent routing blocks a configuration
  carries (\<^verbatim>\<open>contracts/config/connectors.go\<close>, \<^verbatim>\<open>contracts/config/advisors.go\<close>). A map that some
  code ranges over is an association list (\<open>gomap\<close>); the two catalogues the data plane only looks
  up in are partial functions.
\<close>

record provider_auth =
  pa_Header :: string
  pa_Format :: string

record provider_protocol =
  pp_Path :: string
  pp_Auth :: "provider_auth option"

record passthrough_path =
  ptp_Path :: string
  ptp_Match :: string
  ptp_Methods :: "string list"

record passthrough_family =
  pf_Auth :: "provider_auth option"
  pf_Paths :: "passthrough_path list"

record provider =
  pv_BaseURL :: string
  pv_RequiredHeaders :: "(string \<times> string) list"
  pv_Query :: "string gomap"
  pv_Protocols :: "provider_protocol gomap"
  pv_Passthrough :: "passthrough_family gomap"

record config_target =
  ct_Provider :: string
  ct_Alias :: string
  ct_Query :: "string gomap"
  ct_Path :: string
  ct_Weight :: int
  ct_TimeoutSeconds :: int

record config_group =
  cg_Mode :: resilience_mode
  cg_FailureStatusCodes :: "int list"
  cg_CircuitBreaker :: "breaker_config option"
  cg_StrictWeights :: bool
  cg_ResponseHeaderTimeoutSeconds :: int
  cg_TimeoutSeconds :: int
  cg_Retry :: "retry_config option"
  cg_Targets :: "config_target list"

record binding =
  bd_Protocol :: string
  bd_Models :: "string list"
  bd_Provider :: string
  bd_Group :: string
  bd_Alias :: string
  bd_Query :: "string gomap"
  bd_Path :: string
  bd_Tags :: "string list"

record passthrough_binding =
  pb_Family :: string
  pb_Provider :: string
  pb_Tags :: "string list"

record connector_filter =
  cf_Providers :: "string list"
  cf_Protocols :: "string list"
  cf_Models :: "string list"
  cf_StatusMin :: int
  cf_StatusMax :: int
  cf_TagsAny :: "string list"
  cf_TagsAll :: "string list"

record connector_binding =
  cb_Connector :: string
  cb_Sampling :: "f64 option"
  cb_SamplingKey :: string
  cb_MaxBodyBytes :: "int option"
  cb_OversizeBehaviour :: string
  cb_Filter :: "connector_filter option"

record agent_routing =
  ag_Advisor :: string
  ag_AllowModels :: "string list"
  ag_PinTTLSeconds :: int
  ag_ApplyWindowRequests :: int

record configuration =
  cfg_Credentials :: "string gomap"
  cfg_Bindings :: "binding list"
  cfg_PassthroughBindings :: "passthrough_binding list"
  cfg_RuleNames :: "string list"
  cfg_Tags :: "string gomap"
  cfg_ConnectorBindings :: "connector_binding list"
  cfg_AgentRouting :: "agent_routing option"

type_synonym providers_config = "string \<rightharpoonup> provider"
type_synonym groups_config = "string \<rightharpoonup> config_group"

section \<open>Target names\<close>

text \<open>
  \<^verbatim>\<open>Group.TargetNames\<close>: the loop with its \<^verbatim>\<open>used\<close> set; \<open>i\<close> is the position of the next target
  and \<open>all\<close> the whole list, from which \<^verbatim>\<open>counts\<close> is computed.
\<close>

definition provider_count :: "config_target list \<Rightarrow> string \<Rightarrow> nat" where
  "provider_count ts p = length (filter (\<lambda>t. ct_Provider t = p) ts)"

fun target_names_loop ::
  "config_target list \<Rightarrow> nat \<Rightarrow> string list \<Rightarrow> config_target list \<Rightarrow> string list" where
  "target_names_loop all i used [] = []"
| "target_names_loop all i used (t # ts) =
     (let p = ct_Provider t;
          name1 = (if 1 < provider_count all p
                   then (if ct_Alias t \<noteq> [] then p @ ''#'' @ ct_Alias t else p @ ''#'' @ itoa (i + 1))
                   else p);
          name = (if name1 \<in> set used then p @ ''#'' @ itoa (i + 1) else name1)
      in name # target_names_loop all (i + 1) (name # used) ts)"

definition TargetNames :: "config_group \<Rightarrow> string list" where
  "TargetNames g = target_names_loop (cg_Targets g) 0 [] (cg_Targets g)"

lemma length_target_names_loop [simp]: "length (target_names_loop all i used ts) = length ts"
  by (induction ts arbitrary: i used) (simp_all add: Let_def)

lemma length_TargetNames [simp]: "length (TargetNames g) = length (cg_Targets g)"
  by (simp add: TargetNames_def)

lemma itoa_inj_aux: "itoa m = itoa n \<Longrightarrow> m = n"
proof (induction m arbitrary: n rule: itoa.induct)
  case (1 m)
  have dc: "a < 10 \<Longrightarrow> b < 10 \<Longrightarrow> digit_char a = digit_char b \<longleftrightarrow> a = b" for a b :: nat
    unfolding digit_char_def by (intro nth_eq_iff_index_eq) simp_all
  have len: "itoa k \<noteq> []" for k by (subst itoa.simps) simp
  show ?case
  proof (cases "m < 10")
    case True
    then show ?thesis using 1(2) len [of "n div 10"]
      by (subst (asm) (1 2) itoa.simps) (auto simp: dc split: if_splits)
  next
    case False
    then have "\<not> n < 10" using 1(2) len [of "m div 10"]
      by (subst (asm) (1 2) itoa.simps) (auto simp: dc split: if_splits)
    with False 1(2) have "itoa (m div 10) = itoa (n div 10)" and "m mod 10 = n mod 10"
      by (subst (asm) (1 2) itoa.simps, simp add: dc)+
    with 1(1) [OF False] show ?thesis by (metis div_mult_mod_eq)
  qed
qed

text \<open>Bounded to names a group can have: no \<^verbatim>\<open>#\<close> in a provider, no alias that reads as a position.\<close>

definition clean_targets :: "config_target list \<Rightarrow> bool" where
  "clean_targets ts \<longleftrightarrow>
     list_all (\<lambda>t. CHR ''#'' \<notin> set (ct_Provider t) \<and>
                   ct_Alias t \<notin> set (map itoa [1..<length ts + 1])) ts"

lemma hash_split:
  "CHR ''#'' \<notin> set p \<Longrightarrow> CHR ''#'' \<notin> set q \<Longrightarrow>
   p @ ''#'' @ a = q @ ''#'' @ b \<longleftrightarrow> p = q \<and> a = b"
proof (induction p arbitrary: q)
  case Nil
  then show ?case by (cases q) auto
next
  case (Cons c p)
  then show ?case by (cases q) auto
qed

lemma hash_not_plain: "CHR ''#'' \<notin> set q \<Longrightarrow> p @ ''#'' @ a \<noteq> q"
  by auto

definition name_form :: "config_target list \<Rightarrow> nat \<Rightarrow> config_target \<Rightarrow> string \<Rightarrow> bool" where
  "name_form all i t name \<longleftrightarrow>
     name = ct_Provider t \<or>
     name = ct_Provider t @ ''#'' @ ct_Alias t \<or> name = ct_Provider t @ ''#'' @ itoa (i + 1)"

lemma target_names_loop_distinct:
  assumes "list_all (\<lambda>t. CHR ''#'' \<notin> set (ct_Provider t) \<and> ct_Alias t \<notin> set (map itoa [1..<length all + 1])) all"
    and "all = done @ ts" and "i = length done"
    and "distinct used"
    and "\<forall>u \<in> set used. \<exists>j < i. name_form all j (all ! j) u"
  shows "distinct (rev used @ target_names_loop all i used ts)"
  using assms
proof (induction ts arbitrary: "done" i used)
  case Nil
  then show ?case by simp
next
  case (Cons t ts)
  let ?p = "ct_Provider t"
  let ?n1 = "if 1 < provider_count all ?p
             then (if ct_Alias t \<noteq> [] then ?p @ ''#'' @ ct_Alias t else ?p @ ''#'' @ itoa (i + 1)) else ?p"
  let ?n = "if ?n1 \<in> set used then ?p @ ''#'' @ itoa (i + 1) else ?n1"
  have ti: "all ! i = t" "i < length all" using Cons.prems by simp_all
  have pos: "?p @ ''#'' @ itoa (i + 1) \<notin> set used"
  proof
    assume "?p @ ''#'' @ itoa (i + 1) \<in> set used"
    then obtain j where j: "j < i" and f: "name_form all j (all ! j) (?p @ ''#'' @ itoa (i + 1))"
      using Cons.prems by blast
    have cj: "CHR ''#'' \<notin> set (ct_Provider (all ! j))" "ct_Alias (all ! j) \<notin> set (map itoa [1..<length all + 1])"
      and ci: "CHR ''#'' \<notin> set ?p"
      using Cons.prems(1) ti j by (auto simp: list_all_length)
    have "itoa (i + 1) \<in> set (map itoa [1..<length all + 1])"
      using ti by (simp del: upt_Suc)
    then have "itoa (i + 1) \<noteq> ct_Alias (all ! j)" using cj by metis
    moreover have "itoa (i + 1) \<noteq> itoa (j + 1)" using itoa_inj_aux [of "i + 1" "j + 1"] j by auto
    ultimately show False
      using f hash_split [OF ci cj(1)] hash_not_plain [OF cj(1)] by (auto simp: name_form_def)
  qed
  define n where "n = ?n"
  have "n \<notin> set used" using pos by (simp add: n_def)
  moreover have "name_form all i t n" by (auto simp: name_form_def n_def)
  then have "\<forall>u \<in> set (n # used). \<exists>j < i + 1. name_form all j (all ! j) u"
    using Cons.prems(5) ti by (metis (no_types, lifting) add.commute less_add_one less_add_same_cancel1
        less_trans set_ConsD zero_less_one)
  ultimately have "distinct (rev (n # used) @ target_names_loop all (i + 1) (n # used) ts)"
    using Cons.prems by (intro Cons.IH [of "done @ [t]"]) simp_all
  then show ?case
    by (simp only: target_names_loop.simps Let_def n_def rev.simps append_assoc append.simps)
qed

section \<open>Properties\<close>

text \<open>
  Every target of a group has an identity of its own: when no provider name contains \<^verbatim>\<open>#\<close> and
  no alias is the decimal numeral of a position of the list, the names are pairwise distinct,
  however often a provider or an alias is repeated; and a provider that is listed once keeps its
  plain name.
\<close>

theorem target_names_distinct:
  assumes "clean_targets (cg_Targets g)"
  shows "distinct (TargetNames g)"
  using assms target_names_loop_distinct [of "cg_Targets g" "[]" "cg_Targets g" 0 "[]"]
  by (simp add: TargetNames_def clean_targets_def)

definition sample_target :: "string \<Rightarrow> string \<Rightarrow> config_target" where
  "sample_target p alias =
     \<lparr>ct_Provider = p, ct_Alias = alias, ct_Query = [], ct_Path = [], ct_Weight = 0,
      ct_TimeoutSeconds = 0\<rparr>"

definition sample_group :: "config_target list \<Rightarrow> config_group" where
  "sample_group ts =
     \<lparr>cg_Mode = ModeFailover, cg_FailureStatusCodes = [], cg_CircuitBreaker = None,
      cg_StrictWeights = False, cg_ResponseHeaderTimeoutSeconds = 0, cg_TimeoutSeconds = 0,
      cg_Retry = None, cg_Targets = ts\<rparr>"

lemmas sample_group_defs = sample_target_def sample_group_def

lemma sample_target_names:
  "TargetNames (sample_group [sample_target ''openai'' ''mini'', sample_target ''azure'' [],
     sample_target ''openai'' ''mini'', sample_target ''openai'' []]) =
   [''openai#mini'', ''azure'', ''openai#3'', ''openai#4'']"
  by (simp add: TargetNames_def sample_group_defs provider_count_def itoa.simps digit_char_def Let_def)

lemma target_names_distinct_witness:
  "distinct (TargetNames (sample_group [sample_target ''openai'' ''mini'', sample_target ''azure'' [],
     sample_target ''openai'' ''mini'', sample_target ''openai'' []]))"
  by (rule target_names_distinct)
     (simp add: clean_targets_def sample_group_defs itoa.simps digit_char_def upt_rec)

text \<open>
  The position fallback of \<^verbatim>\<open>TargetNames\<close> can itself collide: an alias that spells the position of
  a later target of the same provider gives two targets one name, although the two entries are
  different uses of the provider. The policy synthesised from such a group does not validate.
\<close>

theorem target_names_collide:
  "TargetNames (sample_group [sample_target ''openai'' ''2'', sample_target ''openai'' []]) =
     [''openai#2'', ''openai#2'']"
  by (simp add: TargetNames_def sample_group_defs provider_count_def itoa.simps digit_char_def Let_def)

end
