(* ===== verification/Selection.thy ===== *)
theory Selection
  imports Config_Schema
begin

text \<open>
  Destination selection, package \<^verbatim>\<open>internal/selection\<close>: the protocol of an inbound path
  (\<^verbatim>\<open>protocol.go\<close>), the binding walk, the passthrough match and the path matcher
  (\<^verbatim>\<open>selection.go\<close>), and the synthesis of the resilience policy (\<^verbatim>\<open>resilience.go\<close>).
\<close>

section \<open>Protocols\<close>

definition generateContentPrefix :: string where
  "generateContentPrefix = ''/v1beta/models/''"

definition generateContentOps :: "string list" where
  "generateContentOps = [''generateContent'', ''streamGenerateContent'']"

definition parseGenerateContent :: "string \<Rightarrow> (string \<times> string) option" where
  "parseGenerateContent path =
     (if \<not> has_prefix path generateContentPrefix then None
      else let rest = drop (length generateContentPrefix) path
           in case index_byte CHR '':'' rest of
                None \<Rightarrow> None
              | Some colon \<Rightarrow>
                  if colon = 0 then None
                  else let model = take colon rest;
                           op = drop (colon + 1) rest
                       in if CHR ''/'' \<in> set model then None
                          else if op \<notin> set generateContentOps then None
                          else Some (model, op))"

definition ProtocolForPath :: "string \<Rightarrow> (string \<times> (string \<times> string) list) option" where
  "ProtocolForPath path =
     (if path = ''/v1/chat/completions'' \<or> path = ''/chat/completions'' then Some (''chat'', [])
      else if path = ''/v1/responses'' \<or> path = ''/responses'' then Some (''responses'', [])
      else if path = ''/v1/messages'' \<or> path = ''/messages'' then Some (''messages'', [])
      else if path = ''/v1/embeddings'' \<or> path = ''/embeddings'' then Some (''embeddings'', [])
      else (case parseGenerateContent path of
              Some (model, op) \<Rightarrow>
                Some (''generate_content'', [(''model'', model), (''op'', op)])
            | None \<Rightarrow> None))"

section \<open>The binding walk\<close>

datatype selection_error = ErrNoBinding | ErrNoPassthrough | ErrMethodNotAllowed
  | ErrUnknownGroup string | ErrUnknownProvider string | ErrProtocolNotServed string string
  | ErrNoCredential string | ErrUnknownFamily string string

record sel_target =
  st_Provider :: string
  st_Name :: string
  st_BaseURL :: string
  st_Path :: string
  st_Auth :: "provider_auth option"
  st_RequiredHeaders :: "(string \<times> string) list"
  st_Query :: "string gomap"
  st_Credential :: string
  st_Alias :: string
  st_Weight :: int
  st_TimeoutSeconds :: int
  st_PathOverride :: string
  st_QueryOverride :: "string gomap"

record sel_group =
  sg_Name :: string
  sg_Mode :: resilience_mode
  sg_FailureStatusCodes :: "int list"
  sg_CircuitBreaker :: "breaker_config option"
  sg_StrictWeights :: bool
  sg_ResponseHeaderTimeoutSeconds :: int
  sg_TimeoutSeconds :: int
  sg_Retry :: "retry_config option"
  sg_Targets :: "sel_target list"

record destination =
  ds_Protocol :: string
  ds_Tags :: "string list"
  ds_Single :: "sel_target option"
  ds_Group :: "sel_group option"

text \<open>A nil query map and an empty one are the same list.\<close>

definition mergeQuery ::
  "string gomap \<Rightarrow> string gomap \<Rightarrow> string gomap" where
  "mergeQuery base override =
     (if base = [] \<and> override = [] then []
      else fold (\<lambda>(k, v) m. AList.update k v m) override
             (fold (\<lambda>(k, v) m. AList.update k v m) base []))"

fun matches_any :: "string \<Rightarrow> string list \<Rightarrow> bool" where
  "matches_any model [] = False"
| "matches_any model (p # ps) =
     (if has_suffix p ''*''
      then (if has_prefix model (take (length p - 1) p) then True else matches_any model ps)
      else if p = model then True else matches_any model ps)"

definition matchesModelPatterns :: "string \<Rightarrow> string list \<Rightarrow> bool" where
  "matchesModelPatterns model patterns = (if patterns = [] then True else matches_any model patterns)"

definition resolveTarget ::
  "string \<Rightarrow> configuration \<Rightarrow> providers_config \<Rightarrow> config_target \<Rightarrow> selection_error + sel_target"
where
  "resolveTarget protocol cfg providers tgt =
     (case providers (ct_Provider tgt) of
        None \<Rightarrow> Inl (ErrUnknownProvider (ct_Provider tgt))
      | Some be \<Rightarrow>
          (case map_of (pv_Protocols be) protocol of
             None \<Rightarrow> Inl (ErrProtocolNotServed (ct_Provider tgt) protocol)
           | Some proto \<Rightarrow>
               (let path = (if ct_Path tgt \<noteq> [] then ct_Path tgt else pp_Path proto)
                in case map_of (cfg_Credentials cfg) (ct_Provider tgt) of
                     None \<Rightarrow> Inl (ErrNoCredential (ct_Provider tgt))
                   | Some cred \<Rightarrow>
                       Inr \<lparr>st_Provider = ct_Provider tgt,
                            st_Name = ct_Provider tgt,
                            st_BaseURL = pv_BaseURL be,
                            st_Path = path,
                            st_Auth = pp_Auth proto,
                            st_RequiredHeaders = pv_RequiredHeaders be,
                            st_Query = mergeQuery (pv_Query be) (ct_Query tgt),
                            st_Credential = cred,
                            st_Alias = ct_Alias tgt,
                            st_Weight = ct_Weight tgt,
                            st_TimeoutSeconds = ct_TimeoutSeconds tgt,
                            st_PathOverride = ct_Path tgt,
                            st_QueryOverride = ct_Query tgt\<rparr>)))"

definition ResolveTarget ::
  "string \<Rightarrow> config_target \<Rightarrow> configuration \<Rightarrow> providers_config \<Rightarrow> selection_error + sel_target"
where
  "ResolveTarget protocol tgt cfg providers = resolveTarget protocol cfg providers tgt"

fun resolve_targets ::
  "string \<Rightarrow> configuration \<Rightarrow> providers_config \<Rightarrow> (string \<times> config_target) list \<Rightarrow>
     selection_error + sel_target list"
where
  "resolve_targets protocol cfg providers [] = Inr []"
| "resolve_targets protocol cfg providers ((name, gt) # rest) =
     (case resolveTarget protocol cfg providers gt of
        Inl e \<Rightarrow> Inl e
      | Inr t \<Rightarrow>
          (case resolve_targets protocol cfg providers rest of
             Inl e \<Rightarrow> Inl e
           | Inr ts \<Rightarrow> Inr (t\<lparr>st_Name := name\<rparr> # ts)))"

definition select_group ::
  "string \<Rightarrow> configuration \<Rightarrow> providers_config \<Rightarrow> groups_config \<Rightarrow> binding \<Rightarrow>
     selection_error + destination"
where
  "select_group protocol cfg providers groups b =
     (case groups (bd_Group b) of
        None \<Rightarrow> Inl (ErrUnknownGroup (bd_Group b))
      | Some grp \<Rightarrow>
          (case resolve_targets protocol cfg providers (zip (TargetNames grp) (cg_Targets grp)) of
             Inl e \<Rightarrow> Inl e
           | Inr ts \<Rightarrow>
               Inr \<lparr>ds_Protocol = protocol, ds_Tags = bd_Tags b, ds_Single = None,
                    ds_Group = Some
                      \<lparr>sg_Name = bd_Group b,
                       sg_Mode = cg_Mode grp,
                       sg_FailureStatusCodes = cg_FailureStatusCodes grp,
                       sg_CircuitBreaker = cg_CircuitBreaker grp,
                       sg_StrictWeights = cg_StrictWeights grp,
                       sg_ResponseHeaderTimeoutSeconds = cg_ResponseHeaderTimeoutSeconds grp,
                       sg_TimeoutSeconds = cg_TimeoutSeconds grp,
                       sg_Retry = cg_Retry grp,
                       sg_Targets = ts\<rparr>\<rparr>))"

definition select_single ::
  "string \<Rightarrow> configuration \<Rightarrow> providers_config \<Rightarrow> binding \<Rightarrow> selection_error + destination"
where
  "select_single protocol cfg providers b =
     (case resolveTarget protocol cfg providers
             \<lparr>ct_Provider = bd_Provider b, ct_Alias = bd_Alias b, ct_Query = bd_Query b,
              ct_Path = bd_Path b, ct_Weight = 0, ct_TimeoutSeconds = 0\<rparr> of
        Inl e \<Rightarrow> Inl e
      | Inr t \<Rightarrow> Inr \<lparr>ds_Protocol = protocol, ds_Tags = bd_Tags b, ds_Single = Some t,
                       ds_Group = None\<rparr>)"

fun select_loop ::
  "string \<Rightarrow> string \<Rightarrow> configuration \<Rightarrow> providers_config \<Rightarrow> groups_config \<Rightarrow> binding list \<Rightarrow>
     selection_error + destination"
where
  "select_loop protocol model cfg providers groups [] = Inl ErrNoBinding"
| "select_loop protocol model cfg providers groups (b # bs) =
     (if bd_Protocol b \<noteq> protocol then select_loop protocol model cfg providers groups bs
      else if \<not> matchesModelPatterns model (bd_Models b)
      then select_loop protocol model cfg providers groups bs
      else if bd_Group b \<noteq> [] then select_group protocol cfg providers groups b
      else select_single protocol cfg providers b)"

definition Select ::
  "string \<Rightarrow> string \<Rightarrow> configuration \<Rightarrow> providers_config \<Rightarrow> groups_config \<Rightarrow>
     selection_error + destination"
where
  "Select protocol model cfg providers groups =
     select_loop protocol model cfg providers groups (cfg_Bindings cfg)"

section \<open>Resilience policies from bindings\<close>

definition ProviderSwitchActions :: "string \<Rightarrow> string \<Rightarrow> action list" where
  "ProviderSwitchActions provider alias =
     (let acts = [ChangeProviderAction \<lparr>cp_NewProvider = provider\<rparr>]
      in if alias \<noteq> [] then acts @ [ChangeModelNameAction \<lparr>cmn_NewModelName = alias\<rparr>] else acts)"

record target_spec =
  ts_name :: string
  ts_provider :: string
  ts_alias :: string
  ts_weight :: int
  ts_timeoutSeconds :: int
  ts_path :: string
  ts_query :: "string gomap"

record group_spec =
  gs_name :: string
  gs_mode :: resilience_mode
  gs_failureStatusCodes :: "int list"
  gs_cb :: "breaker_config option"
  gs_strictWeights :: bool
  gs_responseHeaderTimeoutSeconds :: int
  gs_timeoutSeconds :: int
  gs_retry :: "retry_config option"

fun synthesise_targets :: "nat \<Rightarrow> target_spec list \<Rightarrow> resilience_target list" where
  "synthesise_targets i [] = []"
| "synthesise_targets i (s # ss) =
     \<lparr>tg_Name = ts_name s,
      tg_Provider = ts_provider s,
      tg_Order = int i + 1,
      tg_Weight = (if ts_weight s = 0 then 1 else ts_weight s),
      tg_TimeoutSeconds = ts_timeoutSeconds s,
      tg_ModelRewrite = [],
      tg_Path = ts_path s,
      tg_Query = ts_query s,
      tg_FailureStatusCodes = [],
      tg_CircuitBreaker = None,
      tg_Actions = ProviderSwitchActions (ts_provider s) (ts_alias s)\<rparr>
     # synthesise_targets (i + 1) ss"

definition synthesiseGroup :: "group_spec \<Rightarrow> target_spec list \<Rightarrow> resilience_config" where
  "synthesiseGroup g specs =
     \<lparr>rc_Name = gs_name g,
      rc_ID = None,
      rc_Mode = gs_mode g,
      rc_TimeoutSeconds = gs_timeoutSeconds g,
      rc_Targets = synthesise_targets 0 specs,
      rc_CircuitBreaker = gs_cb g,
      rc_Retry = gs_retry g,
      rc_StrictWeights = gs_strictWeights g,
      rc_ResponseHeaderTimeoutSeconds = gs_responseHeaderTimeoutSeconds g,
      rc_FailureStatusCodes = gs_failureStatusCodes g\<rparr>"

definition GroupResilienceConfig :: "string \<Rightarrow> config_group \<Rightarrow> resilience_config" where
  "GroupResilienceConfig name g =
     synthesiseGroup
       \<lparr>gs_name = name, gs_mode = cg_Mode g, gs_failureStatusCodes = cg_FailureStatusCodes g,
        gs_cb = cg_CircuitBreaker g, gs_strictWeights = cg_StrictWeights g,
        gs_responseHeaderTimeoutSeconds = cg_ResponseHeaderTimeoutSeconds g,
        gs_timeoutSeconds = cg_TimeoutSeconds g, gs_retry = cg_Retry g\<rparr>
       (map (\<lambda>(n, t). \<lparr>ts_name = n, ts_provider = ct_Provider t, ts_alias = ct_Alias t,
                       ts_weight = ct_Weight t, ts_timeoutSeconds = ct_TimeoutSeconds t,
                       ts_path = ct_Path t, ts_query = ct_Query t\<rparr>)
            (zip (TargetNames g) (cg_Targets g)))"

definition group_ResilienceConfig :: "sel_group \<Rightarrow> resilience_config" where
  "group_ResilienceConfig g =
     synthesiseGroup
       \<lparr>gs_name = sg_Name g, gs_mode = sg_Mode g, gs_failureStatusCodes = sg_FailureStatusCodes g,
        gs_cb = sg_CircuitBreaker g, gs_strictWeights = sg_StrictWeights g,
        gs_responseHeaderTimeoutSeconds = sg_ResponseHeaderTimeoutSeconds g,
        gs_timeoutSeconds = sg_TimeoutSeconds g, gs_retry = sg_Retry g\<rparr>
       (map (\<lambda>t. \<lparr>ts_name = (if st_Name t = [] then st_Provider t else st_Name t),
                  ts_provider = st_Provider t, ts_alias = st_Alias t, ts_weight = st_Weight t,
                  ts_timeoutSeconds = st_TimeoutSeconds t, ts_path = st_PathOverride t,
                  ts_query = st_QueryOverride t\<rparr>)
            (sg_Targets g))"

text \<open>A policy with every optional field zero.\<close>

definition empty_policy :: "string \<Rightarrow> resilience_target list \<Rightarrow> resilience_config" where
  "empty_policy name ts =
     \<lparr>rc_Name = name, rc_ID = None, rc_Mode = ModeNone, rc_TimeoutSeconds = 0, rc_Targets = ts,
      rc_CircuitBreaker = None, rc_Retry = None, rc_StrictWeights = False,
      rc_ResponseHeaderTimeoutSeconds = 0, rc_FailureStatusCodes = []\<rparr>"

definition SingleTargetResilienceConfig :: "sel_target \<Rightarrow> resilience_config" where
  "SingleTargetResilienceConfig t =
     empty_policy (''binding:'' @ st_Provider t)
       [\<lparr>tg_Name = st_Provider t, tg_Provider = st_Provider t, tg_Order = 1, tg_Weight = 0,
         tg_TimeoutSeconds = 0, tg_ModelRewrite = [], tg_Path = st_PathOverride t,
         tg_Query = st_QueryOverride t, tg_FailureStatusCodes = [], tg_CircuitBreaker = None,
         tg_Actions = ProviderSwitchActions (st_Provider t) (st_Alias t)\<rparr>]"

definition RuleOverrideResilienceConfig :: "string \<Rightarrow> resilience_config" where
  "RuleOverrideResilienceConfig provider =
     empty_policy (''rule:'' @ provider)
       [\<lparr>tg_Name = provider, tg_Provider = provider, tg_Order = 1, tg_Weight = 0,
         tg_TimeoutSeconds = 0, tg_ModelRewrite = [], tg_Path = [], tg_Query = [],
         tg_FailureStatusCodes = [], tg_CircuitBreaker = None, tg_Actions = []\<rparr>]"

section \<open>Laws of selection\<close>

lemma matches_any_iff:
  "matches_any model ps \<longleftrightarrow>
   (\<exists>p \<in> set ps. (\<exists>q. p = q @ ''*'' \<and> prefix q model) \<or> (\<not> has_suffix p ''*'' \<and> p = model))"
  by (induction ps) (auto simp: has_suffix_iff)

definition binding_serves :: "string \<Rightarrow> string \<Rightarrow> binding \<Rightarrow> bool" where
  "binding_serves protocol model b \<longleftrightarrow>
     bd_Protocol b = protocol \<and>
     (bd_Models b = [] \<or>
      list_ex (\<lambda>p. if has_suffix p ''*'' then prefix (butlast p) model else p = model) (bd_Models b))"

lemma matches_any_list_ex:
  "matches_any model ps \<longleftrightarrow>
   list_ex (\<lambda>p. if has_suffix p ''*'' then prefix (butlast p) model else p = model) ps"
  by (induction ps) (auto simp: butlast_conv_take)

lemma select_loop_find:
  "select_loop protocol model cfg providers groups bs =
     (case find (binding_serves protocol model) bs of
        None \<Rightarrow> Inl ErrNoBinding
      | Some b \<Rightarrow> if bd_Group b \<noteq> [] then select_group protocol cfg providers groups b
                  else select_single protocol cfg providers b)"
  by (induction bs) (auto simp: binding_serves_def matchesModelPatterns_def matches_any_list_ex)

lemma resolveTarget_fields:
  "resolveTarget protocol cfg providers t = Inr r \<Longrightarrow>
   st_Provider r = ct_Provider t \<and> st_Alias r = ct_Alias t \<and> st_Weight r = ct_Weight t \<and>
   st_TimeoutSeconds r = ct_TimeoutSeconds t \<and> st_PathOverride r = ct_Path t \<and>
   st_QueryOverride r = ct_Query t"
  by (auto simp: resolveTarget_def Let_def split: option.splits)

lemma target_names_loop_empty:
  "i < length ts \<Longrightarrow> target_names_loop all k used ts ! i = [] \<Longrightarrow> ct_Provider (ts ! i) = []"
proof (induction ts arbitrary: i k used)
  case (Cons t ts)
  then show ?case by (cases i) (auto simp: Let_def split: if_splits)
qed simp

lemma resolve_targets_specs:
  assumes "resolve_targets protocol cfg providers nts = Inr rs"
    and "\<forall>(n, t) \<in> set nts. n = [] \<longrightarrow> ct_Provider t = []"
  shows "map (\<lambda>t. \<lparr>ts_name = (if st_Name t = [] then st_Provider t else st_Name t),
           ts_provider = st_Provider t, ts_alias = st_Alias t, ts_weight = st_Weight t,
           ts_timeoutSeconds = st_TimeoutSeconds t, ts_path = st_PathOverride t,
           ts_query = st_QueryOverride t\<rparr>) rs =
         map (\<lambda>(n, t). \<lparr>ts_name = n, ts_provider = ct_Provider t, ts_alias = ct_Alias t,
           ts_weight = ct_Weight t, ts_timeoutSeconds = ct_TimeoutSeconds t,
           ts_path = ct_Path t, ts_query = ct_Query t\<rparr>) nts"
  using assms
proof (induction nts arbitrary: rs)
  case (Cons nt nts)
  obtain n t where nt: "nt = (n, t)" by (cases nt)
  from Cons.prems(1) nt obtain r qs where
    r: "resolveTarget protocol cfg providers t = Inr r" and
    qs: "resolve_targets protocol cfg providers nts = Inr qs" "rs = r\<lparr>st_Name := n\<rparr> # qs"
    by (auto split: sum.splits)
  show ?case
    using Cons.IH [OF qs(1)] Cons.prems(2) resolveTarget_fields [OF r] by (auto simp: nt qs(2))
qed simp

lemma TargetNames_empty:
  "(n, t) \<in> set (zip (TargetNames g) (cg_Targets g)) \<Longrightarrow> n = [] \<Longrightarrow> ct_Provider t = []"
  by (auto simp: in_set_zip TargetNames_def dest: target_names_loop_empty)

lemma synthesise_orders:
  "map tg_Order (synthesise_targets k ss) = map int [k + 1..<k + 1 + length ss]"
  by (induction k ss rule: synthesise_targets.induct) (simp_all add: upt_rec)

lemma synthesise_fields:
  "map tg_Name (synthesise_targets k ss) = map ts_name ss"
  "map tg_Provider (synthesise_targets k ss) = map ts_provider ss"
  "length (synthesise_targets k ss) = length ss"
  by (induction k ss rule: synthesise_targets.induct) simp_all

lemma index_byte_Some:
  "index_byte c s = Some i \<longleftrightarrow> i < length s \<and> s ! i = c \<and> c \<notin> set (take i s)"
proof (induction s arbitrary: i)
  case (Cons x xs)
  then show ?case by (cases i) auto
qed simp

lemma index_byte_append:
  "c \<notin> set xs \<Longrightarrow> index_byte c (xs @ c # ys) = Some (length xs)"
  by (simp add: index_byte_Some)

lemma parseGenerateContent_iff:
  "parseGenerateContent path = Some (model, op) \<longleftrightarrow>
   path = generateContentPrefix @ model @ '':'' @ op \<and> model \<noteq> [] \<and>
   CHR '':'' \<notin> set model \<and> CHR ''/'' \<notin> set model \<and> op \<in> set generateContentOps"
  (is "?l \<longleftrightarrow> ?r")
proof
  assume ?l
  then obtain rest i where p: "path = generateContentPrefix @ rest"
    and i: "index_byte CHR '':'' rest = Some i" "i \<noteq> 0"
    and m: "model = take i rest" "op = drop (i + 1) rest"
    and c: "CHR ''/'' \<notin> set model" "op \<in> set generateContentOps"
    by (auto simp: parseGenerateContent_def Let_def prefix_def split: if_splits option.splits)
  have "i < length rest" "rest ! i = CHR '':''" "CHR '':'' \<notin> set (take i rest)"
    using i by (simp_all add: index_byte_Some)
  moreover from this have "model @ '':'' @ op = rest"
    using id_take_nth_drop [of i rest, symmetric] by (simp add: m)
  ultimately show ?r using p i c m by auto
next
  assume ?r
  then show ?l
    by (auto simp: parseGenerateContent_def Let_def index_byte_append)
qed

lemma generate_content_fresh:
  "generateContentPrefix @ s \<notin> {''/v1/chat/completions'', ''/chat/completions'', ''/v1/responses'',
     ''/responses'', ''/v1/messages'', ''/messages'', ''/v1/embeddings'', ''/embeddings''}"
  by (simp add: generateContentPrefix_def)

lemma select_policy:
  assumes "Select protocol model cfg providers groups = Inr d" and "ds_Group d = Some g"
  shows "\<exists>grp. groups (sg_Name g) = Some grp \<and>
    group_ResilienceConfig g = GroupResilienceConfig (sg_Name g) grp"
proof -
  from assms obtain b where "select_group protocol cfg providers groups b = Inr d"
    by (auto simp: Select_def select_loop_find select_single_def
        split: option.splits if_splits sum.splits)
  then obtain grp ts where
    grp: "groups (bd_Group b) = Some grp" and
    ts: "resolve_targets protocol cfg providers (zip (TargetNames grp) (cg_Targets grp)) = Inr ts" and
    g: "g = \<lparr>sg_Name = bd_Group b, sg_Mode = cg_Mode grp,
             sg_FailureStatusCodes = cg_FailureStatusCodes grp,
             sg_CircuitBreaker = cg_CircuitBreaker grp, sg_StrictWeights = cg_StrictWeights grp,
             sg_ResponseHeaderTimeoutSeconds = cg_ResponseHeaderTimeoutSeconds grp,
             sg_TimeoutSeconds = cg_TimeoutSeconds grp, sg_Retry = cg_Retry grp, sg_Targets = ts\<rparr>"
    using assms(2) by (auto simp: select_group_def split: option.splits sum.splits)
  have "\<forall>(n, t) \<in> set (zip (TargetNames grp) (cg_Targets grp)). n = [] \<longrightarrow> ct_Provider t = []"
    using TargetNames_empty by blast
  from resolve_targets_specs [OF ts this] grp show ?thesis
    unfolding group_ResilienceConfig_def GroupResilienceConfig_def g by simp
qed

section \<open>Properties\<close>

text \<open>
  Routing is first match: \<^verbatim>\<open>Select\<close> is decided by the first binding of the configuration
  whose protocol is the request's and whose pattern list is empty, contains the model, or
  contains a prefix of it followed by \<^verbatim>\<open>*\<close>; with no such binding the answer is \<^verbatim>\<open>ErrNoBinding\<close>, and
  a binding that matches but cannot be resolved never falls through to a later one.
\<close>

theorem select_first_match:
  "Select protocol model cfg providers groups =
     (case find (binding_serves protocol model) (cfg_Bindings cfg) of
        None \<Rightarrow> Inl ErrNoBinding
      | Some b \<Rightarrow> if bd_Group b \<noteq> [] then select_group protocol cfg providers groups b
                  else select_single protocol cfg providers b)"
  unfolding Select_def by (rule select_loop_find)

text \<open>
  What was validated at load is what runs: when \<^verbatim>\<open>Select\<close> resolves a request to a group, the
  policy synthesised from the resolved group at request time is the very policy that
  \<^verbatim>\<open>GroupResilienceConfig\<close> synthesises from the authored group (and that the configuration
  loader validated).
\<close>

theorem request_policy_is_validated_policy:
  assumes "Select protocol model cfg providers groups = Inr d" and "ds_Group d = Some g"
  shows "\<exists>grp. groups (sg_Name g) = Some grp \<and>
    group_ResilienceConfig g = GroupResilienceConfig (sg_Name g) grp"
  by (rule select_policy [OF assms])

definition sample_provider_entry :: "string \<Rightarrow> provider" where
  "sample_provider_entry url =
     \<lparr>pv_BaseURL = url, pv_RequiredHeaders = [], pv_Query = [],
      pv_Protocols = [(''chat'', \<lparr>pp_Path = ''/v1/chat/completions'', pp_Auth = None\<rparr>)],
      pv_Passthrough = []\<rparr>"

definition sample_providers :: providers_config where
  "sample_providers = [''openai'' \<mapsto> sample_provider_entry ''https://a'',
                       ''azure'' \<mapsto> sample_provider_entry ''https://b'']"

definition sample_binding :: binding where
  "sample_binding = \<lparr>bd_Protocol = ''chat'', bd_Models = [''gpt-*''], bd_Provider = [], bd_Group = ''ha'',
     bd_Alias = [], bd_Query = [], bd_Path = [], bd_Tags = []\<rparr>"

definition sample_configuration :: configuration where
  "sample_configuration = \<lparr>cfg_Credentials = [(''openai'', ''k1''), (''azure'', ''k2'')],
     cfg_Bindings = [sample_binding], cfg_PassthroughBindings = [], cfg_RuleNames = [],
     cfg_Tags = [], cfg_ConnectorBindings = [], cfg_AgentRouting = None\<rparr>"

definition sample_groups :: groups_config where
  "sample_groups = [''ha'' \<mapsto> sample_group [sample_target ''openai'' ''m'', sample_target ''azure'' []]]"

lemmas sample_selection_defs = sample_provider_entry_def sample_providers_def sample_binding_def
  sample_configuration_def sample_groups_def sample_group_defs

lemma request_policy_is_validated_policy_witness:
  "\<exists>d g grp. Select ''chat'' ''gpt-4o'' sample_configuration sample_providers sample_groups = Inr d \<and>
     ds_Group d = Some g \<and> sg_Name g = ''ha'' \<and> sample_groups ''ha'' = Some grp \<and>
     group_ResilienceConfig g = GroupResilienceConfig ''ha'' grp"
proof -
  obtain d g where d: "Select ''chat'' ''gpt-4o'' sample_configuration sample_providers sample_groups = Inr d"
    "ds_Group d = Some g" "sg_Name g = ''ha''"
    by (simp add: Select_def select_loop_find binding_serves_def select_group_def resolveTarget_def
        TargetNames_def provider_count_def sample_selection_defs go_defs)
  from request_policy_is_validated_policy [OF d(1,2)] d show ?thesis by auto
qed

text \<open>
  The Gemini path is the only one whose model comes from the path: a request is
  \<^verbatim>\<open>generate_content\<close> exactly when its path is the fixed prefix, a non-empty model segment without
  \<^verbatim>\<open>:\<close> or \<^verbatim>\<open>/\<close>, a colon and one of the two operations, and the captured parameters spell the
  path back.
\<close>

theorem generate_content_path:
  "ProtocolForPath path = Some (''generate_content'', params) \<longleftrightarrow>
   (\<exists>model op. path = generateContentPrefix @ model @ '':'' @ op \<and> model \<noteq> [] \<and>
      CHR '':'' \<notin> set model \<and> CHR ''/'' \<notin> set model \<and> op \<in> set generateContentOps \<and>
      params = [(''model'', model), (''op'', op)])"
  (is "?l \<longleftrightarrow> ?r")
proof
  assume ?l
  then obtain model op where "parseGenerateContent path = Some (model, op)"
    "params = [(''model'', model), (''op'', op)]"
    by (auto simp: ProtocolForPath_def split: if_splits option.splits)
  then show ?r by (auto simp: parseGenerateContent_iff)
next
  assume ?r
  then obtain model op where m: "parseGenerateContent path = Some (model, op)"
    "params = [(''model'', model), (''op'', op)]" and p: "path = generateContentPrefix @ model @ '':'' @ op"
    by (auto simp: parseGenerateContent_iff)
  show ?l
    using generate_content_fresh [of "model @ '':'' @ op"]
    by (simp only: ProtocolForPath_def m option.case prod.case) (auto simp: p)
qed

end
