(* ===== verification/Breaker.thy ===== *)
theory Breaker
  imports Resilience_Schema
begin

text \<open>
  The circuit breaker, \<^verbatim>\<open>internal/middleware/resilience/breaker.go\<close>. A time is a number of
  nanoseconds of the monotonic clock. Every operation runs under the breaker's mutex, so it is
  a function of the breaker and of the clock value read under the lock; the listener calls are
  the list of transitions returned beside the breaker. The store is an association list keyed
  by (policy, target); an operation on it reads the clock at most twice (once when
  \<^verbatim>\<open>getOrCreate\<close> creates or resizes a ring, once under the breaker's lock), the pair \<open>clk\<close>.
\<close>

datatype cb_state = StateClosed | StateOpen | StateHalfOpen

fun state_String :: "cb_state \<Rightarrow> string" where
  "state_String StateClosed = ''closed''"
| "state_String StateOpen = ''open''"
| "state_String StateHalfOpen = ''half_open''"

record bucket =
  bk_successes :: nat
  bk_failures :: nat

definition empty_bucket :: bucket where
  "empty_bucket = \<lparr>bk_successes = 0, bk_failures = 0\<rparr>"

record breaker =
  br_state :: cb_state
  br_buckets :: "bucket list"
  br_bucketIdx :: nat
  br_lastRotate :: int
  br_openedAt :: int
  br_halfOpenSuccesses :: nat
  br_halfOpenInFlight :: nat

record transition_event =
  te_from :: cb_state
  te_to :: cb_state
  te_reason :: string

definition second_ns :: int where
  "second_ns = 1000000000"

section \<open>One breaker\<close>

definition effectiveWindow :: "breaker_config \<Rightarrow> nat" where
  "effectiveWindow cfg =
     (if cb_SamplingDurationSeconds cfg \<le> 0 then 60 else nat (cb_SamplingDurationSeconds cfg))"

definition halfOpenThreshold :: "breaker_config \<Rightarrow> nat" where
  "halfOpenThreshold cfg =
     (if cb_HalfOpenSuccessThreshold cfg \<le> 0 then 1 else nat (cb_HalfOpenSuccessThreshold cfg))"

definition new_breaker :: "breaker_config \<Rightarrow> int \<Rightarrow> breaker" where
  "new_breaker cfg t =
     \<lparr>br_state = StateClosed, br_buckets = replicate (effectiveWindow cfg) empty_bucket,
      br_bucketIdx = 0, br_lastRotate = t, br_openedAt = 0, br_halfOpenSuccesses = 0,
      br_halfOpenInFlight = 0\<rparr>"

definition resize_ring :: "breaker_config \<Rightarrow> int \<Rightarrow> breaker \<Rightarrow> breaker" where
  "resize_ring cfg t b =
     (if length (br_buckets b) \<noteq> effectiveWindow cfg
      then b\<lparr>br_buckets := replicate (effectiveWindow cfg) empty_bucket, br_bucketIdx := 0,
             br_lastRotate := t\<rparr>
      else b)"

definition transition ::
  "cb_state \<Rightarrow> int \<Rightarrow> string \<Rightarrow> breaker \<Rightarrow> breaker \<times> transition_event list" where
  "transition to now reason b =
     (let from = br_state b;
          b1 = b\<lparr>br_state := to\<rparr>;
          b2 = (case to of
                  StateOpen \<Rightarrow> b1\<lparr>br_openedAt := now, br_halfOpenInFlight := 0\<rparr>
                | StateHalfOpen \<Rightarrow> b1\<lparr>br_halfOpenSuccesses := 0, br_halfOpenInFlight := 0\<rparr>
                | StateClosed \<Rightarrow>
                    b1\<lparr>br_halfOpenSuccesses := 0, br_halfOpenInFlight := 0,
                       br_buckets := map (\<lambda>_. empty_bucket) (br_buckets b1),
                       br_bucketIdx := 0, br_lastRotate := now\<rparr>)
      in if from = to then (b, [])
         else (b2, [\<lparr>te_from = from, te_to = to, te_reason = reason\<rparr>]))"

text \<open>The inner loop of \<^verbatim>\<open>advance\<close>: step the index and clear the bucket, \<open>n\<close> times.\<close>

fun rotate_ring :: "nat \<Rightarrow> bucket list \<Rightarrow> nat \<Rightarrow> bucket list \<times> nat" where
  "rotate_ring 0 bs idx = (bs, idx)"
| "rotate_ring (Suc n) bs idx =
     (let idx' = (idx + 1) mod length bs in rotate_ring n (bs[idx' := empty_bucket]) idx')"

definition roll_window :: "int \<Rightarrow> breaker \<Rightarrow> breaker" where
  "roll_window now b =
     (let elapsed = go_quot (now - br_lastRotate b) second_ns
      in if 0 < elapsed
         then (if int (length (br_buckets b)) \<le> elapsed
               then b\<lparr>br_buckets := map (\<lambda>_. empty_bucket) (br_buckets b), br_bucketIdx := 0,
                      br_lastRotate := now\<rparr>
               else (case rotate_ring (nat elapsed) (br_buckets b) (br_bucketIdx b) of
                       (bs, idx) \<Rightarrow>
                         b\<lparr>br_buckets := bs, br_bucketIdx := idx, br_lastRotate := now\<rparr>))
         else b)"

definition advance :: "int \<Rightarrow> breaker_config \<Rightarrow> breaker \<Rightarrow> breaker \<times> transition_event list" where
  "advance now cfg b =
     (let b1 = roll_window now b;
          cooldown = i64 (cb_CooldownSeconds cfg * second_ns)
      in if br_state b1 = StateOpen \<and> 0 < cooldown \<and> cooldown \<le> now - br_openedAt b1
         then transition StateHalfOpen now ''cooldown_elapsed'' b1
         else (b1, []))"

definition window_successes :: "bucket list \<Rightarrow> nat" where
  "window_successes bs = sum_list (map bk_successes bs)"

definition window_failures :: "bucket list \<Rightarrow> nat" where
  "window_failures bs = sum_list (map bk_failures bs)"

definition shouldTrip :: "breaker_config \<Rightarrow> breaker \<Rightarrow> bool" where
  "shouldTrip cfg b =
     (let success = window_successes (br_buckets b);
          failure = window_failures (br_buckets b);
          total = success + failure;
          rate = cb_FailureRateThreshold cfg
      in if 0 < cb_MinimumThroughput cfg \<and> int total < cb_MinimumThroughput cfg then False
         else if total = 0 then False
         else let absoluteOK = (cb_FailureThreshold cfg = 0 \<or> cb_FailureThreshold cfg \<le> int failure);
                  rateOK = (f64_eq rate (Fin 0) \<or> f64_less rate (Fin (quot53 failure total)))
              in if 0 < cb_FailureThreshold cfg \<and> f64_less (Fin 0) rate then absoluteOK \<and> rateOK
                 else if 0 < cb_FailureThreshold cfg then absoluteOK
                 else if f64_less (Fin 0) rate then rateOK
                 else False)"

definition bump_success :: "breaker \<Rightarrow> breaker" where
  "bump_success b =
     b\<lparr>br_buckets := (br_buckets b)[br_bucketIdx b :=
          (br_buckets b ! br_bucketIdx b)\<lparr>bk_successes := bk_successes (br_buckets b ! br_bucketIdx b) + 1\<rparr>]\<rparr>"

definition bump_failure :: "breaker \<Rightarrow> breaker" where
  "bump_failure b =
     b\<lparr>br_buckets := (br_buckets b)[br_bucketIdx b :=
          (br_buckets b ! br_bucketIdx b)\<lparr>bk_failures := bk_failures (br_buckets b ! br_bucketIdx b) + 1\<rparr>]\<rparr>"

definition release_probe :: "breaker \<Rightarrow> breaker" where
  "release_probe b =
     (if 0 < br_halfOpenInFlight b then b\<lparr>br_halfOpenInFlight := br_halfOpenInFlight b - 1\<rparr> else b)"

text \<open>The bodies of \<^verbatim>\<open>Allow\<close>, \<^verbatim>\<open>RecordSuccess\<close> and \<^verbatim>\<open>RecordFailure\<close> under the breaker's lock.\<close>

definition breaker_allow ::
  "int \<Rightarrow> breaker_config \<Rightarrow> breaker \<Rightarrow> bool \<times> breaker \<times> transition_event list" where
  "breaker_allow now cfg b0 =
     (case advance now cfg b0 of
        (b, ev) \<Rightarrow>
          (case br_state b of
             StateClosed \<Rightarrow> (True, b, ev)
           | StateOpen \<Rightarrow> (False, b, ev)
           | StateHalfOpen \<Rightarrow>
               if br_halfOpenSuccesses b + br_halfOpenInFlight b < halfOpenThreshold cfg
               then (True, b\<lparr>br_halfOpenInFlight := br_halfOpenInFlight b + 1\<rparr>, ev)
               else (False, b, ev)))"

definition breaker_success ::
  "int \<Rightarrow> breaker_config \<Rightarrow> breaker \<Rightarrow> breaker \<times> transition_event list" where
  "breaker_success now cfg b0 =
     (case advance now cfg b0 of
        (b1, ev) \<Rightarrow>
          (let b2 = bump_success b1
           in if br_state b2 = StateHalfOpen
              then (let b3 = release_probe b2;
                        b4 = b3\<lparr>br_halfOpenSuccesses := br_halfOpenSuccesses b3 + 1\<rparr>
                    in if halfOpenThreshold cfg \<le> br_halfOpenSuccesses b4
                       then (case transition StateClosed now ''halfopen_success_threshold'' b4 of
                               (b5, ev') \<Rightarrow> (b5, ev @ ev'))
                       else (b4, ev))
              else (b2, ev)))"

definition breaker_failure ::
  "int \<Rightarrow> breaker_config \<Rightarrow> breaker \<Rightarrow> breaker \<times> transition_event list" where
  "breaker_failure now cfg b0 =
     (case advance now cfg b0 of
        (b1, ev) \<Rightarrow>
          (let b2 = bump_failure b1
           in case br_state b2 of
                StateClosed \<Rightarrow>
                  (if shouldTrip cfg b2
                   then (case transition StateOpen now ''trip'' b2 of (b3, ev') \<Rightarrow> (b3, ev @ ev'))
                   else (b2, ev))
              | StateHalfOpen \<Rightarrow>
                  (case transition StateOpen now ''halfopen_failure'' (release_probe b2) of
                     (b3, ev') \<Rightarrow> (b3, ev @ ev'))
              | StateOpen \<Rightarrow> (b2, ev)))"

section \<open>The store\<close>

type_synonym breaker_key = "string \<times> string"
type_synonym breaker_store = "(breaker_key \<times> breaker) list"
type_synonym clock_reads = "int \<times> int"

definition getOrCreate ::
  "breaker_key \<Rightarrow> breaker_config \<Rightarrow> int \<Rightarrow> breaker_store \<Rightarrow> breaker" where
  "getOrCreate key cfg t s =
     (case map_of s key of
        Some b \<Rightarrow> resize_ring cfg t b
      | None \<Rightarrow> new_breaker cfg t)"

definition cb_disabled :: "breaker_config option \<Rightarrow> bool" where
  "cb_disabled cfg = (case cfg of None \<Rightarrow> True | Some c \<Rightarrow> \<not> cb_Enabled c)"

definition store_Allow ::
  "clock_reads \<Rightarrow> breaker_key \<Rightarrow> breaker_config option \<Rightarrow> breaker_store \<Rightarrow> bool \<times> breaker_store"
where
  "store_Allow clk key cfg s =
     (if cb_disabled cfg then (True, s)
      else (case breaker_allow (snd clk) (the cfg) (getOrCreate key (the cfg) (fst clk) s) of
              (ok, b, ev) \<Rightarrow> (ok, AList.update key b s)))"

definition store_RecordSuccess ::
  "clock_reads \<Rightarrow> breaker_key \<Rightarrow> breaker_config option \<Rightarrow> breaker_store \<Rightarrow> breaker_store" where
  "store_RecordSuccess clk key cfg s =
     (if cb_disabled cfg then s
      else AList.update key
             (fst (breaker_success (snd clk) (the cfg) (getOrCreate key (the cfg) (fst clk) s))) s)"

definition store_RecordFailure ::
  "clock_reads \<Rightarrow> breaker_key \<Rightarrow> breaker_config option \<Rightarrow> breaker_store \<Rightarrow> breaker_store" where
  "store_RecordFailure clk key cfg s =
     (if cb_disabled cfg then s
      else AList.update key
             (fst (breaker_failure (snd clk) (the cfg) (getOrCreate key (the cfg) (fst clk) s))) s)"

definition store_State :: "breaker_store \<Rightarrow> breaker_key \<Rightarrow> cb_state" where
  "store_State s key = (case map_of s key of None \<Rightarrow> StateClosed | Some b \<Rightarrow> br_state b)"

definition store_Snapshot :: "breaker_store \<Rightarrow> (breaker_key \<times> cb_state) list" where
  "store_Snapshot s = map (\<lambda>k. (k, store_State s k)) (map fst s)"

text \<open>\<^verbatim>\<open>noopBreakerStore\<close>: no state at all.\<close>

definition noop_Allow ::
  "clock_reads \<Rightarrow> breaker_key \<Rightarrow> breaker_config option \<Rightarrow> unit \<Rightarrow> bool \<times> unit" where
  "noop_Allow clk key cfg s = (True, s)"

definition noop_Record ::
  "clock_reads \<Rightarrow> breaker_key \<Rightarrow> breaker_config option \<Rightarrow> unit \<Rightarrow> unit" where
  "noop_Record clk key cfg s = s"

definition noop_State :: "unit \<Rightarrow> breaker_key \<Rightarrow> cb_state" where
  "noop_State s key = StateClosed"

section \<open>The window as a sliding list\<close>

text \<open>The ring, newest bucket first.\<close>

definition ring_view :: "bucket list \<Rightarrow> nat \<Rightarrow> bucket list" where
  "ring_view bs idx = rev (rotate (Suc idx) bs)"

abbreviation window :: "breaker \<Rightarrow> bucket list" where
  "window b \<equiv> ring_view (br_buckets b) (br_bucketIdx b)"

definition ring_ok :: "breaker \<Rightarrow> bool" where
  "ring_ok b \<longleftrightarrow> br_bucketIdx b < length (br_buckets b)"

lemma length_ring_view [simp]: "length (ring_view bs idx) = length bs"
  by (simp add: ring_view_def)

lemma ring_view_conv: "idx < length bs \<Longrightarrow> ring_view bs idx = rev (drop (Suc idx) bs @ take (Suc idx) bs)"
  by (cases "Suc idx = length bs") (simp_all add: ring_view_def rotate_drop_take)

lemma ring_view_step:
  assumes "idx < length bs"
  shows "ring_view (bs[(idx + 1) mod length bs := e]) ((idx + 1) mod length bs) =
    e # butlast (ring_view bs idx)"
proof (cases "Suc idx = length bs")
  case True
  then obtain x xs where "bs = x # xs" by (cases bs) auto
  then show ?thesis using True by (simp add: ring_view_conv)
next
  case False
  with assms have lt: "Suc idx < length bs" by simp
  then have "drop (Suc idx) bs = bs ! Suc idx # drop (Suc (Suc idx)) bs" by (rule Cons_nth_drop_Suc [symmetric])
  moreover have "take (Suc (Suc idx)) (bs[Suc idx := e]) = take (Suc idx) bs @ [e]"
    using lt by (simp add: take_Suc_conv_app_nth)
  ultimately show ?thesis using lt assms by (simp add: ring_view_conv butlast_append)
qed

lemma rotate_ring_view:
  "\<lbrakk>idx < length bs; n \<le> length bs\<rbrakk> \<Longrightarrow>
   rotate_ring n bs idx = (bs', idx') \<Longrightarrow>
   length bs' = length bs \<and> idx' < length bs \<and>
   ring_view bs' idx' = replicate n empty_bucket @ take (length bs - n) (ring_view bs idx)"
proof (induction n arbitrary: bs idx)
  case (Suc n)
  let ?i = "(idx + 1) mod length bs"
  let ?bs = "bs[?i := empty_bucket]"
  have i: "?i < length ?bs" using Suc.prems by (cases "length bs") simp_all
  from Suc.IH [OF i] Suc.prems have *: "length bs' = length bs" "idx' < length bs"
    "ring_view bs' idx' = replicate n empty_bucket @ take (length bs - n) (ring_view ?bs ?i)"
    by (simp_all add: Let_def)
  have "length bs - n = Suc (length bs - Suc n)" using Suc.prems by simp
  then have "take (length bs - n) (ring_view ?bs ?i)
      = empty_bucket # take (length bs - Suc n) (ring_view bs idx)"
    using ring_view_step [OF Suc.prems(1), of empty_bucket] by (simp add: take_butlast)
  then show ?case using * by (simp add: replicate_append_same [symmetric])
qed simp

lemma ring_view_empty: "ring_view (map (\<lambda>_. empty_bucket) bs) i = replicate (length bs) empty_bucket"
  by (intro replicate_eqI) (auto simp: ring_view_def)

lemma sum_list_rotate: "sum_list (map f (rotate n xs)) = sum_list (map f xs)" for f :: "'a \<Rightarrow> nat"
proof -
  have "sum_list (map f (drop k xs @ take k xs)) = sum_list (map f (take k xs @ drop k xs))" for k
    by (simp only: map_append sum_list_append add.commute)
  then show ?thesis by (simp add: rotate_drop_take)
qed

lemma ring_view_totals:
  "window_failures (ring_view bs i) = window_failures bs"
  "window_successes (ring_view bs i) = window_successes bs"
  by (simp_all add: window_failures_def window_successes_def ring_view_def rev_map [symmetric]
      sum_list_rotate del: rotate_Suc)

lemma ring_view_bump:
  assumes "idx < length bs"
  shows "ring_view (bs[idx := x]) idx = x # tl (ring_view bs idx)"
  using assms by (simp add: ring_view_conv take_Suc_conv_app_nth)

lemma ring_view_hd:
  assumes "idx < length bs"
  shows "hd (ring_view bs idx) = bs ! idx"
  using assms by (simp add: ring_view_conv take_Suc_conv_app_nth)

lemma roll_window_same [simp]:
  "br_state (roll_window now b) = br_state b" "br_openedAt (roll_window now b) = br_openedAt b"
  "br_halfOpenSuccesses (roll_window now b) = br_halfOpenSuccesses b"
  "br_halfOpenInFlight (roll_window now b) = br_halfOpenInFlight b"
  by (simp_all add: roll_window_def Let_def split: prod.split)

definition elapsed_ticks :: "int \<Rightarrow> breaker \<Rightarrow> nat" where
  "elapsed_ticks now b = nat (go_quot (now - br_lastRotate b) second_ns)"

lemma roll_window_view:
  assumes "ring_ok b"
  shows "ring_ok (roll_window now b) \<and> length (br_buckets (roll_window now b)) = length (br_buckets b) \<and>
    window (roll_window now b) =
      take (length (br_buckets b)) (replicate (elapsed_ticks now b) empty_bucket @ window b)"
proof -
  let ?n = "elapsed_ticks now b"
  let ?w = "length (br_buckets b)"
  consider "?n = 0" | "0 < ?n" "?w \<le> ?n" | "0 < ?n" "?n < ?w" by linarith
  then show ?thesis
  proof cases
    case 1
    then show ?thesis using assms by (simp add: roll_window_def elapsed_ticks_def Let_def)
  next
    case 2
    then have "0 < go_quot (now - br_lastRotate b) second_ns" "int ?w \<le> go_quot (now - br_lastRotate b) second_ns"
      by (simp_all add: elapsed_ticks_def)
    then show ?thesis using assms 2
      by (auto simp: roll_window_def Let_def ring_view_empty ring_ok_def take_replicate min_def)
  next
    case 3
    then have e: "0 < go_quot (now - br_lastRotate b) second_ns" "\<not> int ?w \<le> go_quot (now - br_lastRotate b) second_ns"
      by (simp_all add: elapsed_ticks_def)
    obtain bs' idx' where r: "rotate_ring ?n (br_buckets b) (br_bucketIdx b) = (bs', idx')" by fastforce
    from rotate_ring_view [OF _ _ r] assms 3 show ?thesis
      using e r by (simp add: roll_window_def Let_def ring_ok_def elapsed_ticks_def)
  qed
qed

section \<open>Invariant\<close>

text \<open>
  Configurations come with each call, so the invariant speaks of the one the ring was last sized
  for and of a number \<open>g\<close> no field of the breaker holds: the probes \<^verbatim>\<open>Allow\<close> has admitted in the
  present half-open phase.
\<close>

definition breaker_inv :: "breaker_config \<Rightarrow> nat \<Rightarrow> breaker \<Rightarrow> bool" where
  "breaker_inv cfg g b \<longleftrightarrow>
     length (br_buckets b) = effectiveWindow cfg \<and> ring_ok b \<and>
     (br_state b = StateHalfOpen \<longrightarrow> g \<le> br_halfOpenSuccesses b + br_halfOpenInFlight b) \<and>
     (br_state b \<noteq> StateHalfOpen \<longrightarrow> br_halfOpenInFlight b = 0 \<and> g = 0) \<and>
     (br_state b = StateClosed \<longrightarrow> br_halfOpenSuccesses b = 0)"

text \<open>The probes of the phase after a call that took \<open>b\<close> to \<open>b'\<close> and admitted one if \<open>ok\<close>.\<close>

definition phase_probes :: "breaker \<Rightarrow> bool \<Rightarrow> breaker \<Rightarrow> nat \<Rightarrow> nat" where
  "phase_probes b ok b' g =
     (if br_state b' = StateHalfOpen
      then (if br_state b = StateHalfOpen then g else 0) + (if ok then 1 else 0) else 0)"

lemma effectiveWindow_pos: "0 < effectiveWindow cfg"
  by (simp add: effectiveWindow_def)

lemma halfOpenThreshold_pos: "0 < halfOpenThreshold cfg"
  by (simp add: halfOpenThreshold_def)

lemma new_breaker_inv: "breaker_inv cfg 0 (new_breaker cfg t)"
  by (simp add: breaker_inv_def new_breaker_def ring_ok_def effectiveWindow_pos)

lemma resize_inv: "breaker_inv cfg g b \<Longrightarrow> breaker_inv cfg' g (resize_ring cfg' t b)"
  by (auto simp: breaker_inv_def resize_ring_def ring_ok_def effectiveWindow_pos)

lemma roll_window_inv: "breaker_inv cfg g b \<Longrightarrow> breaker_inv cfg g (roll_window now b)"
  using roll_window_view [of b now] by (simp add: breaker_inv_def)

lemma transition_inv:
  "\<lbrakk>length (br_buckets b) = effectiveWindow cfg; ring_ok b; br_state b \<noteq> to\<rbrakk> \<Longrightarrow>
   breaker_inv cfg 0 (fst (transition to now r b))"
  by (cases to) (auto simp: transition_def breaker_inv_def ring_ok_def Let_def effectiveWindow_pos)

lemma transition_state: "br_state (fst (transition to now r b)) = to"
  by (cases to) (simp_all add: transition_def Let_def)

lemma transition_to: "transition to now r b = (b', ev) \<Longrightarrow> br_state b' = to"
  using transition_state [of to now r b] by simp

lemma advance_inv:
  assumes "breaker_inv cfg g b"
  shows "breaker_inv cfg (phase_probes b False (fst (advance now cfg' b)) g) (fst (advance now cfg' b))"
proof -
  have r: "breaker_inv cfg g (roll_window now b)" using assms by (rule roll_window_inv)
  then have "breaker_inv cfg 0 (fst (transition StateHalfOpen now s (roll_window now b)))"
    if "br_state b = StateOpen" for s
    using that by (intro transition_inv) (simp_all add: breaker_inv_def)
  with r show ?thesis
    by (auto simp: advance_def Let_def phase_probes_def transition_state breaker_inv_def)
qed

lemma advance_halfopen_from:
  "br_state (fst (advance now cfg b)) \<noteq> StateHalfOpen \<Longrightarrow> br_state b \<noteq> StateHalfOpen"
  by (auto simp: advance_def Let_def transition_state split: if_splits)

lemma bump_same [simp]:
  "br_state (bump_success b) = br_state b" "br_state (bump_failure b) = br_state b"
  "br_halfOpenSuccesses (bump_success b) = br_halfOpenSuccesses b"
  "br_halfOpenSuccesses (bump_failure b) = br_halfOpenSuccesses b"
  "br_halfOpenInFlight (bump_success b) = br_halfOpenInFlight b"
  "br_halfOpenInFlight (bump_failure b) = br_halfOpenInFlight b"
  "br_openedAt (bump_success b) = br_openedAt b" "br_openedAt (bump_failure b) = br_openedAt b"
  "length (br_buckets (bump_success b)) = length (br_buckets b)"
  "length (br_buckets (bump_failure b)) = length (br_buckets b)"
  "br_bucketIdx (bump_success b) = br_bucketIdx b" "br_bucketIdx (bump_failure b) = br_bucketIdx b"
  by (simp_all add: bump_success_def bump_failure_def)

lemma release_same [simp]:
  "br_state (release_probe b) = br_state b" "br_buckets (release_probe b) = br_buckets b"
  "br_bucketIdx (release_probe b) = br_bucketIdx b"
  "br_halfOpenSuccesses (release_probe b) = br_halfOpenSuccesses b"
  "br_halfOpenInFlight (release_probe b) = br_halfOpenInFlight b - 1"
  "br_openedAt (release_probe b) = br_openedAt b"
  by (simp_all add: release_probe_def)

lemma breaker_allow_inv:
  assumes "breaker_inv cfg g b" and "breaker_allow now cfg' b = (ok, b', ev)"
  shows "breaker_inv cfg (phase_probes b ok b' g) b' \<and>
    (ok \<longrightarrow> phase_probes b ok b' g \<le> halfOpenThreshold cfg')"
  using advance_inv [OF assms(1), of now cfg'] assms(2)
  by (auto simp: breaker_allow_def breaker_inv_def ring_ok_def phase_probes_def
      split: prod.splits cb_state.splits if_splits)

lemma breaker_success_inv:
  assumes "breaker_inv cfg g b" and "breaker_success now cfg' b = (b', ev)"
  shows "breaker_inv cfg (phase_probes b False b' g) b'"
proof -
  obtain b1 ev1 where a: "advance now cfg' b = (b1, ev1)" by fastforce
  have i: "breaker_inv cfg (phase_probes b False b1 g) b1"
    using advance_inv [OF assms(1), of now cfg'] by (simp add: a)
  let ?b4 = "(release_probe (bump_success b1))\<lparr>br_halfOpenSuccesses := br_halfOpenSuccesses b1 + 1\<rparr>"
  have "breaker_inv cfg 0 (fst (transition StateClosed now ''halfopen_success_threshold'' ?b4))"
    if "br_state b1 = StateHalfOpen"
    using i that by (intro transition_inv) (auto simp: breaker_inv_def ring_ok_def)
  then show ?thesis using i assms(2) transition_to [of StateClosed now _ ?b4]
    by (auto simp: breaker_success_def a Let_def breaker_inv_def ring_ok_def phase_probes_def
        split: prod.splits if_splits)
qed

lemma breaker_failure_inv:
  assumes "breaker_inv cfg g b" and "breaker_failure now cfg' b = (b', ev)"
  shows "breaker_inv cfg (phase_probes b False b' g) b'"
proof -
  obtain b1 ev1 where a: "advance now cfg' b = (b1, ev1)" by fastforce
  have i: "breaker_inv cfg (phase_probes b False b1 g) b1"
    using advance_inv [OF assms(1), of now cfg'] by (simp add: a)
  have t: "breaker_inv cfg 0 (fst (transition StateOpen now r (bump_failure b1)))"
    "breaker_inv cfg 0 (fst (transition StateOpen now r (release_probe (bump_failure b1))))"
    if "br_state b1 \<noteq> StateOpen" for r
    by (rule transition_inv; use i that in \<open>simp add: breaker_inv_def ring_ok_def\<close>)+
  have "breaker_inv cfg (phase_probes b False (bump_failure b1) g) (bump_failure b1)"
    using i by (simp add: breaker_inv_def ring_ok_def phase_probes_def)
  with t assms(2) show ?thesis
    using transition_state [of StateOpen now]
    by (cases "br_state b1") (auto simp: breaker_failure_def a Let_def case_prod_beta phase_probes_def split: if_splits)
qed

text \<open>
  The states one breaker can reach: \<open>cfg\<close> is the configuration its ring was last sized for and \<open>g\<close>
  the probes of the present half-open phase. Every call brings a configuration of its own, and
  since \<^verbatim>\<open>getOrCreate\<close> releases the lock before the call proper takes it, calls with other
  configurations may come in between. Time never goes back.
\<close>

inductive breaker_reach :: "breaker_config \<Rightarrow> int \<Rightarrow> nat \<Rightarrow> breaker \<Rightarrow> bool" where
  reach_new: "breaker_reach cfg t 0 (new_breaker cfg t)"
| reach_resize: "\<lbrakk>breaker_reach cfg t g b; t \<le> now\<rbrakk> \<Longrightarrow>
    breaker_reach cfg' now g (resize_ring cfg' now b)"
| reach_allow: "\<lbrakk>breaker_reach cfg t g b; t \<le> now; breaker_allow now cfg' b = (ok, b', ev)\<rbrakk> \<Longrightarrow>
    breaker_reach cfg now (phase_probes b ok b' g) b'"
| reach_success: "\<lbrakk>breaker_reach cfg t g b; t \<le> now; breaker_success now cfg' b = (b', ev)\<rbrakk> \<Longrightarrow>
    breaker_reach cfg now (phase_probes b False b' g) b'"
| reach_failure: "\<lbrakk>breaker_reach cfg t g b; t \<le> now; breaker_failure now cfg' b = (b', ev)\<rbrakk> \<Longrightarrow>
    breaker_reach cfg now (phase_probes b False b' g) b'"

inductive_cases breaker_reach_cases: "breaker_reach cfg t g b"

lemma breaker_reach_inv: "breaker_reach cfg t g b \<Longrightarrow> breaker_inv cfg g b"
proof (induction rule: breaker_reach.induct)
  case (reach_new cfg t)
  show ?case by (rule new_breaker_inv)
next
  case (reach_resize cfg t g b now cfg')
  then show ?case using resize_inv by blast
next
  case (reach_allow cfg t g b now cfg' ok b' ev)
  then show ?case using breaker_allow_inv by blast
next
  case (reach_success cfg t g b now cfg' b' ev)
  then show ?case using breaker_success_inv by blast
next
  case (reach_failure cfg t g b now cfg' b' ev)
  then show ?case using breaker_failure_inv by blast
qed

section \<open>The state machine\<close>

lemma cooldown_i64: "0 \<le> c \<Longrightarrow> c \<le> 9223372036 \<Longrightarrow> i64 (c * second_ns) = c * second_ns"
  by (rule i64_id) (simp_all add: second_ns_def)

lemma advance_not_open: "br_state b \<noteq> StateOpen \<Longrightarrow> advance now cfg b = (roll_window now b, [])"
  by (simp add: advance_def Let_def)

lemma advance_open:
  assumes "br_state b = StateOpen" and "0 < cb_CooldownSeconds cfg" and "cb_CooldownSeconds cfg \<le> 9223372036"
  shows "advance now cfg b =
    (if now - br_openedAt b < cb_CooldownSeconds cfg * second_ns then (roll_window now b, [])
     else ((roll_window now b)\<lparr>br_state := StateHalfOpen, br_halfOpenSuccesses := 0, br_halfOpenInFlight := 0\<rparr>,
       [\<lparr>te_from = StateOpen, te_to = StateHalfOpen, te_reason = ''cooldown_elapsed''\<rparr>]))"
  using assms cooldown_i64 [of "cb_CooldownSeconds cfg"]
  by (auto simp: advance_def Let_def transition_def second_ns_def)

lemma shouldTrip_view:
  "shouldTrip cfg b \<longleftrightarrow> shouldTrip cfg (b\<lparr>br_buckets := window b\<rparr>)"
  by (simp add: shouldTrip_def ring_view_totals)

lemma f64_pos_arm: "f64_less (Fin 0) r \<Longrightarrow> \<not> f64_eq r (Fin 0)"
  by (cases r) auto

lemma shouldTrip_arms:
  assumes "0 \<le> cb_FailureThreshold cfg"
  shows "shouldTrip cfg b \<longleftrightarrow>
    (let s = window_successes (window b); f = window_failures (window b); rate = cb_FailureRateThreshold cfg
     in 0 < s + f \<and> cb_MinimumThroughput cfg \<le> int (s + f) \<and>
        (0 < cb_FailureThreshold cfg \<or> f64_less (Fin 0) rate) \<and>
        (0 < cb_FailureThreshold cfg \<longrightarrow> cb_FailureThreshold cfg \<le> int f) \<and>
        (f64_less (Fin 0) rate \<longrightarrow> f64_less rate (Fin (quot53 f (s + f)))))"
  using assms f64_pos_arm [of "cb_FailureRateThreshold cfg"]
  by (auto simp: shouldTrip_def ring_view_totals Let_def)

lemma bump_view:
  assumes "ring_ok b"
  shows "window (bump_failure b) =
      (hd (window b))\<lparr>bk_failures := bk_failures (hd (window b)) + 1\<rparr> # tl (window b)"
    and "window (bump_success b) =
      (hd (window b))\<lparr>bk_successes := bk_successes (hd (window b)) + 1\<rparr> # tl (window b)"
  using assms by (simp_all add: ring_ok_def bump_failure_def bump_success_def ring_view_bump ring_view_hd)

lemma breaker_failure_closed:
  assumes "br_state b = StateClosed"
  shows "breaker_failure now cfg b =
    (let b' = bump_failure (roll_window now b)
     in if shouldTrip cfg b'
        then (b'\<lparr>br_state := StateOpen, br_openedAt := now, br_halfOpenInFlight := 0\<rparr>,
              [\<lparr>te_from = StateClosed, te_to = StateOpen, te_reason = ''trip''\<rparr>])
        else (b', []))"
  using assms by (simp add: breaker_failure_def advance_not_open Let_def transition_def)

lemma breaker_failure_halfopen:
  assumes "br_state b = StateHalfOpen"
  shows "br_state (fst (breaker_failure now cfg b)) = StateOpen \<and>
    br_openedAt (fst (breaker_failure now cfg b)) = now \<and>
    br_halfOpenInFlight (fst (breaker_failure now cfg b)) = 0"
  using assms by (simp add: breaker_failure_def advance_not_open Let_def transition_def)

lemma breaker_success_halfopen:
  assumes "br_state b = StateHalfOpen"
  shows "let b' = fst (breaker_success now cfg b)
    in if br_halfOpenSuccesses b + 1 < halfOpenThreshold cfg
       then br_state b' = StateHalfOpen \<and> br_halfOpenSuccesses b' = br_halfOpenSuccesses b + 1 \<and>
            br_halfOpenInFlight b' = br_halfOpenInFlight b - 1
       else br_state b' = StateClosed \<and>
            br_buckets b' = replicate (length (br_buckets (roll_window now b))) empty_bucket"
  using assms
  by (auto simp: breaker_success_def advance_not_open Let_def transition_def map_replicate_const)

lemma breaker_success_closed:
  "br_state b = StateClosed \<Longrightarrow> breaker_success now cfg b = (bump_success (roll_window now b), [])"
  by (simp add: breaker_success_def advance_not_open Let_def)

lemma breaker_allow_closed:
  "br_state b = StateClosed \<Longrightarrow> breaker_allow now cfg b = (True, roll_window now b, [])"
  by (simp add: breaker_allow_def advance_not_open)

lemma breaker_allow_halfopen:
  "br_state b = StateHalfOpen \<Longrightarrow>
   breaker_allow now cfg b =
     (if br_halfOpenSuccesses b + br_halfOpenInFlight b < halfOpenThreshold cfg
      then (True, (roll_window now b)\<lparr>br_halfOpenInFlight := br_halfOpenInFlight b + 1\<rparr>, [])
      else (False, roll_window now b, []))"
  by (simp add: breaker_allow_def advance_not_open)

lemma breaker_allow_open:
  assumes "br_state b = StateOpen" and "0 < cb_CooldownSeconds cfg" and "cb_CooldownSeconds cfg \<le> 9223372036"
  shows "breaker_allow now cfg b =
    (if now - br_openedAt b < cb_CooldownSeconds cfg * second_ns then (False, roll_window now b, [])
     else (True, (roll_window now b)\<lparr>br_state := StateHalfOpen, br_halfOpenSuccesses := 0, br_halfOpenInFlight := 1\<rparr>,
       [\<lparr>te_from = StateOpen, te_to = StateHalfOpen, te_reason = ''cooldown_elapsed''\<rparr>]))"
  using assms by (auto simp: breaker_allow_def advance_open halfOpenThreshold_pos)

text \<open>A sequence of calls on one breaker, with the verdicts of the \<^verbatim>\<open>Allow\<close>s.\<close>

datatype breaker_call = CallAllow | CallSuccess | CallFailure

fun breaker_exec ::
  "breaker_config \<Rightarrow> (int \<times> breaker_call) list \<Rightarrow> breaker \<Rightarrow> bool list \<times> breaker" where
  "breaker_exec cfg [] b = ([], b)"
| "breaker_exec cfg ((now, CallAllow) # cs) b =
     (case breaker_allow now cfg b of
        (ok, b', _) \<Rightarrow> (case breaker_exec cfg cs b' of (oks, b'') \<Rightarrow> (ok # oks, b'')))"
| "breaker_exec cfg ((now, CallSuccess) # cs) b = breaker_exec cfg cs (fst (breaker_success now cfg b))"
| "breaker_exec cfg ((now, CallFailure) # cs) b = breaker_exec cfg cs (fst (breaker_failure now cfg b))"

lemma breaker_exec_append:
  "breaker_exec cfg (xs @ ys) b =
     (case breaker_exec cfg xs b of (oks, b') \<Rightarrow>
        case breaker_exec cfg ys b' of (oks', b'') \<Rightarrow> (oks @ oks', b''))"
  by (induction cfg xs b rule: breaker_exec.induct) (auto split: prod.splits)

lemma probes_close:
  assumes "br_state b = StateHalfOpen" and "br_halfOpenInFlight b = 0"
    and "br_halfOpenSuccesses b + n = halfOpenThreshold cfg" and "0 < n" and "length ts = n"
  shows "\<exists>b'. breaker_exec cfg (concat (map (\<lambda>t. [(t, CallAllow), (t, CallSuccess)]) ts)) b =
      (replicate n True, b') \<and> br_state b' = StateClosed \<and> window_failures (br_buckets b') = 0"
  using assms
proof (induction n arbitrary: b ts)
  case (Suc n)
  obtain t us where ts: "ts = t # us" "length us = n" using Suc.prems by (cases ts) auto
  let ?b1 = "(roll_window t b)\<lparr>br_halfOpenInFlight := br_halfOpenInFlight b + 1\<rparr>"
  have a: "breaker_allow t cfg b = (True, ?b1, [])"
    using Suc.prems by (simp add: breaker_allow_halfopen)
  let ?b2 = "fst (breaker_success t cfg ?b1)"
  have s: "br_state ?b1 = StateHalfOpen" "br_halfOpenSuccesses ?b1 = br_halfOpenSuccesses b"
    "br_halfOpenInFlight ?b1 = 1" using Suc.prems by simp_all
  show ?case
  proof (cases "n = 0")
    case True
    then have "br_state ?b2 = StateClosed" "window_failures (br_buckets ?b2) = 0"
      using breaker_success_halfopen [OF s(1), of t cfg] s Suc.prems
      by (auto simp: Let_def window_failures_def empty_bucket_def sum_list_replicate)
    with True ts a show ?thesis by simp
  next
    case False
    then have "br_state ?b2 = StateHalfOpen" "br_halfOpenSuccesses ?b2 = Suc (br_halfOpenSuccesses b)"
      "br_halfOpenInFlight ?b2 = 0"
      using breaker_success_halfopen [OF s(1), of t cfg] s Suc.prems by (auto simp: Let_def)
    with Suc.IH [of ?b2 us] Suc.prems False ts obtain b' where
      "breaker_exec cfg (concat (map (\<lambda>t. [(t, CallAllow), (t, CallSuccess)]) us)) ?b2 = (replicate n True, b')"
      "br_state b' = StateClosed" "window_failures (br_buckets b') = 0" by auto
    with ts a show ?thesis by simp
  qed
qed simp

lemma wedged_exec:
  assumes "br_state b = StateHalfOpen"
    and "halfOpenThreshold cfg \<le> br_halfOpenSuccesses b + br_halfOpenInFlight b"
  shows "\<exists>b'. breaker_exec cfg (map (\<lambda>t. (t, CallAllow)) ts) b = (replicate (length ts) False, b') \<and>
     br_state b' = StateHalfOpen"
  using assms
proof (induction ts arbitrary: b)
  case (Cons t ts)
  have "breaker_allow t cfg b = (False, roll_window t b, [])"
    using Cons.prems by (simp add: breaker_allow_halfopen)
  with Cons.IH [of "roll_window t b"] Cons.prems show ?case by fastforce
qed simp

section \<open>The store as an interface\<close>

text \<open>
  A log of calls on a store, each with the clock readings it makes, and the verdicts its
  \<^verbatim>\<open>Allow\<close>s return, with their keys.
\<close>

record store_call =
  sc_clk :: clock_reads
  sc_key :: breaker_key
  sc_cfg :: "breaker_config option"
  sc_call :: breaker_call

type_synonym 's allow_op = "clock_reads \<Rightarrow> breaker_key \<Rightarrow> breaker_config option \<Rightarrow> 's \<Rightarrow> bool \<times> 's"
type_synonym 's record_op = "clock_reads \<Rightarrow> breaker_key \<Rightarrow> breaker_config option \<Rightarrow> 's \<Rightarrow> 's"

fun run_calls ::
  "'s allow_op \<Rightarrow> 's record_op \<Rightarrow> 's record_op \<Rightarrow> store_call list \<Rightarrow> 's \<Rightarrow>
     (breaker_key \<times> bool) list \<times> 's"
where
  "run_calls al su fa [] s = ([], s)"
| "run_calls al su fa (c # cs) s =
     (case sc_call c of
        CallAllow \<Rightarrow>
          (case al (sc_clk c) (sc_key c) (sc_cfg c) s of
             (ok, s') \<Rightarrow>
               (case run_calls al su fa cs s' of (oks, s'') \<Rightarrow> ((sc_key c, ok) # oks, s'')))
      | CallSuccess \<Rightarrow> run_calls al su fa cs (su (sc_clk c) (sc_key c) (sc_cfg c) s)
      | CallFailure \<Rightarrow> run_calls al su fa cs (fa (sc_clk c) (sc_key c) (sc_cfg c) s))"

definition verdicts :: "breaker_key \<Rightarrow> (breaker_key \<times> bool) list \<Rightarrow> bool list" where
  "verdicts k oks = map snd (filter (\<lambda>v. fst v = k) oks)"

text \<open>
  What the orchestrator relies on: a disabled breaker admits everything and records nothing, a
  call reads and writes the part of the store that belongs to its own key, and a closed breaker
  admits and stays closed under admissions and successes.
\<close>

locale breaker_store_laws =
  fixes allow :: "'s allow_op"
    and success :: "'s record_op"
    and failure :: "'s record_op"
    and view :: "'s \<Rightarrow> breaker_key \<Rightarrow> 'v"
    and state :: "'s \<Rightarrow> breaker_key \<Rightarrow> cb_state"
  assumes allow_disabled: "cb_disabled cfg \<Longrightarrow> allow clk k cfg s = (True, s)"
    and success_disabled: "cb_disabled cfg \<Longrightarrow> success clk k cfg s = s"
    and failure_disabled: "cb_disabled cfg \<Longrightarrow> failure clk k cfg s = s"
    and allow_frame: "k' \<noteq> k \<Longrightarrow> view (snd (allow clk k cfg s)) k' = view s k'"
    and success_frame: "k' \<noteq> k \<Longrightarrow> view (success clk k cfg s) k' = view s k'"
    and failure_frame: "k' \<noteq> k \<Longrightarrow> view (failure clk k cfg s) k' = view s k'"
    and allow_local: "view s k = view s' k \<Longrightarrow>
      fst (allow clk k cfg s) = fst (allow clk k cfg s') \<and>
      view (snd (allow clk k cfg s)) k = view (snd (allow clk k cfg s')) k"
    and success_local: "view s k = view s' k \<Longrightarrow> view (success clk k cfg s) k = view (success clk k cfg s') k"
    and failure_local: "view s k = view s' k \<Longrightarrow> view (failure clk k cfg s) k = view (failure clk k cfg s') k"
    and state_local: "view s k = view s' k \<Longrightarrow> state s k = state s' k"
    and allow_closed: "state s k = StateClosed \<Longrightarrow>
      fst (allow clk k cfg s) \<and> state (snd (allow clk k cfg s)) k = StateClosed"
    and success_closed: "state s k = StateClosed \<Longrightarrow> state (success clk k cfg s) k = StateClosed"
begin

lemma run_calls_isolated:
  "view s k = view s' k \<Longrightarrow>
   verdicts k (fst (run_calls allow success failure cs s)) =
     verdicts k (fst (run_calls allow success failure (filter (\<lambda>c. sc_key c = k) cs) s')) \<and>
   view (snd (run_calls allow success failure cs s)) k =
     view (snd (run_calls allow success failure (filter (\<lambda>c. sc_key c = k) cs) s')) k"
proof (induction cs arbitrary: s s')
  case (Cons c cs)
  show ?case
  proof (cases "sc_key c = k")
    case True
    then show ?thesis
      using Cons.IH Cons.prems allow_local [of s k s' "sc_clk c" "sc_cfg c"]
        success_local [of s k s' "sc_clk c" "sc_cfg c"] failure_local [of s k s' "sc_clk c" "sc_cfg c"]
      by (cases "sc_call c") (simp_all add: verdicts_def case_prod_beta)
  next
    case False
    then show ?thesis
      using Cons.IH Cons.prems allow_frame [of k "sc_key c"] success_frame [of k "sc_key c"]
        failure_frame [of k "sc_key c"]
      by (cases "sc_call c") (simp_all add: verdicts_def case_prod_beta)
  qed
qed (simp add: verdicts_def)

lemma healthy_never_refused:
  "\<lbrakk>state s k = StateClosed;
    list_all (\<lambda>c. sc_key c = k \<and> sc_call c = CallFailure \<longrightarrow> cb_disabled (sc_cfg c)) cs\<rbrakk> \<Longrightarrow>
   list_all id (verdicts k (fst (run_calls allow success failure cs s))) \<and>
   state (snd (run_calls allow success failure cs s)) k = StateClosed"
proof (induction cs arbitrary: s)
  case (Cons c cs)
  let ?k = "sc_key c"
  have fr: "?k \<noteq> k \<Longrightarrow> state (snd (allow clk ?k cfg s)) k = StateClosed"
    "?k \<noteq> k \<Longrightarrow> state (success clk ?k cfg s) k = StateClosed"
    "?k \<noteq> k \<Longrightarrow> state (failure clk ?k cfg s) k = StateClosed" for clk cfg
    using Cons.prems(1) state_local allow_frame success_frame failure_frame by metis+
  have tl: "list_all (\<lambda>c. sc_key c = k \<and> sc_call c = CallFailure \<longrightarrow> cb_disabled (sc_cfg c)) cs"
    using Cons.prems by simp
  show ?case
  proof (cases "sc_call c")
    case CallAllow
    have "state (snd (allow (sc_clk c) ?k (sc_cfg c) s)) k = StateClosed"
      using fr(1) allow_closed Cons.prems(1) by metis
    moreover have "?k = k \<Longrightarrow> fst (allow (sc_clk c) ?k (sc_cfg c) s)"
      using allow_closed Cons.prems(1) by metis
    ultimately show ?thesis
      using Cons.IH [OF _ tl] CallAllow by (cases "?k = k") (simp_all add: verdicts_def case_prod_beta)
  next
    case CallSuccess
    have "state (success (sc_clk c) ?k (sc_cfg c) s) k = StateClosed"
      using fr(2) success_closed Cons.prems(1) by metis
    then show ?thesis using Cons.IH [OF _ tl] CallSuccess by simp
  next
    case CallFailure
    have "state (failure (sc_clk c) ?k (sc_cfg c) s) k = StateClosed"
    proof (cases "?k = k")
      case True
      then show ?thesis using Cons.prems failure_disabled CallFailure by simp
    qed (rule fr(3))
    then show ?thesis using Cons.IH [OF _ tl] CallFailure by simp
  qed
qed (simp add: verdicts_def)

end

lemma resize_state [simp]: "br_state (resize_ring cfg t b) = br_state b"
  by (simp add: resize_ring_def)

lemma getOrCreate_state: "br_state (getOrCreate k cfg t s) = store_State s k"
  by (simp add: getOrCreate_def store_State_def new_breaker_def split: option.split)

lemma getOrCreate_local: "map_of s k = map_of s' k \<Longrightarrow> getOrCreate k cfg t s = getOrCreate k cfg t s'"
  by (simp add: getOrCreate_def)

interpretation memory_store: breaker_store_laws store_Allow store_RecordSuccess store_RecordFailure
  map_of store_State
proof unfold_locales
  fix clk :: clock_reads and k k' :: breaker_key and cfg and s s' :: breaker_store
  show "cb_disabled cfg \<Longrightarrow> store_Allow clk k cfg s = (True, s)"
    "cb_disabled cfg \<Longrightarrow> store_RecordSuccess clk k cfg s = s"
    "cb_disabled cfg \<Longrightarrow> store_RecordFailure clk k cfg s = s"
    by (simp_all add: store_Allow_def store_RecordSuccess_def store_RecordFailure_def)
  show "k' \<noteq> k \<Longrightarrow> map_of (snd (store_Allow clk k cfg s)) k' = map_of s k'"
    "k' \<noteq> k \<Longrightarrow> map_of (store_RecordSuccess clk k cfg s) k' = map_of s k'"
    "k' \<noteq> k \<Longrightarrow> map_of (store_RecordFailure clk k cfg s) k' = map_of s k'"
    by (simp_all add: store_Allow_def store_RecordSuccess_def store_RecordFailure_def
        update_conv' case_prod_beta)
  show "map_of s k = map_of s' k \<Longrightarrow>
      fst (store_Allow clk k cfg s) = fst (store_Allow clk k cfg s') \<and>
      map_of (snd (store_Allow clk k cfg s)) k = map_of (snd (store_Allow clk k cfg s')) k"
    "map_of s k = map_of s' k \<Longrightarrow>
      map_of (store_RecordSuccess clk k cfg s) k = map_of (store_RecordSuccess clk k cfg s') k"
    "map_of s k = map_of s' k \<Longrightarrow>
      map_of (store_RecordFailure clk k cfg s) k = map_of (store_RecordFailure clk k cfg s') k"
    by (simp_all add: store_Allow_def store_RecordSuccess_def store_RecordFailure_def
        update_conv' case_prod_beta getOrCreate_local [of s k s'])
  show "map_of s k = map_of s' k \<Longrightarrow> store_State s k = store_State s' k"
    by (simp add: store_State_def)
  show "store_State s k = StateClosed \<Longrightarrow>
      fst (store_Allow clk k cfg s) \<and> store_State (snd (store_Allow clk k cfg s)) k = StateClosed"
    "store_State s k = StateClosed \<Longrightarrow> store_State (store_RecordSuccess clk k cfg s) k = StateClosed"
    using getOrCreate_state [of k "the cfg" "fst clk" s]
    by (simp_all add: store_Allow_def store_RecordSuccess_def breaker_allow_closed breaker_success_closed)
       (simp_all add: store_State_def update_conv')
qed

interpretation noop_store: breaker_store_laws noop_Allow noop_Record noop_Record
  "\<lambda>s k. ()" noop_State
  by unfold_locales (simp_all add: noop_Allow_def noop_Record_def noop_State_def)

section \<open>Properties\<close>


definition sample_cb :: breaker_config where
  "sample_cb = \<lparr>cb_Enabled = True, cb_FailureThreshold = 1, cb_FailureRateThreshold = Fin 0,
     cb_SamplingDurationSeconds = 2, cb_CooldownSeconds = 5, cb_HalfOpenSuccessThreshold = 1,
     cb_MinimumThroughput = 0\<rparr>"

definition sample_open :: breaker where
  "sample_open = \<lparr>br_state = StateOpen, br_buckets = [\<lparr>bk_successes = 0, bk_failures = 1\<rparr>, empty_bucket],
     br_bucketIdx = 0, br_lastRotate = 0, br_openedAt = 0, br_halfOpenSuccesses = 0,
     br_halfOpenInFlight = 0\<rparr>"

lemma sample_cb_fields [simp]:
  "effectiveWindow sample_cb = 2" "halfOpenThreshold sample_cb = 1" "cb_CooldownSeconds sample_cb = 5"
  "cb_FailureThreshold sample_cb = 1" "cb_FailureRateThreshold sample_cb = Fin 0"
  "cb_MinimumThroughput sample_cb = 0" "cb_Enabled sample_cb"
  by (simp_all add: effectiveWindow_def halfOpenThreshold_def sample_cb_def)

lemma sample_new: "new_breaker sample_cb t =
    \<lparr>br_state = StateClosed, br_buckets = [empty_bucket, empty_bucket], br_bucketIdx = 0,
     br_lastRotate = t, br_openedAt = 0, br_halfOpenSuccesses = 0, br_halfOpenInFlight = 0\<rparr>"
  by (simp add: new_breaker_def numeral_2_eq_2)

lemma roll_idle: "go_quot (now - br_lastRotate b) second_ns \<le> 0 \<Longrightarrow> roll_window now b = b"
  by (simp add: roll_window_def)

lemma roll_lastRotate: "go_quot (now - br_lastRotate (roll_window now b)) second_ns \<le> 0"
  by (simp add: roll_window_def Let_def go_quot_def split: prod.split)

lemma sample_failed: "bump_failure (new_breaker sample_cb 0) =
    \<lparr>br_state = StateClosed, br_buckets = [\<lparr>bk_successes = 0, bk_failures = 1\<rparr>, empty_bucket],
     br_bucketIdx = 0, br_lastRotate = 0, br_openedAt = 0, br_halfOpenSuccesses = 0,
     br_halfOpenInFlight = 0\<rparr>"
  by (simp add: sample_new bump_failure_def empty_bucket_def)

lemma sample_roll: "roll_window 0 (new_breaker sample_cb 0) = new_breaker sample_cb 0"
  by (rule roll_idle) (simp add: new_breaker_def go_quot_def)

lemma sample_open_failure: "fst (breaker_failure 0 sample_cb (new_breaker sample_cb 0)) = sample_open"
proof -
  have "br_state (new_breaker sample_cb 0) = StateClosed" by (simp add: new_breaker_def)
  then show ?thesis
    by (simp add: breaker_failure_closed sample_roll sample_failed Let_def shouldTrip_def
        window_failures_def window_successes_def empty_bucket_def sample_open_def)
qed

lemma sample_open_reached: "breaker_reach sample_cb 0 0 sample_open"
proof -
  obtain ev where "breaker_failure 0 sample_cb (new_breaker sample_cb 0) = (sample_open, ev)"
    using sample_open_failure by (metis prod.collapse)
  from reach_failure [OF reach_new _ this] show ?thesis by (simp add: phase_probes_def sample_open_def)
qed


text \<open>
  C5. The bucket ring implements a sliding list of the last \<open>w\<close> buckets, newest first: moving the
  clock pushes one empty bucket per whole second since the last rotation and drops the oldest,
  recording counts in the newest bucket, and the trip decision reads only the totals of that list.
\<close>

theorem ring_refines_sliding_window:
  assumes "breaker_reach cfg t g b"
  shows "window (roll_window now b) =
      take (effectiveWindow cfg) (replicate (elapsed_ticks now b) empty_bucket @ window b) \<and>
    window (bump_failure b) =
      (hd (window b))\<lparr>bk_failures := bk_failures (hd (window b)) + 1\<rparr> # tl (window b) \<and>
    window (bump_success b) =
      (hd (window b))\<lparr>bk_successes := bk_successes (hd (window b)) + 1\<rparr> # tl (window b) \<and>
    window_failures (br_buckets b) = window_failures (window b) \<and>
    window_successes (br_buckets b) = window_successes (window b)"
proof -
  have "ring_ok b" "length (br_buckets b) = effectiveWindow cfg"
    using breaker_reach_inv [OF assms] by (simp_all add: breaker_inv_def)
  then show ?thesis using roll_window_view [of b now] bump_view [of b] by (simp add: ring_view_totals)
qed

lemma ring_refines_sliding_window_witness:
  "window (roll_window 1500000000 (new_breaker sample_cb 0)) =
     take 2 (replicate 1 empty_bucket @ window (new_breaker sample_cb 0))"
  using ring_refines_sliding_window [OF reach_new [of sample_cb 0], of 1500000000]
  by (simp add: elapsed_ticks_def new_breaker_def go_quot_def second_ns_def)

text \<open>
  A closed breaker opens on a failure exactly when the window, with that failure counted, holds
  at least the minimum of samples and every configured arm is breached: the absolute arm by at
  least \<^verbatim>\<open>failure_threshold\<close> failures, the rate arm by a failure ratio strictly above
  \<^verbatim>\<open>failure_rate_threshold\<close>; with no arm configured it never opens.
\<close>

theorem trip_decision:
  assumes "br_state b = StateClosed" and "0 \<le> cb_FailureThreshold cfg"
  shows "br_state (fst (breaker_failure now cfg b)) = StateOpen \<longleftrightarrow>
    (let v = window (bump_failure (roll_window now b));
         s = window_successes v; f = window_failures v; rate = cb_FailureRateThreshold cfg
     in 0 < s + f \<and> cb_MinimumThroughput cfg \<le> int (s + f) \<and>
        (0 < cb_FailureThreshold cfg \<or> f64_less (Fin 0) rate) \<and>
        (0 < cb_FailureThreshold cfg \<longrightarrow> cb_FailureThreshold cfg \<le> int f) \<and>
        (f64_less (Fin 0) rate \<longrightarrow> f64_less rate (Fin (quot53 f (s + f)))))"
  using shouldTrip_arms [OF assms(2), of "bump_failure (roll_window now b)"] assms(1)
  by (simp add: breaker_failure_closed Let_def)

lemma trip_decision_witness:
  "br_state (fst (breaker_failure 0 sample_cb (new_breaker sample_cb 0))) = StateOpen"
proof -
  have "window (bump_failure (roll_window 0 (new_breaker sample_cb 0))) =
      [\<lparr>bk_successes = 0, bk_failures = 1\<rparr>, empty_bucket]"
    by (simp add: sample_roll sample_failed ring_view_def)
  moreover have "br_state (new_breaker sample_cb 0) = StateClosed" "0 \<le> cb_FailureThreshold sample_cb"
    by (simp_all add: new_breaker_def sample_cb_def)
  ultimately show ?thesis
    by (simp add: trip_decision Let_def window_failures_def window_successes_def empty_bucket_def)
qed

text \<open>
  An open breaker admits nothing before its cooldown is over, and the first call after it is
  admitted as the one probe of a fresh half-open phase. The bound on the cooldown is the point
  where \<^verbatim>\<open>time.Duration\<close> would wrap.
\<close>

theorem open_until_cooldown:
  assumes "br_state b = StateOpen" and "0 < cb_CooldownSeconds cfg" and "cb_CooldownSeconds cfg \<le> 9223372036"
  shows "(case breaker_allow now cfg b of (ok, b', ev) \<Rightarrow>
      if now - br_openedAt b < cb_CooldownSeconds cfg * second_ns
      then \<not> ok \<and> br_state b' = StateOpen \<and> br_openedAt b' = br_openedAt b \<and> ev = []
      else ok \<and> br_state b' = StateHalfOpen \<and> br_halfOpenSuccesses b' = 0 \<and> br_halfOpenInFlight b' = 1 \<and>
           ev = [\<lparr>te_from = StateOpen, te_to = StateHalfOpen, te_reason = ''cooldown_elapsed''\<rparr>])"
  using assms by (simp add: breaker_allow_open)

lemma open_until_cooldown_witness:
  "\<not> fst (breaker_allow 4999999999 sample_cb sample_open) \<and>
   br_state (fst (snd (breaker_allow 5000000000 sample_cb sample_open))) = StateHalfOpen"
  using open_until_cooldown [of sample_open sample_cb 4999999999]
    open_until_cooldown [of sample_open sample_cb 5000000000]
  by (simp add: sample_open_def second_ns_def split: prod.splits)

text \<open>
  A half-open breaker is decided by its probes: any failure opens it again and restarts the
  cooldown at that moment; a success counts towards the threshold and, when it is the last one,
  closes the breaker with an empty window, so that no old failure can trip it again.
\<close>

theorem halfopen_outcomes:
  assumes "br_state b = StateHalfOpen"
  shows "br_state (fst (breaker_failure now cfg b)) = StateOpen \<and>
    br_openedAt (fst (breaker_failure now cfg b)) = now \<and>
    (if br_halfOpenSuccesses b + 1 < halfOpenThreshold cfg
     then br_state (fst (breaker_success now cfg b)) = StateHalfOpen \<and>
          br_halfOpenSuccesses (fst (breaker_success now cfg b)) = br_halfOpenSuccesses b + 1
     else br_state (fst (breaker_success now cfg b)) = StateClosed \<and>
          br_buckets (fst (breaker_success now cfg b)) =
            replicate (length (br_buckets (roll_window now b))) empty_bucket)"
  using assms breaker_failure_halfopen breaker_success_halfopen [OF assms, of now cfg]
  by (simp add: Let_def split: if_splits)

lemma halfopen_outcomes_witness:
  "br_state (fst (breaker_success 5 sample_cb (sample_open\<lparr>br_state := StateHalfOpen\<rparr>))) = StateClosed"
  using halfopen_outcomes [of "sample_open\<lparr>br_state := StateHalfOpen\<rparr>" 5 sample_cb]
  by (simp add: sample_open_def)

text \<open>
  A tripped breaker recovers: once the cooldown is over, as many successful probes as the
  threshold asks for, one after the other and at any later times, are all admitted and leave the
  breaker closed with no failure in its window.
\<close>

theorem breaker_recovers:
  assumes "br_state b = StateOpen" and "0 < cb_CooldownSeconds cfg" and "cb_CooldownSeconds cfg \<le> 9223372036"
    and "br_openedAt b + cb_CooldownSeconds cfg * second_ns \<le> t" and "length ts + 1 = halfOpenThreshold cfg"
  shows "\<exists>b'. breaker_exec cfg (concat (map (\<lambda>t. [(t, CallAllow), (t, CallSuccess)]) (t # ts))) b =
      (replicate (halfOpenThreshold cfg) True, b') \<and>
    br_state b' = StateClosed \<and> window_failures (br_buckets b') = 0"
proof -
  let ?h = "(roll_window t b)\<lparr>br_state := StateHalfOpen, br_halfOpenSuccesses := 0, br_halfOpenInFlight := 0\<rparr>"
  have a: "breaker_allow t cfg b = (True, (roll_window t b)\<lparr>br_state := StateHalfOpen,
      br_halfOpenSuccesses := 0, br_halfOpenInFlight := 1\<rparr>,
      [\<lparr>te_from = StateOpen, te_to = StateHalfOpen, te_reason = ''cooldown_elapsed''\<rparr>])"
    using assms by (simp add: breaker_allow_open)
  have roll: "roll_window t ?h = ?h"
    by (rule roll_idle) (use roll_lastRotate [of t b] in simp)
  have h: "breaker_allow t cfg ?h = (True, (roll_window t b)\<lparr>br_state := StateHalfOpen,
      br_halfOpenSuccesses := 0, br_halfOpenInFlight := 1\<rparr>, [])"
    by (subst breaker_allow_halfopen) (simp_all add: roll halfOpenThreshold_pos)
  obtain b' where "breaker_exec cfg (concat (map (\<lambda>t. [(t, CallAllow), (t, CallSuccess)]) (t # ts))) ?h =
      (replicate (halfOpenThreshold cfg) True, b')"
    "br_state b' = StateClosed" "window_failures (br_buckets b') = 0"
    using probes_close [of ?h "halfOpenThreshold cfg" cfg "t # ts"] assms(5) halfOpenThreshold_pos by auto
  then show ?thesis using a h by simp
qed

lemma breaker_recovers_witness:
  "br_state (snd (breaker_exec sample_cb [(6000000000, CallAllow), (6000000000, CallSuccess)] sample_open)) =
     StateClosed"
  using breaker_recovers [of sample_open sample_cb 6000000000 "[]"]
  by (auto simp: sample_open_def second_ns_def)

text \<open>
  Breakers do not interfere: in any log of calls over any targets and configurations, the
  verdicts a target gets, and the breaker it ends with, are those of the log restricted to that
  target's own calls.
\<close>

theorem breakers_isolated:
  "verdicts k (fst (run_calls store_Allow store_RecordSuccess store_RecordFailure cs s)) =
     verdicts k (fst (run_calls store_Allow store_RecordSuccess store_RecordFailure
       (filter (\<lambda>c. sc_key c = k) cs) s)) \<and>
   map_of (snd (run_calls store_Allow store_RecordSuccess store_RecordFailure cs s)) k =
     map_of (snd (run_calls store_Allow store_RecordSuccess store_RecordFailure
       (filter (\<lambda>c. sc_key c = k) cs) s)) k"
  by (rule memory_store.run_calls_isolated) (rule refl)

text \<open>
  A target that never fails is never refused: from a store that does not know it (or has it
  closed), no log of calls in which no enabled failure is recorded for the target ever denies it a
  request, whatever happens to the other targets.
\<close>

theorem healthy_target_never_refused:
  assumes "store_State s k = StateClosed"
    and "list_all (\<lambda>c. sc_key c = k \<and> sc_call c = CallFailure \<longrightarrow> cb_disabled (sc_cfg c)) cs"
  shows "list_all id (verdicts k (fst (run_calls store_Allow store_RecordSuccess store_RecordFailure cs s)))"
  using memory_store.healthy_never_refused [OF assms] by blast

lemma healthy_target_never_refused_witness:
  "list_all id (verdicts (''g'', ''a'') (fst (run_calls store_Allow store_RecordSuccess store_RecordFailure
     [\<lparr>sc_clk = (0, 0), sc_key = (''g'', ''b''), sc_cfg = Some sample_cb, sc_call = CallFailure\<rparr>,
      \<lparr>sc_clk = (1, 1), sc_key = (''g'', ''a''), sc_cfg = Some sample_cb, sc_call = CallAllow\<rparr>] [])))"
  by (rule healthy_target_never_refused) (simp_all add: store_State_def)

text \<open>
  A half-open breaker has no timeout of its own: once every probe slot is taken, a sequence of
  \<^verbatim>\<open>Allow\<close> calls at any times whatsoever is refused throughout and leaves it half-open. Only a
  recorded outcome frees a slot, so an admitted attempt that never reports wedges the target.
\<close>

theorem halfopen_without_report_is_wedged:
  assumes "br_state b = StateHalfOpen"
    and "halfOpenThreshold cfg \<le> br_halfOpenSuccesses b + br_halfOpenInFlight b"
  shows "fst (breaker_exec cfg (map (\<lambda>t. (t, CallAllow)) ts) b) = replicate (length ts) False \<and>
    br_state (snd (breaker_exec cfg (map (\<lambda>t. (t, CallAllow)) ts) b)) = StateHalfOpen"
  using wedged_exec [OF assms, of ts] by auto

lemma halfopen_without_report_is_wedged_witness:
  "fst (breaker_exec sample_cb [(10, CallAllow), (10 ^ 18, CallAllow)]
     (sample_open\<lparr>br_state := StateHalfOpen, br_halfOpenInFlight := 1\<rparr>)) = [False, False]"
  using halfopen_without_report_is_wedged
    [of "sample_open\<lparr>br_state := StateHalfOpen, br_halfOpenInFlight := 1\<rparr>" sample_cb "[10, 10 ^ 18]"]
  by (simp add: sample_open_def)

text \<open>
  The sampling window can cover more than \<^verbatim>\<open>sampling_duration_seconds\<close>: \<^verbatim>\<open>advance\<close> sets
  \<^verbatim>\<open>lastRotate\<close> to the time of the call and so forgets the fraction of a second it did not
  rotate for. With a window of 2 seconds and a threshold of 3, failures at 0 s, 1.9 s and 2.8 s
  trip the breaker, although no 2 seconds contain more than two of them.
\<close>

theorem window_outlives_its_duration:
  "br_state (snd (breaker_exec (sample_cb\<lparr>cb_FailureThreshold := 3\<rparr>)
     [(0, CallFailure), (1900000000, CallFailure), (2800000000, CallFailure)]
     (new_breaker sample_cb 0))) = StateOpen"
  by (simp add: sample_new breaker_failure_def advance_def roll_window_def go_quot_def Let_def
      second_ns_def bump_failure_def shouldTrip_def window_failures_def window_successes_def
      empty_bucket_def transition_def)

text \<open>
  A rate threshold of \<^verbatim>\<open>NaN\<close> passes validation and yields an enabled breaker that no window
  can trip: every comparison with it is false, including the range check.
\<close>

theorem nan_threshold_validates_and_never_trips:
  "breaker_Validate (sample_cb\<lparr>cb_FailureThreshold := 0, cb_FailureRateThreshold := NaN\<rparr>) = None \<and>
   \<not> shouldTrip (sample_cb\<lparr>cb_FailureThreshold := 0, cb_FailureRateThreshold := NaN\<rparr>) b"
  by (simp add: breaker_Validate_def shouldTrip_def sample_cb_def Let_def)

end
