(* ===== verification/Response_Writer.thy ===== *)
theory Response_Writer
  imports Prelude
begin

text \<open>
  The response side of an attempt: \<^verbatim>\<open>internal/proxy/buffering_writer.go\<close>, the error writer of
  \<^verbatim>\<open>internal/httperr\<close> and the attempt buffer of \<^verbatim>\<open>internal/middleware/resilience/attempts.go\<close>.
  The outer \<^verbatim>\<open>http.ResponseWriter\<close> is a header map and the log of the calls that reach it
  (each status line with the headers of that moment); the calls a downstream handler makes on
  the writer it was given are \<open>writer_event\<close>s.
\<close>

section \<open>The outer writer\<close>

datatype client_event = ClientHeader int headers | ClientBytes string | ClientFlush

record client =
  cw_header :: headers
  cw_log :: "client_event list"

definition client_log :: "client_event \<Rightarrow> client \<Rightarrow> client" where
  "client_log e c = c\<lparr>cw_log := cw_log c @ [e]\<rparr>"

definition client_WriteHeader :: "int \<Rightarrow> client \<Rightarrow> client" where
  "client_WriteHeader status c = client_log (ClientHeader status (cw_header c)) c"

text \<open>
  The status line a \<^verbatim>\<open>net/http\<close> server sends for a log: an informational status (1xx other than
  101) does not end the header phase, later status lines are ignored, and writing or flushing
  first means 200.
\<close>

fun client_status :: "client_event list \<Rightarrow> int" where
  "client_status [] = 200"
| "client_status (ClientHeader s h # es) =
     (if 100 \<le> s \<and> s < 200 \<and> s \<noteq> 101 then client_status es else s)"
| "client_status (ClientBytes b # es) = 200"
| "client_status (ClientFlush # es) = 200"

section \<open>The buffering writer\<close>

record buffering_writer =
  bw_retry :: "int list"
  bw_staging :: headers
  bw_statusCode :: int
  bw_committed :: bool
  bw_writeHeaderCalled :: bool
  bw_transportErr :: "string option"

definition NewBufferingResponseWriter :: "int list \<Rightarrow> buffering_writer" where
  "NewBufferingResponseWriter retryStatusCodes =
     \<lparr>bw_retry = retryStatusCodes, bw_staging = [], bw_statusCode = 0, bw_committed = False,
      bw_writeHeaderCalled = False, bw_transportErr = None\<rparr>"

text \<open>A change of the map \<^verbatim>\<open>Header()\<close> returns: staged before the commit, direct after it.\<close>

definition bw_Header ::
  "(headers \<Rightarrow> headers) \<Rightarrow> buffering_writer \<times> client \<Rightarrow> buffering_writer \<times> client" where
  "bw_Header f bc =
     (case bc of (b, c) \<Rightarrow>
        if bw_committed b then (b, c\<lparr>cw_header := f (cw_header c)\<rparr>)
        else (b\<lparr>bw_staging := f (bw_staging b)\<rparr>, c))"

definition bw_WriteHeader ::
  "int \<Rightarrow> buffering_writer \<times> client \<Rightarrow> buffering_writer \<times> client" where
  "bw_WriteHeader status bc =
     (case bc of (b, c) \<Rightarrow>
        if bw_writeHeaderCalled b then (b, c)
        else (let b1 = b\<lparr>bw_writeHeaderCalled := True, bw_statusCode := status\<rparr>
              in if status \<in> set (bw_retry b1) then (b1, c)
                 else (let b2 = b1\<lparr>bw_committed := True\<rparr>;
                           c1 = c\<lparr>cw_header := fold (\<lambda>(k, vs) h. AList.update k vs h)
                                                (bw_staging b2) (cw_header c)\<rparr>
                       in (b2, client_WriteHeader status c1))))"

definition bw_Write :: "string \<Rightarrow> buffering_writer \<times> client \<Rightarrow> buffering_writer \<times> client" where
  "bw_Write p bc =
     (let bc1 = (if \<not> bw_writeHeaderCalled (fst bc) then bw_WriteHeader 200 bc else bc)
      in if \<not> bw_committed (fst bc1) then bc1
         else (fst bc1, client_log (ClientBytes p) (snd bc1)))"

definition bw_Flush :: "buffering_writer \<times> client \<Rightarrow> buffering_writer \<times> client" where
  "bw_Flush bc =
     (if \<not> bw_committed (fst bc) then bc else (fst bc, client_log ClientFlush (snd bc)))"

definition bw_SetTransportError :: "string \<Rightarrow> buffering_writer \<Rightarrow> buffering_writer" where
  "bw_SetTransportError err b = b\<lparr>bw_transportErr := Some err\<rparr>"

definition ShouldRetry :: "buffering_writer \<Rightarrow> bool" where
  "ShouldRetry b =
     (if bw_committed b then False
      else if bw_transportErr b \<noteq> None then True
      else if \<not> bw_writeHeaderCalled b then False
      else bw_statusCode b \<in> set (bw_retry b))"

datatype writer_event =
    EvSetHeader string string
  | EvAddHeader string string
  | EvDelHeader string
  | EvWriteHeader int
  | EvWrite string
  | EvFlush
  | EvTransportError string

fun buffer_event ::
  "writer_event \<Rightarrow> buffering_writer \<times> client \<Rightarrow> buffering_writer \<times> client" where
  "buffer_event (EvSetHeader k v) bc = bw_Header (\<lambda>h. header_set h k v) bc"
| "buffer_event (EvAddHeader k v) bc = bw_Header (\<lambda>h. header_add h k v) bc"
| "buffer_event (EvDelHeader k) bc = bw_Header (\<lambda>h. header_del h k) bc"
| "buffer_event (EvWriteHeader s) bc = bw_WriteHeader s bc"
| "buffer_event (EvWrite p) bc = bw_Write p bc"
| "buffer_event EvFlush bc = bw_Flush bc"
| "buffer_event (EvTransportError e) bc = (bw_SetTransportError e (fst bc), snd bc)"

definition buffer_run ::
  "writer_event list \<Rightarrow> buffering_writer \<times> client \<Rightarrow> buffering_writer \<times> client" where
  "buffer_run evs bc = fold buffer_event evs bc"

text \<open>
  The same calls on the outer writer itself. With no buffer in the chain a transport error is
  answered by \<^verbatim>\<open>writeBadGateway\<close> of the forwarder.
\<close>

definition writeBadGateway :: "client \<Rightarrow> client" where
  "writeBadGateway c =
     client_log (ClientBytes ''{\"error\":{\"type\":\"upstream_unavailable\",\"message\":\"upstream provider unreachable\"}}'')
       (client_WriteHeader 502
          (c\<lparr>cw_header := header_set (cw_header c) ''Content-Type'' ''application/json''\<rparr>))"

fun direct_event :: "writer_event \<Rightarrow> client \<Rightarrow> client" where
  "direct_event (EvSetHeader k v) c = c\<lparr>cw_header := header_set (cw_header c) k v\<rparr>"
| "direct_event (EvAddHeader k v) c = c\<lparr>cw_header := header_add (cw_header c) k v\<rparr>"
| "direct_event (EvDelHeader k) c = c\<lparr>cw_header := header_del (cw_header c) k\<rparr>"
| "direct_event (EvWriteHeader s) c = client_WriteHeader s c"
| "direct_event (EvWrite p) c = client_log (ClientBytes p) c"
| "direct_event EvFlush c = client_log ClientFlush c"
| "direct_event (EvTransportError e) c = writeBadGateway c"

section \<open>The error writer\<close>

text \<open>
  \<^verbatim>\<open>httperr.Writer.Write\<close> for a code and a message that need no JSON escaping (the ones the
  orchestrator passes are constants of letters, spaces and underscores).
\<close>

definition httperr_body :: "string \<Rightarrow> string \<Rightarrow> string" where
  "httperr_body code msg =
     ''{\"error\":\"'' @ code @ (if msg = [] then ''\"}'' else ''\",\"message\":\"'' @ msg @ ''\"}'')"

definition httperr_Write :: "int \<Rightarrow> string \<Rightarrow> string \<Rightarrow> client \<Rightarrow> client" where
  "httperr_Write status code msg c =
     client_log (ClientBytes (httperr_body code msg))
       (client_WriteHeader status
          (c\<lparr>cw_header := header_set (cw_header c) ''Content-Type'' ''application/json''\<rparr>))"

section \<open>The attempt buffer\<close>

text \<open>Times are left out of the record. A publish closure is a value of type \<open>'f\<close>.\<close>

record attempt_record =
  ar_Target :: string
  ar_StatusCode :: int
  ar_Outcome :: string
  ar_Error :: string

record 'f attempt_buffer =
  ab_policy :: string
  ab_records :: "attempt_record list"
  ab_terminalPublish :: "'f option"

definition NewAttemptBuffer :: "string \<Rightarrow> 'f attempt_buffer" where
  "NewAttemptBuffer policy = \<lparr>ab_policy = policy, ab_records = [], ab_terminalPublish = None\<rparr>"

definition ab_Record :: "attempt_record \<Rightarrow> 'f attempt_buffer \<Rightarrow> 'f attempt_buffer" where
  "ab_Record rec b = b\<lparr>ab_records := ab_records b @ [rec]\<rparr>"

definition SetTerminalPublish :: "'f \<Rightarrow> 'f attempt_buffer \<Rightarrow> 'f attempt_buffer" where
  "SetTerminalPublish fn b = b\<lparr>ab_terminalPublish := Some fn\<rparr>"

definition Drain :: "'f attempt_buffer \<Rightarrow> attempt_record list \<times> 'f attempt_buffer" where
  "Drain b = (ab_records b, b\<lparr>ab_records := []\<rparr>)"

text \<open>The closure to run, if any, with the arguments it is given.\<close>

definition FireTerminal ::
  "int \<Rightarrow> int \<Rightarrow> 'f attempt_buffer \<Rightarrow> ('f \<times> int \<times> int) option \<times> 'f attempt_buffer" where
  "FireTerminal durationMs finalStatus b =
     (map_option (\<lambda>fn. (fn, durationMs, finalStatus)) (ab_terminalPublish b),
      b\<lparr>ab_terminalPublish := None\<rparr>)"

section \<open>Laws\<close>

text \<open>The status an attempt is judged by: its first status line, or 200 for a body without one.\<close>

fun first_status :: "writer_event list \<Rightarrow> int option" where
  "first_status [] = None"
| "first_status (EvWriteHeader s # es) = Some s"
| "first_status (EvWrite p # es) = Some 200"
| "first_status (_ # es) = first_status es"

fun is_client_header :: "client_event \<Rightarrow> bool" where
  "is_client_header (ClientHeader s h) = True"
| "is_client_header _ = False"

definition header_count :: "client \<Rightarrow> nat" where
  "header_count c = length (filter is_client_header (cw_log c))"

fun is_transport_error :: "writer_event \<Rightarrow> bool" where
  "is_transport_error (EvTransportError e) = True"
| "is_transport_error _ = False"

lemmas bw_defs = bw_Header_def bw_WriteHeader_def bw_Write_def bw_Flush_def bw_SetTransportError_def
  client_WriteHeader_def client_log_def

lemma buffer_event_closed:
  assumes "bw_writeHeaderCalled b" and "buffer_event e (b, c) = (b', c')"
  shows "bw_writeHeaderCalled b' \<and> bw_committed b' = bw_committed b \<and>
    bw_statusCode b' = bw_statusCode b \<and> bw_retry b' = bw_retry b \<and>
    header_count c' = header_count c \<and> (bw_committed b \<or> c' = c) \<and>
    (bw_transportErr b' \<noteq> None \<longleftrightarrow> is_transport_error e \<or> bw_transportErr b \<noteq> None) \<and>
    (\<exists>es. cw_log c' = cw_log c @ es)"
  using assms by (cases e) (auto simp: bw_defs header_count_def Let_def split: if_splits)

lemma buffer_run_closed:
  assumes "bw_writeHeaderCalled b" and "buffer_run evs (b, c) = (b', c')"
  shows "bw_writeHeaderCalled b' \<and> bw_committed b' = bw_committed b \<and>
    bw_statusCode b' = bw_statusCode b \<and> bw_retry b' = bw_retry b \<and>
    header_count c' = header_count c \<and> (bw_committed b \<or> c' = c) \<and>
    (bw_transportErr b' \<noteq> None \<longleftrightarrow> list_ex is_transport_error evs \<or> bw_transportErr b \<noteq> None) \<and>
    (\<exists>es. cw_log c' = cw_log c @ es)"
  using assms
proof (induction evs arbitrary: b c)
  case (Cons e es)
  obtain b1 c1 where e: "buffer_event e (b, c) = (b1, c1)" by fastforce
  have r: "buffer_run es (b1, c1) = (b', c')" using Cons.prems e by (simp add: buffer_run_def)
  from buffer_event_closed [OF Cons.prems(1) e] Cons.IH [OF _ r] show ?case by auto
qed (simp add: buffer_run_def)

lemma buffer_run_open:
  assumes "\<not> bw_writeHeaderCalled b" and "\<not> bw_committed b" and "bw_statusCode b = 0"
    and "buffer_run evs (b, c) = (b', c')"
  shows "bw_retry b' = bw_retry b \<and>
    (bw_transportErr b' \<noteq> None \<longleftrightarrow> list_ex is_transport_error evs \<or> bw_transportErr b \<noteq> None) \<and>
    (case first_status evs of
       None \<Rightarrow> \<not> bw_writeHeaderCalled b' \<and> \<not> bw_committed b' \<and> bw_statusCode b' = 0 \<and> c' = c
     | Some s \<Rightarrow> bw_writeHeaderCalled b' \<and> bw_statusCode b' = s \<and>
         (if s \<in> set (bw_retry b) then \<not> bw_committed b' \<and> c' = c
          else bw_committed b' \<and> header_count c' = header_count c + 1 \<and>
            (\<exists>h es. cw_log c' = cw_log c @ ClientHeader s h # es)))"
  using assms
proof (induction evs arbitrary: b c)
  case Nil
  then show ?case by (simp add: buffer_run_def)
next
  case (Cons e es)
  obtain b1 c1 where e: "buffer_event e (b, c) = (b1, c1)" by fastforce
  have r: "buffer_run es (b1, c1) = (b', c')" using Cons.prems e by (simp add: buffer_run_def)
  show ?case
  proof (cases "first_status [e] = None")
    case True
    then have f: "first_status (e # es) = first_status es" by (cases e) simp_all
    have "\<not> bw_writeHeaderCalled b1 \<and> \<not> bw_committed b1 \<and> bw_statusCode b1 = 0 \<and> c1 = c \<and>
        bw_retry b1 = bw_retry b \<and>
        (bw_transportErr b1 \<noteq> None \<longleftrightarrow> is_transport_error e \<or> bw_transportErr b \<noteq> None)"
      using True e Cons.prems by (cases e) (auto simp: bw_defs)
    with Cons.IH [OF _ _ _ r] show ?thesis unfolding f by (cases "first_status es") auto
  next
    case False
    then obtain s where s: "first_status [e] = Some s" by blast
    then have f: "first_status (e # es) = Some s" "\<not> is_transport_error e" by (cases e; simp)+
    have "bw_writeHeaderCalled b1 \<and> bw_statusCode b1 = s \<and> bw_retry b1 = bw_retry b \<and>
        bw_transportErr b1 = bw_transportErr b \<and>
        (if s \<in> set (bw_retry b) then \<not> bw_committed b1 \<and> c1 = c
         else bw_committed b1 \<and> header_count c1 = header_count c + 1 \<and>
           (\<exists>h es. cw_log c1 = cw_log c @ ClientHeader s h # es))"
      using s e Cons.prems by (cases e) (auto simp: bw_defs header_count_def Let_def split: if_splits)
    moreover from this have "bw_writeHeaderCalled b' \<and> bw_committed b' = bw_committed b1 \<and>
        bw_statusCode b' = bw_statusCode b1 \<and> bw_retry b' = bw_retry b1 \<and>
        header_count c' = header_count c1 \<and> (bw_committed b1 \<or> c' = c1) \<and>
        (bw_transportErr b' \<noteq> None \<longleftrightarrow> list_ex is_transport_error es \<or> bw_transportErr b1 \<noteq> None) \<and>
        (\<exists>es. cw_log c' = cw_log c1 @ es)"
      using buffer_run_closed [OF _ r] by blast
    ultimately show ?thesis unfolding f(1) using f(2)
      by (cases "s \<in> set (bw_retry b)") auto
  qed
qed

lemma buffer_run_new:
  assumes "buffer_run evs (NewBufferingResponseWriter codes, c) = (b', c')"
  shows "bw_statusCode b' = (case first_status evs of None \<Rightarrow> 0 | Some s \<Rightarrow> s)"
    and "bw_committed b' \<longleftrightarrow> (\<exists>s. first_status evs = Some s \<and> s \<notin> set codes)"
    and "header_count c' = header_count c + (if bw_committed b' then 1 else 0)"
    and "bw_committed b' \<or> c' = c"
    and "ShouldRetry b' \<longleftrightarrow> \<not> bw_committed b' \<and>
      (list_ex is_transport_error evs \<or> (\<exists>s. first_status evs = Some s \<and> s \<in> set codes))"
    and "bw_committed b' \<Longrightarrow> \<exists>h es. cw_log c' = cw_log c @ ClientHeader (bw_statusCode b') h # es"
  using buffer_run_open [OF _ _ _ assms]
  by (auto simp: NewBufferingResponseWriter_def ShouldRetry_def split: option.splits if_splits)

section \<open>The attempt as the client would see it unbuffered\<close>

text \<open>
  A reading of one attempt without any buffer: the header changes up to the first status line (a
  body without one opens it with 200) are collected on an empty map; a status of the retry set
  hides the whole attempt, any other is sent with the collected headers laid over the client's, and
  what follows goes to the client as it comes, further status lines and transport errors apart.
\<close>

definition opens_response :: "writer_event \<Rightarrow> bool" where
  "opens_response e = (case e of EvWriteHeader _ \<Rightarrow> True | EvWrite _ \<Rightarrow> True | _ \<Rightarrow> False)"

fun changes_header :: "writer_event \<Rightarrow> bool" where
  "changes_header (EvSetHeader k v) = True"
| "changes_header (EvAddHeader k v) = True"
| "changes_header (EvDelHeader k) = True"
| "changes_header _ = False"

definition relayed :: "writer_event \<Rightarrow> bool" where
  "relayed e = (case e of EvWriteHeader _ \<Rightarrow> False | EvTransportError _ \<Rightarrow> False | _ \<Rightarrow> True)"

definition lay_over :: "headers \<Rightarrow> headers \<Rightarrow> headers" where
  "lay_over over h = fold (\<lambda>(k, vs) h. AList.update k vs h) over h"

definition relay :: "int list \<Rightarrow> writer_event list \<Rightarrow> client \<Rightarrow> client" where
  "relay codes evs c =
     (case first_status evs of
        None \<Rightarrow> c
      | Some s \<Rightarrow>
          if s \<in> set codes then c
          else (let pre = takeWhile (\<lambda>e. \<not> opens_response e) evs;
                    post = dropWhile (\<lambda>e. \<not> opens_response e) evs;
                    own = cw_header (fold direct_event (filter changes_header pre) \<lparr>cw_header = [], cw_log = []\<rparr>);
                    h = lay_over own (cw_header c)
                in fold direct_event (filter relayed post)
                     \<lparr>cw_header = h, cw_log = cw_log c @ [ClientHeader s h]\<rparr>))"

lemma relay_staging:
  assumes "list_all (\<lambda>e. \<not> opens_response e) evs" and "\<not> bw_writeHeaderCalled b" and "\<not> bw_committed b"
  shows "\<exists>b'. buffer_run evs (b, c) = (b', c) \<and> \<not> bw_writeHeaderCalled b' \<and> \<not> bw_committed b' \<and>
    bw_retry b' = bw_retry b \<and>
    bw_staging b' = cw_header (fold direct_event (filter changes_header evs) \<lparr>cw_header = bw_staging b, cw_log = l\<rparr>)"
  using assms
proof (induction evs arbitrary: b)
  case (Cons e es)
  then have "\<exists>b1. buffer_event e (b, c) = (b1, c) \<and> \<not> bw_writeHeaderCalled b1 \<and> \<not> bw_committed b1 \<and>
      bw_retry b1 = bw_retry b \<and>
      fold direct_event (filter changes_header [e]) \<lparr>cw_header = bw_staging b, cw_log = l\<rparr> =
        \<lparr>cw_header = bw_staging b1, cw_log = l\<rparr>"
    by (cases e) (simp_all add: bw_defs opens_response_def)
  then obtain b1 where b1: "buffer_event e (b, c) = (b1, c)" "\<not> bw_writeHeaderCalled b1" "\<not> bw_committed b1"
    "bw_retry b1 = bw_retry b"
    "fold direct_event (filter changes_header [e]) \<lparr>cw_header = bw_staging b, cw_log = l\<rparr> =
      \<lparr>cw_header = bw_staging b1, cw_log = l\<rparr>" by blast
  have "fold direct_event (filter changes_header (e # es)) \<lparr>cw_header = bw_staging b, cw_log = l\<rparr> =
      fold direct_event (filter changes_header es) \<lparr>cw_header = bw_staging b1, cw_log = l\<rparr>"
    using b1(5) by (cases "changes_header e") simp_all
  with Cons.IH [OF _ b1(2,3)] Cons.prems(1) b1(1,4) show ?case by (auto simp: buffer_run_def)
qed (simp add: buffer_run_def)

lemma relay_committed:
  assumes "bw_writeHeaderCalled b" and "bw_committed b"
  shows "snd (buffer_run evs (b, c)) = fold direct_event (filter relayed evs) c"
  using assms
proof (induction evs arbitrary: b c)
  case (Cons e es)
  obtain b1 c1 where e: "buffer_event e (b, c) = (b1, c1)" by fastforce
  have "c1 = fold direct_event (filter relayed [e]) c"
    using e Cons.prems by (cases e) (auto simp: bw_defs relayed_def Let_def)
  moreover have "bw_writeHeaderCalled b1 \<and> bw_committed b1"
    using buffer_event_closed [OF Cons.prems(1) e] Cons.prems(2) by simp
  ultimately show ?case using Cons.IH [of b1 c1] e by (cases "relayed e") (simp_all add: buffer_run_def)
qed (simp add: buffer_run_def)

lemma first_status_split:
  "first_status evs = (case dropWhile (\<lambda>e. \<not> opens_response e) evs of
     [] \<Rightarrow> None | e # _ \<Rightarrow> first_status [e])"
proof (induction evs)
  case (Cons e es)
  then show ?case by (cases e) (simp_all add: opens_response_def)
qed simp

lemma buffer_run_append: "buffer_run (xs @ ys) bc = buffer_run ys (buffer_run xs bc)"
  by (simp add: buffer_run_def)

lemma buffer_run_Cons: "buffer_run (e # es) bc = buffer_run es (buffer_event e bc)"
  by (simp add: buffer_run_def)

lemma buffer_event_opens:
  assumes "first_status [e] = Some s" and "s \<notin> set codes" and "\<not> bw_writeHeaderCalled b" and "\<not> bw_committed b"
    and "bw_retry b = codes"
  shows "buffer_event e (b, c) =
    (b\<lparr>bw_writeHeaderCalled := True, bw_statusCode := s, bw_committed := True\<rparr>,
     fold direct_event (filter relayed [e])
       \<lparr>cw_header = lay_over (bw_staging b) (cw_header c),
        cw_log = cw_log c @ [ClientHeader s (lay_over (bw_staging b) (cw_header c))]\<rparr>)"
  using assms by (cases e; cases c) (simp_all add: bw_defs relayed_def lay_over_def Let_def)

lemma buffer_relays:
  assumes "buffer_run evs (NewBufferingResponseWriter codes, c) = (b', c')"
  shows "c' = relay codes evs c"
proof (cases "bw_committed b'")
  case False
  then show ?thesis using buffer_run_new(2,4) [OF assms] by (auto simp: relay_def split: option.splits)
next
  case True
  then obtain s where s: "first_status evs = Some s" "s \<notin> set codes" using buffer_run_new(2) [OF assms] by blast
  let ?pre = "takeWhile (\<lambda>e. \<not> opens_response e) evs" and ?post = "dropWhile (\<lambda>e. \<not> opens_response e) evs"
  let ?b = "NewBufferingResponseWriter codes"
  obtain e es where post: "?post = e # es" and fe: "first_status [e] = Some s"
    using s(1) unfolding first_status_split [of evs] by (auto split: list.splits)
  have pre: "list_all (\<lambda>e. \<not> opens_response e) ?pre" by (auto simp: list_all_iff dest: set_takeWhileD)
  obtain b1 where b1: "buffer_run ?pre (?b, c) = (b1, c)" "\<not> bw_writeHeaderCalled b1" "\<not> bw_committed b1"
    "bw_retry b1 = codes"
    "bw_staging b1 = cw_header (fold direct_event (filter changes_header ?pre) \<lparr>cw_header = [], cw_log = []\<rparr>)"
    using relay_staging [OF pre, of ?b c "[]"] by (auto simp: NewBufferingResponseWriter_def)
  let ?h = "lay_over (bw_staging b1) (cw_header c)"
  let ?c = "\<lparr>cw_header = ?h, cw_log = cw_log c @ [ClientHeader s ?h]\<rparr>"
  let ?b2 = "b1\<lparr>bw_writeHeaderCalled := True, bw_statusCode := s, bw_committed := True\<rparr>"
  have e: "buffer_event e (b1, c) = (?b2, fold direct_event (filter relayed [e]) ?c)"
    by (rule buffer_event_opens [OF fe s(2) b1(2,3)]) (simp add: b1(4))
  have "buffer_run evs (?b, c) = buffer_run ?post (buffer_run ?pre (?b, c))"
    unfolding buffer_run_append [symmetric] takeWhile_dropWhile_id ..
  then have r: "buffer_run evs (?b, c) = buffer_run es (?b2, fold direct_event (filter relayed [e]) ?c)"
    by (simp only: post b1(1) buffer_run_Cons e)
  have "c' = snd (buffer_run evs (?b, c))" using assms by simp
  also have "\<dots> = fold direct_event (filter relayed es) (fold direct_event (filter relayed [e]) ?c)"
    unfolding r by (rule relay_committed) simp_all
  finally have "c' = fold direct_event (filter relayed (e # es)) ?c" by simp
  then show ?thesis
    using s b1(5) post by (simp add: relay_def Let_def)
qed

section \<open>Properties\<close>

text \<open>
  The buffering writer decides at the first status line, whatever the downstream does after it:
  a status of the retry set is discarded and leaves the client untouched (headers and log), any
  other status is passed on as exactly one status line; the verdict asks for a retry exactly when
  nothing was committed and either that status is retryable or a transport error was recorded.
\<close>

theorem buffer_commits_at_status_line:
  "(case buffer_run evs (NewBufferingResponseWriter codes, c) of (b', c') \<Rightarrow>
     bw_statusCode b' = (case first_status evs of None \<Rightarrow> 0 | Some s \<Rightarrow> s) \<and>
     (bw_committed b' \<longleftrightarrow> (\<exists>s. first_status evs = Some s \<and> s \<notin> set codes)) \<and>
     header_count c' = header_count c + (if bw_committed b' then 1 else 0) \<and>
     (bw_committed b' \<or> c' = c) \<and>
     (ShouldRetry b' \<longleftrightarrow> \<not> bw_committed b' \<and>
        (list_ex is_transport_error evs \<or> (\<exists>s. first_status evs = Some s \<and> s \<in> set codes))))"
proof -
  obtain b' c' where r: "buffer_run evs (NewBufferingResponseWriter codes, c) = (b', c')" by fastforce
  show ?thesis unfolding r prod.case using buffer_run_new [OF r] by blast
qed

text \<open>
  An informational status line is taken for the final one. When the upstream sends 103 before a
  retryable 503 (\<^verbatim>\<open>ReverseProxy\<close> forwards both through \<^verbatim>\<open>WriteHeader\<close>), the writer commits on the
  103, asks for no retry, swallows the 503, and the client is sent a 200 with the error body.
\<close>

theorem informational_status_commits:
  "(case buffer_run [EvWriteHeader 103, EvWriteHeader 503, EvWrite ''overloaded'']
        (NewBufferingResponseWriter [500, 502, 503, 504], \<lparr>cw_header = [], cw_log = []\<rparr>) of
     (b, c) \<Rightarrow> bw_committed b \<and> \<not> ShouldRetry b \<and> bw_statusCode b = 103 \<and>
       cw_log c = [ClientHeader 103 [], ClientBytes ''overloaded''] \<and> client_status (cw_log c) = 200)"
  by (simp add: buffer_run_def bw_defs NewBufferingResponseWriter_def ShouldRetry_def)

end
