(* ===== verification/Orchestrator.thy ===== *)
theory Orchestrator
  imports Selection Breaker Response_Writer Rule_Actions "HOL-Library.Multiset"
begin

text \<open>
  The resilience orchestrator, \<^verbatim>\<open>internal/middleware/resilience/middleware.go\<close>: the failover walk,
  the weighted load balancer, their retry pacing, and the dispatch of \<^verbatim>\<open>HTTPHandler\<close>.

  What lies outside (the downstream handler, clocks, sleeping, randomness) is the record
  \<open>orch_env\<close>: \<open>en_attempt n d\<close> is what the downstream does on the n-th dispatch \<open>d\<close> (the calls it
  makes on the writer it is given, whether it panics, and the state of the two contexts when it
  returns), \<open>en_clock k\<close> the clock readings of the k-th call on the breaker store, \<open>en_sleep\<close>
  whether the request ends during a back-off, \<open>en_jitter\<close> and \<open>en_roll\<close> the draws of the random
  number hook. The breaker store is reached through its three operations. Logging, meters and
  durations are left out.
\<close>

definition ms_ns :: int where
  "ms_ns = 1000000"

definition max_i64 :: int where
  "max_i64 = 9223372036854775807"

section \<open>Per-target policy\<close>

definition defaultFailureStatusCodes :: "int list" where
  "defaultFailureStatusCodes = [500, 502, 503, 504]"

definition effectiveFailureStatusCodes :: "resilience_config \<Rightarrow> resilience_target \<Rightarrow> int list" where
  "effectiveFailureStatusCodes pol target =
     (if tg_FailureStatusCodes target \<noteq> [] then tg_FailureStatusCodes target
      else if rc_FailureStatusCodes pol \<noteq> [] then rc_FailureStatusCodes pol
      else defaultFailureStatusCodes)"

definition effectiveCircuitBreaker ::
  "resilience_config \<Rightarrow> resilience_target \<Rightarrow> breaker_config option" where
  "effectiveCircuitBreaker pol target =
     (case tg_CircuitBreaker target of Some cb \<Rightarrow> Some cb | None \<Rightarrow> rc_CircuitBreaker pol)"

definition effectiveAttemptTimeout :: "resilience_config \<Rightarrow> resilience_target \<Rightarrow> int" where
  "effectiveAttemptTimeout pol target =
     (if 0 < tg_TimeoutSeconds target then i64 (tg_TimeoutSeconds target * second_ns)
      else if 0 < rc_TimeoutSeconds pol then i64 (rc_TimeoutSeconds pol * second_ns)
      else 0)"

text \<open>The header timeout the context carries, if the policy stamps one.\<close>

definition withPolicyResponseHeaderTimeout :: "resilience_config \<Rightarrow> int option" where
  "withPolicyResponseHeaderTimeout pol =
     (if 0 < rc_ResponseHeaderTimeoutSeconds pol
      then Some (i64 (rc_ResponseHeaderTimeoutSeconds pol * second_ns)) else None)"

definition effectiveWeight :: "int \<Rightarrow> int" where
  "effectiveWeight w = (if w < 1 then 1 else w)"

definition randomIntN :: "(int \<Rightarrow> int) \<Rightarrow> int \<Rightarrow> int" where
  "randomIntN rnd n = (if n \<le> 0 then 0 else rnd n)"

fun weight_sum :: "resilience_target list \<Rightarrow> int" where
  "weight_sum [] = 0"
| "weight_sum (t # ts) = effectiveWeight (tg_Weight t) + weight_sum ts"

text \<open>The cumulative loop up to the last slot; \<open>i\<close> is the position of the head of the list.\<close>

fun select_slot :: "int \<Rightarrow> int \<Rightarrow> nat \<Rightarrow> resilience_target list \<Rightarrow> nat" where
  "select_slot cumulative roll i [] = i"
| "select_slot cumulative roll i [t] = i"
| "select_slot cumulative roll i (t # u # ts) =
     (let c = cumulative + effectiveWeight (tg_Weight t)
      in if roll < c then i else select_slot c roll (i + 1) (u # ts))"

text \<open>\<^verbatim>\<open>None\<close> for \<^verbatim>\<open>-1\<close>.\<close>

definition weightedSelect :: "(int \<Rightarrow> int) \<Rightarrow> resilience_target list \<Rightarrow> nat option" where
  "weightedSelect rnd pool =
     (if pool = [] then None
      else Some (select_slot 0 (randomIntN rnd (weight_sum pool)) 0 pool))"

definition sortedFailoverTargets :: "resilience_target list \<Rightarrow> resilience_target list" where
  "sortedFailoverTargets targets = sort_key tg_Order targets"

section \<open>Attempt state\<close>

definition hasChangeModelName :: "action list \<Rightarrow> bool" where
  "hasChangeModelName acts =
     list_ex (\<lambda>a. case a of ChangeModelNameAction _ \<Rightarrow> True | _ \<Rightarrow> False) acts"

definition effectiveTargetActions :: "resilience_target \<Rightarrow> action list" where
  "effectiveTargetActions target =
     (if tg_ModelRewrite target = [] \<or> hasChangeModelName (tg_Actions target) then tg_Actions target
      else tg_Actions target @ [ChangeModelNameAction \<lparr>cmn_NewModelName = tg_ModelRewrite target\<rparr>])"

text \<open>
  The loop of \<^verbatim>\<open>buildAttemptState\<close>: it stops at the first error. The typed body is a pointer shared
  by all attempts, so what the actions wrote to it stays, also after an error.
\<close>

fun apply_target_actions ::
  "golib \<Rightarrow> action list \<Rightarrow> mutable_state \<Rightarrow> typed_body \<Rightarrow>
     (action_error + mutable_state) \<times> typed_body"
where
  "apply_target_actions lib [] s b = (Inr s, b)"
| "apply_target_actions lib (a # as) s b =
     (case applyAction lib a s b of
        ((_, Some e), _, b') \<Rightarrow> (Inl e, b')
      | ((_, None), s', b') \<Rightarrow> apply_target_actions lib as s' b')"

definition buildAttemptState ::
  "golib \<Rightarrow> mutable_state \<Rightarrow> resilience_target \<Rightarrow> typed_body \<Rightarrow>
     (action_error + mutable_state) \<times> typed_body"
where
  "buildAttemptState lib baseline target body =
     apply_target_actions lib (effectiveTargetActions target)
       ((Clone baseline)\<lparr>ms_TargetPath := tg_Path target, ms_TargetQuery := tg_Query target\<rparr>) body"

section \<open>Retry pacing\<close>

definition retryBudgetExhausted :: "retry_config option \<Rightarrow> nat \<Rightarrow> bool" where
  "retryBudgetExhausted retry completed =
     (case retry of
        None \<Rightarrow> False
      | Some r \<Rightarrow> rt_Enabled r \<and> 0 < rt_MaxAttempts r \<and> rt_MaxAttempts r \<le> int completed)"

definition retryDelay :: "(int \<Rightarrow> int) \<Rightarrow> retry_config option \<Rightarrow> nat \<Rightarrow> int" where
  "retryDelay rnd retry completed =
     (case retry of
        None \<Rightarrow> 0
      | Some r \<Rightarrow>
          if \<not> rt_Enabled r \<or> rt_DelayMilliseconds r \<le> 0 \<or> completed = 0 then 0
          else
            (let base = i64 (rt_DelayMilliseconds r * ms_ns);
                 d1 = (case rt_BackoffType r of
                         BackoffLinear \<Rightarrow> i64 (base * int completed)
                       | BackoffExponential \<Rightarrow>
                           (let shift = min (completed - 1) 30
                            in if max_i64 div 2 ^ shift < base then max_i64
                               else i64 (base * 2 ^ shift))
                       | _ \<Rightarrow> base);
                 d2 = (if 0 < rt_MaxDelayMs r
                       then min d1 (i64 (rt_MaxDelayMs r * ms_ns)) else d1)
             in if rt_UseJitter r
                then (let half = go_quot d2 2
                      in i64 (half + randomIntN rnd (i64 (half + 1))))
                else d2))"

section \<open>The environment and the run\<close>

record dispatch =
  dp_target :: string
  dp_state :: mutable_state
  dp_typed :: typed_body
  dp_body :: string
  dp_timeout :: int
  dp_headerTimeout :: "int option"

record attempt_world =
  aw_events :: "writer_event list"
  aw_panics :: bool
  aw_parent_ended :: bool
  aw_deadline_hit :: bool
  aw_body_left :: string

record orch_env =
  en_lib :: golib
  en_rawBody :: "string option"
  en_attempt :: "nat \<Rightarrow> dispatch \<Rightarrow> attempt_world"
  en_clock :: "nat \<Rightarrow> clock_reads"
  en_sleep :: "nat \<Rightarrow> int \<Rightarrow> bool"
  en_jitter :: "nat \<Rightarrow> int \<Rightarrow> int"
  en_roll :: "nat \<Rightarrow> int \<Rightarrow> int"

record 's breaker_iface =
  bi_Allow :: "'s allow_op"
  bi_RecordSuccess :: "'s record_op"
  bi_RecordFailure :: "'s record_op"

record 's orch_state =
  os_store :: 's
  os_calls :: nat
  os_typed :: typed_body
  os_body :: string
  os_client :: client
  os_records :: "attempt_record list"
  os_attempts :: nat
  os_lastStatus :: int
  os_dispatched :: "dispatch list"

datatype walk_end = WalkExhausted | WalkCommitted int | WalkActionFailed | WalkPanicked

definition breaker_key_of :: "resilience_config \<Rightarrow> resilience_target \<Rightarrow> breaker_key" where
  "breaker_key_of pol t = (rc_Name pol, tg_Name t)"

definition ask_breaker ::
  "orch_env \<Rightarrow> 's breaker_iface \<Rightarrow> resilience_config \<Rightarrow> resilience_target \<Rightarrow> 's orch_state \<Rightarrow>
     bool \<times> 's orch_state"
where
  "ask_breaker env bi pol t st =
     (case bi_Allow bi (en_clock env (os_calls st)) (breaker_key_of pol t)
             (effectiveCircuitBreaker pol t) (os_store st) of
        (ok, s) \<Rightarrow> (ok, st\<lparr>os_store := s, os_calls := os_calls st + 1\<rparr>))"

definition add_record :: "string \<Rightarrow> int \<Rightarrow> string \<Rightarrow> string \<Rightarrow> 's orch_state \<Rightarrow> 's orch_state" where
  "add_record target status outc err st =
     st\<lparr>os_records := os_records st @
          [\<lparr>ar_Target = target, ar_StatusCode = status, ar_Outcome = outc, ar_Error = err\<rparr>]\<rparr>"

definition markAttemptTimeout ::
  "bool \<Rightarrow> bool \<Rightarrow> int \<Rightarrow> buffering_writer \<Rightarrow> buffering_writer" where
  "markAttemptTimeout parent_ended deadline_hit timeout buf =
     (if timeout \<le> 0 \<or> parent_ended \<or> \<not> deadline_hit then buf
      else if bw_committed buf \<or> bw_transportErr buf \<noteq> None then buf
      else bw_SetTransportError ''resilience: attempt exceeded timeout'' buf)"

text \<open>Whether the request ended during the back-off before the next attempt.\<close>

definition backoffBeforeAttempt :: "orch_env \<Rightarrow> retry_config option \<Rightarrow> nat \<Rightarrow> bool" where
  "backoffBeforeAttempt env retry completed =
     (let d = retryDelay (en_jitter env completed) retry completed
      in if d \<le> 0 then False else en_sleep env completed d)"

text \<open>One dispatch: restore the body, wrap the writer, call the downstream. \<open>n\<close> is its number.\<close>

definition dispatch_attempt ::
  "orch_env \<Rightarrow> resilience_config \<Rightarrow> resilience_target \<Rightarrow> mutable_state \<Rightarrow> nat \<Rightarrow> 's orch_state \<Rightarrow>
     buffering_writer \<times> bool \<times> 's orch_state"
where
  "dispatch_attempt env pol target clone n st =
     (let body = (case en_rawBody env of Some raw \<Rightarrow> raw | None \<Rightarrow> os_body st);
          timeout = effectiveAttemptTimeout pol target;
          d = \<lparr>dp_target = tg_Name target, dp_state = clone, dp_typed = os_typed st, dp_body = body,
               dp_timeout = timeout, dp_headerTimeout = withPolicyResponseHeaderTimeout pol\<rparr>;
          w = en_attempt env n d
      in case buffer_run (aw_events w)
                (NewBufferingResponseWriter (effectiveFailureStatusCodes pol target), os_client st) of
           (buf, c) \<Rightarrow>
             (if aw_panics w then buf
              else markAttemptTimeout (aw_parent_ended w) (aw_deadline_hit w) timeout buf,
              aw_panics w,
              st\<lparr>os_client := c, os_body := aw_body_left w, os_attempts := n,
                 os_dispatched := os_dispatched st @ [d]\<rparr>))"

text \<open>What follows an attempt that returned: the breaker is told, the attempt recorded.\<close>

definition settle_attempt ::
  "orch_env \<Rightarrow> 's breaker_iface \<Rightarrow> resilience_config \<Rightarrow> resilience_target \<Rightarrow> buffering_writer \<Rightarrow>
     's orch_state \<Rightarrow> bool \<times> 's orch_state"
where
  "settle_attempt env bi pol target buf st =
     (let cb = effectiveCircuitBreaker pol target;
          clk = en_clock env (os_calls st);
          err = (case bw_transportErr buf of None \<Rightarrow> [] | Some e \<Rightarrow> e)
      in if \<not> ShouldRetry buf
         then (True, add_record (tg_Name target) (bw_statusCode buf) ''success'' err
                 (st\<lparr>os_store := bi_RecordSuccess bi clk (breaker_key_of pol target) cb (os_store st),
                     os_calls := os_calls st + 1\<rparr>))
         else (False, (add_record (tg_Name target) (bw_statusCode buf)
                         (if err \<noteq> [] then ''transport_error'' else ''failure_status'') err
                 (st\<lparr>os_store := bi_RecordFailure bi clk (breaker_key_of pol target) cb (os_store st),
                     os_calls := os_calls st + 1\<rparr>))\<lparr>os_lastStatus := bw_statusCode buf\<rparr>))"

text \<open>
  One attempt, the part the two walks have in common: build the state, dispatch, settle. The result
  is the end of the walk, or \<open>None\<close> when the outcome is retryable.
\<close>

definition attempt_target ::
  "orch_env \<Rightarrow> 's breaker_iface \<Rightarrow> resilience_config \<Rightarrow> mutable_state \<Rightarrow> resilience_target \<Rightarrow> nat \<Rightarrow>
     's orch_state \<Rightarrow> walk_end option \<times> 's orch_state"
where
  "attempt_target env bi pol baseline t n st =
     (case buildAttemptState (en_lib env) baseline t (os_typed st) of
        (Inl e, b) \<Rightarrow> (Some WalkActionFailed, st\<lparr>os_typed := b\<rparr>)
      | (Inr clone, b) \<Rightarrow>
          (case dispatch_attempt env pol t clone n (st\<lparr>os_typed := b\<rparr>) of
             (buf, panicked, st2) \<Rightarrow>
               if panicked then (Some WalkPanicked, st2)
               else (case settle_attempt env bi pol t buf st2 of
                       (committed, st3) \<Rightarrow>
                         (if committed then Some (WalkCommitted (bw_statusCode buf)) else None, st3))))"

section \<open>Failover\<close>

fun failover_walk ::
  "orch_env \<Rightarrow> 's breaker_iface \<Rightarrow> resilience_config \<Rightarrow> mutable_state \<Rightarrow> resilience_target list \<Rightarrow>
     's orch_state \<Rightarrow> walk_end \<times> 's orch_state"
where
  "failover_walk env bi pol baseline [] st = (WalkExhausted, st)"
| "failover_walk env bi pol baseline (t # ts) st =
     (if retryBudgetExhausted (rc_Retry pol) (os_attempts st) then (WalkExhausted, st)
      else case ask_breaker env bi pol t st of
        (ok, st1) \<Rightarrow>
          if \<not> ok then failover_walk env bi pol baseline ts (add_record (tg_Name t) 0 ''cb_blocked'' [] st1)
          else if 0 < os_attempts st1 \<and> backoffBeforeAttempt env (rc_Retry pol) (os_attempts st1)
          then (WalkExhausted, st1)
          else (case attempt_target env bi pol baseline t (os_attempts st1 + 1) st1 of
                  (Some e, st2) \<Rightarrow> (e, st2)
                | (None, st2) \<Rightarrow> failover_walk env bi pol baseline ts st2))"

text \<open>The result of a run: the state, the status it reports and the orchestrator's outcome.\<close>

record 's orch_result =
  or_state :: "'s orch_state"
  or_end :: walk_end
  or_finalStatus :: int
  or_outcome :: string

definition exhaustedErrorCode :: "string \<Rightarrow> string" where
  "exhaustedErrorCode outc = (if outc = ''all_open'' then ''all_open'' else ''all_failed'')"

definition exhaustedErrorMessage :: "string \<Rightarrow> string" where
  "exhaustedErrorMessage outc =
     (if outc = ''all_open'' then ''no healthy upstream target: every circuit breaker is open''
      else ''all upstream targets failed'')"

text \<open>
  The code after the loop and the two early returns; \<open>all_open\<close> is the walk's own test for
  "nothing was attempted because of the breakers". A panic unwinds through the deferred terminal
  publish with the zero status.
\<close>

definition finish_walk ::
  "('s orch_state \<Rightarrow> bool) \<Rightarrow> walk_end \<times> 's orch_state \<Rightarrow> 's orch_result" where
  "finish_walk all_open r =
     (case r of (e, st) \<Rightarrow>
        (case e of
           WalkCommitted status \<Rightarrow>
             \<lparr>or_state = st, or_end = e, or_finalStatus = status, or_outcome = ''success''\<rparr>
         | WalkActionFailed \<Rightarrow>
             \<lparr>or_state = st\<lparr>os_client := httperr_Write 500 ''target_action_failed'' ''internal error''
                                            (os_client st)\<rparr>,
              or_end = e, or_finalStatus = 500, or_outcome = ''all_failed''\<rparr>
         | WalkPanicked \<Rightarrow> \<lparr>or_state = st, or_end = e, or_finalStatus = 0, or_outcome = []\<rparr>
         | WalkExhausted \<Rightarrow>
             (let status = (if all_open st then 503
                            else if os_lastStatus st = 0 then 502 else os_lastStatus st);
                  outc = (if all_open st then ''all_open'' else ''all_failed'')
              in \<lparr>or_state = st\<lparr>os_client := httperr_Write status (exhaustedErrorCode outc)
                                               (exhaustedErrorMessage outc) (os_client st)\<rparr>,
                  or_end = e, or_finalStatus = status, or_outcome = outc\<rparr>)))"

definition start_state :: "'s \<Rightarrow> typed_body \<Rightarrow> string \<Rightarrow> client \<Rightarrow> 's orch_state" where
  "start_state s typed body c =
     \<lparr>os_store = s, os_calls = 0, os_typed = typed, os_body = body, os_client = c, os_records = [],
      os_attempts = 0, os_lastStatus = 0, os_dispatched = []\<rparr>"

definition runFailover ::
  "orch_env \<Rightarrow> 's breaker_iface \<Rightarrow> resilience_config \<Rightarrow> mutable_state \<Rightarrow> 's orch_state \<Rightarrow>
     's orch_result"
where
  "runFailover env bi pol baseline st =
     finish_walk (\<lambda>st. os_attempts st = 0)
       (failover_walk env bi pol baseline (sortedFailoverTargets (rc_Targets pol)) st)"

section \<open>Load balancing\<close>

text \<open>The pre-filter: every target asks its breaker, the admitted ones form the pool.\<close>

fun filter_pool ::
  "orch_env \<Rightarrow> 's breaker_iface \<Rightarrow> resilience_config \<Rightarrow> resilience_target list \<Rightarrow> 's orch_state \<Rightarrow>
     resilience_target list \<times> nat \<times> 's orch_state"
where
  "filter_pool env bi pol [] st = ([], 0, st)"
| "filter_pool env bi pol (t # ts) st =
     (case ask_breaker env bi pol t st of
        (ok, st1) \<Rightarrow>
          if \<not> ok
          then (case filter_pool env bi pol ts (add_record (tg_Name t) 0 ''cb_blocked'' [] st1) of
                  (pool, blocked, st2) \<Rightarrow> (pool, blocked + 1, st2))
          else (case filter_pool env bi pol ts st1 of
                  (pool, blocked, st2) \<Rightarrow> (t # pool, blocked, st2)))"

definition remove_at :: "nat \<Rightarrow> 'a list \<Rightarrow> 'a list" where
  "remove_at i xs = take i xs @ drop (i + 1) xs"

lemma select_slot_bounds: "i \<le> select_slot c roll i (t # ts) \<and> select_slot c roll i (t # ts) \<le> i + length ts"
proof (induction ts arbitrary: c i t)
  case (Cons u ts)
  show ?case
    using Cons.IH [of "i + 1" "c + effectiveWeight (tg_Weight t)" u]
    by (auto simp: Let_def)
qed simp

lemma weightedSelect_bound: "weightedSelect rnd pool = Some i \<Longrightarrow> i < length pool"
  using select_slot_bounds [of 0 0 "randomIntN rnd (weight_sum pool)" "hd pool" "tl pool"]
  by (cases pool) (auto simp: weightedSelect_def)

text \<open>
  The re-roll loop; \<open>n\<close> is the loop variable \<^verbatim>\<open>attempt\<close>, which is incremented before the target
  is known (\<^verbatim>\<open>os_attempts\<close> is \<^verbatim>\<open>realAttempts\<close>).
\<close>

function balance_walk ::
  "orch_env \<Rightarrow> 's breaker_iface \<Rightarrow> resilience_config \<Rightarrow> mutable_state \<Rightarrow> nat \<Rightarrow>
     resilience_target list \<Rightarrow> 's orch_state \<Rightarrow> nat \<times> walk_end \<times> 's orch_state"
where
  "balance_walk env bi pol baseline n pool st =
     (if pool = [] then (n, WalkExhausted, st)
      else if retryBudgetExhausted (rc_Retry pol) n then (n, WalkExhausted, st)
      else if 0 < n \<and> backoffBeforeAttempt env (rc_Retry pol) n then (n, WalkExhausted, st)
      else case weightedSelect (en_roll env (n + 1)) pool of
        None \<Rightarrow> (n, WalkExhausted, st)
      | Some idx \<Rightarrow>
          (case attempt_target env bi pol baseline (pool ! idx) (n + 1) st of
             (Some e, st2) \<Rightarrow> (n + 1, e, st2)
           | (None, st2) \<Rightarrow>
               if rc_StrictWeights pol then (n + 1, WalkExhausted, st2)
               else balance_walk env bi pol baseline (n + 1) (remove_at idx pool) st2))"
  by pat_completeness auto
termination
  by (relation "measure (\<lambda>(env, bi, pol, baseline, n, pool, st). length pool)")
     (auto simp: remove_at_def dest!: weightedSelect_bound)

declare balance_walk.simps [simp del]

definition runLoadBalance ::
  "orch_env \<Rightarrow> 's breaker_iface \<Rightarrow> resilience_config \<Rightarrow> mutable_state \<Rightarrow> 's orch_state \<Rightarrow>
     's orch_result"
where
  "runLoadBalance env bi pol baseline st =
     (case filter_pool env bi pol (rc_Targets pol) st of
        (pool, blocked, st1) \<Rightarrow>
          (case balance_walk env bi pol baseline 0 pool st1 of
             (n, e, st2) \<Rightarrow> finish_walk (\<lambda>st. n = 0 \<and> 0 < blocked) (e, st2)))"

section \<open>Dispatch\<close>

text \<open>
  A forward with no buffer: the downstream writes to the client itself.
\<close>

definition forward_direct ::
  "orch_env \<Rightarrow> string \<Rightarrow> mutable_state \<Rightarrow> int \<Rightarrow> int option \<Rightarrow> 's orch_state \<Rightarrow> 's orch_state" where
  "forward_direct env target s timeout header_timeout st =
     (let d = \<lparr>dp_target = target, dp_state = s, dp_typed = os_typed st, dp_body = os_body st,
               dp_timeout = timeout, dp_headerTimeout = header_timeout\<rparr>;
          w = en_attempt env 1 d
      in st\<lparr>os_client := fold direct_event (aw_events w) (os_client st), os_body := aw_body_left w,
            os_dispatched := os_dispatched st @ [d]\<rparr>)"

definition runSingleTarget ::
  "orch_env \<Rightarrow> resilience_config \<Rightarrow> resilience_target \<Rightarrow> mutable_state \<Rightarrow> 's orch_state \<Rightarrow>
     's orch_state"
where
  "runSingleTarget env pol target s st =
     (let timeout = effectiveAttemptTimeout pol target;
          ht = withPolicyResponseHeaderTimeout pol
      in if effectiveTargetActions target = []
         then forward_direct env (tg_Name target) s timeout ht st
         else (case buildAttemptState (en_lib env) s target (os_typed st) of
                 (Inl e, b) \<Rightarrow>
                   st\<lparr>os_typed := b,
                      os_client := httperr_Write 500 ''target_action_failed'' ''internal error''
                                     (os_client st)\<rparr>
               | (Inr clone, b) \<Rightarrow>
                   forward_direct env (tg_Name target) clone timeout ht (st\<lparr>os_typed := b\<rparr>)))"

definition applyRuleOverride :: "mutable_state \<Rightarrow> resilience_config \<times> mutable_state" where
  "applyRuleOverride s =
     (let collapsed = RuleOverrideResilienceConfig (ms_Provider s)
      in (collapsed, s\<lparr>ms_PolicyRef := rc_Name collapsed\<rparr>))"

text \<open>
  \<^verbatim>\<open>HTTPHandler\<close>: \<open>s\<close> is the rule state on the context, \<open>ctx_pol\<close> the policy selection stashed there,
  \<open>lookup\<close> the legacy library (nil in production). With no state or no policy the request is
  passed through.
\<close>

definition resolve_policy ::
  "resilience_config option \<Rightarrow> (string \<Rightarrow> resilience_config option) option \<Rightarrow> mutable_state \<Rightarrow>
     resilience_config option"
where
  "resolve_policy ctx_pol lookup s =
     (case ctx_pol of
        Some p \<Rightarrow> Some p
      | None \<Rightarrow>
          (case lookup of
             None \<Rightarrow> None
           | Some f \<Rightarrow> if ms_PolicyRef s = [] then None else f (ms_PolicyRef s)))"

definition HTTPHandler ::
  "orch_env \<Rightarrow> 's breaker_iface \<Rightarrow> resilience_config option \<Rightarrow>
     (string \<Rightarrow> resilience_config option) option \<Rightarrow> mutable_state \<Rightarrow> 's orch_state \<Rightarrow> 's orch_state"
where
  "HTTPHandler env bi ctx_pol lookup s st =
     (case resolve_policy ctx_pol lookup s of
        None \<Rightarrow> forward_direct env [] s 0 None st
      | Some pol0 \<Rightarrow>
          if rc_Targets pol0 = [] then forward_direct env [] s 0 None st
          else (case (if ms_ProviderOverridden s \<and> ms_Provider s \<noteq> [] then applyRuleOverride s
                      else (pol0, s)) of
                  (pol, s1) \<Rightarrow>
                    (case rc_Mode pol of
                       ModeFailover \<Rightarrow> or_state (runFailover env bi pol s1 st)
                     | ModeLoadBalance \<Rightarrow> or_state (runLoadBalance env bi pol s1 st)
                     | ModeLoadBalanceWithFailover \<Rightarrow> or_state (runLoadBalance env bi pol s1 st)
                     | _ \<Rightarrow> runSingleTarget env pol (hd (rc_Targets pol)) s1 st)))"

section \<open>One attempt\<close>

lemma ask_breaker_keeps:
  assumes "ask_breaker env bi pol t st = (ok, st1)"
  shows "os_client st1 = os_client st" "os_dispatched st1 = os_dispatched st"
    "os_attempts st1 = os_attempts st" "os_typed st1 = os_typed st" "os_lastStatus st1 = os_lastStatus st"
    "os_body st1 = os_body st" "os_records st1 = os_records st"
  using assms by (auto simp: ask_breaker_def split: prod.splits)

lemma add_record_keeps [simp]:
  "os_client (add_record a b c d st) = os_client st" "os_dispatched (add_record a b c d st) = os_dispatched st"
  "os_attempts (add_record a b c d st) = os_attempts st" "os_typed (add_record a b c d st) = os_typed st"
  "os_lastStatus (add_record a b c d st) = os_lastStatus st" "os_body (add_record a b c d st) = os_body st"
  "os_store (add_record a b c d st) = os_store st" "os_calls (add_record a b c d st) = os_calls st"
  by (simp_all add: add_record_def)

lemma markAttemptTimeout_keeps [simp]:
  "bw_committed (markAttemptTimeout p h t b) = bw_committed b"
  "bw_statusCode (markAttemptTimeout p h t b) = bw_statusCode b"
  by (simp_all add: markAttemptTimeout_def bw_SetTransportError_def)

lemma dispatch_attempt_spec:
  assumes "dispatch_attempt env pol t clone n st = (buf, panicked, st2)"
  shows "\<exists>d. os_dispatched st2 = os_dispatched st @ [d] \<and> dp_target d = tg_Name t \<and> dp_state d = clone \<and>
      dp_timeout d = effectiveAttemptTimeout pol t \<and> dp_headerTimeout d = withPolicyResponseHeaderTimeout pol \<and>
      dp_typed d = os_typed st \<and>
      en_rawBody env \<in> {None, Some (dp_body d)}"
    and "os_attempts st2 = n" and "os_typed st2 = os_typed st" and "os_store st2 = os_store st"
    and "os_lastStatus st2 = os_lastStatus st"
    and "header_count (os_client st2) = header_count (os_client st) + (if bw_committed buf then 1 else 0)"
    and "bw_committed buf \<or> os_client st2 = os_client st"
    and "os_client st2 = relay (effectiveFailureStatusCodes pol t)
           (aw_events (en_attempt env n (last (os_dispatched st2)))) (os_client st)"
    and "bw_statusCode buf =
           (case first_status (aw_events (en_attempt env n (last (os_dispatched st2)))) of None \<Rightarrow> 0 | Some s \<Rightarrow> s)"
proof -
  show "\<exists>d. os_dispatched st2 = os_dispatched st @ [d] \<and> dp_target d = tg_Name t \<and> dp_state d = clone \<and>
      dp_timeout d = effectiveAttemptTimeout pol t \<and> dp_headerTimeout d = withPolicyResponseHeaderTimeout pol \<and>
      dp_typed d = os_typed st \<and>
      en_rawBody env \<in> {None, Some (dp_body d)}"
    "os_attempts st2 = n" "os_typed st2 = os_typed st" "os_store st2 = os_store st"
    "os_lastStatus st2 = os_lastStatus st"
    using assms by (auto simp: dispatch_attempt_def Let_def split: prod.splits option.splits)
  obtain b where r: "buffer_run (aw_events (en_attempt env n (last (os_dispatched st2))))
      (NewBufferingResponseWriter (effectiveFailureStatusCodes pol t), os_client st) = (b, os_client st2)"
    and b: "bw_committed buf = bw_committed b" "bw_statusCode buf = bw_statusCode b"
    using assms by (auto simp: dispatch_attempt_def Let_def split: prod.splits)
  show "header_count (os_client st2) = header_count (os_client st) + (if bw_committed buf then 1 else 0)"
    "bw_committed buf \<or> os_client st2 = os_client st"
    using buffer_run_new(3,4) [OF r] unfolding b by simp_all
  show "os_client st2 = relay (effectiveFailureStatusCodes pol t)
      (aw_events (en_attempt env n (last (os_dispatched st2)))) (os_client st)"
    by (rule buffer_relays [OF r])
  show "bw_statusCode buf =
      (case first_status (aw_events (en_attempt env n (last (os_dispatched st2)))) of None \<Rightarrow> 0 | Some s \<Rightarrow> s)"
    using buffer_run_new(1) [OF r] unfolding b .
qed

lemma settle_attempt_spec:
  assumes "settle_attempt env bi pol t buf st = (committed, st3)"
  shows "committed = (\<not> ShouldRetry buf)" "os_client st3 = os_client st" "os_dispatched st3 = os_dispatched st"
    "os_attempts st3 = os_attempts st" "os_typed st3 = os_typed st"
    "os_lastStatus st3 = (if committed then os_lastStatus st else bw_statusCode buf)"
  using assms by (auto simp: settle_attempt_def Let_def split: if_splits)

lemma ShouldRetry_not_committed: "ShouldRetry b \<Longrightarrow> \<not> bw_committed b"
  by (simp add: ShouldRetry_def split: if_splits)

section \<open>Attempt states do not depend on earlier attempts\<close>

lemma applyAction_other_body:
  assumes "(b = OtherBody) = (b' = OtherBody)"
  shows "fst (applyAction lib a s b) = fst (applyAction lib a s b') \<and>
    fst (snd (applyAction lib a s b)) = fst (snd (applyAction lib a s b'))"
  using assms
  by (cases a; simp add: keep_body_def; cases b; cases b'; simp add: applyChangeModelName_def Let_def)

lemma apply_target_actions_other_body:
  "(b = OtherBody) = (b' = OtherBody) \<Longrightarrow>
   fst (apply_target_actions lib as s b) = fst (apply_target_actions lib as s b') \<and>
   (snd (apply_target_actions lib as s b) = OtherBody) = (b = OtherBody)"
proof (induction as arbitrary: s b b')
  case (Cons a as)
  obtain out err s1 b1 where r: "applyAction lib a s b = ((out, err), s1, b1)" by (metis prod.exhaust)
  obtain b1' where r': "applyAction lib a s b' = ((out, err), s1, b1')"
    using applyAction_other_body [OF Cons.prems, of lib a s] r by (metis fst_conv prod.collapse snd_conv)
  have "(b1 = OtherBody) = (b = OtherBody)" "(b1' = OtherBody) = (b' = OtherBody)"
    using applyAction_body [of lib a s b] applyAction_body [of lib a s b'] r r' by simp_all
  then show ?case using Cons.IH [of b1 b1' s1] Cons.prems by (cases err) (simp_all add: r r')
qed simp

lemma buildAttemptState_other_body:
  assumes "(b = OtherBody) = (b' = OtherBody)"
  shows "fst (buildAttemptState lib s t b) = fst (buildAttemptState lib s t b')"
    and "(snd (buildAttemptState lib s t b) = OtherBody) = (b = OtherBody)"
  using apply_target_actions_other_body [OF assms] by (simp_all add: buildAttemptState_def)

section \<open>What every walk guarantees\<close>

text \<open>
  The dispatches \<open>ds\<close> of a walk over \<open>ts\<close>: each is one target's own state, built from the baseline
  alone, with the captured body restored.
\<close>

definition dispatch_ok ::
  "orch_env \<Rightarrow> resilience_config \<Rightarrow> mutable_state \<Rightarrow> typed_body \<Rightarrow> resilience_target \<Rightarrow> dispatch \<Rightarrow> bool"
where
  "dispatch_ok env pol baseline typed t d \<longleftrightarrow>
     dp_target d = tg_Name t \<and>
     fst (buildAttemptState (en_lib env) baseline t typed) = Inr (dp_state d) \<and>
     dp_timeout d = effectiveAttemptTimeout pol t \<and>
     en_rawBody env \<in> {None, Some (dp_body d)}"

text \<open>
  The client holds what the last dispatch \<open>d\<close>, one of target \<open>t\<close>, relays to the writer \<open>c\<close>: nothing
  of any dispatch before it.
\<close>

definition attempt_answer ::
  "orch_env \<Rightarrow> resilience_config \<Rightarrow> resilience_target \<Rightarrow> dispatch \<Rightarrow> client \<Rightarrow> 's orch_state \<Rightarrow> bool" where
  "attempt_answer env pol t d c st \<longleftrightarrow>
     dp_target d = tg_Name t \<and>
     os_client st = relay (effectiveFailureStatusCodes pol t) (aw_events (en_attempt env (os_attempts st) d)) c"

definition answer_status :: "orch_env \<Rightarrow> dispatch \<Rightarrow> 's orch_state \<Rightarrow> int" where
  "answer_status env d st =
     (case first_status (aw_events (en_attempt env (os_attempts st) d)) of None \<Rightarrow> 0 | Some s \<Rightarrow> s)"

definition walk_ok ::
  "orch_env \<Rightarrow> resilience_config \<Rightarrow> mutable_state \<Rightarrow> resilience_target list \<Rightarrow> 's orch_state \<Rightarrow>
     walk_end \<Rightarrow> 's orch_state \<Rightarrow> dispatch list \<Rightarrow> bool"
where
  "walk_ok env pol baseline ts st e st' ds \<longleftrightarrow>
     os_dispatched st' = os_dispatched st @ ds \<and>
     (os_typed st' = OtherBody) = (os_typed st = OtherBody) \<and>
     (\<forall>d \<in> set ds. \<exists>t \<in> set ts. dispatch_ok env pol baseline (os_typed st) t d) \<and>
     (case e of
        WalkExhausted \<Rightarrow> os_client st' = os_client st
      | WalkActionFailed \<Rightarrow> os_client st' = os_client st
      | WalkCommitted s \<Rightarrow> ds \<noteq> [] \<and> s = answer_status env (last ds) st' \<and>
          (\<exists>t \<in> set ts. attempt_answer env pol t (last ds) (os_client st) st')
      | WalkPanicked \<Rightarrow> ds \<noteq> [] \<and> (\<exists>t \<in> set ts. attempt_answer env pol t (last ds) (os_client st) st'))"

lemma dispatch_ok_other_body:
  "(b = OtherBody) = (b' = OtherBody) \<Longrightarrow>
   dispatch_ok env pol baseline b t d = dispatch_ok env pol baseline b' t d"
  using buildAttemptState_other_body(1) [of b b'] by (simp add: dispatch_ok_def)

lemma attempt_dispatch_ok:
  assumes b: "buildAttemptState (en_lib env) baseline t (os_typed st) = (Inr clone, b)"
    and d: "dispatch_attempt env pol t clone n (st\<lparr>os_typed := b\<rparr>) = (buf, panicked, st2)"
  obtains d where "os_dispatched st2 = os_dispatched st @ [d]"
    "dispatch_ok env pol baseline (os_typed st) t d" "(os_typed st2 = OtherBody) = (os_typed st = OtherBody)"
proof -
  from dispatch_attempt_spec(1) [OF d] obtain d where
    "os_dispatched st2 = os_dispatched st @ [d]" "dp_target d = tg_Name t" "dp_state d = clone"
    "dp_timeout d = effectiveAttemptTimeout pol t"
    "en_rawBody env \<in> {None, Some (dp_body d)}" by auto
  moreover from this have "dispatch_ok env pol baseline (os_typed st) t d"
    using b by (auto simp: dispatch_ok_def)
  moreover have "(os_typed st2 = OtherBody) = (os_typed st = OtherBody)"
    using dispatch_attempt_spec(3) [OF d] buildAttemptState_other_body(2) [of "os_typed st" "os_typed st"] b
    by (metis (no_types, lifting) orch_state.select_convs(3) orch_state.surjective orch_state.update_convs(3) snd_conv)
  ultimately show thesis using that by blast
qed

lemma walk_ok_mono:
  "walk_ok env pol baseline ts st e st' ds \<Longrightarrow> set ts \<subseteq> set us \<Longrightarrow> walk_ok env pol baseline us st e st' ds"
  by (cases e) (simp_all add: walk_ok_def, blast+)

lemma walk_ok_Cons:
  assumes "walk_ok env pol baseline ts st2 e st' ds"
    and "os_dispatched st2 = os_dispatched st @ ds0" and "os_client st2 = os_client st"
    and "(os_typed st2 = OtherBody) = (os_typed st = OtherBody)"
    and "\<forall>d \<in> set ds0. \<exists>t \<in> set us. dispatch_ok env pol baseline (os_typed st) t d"
    and "set ts \<subseteq> set us"
  shows "walk_ok env pol baseline us st e st' (ds0 @ ds)"
proof -
  have "\<forall>d \<in> set ds. \<exists>t \<in> set us. dispatch_ok env pol baseline (os_typed st) t d"
    using assms(1,6) dispatch_ok_other_body [OF assms(4)] unfolding walk_ok_def by blast
  with assms(5) have "\<forall>d \<in> set (ds0 @ ds). \<exists>t \<in> set us. dispatch_ok env pol baseline (os_typed st) t d"
    by auto
  moreover have "\<exists>t \<in> set us. P t" if "\<exists>t \<in> set ts. P t" for P using that assms(6) by blast
  ultimately show ?thesis using assms(1-4) by (cases e) (simp_all add: walk_ok_def)
qed

lemma attempt_target_ok:
  assumes "attempt_target env bi pol baseline t n st = (r, st')"
  shows "\<exists>ds. walk_ok env pol baseline [t] st (case r of None \<Rightarrow> WalkExhausted | Some e \<Rightarrow> e) st' ds \<and>
    (ds = [] \<and> r \<noteq> None \<and> os_attempts st' = os_attempts st \<or>
     (\<exists>d. ds = [d] \<and> dp_target d = tg_Name t) \<and> os_attempts st' = n)"
proof -
  obtain q b where bs: "buildAttemptState (en_lib env) baseline t (os_typed st) = (q, b)" by fastforce
  have other: "(b = OtherBody) = (os_typed st = OtherBody)"
    using buildAttemptState_other_body(2) [of "os_typed st" "os_typed st" "en_lib env" baseline t] bs by simp
  show ?thesis
  proof (cases q)
    case (Inl er)
    then show ?thesis using assms bs other by (auto simp: attempt_target_def walk_ok_def)
  next
    case (Inr clone)
    obtain buf panicked st2 where
      d: "dispatch_attempt env pol t clone n (st\<lparr>os_typed := b\<rparr>) = (buf, panicked, st2)"
      by (metis prod.exhaust)
    obtain dd where dd: "os_dispatched st2 = os_dispatched st @ [dd]"
      "dispatch_ok env pol baseline (os_typed st) t dd" "(os_typed st2 = OtherBody) = (os_typed st = OtherBody)"
      using attempt_dispatch_ok [OF bs [unfolded Inr] d] by blast
    note sp = dispatch_attempt_spec(2,7,8,9) [OF d]
    obtain committed st3 where s: "settle_attempt env bi pol t buf st2 = (committed, st3)" by fastforce
    note ss = settle_attempt_spec [OF s]
    have "os_client st2 = os_client st" if "\<not> committed"
      using that ss(1) sp(2) ShouldRetry_not_committed [of buf] by simp
    moreover have "attempt_answer env pol t dd (os_client st) st'" "bw_statusCode buf = answer_status env dd st'"
      if "os_client st' = os_client st2" "os_attempts st' = os_attempts st2"
      using sp(1,3,4) that dd(1,2) by (simp_all add: attempt_answer_def answer_status_def dispatch_ok_def)
    ultimately have "walk_ok env pol baseline [t] st (case r of None \<Rightarrow> WalkExhausted | Some e \<Rightarrow> e) st' [dd]"
      and "os_attempts st' = n"
      using assms bs Inr d s ss(2-5) dd sp(1) by (auto simp: attempt_target_def walk_ok_def split: if_splits)
    then show ?thesis using dd(2) by (intro exI [of _ "[dd]"]) (simp add: dispatch_ok_def)
  qed
qed

lemma walk_ok_stop:
  assumes "os_dispatched st' = os_dispatched st" and "os_client st' = os_client st"
    and "(os_typed st' = OtherBody) = (os_typed st = OtherBody)"
  shows "walk_ok env pol baseline ts st WalkExhausted st' []"
  using assms by (simp add: walk_ok_def)

lemma failover_walk_ok:
  "failover_walk env bi pol baseline ts st = (e, st') \<Longrightarrow>
   \<exists>ds. walk_ok env pol baseline ts st e st' ds \<and> subseq (map dp_target ds) (map tg_Name ts) \<and>
     os_attempts st' = os_attempts st + length ds"
proof (induction ts arbitrary: st)
  case Nil
  then show ?case by (auto intro!: exI [of _ "[]"] walk_ok_stop)
next
  case (Cons t ts)
  obtain ok st1 where a: "ask_breaker env bi pol t st = (ok, st1)" by fastforce
  note k = ask_breaker_keeps [OF a]
  let ?blocked = "add_record (tg_Name t) 0 ''cb_blocked'' [] st1"
  obtain r st2 where at: "attempt_target env bi pol baseline t (os_attempts st1 + 1) st1 = (r, st2)" by fastforce
  from attempt_target_ok [OF at] obtain ds1 where
    ds1: "walk_ok env pol baseline [t] st1 (case r of None \<Rightarrow> WalkExhausted | Some e \<Rightarrow> e) st2 ds1" and
    n1: "ds1 = [] \<and> r \<noteq> None \<and> os_attempts st2 = os_attempts st \<or>
      (\<exists>d. ds1 = [d] \<and> dp_target d = tg_Name t) \<and> os_attempts st2 = os_attempts st + 1" unfolding k by blast
  have w1: "walk_ok env pol baseline (t # ts) st (case r of None \<Rightarrow> WalkExhausted | Some e \<Rightarrow> e) st2 ds1"
    using walk_ok_Cons [OF ds1, of st "[]" "t # ts"] k by simp
  consider (stop) "(e, st') = (WalkExhausted, st) \<or> (e, st') = (WalkExhausted, st1)"
    | (blocked) "failover_walk env bi pol baseline ts ?blocked = (e, st')"
    | (ended) x where "r = Some x" "(e, st') = (x, st2)"
    | (retry) "r = None" "failover_walk env bi pol baseline ts st2 = (e, st')"
    using Cons.prems a at by (cases r) (auto split: if_splits)
  then show ?case
  proof cases
    case stop
    then show ?thesis using k by (intro exI [of _ "[]"]) (auto intro: walk_ok_stop)
  next
    case blocked
    from Cons.IH [OF this] obtain ds where ds: "walk_ok env pol baseline ts ?blocked e st' ds"
      "subseq (map dp_target ds) (map tg_Name ts)" "os_attempts st' = os_attempts ?blocked + length ds" by blast
    have "walk_ok env pol baseline (t # ts) st e st' ([] @ ds)"
      by (rule walk_ok_Cons [OF ds(1)]) (auto simp: k)
    then show ?thesis using ds(2,3) k(3) by (intro exI [of _ ds]) (auto intro: list_emb_Cons)
  next
    case ended
    then show ?thesis using w1 n1 by (intro exI [of _ ds1]) auto
  next
    case retry
    from Cons.IH [OF retry(2)] obtain ds where ds: "walk_ok env pol baseline ts st2 e st' ds"
      "subseq (map dp_target ds) (map tg_Name ts)" "os_attempts st' = os_attempts st2 + length ds" by blast
    have "walk_ok env pol baseline (t # ts) st e st' (ds1 @ ds)"
      by (rule walk_ok_Cons [OF ds(1)]) (use w1 retry(1) in \<open>auto simp: walk_ok_def\<close>)
    then show ?thesis using ds(2,3) n1 retry(1) by (intro exI [of _ "ds1 @ ds"]) auto
  qed
qed

lemma filter_pool_keeps:
  "filter_pool env bi pol ts st = (pool, blocked, st') \<Longrightarrow>
   os_client st' = os_client st \<and> os_dispatched st' = os_dispatched st \<and> os_attempts st' = os_attempts st \<and>
   os_typed st' = os_typed st \<and> os_lastStatus st' = os_lastStatus st \<and> subseq pool ts \<and>
   length pool + blocked = length ts"
proof (induction ts arbitrary: st pool blocked st')
  case (Cons t ts)
  obtain ok st1 where a: "ask_breaker env bi pol t st = (ok, st1)" by fastforce
  let ?st = "if ok then st1 else add_record (tg_Name t) 0 ''cb_blocked'' [] st1"
  obtain p k st2 where f: "filter_pool env bi pol ts ?st = (p, k, st2)" by (metis prod.exhaust)
  from Cons.IH [OF f] Cons.prems a f ask_breaker_keeps [OF a] show ?case
    by (cases ok) (auto intro: list_emb_Cons)
qed simp

lemma mset_remove_at: "i < length xs \<Longrightarrow> mset (remove_at i xs) + {#xs ! i#} = mset xs"
  by (metis Suc_eq_plus1 add.commute add_mset_add_single id_take_nth_drop mset.simps(2) mset_append
      remove_at_def union_mset_add_mset_right)

lemma set_remove_at: "set (remove_at i xs) \<subseteq> set xs"
  by (auto simp: remove_at_def dest: in_set_takeD in_set_dropD)

lemma balance_walk_ok:
  "balance_walk env bi pol baseline n pool st = (m, e, st') \<Longrightarrow>
   \<exists>ds. walk_ok env pol baseline pool st e st' ds \<and> mset (map dp_target ds) \<subseteq># mset (map tg_Name pool) \<and>
     n \<le> m \<and> length ds \<le> m - n \<and> (e \<noteq> WalkActionFailed \<longrightarrow> length ds = m - n)"
proof (induction env bi pol baseline n pool st arbitrary: m e st' rule: balance_walk.induct)
  case (1 env bi pol baseline n pool st)
  consider (stop) "(m, e, st') = (n, WalkExhausted, st)"
    | (go) idx where "pool \<noteq> []" "\<not> retryBudgetExhausted (rc_Retry pol) n"
        "\<not> (0 < n \<and> backoffBeforeAttempt env (rc_Retry pol) n)"
        "weightedSelect (en_roll env (n + 1)) pool = Some idx"
    using "1.prems" by (subst (asm) balance_walk.simps) (auto split: if_splits option.splits)
  then show ?case
  proof cases
    case stop
    then show ?thesis by (intro exI [of _ "[]"]) (auto intro: walk_ok_stop)
  next
    case go
    let ?t = "pool ! idx"
    have idx: "idx < length pool" using weightedSelect_bound [OF go(4)] .
    obtain r st2 where at: "attempt_target env bi pol baseline ?t (n + 1) st = (r, st2)" by fastforce
    from attempt_target_ok [OF at] obtain ds1 where
      ds1: "walk_ok env pol baseline [?t] st (case r of None \<Rightarrow> WalkExhausted | Some e \<Rightarrow> e) st2 ds1" and
      n1: "ds1 = [] \<and> r \<noteq> None \<or> (\<exists>d. ds1 = [d] \<and> dp_target d = tg_Name ?t)" by blast
    have w1: "walk_ok env pol baseline pool st (case r of None \<Rightarrow> WalkExhausted | Some e \<Rightarrow> e) st2 ds1"
      using walk_ok_mono [OF ds1] idx by simp
    have afail: "ds1 = [] \<Longrightarrow> r = Some WalkActionFailed"
      using at n1 ds1 by (auto simp: attempt_target_def walk_ok_def split: prod.splits sum.splits if_splits
          dest!: dispatch_attempt_spec(1) settle_attempt_spec(3))
    have m1: "mset (map dp_target ds1) \<subseteq># {#tg_Name ?t#}" using n1 by auto
    have m2: "{#tg_Name ?t#} \<subseteq># mset (map tg_Name pool)" using idx by (auto intro!: imageI)
    consider (ended) x where "r = Some x" "(m, e, st') = (n + 1, x, st2)"
      | (strict) "r = None" "(m, e, st') = (n + 1, WalkExhausted, st2)"
      | (again) "r = None" "\<not> rc_StrictWeights pol"
          "balance_walk env bi pol baseline (n + 1) (remove_at idx pool) st2 = (m, e, st')"
      using "1.prems" go at by (subst (asm) balance_walk.simps) (cases r; auto split: if_splits)
    then show ?thesis
    proof cases
      case ended
      then show ?thesis using w1 n1 m1 m2 afail by (intro exI [of _ ds1]) auto
    next
      case strict
      then show ?thesis using w1 n1 m1 m2 by (intro exI [of _ ds1]) auto
    next
      case again
      from "1.IH" [OF go(1-4) at [symmetric] _ again(2,3)] again(1) obtain ds where
        ds: "walk_ok env pol baseline (remove_at idx pool) st2 e st' ds"
          "mset (map dp_target ds) \<subseteq># mset (map tg_Name (remove_at idx pool))"
          "n + 1 \<le> m" "length ds \<le> m - (n + 1)" "e \<noteq> WalkActionFailed \<longrightarrow> length ds = m - (n + 1)" by auto
      have "walk_ok env pol baseline pool st e st' (ds1 @ ds)"
        by (rule walk_ok_Cons [OF ds(1)]) (use w1 again(1) set_remove_at [of idx pool] in \<open>auto simp: walk_ok_def\<close>)
      moreover have "mset (map tg_Name (remove_at idx pool)) + {#tg_Name ?t#} = mset (map tg_Name pool)"
        using arg_cong [OF mset_remove_at [OF idx], of "image_mset tg_Name"] by simp
      then have "mset (map dp_target (ds1 @ ds)) \<subseteq># mset (map tg_Name pool)"
        using subset_mset.add_mono [OF m1 ds(2)] by (simp add: add.commute)
      ultimately show ?thesis using ds(3-5) n1 again(1) by (intro exI [of _ "ds1 @ ds"]) auto
    qed
  qed
qed

section \<open>Weighted selection\<close>

lemma weight_sum_append: "weight_sum (xs @ ys) = weight_sum xs + weight_sum ys"
  by (induction xs) simp_all

lemma weight_sum_nonneg: "0 \<le> weight_sum ts"
  by (induction ts) (auto simp: effectiveWeight_def)

lemma select_slot_iff:
  "\<lbrakk>j \<le> length ts; c \<le> roll; roll < c + weight_sum (t # ts)\<rbrakk> \<Longrightarrow>
   select_slot c roll k (t # ts) = k + j \<longleftrightarrow>
   c + weight_sum (take j (t # ts)) \<le> roll \<and> roll < c + weight_sum (take (Suc j) (t # ts))"
proof (induction ts arbitrary: c k j t)
  case Nil
  then show ?case by simp
next
  case (Cons u ts)
  let ?w = "effectiveWeight (tg_Weight t)"
  show ?case
  proof (cases "roll < c + ?w")
    case True
    then have "select_slot c roll k (t # u # ts) = k" by (simp add: Let_def)
    then show ?thesis
      using True Cons.prems weight_sum_nonneg [of "take (j - 1) (u # ts)"] by (cases j) auto
  next
    case False
    then have s: "select_slot c roll k (t # u # ts) = select_slot (c + ?w) roll (k + 1) (u # ts)"
      by (simp add: Let_def)
    have ge: "k + 1 \<le> select_slot (c + ?w) roll (k + 1) (u # ts)" using select_slot_bounds by blast
    show ?thesis
    proof (cases j)
      case 0
      then show ?thesis using s ge False by simp
    next
      case (Suc i)
      then show ?thesis using Cons.IH [of i "c + ?w" u "k + 1"] Cons.prems False s by (simp add: add.assoc)
    qed
  qed
qed

lemma weightedSelect_interval:
  assumes "i < length pool"
  shows "{roll. 0 \<le> roll \<and> roll < weight_sum pool \<and> weightedSelect (\<lambda>_. roll) pool = Some i} =
    {weight_sum (take i pool) ..< weight_sum (take (Suc i) pool)}"
proof -
  obtain t ts where p: "pool = t # ts" using assms by (cases pool) auto
  have pos: "0 < weight_sum pool" using weight_sum_nonneg [of ts] by (simp add: p effectiveWeight_def)
  have le: "weight_sum (take (Suc i) pool) \<le> weight_sum pool" "0 \<le> weight_sum (take i pool)"
    using weight_sum_append [of "take (Suc i) pool" "drop (Suc i) pool"] weight_sum_nonneg by simp_all
  show ?thesis
    using select_slot_iff [of i ts 0 _ t 0] assms pos le
    by (fastforce simp: weightedSelect_def randomIntN_def p)
qed

section \<open>Retry delay\<close>

lemma i64_ms: "0 \<le> x \<Longrightarrow> x \<le> 9223372036854 \<Longrightarrow> i64 (x * ms_ns) = x * ms_ns"
  by (rule i64_id) (simp_all add: ms_ns_def)

definition delay_curve :: "retry_config \<Rightarrow> nat \<Rightarrow> int" where
  "delay_curve r completed =
     (let base = rt_DelayMilliseconds r * ms_ns;
          curve = (case rt_BackoffType r of
                     BackoffLinear \<Rightarrow> base * int completed
                   | BackoffExponential \<Rightarrow> min max_i64 (base * 2 ^ min (completed - 1) 30)
                   | _ \<Rightarrow> base)
      in if 0 < rt_MaxDelayMs r then min curve (rt_MaxDelayMs r * ms_ns) else curve)"

lemma exponential_arm:
  assumes "0 \<le> base" and "base \<le> max_i64"
  shows "(if max_i64 div 2 ^ s < base then max_i64 else i64 (base * 2 ^ s)) = min max_i64 (base * 2 ^ s)"
proof (cases "max_i64 div 2 ^ s < base")
  case True
  have "max_i64 < base * 2 ^ s"
  proof (rule ccontr)
    assume "\<not> max_i64 < base * 2 ^ s"
    then have "base * 2 ^ s div 2 ^ s \<le> max_i64 div 2 ^ s" by (intro zdiv_mono1) simp_all
    with True show False by simp
  qed
  then show ?thesis using True by simp
next
  case False
  then have "base * 2 ^ s \<le> max_i64 div 2 ^ s * 2 ^ s" by (simp add: mult_right_mono)
  also have "\<dots> = max_i64 - max_i64 mod 2 ^ s" by (simp add: minus_mod_eq_div_mult)
  also have "\<dots> \<le> max_i64" by simp
  finally have le: "base * 2 ^ s \<le> max_i64" .
  have "0 \<le> base * 2 ^ s" using assms by simp
  then have "i64 (base * 2 ^ s) = base * 2 ^ s"
    using le by (intro i64_id) (simp_all add: max_i64_def)
  then show ?thesis using False le by simp
qed

lemma le_times_pos: "0 < x \<Longrightarrow> 0 < k \<Longrightarrow> x * int k \<le> n \<Longrightarrow> x \<le> n"
proof -
  assume "0 < x" "0 < k" "x * int k \<le> n"
  moreover from this have "x * 1 \<le> x * int k" by (intro mult_left_mono) simp_all
  ultimately show "x \<le> n" by linarith
qed

lemma delay_curve_bounds:
  assumes "0 < rt_DelayMilliseconds r" and "0 < k" and "rt_DelayMilliseconds r * int k \<le> 9223372036854"
  shows "0 \<le> delay_curve r k" "delay_curve r k \<le> max_i64"
proof -
  let ?b = "rt_DelayMilliseconds r * ms_ns"
  have "rt_DelayMilliseconds r \<le> 9223372036854" using assms by (rule le_times_pos)
  then have b: "?b \<le> max_i64" "0 \<le> ?b" using assms by (simp_all add: ms_ns_def max_i64_def)
  have lin: "?b * int k \<le> max_i64" using assms by (simp add: ms_ns_def max_i64_def mult.assoc mult.commute)
  have "0 \<le> ?b * 2 ^ s" "0 \<le> ?b * int k" for s using b(2) by simp_all
  then show "0 \<le> delay_curve r k" "delay_curve r k \<le> max_i64"
    using b lin by (auto simp: delay_curve_def Let_def max_i64_def ms_ns_def split: backoff_type.splits)
qed

lemma retryDelay_curve:
  assumes "rt_Enabled r" and "0 < rt_DelayMilliseconds r" and "0 < k"
    and "rt_DelayMilliseconds r * int k \<le> 9223372036854" and "rt_MaxDelayMs r \<le> 9223372036854"
  shows "retryDelay rnd (Some r) k =
    (if rt_UseJitter r
     then i64 (delay_curve r k div 2 + randomIntN rnd (delay_curve r k div 2 + 1)) else delay_curve r k)"
proof -
  let ?d = "rt_DelayMilliseconds r"
  have d1: "?d \<le> 9223372036854" using assms(2-4) by (rule le_times_pos)
  then have base: "i64 (?d * ms_ns) = ?d * ms_ns" using assms by (intro i64_ms) simp_all
  have b: "0 \<le> ?d * ms_ns" "?d * ms_ns \<le> max_i64" using d1 assms by (simp_all add: ms_ns_def max_i64_def)
  have lin: "i64 (?d * ms_ns * int k) = ?d * ms_ns * int k"
    using i64_ms [of "?d * int k"] assms by (simp add: mult.commute mult.left_commute)
  have mx: "0 < rt_MaxDelayMs r \<Longrightarrow> i64 (rt_MaxDelayMs r * ms_ns) = rt_MaxDelayMs r * ms_ns"
    using assms by (intro i64_ms) simp_all
  note bounds = delay_curve_bounds [OF assms(2-4)]
  have half: "i64 (delay_curve r k div 2 + 1) = delay_curve r k div 2 + 1"
    using bounds by (intro i64_id) (simp_all add: max_i64_def)
  have "(let base = i64 (?d * ms_ns);
          d1 = (case rt_BackoffType r of
                  BackoffLinear \<Rightarrow> i64 (base * int k)
                | BackoffExponential \<Rightarrow> (let shift = min (k - 1) 30
                    in if max_i64 div 2 ^ shift < base then max_i64 else i64 (base * 2 ^ shift))
                | _ \<Rightarrow> base)
        in if 0 < rt_MaxDelayMs r then min d1 (i64 (rt_MaxDelayMs r * ms_ns)) else d1) = delay_curve r k"
    unfolding Let_def base lin exponential_arm [OF b] delay_curve_def using mx
    by (simp split: backoff_type.split)
  then show ?thesis
    using assms(1-3) bounds(1) half go_quot_nonneg [of "delay_curve r k" 2]
    by (simp add: retryDelay_def Let_def)
qed

section \<open>Healthy targets\<close>

definition serves :: "orch_env \<Rightarrow> resilience_config \<Rightarrow> resilience_target \<Rightarrow> bool" where
  "serves env pol t \<longleftrightarrow>
     (\<forall>n d. dp_target d = tg_Name t \<longrightarrow>
        (\<exists>s. first_status (aw_events (en_attempt env n d)) = Some s \<and>
             s \<notin> set (effectiveFailureStatusCodes pol t)))"

definition iface_of :: "'s allow_op \<Rightarrow> 's record_op \<Rightarrow> 's record_op \<Rightarrow> 's breaker_iface" where
  "iface_of al su fa = \<lparr>bi_Allow = al, bi_RecordSuccess = su, bi_RecordFailure = fa\<rparr>"

definition memory_iface :: "breaker_store breaker_iface" where
  "memory_iface = iface_of store_Allow store_RecordSuccess store_RecordFailure"

definition noop_iface :: "unit breaker_iface" where
  "noop_iface = iface_of noop_Allow noop_Record noop_Record"

lemma no_budget [simp]: "\<not> retryBudgetExhausted None n" "\<not> backoffBeforeAttempt env None n"
  by (simp_all add: retryBudgetExhausted_def backoffBeforeAttempt_def retryDelay_def)

definition builds :: "orch_env \<Rightarrow> mutable_state \<Rightarrow> typed_body \<Rightarrow> resilience_target \<Rightarrow> bool" where
  "builds env baseline typed t \<longleftrightarrow> isl (fst (buildAttemptState (en_lib env) baseline t typed)) = False"

lemma dispatch_attempt_run:
  assumes "dispatch_attempt env pol t clone n st = (buf, panicked, st2)"
  obtains d b1 where "dp_target d = tg_Name t" "os_dispatched st2 = os_dispatched st @ [d]"
    "buffer_run (aw_events (en_attempt env n d))
       (NewBufferingResponseWriter (effectiveFailureStatusCodes pol t), os_client st) = (b1, os_client st2)"
    "panicked = aw_panics (en_attempt env n d)" "bw_committed buf = bw_committed b1"
    "bw_statusCode buf = bw_statusCode b1"
proof -
  let ?d = "\<lparr>dp_target = tg_Name t, dp_state = clone, dp_typed = os_typed st,
      dp_body = (case en_rawBody env of Some raw \<Rightarrow> raw | None \<Rightarrow> os_body st),
      dp_timeout = effectiveAttemptTimeout pol t, dp_headerTimeout = withPolicyResponseHeaderTimeout pol\<rparr>"
  obtain b1 c where "buffer_run (aw_events (en_attempt env n ?d))
      (NewBufferingResponseWriter (effectiveFailureStatusCodes pol t), os_client st) = (b1, c)" by fastforce
  then show thesis using assms by (intro that [of ?d b1]) (auto simp: dispatch_attempt_def Let_def)
qed

lemma attempt_target_serves:
  assumes "attempt_target env bi pol baseline t n st = (r, st')"
    and "builds env baseline (os_typed st) t" and "\<forall>n d. \<not> aw_panics (en_attempt env n d)"
  shows "(r = None \<or> (\<exists>s. r = Some (WalkCommitted s))) \<and> (serves env pol t \<longrightarrow> r \<noteq> None)"
proof -
  obtain clone b where bs: "buildAttemptState (en_lib env) baseline t (os_typed st) = (Inr clone, b)"
    using assms(2) by (cases "buildAttemptState (en_lib env) baseline t (os_typed st)"; cases "fst (buildAttemptState (en_lib env) baseline t (os_typed st))")
      (auto simp: builds_def)
  obtain buf panicked st2 where
    d: "dispatch_attempt env pol t clone n (st\<lparr>os_typed := b\<rparr>) = (buf, panicked, st2)"
    by (metis prod.exhaust)
  from dispatch_attempt_run [OF d] obtain dd b1 where ev: "dp_target dd = tg_Name t"
    and r: "buffer_run (aw_events (en_attempt env n dd))
      (NewBufferingResponseWriter (effectiveFailureStatusCodes pol t), os_client st) = (b1, os_client st2)"
    and p: "panicked = aw_panics (en_attempt env n dd)" and bc: "bw_committed buf = bw_committed b1"
    by (metis (no_types, lifting) orch_state.ext_inject orch_state.surjective orch_state.update_convs(3))
  have "serves env pol t \<Longrightarrow> bw_committed b1" using buffer_run_new(2) [OF r] ev by (auto simp: serves_def)
  then have "serves env pol t \<Longrightarrow> \<not> ShouldRetry buf" using bc by (simp add: ShouldRetry_def)
  then show ?thesis
    using assms(1,3) bs d p by (auto simp: attempt_target_def settle_attempt_def Let_def split: prod.splits)
qed

lemma builds_other_body:
  "(b = OtherBody) = (b' = OtherBody) \<Longrightarrow> builds env baseline b t = builds env baseline b' t"
  using buildAttemptState_other_body(1) [of b b'] by (simp add: builds_def)

context breaker_store_laws
begin

lemma state_frame:
  assumes "k' \<noteq> k"
  shows "state (snd (allow clk k' cfg s)) k = state s k" "state (success clk k' cfg s) k = state s k"
    "state (failure clk k' cfg s) k = state s k"
  using assms by (auto intro!: state_local allow_frame success_frame failure_frame)

lemma ask_closed:
  assumes "ask_breaker env (iface_of allow success failure) pol t st = (ok, st1)"
    and "state (os_store st) k = StateClosed"
  shows "state (os_store st1) k = StateClosed \<and> (breaker_key_of pol t = k \<longrightarrow> ok)"
proof -
  let ?k = "breaker_key_of pol t"
  obtain s where s: "allow (en_clock env (os_calls st)) ?k (effectiveCircuitBreaker pol t) (os_store st) = (ok, s)"
    "os_store st1 = s"
    using assms(1) by (auto simp: ask_breaker_def iface_of_def split: prod.splits)
  show ?thesis
  proof (cases "?k = k")
    case True
    then show ?thesis using allow_closed [OF assms(2)] s by (metis fst_conv snd_conv)
  next
    case False
    then show ?thesis using state_frame(1) [OF False] s assms(2) by (metis snd_conv)
  qed
qed

lemma attempt_closed:
  assumes "attempt_target env (iface_of allow success failure) pol baseline t n st = (r, st')"
    and "state (os_store st) k = StateClosed" and "breaker_key_of pol t \<noteq> k"
  shows "state (os_store st') k = StateClosed"
proof -
  have "state (os_store st2) k = StateClosed" if "dispatch_attempt env pol t clone n (st\<lparr>os_typed := b\<rparr>) = (buf, p, st2)"
    for clone b buf p st2
    using dispatch_attempt_spec(4) [OF that] assms(2) by simp
  then show ?thesis
    using assms(1,2)
    by (auto simp: attempt_target_def settle_attempt_def iface_of_def Let_def state_frame [OF assms(3)]
        split: prod.splits sum.splits if_splits)
qed

lemma failover_reaches_healthy:
  assumes "rc_Retry pol = None" and "\<forall>n d. \<not> aw_panics (en_attempt env n d)"
    and "serves env pol g"
  shows "\<lbrakk>distinct (map tg_Name ts); g \<in> set ts; \<forall>t \<in> set ts. builds env baseline (os_typed st) t;
      state (os_store st) (breaker_key_of pol g) = StateClosed;
      failover_walk env (iface_of allow success failure) pol baseline ts st = (e, st')\<rbrakk> \<Longrightarrow>
    \<exists>s. e = WalkCommitted s"
proof (induction ts arbitrary: st)
  case (Cons t ts)
  obtain ok st1 where a: "ask_breaker env (iface_of allow success failure) pol t st = (ok, st1)" by fastforce
  note k = ask_breaker_keeps [OF a] and c = ask_closed [OF a Cons.prems(4)]
  let ?blocked = "add_record (tg_Name t) 0 ''cb_blocked'' [] st1"
  obtain r st2 where at: "attempt_target env (iface_of allow success failure) pol baseline t (os_attempts st1 + 1) st1 = (r, st2)"
    by fastforce
  have b1: "builds env baseline (os_typed st1) t" using Cons.prems(3) k(4) by simp
  from attempt_target_ok [OF at] have ty: "(os_typed st2 = OtherBody) = (os_typed st = OtherBody)"
    by (auto simp: walk_ok_def k(4))
  have rs: "failover_walk env (iface_of allow success failure) pol baseline (t # ts) st =
      (if ok then (case r of Some e \<Rightarrow> (e, st2)
         | None \<Rightarrow> failover_walk env (iface_of allow success failure) pol baseline ts st2)
       else failover_walk env (iface_of allow success failure) pol baseline ts ?blocked)"
    using a at by (simp add: assms(1) split: option.split)
  note ends = attempt_target_serves [OF at b1 assms(2)]
  show ?case
  proof (cases "t = g")
    case True
    then show ?thesis using Cons.prems(5) rs c ends assms(3) by auto
  next
    case False
    then have g: "g \<in> set ts" and ne: "breaker_key_of pol t \<noteq> breaker_key_of pol g"
      using Cons.prems(1,2) by (auto simp: breaker_key_of_def)
    have IH: "\<exists>s. e = WalkCommitted s"
      if "failover_walk env (iface_of allow success failure) pol baseline ts st0 = (e, st')"
        "(os_typed st0 = OtherBody) = (os_typed st = OtherBody)"
        "state (os_store st0) (breaker_key_of pol g) = StateClosed" for st0
      using Cons.IH [OF _ g _ that(3,1)] Cons.prems(1,3) builds_other_body [OF that(2)] by simp
    have "state (os_store st2) (breaker_key_of pol g) = StateClosed"
      using attempt_closed [OF at _ ne] c by blast
    then show ?thesis
      using Cons.prems(5) rs c ends ty k(4) IH [of st2] IH [of ?blocked]
      by (auto split: if_splits option.splits)
  qed
qed simp

end

section \<open>Runs\<close>

lemma subseq_mset: "subseq xs ys \<Longrightarrow> mset xs \<subseteq># mset ys"
  by (induction rule: list_emb.induct) (auto intro: subset_mset.order_trans)

lemma start_state_fields [simp]:
  "os_dispatched (start_state s typed body c) = []" "os_attempts (start_state s typed body c) = 0"
  "os_typed (start_state s typed body c) = typed" "os_client (start_state s typed body c) = c"
  "os_store (start_state s typed body c) = s" "os_lastStatus (start_state s typed body c) = 0"
  by (simp_all add: start_state_def)

lemma finish_walk_keeps [simp]:
  "os_dispatched (or_state (finish_walk f (e, st))) = os_dispatched st"
  "os_attempts (or_state (finish_walk f (e, st))) = os_attempts st"
  "os_store (or_state (finish_walk f (e, st))) = os_store st"
  "os_lastStatus (or_state (finish_walk f (e, st))) = os_lastStatus st"
  "or_end (finish_walk f (e, st)) = e"
  by (cases e; simp add: finish_walk_def Let_def)+

lemma sorted_targets [simp]:
  "set (sortedFailoverTargets ts) = set ts" "mset (sortedFailoverTargets ts) = mset ts"
  by (simp_all add: sortedFailoverTargets_def)

lemma runFailover_spec:
  obtains e st ds where
    "runFailover env bi pol baseline (start_state s typed body c) = finish_walk (\<lambda>st. os_attempts st = 0) (e, st)"
    "walk_ok env pol baseline (rc_Targets pol) (start_state s typed body c) e st ds"
    "subseq (map dp_target ds) (map tg_Name (sortedFailoverTargets (rc_Targets pol)))"
    "os_attempts st = length ds" "os_dispatched st = ds"
proof -
  obtain e st where w: "failover_walk env bi pol baseline (sortedFailoverTargets (rc_Targets pol))
      (start_state s typed body c) = (e, st)" by fastforce
  from failover_walk_ok [OF w] obtain ds where
    ds: "walk_ok env pol baseline (sortedFailoverTargets (rc_Targets pol)) (start_state s typed body c) e st ds"
    "subseq (map dp_target ds) (map tg_Name (sortedFailoverTargets (rc_Targets pol)))"
    "os_attempts st = length ds" by auto
  then show thesis
    using that [OF _ walk_ok_mono [OF ds(1)]] by (simp add: runFailover_def w walk_ok_def)
qed

lemma runLoadBalance_spec:
  obtains e st ds n blocked where
    "runLoadBalance env bi pol baseline (start_state s typed body c) =
       finish_walk (\<lambda>st. n = 0 \<and> 0 < blocked) (e, st)"
    "walk_ok env pol baseline (rc_Targets pol) (start_state s typed body c) e st ds"
    "mset (map dp_target ds) \<subseteq># mset (map tg_Name (rc_Targets pol))"
    "length ds \<le> n" "blocked \<le> length (rc_Targets pol)" "os_dispatched st = ds"
proof -
  obtain pool k st1 where f: "filter_pool env bi pol (rc_Targets pol) (start_state s typed body c) = (pool, k, st1)"
    by (metis prod.exhaust)
  obtain n e st2 where b: "balance_walk env bi pol baseline 0 pool st1 = (n, e, st2)" by (metis prod.exhaust)
  note k = filter_pool_keeps [OF f]
  from balance_walk_ok [OF b] obtain ds where ds: "walk_ok env pol baseline pool st1 e st2 ds"
    "mset (map dp_target ds) \<subseteq># mset (map tg_Name pool)" "length ds \<le> n" by auto
  have sub: "set pool \<subseteq> set (rc_Targets pol)" "mset pool \<subseteq># mset (rc_Targets pol)"
    using k subseq_mset [of pool "rc_Targets pol"] set_mset_mono [of "mset pool" "mset (rc_Targets pol)"]
    by simp_all
  have "walk_ok env pol baseline (rc_Targets pol) (start_state s typed body c) e st2 ([] @ ds)"
    by (rule walk_ok_Cons [OF ds(1)]) (use k sub in auto)
  moreover have "mset (map dp_target ds) \<subseteq># mset (map tg_Name (rc_Targets pol))"
    using ds(2) image_mset_subseteq_mono [OF sub(2), of tg_Name] by (simp add: subset_mset.order_trans)
  ultimately show thesis
    using that [of n k e st2 ds] ds(3) k by (simp add: runLoadBalance_def f b walk_ok_def)
qed

section \<open>Properties\<close>

text \<open>
  Failover tries targets in order and each at most once: the targets it dispatches to are a
  subsequence of the configured ones sorted by \<^verbatim>\<open>order\<close>, ties in declaration order, and the number
  of attempts it reports is the number of dispatches.
\<close>

theorem failover_in_order:
  "subseq (map dp_target (os_dispatched (or_state (runFailover env bi pol baseline (start_state s typed body c)))))
     (map tg_Name (sortedFailoverTargets (rc_Targets pol))) \<and>
   sorted (map tg_Order (sortedFailoverTargets (rc_Targets pol))) \<and>
   mset (sortedFailoverTargets (rc_Targets pol)) = mset (rc_Targets pol) \<and>
   filter (\<lambda>t. tg_Order t = k) (sortedFailoverTargets (rc_Targets pol)) =
     filter (\<lambda>t. tg_Order t = k) (rc_Targets pol) \<and>
   os_attempts (or_state (runFailover env bi pol baseline (start_state s typed body c))) =
     length (os_dispatched (or_state (runFailover env bi pol baseline (start_state s typed body c))))"
proof -
  obtain e st ds where r: "runFailover env bi pol baseline (start_state s typed body c) =
      finish_walk (\<lambda>st. os_attempts st = 0) (e, st)"
    and d: "subseq (map dp_target ds) (map tg_Name (sortedFailoverTargets (rc_Targets pol)))"
    "os_attempts st = length ds" "os_dispatched st = ds"
    by (rule runFailover_spec [of env bi pol baseline s typed body c]) blast
  show ?thesis unfolding r using d by (simp add: sortedFailoverTargets_def sort_key_stable)
qed

text \<open>
  Attempts do not stack: whatever earlier attempts of the request did, the state an attempt is
  dispatched with is the one its target's actions make of the baseline the rules left, and the body
  it is given is the captured inbound body. This holds for failover and for load balancing.
\<close>

theorem attempts_start_from_baseline:
  "list_all (\<lambda>d. list_ex (\<lambda>t. dispatch_ok env pol baseline typed t d) (rc_Targets pol))
     (os_dispatched (or_state (runFailover env bi pol baseline (start_state s typed body c)))) \<and>
   list_all (\<lambda>d. list_ex (\<lambda>t. dispatch_ok env pol baseline typed t d) (rc_Targets pol))
     (os_dispatched (or_state (runLoadBalance env bi pol baseline (start_state s typed body c))))"
proof -
  obtain e st ds where f: "runFailover env bi pol baseline (start_state s typed body c) =
      finish_walk (\<lambda>st. os_attempts st = 0) (e, st)"
    "walk_ok env pol baseline (rc_Targets pol) (start_state s typed body c) e st ds" "os_dispatched st = ds"
    by (rule runFailover_spec [of env bi pol baseline s typed body c]) blast
  obtain e' st' ds' and n k :: nat where l: "runLoadBalance env bi pol baseline (start_state s typed body c) =
      finish_walk (\<lambda>st. n = 0 \<and> 0 < k) (e', st')"
    "walk_ok env pol baseline (rc_Targets pol) (start_state s typed body c) e' st' ds'" "os_dispatched st' = ds'"
    by (rule runLoadBalance_spec [of env bi pol baseline s typed body c], rule that)
  show ?thesis unfolding f(1) l(1) using f(2,3) l(2,3) by (simp add: walk_ok_def list_all_iff list_ex_iff)
qed

text \<open>
  One JSON error response laid on the writer \<open>c\<close>, spelled out: the header, the status line and the
  body are all the client gets.
\<close>

definition error_answer :: "int \<Rightarrow> string \<Rightarrow> string \<Rightarrow> client \<Rightarrow> client \<Rightarrow> bool" where
  "error_answer status code msg c c' \<longleftrightarrow>
     cw_header c' = header_set (cw_header c) ''Content-Type'' ''application/json'' \<and>
     cw_log c' = cw_log c @ [ClientHeader status (cw_header c'),
       ClientBytes (''{\"error\":\"'' @ code @ ''\",\"message\":\"'' @ msg @ ''\"}'')]"

definition response_ok :: "orch_env \<Rightarrow> resilience_config \<Rightarrow> client \<Rightarrow> 's orch_result \<Rightarrow> bool" where
  "response_ok env pol c r \<longleftrightarrow>
     (let st = or_state r; ds = os_dispatched st
      in case or_end r of
        WalkExhausted \<Rightarrow>
          (or_finalStatus r = 503 \<and> or_outcome r = ''all_open'' \<and> ds = [] \<and>
             error_answer 503 ''all_open'' ''no healthy upstream target: every circuit breaker is open''
               c (os_client st)) \<or>
          (or_finalStatus r = (if os_lastStatus st = 0 then 502 else os_lastStatus st) \<and>
             or_outcome r = ''all_failed'' \<and>
             error_answer (or_finalStatus r) ''all_failed'' ''all upstream targets failed'' c (os_client st))
      | WalkActionFailed \<Rightarrow>
          or_finalStatus r = 500 \<and> or_outcome r = ''all_failed'' \<and>
          error_answer 500 ''target_action_failed'' ''internal error'' c (os_client st)
      | WalkCommitted s \<Rightarrow>
          or_finalStatus r = s \<and> or_outcome r = ''success'' \<and> ds \<noteq> [] \<and> s = answer_status env (last ds) st \<and>
          (\<exists>t \<in> set (rc_Targets pol). attempt_answer env pol t (last ds) c st)
      | WalkPanicked \<Rightarrow>
          or_finalStatus r = 0 \<and> ds \<noteq> [] \<and>
          (\<exists>t \<in> set (rc_Targets pol). attempt_answer env pol t (last ds) c st))"

lemma error_answer_Write: "msg \<noteq> [] \<Longrightarrow> error_answer status code msg c (httperr_Write status code msg c)"
  by (simp add: error_answer_def httperr_Write_def httperr_body_def client_log_def client_WriteHeader_def)

lemma attempt_answer_client [simp]:
  "attempt_answer env pol t d c (st\<lparr>os_store := x\<rparr>) = attempt_answer env pol t d c st"
  by (simp add: attempt_answer_def)

lemma finish_walk_response:
  assumes "walk_ok env pol baseline (rc_Targets pol) (start_state s typed body c) e st ds"
    and "e = WalkExhausted \<Longrightarrow> f st \<Longrightarrow> ds = []"
  shows "response_ok env pol c (finish_walk f (e, st))"
proof -
  have d: "os_dispatched st = ds" "os_client (start_state s typed body c) = c"
    using assms(1) by (simp_all add: walk_ok_def start_state_def)
  show ?thesis
  proof (cases e)
    case WalkExhausted
    then show ?thesis using assms d
      by (simp add: walk_ok_def finish_walk_def response_ok_def Let_def exhaustedErrorCode_def
          exhaustedErrorMessage_def error_answer_Write)
  next
    case WalkActionFailed
    then show ?thesis using assms(1) d
      by (simp add: walk_ok_def finish_walk_def response_ok_def Let_def error_answer_Write)
  next
    case (WalkCommitted x)
    then show ?thesis using assms(1) d by (simp add: walk_ok_def finish_walk_def response_ok_def Let_def)
  next
    case WalkPanicked
    then show ?thesis using assms(1) d by (simp add: walk_ok_def finish_walk_def response_ok_def Let_def)
  qed
qed

text \<open>
  The answer of the whole handler: what one unbuffered forward writes, an error response, or the
  answer of a walk over the policy it picked.
\<close>

definition handler_answer ::
  "orch_env \<Rightarrow> resilience_config \<Rightarrow> client \<Rightarrow> 's orch_state \<Rightarrow> bool" where
  "handler_answer env pol c st \<longleftrightarrow>
     (\<exists>d. os_dispatched st = [d] \<and> os_client st = fold direct_event (aw_events (en_attempt env 1 d)) c) \<or>
     os_dispatched st = [] \<and> error_answer 500 ''target_action_failed'' ''internal error'' c (os_client st) \<or>
     (\<exists>r. or_state r = st \<and> response_ok env pol c r)"


section \<open>The attempt budget\<close>

lemma failover_budget:
  "\<lbrakk>failover_walk env bi pol baseline ts st = (e, st'); rc_Retry pol = Some r; rt_Enabled r;
    0 < rt_MaxAttempts r; int (os_attempts st) \<le> rt_MaxAttempts r\<rbrakk> \<Longrightarrow>
   int (os_attempts st') \<le> rt_MaxAttempts r"
proof (induction ts arbitrary: st)
  case (Cons t ts)
  obtain ok st1 where a: "ask_breaker env bi pol t st = (ok, st1)" by fastforce
  obtain q st2 where at: "attempt_target env bi pol baseline t (os_attempts st1 + 1) st1 = (q, st2)" by fastforce
  have n: "os_attempts st1 = os_attempts st" using ask_breaker_keeps [OF a] by simp
  show ?case
  proof (cases "retryBudgetExhausted (rc_Retry pol) (os_attempts st)")
    case True
    then show ?thesis using Cons.prems by simp
  next
    case False
    then have lt: "int (os_attempts st) + 1 \<le> rt_MaxAttempts r"
      using Cons.prems by (simp add: retryBudgetExhausted_def)
    from attempt_target_ok [OF at] n lt have "int (os_attempts st2) \<le> rt_MaxAttempts r" by auto
    then show ?thesis
      using Cons.prems False a at n lt Cons.IH [OF _ Cons.prems(2-4)]
      by (auto split: if_splits option.splits)
  qed
qed simp

lemma balance_budget:
  "\<lbrakk>balance_walk env bi pol baseline n pool st = (m, e, st'); rc_Retry pol = Some r; rt_Enabled r;
    0 < rt_MaxAttempts r; int n \<le> rt_MaxAttempts r\<rbrakk> \<Longrightarrow> int m \<le> rt_MaxAttempts r"
proof (induction env bi pol baseline n pool st arbitrary: m e st' rule: balance_walk.induct)
  case (1 env bi pol baseline n pool st)
  show ?case
  proof (cases "pool = [] \<or> retryBudgetExhausted (rc_Retry pol) n \<or>
      0 < n \<and> backoffBeforeAttempt env (rc_Retry pol) n")
    case True
    then show ?thesis using "1.prems" by (subst (asm) balance_walk.simps) (auto split: if_splits)
  next
    case False
    then have lt: "int n + 1 \<le> rt_MaxAttempts r" using "1.prems" by (simp add: retryBudgetExhausted_def)
    obtain idx where i: "weightedSelect (en_roll env (n + 1)) pool = Some idx"
      using False by (simp add: weightedSelect_def)
    obtain q st2 where at: "attempt_target env bi pol baseline (pool ! idx) (n + 1) st = (q, st2)" by fastforce
    have "(m, e, st') = (n + 1, the q, st2) \<or> (m, e, st') = (n + 1, WalkExhausted, st2) \<or>
       q = None \<and> \<not> rc_StrictWeights pol \<and>
       balance_walk env bi pol baseline (n + 1) (remove_at idx pool) st2 = (m, e, st')"
      using "1.prems"(1) False i at by (subst (asm) balance_walk.simps) (cases q; auto split: if_splits)
    then show ?thesis
      using "1.IH" [OF _ _ _ i at [symmetric] _ _ _ "1.prems"(2-4)] False lt by auto
  qed
qed

text \<open>
  C10. An enabled retry block caps the work: no run of either walk dispatches more than
  \<^verbatim>\<open>max_attempts\<close> attempts, however many targets remain.
\<close>

theorem attempt_budget:
  assumes "rc_Retry pol = Some r" and "rt_Enabled r" and "0 < rt_MaxAttempts r"
  shows "int (length (os_dispatched (or_state (runFailover env bi pol baseline (start_state s typed body c)))))
      \<le> rt_MaxAttempts r \<and>
    int (length (os_dispatched (or_state (runLoadBalance env bi pol baseline (start_state s typed body c)))))
      \<le> rt_MaxAttempts r"
proof -
  obtain e st where w: "failover_walk env bi pol baseline (sortedFailoverTargets (rc_Targets pol))
      (start_state s typed body c) = (e, st)" by fastforce
  obtain pool k st1 where f: "filter_pool env bi pol (rc_Targets pol) (start_state s typed body c) = (pool, k, st1)"
    by (metis prod.exhaust)
  obtain n e' st2 where b: "balance_walk env bi pol baseline 0 pool st1 = (n, e', st2)" by (metis prod.exhaust)
  have "int (os_attempts st) \<le> rt_MaxAttempts r" "int n \<le> rt_MaxAttempts r"
    using failover_budget [OF w assms] balance_budget [OF b assms] assms(3) by simp_all
  then show ?thesis
    using failover_walk_ok [OF w] balance_walk_ok [OF b] filter_pool_keeps [OF f]
    by (auto simp: runFailover_def runLoadBalance_def w f b walk_ok_def)
qed

text \<open>
  The weighted pick is exact: of the equally likely rolls \<open>0 .. total - 1\<close>, exactly as many
  choose a target as its effective weight (its weight, at least 1), so every target of a non-empty
  pool is chosen with probability weight / total.
\<close>

theorem weighted_pick_is_exact:
  assumes "i < length pool"
  shows "int (card {roll. 0 \<le> roll \<and> roll < weight_sum pool \<and> weightedSelect (\<lambda>_. roll) pool = Some i}) =
    effectiveWeight (tg_Weight (pool ! i))"
  using assms
  by (simp add: weightedSelect_interval take_Suc_conv_app_nth weight_sum_append)
     (simp add: effectiveWeight_def)

text \<open>
  The pause before the next attempt follows the configured curve (constant, linear, or
  exponential with the doubling bounded at 2^30 and saturating at the largest duration), cut at
  \<^verbatim>\<open>max_delay_ms\<close>; with jitter it lies between half of that value and the value. The bounds on the
  millisecond fields keep every product inside a \<^verbatim>\<open>time.Duration\<close>.
\<close>

theorem retry_delay_bounds:
  assumes "rt_Enabled r" and "0 < rt_DelayMilliseconds r" and "0 < k"
    and "rt_DelayMilliseconds r * int k \<le> 9223372036854" and "rt_MaxDelayMs r \<le> 9223372036854"
    and "\<And>n. 0 < n \<Longrightarrow> 0 \<le> rnd n \<and> rnd n < n"
  shows "if rt_UseJitter r
    then delay_curve r k div 2 \<le> retryDelay rnd (Some r) k \<and> retryDelay rnd (Some r) k \<le> delay_curve r k
    else retryDelay rnd (Some r) k = delay_curve r k"
proof -
  let ?c = "delay_curve r k"
  note b = delay_curve_bounds [OF assms(2-4)]
  let ?x = "randomIntN rnd (?c div 2 + 1)"
  have x: "0 \<le> ?x" "?x \<le> ?c div 2" using b(1) assms(6) [of "?c div 2 + 1"] by (auto simp: randomIntN_def)
  then have "i64 (?c div 2 + ?x) = ?c div 2 + ?x"
    using b by (intro i64_id) (simp_all add: max_i64_def)
  moreover have "?c div 2 + ?x \<le> ?c" using x by linarith
  ultimately show ?thesis using retryDelay_curve [OF assms(1-5), of rnd] x by simp
qed

section \<open>Concrete runs\<close>

definition sample_retry :: retry_config where
  "sample_retry = \<lparr>rt_Enabled = True, rt_MaxAttempts = 1, rt_BackoffType = BackoffExponential,
     rt_DelayMilliseconds = 100, rt_MaxDelayMs = 1000, rt_UseJitter = True\<rparr>"

definition sample_arm :: "string \<Rightarrow> int \<Rightarrow> resilience_target" where
  "sample_arm name order =
     \<lparr>tg_Name = name, tg_Provider = name, tg_Order = order, tg_Weight = 1, tg_TimeoutSeconds = 0,
      tg_ModelRewrite = [], tg_Path = [], tg_Query = [], tg_FailureStatusCodes = [],
      tg_CircuitBreaker = None, tg_Actions = ProviderSwitchActions name []\<rparr>"

definition sample_policy :: "resilience_mode \<Rightarrow> resilience_config" where
  "sample_policy m =
     \<lparr>rc_Name = ''g'', rc_ID = None, rc_Mode = m, rc_TimeoutSeconds = 0,
      rc_Targets = [sample_arm ''a'' 2, sample_arm ''b'' 1], rc_CircuitBreaker = Some sample_cb,
      rc_Retry = None, rc_StrictWeights = False, rc_ResponseHeaderTimeoutSeconds = 0,
      rc_FailureStatusCodes = []\<rparr>"

text \<open>A downstream where only the target \<open>a\<close> answers 200.\<close>

definition sample_world :: orch_env where
  "sample_world =
     \<lparr>en_lib = ascii_lib, en_rawBody = Some ''{}'',
      en_attempt = (\<lambda>n d. \<lparr>aw_events = [EvWriteHeader (if dp_target d = ''a'' then 200 else 503), EvWrite ''x''],
        aw_panics = False, aw_parent_ended = False, aw_deadline_hit = False, aw_body_left = []\<rparr>),
      en_clock = (\<lambda>k. (5000000000, 5000000000)), en_sleep = (\<lambda>_ _. False), en_jitter = (\<lambda>_ n. 0),
      en_roll = (\<lambda>_ n. 0)\<rparr>"

definition sample_request :: mutable_state where
  "sample_request = NewMutableState ''a'' ''chat'' ''/v1/chat/completions'' []"

definition sample_client :: client where
  "sample_client = \<lparr>cw_header = [], cw_log = []\<rparr>"

definition sample_start :: "breaker_store \<Rightarrow> breaker_store orch_state" where
  "sample_start s = start_state s (ChatBody ''m'') ''{}'' sample_client"

lemma sample_arm_fields [simp]:
  "tg_Name (sample_arm n k) = n" "tg_TimeoutSeconds (sample_arm n k) = 0" "tg_FailureStatusCodes (sample_arm n k) = []"
  "tg_CircuitBreaker (sample_arm n k) = None" "tg_Weight (sample_arm n k) = 1"
  by (simp_all add: sample_arm_def)

lemma sample_policy_fields [simp]:
  "rc_Name (sample_policy m) = ''g''" "rc_TimeoutSeconds (sample_policy m) = 0" "rc_Retry (sample_policy m) = None"
  "rc_FailureStatusCodes (sample_policy m) = []" "rc_CircuitBreaker (sample_policy m) = Some sample_cb"
  "rc_Targets (sample_policy m) = [sample_arm ''a'' 2, sample_arm ''b'' 1]"
  by (simp_all add: sample_policy_def)

lemmas sample_orch_defs = sample_arm_def sample_policy_def sample_world_def sample_request_def
  sample_client_def sample_start_def

lemma attempt_budget_witness:
  "int (length (os_dispatched (or_state (runFailover sample_world memory_iface
     ((sample_policy ModeFailover)\<lparr>rc_Retry := Some sample_retry\<rparr>) sample_request (sample_start []))))) \<le> 1"
  using attempt_budget [of "(sample_policy ModeFailover)\<lparr>rc_Retry := Some sample_retry\<rparr>" sample_retry
      sample_world memory_iface sample_request "[]" "ChatBody ''m''" "''{}''" sample_client]
  by (simp add: sample_retry_def sample_start_def)

lemma weighted_pick_is_exact_witness:
  "int (card {roll. 0 \<le> roll \<and> roll < weight_sum (rc_Targets (sample_policy ModeLoadBalance)) \<and>
     weightedSelect (\<lambda>_. roll) (rc_Targets (sample_policy ModeLoadBalance)) = Some 1}) = 1"
  by (subst weighted_pick_is_exact) (simp_all add: sample_policy_def sample_arm_def effectiveWeight_def)

lemma retry_delay_bounds_witness:
  "200000000 \<le> retryDelay (\<lambda>_. 0) (Some sample_retry) 3 \<and>
   retryDelay (\<lambda>_. 0) (Some sample_retry) 3 \<le> 400000000"
  using retry_delay_bounds [of sample_retry 3 "\<lambda>_. 0"]
  by (simp add: sample_retry_def delay_curve_def ms_ns_def max_i64_def)

lemma apply_switch:
  "trim_space p \<noteq> [] \<Longrightarrow>
   apply_target_actions lib (ProviderSwitchActions p []) s b =
     (Inr (s\<lparr>ms_Provider := trim_space p, ms_ProviderOverridden := True\<rparr>), b)"
  by (simp add: ProviderSwitchActions_def applyChangeProvider_def keep_body_def Let_def)

lemma sample_build:
  "trim_space n = n \<Longrightarrow> n \<noteq> [] \<Longrightarrow>
   buildAttemptState lib s (sample_arm n k) b =
     (Inr (s\<lparr>ms_TargetPath := [], ms_TargetQuery := [], ms_Provider := n, ms_ProviderOverridden := True\<rparr>), b)"
  using apply_switch [of n lib "s\<lparr>ms_TargetPath := [], ms_TargetQuery := []\<rparr>" b]
  by (simp add: buildAttemptState_def effectiveTargetActions_def sample_arm_def)

text \<open>
  A healthy target is reached: with no retry block, if some target of the group answers with a
  non-retryable status whenever it is asked, its breaker is closed when the request starts, every
  target's actions apply and no dispatch panics, then failover ends with a committed response, however the
  other targets and their breakers behave.
\<close>

theorem failover_finds_healthy_target:
  assumes "rc_Retry pol = None" and "distinct (map tg_Name (rc_Targets pol))" and "g \<in> set (rc_Targets pol)"
    and "\<forall>t \<in> set (rc_Targets pol). builds env baseline typed t"
    and "\<forall>n d. \<not> aw_panics (en_attempt env n d)" and "serves env pol g"
    and "store_State s (rc_Name pol, tg_Name g) = StateClosed"
  shows "\<exists>status. or_end (runFailover env memory_iface pol baseline (start_state s typed body c)) = WalkCommitted status"
proof -
  obtain e st where w: "failover_walk env memory_iface pol baseline (sortedFailoverTargets (rc_Targets pol))
      (start_state s typed body c) = (e, st)" by fastforce
  have "distinct (map tg_Name (sortedFailoverTargets (rc_Targets pol)))"
    using assms(2) by (metis mset_eq_imp_distinct_iff mset_map sorted_targets(2))
  then have "\<exists>status. e = WalkCommitted status"
    using memory_store.failover_reaches_healthy [OF assms(1,5,6), of "sortedFailoverTargets (rc_Targets pol)"
        baseline "start_state s typed body c" e st] assms(3,4,7) w
    by (simp add: memory_iface_def breaker_key_of_def)
  then show ?thesis by (simp add: runFailover_def w)
qed

lemma failover_finds_healthy_target_witness:
  "\<exists>status. or_end (runFailover sample_world memory_iface (sample_policy ModeFailover) sample_request
     (start_state [] NilBody [] sample_client)) = WalkCommitted status"
proof (rule failover_finds_healthy_target [where g = "sample_arm ''a'' 2"])
  show "\<forall>t \<in> set (rc_Targets (sample_policy ModeFailover)). builds sample_world sample_request NilBody t"
    by (simp add: sample_policy_def builds_def sample_build go_defs)
  show "serves sample_world (sample_policy ModeFailover) (sample_arm ''a'' 2)"
    by (simp add: serves_def sample_orch_defs effectiveFailureStatusCodes_def defaultFailureStatusCodes_def)
qed (simp_all add: sample_orch_defs store_State_def)

text \<open>
  A rule's provider wins: when a rule has changed the provider, the policy chosen by the binding
  is not run at all. Whatever its mode, targets and breakers, there is exactly one dispatch, with
  the rule's state (only the policy handle is rewritten, to \<^verbatim>\<open>rule:<provider>\<close>), with no attempt timeout
  of the group, and no breaker is asked or told.
\<close>

theorem rule_override_bypasses_policy:
  assumes "ms_ProviderOverridden s" and "ms_Provider s \<noteq> []" and "rc_Targets pol \<noteq> []"
  shows "(let r = HTTPHandler env bi (Some pol) lookup s (start_state store typed body c) in
    map dp_state (os_dispatched r) = [s\<lparr>ms_PolicyRef := ''rule:'' @ ms_Provider s\<rparr>] \<and>
    map dp_target (os_dispatched r) = [ms_Provider s] \<and> map dp_timeout (os_dispatched r) = [0] \<and>
    os_store r = store \<and> os_calls r = 0)"
  using assms
  by (simp add: HTTPHandler_def resolve_policy_def applyRuleOverride_def RuleOverrideResilienceConfig_def
      empty_policy_def runSingleTarget_def effectiveTargetActions_def forward_direct_def Let_def
      effectiveAttemptTimeout_def start_state_def)

lemma rule_override_bypasses_policy_witness:
  "map dp_target (os_dispatched (HTTPHandler sample_world memory_iface (Some (sample_policy ModeFailover)) None
     (sample_request\<lparr>ms_ProviderOverridden := True\<rparr>) (start_state [] NilBody [] sample_client))) = [''a'']"
  using rule_override_bypasses_policy [of "sample_request\<lparr>ms_ProviderOverridden := True\<rparr>"
      "sample_policy ModeFailover" sample_world memory_iface None "[]" NilBody "[]" sample_client]
  by (simp add: Let_def sample_request_def NewMutableState_def sample_policy_def)


definition sample_half :: breaker where
  "sample_half = \<lparr>br_state = StateHalfOpen, br_buckets = [empty_bucket, empty_bucket],
     br_bucketIdx = 0, br_lastRotate = 5000000000, br_openedAt = 0, br_halfOpenSuccesses = 0,
     br_halfOpenInFlight = 1\<rparr>"

lemma sample_allow_new:
  "map_of s k = None \<Longrightarrow> store_Allow (5000000000, 5000000000) k (Some sample_cb) s =
     (True, AList.update k (new_breaker sample_cb 5000000000) s)"
  by (simp add: store_Allow_def cb_disabled_def getOrCreate_def breaker_allow_closed roll_idle sample_new go_quot_def)

lemma sample_allow_open:
  "map_of s k = Some sample_open \<Longrightarrow> store_Allow (5000000000, 5000000000) k (Some sample_cb) s =
     (True, AList.update k sample_half s)"
  by (simp add: store_Allow_def cb_disabled_def getOrCreate_def resize_ring_def breaker_allow_open sample_open_def
      sample_half_def second_ns_def roll_window_def go_quot_def)

lemma sample_success_new:
  "map_of s k = Some (new_breaker sample_cb 5000000000) \<Longrightarrow>
   \<exists>b. store_RecordSuccess (5000000000, 5000000000) k (Some sample_cb) s = AList.update k b s"
  by (auto simp: store_RecordSuccess_def cb_disabled_def)

text \<open>
  Load balancing leaks half-open probes. The pre-filter asks every target's breaker and thereby
  reserves a probe of a recovering target; if the draw picks another target and that one commits,
  the probe is never reported. Here \<open>b\<close>'s cooldown is over, the roll picks \<open>a\<close>, the request
  succeeds, and \<open>b\<close>, never dispatched to, is left half-open with its only probe taken.
\<close>

theorem load_balance_leaks_probe:
  "(let r = runLoadBalance sample_world memory_iface (sample_policy ModeLoadBalance) sample_request
        (start_state [((''g'', ''b''), sample_open)] NilBody [] sample_client) in
    or_end r = WalkCommitted 200 \<and> map dp_target (os_dispatched (or_state r)) = [''a''] \<and>
    map_option br_state (map_of (os_store (or_state r)) (''g'', ''b'')) = Some StateHalfOpen \<and>
    map_option br_halfOpenInFlight (map_of (os_store (or_state r)) (''g'', ''b'')) = Some (halfOpenThreshold sample_cb))"
proof -
  let ?pol = "sample_policy ModeLoadBalance" and ?a = "sample_arm ''a'' 2" and ?b = "sample_arm ''b'' 1"
  let ?s2 = "[((''g'', ''b''), sample_half), ((''g'', ''a''), new_breaker sample_cb 5000000000)]"
  let ?st2 = "(start_state ?s2 NilBody [] sample_client)\<lparr>os_calls := 2\<rparr>"
  have f: "filter_pool sample_world memory_iface ?pol (rc_Targets ?pol)
      (start_state [((''g'', ''b''), sample_open)] NilBody [] sample_client) = ([?a, ?b], 0, ?st2)"
    by (simp add: sample_policy_def sample_arm_def ask_breaker_def memory_iface_def iface_of_def sample_world_def
        breaker_key_of_def effectiveCircuitBreaker_def start_state_def sample_allow_new sample_allow_open)
  obtain st3 where t: "attempt_target sample_world memory_iface ?pol sample_request ?a 1 ?st2 =
      (Some (WalkCommitted 200), st3)"
    "map dp_target (os_dispatched st3) = [''a'']" "map_of (os_store st3) (''g'', ''b'') = Some sample_half"
  proof -
    have a: "buildAttemptState ascii_lib sample_request ?a NilBody = (Inr (sample_request\<lparr>ms_TargetPath := [],
        ms_TargetQuery := [], ms_Provider := ''a'', ms_ProviderOverridden := True\<rparr>), NilBody)"
      by (rule sample_build) (simp_all add: go_defs)
    obtain b where s: "store_RecordSuccess (5000000000, 5000000000) (''g'', ''a'') (Some sample_cb) ?s2 =
        AList.update (''g'', ''a'') b ?s2"
      using sample_success_new [of ?s2 "(''g'', ''a'')"] by auto
    show ?thesis
      by (rule that [of "snd (attempt_target sample_world memory_iface ?pol sample_request ?a 1 ?st2)"])
       (simp_all add: attempt_target_def settle_attempt_def dispatch_attempt_def start_state_def a Let_def
          sample_world_def buffer_run_def bw_defs NewBufferingResponseWriter_def ShouldRetry_def sample_client_def
          effectiveAttemptTimeout_def effectiveFailureStatusCodes_def defaultFailureStatusCodes_def add_record_def
          markAttemptTimeout_def memory_iface_def iface_of_def breaker_key_of_def effectiveCircuitBreaker_def
          s [simplified])
  qed
  have w: "weightedSelect (en_roll sample_world 1) [?a, ?b] = Some 0"
    by (simp add: weightedSelect_def randomIntN_def sample_world_def effectiveWeight_def sample_arm_def)
  have "balance_walk sample_world memory_iface ?pol sample_request 0 [?a, ?b] ?st2 = (1, WalkCommitted 200, st3)"
    by (subst balance_walk.simps) (use w t(1) in \<open>simp add: sample_policy_def\<close>)
  then have "runLoadBalance sample_world memory_iface ?pol sample_request
      (start_state [((''g'', ''b''), sample_open)] NilBody [] sample_client) =
      finish_walk (\<lambda>st. (1::nat) = 0 \<and> (0::nat) < 0) (WalkCommitted 200, st3)"
    unfolding runLoadBalance_def f prod.case by (simp only: prod.case)
  then show ?thesis using t by (simp add: Let_def) (simp add: sample_half_def)
qed

end
