(* ===== verification/Auth_Resolver.thy ===== *)
theory Auth_Resolver
  imports Config_Schema
begin

text \<open>
  Who is calling: \<^verbatim>\<open>internal/middleware/auth\<close>. \<open>Resolve\<close> reads the inbound headers and two indexes of
  the configuration snapshot and returns the decision together with an error or none, as the Go
  method does; \<open>classifyResult\<close> and \<open>auth_status\<close> are the audit tag and the HTTP status of that
  outcome. A snapshot index is a partial function; a nil entry and a missing one are the same.
\<close>

record api_key =
  ak_ID :: "string option"
  ak_Secret :: string
  ak_Name :: string
  ak_Configuration :: string
  ak_Enabled :: bool

record auth_snapshot =
  as_SecretIndex :: "string \<rightharpoonup> api_key"
  as_ConfigurationIndex :: "string \<rightharpoonup> configuration"

datatype auth_mode = ModeUnset | ModeManaged | ModePassthrough

datatype auth_error = ErrUnauthorized | ErrUnknownConfiguration

record auth_result =
  ar_Mode :: auth_mode
  ar_APIKey :: "api_key option"
  ar_Configuration :: "configuration option"
  ar_ConfigurationName :: string
  ar_DropHeaders :: "string list"
  ar_LegacyConfigurationHeader :: bool

definition no_auth :: auth_result where
  "no_auth = \<lparr>ar_Mode = ModeUnset, ar_APIKey = None, ar_Configuration = None,
     ar_ConfigurationName = [], ar_DropHeaders = [], ar_LegacyConfigurationHeader = False\<rparr>"

abbreviation HeaderIdentity :: string where
  "HeaderIdentity \<equiv> ''X-Slipspace-Identity''"

abbreviation HeaderConfiguration :: string where
  "HeaderConfiguration \<equiv> ''X-Slipspace-Configuration''"

abbreviation HeaderAuthorization :: string where
  "HeaderAuthorization \<equiv> ''Authorization''"

abbreviation LegacyHeaderIdentity :: string where
  "LegacyHeaderIdentity \<equiv> ''X-Sluice-Identity''"

abbreviation LegacyHeaderConfiguration :: string where
  "LegacyHeaderConfiguration \<equiv> ''X-Sluice-Configuration''"

abbreviation headerAnthropicAPIKey :: string where
  "headerAnthropicAPIKey \<equiv> ''x-api-key''"

abbreviation headerGeminiAPIKey :: string where
  "headerGeminiAPIKey \<equiv> ''x-goog-api-key''"

abbreviation bearerPrefix :: string where
  "bearerPrefix \<equiv> ''Bearer ''"

fun firstHeader :: "headers \<Rightarrow> string list \<Rightarrow> string" where
  "firstHeader h [] = []"
| "firstHeader h (n # ns) =
     (let v = trim_space (header_get h n) in if v \<noteq> [] then v else firstHeader h ns)"

declare firstHeader.simps [simp del]

definition passthroughDropHeaders :: "string list" where
  "passthroughDropHeaders =
     [HeaderIdentity, HeaderConfiguration, LegacyHeaderIdentity, LegacyHeaderConfiguration]"

definition resolveIdentityPassthrough ::
  "auth_snapshot \<Rightarrow> string \<Rightarrow> bool \<Rightarrow> auth_result \<times> auth_error option" where
  "resolveIdentityPassthrough snap token legacyAlsoPresent =
     (let base = no_auth\<lparr>ar_Mode := ModePassthrough, ar_DropHeaders := passthroughDropHeaders\<rparr>
      in case as_SecretIndex snap token of
           None \<Rightarrow> (base, Some ErrUnauthorized)
         | Some key \<Rightarrow>
             if \<not> ak_Enabled key then (base\<lparr>ar_APIKey := Some key\<rparr>, Some ErrUnauthorized)
             else (case as_ConfigurationIndex snap (ak_Configuration key) of
                     None \<Rightarrow>
                       (base\<lparr>ar_APIKey := Some key, ar_ConfigurationName := ak_Configuration key\<rparr>,
                        Some ErrUnknownConfiguration)
                   | Some cfg \<Rightarrow>
                       (base\<lparr>ar_APIKey := Some key, ar_Configuration := Some cfg,
                             ar_ConfigurationName := ak_Configuration key,
                             ar_LegacyConfigurationHeader := legacyAlsoPresent\<rparr>, None)))"

definition resolveLegacyPassthrough ::
  "auth_snapshot \<Rightarrow> string \<Rightarrow> auth_result \<times> auth_error option" where
  "resolveLegacyPassthrough snap configName =
     (case as_ConfigurationIndex snap configName of
        None \<Rightarrow> (no_auth\<lparr>ar_LegacyConfigurationHeader := True\<rparr>, Some ErrUnknownConfiguration)
      | Some cfg \<Rightarrow>
          (no_auth\<lparr>ar_Mode := ModePassthrough, ar_Configuration := Some cfg,
                   ar_ConfigurationName := configName, ar_DropHeaders := passthroughDropHeaders,
                   ar_LegacyConfigurationHeader := True\<rparr>, None))"

text \<open>
  The match of the scheme name is \<^verbatim>\<open>EqualFold\<close>; no letter of \<^verbatim>\<open>Bearer\<close> folds outside ASCII.
\<close>

definition extractBearer :: "string \<Rightarrow> string option" where
  "extractBearer v =
     (if length v < length bearerPrefix then None
      else if \<not> equal_fold_ascii (take (length bearerPrefix) v) bearerPrefix then None
      else (let token = trim_space (drop (length bearerPrefix) v)
            in if token = [] then None else Some token))"

record managed_key_source =
  mk_header :: string
  mk_token :: string

definition discoverManagedKey :: "headers \<Rightarrow> managed_key_source option" where
  "discoverManagedKey h =
     (let v = header_get h HeaderAuthorization;
          native = (let a = trim_space (header_get h headerAnthropicAPIKey);
                        g = trim_space (header_get h headerGeminiAPIKey)
                    in if a \<noteq> [] then Some \<lparr>mk_header = headerAnthropicAPIKey, mk_token = a\<rparr>
                       else if g \<noteq> [] then Some \<lparr>mk_header = headerGeminiAPIKey, mk_token = g\<rparr>
                       else None)
      in if v \<noteq> []
         then (case extractBearer v of
                 Some token \<Rightarrow> Some \<lparr>mk_header = HeaderAuthorization, mk_token = token\<rparr>
               | None \<Rightarrow> native)
         else native)"

definition resolveManaged :: "auth_snapshot \<Rightarrow> headers \<Rightarrow> auth_result \<times> auth_error option" where
  "resolveManaged snap h =
     (let base = no_auth\<lparr>ar_Mode := ModeManaged\<rparr>
      in case discoverManagedKey h of
           None \<Rightarrow> (base, Some ErrUnauthorized)
         | Some src \<Rightarrow>
             (case as_SecretIndex snap (mk_token src) of
                None \<Rightarrow> (base, Some ErrUnauthorized)
              | Some key \<Rightarrow>
                  if \<not> ak_Enabled key then (base\<lparr>ar_APIKey := Some key\<rparr>, Some ErrUnauthorized)
                  else (case as_ConfigurationIndex snap (ak_Configuration key) of
                          None \<Rightarrow>
                            (base\<lparr>ar_APIKey := Some key, ar_ConfigurationName := ak_Configuration key\<rparr>,
                             Some ErrUnknownConfiguration)
                        | Some cfg \<Rightarrow>
                            (base\<lparr>ar_APIKey := Some key, ar_Configuration := Some cfg,
                                  ar_ConfigurationName := ak_Configuration key,
                                  ar_DropHeaders :=
                                    (if mk_header src \<noteq> HeaderConfiguration \<and> mk_header src \<noteq> HeaderIdentity
                                     then passthroughDropHeaders @ [mk_header src]
                                     else passthroughDropHeaders)\<rparr>, None))))"

definition Resolve ::
  "auth_snapshot option \<Rightarrow> headers \<Rightarrow> auth_result \<times> auth_error option" where
  "Resolve snapshot h =
     (case snapshot of
        None \<Rightarrow> (no_auth, Some ErrUnknownConfiguration)
      | Some snap \<Rightarrow>
          (let identityToken = firstHeader h [HeaderIdentity, LegacyHeaderIdentity];
               legacyConfigName = firstHeader h [HeaderConfiguration, LegacyHeaderConfiguration];
               legacyPresent = (legacyConfigName \<noteq> [])
           in if identityToken \<noteq> [] then resolveIdentityPassthrough snap identityToken legacyPresent
              else if legacyPresent then resolveLegacyPassthrough snap legacyConfigName
              else resolveManaged snap h))"

text \<open>\<^verbatim>\<open>UpstreamCredentialHeader\<close>: the header name and value that carry a credential.\<close>

definition UpstreamCredentialHeader :: "string \<Rightarrow> string \<Rightarrow> string \<times> string" where
  "UpstreamCredentialHeader pv credential =
     (if pv = ''anthropic'' then (headerAnthropicAPIKey, credential)
      else if pv = ''gemini'' then (headerGeminiAPIKey, credential)
      else (HeaderAuthorization, bearerPrefix @ credential))"

datatype audit_result = ResultSuccess | ResultUnknownKey | ResultDisabledKey | ResultUnknownConfiguration

definition classifyResult :: "auth_error \<Rightarrow> auth_result \<Rightarrow> audit_result" where
  "classifyResult err ar =
     (case err of
        ErrUnknownConfiguration \<Rightarrow> ResultUnknownConfiguration
      | ErrUnauthorized \<Rightarrow>
          (case ar_APIKey ar of
             Some key \<Rightarrow> if \<not> ak_Enabled key then ResultDisabledKey else ResultUnknownKey
           | None \<Rightarrow> ResultUnknownKey))"

text \<open>The status and the message of \<^verbatim>\<open>writeAuthError\<close>.\<close>

definition writeAuthError :: "auth_error \<Rightarrow> int \<times> string" where
  "writeAuthError err =
     (case err of
        ErrUnauthorized \<Rightarrow> (401, ''unauthorized'')
      | ErrUnknownConfiguration \<Rightarrow> (403, ''unknown configuration''))"

text \<open>
  \<^verbatim>\<open>HTTPHandler\<close> of the package: the status and message of a rejection, or the decision handed to
  the next stage.
\<close>

definition auth_HTTPHandler ::
  "auth_snapshot option \<Rightarrow> headers \<Rightarrow> (audit_result \<times> int \<times> string) + auth_result" where
  "auth_HTTPHandler snapshot h =
     (case Resolve snapshot h of
        (ar, Some e) \<Rightarrow> Inl (classifyResult e ar, writeAuthError e)
      | (ar, None) \<Rightarrow> Inr ar)"

section \<open>What a decision rests on\<close>

text \<open>The key a request presents, if it presents one: the identity header, else (with no legacy
  selector) the credential header that is found first.\<close>

definition config_selector :: "headers \<Rightarrow> string" where
  "config_selector h = firstHeader h [HeaderConfiguration, LegacyHeaderConfiguration]"

definition presented_key :: "headers \<Rightarrow> string option" where
  "presented_key h =
     (let i = firstHeader h [HeaderIdentity, LegacyHeaderIdentity]
      in if i \<noteq> [] then Some i
         else if config_selector h \<noteq> [] then None
         else map_option mk_token (discoverManagedKey h))"

lemmas resolve_defs = Resolve_def resolveIdentityPassthrough_def resolveLegacyPassthrough_def
  resolveManaged_def auth_HTTPHandler_def presented_key_def config_selector_def Let_def

lemma resolve_ok_cases:
  assumes "auth_HTTPHandler (Some snap) h = Inr ar"
  obtains (identity) key cfg where "presented_key h = Some (firstHeader h [HeaderIdentity, LegacyHeaderIdentity])"
      "as_SecretIndex snap (firstHeader h [HeaderIdentity, LegacyHeaderIdentity]) = Some key" "ak_Enabled key"
      "as_ConfigurationIndex snap (ak_Configuration key) = Some cfg" "ar_Mode ar = ModePassthrough"
      "ar_APIKey ar = Some key" "ar_Configuration ar = Some cfg" "ar_ConfigurationName ar = ak_Configuration key"
      "ar_DropHeaders ar = passthroughDropHeaders"
  | (legacy) cfg where "presented_key h = None" "config_selector h \<noteq> []"
      "as_ConfigurationIndex snap (config_selector h) = Some cfg" "ar_Mode ar = ModePassthrough"
      "ar_APIKey ar = None" "ar_Configuration ar = Some cfg" "ar_ConfigurationName ar = config_selector h"
      "ar_DropHeaders ar = passthroughDropHeaders"
  | (managed) src key cfg where "presented_key h = Some (mk_token src)" "discoverManagedKey h = Some src"
      "as_SecretIndex snap (mk_token src) = Some key" "ak_Enabled key"
      "as_ConfigurationIndex snap (ak_Configuration key) = Some cfg" "ar_Mode ar = ModeManaged"
      "ar_APIKey ar = Some key" "ar_Configuration ar = Some cfg" "ar_ConfigurationName ar = ak_Configuration key"
      "ar_DropHeaders ar = passthroughDropHeaders @ [mk_header src]"
proof -
  have src: "mk_header src \<noteq> HeaderConfiguration \<and> mk_header src \<noteq> HeaderIdentity"
    if "discoverManagedKey h = Some src" for src
    using that by (auto simp: discoverManagedKey_def Let_def split: if_splits option.splits)
  consider "firstHeader h [HeaderIdentity, LegacyHeaderIdentity] \<noteq> []"
    | "firstHeader h [HeaderIdentity, LegacyHeaderIdentity] = []" "config_selector h \<noteq> []"
    | "firstHeader h [HeaderIdentity, LegacyHeaderIdentity] = []" "config_selector h = []" by blast
  then show thesis
  proof cases
    case 1
    then have "resolveIdentityPassthrough snap (firstHeader h [HeaderIdentity, LegacyHeaderIdentity])
        (config_selector h \<noteq> []) = (ar, None)"
      using assms by (auto simp: auth_HTTPHandler_def Resolve_def config_selector_def Let_def split: prod.splits option.splits)
    moreover from this obtain key cfg where "as_SecretIndex snap (firstHeader h [HeaderIdentity, LegacyHeaderIdentity]) = Some key"
      "ak_Enabled key" "as_ConfigurationIndex snap (ak_Configuration key) = Some cfg"
      by (auto simp: resolveIdentityPassthrough_def Let_def split: option.splits if_splits)
    ultimately show thesis using 1 identity [of key cfg]
      by (auto simp: resolveIdentityPassthrough_def presented_key_def no_auth_def Let_def)
  next
    case 2
    then have "resolveLegacyPassthrough snap (config_selector h) = (ar, None)"
      using assms by (auto simp: auth_HTTPHandler_def Resolve_def config_selector_def Let_def split: prod.splits option.splits)
    moreover from this obtain cfg where "as_ConfigurationIndex snap (config_selector h) = Some cfg"
      by (auto simp: resolveLegacyPassthrough_def split: option.splits)
    ultimately show thesis using 2 legacy [of cfg]
      by (auto simp: resolveLegacyPassthrough_def presented_key_def no_auth_def)
  next
    case 3
    then have r: "resolveManaged snap h = (ar, None)"
      using assms by (auto simp: auth_HTTPHandler_def Resolve_def config_selector_def Let_def split: prod.splits option.splits)
    then obtain s key cfg where s: "discoverManagedKey h = Some s" "as_SecretIndex snap (mk_token s) = Some key"
      "ak_Enabled key" "as_ConfigurationIndex snap (ak_Configuration key) = Some cfg"
      by (auto simp: resolveManaged_def Let_def split: option.splits if_splits)
    with 3 r src [OF s(1)] show thesis using managed [of s key cfg]
      by (auto simp: resolveManaged_def presented_key_def no_auth_def Let_def)
  qed
qed

section \<open>Properties\<close>

text \<open>
  C7. Every request that passes authentication carries a configuration of the snapshot, and it got
  it in one of two ways: through a key it presented that is in the secret index and enabled, and
  then the configuration is the key's own; or, with no key presented, by naming the configuration
  in the legacy selector, and then it is in passthrough mode.
\<close>

theorem authenticated_request:
  assumes "auth_HTTPHandler (Some snap) h = Inr ar"
  shows "ar_Configuration ar \<noteq> None \<and>
    as_ConfigurationIndex snap (ar_ConfigurationName ar) = ar_Configuration ar \<and>
    (case ar_APIKey ar of
       Some key \<Rightarrow> ak_Enabled key \<and> ar_ConfigurationName ar = ak_Configuration key \<and>
         presented_key h \<noteq> None \<and> as_SecretIndex snap (the (presented_key h)) = Some key
     | None \<Rightarrow> ar_Mode ar = ModePassthrough \<and> presented_key h = None \<and>
         ar_ConfigurationName ar = config_selector h \<and> config_selector h \<noteq> [])"
  using assms by (cases rule: resolve_ok_cases) simp_all

text \<open>
  A refusal tells nothing about keys: the answer is 401 with one fixed body exactly when the
  request selects no configuration by name alone and the key it presents is missing, unknown or
  disabled; the three causes differ only in the audit tag. In particular a known key in a later
  header does not rescue an unknown one in an earlier header.
\<close>

theorem unauthorized_iff:
  "(\<exists>tag. auth_HTTPHandler (Some snap) h = Inl (tag, 401, ''unauthorized'')) \<longleftrightarrow>
   (if presented_key h = None then config_selector h = []
    else case as_SecretIndex snap (the (presented_key h)) of
           None \<Rightarrow> True
         | Some key \<Rightarrow> \<not> ak_Enabled key)"
proof -
  consider "firstHeader h [HeaderIdentity, LegacyHeaderIdentity] \<noteq> []"
    | "firstHeader h [HeaderIdentity, LegacyHeaderIdentity] = []" "config_selector h \<noteq> []"
    | "firstHeader h [HeaderIdentity, LegacyHeaderIdentity] = []" "config_selector h = []" by blast
  then show ?thesis
    by cases (simp_all add: resolve_defs classifyResult_def writeAuthError_def no_auth_def
        split: option.split)
qed

lemma accepted_drops:
  assumes "auth_HTTPHandler (Some snap) h = Inr ar"
  shows "set passthroughDropHeaders \<subseteq> set (ar_DropHeaders ar)"
    and "ar_Mode ar = ModeManaged \<Longrightarrow> \<exists>src. discoverManagedKey h = Some src \<and> mk_header src \<in> set (ar_DropHeaders ar)"
    and "ar_Mode ar = ModeManaged \<or> ar_Mode ar = ModePassthrough"
proof -
  show "set passthroughDropHeaders \<subseteq> set (ar_DropHeaders ar)"
    by (rule resolve_ok_cases [OF assms]) auto
  show "ar_Mode ar = ModeManaged \<or> ar_Mode ar = ModePassthrough"
    by (rule resolve_ok_cases [OF assms]) auto
  show "\<exists>src. discoverManagedKey h = Some src \<and> mk_header src \<in> set (ar_DropHeaders ar)"
    if "ar_Mode ar = ModeManaged"
    by (rule resolve_ok_cases [OF assms]) (use that in auto)
qed

definition sample_key :: api_key where
  "sample_key = \<lparr>ak_ID = None, ak_Secret = ''sk_live_1'', ak_Name = ''ci'', ak_Configuration = ''main'',
     ak_Enabled = True\<rparr>"

definition empty_configuration :: configuration where
  "empty_configuration = \<lparr>cfg_Credentials = [], cfg_Bindings = [], cfg_PassthroughBindings = [], cfg_RuleNames = [],
     cfg_Tags = [], cfg_ConnectorBindings = [], cfg_AgentRouting = None\<rparr>"

definition sample_snapshot :: auth_snapshot where
  "sample_snapshot = \<lparr>as_SecretIndex = [''sk_live_1'' \<mapsto> sample_key],
     as_ConfigurationIndex = [''main'' \<mapsto> empty_configuration]\<rparr>"

definition sample_inbound :: headers where
  "sample_inbound = [(''Authorization'', [''bearer sk_live_1'']), (''X-Api-Key'', [''other''])]"

lemma sample_selectors:
  "firstHeader sample_inbound [HeaderIdentity, LegacyHeaderIdentity] = []"
  "firstHeader sample_inbound [HeaderConfiguration, LegacyHeaderConfiguration] = []"
  by code_simp+

lemma sample_source:
  "discoverManagedKey sample_inbound = Some \<lparr>mk_header = HeaderAuthorization, mk_token = ''sk_live_1''\<rparr>"
  by code_simp

lemma sample_authenticates:
  "\<exists>ar. auth_HTTPHandler (Some sample_snapshot) sample_inbound = Inr ar \<and> ar_Mode ar = ModeManaged \<and>
     ar_DropHeaders ar = passthroughDropHeaders @ [HeaderAuthorization]"
  by (simp add: auth_HTTPHandler_def Resolve_def resolveManaged_def sample_selectors sample_source
      no_auth_def sample_snapshot_def sample_key_def)

lemma authenticated_request_witness:
  "\<exists>ar. auth_HTTPHandler (Some sample_snapshot) sample_inbound = Inr ar \<and> ar_Configuration ar \<noteq> None"
  using sample_authenticates authenticated_request by blast

end
