(* ===== verification/Passthrough.thy ===== *)
theory Passthrough
  imports Selection
begin

text \<open>
  The passthrough half of \<^verbatim>\<open>internal/selection/selection.go\<close>: \<^verbatim>\<open>MatchPassthrough\<close> and the path
  matcher. The code turns a pattern into a regular expression, quoted literals around one
  \<^verbatim>\<open>([^/]+)\<close> per placeholder, anchored at both ends; here the pattern is a token list and the
  expression's leftmost-first, greedy search is the backtracking function \<open>match_tokens\<close>. The
  regexp package reads UTF-8: a subject is a list of runes (each the bytes that encode it, an
  invalid byte standing alone and read as U+FFFD), and a pattern whose literals are not valid
  UTF-8 does not compile.
\<close>

section \<open>UTF-8\<close>

definition cont_byte :: "char \<Rightarrow> bool" where
  "cont_byte c \<longleftrightarrow> CHR 0x80 \<le> c \<and> c \<le> CHR 0xBF"

text \<open>The bounds of the second byte of a sequence that starts with \<open>a\<close>.\<close>

definition second_byte :: "char \<Rightarrow> char \<Rightarrow> bool" where
  "second_byte a b \<longleftrightarrow>
     (if a = CHR 0xE0 then CHR 0xA0 \<le> b \<and> b \<le> CHR 0xBF
      else if a = CHR 0xED then CHR 0x80 \<le> b \<and> b \<le> CHR 0x9F
      else if a = CHR 0xF0 then CHR 0x90 \<le> b \<and> b \<le> CHR 0xBF
      else if a = CHR 0xF4 then CHR 0x80 \<le> b \<and> b \<le> CHR 0x8F
      else cont_byte b)"

text \<open>The number of bytes a lead byte announces; 0 for a byte that cannot start a sequence.\<close>

definition lead_width :: "char \<Rightarrow> nat" where
  "lead_width a =
     (if a \<le> CHR 0x7F then 1
      else if CHR 0xC2 \<le> a \<and> a \<le> CHR 0xDF then 2
      else if CHR 0xE0 \<le> a \<and> a \<le> CHR 0xEF then 3
      else if CHR 0xF0 \<le> a \<and> a \<le> CHR 0xF4 then 4
      else 0)"

text \<open>The width of the rune at the start of a non-empty string, and whether it is valid.\<close>

definition rune_width :: "string \<Rightarrow> nat \<times> bool" where
  "rune_width s =
     (case s of
        [] \<Rightarrow> (1, False)
      | a # r \<Rightarrow>
          (case lead_width a of
             0 \<Rightarrow> (1, False)
           | Suc k \<Rightarrow>
               if k = 0 then (1, True)
               else if k \<le> length r \<and> second_byte a (hd r) \<and> list_all cont_byte (take (k - 1) (tl r))
               then (Suc k, True) else (1, False)))"

lemma rune_width_pos: "0 < fst (rune_width s)"
  by (simp add: rune_width_def split: list.split nat.split)

lemma rune_width_drop:
  "(w, ok) = rune_width s \<Longrightarrow> s \<noteq> [] \<Longrightarrow> length (drop w s) < length s"
  using rune_width_pos [of s] by (cases "rune_width s") simp

text \<open>A rune: its bytes and the flag of validity.\<close>

type_synonym rune = "string \<times> bool"

function utf8_runes :: "string \<Rightarrow> rune list" where
  "utf8_runes [] = []"
| "utf8_runes (a # r) =
     (case rune_width (a # r) of
        (w, ok) \<Rightarrow> (take w (a # r), ok) # utf8_runes (drop w (a # r)))"
  by pat_completeness auto
termination
  by (relation "measure length") (simp_all only: in_measure rune_width_drop wf_measure list.distinct not_False_eq_True)

definition rune_value :: "rune \<Rightarrow> string" where
  "rune_value u = (if snd u then fst u else [CHR 0xEF, CHR 0xBF, CHR 0xBD])"

definition runes_text :: "rune list \<Rightarrow> string" where
  "runes_text us = concat (map fst us)"

definition slash_rune :: "rune \<Rightarrow> bool" where
  "slash_rune u \<longleftrightarrow> fst u = ''/''"

section \<open>Patterns\<close>

datatype path_token = Lit rune | Capture string

text \<open>\<^verbatim>\<open>\{([A-Za-z_][A-Za-z0-9_]*)\}\<close> at the head of a string: the name and what follows.\<close>

definition placeholder_at :: "string \<Rightarrow> (string \<times> string) option" where
  "placeholder_at s =
     (case s of
        [] \<Rightarrow> None
      | c # r \<Rightarrow>
          if c \<noteq> CHR ''{'' then None
          else (let name = takeWhile ident_rest r;
                    rest = dropWhile ident_rest r
                in if identSegment name \<and> rest \<noteq> [] \<and> hd rest = CHR ''}''
                   then Some (name, tl rest) else None))"

lemma placeholder_at_length: "placeholder_at s = Some (n, r) \<Longrightarrow> length r < length s"
  by (auto simp: placeholder_at_def Let_def less_Suc_eq_le split: list.splits if_splits)
     (metis One_nat_def diff_le_self le_trans length_dropWhile_le)

text \<open>
  The split of a pattern at its placeholders: literal pieces and names, alternating. A literal
  piece is quoted byte for byte; it denotes its runes.
\<close>

function pattern_pieces :: "string \<Rightarrow> string \<Rightarrow> (string \<times> string option) list" where
  "pattern_pieces lit [] = [(rev lit, None)]"
| "pattern_pieces lit (c # s) =
     (case placeholder_at (c # s) of
        Some (name, rest) \<Rightarrow> (rev lit, Some name) # pattern_pieces [] rest
      | None \<Rightarrow> pattern_pieces (c # lit) s)"
  by pat_completeness auto
termination
  by (relation "measure (\<lambda>(lit, s). length s)") (auto dest: placeholder_at_length)

definition piece_tokens :: "string \<times> string option \<Rightarrow> path_token list" where
  "piece_tokens p =
     map Lit (utf8_runes (fst p)) @ (case snd p of None \<Rightarrow> [] | Some name \<Rightarrow> [Capture name])"

definition pattern_tokens :: "string \<Rightarrow> path_token list" where
  "pattern_tokens pattern = concat (map piece_tokens (pattern_pieces [] pattern))"

definition token_compiles :: "path_token \<Rightarrow> bool" where
  "token_compiles t = (case t of Lit u \<Rightarrow> snd u | Capture _ \<Rightarrow> True)"

text \<open>
  The search: a literal takes one rune, a capture takes as many non-slash runes as possible and
  gives them back one by one, down to a single one. \<open>try_capture\<close> tries the lengths from \<open>k\<close>
  down for the continuation \<open>f\<close>.
\<close>

fun try_capture :: "(rune list \<Rightarrow> 'a option) \<Rightarrow> rune list \<Rightarrow> nat \<Rightarrow> (nat \<times> 'a) option" where
  "try_capture f us 0 = None"
| "try_capture f us (Suc k) =
     (case f (drop (Suc k) us) of
        Some r \<Rightarrow> Some (Suc k, r)
      | None \<Rightarrow> try_capture f us k)"

fun match_tokens :: "path_token list \<Rightarrow> rune list \<Rightarrow> (string \<times> string) list option" where
  "match_tokens [] us = (if us = [] then Some [] else None)"
| "match_tokens (Lit u # ts) us =
     (case us of
        [] \<Rightarrow> None
      | v # vs \<Rightarrow> if rune_value v = rune_value u then match_tokens ts vs else None)"
| "match_tokens (Capture name # ts) us =
     (case try_capture (match_tokens ts) us
             (length (takeWhile (\<lambda>u. \<not> slash_rune u) us)) of
        None \<Rightarrow> None
      | Some (k, caps) \<Rightarrow> Some ((name, runes_text (take k us)) # caps))"

text \<open>The parameters: a later capture of a repeated name overwrites the earlier one.\<close>

definition capture_params :: "(string \<times> string) list \<Rightarrow> (string \<times> string) list" where
  "capture_params caps = fold (\<lambda>(n, v) m. AList.update n v m) caps []"

definition matchPath :: "string \<Rightarrow> string \<Rightarrow> (string \<times> string) list option" where
  "matchPath pattern path =
     (if CHR ''{'' \<notin> set pattern then (if pattern = path then Some [] else None)
      else let toks = pattern_tokens pattern
           in if \<not> list_all token_compiles toks then None
              else map_option capture_params (match_tokens toks (utf8_runes path)))"

section \<open>Families\<close>

definition hasMethod :: "golib \<Rightarrow> string list \<Rightarrow> string \<Rightarrow> bool" where
  "hasMethod lib methods want = list_ex (\<lambda>m. to_upper lib (trim_space m) = want) methods"

record passthrough_match =
  pm_Path :: string
  pm_Family :: string
  pm_Provider :: string
  pm_BaseURL :: string
  pm_Auth :: "provider_auth option"
  pm_RequiredHeaders :: "(string \<times> string) list"
  pm_Query :: "string gomap"
  pm_Credential :: string
  pm_Tags :: "string list"
  pm_Params :: "(string \<times> string) list"

text \<open>The inner loop: the match, or whether the path was claimed without the method.\<close>

fun match_family ::
  "golib \<Rightarrow> string \<Rightarrow> string \<Rightarrow> passthrough_path list \<Rightarrow> bool \<Rightarrow>
     (passthrough_path \<times> (string \<times> string) list) option \<times> bool"
where
  "match_family lib up path [] methodSeen = (None, methodSeen)"
| "match_family lib up path (pp # pps) methodSeen =
     (case matchPath (ptp_Match pp) path of
        None \<Rightarrow> match_family lib up path pps methodSeen
      | Some params \<Rightarrow>
          if \<not> hasMethod lib (ptp_Methods pp) up then match_family lib up path pps True
          else (Some (pp, params), methodSeen))"

fun match_passthrough_loop ::
  "golib \<Rightarrow> string \<Rightarrow> string \<Rightarrow> configuration \<Rightarrow> providers_config \<Rightarrow> passthrough_binding list \<Rightarrow>
     bool \<Rightarrow> selection_error + passthrough_match"
where
  "match_passthrough_loop lib up path cfg providers [] methodSeen =
     Inl (if methodSeen then ErrMethodNotAllowed else ErrNoPassthrough)"
| "match_passthrough_loop lib up path cfg providers (pb # pbs) methodSeen =
     (case providers (pb_Provider pb) of
        None \<Rightarrow> Inl (ErrUnknownProvider (pb_Provider pb))
      | Some be \<Rightarrow>
          (case map_of (pv_Passthrough be) (pb_Family pb) of
             None \<Rightarrow> Inl (ErrUnknownFamily (pb_Provider pb) (pb_Family pb))
           | Some fam \<Rightarrow>
               (case match_family lib up path (pf_Paths fam) methodSeen of
                  (None, seen) \<Rightarrow> match_passthrough_loop lib up path cfg providers pbs seen
                | (Some (pp, params), _) \<Rightarrow>
                    Inr \<lparr>pm_Path = ptp_Path pp,
                         pm_Family = pb_Family pb,
                         pm_Provider = pb_Provider pb,
                         pm_BaseURL = pv_BaseURL be,
                         pm_Auth = pf_Auth fam,
                         pm_RequiredHeaders = pv_RequiredHeaders be,
                         pm_Query = pv_Query be,
                         pm_Credential = (case map_of (cfg_Credentials cfg) (pb_Provider pb) of
                                            None \<Rightarrow> [] | Some c \<Rightarrow> c),
                         pm_Tags = pb_Tags pb,
                         pm_Params = params\<rparr>)))"

definition MatchPassthrough ::
  "golib \<Rightarrow> string \<Rightarrow> string \<Rightarrow> configuration \<Rightarrow> providers_config \<Rightarrow>
     selection_error + passthrough_match"
where
  "MatchPassthrough lib method_name path cfg providers =
     match_passthrough_loop lib (to_upper lib method_name) path cfg providers
       (cfg_PassthroughBindings cfg) False"

section \<open>Laws of the path matcher\<close>

lemma runes_text_utf8 [simp]: "runes_text (utf8_runes s) = s"
  by (induction s rule: utf8_runes.induct) (auto simp: runes_text_def split: prod.splits)

lemma slash_in_rune:
  assumes "u \<in> set (utf8_runes s)" and "CHR ''/'' \<in> set (fst u)"
  shows "fst u = ''/''"
  using assms
proof (induction s rule: utf8_runes.induct)
  case (2 a r)
  obtain w ok where w: "rune_width (a # r) = (w, ok)" by fastforce
  show ?case
  proof (cases "u = (take w (a # r), ok)")
    case True
    have nb: "CHR ''/'' \<notin> set bs" if "list_all cont_byte bs" for bs
      using that by (auto simp: list_all_iff cont_byte_def)
    have lead: "a = CHR ''/''" if "CHR ''/'' \<in> set (take w (a # r))"
    proof (rule ccontr)
      assume "a \<noteq> CHR ''/''"
      with that w have k: "1 < w"
        by (cases w; cases "w - 1") auto
      with w have "second_byte a (hd r)" "list_all cont_byte (take (w - 2) (tl r))" "w - 1 \<le> length r"
        by (auto simp: rune_width_def numeral_2_eq_2 split: nat.splits if_splits
            dest!: sym [of "Suc _" "lead_width a"])
      moreover have "hd r \<noteq> CHR ''/''" if "second_byte a (hd r)"
        using that by (auto simp: second_byte_def cont_byte_def split: if_splits)
      moreover have "take (w - 1) r = hd r # take (w - 2) (tl r)"
        using k \<open>w - 1 \<le> length r\<close> by (cases r; cases w; cases "w - 1") (auto simp: numeral_2_eq_2)
      ultimately show False
        using that nb \<open>a \<noteq> CHR ''/''\<close> k by (cases w) auto
    qed
    have "rune_width (CHR ''/'' # r) = (1, True)"
      by (simp add: rune_width_def lead_width_def)
    with lead True 2 w show ?thesis by auto
  next
    case False
    with 2 w show ?thesis by auto
  qed
qed simp

text \<open>A pattern fits a path when the captures can be filled with non-empty slash-free runs.\<close>

fun fits :: "path_token list \<Rightarrow> rune list list \<Rightarrow> rune list \<Rightarrow> bool" where
  "fits [] ps us = (ps = [] \<and> us = [])"
| "fits (Lit u # ts) ps us =
     (case us of [] \<Rightarrow> False | v # vs \<Rightarrow> rune_value v = rune_value u \<and> fits ts ps vs)"
| "fits (Capture n # ts) ps us =
     (case ps of [] \<Rightarrow> False
      | p # qs \<Rightarrow> p \<noteq> [] \<and> \<not> list_ex slash_rune p \<and> prefix p us \<and> fits ts qs (drop (length p) us))"

fun capture_names :: "path_token list \<Rightarrow> string list" where
  "capture_names [] = []"
| "capture_names (Lit _ # ts) = capture_names ts"
| "capture_names (Capture n # ts) = n # capture_names ts"

lemma try_capture_Some:
  "try_capture f us k = Some (j, r) \<Longrightarrow> 0 < j \<and> j \<le> k \<and> f (drop j us) = Some r \<and>
     (\<forall>i. j < i \<and> i \<le> k \<longrightarrow> f (drop i us) = None)"
  by (induction k) (auto simp: le_Suc_eq split: option.splits)

lemma try_capture_None: "try_capture f us k = None \<longleftrightarrow> (\<forall>j. 0 < j \<and> j \<le> k \<longrightarrow> f (drop j us) = None)"
  by (induction k) (auto simp: le_Suc_eq split: option.splits)

lemma match_tokens_sound:
  "match_tokens ts us = Some caps \<Longrightarrow>
   \<exists>ps. fits ts ps us \<and> caps = zip (capture_names ts) (map runes_text ps)"
proof (induction ts us arbitrary: caps rule: match_tokens.induct)
  case (3 name ts us)
  then obtain k caps' where t: "try_capture (match_tokens ts) us
      (length (takeWhile (\<lambda>u. \<not> slash_rune u) us)) = Some (k, caps')"
    and caps: "caps = (name, runes_text (take k us)) # caps'"
    by (auto split: option.splits prod.splits)
  from try_capture_Some [OF t] have k: "0 < k" "k \<le> length (takeWhile (\<lambda>u. \<not> slash_rune u) us)"
    and m: "match_tokens ts (drop k us) = Some caps'" by auto
  from "3.IH" [OF m] obtain ps where ps: "fits ts ps (drop k us)"
    "caps' = zip (capture_names ts) (map runes_text ps)" by blast
  have tk: "take k us = take k (takeWhile (\<lambda>u. \<not> slash_rune u) us)"
    using k(2) by (metis append_take_drop_id take_all_iff take_append takeWhile_dropWhile_id
        diff_is_0_eq take0 append_Nil2)
  have "\<not> list_ex slash_rune (take k us)"
    unfolding tk by (auto simp: list_ex_iff dest!: in_set_takeD set_takeWhileD)
  moreover have "length (take k us) = k"
    using k(2) length_takeWhile_le [of "\<lambda>u. \<not> slash_rune u" us] by simp
  moreover have "take k us \<noteq> []" using k(1) calculation(2) by auto
  ultimately have "fits (Capture name # ts) (take k us # ps) us"
    using ps(1) by (simp add: take_is_prefix)
  with ps(2) caps show ?case by (metis capture_names.simps(3) list.simps(9) zip_Cons_Cons)
qed (auto split: list.splits if_splits)

lemma match_tokens_complete:
  "fits ts ps us \<Longrightarrow> match_tokens ts us \<noteq> None"
proof (induction ts us arbitrary: ps rule: match_tokens.induct)
  case (3 name ts us)
  then obtain p qs where p: "ps = p # qs" "p \<noteq> []" "\<not> list_ex slash_rune p" "prefix p us"
    "fits ts qs (drop (length p) us)" by (auto split: list.splits)
  then have "length p \<le> length (takeWhile (\<lambda>u. \<not> slash_rune u) us)"
    by (auto simp: prefix_def list_ex_iff takeWhile_append)
  moreover have "match_tokens ts (drop (length p) us) \<noteq> None"
    using "3.IH" p by blast
  ultimately have "try_capture (match_tokens ts) us (length (takeWhile (\<lambda>u. \<not> slash_rune u) us)) \<noteq> None"
    using p(2) by (auto simp: try_capture_None)
  then show ?case by (auto split: option.splits)
qed (auto split: list.splits)

lemma match_tokens_decides: "(\<exists>caps. match_tokens ts us = Some caps) \<longleftrightarrow> (\<exists>ps. fits ts ps us)"
  using match_tokens_sound match_tokens_complete by (metis not_Some_eq)

text \<open>Filling a token list: literals as they are, a capture by its value.\<close>

definition fill_token :: "(string \<times> string) list \<Rightarrow> path_token \<Rightarrow> string" where
  "fill_token m t =
     (case t of Lit u \<Rightarrow> fst u | Capture n \<Rightarrow> (case map_of m n of None \<Rightarrow> [] | Some v \<Rightarrow> v))"

definition fill_tokens :: "path_token list \<Rightarrow> (string \<times> string) list \<Rightarrow> string" where
  "fill_tokens ts m = concat (map (fill_token m) ts)"

lemma fits_length: "fits ts ps us \<Longrightarrow> length ps = length (capture_names ts)"
  by (induction ts ps us rule: fits.induct) (auto split: list.splits)

lemma fill_tokens_fresh:
  "n \<notin> set (capture_names ts) \<Longrightarrow> fill_tokens ts ((n, v) # m) = fill_tokens ts m"
  by (induction ts rule: capture_names.induct) (auto simp: fill_tokens_def fill_token_def)

lemma fits_fill:
  "\<lbrakk>fits ts ps us; list_all token_compiles ts; list_all snd us; distinct (capture_names ts)\<rbrakk> \<Longrightarrow>
   fill_tokens ts (zip (capture_names ts) (map runes_text ps)) = runes_text us"
proof (induction ts ps us rule: fits.induct)
  case (1 ps us)
  then show ?case by (simp add: fill_tokens_def runes_text_def)
next
  case (2 u ts ps us)
  then show ?case
    by (auto simp: fill_tokens_def fill_token_def runes_text_def token_compiles_def rune_value_def
        split: list.splits if_splits)
next
  case (3 n ts ps us)
  then obtain p qs where ps: "ps = p # qs" and pre: "prefix p us" and f: "fits ts qs (drop (length p) us)"
    by (auto split: list.splits)
  from pre have us: "us = p @ drop (length p) us" by (auto simp: prefix_def)
  have "list_all snd (drop (length p) us)" using 3(4) by (auto simp: list_all_iff dest: in_set_dropD)
  with 3 f ps have "fill_tokens ts (zip (capture_names ts) (map runes_text qs))
      = runes_text (drop (length p) us)" by auto
  moreover have "fill_tokens (Capture n # ts) (zip (capture_names (Capture n # ts)) (map runes_text ps))
      = runes_text p @ fill_tokens ts (zip (capture_names ts) (map runes_text qs))"
    using 3(5) by (simp add: ps fill_tokens_def fill_token_def)
      (metis (no_types) fill_tokens_def fill_tokens_fresh)
  ultimately show ?case
    by (subst us) (simp add: runes_text_def)
qed

lemma fits_clean:
  "fits ts ps us \<Longrightarrow> p \<in> set ps \<Longrightarrow> p \<noteq> [] \<and> \<not> list_ex slash_rune p \<and> set p \<subseteq> set us"
proof (induction ts ps us rule: fits.induct)
  case (3 n ts ps us)
  then show ?case by (auto split: list.splits dest: set_mono_prefix in_set_dropD)
qed (auto split: list.splits)

lemma capture_params_distinct:
  "distinct (map fst caps) \<Longrightarrow> capture_params caps = caps"
proof -
  have "distinct (map fst (acc @ caps)) \<Longrightarrow> fold (\<lambda>(n, v) m. AList.update n v m) caps acc = acc @ caps"
    for acc
  proof (induction caps arbitrary: acc)
    case (Cons c cs)
    obtain n v where c: "c = (n, v)" by (cases c)
    have "AList.update n v acc = acc @ [(n, v)]"
      using Cons.prems c by (induction acc) auto
    with Cons c show ?case by simp
  qed simp
  then show "distinct (map fst caps) \<Longrightarrow> capture_params caps = caps"
    by (simp add: capture_params_def)
qed

lemma utf8_runes_nonempty: "u \<in> set (utf8_runes s) \<Longrightarrow> fst u \<noteq> []"
proof (induction s rule: utf8_runes.induct)
  case (2 a r)
  obtain w ok where "rune_width (a # r) = (w, ok)" by fastforce
  moreover from this have "0 < w" using rune_width_pos [of "a # r"] by simp
  ultimately show ?case using 2 by auto
qed simp
section \<open>Properties\<close>

text \<open>
  The matcher accepts exactly the paths its pattern denotes: without a placeholder, the
  pattern itself; otherwise the paths in which every placeholder can be filled with a non-empty
  run of characters other than \<^verbatim>\<open>/\<close>. The greedy backtracking loses no match.
\<close>

theorem path_match_decides:
  "matchPath pattern path \<noteq> None \<longleftrightarrow>
   (if CHR ''{'' \<notin> set pattern then path = pattern
    else list_all token_compiles (pattern_tokens pattern) \<and>
         (\<exists>ps. fits (pattern_tokens pattern) ps (utf8_runes path)))"
  by (auto simp: matchPath_def Let_def match_tokens_decides)

text \<open>
  Captures and path are inverse to each other: when a pattern with distinct placeholder names
  matches a path in valid UTF-8, substituting the captured values into the pattern gives back the
  path, and every captured value is non-empty and contains no slash.
\<close>

theorem path_captures_roundtrip:
  assumes "matchPath pattern path = Some params" and "CHR ''{'' \<in> set pattern"
    and "distinct (capture_names (pattern_tokens pattern))" and "list_all snd (utf8_runes path)"
  shows "fill_tokens (pattern_tokens pattern) params = path \<and>
    map fst params = capture_names (pattern_tokens pattern) \<and>
    [] \<notin> set (map snd params) \<and> CHR ''/'' \<notin> set (concat (map snd params))"
proof -
  let ?ts = "pattern_tokens pattern"
  obtain caps where m: "match_tokens ?ts (utf8_runes path) = Some caps"
    and c: "list_all token_compiles ?ts" and p: "params = capture_params caps"
    using assms(1,2) by (auto simp: matchPath_def Let_def split: if_splits)
  obtain ps where f: "fits ?ts ps (utf8_runes path)"
    and caps: "caps = zip (capture_names ?ts) (map runes_text ps)"
    using match_tokens_sound [OF m] by blast
  have len: "length ps = length (capture_names ?ts)" using fits_length [OF f] .
  have params: "params = zip (capture_names ?ts) (map runes_text ps)"
    using capture_params_distinct [of caps] assms(3) len by (simp add: p caps)
  have ne: "runes_text q \<noteq> [] \<and> CHR ''/'' \<notin> set (runes_text q)" if "q \<in> set ps" for q
  proof -
    have q: "q \<noteq> []" "\<not> list_ex slash_rune q" "set q \<subseteq> set (utf8_runes path)"
      using fits_clean [OF f that] by auto
    have "fst u \<noteq> [] \<and> CHR ''/'' \<notin> set (fst u)" if "u \<in> set q" for u
      using that q utf8_runes_nonempty [of u path] slash_in_rune [of u path]
      unfolding list_ex_iff slash_rune_def by blast
    with q(1) show ?thesis by (cases q) (auto simp: runes_text_def)
  qed
  have "map snd params = map runes_text ps" using len by (simp add: params)
  moreover have "[] \<notin> set (map runes_text ps)" "CHR ''/'' \<notin> set (concat (map runes_text ps))"
    using ne by (auto dest: sym [of "[]"])
  ultimately show ?thesis
    using fits_fill [OF f c assms(4,3)] len by (simp add: params)
qed

lemma path_captures_roundtrip_witness:
  "\<exists>params. matchPath ''/v1/batches/{id}/results'' ''/v1/batches/b-7/results'' = Some params \<and>
     params = [(''id'', ''b-7'')] \<and>
     fill_tokens (pattern_tokens ''/v1/batches/{id}/results'') params = ''/v1/batches/b-7/results''"
proof -
  have ts: "pattern_tokens ''/v1/batches/{id}/results'' =
      map (\<lambda>c. Lit ([c], True)) ''/v1/batches/'' @ [Capture ''id''] @
      map (\<lambda>c. Lit ([c], True)) ''/results''"
    by (simp add: pattern_tokens_def placeholder_at_def piece_tokens_def go_defs rune_width_def
        lead_width_def)
  have us: "utf8_runes ''/v1/batches/b-7/results'' = map (\<lambda>c. ([c], True)) ''/v1/batches/b-7/results''"
    by (simp add: rune_width_def lead_width_def)
  have m: "matchPath ''/v1/batches/{id}/results'' ''/v1/batches/b-7/results'' = Some [(''id'', ''b-7'')]"
    unfolding matchPath_def Let_def ts us
    by (simp add: rune_value_def slash_rune_def token_compiles_def capture_params_def runes_text_def)
  have "list_all snd (utf8_runes ''/v1/batches/b-7/results'')" by (simp only: us) simp
  with path_captures_roundtrip [OF m] m show ?thesis by (simp add: ts)
qed

end
