(* ===== verification/Url_Query.thy ===== *)
theory Url_Query
  imports Prelude "HOL-Library.List_Lexorder"
begin

text \<open>
  What the destination builder uses of \<^verbatim>\<open>net/url\<close>: query strings. \<open>QueryEscape\<close> and
  \<open>QueryUnescape\<close> are the two escapers, \<open>ParseQuery\<close> what \<^verbatim>\<open>URL.Query()\<close> returns (malformed
  settings are left out), \<open>Encode\<close>, \<open>Set\<close> and \<open>Add\<close> the methods of \<^verbatim>\<open>url.Values\<close>. The lemma the
  components use is that parsing undoes encoding.
\<close>

type_synonym url_values = "string list gomap"

text \<open>A parsed URL, as far as the gateway reads it, and its host without port and brackets.\<close>

record url =
  u_Scheme :: string
  u_Host :: string
  u_Path :: string
  u_RawPath :: string
  u_RawQuery :: string

fun last_index :: "char \<Rightarrow> string \<Rightarrow> nat option" where
  "last_index c [] = None"
| "last_index c (x # xs) =
     (case last_index c xs of Some i \<Rightarrow> Some (Suc i) | None \<Rightarrow> if x = c then Some 0 else None)"

definition url_Hostname :: "url \<Rightarrow> string" where
  "url_Hostname u =
     (let host = (case last_index CHR '':'' (u_Host u) of
                    Some i \<Rightarrow> if list_all is_digit_ascii (drop (i + 1) (u_Host u)) then take i (u_Host u) else u_Host u
                  | None \<Rightarrow> u_Host u)
      in if has_prefix host ''['' \<and> has_suffix host '']'' then butlast (tl host) else host)"

section \<open>Escaping\<close>

definition unreserved :: "char \<Rightarrow> bool" where
  "unreserved c \<longleftrightarrow> is_upper_ascii c \<or> is_lower_ascii c \<or> is_digit_ascii c \<or>
     c \<in> {CHR ''-'', CHR ''_'', CHR ''.'', CHR ''~''}"

definition hex_digit :: "nat \<Rightarrow> char" where
  "hex_digit n = ''0123456789ABCDEF'' ! n"

definition hex_value :: "char \<Rightarrow> nat option" where
  "hex_value c =
     (if is_digit_ascii c then Some (of_char c - 48)
      else if CHR ''a'' \<le> c \<and> c \<le> CHR ''f'' then Some (of_char c - 87)
      else if CHR ''A'' \<le> c \<and> c \<le> CHR ''F'' then Some (of_char c - 55)
      else None)"

definition escape_char :: "char \<Rightarrow> string" where
  "escape_char c =
     (if unreserved c then [c]
      else if c = CHR '' '' then ''+''
      else [CHR ''%'', hex_digit (of_char c div 16), hex_digit (of_char c mod 16)])"

definition QueryEscape :: "string \<Rightarrow> string" where
  "QueryEscape s = concat (map escape_char s)"

fun QueryUnescape :: "string \<Rightarrow> string option" where
  "QueryUnescape [] = Some []"
| "QueryUnescape (c # s) =
     (if c = CHR ''%''
      then (case s of
              a # b # t \<Rightarrow>
                (case (hex_value a, hex_value b) of
                   (Some x, Some y) \<Rightarrow> map_option (Cons (char_of (16 * x + y))) (QueryUnescape t)
                 | _ \<Rightarrow> None)
            | _ \<Rightarrow> None)
      else if c = CHR ''+'' then map_option (Cons CHR '' '') (QueryUnescape s)
      else map_option (Cons c) (QueryUnescape s))"

section \<open>Values\<close>

definition values_of :: "url_values \<Rightarrow> string \<Rightarrow> string list" where
  "values_of q k = (case map_of q k of None \<Rightarrow> [] | Some vs \<Rightarrow> vs)"

definition values_Set :: "string \<Rightarrow> string \<Rightarrow> url_values \<Rightarrow> url_values" where
  "values_Set k v q = AList.update k [v] q"

definition values_Add :: "string \<Rightarrow> string \<Rightarrow> url_values \<Rightarrow> url_values" where
  "values_Add k v q = AList.update k (values_of q k @ [v]) q"

text \<open>\<^verbatim>\<open>strings.Cut\<close> at the first \<open>c\<close>.\<close>

definition cut_at :: "char \<Rightarrow> string \<Rightarrow> string \<times> string" where
  "cut_at c s = (takeWhile (\<lambda>x. x \<noteq> c) s, drop 1 (dropWhile (\<lambda>x. x \<noteq> c) s))"

definition parse_setting :: "string \<Rightarrow> url_values \<Rightarrow> url_values" where
  "parse_setting seg q =
     (if CHR '';'' \<in> set seg \<or> seg = [] then q
      else (case cut_at CHR ''='' seg of
              (k, v) \<Rightarrow>
                (case (QueryUnescape k, QueryUnescape v) of
                   (Some k', Some v') \<Rightarrow> values_Add k' v' q
                 | _ \<Rightarrow> q)))"

definition ParseQuery :: "string \<Rightarrow> url_values" where
  "ParseQuery s = fold parse_setting (split_on CHR ''&'' s) []"

definition settings_of :: "url_values \<Rightarrow> (string \<times> string) list" where
  "settings_of q = concat (map (\<lambda>(k, vs). map (Pair k) vs) (sort_key fst q))"

definition Encode :: "url_values \<Rightarrow> string" where
  "Encode q = join_with ''&'' (map (\<lambda>(k, v). QueryEscape k @ ''='' @ QueryEscape v) (settings_of q))"

section \<open>Parsing undoes encoding\<close>

lemma nibbles: "of_char c div 16 < (16 :: nat)" "of_char c mod 16 < (16 :: nat)"
proof -
  have "(of_char c :: nat) < 16 * 16" using range_nat_of_char by auto
  then show "of_char c div 16 < (16 :: nat)" by (rule less_mult_imp_div_less)
qed simp

lemma hex_digit_value: "n < 16 \<Longrightarrow> hex_value (hex_digit n) = Some n"
proof -
  assume "n < 16"
  then have "n \<in> set [0 ..< 16]" by simp
  moreover have "list_all (\<lambda>n. hex_value (hex_digit n) = Some n) [0 ..< 16]"
    by (simp add: upt_rec hex_value_def hex_digit_def is_digit_ascii_def of_char_def)
  ultimately show ?thesis by (simp add: list_all_iff)
qed

lemma unescape_escape_char: "QueryUnescape (escape_char c @ s) = map_option (Cons c) (QueryUnescape s)"
proof -
  let ?n = "of_char c :: nat"
  have h: "hex_value (hex_digit (?n div 16)) = Some (?n div 16)"
    "hex_value (hex_digit (?n mod 16)) = Some (?n mod 16)"
    by (simp_all add: hex_digit_value nibbles)
  have n: "char_of (16 * (?n div 16) + ?n mod 16) = c" by (simp only: mult_div_mod_eq char_of_char)
  have "unreserved c \<Longrightarrow> c \<noteq> CHR ''%'' \<and> c \<noteq> CHR ''+''"
    by (auto simp: unreserved_def go_defs)
  then show ?thesis by (auto simp: escape_char_def h n)
qed

lemma unescape_escape: "QueryUnescape (QueryEscape s) = Some s"
  by (induction s) (simp_all add: QueryEscape_def unescape_escape_char)

lemma hex_digit_unreserved: "n < 16 \<Longrightarrow> unreserved (hex_digit n)"
proof -
  assume "n < 16"
  then have "n \<in> set [0 ..< 16]" by simp
  moreover have "list_all (\<lambda>n. unreserved (hex_digit n)) [0 ..< 16]"
    by (simp add: upt_rec unreserved_def hex_digit_def go_defs)
  ultimately show ?thesis by (simp add: list_all_iff)
qed

lemma escaped_chars: "c \<in> set (QueryEscape s) \<Longrightarrow> unreserved c \<or> c = CHR ''%'' \<or> c = CHR ''+''"
proof (induction s)
  case (Cons x s)
  have "unreserved (hex_digit (of_char x div 16))" "unreserved (hex_digit (of_char x mod 16))"
    by (simp_all add: hex_digit_unreserved nibbles)
  then show ?case using Cons by (auto simp: QueryEscape_def escape_char_def split: if_splits)
qed (simp add: QueryEscape_def)

lemma escaped_plain: "CHR ''&'' \<notin> set (QueryEscape s)" "CHR ''='' \<notin> set (QueryEscape s)"
  "CHR '';'' \<notin> set (QueryEscape s)"
proof -
  have "\<not> unreserved CHR ''&''" "\<not> unreserved CHR ''=''" "\<not> unreserved CHR '';''"
    by (simp_all add: unreserved_def go_defs)
  then show "CHR ''&'' \<notin> set (QueryEscape s)" "CHR ''='' \<notin> set (QueryEscape s)"
    "CHR '';'' \<notin> set (QueryEscape s)"
    using escaped_chars [of _ s] by blast+
qed

lemma parse_encoded_setting: "parse_setting (QueryEscape k @ ''='' @ QueryEscape v) q = values_Add k v q"
proof -
  have "cut_at CHR ''='' (QueryEscape k @ ''='' @ QueryEscape v) = (QueryEscape k, QueryEscape v)"
  proof -
    have ne: "\<And>x. x \<in> set (QueryEscape k) \<Longrightarrow> x \<noteq> CHR ''=''" using escaped_plain(2) by blast
    have "takeWhile (\<lambda>x. x \<noteq> CHR ''='') (QueryEscape k @ CHR ''='' # QueryEscape v) = QueryEscape k"
      "dropWhile (\<lambda>x. x \<noteq> CHR ''='') (QueryEscape k @ CHR ''='' # QueryEscape v) = CHR ''='' # QueryEscape v"
      using ne by (simp_all add: takeWhile_append2 dropWhile_append2)
    then show ?thesis by (simp add: cut_at_def)
  qed
  then show ?thesis using escaped_plain(3) by (simp add: parse_setting_def unescape_escape)
qed

lemma values_of_Set: "values_of (values_Set k v q) k' = (if k' = k then [v] else values_of q k')"
  by (simp add: values_of_def values_Set_def update_conv')

lemma values_of_Add: "values_of (values_Add k v q) k' = (if k' = k then values_of q k @ [v] else values_of q k')"
  by (simp add: values_of_def values_Add_def update_conv')

lemma values_of_fold_Add:
  "values_of (fold (\<lambda>(k, v). values_Add k v) kvs q) k = values_of q k @ map snd (filter (\<lambda>(k', v). k' = k) kvs)"
  by (induction kvs arbitrary: q) (auto simp: values_of_Add)

lemma settings_of_key:
  assumes "distinct (map fst q)"
  shows "map snd (filter (\<lambda>(k', v). k' = k) (settings_of q)) = values_of q k"
proof -
  have "map snd (filter (\<lambda>(k', v). k' = k) (concat (map (\<lambda>(k, vs). map (Pair k) vs) p))) = values_of p k"
    if "distinct (map fst p)" for p :: url_values
    using that
  proof (induction p)
    case (Cons a p)
    obtain k' vs where a: "a = (k', vs)" by fastforce
    have same: "map snd (filter (\<lambda>(k', v). k' = k) (map (Pair k') vs)) = (if k' = k then vs else [])"
      by (induction vs) auto
    have "k' = k \<Longrightarrow> values_of p k = []"
      using Cons.prems a by (simp add: values_of_def map_of_eq_None_iff [THEN iffD2])
    then show ?case using Cons a same by (auto simp: values_of_def)
  qed (simp add: values_of_def)
  moreover have "distinct (map fst (sort_key fst q))"
    using assms by (simp add: distinct_map)
  moreover have "values_of (sort_key fst q) k = values_of q k"
  proof -
    have "map_of (sort_key fst q) = map_of q"
      using map_of_inject_set [OF calculation(2) assms] by simp
    then show ?thesis by (simp add: values_of_def)
  qed
  ultimately show ?thesis by (simp add: settings_of_def)
qed

lemma parse_encode:
  assumes "distinct (map fst q)"
  shows "values_of (ParseQuery (Encode q)) k = values_of q k"
proof -
  let ?segs = "map (\<lambda>(k, v). QueryEscape k @ ''='' @ QueryEscape v) (settings_of q)"
  have f: "fold parse_setting (map (\<lambda>(k, v). QueryEscape k @ ''='' @ QueryEscape v) kvs) p =
      fold (\<lambda>(k, v). values_Add k v) kvs p" for kvs p
    by (induction kvs arbitrary: p) (auto simp: parse_encoded_setting simp del: append_Cons)
  have "ParseQuery (Encode q) = fold parse_setting ?segs []"
  proof (cases "settings_of q = []")
    case True
    then show ?thesis by (simp add: ParseQuery_def Encode_def parse_setting_def)
  next
    case False
    have "\<forall>x \<in> set ?segs. CHR ''&'' \<notin> set x" using escaped_plain(1) by auto
    then show ?thesis using False split_join [of ?segs] by (simp add: ParseQuery_def Encode_def)
  qed
  then show ?thesis
    using f values_of_fold_Add [of "settings_of q" "[]" k] settings_of_key [OF assms, of k]
    by (simp add: values_of_def)
qed

lemma values_distinct:
  "distinct (map fst q) \<Longrightarrow> distinct (map fst (values_Set k v q))"
  "distinct (map fst q) \<Longrightarrow> distinct (map fst (values_Add k v q))"
  by (simp_all add: values_Set_def values_Add_def distinct_update)

lemma ParseQuery_distinct: "distinct (map fst (ParseQuery s))"
proof -
  have "distinct (map fst q) \<Longrightarrow> distinct (map fst (fold parse_setting segs q))" for segs q
    by (induction segs arbitrary: q) (auto simp: parse_setting_def values_distinct split: prod.split option.split)
  then show ?thesis by (simp add: ParseQuery_def)
qed

end
