(* ===== verification/Destination.thy ===== *)
theory Destination
  imports Auth_Resolver Passthrough Url_Query Rule_Actions
begin

text \<open>
  Where a request goes and which credential it carries: the destination builder
  (\<^verbatim>\<open>cmd/gateway/destination.go\<close>, the builders of \<^verbatim>\<open>cmd/gateway/pipeline.go\<close>), the final stage
  of \<^verbatim>\<open>cmd/gateway/handler.go\<close> and the request side of \<^verbatim>\<open>internal/proxy/forwarder.go\<close>.
  \<^verbatim>\<open>url.Parse\<close> is an argument; a parsed URL is the five parts the forwarder copies. A Go map that
  is ranged over is an association list in some iteration order.
\<close>

record proxy_destination =
  pd_BaseURL :: "url option"
  pd_UpstreamURL :: "url option"
  pd_OutgoingHeaders :: headers
  pd_DropHeaders :: "string list"

section \<open>Helpers of the final handler\<close>

definition credentialHeaderNames :: "string list" where
  "credentialHeaderNames = [HeaderAuthorization, ''X-Api-Key'', ''X-Goog-Api-Key'']"

definition authFormatPlaceholder :: string where
  "authFormatPlaceholder = ''{key}''"

definition appendUnique :: "string list \<Rightarrow> string \<Rightarrow> string list" where
  "appendUnique xs v = (if v \<in> set xs then xs else xs @ [v])"

text \<open>\<^verbatim>\<open>strings.ReplaceAll\<close> for a non-empty old string.\<close>

fun replace_all :: "string \<Rightarrow> string \<Rightarrow> string \<Rightarrow> string" where
  "replace_all old new [] = []"
| "replace_all old new (c # s) =
     (if old \<noteq> [] \<and> has_prefix (c # s) old
      then new @ replace_all old new (drop (length old - 1) s)
      else c # replace_all old new s)"

definition substitutePlaceholders :: "string \<Rightarrow> (string \<times> string) list \<Rightarrow> string" where
  "substitutePlaceholders path params =
     (if params = [] \<or> CHR ''{'' \<notin> set path then path
      else fold (\<lambda>(name, value) out. replace_all (''{'' @ name @ ''}'') value out) params path)"

definition joinPaths :: "string \<Rightarrow> string \<Rightarrow> string" where
  "joinPaths base tgt =
     (if base = [] then tgt
      else if tgt = [] then base
      else if has_suffix base ''/'' \<and> has_prefix tgt ''/'' then base @ drop 1 tgt
      else if \<not> has_suffix base ''/'' \<and> \<not> has_prefix tgt ''/'' then base @ ''/'' @ tgt
      else base @ tgt)"

section \<open>Credentials\<close>

definition credentialHeaderFor :: "sel_target \<Rightarrow> string \<Rightarrow> string \<times> string" where
  "credentialHeaderFor tgt credential =
     (case st_Auth tgt of
        None \<Rightarrow> UpstreamCredentialHeader (st_Provider tgt) credential
      | Some a \<Rightarrow>
          if pa_Header a = [] then UpstreamCredentialHeader (st_Provider tgt) credential
          else if pa_Format a = [] then (pa_Header a, credential)
          else (pa_Header a, replace_all authFormatPlaceholder credential (pa_Format a)))"

definition dropOtherCredentialHeaders :: "string list \<Rightarrow> string \<Rightarrow> string list" where
  "dropOtherCredentialHeaders drops minted =
     fold (\<lambda>h ds. if canonical_key h = canonical_key minted then ds else appendUnique ds h)
       credentialHeaderNames drops"

text \<open>The outgoing headers and the drop list after the one place where credentials are minted.\<close>

definition resolveCredentialHeaders ::
  "headers \<Rightarrow> string list \<Rightarrow> sel_target \<Rightarrow> auth_mode \<Rightarrow> string option \<Rightarrow> string \<Rightarrow>
     headers \<times> string list"
where
  "resolveCredentialHeaders outgoing drops tgt mode override inboundAuthorization =
     (let verbatim = (if inboundAuthorization \<noteq> []
                      then header_set outgoing HeaderAuthorization inboundAuthorization else outgoing);
          mint = (\<lambda>c. case credentialHeaderFor tgt c of (name, v) \<Rightarrow>
                    (header_set outgoing name v, dropOtherCredentialHeaders drops name))
      in case override of
           Some key \<Rightarrow> if key \<noteq> [] then mint key else (verbatim, drops)
         | None \<Rightarrow>
             if mode = ModePassthrough then (verbatim, drops)
             else if st_Credential tgt = []
             then (outgoing, fold (\<lambda>h ds. appendUnique ds h) credentialHeaderNames drops)
             else mint (st_Credential tgt))"

section \<open>Destinations\<close>

definition required_headers :: "(string \<times> string) list \<Rightarrow> headers" where
  "required_headers hs = fold (\<lambda>(k, v) h. header_set h k v) hs []"

definition overlay_query :: "string gomap \<Rightarrow> url_values \<Rightarrow> url_values" where
  "overlay_query kvs q = fold (\<lambda>(k, v). values_Set k v) kvs q"

definition buildDestination ::
  "(string \<Rightarrow> url option) \<Rightarrow> sel_target \<Rightarrow> (string \<times> string) list \<Rightarrow> auth_mode \<Rightarrow> string list \<Rightarrow> string \<Rightarrow>
     string option \<Rightarrow> proxy_destination option"
where
  "buildDestination parse tgt pathParams mode dropHeaders inboundAuthorization override =
     (case parse (st_BaseURL tgt) of
        None \<Rightarrow> None
      | Some base \<Rightarrow>
          (let upstreamPath = substitutePlaceholders (st_Path tgt) pathParams;
               up1 = base\<lparr>u_Path := joinPaths (u_Path base) upstreamPath, u_RawPath := []\<rparr>;
               up2 = (if st_Query tgt \<noteq> []
                      then up1\<lparr>u_RawQuery := Encode (overlay_query (st_Query tgt) (ParseQuery (u_RawQuery up1)))\<rparr>
                      else up1)
           in case resolveCredentialHeaders (required_headers (st_RequiredHeaders tgt)) dropHeaders tgt mode
                     override inboundAuthorization of
                (outgoing, drops) \<Rightarrow>
                  Some \<lparr>pd_BaseURL = Some base, pd_UpstreamURL = Some up2,
                        pd_OutgoingHeaders = outgoing, pd_DropHeaders = drops\<rparr>))"

text \<open>The target record the passthrough builder fills in; its other fields stay zero.\<close>

definition passthrough_target :: "passthrough_match \<Rightarrow> sel_target" where
  "passthrough_target pm =
     \<lparr>st_Provider = pm_Provider pm, st_Name = [], st_BaseURL = pm_BaseURL pm, st_Path = [],
      st_Auth = pm_Auth pm, st_RequiredHeaders = pm_RequiredHeaders pm, st_Query = [],
      st_Credential = pm_Credential pm, st_Alias = [], st_Weight = 0, st_TimeoutSeconds = 0,
      st_PathOverride = [], st_QueryOverride = []\<rparr>"

definition buildPassthroughDestination ::
  "(string \<Rightarrow> url option) \<Rightarrow> passthrough_match \<Rightarrow> string \<Rightarrow> url_values option \<Rightarrow> auth_mode \<Rightarrow>
     string list \<Rightarrow> string \<Rightarrow> string option \<Rightarrow> proxy_destination option"
where
  "buildPassthroughDestination parse pm inboundPath inboundQuery mode dropHeaders inboundAuthorization override =
     (case parse (pm_BaseURL pm) of
        None \<Rightarrow> None
      | Some base \<Rightarrow>
          (let path = (if pm_Path pm \<noteq> [] then substitutePlaceholders (pm_Path pm) (pm_Params pm) else inboundPath);
               up1 = base\<lparr>u_Path := joinPaths (u_Path base) path, u_RawPath := []\<rparr>;
               q = (if pm_Query pm \<noteq> []
                    then Some (overlay_query (pm_Query pm) (case inboundQuery of None \<Rightarrow> [] | Some q \<Rightarrow> q))
                    else inboundQuery);
               up2 = (case q of None \<Rightarrow> up1 | Some q \<Rightarrow> up1\<lparr>u_RawQuery := Encode q\<rparr>)
           in case resolveCredentialHeaders (required_headers (pm_RequiredHeaders pm)) dropHeaders
                     (passthrough_target pm) mode override inboundAuthorization of
                (outgoing, drops) \<Rightarrow>
                  Some \<lparr>pd_BaseURL = Some base, pd_UpstreamURL = Some up2,
                        pd_OutgoingHeaders = outgoing, pd_DropHeaders = drops\<rparr>))"

definition applyStateOverlays :: "proxy_destination \<Rightarrow> mutable_state \<Rightarrow> proxy_destination" where
  "applyStateOverlays d s =
     (let drops = fold (\<lambda>n ds. appendUnique ds n) (ms_DropHeaders s) (pd_DropHeaders d);
          up = (case pd_UpstreamURL d of
                  None \<Rightarrow> None
                | Some u \<Rightarrow>
                    if ms_QueryAdditions s \<noteq> []
                    then Some (u\<lparr>u_RawQuery :=
                           Encode (fold (\<lambda>a. values_Add (qa_Key a) (qa_Value a)) (ms_QueryAdditions s)
                                     (ParseQuery (u_RawQuery u)))\<rparr>)
                    else Some u);
          out = fold (\<lambda>(k, vs) h. fold (\<lambda>v h. header_add h k v) vs (header_del h k))
                  (ms_OutgoingHeaders s) (pd_OutgoingHeaders d)
      in d\<lparr>pd_DropHeaders := drops, pd_UpstreamURL := up, pd_OutgoingHeaders := out\<rparr>)"

section \<open>The final stage\<close>

definition translationActive :: "mutable_state \<Rightarrow> bool" where
  "translationActive s \<longleftrightarrow> ms_SourceProtocol s \<noteq> [] \<and> ms_SourceProtocol s \<noteq> ms_Protocol s"

text \<open>
  What the final stage takes from outside: \<^verbatim>\<open>url.Parse\<close>, the translator registry (\<open>None\<close> for an
  unregistered pair, else whether it is stream capable), and the outcome of translating the request
  body of this request (\<open>None\<close> for an error, else whether the result asks for a stream).
\<close>

record final_env =
  fe_parse :: "string \<Rightarrow> url option"
  fe_lookup :: "string \<Rightarrow> string \<Rightarrow> bool option"
  fe_translate :: "string \<Rightarrow> string \<Rightarrow> bool option"

datatype final_outcome = Refused int string | Forwarded proxy_destination

definition internal_error :: final_outcome where
  "internal_error = Refused 500 ''internal''"

definition translation_gate :: "final_env \<Rightarrow> mutable_state \<Rightarrow> final_outcome option" where
  "translation_gate fe s =
     (if \<not> translationActive s then None
      else case fe_lookup fe (ms_SourceProtocol s) (ms_Protocol s) of
             None \<Rightarrow> Some (Refused 501 ''translate_unsupported'')
           | Some streamCapable \<Rightarrow>
               (case fe_translate fe (ms_SourceProtocol s) (ms_Protocol s) of
                  None \<Rightarrow> Some internal_error
                | Some streaming \<Rightarrow>
                    if streaming \<and> \<not> streamCapable
                    then Some (Refused 501 ''translate_streaming_unsupported'') else None))"

definition resolve_as :: "mutable_state \<Rightarrow> config_target" where
  "resolve_as s =
     \<lparr>ct_Provider = ms_Provider s, ct_Alias = [], ct_Query = ms_TargetQuery s,
      ct_Path = (if translationActive s then [] else ms_TargetPath s), ct_Weight = 0, ct_TimeoutSeconds = 0\<rparr>"

definition buildFinalHandler ::
  "final_env \<Rightarrow> mutable_state option \<Rightarrow> auth_result option \<Rightarrow> passthrough_match option \<Rightarrow>
     string \<Rightarrow> url_values \<Rightarrow> headers \<Rightarrow> providers_config \<Rightarrow> final_outcome"
where
  "buildFinalHandler fe state ar match path query inbound providers =
     (case (state, ar) of
        (Some s, Some a) \<Rightarrow>
          (let inboundAuthorization = header_get inbound HeaderAuthorization;
               finish = (\<lambda>d. case d of None \<Rightarrow> internal_error | Some dest \<Rightarrow> Forwarded (applyStateOverlays dest s))
           in case match of
                Some pm \<Rightarrow>
                  finish (buildPassthroughDestination (fe_parse fe) pm path (Some query) (ar_Mode a)
                            (ar_DropHeaders a) inboundAuthorization (ms_UpstreamCredentialOverride s))
              | None \<Rightarrow>
                  if ms_Provider s = [] then internal_error
                  else (case ar_Configuration a of
                          None \<Rightarrow> internal_error
                        | Some cfg \<Rightarrow>
                            (case translation_gate fe s of
                               Some refused \<Rightarrow> refused
                             | None \<Rightarrow>
                                 (case ResolveTarget (ms_Protocol s) (resolve_as s) cfg providers of
                                    Inl e \<Rightarrow> internal_error
                                  | Inr tgt \<Rightarrow>
                                      finish (buildDestination (fe_parse fe) tgt (ms_PathParams s) (ar_Mode a)
                                                (ar_DropHeaders a) inboundAuthorization
                                                (ms_UpstreamCredentialOverride s))))))
      | _ \<Rightarrow> internal_error)"

section \<open>The request the forwarder sends\<close>

definition alwaysDropHeaders :: "string list" where
  "alwaysDropHeaders =
     [HeaderConfiguration, HeaderIdentity, LegacyHeaderConfiguration, LegacyHeaderIdentity,
      HeaderAuthorization, ''Origin'', ''Referer'', ''Cookie'', ''Accept-Encoding'']"

text \<open>
  The \<^verbatim>\<open>Rewrite\<close> hook on the outgoing header map: a header is deleted when its first value is not
  empty, then the outgoing headers replace what is there.
\<close>

definition drop_headers :: "string list \<Rightarrow> headers \<Rightarrow> headers" where
  "drop_headers names h = fold (\<lambda>n h. if header_get h n \<noteq> [] then header_del h n else h) names h"

definition apply_outgoing :: "headers \<Rightarrow> headers \<Rightarrow> headers" where
  "apply_outgoing outgoing h = fold (\<lambda>(k, vs) h. AList.update (canonical_key k) vs h) outgoing h"

definition rewrite_headers :: "proxy_destination \<Rightarrow> headers \<Rightarrow> headers" where
  "rewrite_headers d h = apply_outgoing (pd_OutgoingHeaders d) (drop_headers (alwaysDropHeaders @ pd_DropHeaders d) h)"

definition rewriteURL :: "url \<Rightarrow> url \<Rightarrow> url" where
  "rewriteURL out tgt =
     out\<lparr>u_Scheme := u_Scheme tgt, u_Host := u_Host tgt, u_Path := u_Path tgt, u_RawPath := u_RawPath tgt,
         u_RawQuery := (if u_RawQuery tgt \<noteq> [] then u_RawQuery tgt else u_RawQuery out)\<rparr>"

text \<open>The transport cache key; \<open>str\<close> is \<^verbatim>\<open>URL.String()\<close>.\<close>

definition destBaseKey :: "(url \<Rightarrow> string) \<Rightarrow> proxy_destination \<Rightarrow> string" where
  "destBaseKey str d =
     (let fallback = (case pd_UpstreamURL d of
                        Some u \<Rightarrow> if u_Host u \<noteq> [] then u_Scheme u @ ''://'' @ u_Host u else []
                      | None \<Rightarrow> [])
      in case pd_BaseURL d of
           Some b \<Rightarrow> if u_Host b \<noteq> [] then str b else fallback
         | None \<Rightarrow> fallback)"

text \<open>\<^verbatim>\<open>Forward\<close> up to the upstream call: the URL and headers sent, or an unusable destination.\<close>

definition Forward_request ::
  "(url \<Rightarrow> string) \<Rightarrow> proxy_destination \<Rightarrow> url \<Rightarrow> headers \<Rightarrow> (url \<times> headers) option" where
  "Forward_request str d inURL h =
     (case pd_UpstreamURL d of
        None \<Rightarrow> None
      | Some up \<Rightarrow>
          if destBaseKey str d = [] then None else Some (rewriteURL inURL up, rewrite_headers d h))"

section \<open>The response the forwarder classifies\<close>

definition isSSE :: "headers \<Rightarrow> bool" where
  "isSSE h =
     (let ct = header_get h ''Content-Type''
      in ct \<noteq> [] \<and>
         (let media = (case index_byte CHR '';'' ct of None \<Rightarrow> ct | Some i \<Rightarrow> take i ct)
          in equal_fold (trim_space media) ''text/event-stream''))"

definition sseSniffLimit :: nat where
  "sseSniffLimit = 512"

definition looksLikeSSE :: "string \<Rightarrow> bool" where
  "looksLikeSSE b =
     (let t = dropWhile (\<lambda>c. c \<in> {CHR '' '', CHR 0x09, CHR 0x0D, CHR 0x0A}) b
      in list_ex (has_prefix t) [''event:'', ''data:'', ''id:'', ''retry:'', '':''])"

text \<open>
  An upstream body: the bytes it yields and whether it then fails instead of ending.
  \<open>classifyStreaming\<close> returns the verdict and the body the copy to the client will read.
\<close>

record response_body =
  rb_data :: string
  rb_fails :: bool

definition classifyStreaming :: "headers \<Rightarrow> response_body option \<Rightarrow> bool \<times> response_body option" where
  "classifyStreaming h body =
     (if isSSE h then (True, body)
      else if header_get h ''Content-Type'' \<noteq> [] then (False, body)
      else case body of
             None \<Rightarrow> (False, None)
           | Some b \<Rightarrow>
               (let peeked = take sseSniffLimit (rb_data b);
                    failed = (length (rb_data b) < sseSniffLimit \<and> rb_fails b);
                    restored = b\<lparr>rb_data := peeked @ drop sseSniffLimit (rb_data b)\<rparr>
                in (if failed then False else looksLikeSSE peeked, Some restored)))"

section \<open>Header maps with canonical keys\<close>

definition canonical_headers :: "headers \<Rightarrow> bool" where
  "canonical_headers h \<longleftrightarrow> distinct (map fst h) \<and> list_all (\<lambda>(k, vs). canonical_key k = k) h"

definition has_header :: "headers \<Rightarrow> string \<Rightarrow> bool" where
  "has_header h n \<longleftrightarrow> map_of h (canonical_key n) \<noteq> None"

lemma set_update_keys: "(k', v') \<in> set (AList.update k v h) \<Longrightarrow> k' = k \<or> (k', v') \<in> set h"
  by (induction h) (auto split: if_splits)

lemma set_delete_subset: "set (AList.delete k h) \<subseteq> set h"
  by (auto simp: AList.delete_eq)

lemma canonical_update: "canonical_headers h \<Longrightarrow> canonical_headers (AList.update (canonical_key k) v h)"
  by (auto simp: canonical_headers_def distinct_update list_all_iff dest!: set_update_keys)

lemma canonical_headers_ops [simp, intro]:
  "canonical_headers h \<Longrightarrow> canonical_headers (header_set h k v)"
  "canonical_headers h \<Longrightarrow> canonical_headers (header_add h k v)"
  "canonical_headers h \<Longrightarrow> canonical_headers (header_del h k)"
  "canonical_headers []"
proof -
  show "canonical_headers h \<Longrightarrow> canonical_headers (header_del h k)"
    using set_delete_subset [of "canonical_key k" h]
    by (auto simp: canonical_headers_def header_del_def distinct_delete list_all_iff)
qed (simp_all add: header_set_def header_add_def canonical_update, simp add: canonical_headers_def)

lemma has_header_ops [simp]:
  "has_header (header_set h k v) n \<longleftrightarrow> canonical_key n = canonical_key k \<or> has_header h n"
  "has_header (header_add h k v) n \<longleftrightarrow> canonical_key n = canonical_key k \<or> has_header h n"
  "has_header (header_del h k) n \<longleftrightarrow> canonical_key n \<noteq> canonical_key k \<and> has_header h n"
  by (auto simp: has_header_def header_set_def header_add_def header_del_def update_conv' delete_conv')

lemma has_header_cong: "canonical_key n = canonical_key m \<Longrightarrow> has_header h n = has_header h m"
  by (simp add: has_header_def)

lemma header_lookup_cong:
  assumes "canonical_key n = canonical_key m"
  shows "header_values h n = header_values h m" "header_get h n = header_get h m"
  using assms by (simp_all add: header_values_def header_get_def)

section \<open>What the rewrite hook leaves of a header\<close>

lemma drop_headers_values:
  "header_values (drop_headers ns h) n =
     (if canonical_key n \<in> canonical_key ` set ns \<and> header_get h n \<noteq> [] then [] else header_values h n)"
proof (induction ns arbitrary: h)
  case (Cons m ns)
  let ?h = "if header_get h m \<noteq> [] then header_del h m else h"
  have d: "drop_headers (m # ns) h = drop_headers ns ?h" by (simp add: drop_headers_def)
  show ?case
  proof (cases "canonical_key n = canonical_key m")
    case True
    then show ?thesis
      unfolding d Cons.IH by (auto simp: header_laws header_lookup_cong [OF True])
  next
    case False
    then show ?thesis unfolding d Cons.IH by (auto simp: header_laws)
  qed
qed (simp add: drop_headers_def)

lemma apply_outgoing_values:
  assumes "canonical_headers out"
  shows "header_values (apply_outgoing out h) n =
    (if has_header out n then header_values out n else header_values h n)"
  using assms
proof (induction out arbitrary: h)
  case (Cons kv out)
  obtain k vs where kv: "kv = (k, vs)" by fastforce
  have k: "canonical_key k = k" "k \<notin> fst ` set out" and c: "canonical_headers out"
    using Cons.prems by (auto simp: canonical_headers_def kv)
  have "k = canonical_key n \<Longrightarrow> \<not> has_header out n"
    using k(2) by (simp add: has_header_def map_of_eq_None_iff)
  then show ?case
    using Cons.IH [OF c] k(1)
    by (auto simp: apply_outgoing_def kv has_header_def header_values_def update_conv')
qed (simp add: apply_outgoing_def has_header_def)

lemma rewrite_headers_values:
  assumes "canonical_headers (pd_OutgoingHeaders d)"
  shows "header_values (rewrite_headers d h) n =
    (if has_header (pd_OutgoingHeaders d) n then header_values (pd_OutgoingHeaders d) n
     else if canonical_key n \<in> canonical_key ` set (alwaysDropHeaders @ pd_DropHeaders d) \<and> header_get h n \<noteq> []
     then [] else header_values h n)"
  by (simp add: rewrite_headers_def apply_outgoing_values [OF assms] drop_headers_values)

section \<open>What the builder puts in\<close>

lemma fold_appendUnique: "set (fold (\<lambda>n ds. appendUnique ds n) ns ds) = set ns \<union> set ds"
  by (induction ns arbitrary: ds) (auto simp: appendUnique_def)

lemma dropOther_drops:
  "set ds \<subseteq> set (dropOtherCredentialHeaders ds m)"
  "n \<in> set credentialHeaderNames \<Longrightarrow> canonical_key n = canonical_key m \<or> n \<in> set (dropOtherCredentialHeaders ds m)"
  by (auto simp: dropOtherCredentialHeaders_def credentialHeaderNames_def appendUnique_def)

lemma resolve_drops: "set ds \<subseteq> set (snd (resolveCredentialHeaders out ds tgt mode ov auth))"
  using dropOther_drops(1) [of ds]
  by (auto simp: resolveCredentialHeaders_def Let_def fold_appendUnique split: option.split prod.split)

lemma resolve_canonical:
  "canonical_headers out \<Longrightarrow> canonical_headers (fst (resolveCredentialHeaders out ds tgt mode ov auth))"
  by (auto simp: resolveCredentialHeaders_def Let_def split: option.split prod.split)

lemma resolve_credentials:
  assumes "mode \<noteq> ModePassthrough" and "ov \<noteq> Some []" and "n \<in> set credentialHeaderNames"
  shows "n \<in> set (snd (resolveCredentialHeaders out ds tgt mode ov auth)) \<or>
    has_header (fst (resolveCredentialHeaders out ds tgt mode ov auth)) n"
  using assms dropOther_drops(2) [OF assms(3)]
  by (auto simp: resolveCredentialHeaders_def Let_def fold_appendUnique split: option.split prod.split)

lemma required_canonical: "canonical_headers (required_headers hs)"
proof -
  have "canonical_headers h \<Longrightarrow> canonical_headers (fold (\<lambda>(k, v) h. header_set h k v) hs h)" for h
    by (induction hs arbitrary: h) auto
  then show ?thesis by (simp add: required_headers_def)
qed

lemma fold_header_add:
  "canonical_headers h \<Longrightarrow> canonical_headers (fold (\<lambda>v h. header_add h k v) vs h)"
  "has_header h n \<Longrightarrow> has_header (fold (\<lambda>v h. header_add h k v) vs h) n"
  "canonical_key n \<noteq> canonical_key k \<Longrightarrow> header_values (fold (\<lambda>v h. header_add h k v) vs h) n = header_values h n"
  "vs \<noteq> [] \<Longrightarrow> has_header (fold (\<lambda>v h. header_add h k v) vs h) k"
proof -
  show "canonical_headers h \<Longrightarrow> canonical_headers (fold (\<lambda>v h. header_add h k v) vs h)"
    by (induction vs arbitrary: h) auto
  have keep: "has_header h n \<Longrightarrow> has_header (fold (\<lambda>v h. header_add h k v) vs h) n" for h n vs
    by (induction vs arbitrary: h) auto
  then show "has_header h n \<Longrightarrow> has_header (fold (\<lambda>v h. header_add h k v) vs h) n" .
  show "canonical_key n \<noteq> canonical_key k \<Longrightarrow> header_values (fold (\<lambda>v h. header_add h k v) vs h) n = header_values h n"
    by (induction vs arbitrary: h) (auto simp: header_laws)
  show "vs \<noteq> [] \<Longrightarrow> has_header (fold (\<lambda>v h. header_add h k v) vs h) k"
    by (cases vs) (simp_all add: keep)
qed

abbreviation overlay_headers :: "headers \<Rightarrow> headers \<Rightarrow> headers" where
  "overlay_headers rules h \<equiv> fold (\<lambda>(k, vs) h. fold (\<lambda>v h. header_add h k v) vs (header_del h k)) rules h"

lemma overlay_canonical: "canonical_headers h \<Longrightarrow> canonical_headers (overlay_headers rules h)"
  by (induction rules arbitrary: h) (auto intro!: fold_header_add(1))

lemma overlay_keeps:
  "\<lbrakk>has_header h n; list_all (\<lambda>(k, vs). vs \<noteq> []) rules\<rbrakk> \<Longrightarrow> has_header (overlay_headers rules h) n"
proof (induction rules arbitrary: h)
  case (Cons kv rules)
  obtain k vs where kv: "kv = (k, vs)" by fastforce
  have "has_header (fold (\<lambda>v h. header_add h k v) vs (header_del h k)) n"
  proof (cases "canonical_key n = canonical_key k")
    case True
    then show ?thesis using Cons.prems(2) fold_header_add(4) [of vs] has_header_cong [OF True] by (simp add: kv)
  next
    case False
    then show ?thesis using Cons.prems(1) by (intro fold_header_add(2)) simp
  qed
  then show ?case using Cons by (simp add: kv)
qed simp

lemma overlay_untouched:
  "canonical_key n \<notin> canonical_key ` fst ` set rules \<Longrightarrow>
   header_values (overlay_headers rules h) n = header_values h n"
proof (induction rules arbitrary: h)
  case (Cons kv rules)
  obtain k vs where kv: "kv = (k, vs)" by fastforce
  show ?case using Cons by (simp add: kv fold_header_add(3) header_laws)
qed simp

lemma overlays_parts:
  "set (pd_DropHeaders (applyStateOverlays d s)) = set (ms_DropHeaders s) \<union> set (pd_DropHeaders d)"
  "pd_OutgoingHeaders (applyStateOverlays d s) = overlay_headers (ms_OutgoingHeaders s) (pd_OutgoingHeaders d)"
  by (simp_all add: applyStateOverlays_def Let_def fold_appendUnique)

section \<open>From the final stage to the wire\<close>

text \<open>No header of the map starts with an empty value.\<close>

definition first_values_set :: "headers \<Rightarrow> bool" where
  "first_values_set h \<longleftrightarrow> list_all (\<lambda>(k, vs). vs = [] \<or> hd vs \<noteq> []) h"

lemma first_values_set_get: "first_values_set h \<Longrightarrow> header_get h n = [] \<Longrightarrow> header_values h n = []"
  by (auto simp: first_values_set_def header_get_def header_values_def list_all_iff
      split: option.splits list.splits dest!: map_of_SomeD)

text \<open>The target the credential is minted for.\<close>

lemma forwarded_parts:
  assumes "buildFinalHandler fe (Some s) (Some a) m path query inbound providers = Forwarded d"
  obtains d0 tgt where "d = applyStateOverlays d0 s"
    "(pd_OutgoingHeaders d0, pd_DropHeaders d0) = resolveCredentialHeaders (required_headers (st_RequiredHeaders tgt))
       (ar_DropHeaders a) tgt (ar_Mode a) (ms_UpstreamCredentialOverride s) (header_get inbound HeaderAuthorization)"
    "case m of Some pm \<Rightarrow> tgt = passthrough_target pm
     | None \<Rightarrow> ResolveTarget (ms_Protocol s) (resolve_as s) (the (ar_Configuration a)) providers = Inr tgt"
proof (cases m)
  case (Some pm)
  then obtain d0 where d0: "buildPassthroughDestination (fe_parse fe) pm path (Some query) (ar_Mode a) (ar_DropHeaders a)
      (header_get inbound HeaderAuthorization) (ms_UpstreamCredentialOverride s) = Some d0"
    and d: "d = applyStateOverlays d0 s"
    using assms by (auto simp: buildFinalHandler_def internal_error_def split: option.splits)
  show thesis
    by (rule that [OF d, of "passthrough_target pm"])
       (use d0 Some in \<open>auto simp: buildPassthroughDestination_def passthrough_target_def Let_def split: option.splits prod.splits\<close>)
next
  case None
  with assms obtain cfg tgt d0 where cfg: "ar_Configuration a = Some cfg"
    and tgt: "ResolveTarget (ms_Protocol s) (resolve_as s) cfg providers = Inr tgt"
    and d0: "buildDestination (fe_parse fe) tgt (ms_PathParams s) (ar_Mode a) (ar_DropHeaders a)
      (header_get inbound HeaderAuthorization) (ms_UpstreamCredentialOverride s) = Some d0"
    and d: "d = applyStateOverlays d0 s"
    by (auto simp: buildFinalHandler_def internal_error_def translation_gate_def Let_def
        split: option.splits sum.splits if_splits)
  show thesis
    by (rule that [OF d, of tgt])
       (use d0 None cfg tgt in \<open>auto simp: buildDestination_def Let_def split: option.splits prod.splits\<close>)
qed

lemma forwarded_canonical:
  assumes "buildFinalHandler fe (Some s) (Some a) m path query inbound providers = Forwarded d"
  shows "canonical_headers (pd_OutgoingHeaders d)"
  using assms
proof (rule forwarded_parts)
  fix d0 tgt
  assume d: "d = applyStateOverlays d0 s" and r: "(pd_OutgoingHeaders d0, pd_DropHeaders d0) =
      resolveCredentialHeaders (required_headers (st_RequiredHeaders tgt)) (ar_DropHeaders a) tgt (ar_Mode a)
        (ms_UpstreamCredentialOverride s) (header_get inbound HeaderAuthorization)"
  show ?thesis
    unfolding d overlays_parts
    by (rule overlay_canonical) (metis fst_conv r required_canonical resolve_canonical)
qed

section \<open>Properties of the destination\<close>

text \<open>
  The states rules can leave: any actions, and the path and query a target of a walk stamps, applied
  to a state that sets no header yet.
\<close>

inductive rule_made :: "mutable_state \<Rightarrow> bool" where
  "ms_OutgoingHeaders s = [] \<Longrightarrow> rule_made s"
| "rule_made s \<Longrightarrow> rule_made (fst (snd (applyAction lib a s b)))"
| "rule_made s \<Longrightarrow> rule_made (s\<lparr>ms_TargetPath := p, ms_TargetQuery := q\<rparr>)"

lemma update_nonempty:
  "list_all (\<lambda>(k, vs). vs \<noteq> []) h \<Longrightarrow> v \<noteq> [] \<Longrightarrow> list_all (\<lambda>(k, vs). vs \<noteq> []) (AList.update k v h)"
  by (induction h) auto

lemma rule_made_values: "rule_made s \<Longrightarrow> list_all (\<lambda>(k, vs). vs \<noteq> []) (ms_OutgoingHeaders s)"
proof (induction rule: rule_made.induct)
  case (2 s lib a b)
  have "list_all (\<lambda>(k, vs). vs \<noteq> []) (header_del (ms_OutgoingHeaders s) n)" for n
    using 2(2) set_delete_subset [of "canonical_key n" "ms_OutgoingHeaders s"]
    unfolding header_del_def list_all_iff by blast
  with 2(2) show ?case
    by (cases a) (auto simp: apply_defs keep_body_def Let_def header_set_def update_nonempty AddTag_def
        UndropHeader_def DropHeader_def split: typed_body.splits sum.splits header_op.splits)
qed simp_all

text \<open>What is laid over the outgoing headers changes each name by its own values alone.\<close>

lemma overlay_pointwise:
  "map_of h (canonical_key n) = map_of h' (canonical_key n) \<Longrightarrow>
   map_of (overlay_headers rules h) (canonical_key n) = map_of (overlay_headers rules h') (canonical_key n)"
proof (induction rules arbitrary: h h')
  case (Cons kv rules)
  obtain k vs where kv: "kv = (k, vs)" by fastforce
  have one: "map_of (header_add g k v) (canonical_key n) = map_of (header_add g' k v) (canonical_key n)"
    if "map_of g (canonical_key n) = map_of g' (canonical_key n)" for g g' v
    using that by (auto simp: header_add_def header_values_def update_conv')
  have "map_of (fold (\<lambda>v h. header_add h k v) vs g) (canonical_key n) =
      map_of (fold (\<lambda>v h. header_add h k v) vs g') (canonical_key n)"
    if "map_of g (canonical_key n) = map_of g' (canonical_key n)" for g g'
    using that
  proof (induction vs arbitrary: g g')
    case (Cons v vs)
    show ?case unfolding fold_Cons comp_apply by (rule Cons.IH) (rule one [OF Cons.prems])
  qed simp
  note many = this
  have "map_of (header_del h k) (canonical_key n) = map_of (header_del h' k) (canonical_key n)"
    using Cons.prems by (simp add: header_del_def delete_conv')
  from Cons.IH [OF many [OF this]] show ?case unfolding kv fold_Cons comp_apply prod.case .
qed simp

lemma selectors_not_authorization:
  "n \<in> set passthroughDropHeaders \<Longrightarrow> canonical_key n \<noteq> canonical_key HeaderAuthorization"
  unfolding passthroughDropHeaders_def by (simp, elim disjE; hypsubst; code_simp)

lemma credentials_ignore_inbound:
  assumes "mode \<noteq> ModePassthrough \<and> ov \<noteq> Some [] \<or> canonical_key n \<noteq> canonical_key HeaderAuthorization"
  shows "map_of (fst (resolveCredentialHeaders out ds tgt mode ov auth)) (canonical_key n) =
    map_of (fst (resolveCredentialHeaders out ds tgt mode ov auth')) (canonical_key n)"
  using assms
  by (auto simp: resolveCredentialHeaders_def Let_def header_set_def update_conv' split: option.split prod.split)


text \<open>
  A managed request carries exactly the credential minted for the provider it is sent to. With
  a non-empty credential (a rule's literal key, else the configuration's), the header the provider
  reads it from holds that credential in the provider's format, and every other credential header
  is absent, provided neither the provider's required headers nor a rule name one of them.
\<close>

theorem managed_request_carries_minted_credential:
  assumes "buildFinalHandler fe (Some s) (Some a) None path query inbound providers = Forwarded d"
    and "ar_Mode a = ModeManaged" and "ar_Configuration a = Some cfg"
    and "ResolveTarget (ms_Protocol s) (resolve_as s) cfg providers = Inr tgt"
    and "cred = (case ms_UpstreamCredentialOverride s of Some key \<Rightarrow> key | None \<Rightarrow> st_Credential tgt)" and "cred \<noteq> []"
    and "credentialHeaderFor tgt cred = (name, v)"
    and "n \<in> set (name # credentialHeaderNames)"
    and "canonical_key n \<notin> canonical_key ` fst ` set (st_RequiredHeaders tgt @ map (\<lambda>(k, vs). (k, [])) (ms_OutgoingHeaders s))"
    and "first_values_set h"
  shows "header_values (rewrite_headers d h) n = (if canonical_key n = canonical_key name then [v] else [])"
proof -
  obtain d0 tgt' where d: "d = applyStateOverlays d0 s" and r: "(pd_OutgoingHeaders d0, pd_DropHeaders d0) =
      resolveCredentialHeaders (required_headers (st_RequiredHeaders tgt')) (ar_DropHeaders a) tgt' (ar_Mode a)
        (ms_UpstreamCredentialOverride s) (header_get inbound HeaderAuthorization)"
    and t: "ResolveTarget (ms_Protocol s) (resolve_as s) cfg providers = Inr tgt'"
    by (rule forwarded_parts [OF assms(1)], rule that, assumption, assumption, simp add: assms(3))
  have tgt: "tgt' = tgt" using t assms(4) by simp
  have req: "header_values (required_headers hs) n = []"
    if "canonical_key n \<notin> canonical_key ` fst ` set hs" for hs
  proof -
    have "header_values (fold (\<lambda>(k, v) h. header_set h k v) hs h0) n = header_values h0 n" for h0
      using that by (induction hs arbitrary: h0) (auto simp: header_laws)
    then show ?thesis by (simp add: required_headers_def header_values_def)
  qed
  have o: "pd_OutgoingHeaders d0 = header_set (required_headers (st_RequiredHeaders tgt)) name v"
    "pd_DropHeaders d0 = dropOtherCredentialHeaders (ar_DropHeaders a) name"
    using r assms(2,5-7) unfolding tgt
    by (auto simp: resolveCredentialHeaders_def Let_def split: option.splits)
  have k: "canonical_key n \<notin> canonical_key ` fst ` set (ms_OutgoingHeaders s)"
    using assms(9) by (force simp: image_iff)
  have out: "header_values (pd_OutgoingHeaders d) n = (if canonical_key n = canonical_key name then [v] else [])"
    unfolding d overlays_parts o overlay_untouched [OF k]
    using assms(9) req [of "st_RequiredHeaders tgt"] by (auto simp: header_laws)
  have "n \<in> set (alwaysDropHeaders @ pd_DropHeaders d) \<or> canonical_key n = canonical_key name"
    using dropOther_drops(2) [of n name "ar_DropHeaders a"] assms(8) by (auto simp: d overlays_parts o)
  then show ?thesis
    using out first_values_set_get [OF assms(10), of n]
    unfolding rewrite_headers_values [OF forwarded_canonical [OF assms(1)]]
    by (auto simp: has_header_def header_values_def split: option.splits if_splits)
qed

text \<open>
  A passthrough request keeps the caller's own credential: with no key set by a rule, the inbound
  \<^verbatim>\<open>Authorization\<close> goes upstream as it came, and so does every header that is neither on a drop list
  nor set by the provider or a rule.
\<close>

theorem passthrough_forwards_verbatim:
  assumes "buildFinalHandler fe (Some s) (Some a) m path query inbound providers = Forwarded d"
    and "ar_Mode a = ModePassthrough" and "ms_UpstreamCredentialOverride s = None"
    and "header_get inbound HeaderAuthorization \<noteq> []"
    and "HeaderAuthorization \<notin> canonical_key ` fst ` set (ms_OutgoingHeaders s)"
    and "\<not> has_header (pd_OutgoingHeaders d) n"
    and "canonical_key n \<notin> canonical_key ` set (alwaysDropHeaders @ pd_DropHeaders d)"
  shows "header_values (rewrite_headers d h) HeaderAuthorization = [header_get inbound HeaderAuthorization] \<and>
    header_values (rewrite_headers d h) n = header_values h n"
proof
  obtain d0 tgt where d: "d = applyStateOverlays d0 s" and r: "(pd_OutgoingHeaders d0, pd_DropHeaders d0) =
      resolveCredentialHeaders (required_headers (st_RequiredHeaders tgt)) (ar_DropHeaders a) tgt (ar_Mode a)
        (ms_UpstreamCredentialOverride s) (header_get inbound HeaderAuthorization)"
    using forwarded_parts [OF assms(1)] by metis
  have o: "pd_OutgoingHeaders d0 = header_set (required_headers (st_RequiredHeaders tgt)) HeaderAuthorization
      (header_get inbound HeaderAuthorization)"
    using r assms(2-4) by (simp add: resolveCredentialHeaders_def Let_def)
  have c: "canonical_key HeaderAuthorization = HeaderAuthorization" by (simp add: go_defs)
  have v: "header_values (pd_OutgoingHeaders d) HeaderAuthorization = [header_get inbound HeaderAuthorization]"
    using overlay_untouched [of HeaderAuthorization "ms_OutgoingHeaders s" "pd_OutgoingHeaders d0"] assms(5)
    by (simp add: d overlays_parts o header_laws c)
  then have "has_header (pd_OutgoingHeaders d) HeaderAuthorization"
    by (auto simp: has_header_def header_values_def split: option.splits)
  then show "header_values (rewrite_headers d h) HeaderAuthorization = [header_get inbound HeaderAuthorization]"
    using v unfolding rewrite_headers_values [OF forwarded_canonical [OF assms(1)]] by simp
  show "header_values (rewrite_headers d h) n = header_values h n"
    using assms(6,7) unfolding rewrite_headers_values [OF forwarded_canonical [OF assms(1)]] by simp
qed

section \<open>Query strings\<close>

lemma Encode_nonempty:
  assumes "values_of q k \<noteq> []"
  shows "Encode q \<noteq> []"
proof
  assume e: "Encode q = []"
  obtain vs where vs: "(k, vs) \<in> set q" "vs \<noteq> []"
    using assms by (auto simp: values_of_def split: option.splits dest: map_of_SomeD)
  then have "settings_of q \<noteq> []" by (force simp: settings_of_def)
  then obtain a b ps where "settings_of q = (a, b) # ps" by (metis list.exhaust surj_pair)
  then show False using e by (cases ps) (auto simp: Encode_def)
qed

lemma values_of_additions:
  "values_of (fold (\<lambda>a. values_Add (qa_Key a) (qa_Value a)) as q) k =
     values_of q k @ map qa_Value (filter (\<lambda>a. qa_Key a = k) as)"
  by (induction as arbitrary: q) (auto simp: values_of_Add)

lemma additions_distinct:
  "distinct (map fst q) \<Longrightarrow> distinct (map fst (fold (\<lambda>a. values_Add (qa_Key a) (qa_Value a)) as q))"
  by (induction as arbitrary: q) (simp_all add: values_distinct)

text \<open>
  Query parameters appended by rules arrive: what the upstream parses from the query it is sent
  is, key by key and in order, what the destination's own query says followed by the rules'
  additions, escaped and decoded without loss. The query of the inbound URL (part of \<open>inURL\<close>) plays
  no part in it.
\<close>

theorem query_additions_arrive:
  assumes "pd_UpstreamURL d = Some up" and "ms_QueryAdditions s \<noteq> []"
    and "pd_UpstreamURL (applyStateOverlays d s) = Some up'"
  shows "values_of (ParseQuery (u_RawQuery (rewriteURL inURL up'))) k =
    values_of (ParseQuery (u_RawQuery up)) k @ map qa_Value (filter (\<lambda>a. qa_Key a = k) (ms_QueryAdditions s))"
proof -
  let ?q = "fold (\<lambda>a. values_Add (qa_Key a) (qa_Value a)) (ms_QueryAdditions s) (ParseQuery (u_RawQuery up))"
  have up': "u_RawQuery up' = Encode ?q" using assms by (auto simp: applyStateOverlays_def Let_def)
  obtain a as where as: "ms_QueryAdditions s = a # as" using assms(2) by (cases "ms_QueryAdditions s") auto
  have "values_of ?q (qa_Key a) \<noteq> []" unfolding values_of_additions by (simp add: as)
  then have "u_RawQuery (rewriteURL inURL up') = Encode ?q" using Encode_nonempty up' by (simp add: rewriteURL_def)
  then show ?thesis
    using parse_encode [OF additions_distinct [OF ParseQuery_distinct]] by (simp add: values_of_additions)
qed

section \<open>Concrete requests\<close>

definition sample_url :: url where
  "sample_url = \<lparr>u_Scheme = ''https'', u_Host = ''a'', u_Path = [], u_RawPath = [], u_RawQuery = []\<rparr>"

definition sample_final_env :: final_env where
  "sample_final_env = \<lparr>fe_parse = (\<lambda>_. Some sample_url), fe_lookup = (\<lambda>_ _. None), fe_translate = (\<lambda>_ _. None)\<rparr>"

definition sample_selected :: mutable_state where
  "sample_selected = (NewMutableState ''openai'' ''chat'' [] [])\<lparr>
     ms_QueryAdditions := [\<lparr>qa_Key = ''tag'', qa_Value = ''a&b''\<rparr>]\<rparr>"

definition sample_auth :: "auth_mode \<Rightarrow> auth_result" where
  "sample_auth mode = \<lparr>ar_Mode = mode, ar_APIKey = Some sample_key, ar_Configuration = Some sample_configuration,
     ar_ConfigurationName = ''main'', ar_DropHeaders = passthroughDropHeaders @
       (if mode = ModeManaged then [HeaderAuthorization] else []),
     ar_LegacyConfigurationHeader = False\<rparr>"

definition sample_destination :: "auth_mode \<Rightarrow> proxy_destination" where
  "sample_destination mode =
     (case buildFinalHandler sample_final_env (Some sample_selected) (Some (sample_auth mode)) None [] []
             sample_inbound sample_providers of Forwarded d \<Rightarrow> d)"

definition sample_gateway :: auth_snapshot where
  "sample_gateway = sample_snapshot\<lparr>as_ConfigurationIndex := [''main'' \<mapsto> sample_configuration]\<rparr>"

lemmas sample_wire_defs = sample_url_def sample_final_env_def sample_selected_def sample_auth_def
  sample_destination_def sample_gateway_def sample_selection_defs NewMutableState_def

definition sample_resolved :: sel_target where
  "sample_resolved = \<lparr>st_Provider = ''openai'', st_Name = ''openai'', st_BaseURL = ''https://a'',
     st_Path = ''/v1/chat/completions'', st_Auth = None, st_RequiredHeaders = [], st_Query = [],
     st_Credential = ''k1'', st_Alias = [], st_Weight = 0, st_TimeoutSeconds = 0, st_PathOverride = [],
     st_QueryOverride = []\<rparr>"

lemma sample_resolves:
  "ResolveTarget (ms_Protocol sample_selected) (resolve_as sample_selected) sample_configuration sample_providers =
     Inr sample_resolved"
  by (simp add: ResolveTarget_def resolveTarget_def resolve_as_def translationActive_def mergeQuery_def
      sample_resolved_def sample_wire_defs)

lemma sample_forwarded:
  "buildFinalHandler sample_final_env (Some sample_selected) (Some (sample_auth mode)) None [] [] sample_inbound
     sample_providers = Forwarded (sample_destination mode)"
  using sample_resolves
  by (auto simp: sample_destination_def buildFinalHandler_def translation_gate_def translationActive_def
      sample_auth_def buildDestination_def sample_final_env_def sample_selected_def NewMutableState_def Let_def
      split: prod.split)

lemma sample_first_values: "first_values_set sample_inbound"
  by (simp add: first_values_set_def sample_inbound_def)

lemma canonical_names:
  "canonical_key ''Authorization'' = ''Authorization''" "canonical_key ''X-Api-Key'' = ''X-Api-Key''"
  "canonical_key HeaderIdentity = HeaderIdentity" "canonical_key HeaderConfiguration = HeaderConfiguration"
  "canonical_key LegacyHeaderIdentity = LegacyHeaderIdentity"
  "canonical_key LegacyHeaderConfiguration = LegacyHeaderConfiguration"
  "canonical_key ''Origin'' = ''Origin''" "canonical_key ''Referer'' = ''Referer''"
  "canonical_key ''Cookie'' = ''Cookie''" "canonical_key ''Accept-Encoding'' = ''Accept-Encoding''"
  by code_simp+

lemma sample_made: "rule_made sample_selected"
  by (rule rule_made.intros(1)) (simp add: sample_selected_def NewMutableState_def)


lemma managed_request_carries_minted_credential_witness:
  "header_values (rewrite_headers (sample_destination ModeManaged) sample_inbound) ''Authorization'' = [''Bearer k1''] \<and>
   header_values (rewrite_headers (sample_destination ModeManaged) sample_inbound) ''X-Api-Key'' = []"
proof -
  have "header_values (rewrite_headers (sample_destination ModeManaged) sample_inbound) n =
      (if canonical_key n = canonical_key ''Authorization'' then [''Bearer k1''] else [])"
    if "n \<in> set credentialHeaderNames" for n
    by (rule managed_request_carries_minted_credential [OF sample_forwarded _ _ sample_resolves refl _ _ _ _
          sample_first_values])
       (use that in \<open>simp_all add: sample_auth_def sample_selected_def NewMutableState_def sample_resolved_def
          credentialHeaderFor_def UpstreamCredentialHeader_def\<close>)
  from this [of "''Authorization''"] this [of "''X-Api-Key''"] show ?thesis
    by (simp add: credentialHeaderNames_def canonical_names)
qed

lemma passthrough_forwards_verbatim_witness:
  "header_values (rewrite_headers (sample_destination ModePassthrough) sample_inbound) ''Authorization'' =
     [''bearer sk_live_1''] \<and>
   header_values (rewrite_headers (sample_destination ModePassthrough) sample_inbound) ''X-Api-Key'' = [''other'']"
proof -
  have g: "header_get sample_inbound HeaderAuthorization = ''bearer sk_live_1''"
    "header_values sample_inbound ''X-Api-Key'' = [''other'']" by code_simp+
  have d: "pd_OutgoingHeaders (sample_destination ModePassthrough) = [(''Authorization'', [''bearer sk_live_1''])]"
    "pd_DropHeaders (sample_destination ModePassthrough) = passthroughDropHeaders"
    by code_simp+
  have "header_values (rewrite_headers (sample_destination ModePassthrough) sample_inbound) HeaderAuthorization =
      [header_get sample_inbound HeaderAuthorization] \<and>
    header_values (rewrite_headers (sample_destination ModePassthrough) sample_inbound) ''X-Api-Key'' =
      header_values sample_inbound ''X-Api-Key''"
    by (rule passthrough_forwards_verbatim [OF sample_forwarded])
       (simp_all add: sample_auth_def sample_selected_def NewMutableState_def g d has_header_def
          passthroughDropHeaders_def alwaysDropHeaders_def canonical_names)
  then show ?thesis by (simp add: g)
qed

lemma query_additions_arrive_witness:
  "values_of (ParseQuery (u_RawQuery (rewriteURL (sample_url\<lparr>u_RawQuery := ''alt=sse''\<rparr>)
     (the (pd_UpstreamURL (applyStateOverlays \<lparr>pd_BaseURL = None, pd_UpstreamURL = Some sample_url,
        pd_OutgoingHeaders = [], pd_DropHeaders = []\<rparr> sample_selected)))))) ''tag'' = [''a&b'']"
  by (subst query_additions_arrive [where up = sample_url and s = sample_selected and
        d = "\<lparr>pd_BaseURL = None, pd_UpstreamURL = Some sample_url, pd_OutgoingHeaders = [], pd_DropHeaders = []\<rparr>"])
     (simp_all add: applyStateOverlays_def sample_selected_def NewMutableState_def sample_url_def ParseQuery_def
       parse_setting_def values_of_def Let_def)

section \<open>Where the code falls short\<close>

text \<open>
  A drop looks at the first value only: a header whose first value is empty is forwarded whole,
  even when it is on the drop list, here the identity header with a live key as its second value.
\<close>

theorem empty_first_value_is_forwarded:
  "header_values (rewrite_headers \<lparr>pd_BaseURL = None, pd_UpstreamURL = Some sample_url, pd_OutgoingHeaders = [],
      pd_DropHeaders = passthroughDropHeaders\<rparr> [(''X-Slipspace-Identity'', [[], ''sk_live_1''])])
     HeaderIdentity = [[], ''sk_live_1'']"
  by code_simp

text \<open>
  Appending a query parameter can remove others: the inbound query is sent on when the
  destination has no query of its own, and is lost as soon as a rule appends a parameter.
\<close>

theorem appended_query_drops_inbound:
  "(let d = \<lparr>pd_BaseURL = None, pd_UpstreamURL = Some sample_url, pd_OutgoingHeaders = [], pd_DropHeaders = []\<rparr>;
        sent = (\<lambda>s. u_RawQuery (rewriteURL (sample_url\<lparr>u_RawQuery := ''alt=sse''\<rparr>)
                  (the (pd_UpstreamURL (applyStateOverlays d s)))))
    in sent (sample_selected\<lparr>ms_QueryAdditions := []\<rparr>) = ''alt=sse'' \<and> sent sample_selected = ''tag=a%26b'')"
  by code_simp

text \<open>
  The substituted path can depend on the order in which Go ranges over the parameters: a model
  segment that spells another placeholder is itself replaced in one order and not in the other.
\<close>

theorem substitution_depends_on_order:
  "substitutePlaceholders ''/v1beta/models/{model}:{op}'' [(''model'', ''{op}''), (''op'', ''generateContent'')] =
     ''/v1beta/models/generateContent:generateContent'' \<and>
   substitutePlaceholders ''/v1beta/models/{model}:{op}'' [(''op'', ''generateContent''), (''model'', ''{op}'')] =
     ''/v1beta/models/{op}:generateContent'' \<and>
   ProtocolForPath ''/v1beta/models/{op}:generateContent'' =
     Some (''generate_content'', [(''model'', ''{op}''), (''op'', ''generateContent'')])"
  by code_simp

end
