(* ===== verification/Pricing.thy ===== *)
theory Pricing
  imports Prelude
begin

text \<open>
  Rate cards: the \<^verbatim>\<open>pricing\<close> block with its validation (\<^verbatim>\<open>contracts/config/pricing.go\<close>) and the
  table of \<^verbatim>\<open>internal/pricing/pricing.go\<close>: compilation, the choice of the entry that prices a request,
  and the split of its token counts into the quantities that are billed. The embedded defaults are an
  argument. Prices are only compared here; the products of prices and counts are not modelled.
\<close>

section \<open>Schema\<close>

record rates =
  rt_Input :: f64
  rt_Output :: f64
  rt_CacheRead :: f64
  rt_CacheWrite5m :: f64
  rt_CacheWrite1h :: f64
  rt_AudioInput :: f64
  rt_AudioOutput :: f64

record long_context_pricing =
  lc_Threshold :: int
  lc_PerMTok :: rates

record model_pricing =
  mp_Match :: string
  mp_Provider :: string
  mp_EffectiveFrom :: string
  mp_PerMTok :: rates
  mp_LongContext :: "long_context_pricing option"
  mp_Tiers :: "f64 gomap"
  mp_Geos :: "f64 gomap"
  mp_ToolCalls :: "f64 gomap"

record pricing =
  pr_Enabled :: "bool option"
  pr_UseDefaults :: "bool option"
  pr_Models :: "model_pricing list"

definition pricing_On :: "pricing option \<Rightarrow> bool" where
  "pricing_On p = (case p of None \<Rightarrow> False | Some c \<Rightarrow> pr_Enabled c \<in> {None, Some True})"

definition DefaultsOn :: "pricing option \<Rightarrow> bool" where
  "DefaultsOn p = (case p of None \<Rightarrow> False | Some c \<Rightarrow> pr_UseDefaults c \<in> {None, Some True})"

section \<open>Dates\<close>

text \<open>
  \<^verbatim>\<open>time.Parse("2006-01-02", s)\<close>. An instant is its distance from the zero \<^verbatim>\<open>time.Time\<close> (the start of
  year 1 in UTC) in nanoseconds.
\<close>

definition leap_year :: "int \<Rightarrow> bool" where
  "leap_year y \<longleftrightarrow> y mod 4 = 0 \<and> (y mod 100 \<noteq> 0 \<or> y mod 400 = 0)"

definition days_in :: "int \<Rightarrow> nat \<Rightarrow> int" where
  "days_in y m = (if m = 2 \<and> leap_year y then 29
     else [31, 28, 31, 30, 31, 30, 31, 31, 30, 31, 30, 31] ! (m - 1))"

definition days_before :: "int \<Rightarrow> nat \<Rightarrow> int" where
  "days_before y m = sum_list (map (days_in y) [1 ..< m])"

definition civil_days :: "int \<Rightarrow> nat \<Rightarrow> int \<Rightarrow> int" where
  "civil_days y m d =
     365 * (y - 1) + (y - 1) div 4 - (y - 1) div 100 + (y - 1) div 400 + days_before y m + d - 1"

definition parse_date :: "string \<Rightarrow> int option" where
  "parse_date s =
     (if length s = 10 \<and> s ! 4 = CHR ''-'' \<and> s ! 7 = CHR ''-'' \<and>
         list_all is_digit_ascii (take 4 s @ take 2 (drop 5 s) @ drop 8 s)
      then let y = int (number_value (take 4 s));
               m = number_value (take 2 (drop 5 s));
               d = int (number_value (drop 8 s))
           in if 1 \<le> m \<and> m \<le> 12 \<and> 1 \<le> d \<and> d \<le> days_in y m
              then Some (civil_days y m d * 86400000000000) else None
      else None)"

section \<open>Validation\<close>

datatype pricing_error = PrMatchRequired | PrEffectiveFrom | PrNegative | PrThreshold

definition negative :: "f64 \<Rightarrow> bool" where
  "negative v = f64_less v (Fin 0)"

definition rates_validate :: "rates \<Rightarrow> pricing_error option" where
  "rates_validate r =
     (if list_ex negative [rt_Input r, rt_Output r, rt_CacheRead r, rt_CacheWrite5m r, rt_CacheWrite1h r,
           rt_AudioInput r, rt_AudioOutput r]
      then Some PrNegative else None)"

definition model_pricing_validate :: "model_pricing \<Rightarrow> pricing_error option" where
  "model_pricing_validate m =
     (if mp_Match m = [] then Some PrMatchRequired
      else if mp_EffectiveFrom m \<noteq> [] \<and> parse_date (mp_EffectiveFrom m) = None then Some PrEffectiveFrom
      else case rates_validate (mp_PerMTok m) of
             Some e \<Rightarrow> Some e
           | None \<Rightarrow>
               (case (case mp_LongContext m of
                        None \<Rightarrow> None
                      | Some lc \<Rightarrow> if lc_Threshold lc \<le> 0 then Some PrThreshold
                                   else rates_validate (lc_PerMTok lc)) of
                  Some e \<Rightarrow> Some e
                | None \<Rightarrow>
                    if list_ex (\<lambda>(k, v). negative v) (mp_Tiers m @ mp_Geos m @ mp_ToolCalls m)
                    then Some PrNegative else None))"

definition pricing_Validate :: "pricing option \<Rightarrow> pricing_error option" where
  "pricing_Validate p =
     (case p of None \<Rightarrow> None | Some c \<Rightarrow> first_error model_pricing_validate (pr_Models c))"

section \<open>The table\<close>

record rate_entry =
  re_prefix :: string
  re_exact :: bool
  re_provider :: string
  re_from :: int
  re_m :: model_pricing

record rate_table =
  rb_entries :: "rate_entry list"
  rb_version :: string

definition compile_entry :: "model_pricing \<Rightarrow> rate_entry" where
  "compile_entry m =
     (let star = has_suffix (mp_Match m) ''*''
      in \<lparr>re_prefix = (if star then take (length (mp_Match m) - 1) (mp_Match m) else mp_Match m),
          re_exact = (\<not> star), re_provider = mp_Provider m,
          re_from = (if mp_EffectiveFrom m \<noteq> []
                     then (case parse_date (mp_EffectiveFrom m) of Some ts \<Rightarrow> ts | None \<Rightarrow> 0) else 0),
          re_m = m\<rparr>)"

definition compile :: "model_pricing list \<Rightarrow> rate_entry list" where
  "compile ms = map compile_entry ms"

definition New_table :: "string \<Rightarrow> model_pricing list \<Rightarrow> pricing option \<Rightarrow> rate_table" where
  "New_table defaultsVersion defaults cfg =
     (let own = (case cfg of None \<Rightarrow> [] | Some c \<Rightarrow> pr_Models c);
          base = (if DefaultsOn cfg then compile defaults else []);
          version = (if DefaultsOn cfg
                     then (if own \<noteq> [] then defaultsVersion @ ''+overrides'' else defaultsVersion)
                     else ''custom'')
      in \<lparr>rb_entries = sort_key (\<lambda>e. - int (length (re_prefix e))) (base @ compile own),
          rb_version = version\<rparr>)"

definition entry_applies :: "string \<Rightarrow> string \<Rightarrow> int \<Rightarrow> rate_entry \<Rightarrow> bool" where
  "entry_applies pv model now e \<longleftrightarrow>
     (re_provider e = [] \<or> re_provider e = pv) \<and>
     (if re_exact e then model = re_prefix e else has_prefix model (re_prefix e)) \<and>
     (re_from e = 0 \<or> re_from e \<le> now)"

text \<open>The loop over the sorted entries; \<open>best\<close> is the entry found so far.\<close>

fun match_loop ::
  "string \<Rightarrow> string \<Rightarrow> int \<Rightarrow> rate_entry list \<Rightarrow> rate_entry option \<Rightarrow> rate_entry option" where
  "match_loop pv model now [] best = best"
| "match_loop pv model now (e # es) best =
     (if \<not> entry_applies pv model now e then match_loop pv model now es best
      else case best of
             None \<Rightarrow> match_loop pv model now es (Some e)
           | Some b \<Rightarrow>
               if length (re_prefix e) < length (re_prefix b) then best
               else if re_from b \<le> re_from e then match_loop pv model now es (Some e)
               else match_loop pv model now es best)"

definition table_match :: "rate_table option \<Rightarrow> string \<Rightarrow> string \<Rightarrow> int \<Rightarrow> model_pricing option" where
  "table_match t pv model now =
     (case t of
        None \<Rightarrow> None
      | Some tb \<Rightarrow> if model = [] then None
                   else map_option re_m (match_loop pv model now (rb_entries tb) None))"

section \<open>Billed quantities\<close>

record cost_input =
  ci_In :: int
  ci_Out :: int
  ci_Cached :: int
  ci_CacheCreation :: int
  ci_CacheCreation5m :: int
  ci_CacheCreation1h :: int
  ci_InputAudio :: int
  ci_OutputAudio :: int

record billed =
  bl_inText :: int
  bl_inAudio :: int
  bl_outText :: int
  bl_outAudio :: int
  bl_cached :: int
  bl_write5m :: int
  bl_write1h :: int

definition clamp :: "int \<Rightarrow> int" where
  "clamp v = (if v < 0 then 0 else v)"

definition billed_of :: "cost_input \<Rightarrow> billed" where
  "billed_of i =
     (let uncached = clamp (ci_In i - ci_Cached i - ci_CacheCreation i);
          inAudio = min (ci_InputAudio i) uncached;
          outAudio = min (ci_OutputAudio i) (ci_Out i);
          flat = (ci_CacheCreation5m i = 0 \<and> ci_CacheCreation1h i = 0)
      in \<lparr>bl_inText = uncached - inAudio, bl_inAudio = inAudio,
          bl_outText = ci_Out i - outAudio, bl_outAudio = outAudio, bl_cached = ci_Cached i,
          bl_write5m = (if flat then ci_CacheCreation i else ci_CacheCreation5m i),
          bl_write1h = ci_CacheCreation1h i\<rparr>)"

text \<open>The rates that apply: above the threshold, the long-context rates where they are set.\<close>

definition pick_rate :: "f64 \<Rightarrow> f64 \<Rightarrow> f64" where
  "pick_rate over def = (if f64_less (Fin 0) over then over else def)"

definition mergeRates :: "rates \<Rightarrow> rates \<Rightarrow> rates" where
  "mergeRates base lc =
     \<lparr>rt_Input = pick_rate (rt_Input lc) (rt_Input base),
      rt_Output = pick_rate (rt_Output lc) (rt_Output base),
      rt_CacheRead = pick_rate (rt_CacheRead lc) (rt_CacheRead base),
      rt_CacheWrite5m = pick_rate (rt_CacheWrite5m lc) (rt_CacheWrite5m base),
      rt_CacheWrite1h = pick_rate (rt_CacheWrite1h lc) (rt_CacheWrite1h base),
      rt_AudioInput = pick_rate (rt_AudioInput lc) (rt_AudioInput base),
      rt_AudioOutput = pick_rate (rt_AudioOutput lc) (rt_AudioOutput base)\<rparr>"

definition request_rates :: "model_pricing \<Rightarrow> int \<Rightarrow> rates" where
  "request_rates m grossIn =
     (case mp_LongContext m of
        Some lc \<Rightarrow> if lc_Threshold lc < grossIn then mergeRates (mp_PerMTok m) (lc_PerMTok lc) else mp_PerMTok m
      | None \<Rightarrow> mp_PerMTok m)"

definition multiplier :: "f64 gomap \<Rightarrow> string \<Rightarrow> f64" where
  "multiplier m key =
     (if key = [] then Fin 1 else case map_of m key of Some v \<Rightarrow> v | None \<Rightarrow> Fin 1)"

section \<open>Which entry wins\<close>

definition entry_le :: "rate_entry \<Rightarrow> rate_entry \<Rightarrow> bool" where
  "entry_le a b \<longleftrightarrow> length (re_prefix a) < length (re_prefix b) \<or>
     length (re_prefix a) = length (re_prefix b) \<and> re_from a \<le> re_from b"

text \<open>The last of the entries that no other one beats.\<close>

definition last_best :: "rate_entry list \<Rightarrow> rate_entry option" where
  "last_best cs =
     (if cs = [] then None else Some (last (filter (\<lambda>e. list_all (\<lambda>c. entry_le c e) cs) cs)))"

lemma entry_le_trans: "entry_le a b \<Longrightarrow> entry_le b c \<Longrightarrow> entry_le a c"
  by (auto simp: entry_le_def)

lemma entry_le_total: "entry_le a b \<or> entry_le b a"
  by (auto simp: entry_le_def)

lemma entry_le_refl [simp]: "entry_le a a"
  by (simp add: entry_le_def)

lemma best_exists:
  assumes "cs \<noteq> []"
  shows "\<exists>e \<in> set cs. \<forall>c \<in> set cs. entry_le c e"
  using assms
proof (induction cs)
  case (Cons x xs)
  show ?case
  proof (cases "xs = []")
    case False
    with Cons.IH obtain e where e: "e \<in> set xs" "\<forall>c \<in> set xs. entry_le c e" by blast
    show ?thesis
    proof (cases "entry_le x e")
      case False
      then have "entry_le e x" using entry_le_total by blast
      then show ?thesis using e by (auto intro: entry_le_trans)
    qed (use e in auto)
  qed simp
qed simp

lemma best_nonempty:
  assumes "cs \<noteq> []"
  shows "filter (\<lambda>e. list_all (\<lambda>c. entry_le c e) cs) cs \<noteq> []"
  using best_exists [OF assms] by (auto simp: filter_empty_conv list_all_iff)

lemma last_best_step:
  "last_best (b # e # cs) = last_best ((if entry_le b e then e else b) # cs)"
proof (cases "entry_le b e")
  case True
  have m: "list_all (\<lambda>c. entry_le c x) (b # e # cs) \<longleftrightarrow> list_all (\<lambda>c. entry_le c x) (e # cs)" for x
    using True entry_le_trans by auto
  have "filter (\<lambda>x. list_all (\<lambda>c. entry_le c x) (e # cs)) (e # cs) \<noteq> []" by (rule best_nonempty) simp
  then show ?thesis unfolding last_best_def m using True by auto
next
  case False
  then have eb: "entry_le e b" using entry_le_total by blast
  have m: "list_all (\<lambda>c. entry_le c x) (b # e # cs) \<longleftrightarrow> list_all (\<lambda>c. entry_le c x) (b # cs)" for x
    using eb entry_le_trans by auto
  show ?thesis unfolding last_best_def m using False by simp
qed

lemma last_best_drop:
  assumes "\<And>c. c \<in> set cs \<Longrightarrow> length (re_prefix c) < length (re_prefix b)"
  shows "last_best (b # cs) = Some b"
proof -
  have "filter (\<lambda>e. list_all (\<lambda>c. entry_le c e) (b # cs)) cs = []"
    by (auto simp: filter_empty_conv entry_le_def dest: assms)
  moreover have "list_all (\<lambda>c. entry_le c b) cs" using assms by (auto simp: list_all_iff entry_le_def)
  ultimately show ?thesis by (simp add: last_best_def)
qed

lemma match_loop_best:
  assumes "sorted_wrt (\<lambda>a b. length (re_prefix b) \<le> length (re_prefix a)) es"
    and "\<And>b. best = Some b \<Longrightarrow> list_all (\<lambda>e. length (re_prefix e) \<le> length (re_prefix b)) es"
  shows "match_loop pv model now es best =
    last_best ((case best of None \<Rightarrow> [] | Some b \<Rightarrow> [b]) @ filter (entry_applies pv model now) es)"
  using assms
proof (induction es arbitrary: best)
  case Nil
  show ?case by (cases best) (simp_all add: last_best_def)
next
  case (Cons e es)
  have s: "sorted_wrt (\<lambda>a b. length (re_prefix b) \<le> length (re_prefix a)) es"
    and le: "\<And>x. x \<in> set es \<Longrightarrow> length (re_prefix x) \<le> length (re_prefix e)"
    using Cons.prems(1) by simp_all
  have b: "list_all (\<lambda>x. length (re_prefix x) \<le> length (re_prefix b)) es" "length (re_prefix e) \<le> length (re_prefix b)"
    if "best = Some b" for b using Cons.prems(2) [OF that] by simp_all
  have IHe: "match_loop pv model now es (Some e) = last_best (e # filter (entry_applies pv model now) es)"
    using Cons.IH [OF s, of "Some e"] le by (auto simp: list_all_iff)
  have IHb: "match_loop pv model now es best =
      last_best ((case best of None \<Rightarrow> [] | Some b \<Rightarrow> [b]) @ filter (entry_applies pv model now) es)"
    by (rule Cons.IH [OF s b(1)])
  show ?case
  proof (cases "entry_applies pv model now e")
    case True
    show ?thesis
    proof (cases best)
      case (Some c)
      show ?thesis
      proof (cases "length (re_prefix e) < length (re_prefix c)")
        case True
        then have "last_best (c # filter (entry_applies pv model now) (e # es)) = Some c"
          by (intro last_best_drop) (auto dest!: le split: if_splits)
        then show ?thesis using True Some \<open>entry_applies pv model now e\<close> by simp
      next
        case False
        then have "entry_le c e \<longleftrightarrow> re_from c \<le> re_from e" using b(2) [OF Some] by (auto simp: entry_le_def)
        then show ?thesis using False Some \<open>entry_applies pv model now e\<close> IHe IHb by (simp add: last_best_step)
      qed
    qed (use True IHe in simp)
  qed (use IHb in simp)
qed

lemma sort_key_same:
  assumes "\<And>x y. x \<in> set xs \<Longrightarrow> y \<in> set xs \<Longrightarrow> f x = f y"
  shows "sort_key f xs = xs"
proof (cases xs)
  case (Cons x ys)
  have "filter (\<lambda>y. f y = f x) (sort_key f xs) = filter (\<lambda>y. f y = f x) xs" by (rule sort_key_stable)
  then show ?thesis using assms Cons by (metis (mono_tags, lifting) filter_True list.set_intros(1) set_sort)
qed simp

lemma last_best_sort:
  "last_best (sort_key (\<lambda>e. - int (length (re_prefix e))) cs) = last_best cs"
proof -
  let ?f = "\<lambda>e. - int (length (re_prefix e))" and ?M = "\<lambda>e. list_all (\<lambda>c. entry_le c e) cs"
  have "sort_key ?f (filter ?M cs) = filter ?M cs"
    by (rule sort_key_same) (force simp: list_all_iff entry_le_def)
  moreover have "list_all (\<lambda>c. entry_le c e) (sort_key ?f cs) = ?M e" for e by (simp add: list_all_iff)
  moreover have "sort_key ?f cs = [] \<longleftrightarrow> cs = []" by (metis length_0_conv length_sort)
  ultimately show ?thesis by (simp add: last_best_def filter_sort)
qed

lemma New_table_sorted:
  "sorted_wrt (\<lambda>a b. length (re_prefix b) \<le> length (re_prefix a)) (rb_entries (New_table dv ds cfg))"
proof -
  have "sorted (map (\<lambda>e. - int (length (re_prefix e))) (rb_entries (New_table dv ds cfg)))"
    by (simp add: New_table_def Let_def)
  then show ?thesis by (simp add: sorted_map sorted_wrt_iff_nth_less)
qed

text \<open>The rows in the order they are compiled: the embedded card, then the operator's rows.\<close>

definition card_rows :: "model_pricing list \<Rightarrow> pricing option \<Rightarrow> rate_entry list" where
  "card_rows ds cfg =
     (if DefaultsOn cfg then compile ds else []) @ compile (case cfg of None \<Rightarrow> [] | Some c \<Rightarrow> pr_Models c)"

text \<open>
  The lookup over the sorted table, which stops at the first shorter pattern, picks the row that
  the rule of the rate card names: of the rows that apply to the provider, the model and the date, the
  one with the longest pattern, then the latest effective date, then the last in card order, so that an
  operator's row wins every full tie. No row is chosen exactly when none applies or the model is empty.
\<close>

theorem lookup_picks_the_best_row:
  "table_match (Some (New_table dv ds cfg)) pv model now =
     (if model = [] then None
      else map_option re_m (last_best (filter (entry_applies pv model now) (card_rows ds cfg))))"
proof -
  have "rb_entries (New_table dv ds cfg) = sort_key (\<lambda>e. - int (length (re_prefix e))) (card_rows ds cfg)"
    by (simp add: New_table_def card_rows_def Let_def)
  then have "match_loop pv model now (rb_entries (New_table dv ds cfg)) None =
      last_best (filter (entry_applies pv model now) (card_rows ds cfg))"
    using match_loop_best [OF New_table_sorted [of dv ds cfg], of None pv model now]
    by (simp add: filter_sort last_best_sort)
  then show ?thesis by (simp add: table_match_def)
qed

text \<open>
  For counts that are not negative, no billed quantity is negative, the output parts add up to
  the output count, and the input parts to the gross input less what the cache buckets take, or to
  nothing when these exceed it.
\<close>

theorem billed_parts_add_up:
  assumes "0 \<le> ci_Out i" "0 \<le> ci_Cached i" "0 \<le> ci_CacheCreation i" "0 \<le> ci_CacheCreation5m i"
    "0 \<le> ci_CacheCreation1h i" "0 \<le> ci_InputAudio i" "0 \<le> ci_OutputAudio i"
  shows "list_all (\<lambda>q. 0 \<le> q (billed_of i))
      [bl_inText, bl_inAudio, bl_outText, bl_outAudio, bl_cached, bl_write5m, bl_write1h] \<and>
    bl_outText (billed_of i) + bl_outAudio (billed_of i) = ci_Out i \<and>
    bl_inText (billed_of i) + bl_inAudio (billed_of i) = max 0 (ci_In i - ci_Cached i - ci_CacheCreation i)"
  using assms by (auto simp: billed_of_def Let_def clamp_def)

definition sample_usage :: cost_input where
  "sample_usage = \<lparr>ci_In = 100, ci_Out = 20, ci_Cached = 30, ci_CacheCreation = 10, ci_CacheCreation5m = 0,
     ci_CacheCreation1h = 0, ci_InputAudio = 80, ci_OutputAudio = 5\<rparr>"

theorem billed_parts_add_up_witness:
  "bl_inText (billed_of sample_usage) + bl_inAudio (billed_of sample_usage) = 60 \<and>
   0 \<le> bl_inText (billed_of sample_usage)"
  using billed_parts_add_up [of sample_usage] by (simp add: sample_usage_def)

definition card_row :: "string \<Rightarrow> f64 \<Rightarrow> model_pricing" where
  "card_row pat price =
     \<lparr>mp_Match = pat, mp_Provider = [], mp_EffectiveFrom = [],
      mp_PerMTok = \<lparr>rt_Input = price, rt_Output = price, rt_CacheRead = Fin 0, rt_CacheWrite5m = Fin 0,
        rt_CacheWrite1h = Fin 0, rt_AudioInput = Fin 0, rt_AudioOutput = Fin 0\<rparr>,
      mp_LongContext = None, mp_Tiers = [], mp_Geos = [], mp_ToolCalls = []\<rparr>"

text \<open>
  An operator's row that matches the model does not always win: a longer pattern of the embedded
  card still prices the request.
\<close>

theorem embedded_row_beats_operator:
  "table_match (Some (New_table ''v'' [card_row ''gpt-4o*'' (Fin 2)]
     (Some \<lparr>pr_Enabled = None, pr_UseDefaults = None, pr_Models = [card_row ''gpt-*'' (Fin 1)]\<rparr>)))
     ''openai'' ''gpt-4o-mini'' 0 = Some (card_row ''gpt-4o*'' (Fin 2))"
  by code_simp

end
