(* ===== verification/Ip_Address.thy ===== *)
theory Ip_Address
  imports Prelude
begin

text \<open>
  What the connector validation uses of package \<^verbatim>\<open>net\<close>: \<^verbatim>\<open>ParseIP\<close> and the address classes of
  \<^verbatim>\<open>net.IP\<close>. An address is its sixteen bytes; an IPv4 address is in its mapped form.
\<close>

section \<open>Parsing\<close>

definition decimal_octet :: "string \<Rightarrow> nat option" where
  "decimal_octet s =
     (if s \<noteq> [] \<and> list_all is_digit_ascii s \<and> (hd s = CHR ''0'' \<longrightarrow> length s = 1) \<and> length s \<le> 3 \<and>
         number_value s \<le> 255
      then Some (number_value s) else None)"

definition parse_ipv4_fields :: "string \<Rightarrow> nat list option" where
  "parse_ipv4_fields s =
     (case map decimal_octet (split_on CHR ''.'' s) of
        [Some a, Some b, Some c, Some d] \<Rightarrow> Some [a, b, c, d]
      | _ \<Rightarrow> None)"

definition hex_digit_value :: "char \<Rightarrow> nat" where
  "hex_digit_value c =
     (if is_digit_ascii c then of_char c - 48
      else if is_lower_ascii c then of_char c - 87 else of_char c - 55)"

definition is_hex :: "char \<Rightarrow> bool" where
  "is_hex c \<longleftrightarrow> is_digit_ascii c \<or> (CHR ''a'' \<le> c \<and> c \<le> CHR ''f'') \<or> (CHR ''A'' \<le> c \<and> c \<le> CHR ''F'')"

definition hex_group :: "string \<Rightarrow> nat" where
  "hex_group s = fold (\<lambda>c n. 16 * n + hex_digit_value c) s 0"

text \<open>
  The loop over the 16-bit groups of an IPv6 address; \<open>acc\<close> are the bytes so far and \<open>ell\<close> the
  position of the ellipsis. Each round takes a group, so eight rounds are enough.
\<close>

fun ipv6_groups :: "nat \<Rightarrow> nat list \<Rightarrow> nat option \<Rightarrow> string \<Rightarrow> (nat list \<times> nat option \<times> string) option" where
  "ipv6_groups 0 acc ell s = Some (acc, ell, s)"
| "ipv6_groups (Suc k) acc ell s =
     (let g = takeWhile is_hex s;
          r = dropWhile is_hex s
      in if g = [] \<or> 4 < length g then None
         else if has_prefix r ''.'' then
           (if (ell = None \<and> length acc \<noteq> 12) \<or> 16 < length acc + 4 then None
            else map_option (\<lambda>f. (acc @ f, ell, [])) (parse_ipv4_fields s))
         else let acc' = acc @ [hex_group g div 256, hex_group g mod 256]
              in case r of
                   [] \<Rightarrow> Some (acc', ell, [])
                 | c # t \<Rightarrow>
                     if c \<noteq> CHR '':'' \<or> t = [] then None
                     else if hd t \<noteq> CHR '':'' then ipv6_groups k acc' ell t
                     else if ell \<noteq> None then None
                     else if tl t = [] then Some (acc', Some (length acc'), [])
                     else ipv6_groups k acc' (Some (length acc')) (tl t))"

definition expand_ellipsis :: "nat list \<Rightarrow> nat option \<Rightarrow> nat list option" where
  "expand_ellipsis acc ell =
     (case ell of
        None \<Rightarrow> if length acc = 16 then Some acc else None
      | Some e \<Rightarrow> if length acc < 16 then Some (take e acc @ replicate (16 - length acc) 0 @ drop e acc) else None)"

definition parse_ipv6 :: "string \<Rightarrow> nat list option" where
  "parse_ipv6 s =
     (if s = ''::'' then Some (replicate 16 0)
      else case (if has_prefix s ''::'' then ipv6_groups 8 [] (Some 0) (drop 2 s) else ipv6_groups 8 [] None s) of
             Some (acc, ell, []) \<Rightarrow> expand_ellipsis acc ell
           | _ \<Rightarrow> None)"

definition v4_mapped :: "nat list \<Rightarrow> nat list" where
  "v4_mapped b = replicate 10 0 @ [255, 255] @ b"

text \<open>
  \<^verbatim>\<open>net.ParseIP\<close>. The first \<^verbatim>\<open>.\<close>, \<^verbatim>\<open>:\<close> or \<^verbatim>\<open>%\<close> decides the syntax; an address with a zone is
  not accepted.
\<close>

definition ParseIP :: "string \<Rightarrow> nat list option" where
  "ParseIP s =
     (case filter (\<lambda>c. c \<in> {CHR ''.'', CHR '':'', CHR ''%''}) s of
        [] \<Rightarrow> None
      | c # _ \<Rightarrow>
          if c = CHR ''.'' then map_option v4_mapped (parse_ipv4_fields s)
          else if c = CHR ''%'' \<or> CHR ''%'' \<in> set s then None
          else parse_ipv6 s)"

section \<open>Address classes\<close>

definition To4 :: "nat list \<Rightarrow> nat list option" where
  "To4 ip = (if take 12 ip = replicate 10 0 @ [255, 255] then Some (drop 12 ip) else None)"

definition IsLoopback :: "nat list \<Rightarrow> bool" where
  "IsLoopback ip = (case To4 ip of Some b \<Rightarrow> b ! 0 = 127 | None \<Rightarrow> ip = replicate 15 0 @ [1])"

definition IsPrivate :: "nat list \<Rightarrow> bool" where
  "IsPrivate ip =
     (case To4 ip of
        Some b \<Rightarrow> b ! 0 = 10 \<or> (b ! 0 = 172 \<and> b ! 1 div 16 = 1) \<or> (b ! 0 = 192 \<and> b ! 1 = 168)
      | None \<Rightarrow> ip ! 0 div 2 = 126)"

definition IsLinkLocalUnicast :: "nat list \<Rightarrow> bool" where
  "IsLinkLocalUnicast ip =
     (case To4 ip of
        Some b \<Rightarrow> b ! 0 = 169 \<and> b ! 1 = 254
      | None \<Rightarrow> ip ! 0 = 254 \<and> ip ! 1 div 64 = 2)"

definition IsUnspecified :: "nat list \<Rightarrow> bool" where
  "IsUnspecified ip \<longleftrightarrow> ip = v4_mapped [0, 0, 0, 0] \<or> ip = replicate 16 0"

definition IsMulticast :: "nat list \<Rightarrow> bool" where
  "IsMulticast ip = (case To4 ip of Some b \<Rightarrow> b ! 0 div 16 = 14 | None \<Rightarrow> ip ! 0 = 255)"

definition IsLinkLocalMulticast :: "nat list \<Rightarrow> bool" where
  "IsLinkLocalMulticast ip =
     (case To4 ip of
        Some b \<Rightarrow> b ! 0 = 224 \<and> b ! 1 = 0 \<and> b ! 2 = 0
      | None \<Rightarrow> ip ! 0 = 255 \<and> ip ! 1 mod 16 = 2)"

section \<open>Rendering and parsing an IPv4 address\<close>

definition dotted :: "nat list \<Rightarrow> string" where
  "dotted b = join_with ''.'' (map itoa b)"

lemma decimal_octet_itoa:
  assumes "n \<le> 255"
  shows "decimal_octet (itoa n) = Some n"
proof -
  have nz: "itoa n \<noteq> [] \<and> (hd (itoa n) = CHR ''0'' \<longrightarrow> n = 0)" for n
  proof (induction n rule: itoa.induct)
    case (1 n)
    show ?case
    proof (cases "n < 10")
      case True
      then have "digit_char n = CHR ''0'' \<longrightarrow> n = 0"
        by (auto simp: digit_char_def numeral_eq_Suc less_Suc_eq)
      then show ?thesis using True by (subst (1 2) itoa.simps) simp
    next
      case False
      then show ?thesis using 1 by (subst (1 2) itoa.simps) auto
    qed
  qed
  have len: "length (itoa n) \<le> 3"
    using assms by (subst itoa.simps, simp, subst itoa.simps, simp, subst itoa.simps, simp)
  have zero: "length (itoa 0) = 1" by (simp add: itoa.simps)
  show ?thesis
    using nz [of n] len zero assms by (auto simp: decimal_octet_def number_value_itoa itoa_digits)
qed

end
