(* ===== verification/Connector_Schema.thy ===== *)
theory Connector_Schema
  imports Config_Schema Url_Query Ip_Address
begin

text \<open>
  Connectors: the schema of \<^verbatim>\<open>contracts/config/connectors.go\<close> and the load-time checks of
  \<^verbatim>\<open>contracts/config/connectors_validate.go\<close>. An error is the fixed part of its message; every one
  of them wraps the one sentinel \<^verbatim>\<open>ErrConnectorValidation\<close>. The environment of the checks is
  \<^verbatim>\<open>url.Parse\<close> and the value of \<^verbatim>\<open>SLIPSPACE_WEBHOOK_ALLOW_PRIVATE\<close>.
\<close>

section \<open>Schema\<close>

record connector_auth =
  ca_Mode :: string
  ca_AccessKeyIDRef :: string
  ca_SecretAccessKeyRef :: string
  ca_RoleARN :: string
  ca_ExternalIDRef :: string
  ca_SASTokenRef :: string
  ca_AccountKeyRef :: string

record connector_rotation =
  cr_MaxBytes :: int
  cr_MaxAgeSeconds :: int

record connector =
  cn_Name :: string
  cn_Type :: string
  cn_Auth :: "connector_auth option"
  cn_Rotation :: "connector_rotation option"
  cn_UploadTimeoutSeconds :: int
  cn_Bucket :: string
  cn_Prefix :: string
  cn_Region :: string
  cn_EndpointURL :: string
  cn_UsePathStyle :: bool
  cn_Account :: string
  cn_Container :: string
  cn_URL :: string
  cn_SecretRef :: string
  cn_GatewayID :: string
  cn_TimeoutMS :: int

record connector_env =
  ce_lib :: golib
  ce_parse :: "string \<Rightarrow> url option"
  ce_allow_private :: string

definition DefaultMaxBodyBytes :: "string \<Rightarrow> int" where
  "DefaultMaxBodyBytes connectorType = 0"

definition DefaultUploadTimeoutSeconds :: int where
  "DefaultUploadTimeoutSeconds = 60"

definition EffectiveUploadTimeoutSeconds :: "connector option \<Rightarrow> int" where
  "EffectiveUploadTimeoutSeconds c =
     (case c of
        None \<Rightarrow> DefaultUploadTimeoutSeconds
      | Some x \<Rightarrow> if cn_UploadTimeoutSeconds x \<le> 0 then DefaultUploadTimeoutSeconds
                  else cn_UploadTimeoutSeconds x)"

definition SamplingRate :: "connector_binding option \<Rightarrow> f64" where
  "SamplingRate b =
     (case b of None \<Rightarrow> Fin 1 | Some x \<Rightarrow> (case cb_Sampling x of None \<Rightarrow> Fin 1 | Some s \<Rightarrow> s))"

section \<open>Secret references\<close>

definition validateSecretRef :: "string \<Rightarrow> string option" where
  "validateSecretRef ref =
     (if has_prefix ref ''env:''
      then (if drop 4 ref = [] then Some ''env: prefix requires a non-empty variable name'' else None)
      else if has_prefix ref ''file:''
      then (if drop 5 ref = [] then Some ''file: prefix requires a non-empty path'' else None)
      else Some ''must start with env: or file:'')"

definition hasAnyRef :: "string list \<Rightarrow> bool" where
  "hasAnyRef refs = list_ex (\<lambda>r. r \<noteq> []) refs"

section \<open>Hosts\<close>

definition webhookAllowPrivateNetworks :: "connector_env \<Rightarrow> bool" where
  "webhookAllowPrivateNetworks env =
     (let v = to_lower (ce_lib env) (trim_space (ce_allow_private env)) in v = ''1'' \<or> v = ''true'')"

definition trim_suffix :: "string \<Rightarrow> string \<Rightarrow> string" where
  "trim_suffix s p = (if has_suffix s p then take (length s - length p) s else s)"

definition trim_prefix :: "string \<Rightarrow> string \<Rightarrow> string" where
  "trim_prefix s p = (if has_prefix s p then drop (length p) s else s)"

definition denied_address :: "nat list \<Rightarrow> bool" where
  "denied_address ip \<longleftrightarrow>
     IsLoopback ip \<or> IsPrivate ip \<or> IsLinkLocalUnicast ip \<or> IsUnspecified ip \<or> IsMulticast ip \<or>
     IsLinkLocalMulticast ip"

definition rejectLocalOrPrivateHost :: "string \<Rightarrow> string option" where
  "rejectLocalOrPrivateHost host =
     (if host = [] then Some ''url has no host''
      else if equal_fold host ''localhost'' then Some ''url host must not be localhost''
      else (case ParseIP (trim_prefix (trim_suffix host '']'') ''['') of
              Some ip \<Rightarrow> if denied_address ip then Some ''url host is a denied address'' else None
            | None \<Rightarrow> None))"

section \<open>Credentials\<close>

definition validateS3Auth :: "connector \<Rightarrow> string option" where
  "validateS3Auth c =
     (case cn_Auth c of
        None \<Rightarrow> None
      | Some a \<Rightarrow>
          if ca_Mode a = ''workload_identity'' \<or> ca_Mode a = [] then
            (if hasAnyRef [ca_AccessKeyIDRef a, ca_SecretAccessKeyRef a, ca_RoleARN a, ca_ExternalIDRef a,
                  ca_SASTokenRef a, ca_AccountKeyRef a]
             then Some ''auth.mode=workload_identity must leave credential refs unset'' else None)
          else if ca_Mode a = ''static'' then
            (if ca_AccessKeyIDRef a = [] \<or> ca_SecretAccessKeyRef a = []
             then Some ''auth.mode=static requires access_key_id_ref and secret_access_key_ref''
             else case validateSecretRef (ca_AccessKeyIDRef a) of
                    Some e \<Rightarrow> Some (''auth.access_key_id_ref: '' @ e)
                  | None \<Rightarrow>
                      (case validateSecretRef (ca_SecretAccessKeyRef a) of
                         Some e \<Rightarrow> Some (''auth.secret_access_key_ref: '' @ e)
                       | None \<Rightarrow>
                           if ca_SASTokenRef a \<noteq> [] \<or> ca_AccountKeyRef a \<noteq> []
                           then Some ''auth.sas_token_ref/account_key_ref are azure_blob fields'' else None))
          else if ca_Mode a = ''assume_role'' then
            (if ca_RoleARN a = [] then Some ''auth.mode=assume_role requires role_arn''
             else if ca_ExternalIDRef a \<noteq> [] then
               map_option (\<lambda>e. ''auth.external_id_ref: '' @ e) (validateSecretRef (ca_ExternalIDRef a))
             else None)
          else Some ''auth.mode invalid for s3'')"

definition validateAzureAuth :: "connector \<Rightarrow> string option" where
  "validateAzureAuth c =
     (case cn_Auth c of
        None \<Rightarrow> None
      | Some a \<Rightarrow>
          if ca_Mode a = ''workload_identity'' \<or> ca_Mode a = [] then
            (if hasAnyRef [ca_SASTokenRef a, ca_AccountKeyRef a, ca_AccessKeyIDRef a, ca_SecretAccessKeyRef a,
                  ca_RoleARN a, ca_ExternalIDRef a]
             then Some ''auth.mode=workload_identity must leave credential refs unset'' else None)
          else if ca_Mode a = ''sas_token'' then
            (if ca_SASTokenRef a = [] then Some ''auth.mode=sas_token requires sas_token_ref''
             else map_option (\<lambda>e. ''auth.sas_token_ref: '' @ e) (validateSecretRef (ca_SASTokenRef a)))
          else if ca_Mode a = ''account_key'' then
            (if ca_AccountKeyRef a = [] then Some ''auth.mode=account_key requires account_key_ref''
             else map_option (\<lambda>e. ''auth.account_key_ref: '' @ e) (validateSecretRef (ca_AccountKeyRef a)))
          else Some ''auth.mode invalid for azure_blob'')"

section \<open>The checks by type\<close>

definition validateUploadTimeout :: "connector \<Rightarrow> string option" where
  "validateUploadTimeout c =
     (if cn_UploadTimeoutSeconds c < 0 then Some ''upload_timeout_seconds must be >= 0'' else None)"

definition webhook_fields :: "connector \<Rightarrow> bool" where
  "webhook_fields c \<longleftrightarrow> cn_URL c \<noteq> [] \<or> cn_SecretRef c \<noteq> [] \<or> cn_TimeoutMS c \<noteq> 0 \<or> cn_GatewayID c \<noteq> []"

definition validateS3 :: "connector_env \<Rightarrow> connector \<Rightarrow> string option" where
  "validateS3 env c =
     (if cn_Bucket c = [] then Some ''bucket is required''
      else if cn_Region c = [] then Some ''region is required''
      else if cn_Account c \<noteq> [] \<or> cn_Container c \<noteq> []
      then Some ''account/container are azure_blob fields, not s3''
      else if webhook_fields c then Some ''url/secret_ref/gateway_id/timeout_ms are webhook fields, not s3''
      else if cn_EndpointURL c \<noteq> [] \<and> ce_parse env (cn_EndpointURL c) = None
      then Some ''endpoint_url is not a valid URL''
      else case validateUploadTimeout c of Some e \<Rightarrow> Some e | None \<Rightarrow> validateS3Auth c)"

definition validateAzureBlob :: "connector \<Rightarrow> string option" where
  "validateAzureBlob c =
     (if cn_Account c = [] then Some ''account is required''
      else if cn_Container c = [] then Some ''container is required''
      else if cn_Bucket c \<noteq> [] \<or> cn_Region c \<noteq> [] \<or> cn_EndpointURL c \<noteq> [] \<or> cn_UsePathStyle c
      then Some ''bucket/region/endpoint_url/use_path_style are s3 fields, not azure_blob''
      else if webhook_fields c then Some ''url/secret_ref/gateway_id/timeout_ms are webhook fields, not azure_blob''
      else case validateUploadTimeout c of Some e \<Rightarrow> Some e | None \<Rightarrow> validateAzureAuth c)"

definition validateWebhook :: "connector_env \<Rightarrow> connector \<Rightarrow> string option" where
  "validateWebhook env c =
     (if cn_URL c = [] then Some ''url is required''
      else case ce_parse env (cn_URL c) of
        None \<Rightarrow> Some ''url is not a valid URL''
      | Some parsed \<Rightarrow>
          if u_Scheme parsed \<noteq> ''https'' \<and> u_Scheme parsed \<noteq> ''http'' then Some ''url scheme must be http or https''
          else case (if webhookAllowPrivateNetworks env then None
                     else rejectLocalOrPrivateHost (url_Hostname parsed)) of
            Some e \<Rightarrow> Some e
          | None \<Rightarrow>
              if cn_SecretRef c = [] then Some ''secret_ref is required (HMAC signing key)''
              else case validateSecretRef (cn_SecretRef c) of
                Some e \<Rightarrow> Some (''secret_ref: '' @ e)
              | None \<Rightarrow>
                  if cn_TimeoutMS c \<le> 0 \<or> 60000 < cn_TimeoutMS c then Some ''timeout_ms must be in (0, 60000]''
                  else if cn_Bucket c \<noteq> [] \<or> cn_Region c \<noteq> [] \<or> cn_EndpointURL c \<noteq> [] \<or> cn_UsePathStyle c \<or>
                     cn_Account c \<noteq> [] \<or> cn_Container c \<noteq> []
                  then Some ''cloud-storage fields not allowed on webhook''
                  else if cn_Auth c \<noteq> None then Some ''auth block does not apply to webhook''
                  else if cn_Rotation c \<noteq> None then Some ''rotation block does not apply to webhook''
                  else if cn_UploadTimeoutSeconds c \<noteq> 0
                  then Some ''upload_timeout_seconds does not apply to webhook'' else None)"

definition connector_Validate :: "connector_env \<Rightarrow> connector option \<Rightarrow> string option" where
  "connector_Validate env co =
     (case co of
        None \<Rightarrow> Some ''nil Connector''
      | Some c \<Rightarrow>
          if cn_Name c = [] then Some ''name is required''
          else if cn_Type c = ''s3'' then validateS3 env c
          else if cn_Type c = ''azure_blob'' then validateAzureBlob c
          else if cn_Type c = ''webhook'' then validateWebhook env c
          else if cn_Type c = [] then Some ''type is required''
          else Some ''unknown type'')"

section \<open>Bindings\<close>

definition count_stars :: "string \<Rightarrow> nat" where
  "count_stars s = length (filter (\<lambda>c. c = CHR ''*'') s)"

definition filter_Validate :: "connector_filter option \<Rightarrow> string option" where
  "filter_Validate fo =
     (case fo of
        None \<Rightarrow> None
      | Some f \<Rightarrow>
          (let statusMin = (if cf_StatusMin f = 0 then 200 else cf_StatusMin f);
               statusMax = (if cf_StatusMax f = 0 then 599 else cf_StatusMax f)
           in if statusMin < 100 \<or> 599 < statusMin then Some ''status_min out of range''
              else if statusMax < 100 \<or> 599 < statusMax then Some ''status_max out of range''
              else if statusMax < statusMin then Some ''status_min > status_max''
              else first_error (\<lambda>m.
                if 1 < count_stars m then Some ''multiple wildcards''
                else if CHR ''*'' \<in> set m \<and> \<not> has_suffix m ''*'' then Some ''non-trailing wildcard''
                else None) (cf_Models f)))"

definition binding_Validate :: "connector_binding option \<Rightarrow> string option" where
  "binding_Validate bo =
     (case bo of
        None \<Rightarrow> Some ''nil ConnectorBinding''
      | Some b \<Rightarrow>
          if cb_Connector b = [] then Some ''binding.connector is required''
          else if (case cb_Sampling b of None \<Rightarrow> False | Some s \<Rightarrow> f64_less s (Fin 0) \<or> f64_less (Fin 1) s)
          then Some ''sampling must be in [0, 1]''
          else if cb_SamplingKey b \<notin> {[], ''correlation_id'', ''random''} then Some ''sampling_key invalid''
          else if cb_OversizeBehaviour b \<notin> {[], ''metadata_only'', ''drop_record''}
          then Some ''oversize_behaviour invalid''
          else if (case cb_MaxBodyBytes b of None \<Rightarrow> False | Some n \<Rightarrow> n < 0)
          then Some ''max_body_bytes cannot be negative''
          else filter_Validate (cb_Filter b))"

section \<open>IPv4 literals\<close>

lemma dotted_chars: "c \<in> set (dotted b) \<Longrightarrow> is_digit_ascii c \<or> c = CHR ''.''"
proof -
  have "c \<in> set (join_with s xs) \<Longrightarrow> c \<in> set s \<or> (\<exists>x \<in> set xs. c \<in> set x)" for s xs
    by (induction s xs rule: join_with.induct) auto
  then show "c \<in> set (dotted b) \<Longrightarrow> is_digit_ascii c \<or> c = CHR ''.''"
    using itoa_digits unfolding dotted_def list_all_iff by fastforce
qed

lemma parse_dotted:
  assumes "list_all (\<lambda>n. n \<le> 255) [a, b, c, d]"
  shows "parse_ipv4_fields (dotted [a, b, c, d]) = Some [a, b, c, d]"
proof -
  have "CHR ''.'' \<notin> set (itoa n)" for n using itoa_digits [of n] by (auto simp: list_all_iff go_defs)
  then have "split_on CHR ''.'' (dotted [a, b, c, d]) = map itoa [a, b, c, d]"
    unfolding dotted_def by (intro split_join) auto
  then show ?thesis using assms by (simp add: parse_ipv4_fields_def decimal_octet_itoa)
qed

lemma ParseIP_dotted:
  assumes "list_all (\<lambda>n. n \<le> 255) [a, b, c, d]"
  shows "ParseIP (dotted [a, b, c, d]) = Some (v4_mapped [a, b, c, d])"
proof -
  let ?s = "filter (\<lambda>c. c \<in> {CHR ''.'', CHR '':'', CHR ''%''}) (dotted [a, b, c, d])"
  have "CHR ''.'' \<in> set (dotted [a, b, c, d])" by (simp add: dotted_def)
  then have "?s \<noteq> []" by (auto simp: filter_empty_conv)
  moreover have "\<forall>x \<in> set ?s. x = CHR ''.''" using dotted_chars by (fastforce simp: go_defs)
  ultimately obtain r where "?s = CHR ''.'' # r" by (metis list.exhaust list.set_intros(1))
  then show ?thesis using parse_dotted [OF assms] by (simp add: ParseIP_def)
qed

lemma trim_dotted: "trim_prefix (trim_suffix (dotted b) '']'') ''['' = dotted b"
proof -
  have "CHR '']'' \<notin> set (dotted b)" "CHR ''['' \<notin> set (dotted b)"
    using dotted_chars [of _ b] by (fastforce simp: go_defs)+
  then have "\<not> has_suffix (dotted b) '']''" "\<not> has_prefix (dotted b) ''[''"
    by (metis has_suffix_iff in_set_conv_decomp, metis prefix_def append_Cons list.set_intros(1))
  then show ?thesis by (simp add: trim_prefix_def trim_suffix_def)
qed

lemma To4_mapped: "To4 (v4_mapped b) = Some b"
  by (simp add: To4_def v4_mapped_def)

lemma mapped_not_zero: "v4_mapped b \<noteq> replicate 16 0"
proof
  assume "v4_mapped b = replicate 16 0"
  then have "v4_mapped b ! 10 = replicate 16 0 ! 10" by simp
  then show False by (simp add: v4_mapped_def nth_append)
qed

lemma denied_v4:
  "denied_address (v4_mapped [a, b, c, d]) \<longleftrightarrow>
     a = 127 \<or> a = 10 \<or> (a = 172 \<and> b div 16 = 1) \<or> (a = 192 \<and> b = 168) \<or> (a = 169 \<and> b = 254) \<or>
     [a, b, c, d] = [0, 0, 0, 0] \<or> a div 16 = 14"
proof -
  have "IsUnspecified (v4_mapped [a, b, c, d]) \<longleftrightarrow> [a, b, c, d] = [0, 0, 0, 0]"
    unfolding IsUnspecified_def using mapped_not_zero by (simp add: v4_mapped_def)
  then show ?thesis
    unfolding denied_address_def IsLoopback_def IsPrivate_def IsLinkLocalUnicast_def
      IsMulticast_def IsLinkLocalMulticast_def To4_mapped option.case by auto
qed

lemma validateWebhook_None:
  assumes "validateWebhook env c = None"
  obtains u where "ce_parse env (cn_URL c) = Some u" "u_Scheme u = ''https'' \<or> u_Scheme u = ''http''"
    "webhookAllowPrivateNetworks env \<or> rejectLocalOrPrivateHost (url_Hostname u) = None"
    "validateSecretRef (cn_SecretRef c) = None" "0 < cn_TimeoutMS c" "cn_TimeoutMS c \<le> 60000" "cn_Auth c = None"
  using assms that
  by (auto simp: validateWebhook_def not_le split: if_splits option.splits)

section \<open>Properties\<close>

text \<open>
  The load-time guard against internal targets: an accepted webhook (with the test escape
  switched off) has an \<^verbatim>\<open>http\<close> or \<^verbatim>\<open>https\<close> URL with a host that is not \<^verbatim>\<open>localhost\<close> in any case, and
  when the host is an IPv4 literal it is not loopback, private, link-local, multicast or
  unspecified. Its signing key is a reference to the environment or a file, never a literal, and its
  timeout is at most a minute.
\<close>

theorem webhook_host_not_internal:
  assumes "connector_Validate env (Some c) = None" and "cn_Type c = ''webhook''"
    and "\<not> webhookAllowPrivateNetworks env"
  shows "\<exists>u. ce_parse env (cn_URL c) = Some u \<and> (u_Scheme u = ''https'' \<or> u_Scheme u = ''http'') \<and>
    url_Hostname u \<noteq> [] \<and> \<not> equal_fold (url_Hostname u) ''localhost'' \<and>
    (\<forall>b0 b1 b2 b3. list_all (\<lambda>n. n \<le> 255) [b0, b1, b2, b3] \<and> url_Hostname u = dotted [b0, b1, b2, b3] \<longrightarrow>
       \<not> (b0 = 127 \<or> b0 = 10 \<or> (b0 = 172 \<and> b1 div 16 = 1) \<or> (b0 = 192 \<and> b1 = 168) \<or>
          (b0 = 169 \<and> b1 = 254) \<or> [b0, b1, b2, b3] = [0, 0, 0, 0] \<or> b0 div 16 = 14)) \<and>
    (\<exists>r. r \<noteq> [] \<and> (cn_SecretRef c = ''env:'' @ r \<or> cn_SecretRef c = ''file:'' @ r)) \<and>
    0 < cn_TimeoutMS c \<and> cn_TimeoutMS c \<le> 60000"
proof -
  have "validateWebhook env c = None" using assms(1,2) by (simp add: connector_Validate_def split: if_splits)
  then obtain u where u: "ce_parse env (cn_URL c) = Some u" "u_Scheme u = ''https'' \<or> u_Scheme u = ''http''"
    "rejectLocalOrPrivateHost (url_Hostname u) = None"
    "validateSecretRef (cn_SecretRef c) = None" "0 < cn_TimeoutMS c" "cn_TimeoutMS c \<le> 60000"
    using assms(3) by (elim validateWebhook_None) blast
  have "url_Hostname u \<noteq> []" "\<not> equal_fold (url_Hostname u) ''localhost''"
    and ip: "\<And>x. ParseIP (trim_prefix (trim_suffix (url_Hostname u) '']'') ''['') = Some x \<Longrightarrow> \<not> denied_address x"
    using u(3) by (auto simp: rejectLocalOrPrivateHost_def split: if_splits)
  moreover have "\<not> denied_address (v4_mapped [b0, b1, b2, b3])"
    if "list_all (\<lambda>n. n \<le> 255) [b0, b1, b2, b3]" "url_Hostname u = dotted [b0, b1, b2, b3]" for b0 b1 b2 b3
    by (rule ip) (simp only: that(2) trim_dotted ParseIP_dotted [OF that(1)])
  moreover have "\<exists>r. r \<noteq> [] \<and> (cn_SecretRef c = ''env:'' @ r \<or> cn_SecretRef c = ''file:'' @ r)"
    using u(4) by (auto simp: validateSecretRef_def prefix_def split: if_splits)
  ultimately show ?thesis using u unfolding denied_v4 by blast
qed

definition sample_webhook :: connector where
  "sample_webhook =
     \<lparr>cn_Name = ''hook'', cn_Type = ''webhook'', cn_Auth = None, cn_Rotation = None, cn_UploadTimeoutSeconds = 0,
      cn_Bucket = [], cn_Prefix = [], cn_Region = [], cn_EndpointURL = [], cn_UsePathStyle = False,
      cn_Account = [], cn_Container = [], cn_URL = ''https://192.0.2.7:8443/in'', cn_SecretRef = ''env:HOOK_KEY'',
      cn_GatewayID = [], cn_TimeoutMS = 5000\<rparr>"

definition sample_connector_env :: connector_env where
  "sample_connector_env =
     \<lparr>ce_lib = ascii_lib,
      ce_parse = (\<lambda>s. Some \<lparr>u_Scheme = ''https'', u_Host = ''192.0.2.7:8443'', u_Path = ''/in'', u_RawPath = [],
        u_RawQuery = []\<rparr>),
      ce_allow_private = []\<rparr>"

lemma webhook_host_not_internal_witness:
  "\<exists>u. ce_parse sample_connector_env (cn_URL sample_webhook) = Some u \<and> url_Hostname u = dotted [192, 0, 2, 7] \<and>
     \<not> equal_fold (url_Hostname u) ''localhost''"
proof -
  have "connector_Validate sample_connector_env (Some sample_webhook) = None" by code_simp
  moreover have "cn_Type sample_webhook = ''webhook''" by (simp add: sample_webhook_def)
  moreover have "\<not> webhookAllowPrivateNetworks sample_connector_env" by code_simp
  moreover have "url_Hostname \<lparr>u_Scheme = ''https'', u_Host = ''192.0.2.7:8443'', u_Path = ''/in'', u_RawPath = [],
        u_RawQuery = []\<rparr> = dotted [192, 0, 2, 7]" by code_simp
  ultimately show ?thesis using webhook_host_not_internal [of sample_connector_env sample_webhook]
    by (auto simp: sample_connector_env_def)
qed

text \<open>
  What the guard lets through: an address of \<^verbatim>\<open>0.0.0.0/8\<close> other than the unspecified one, the
  IPv6 loopback address with a zone, and a name under \<^verbatim>\<open>localhost\<close> with a final dot, while the plain
  forms are refused.
\<close>

theorem webhook_guard_gaps:
  "rejectLocalOrPrivateHost ''0.0.0.1'' = None \<and> rejectLocalOrPrivateHost ''::1%lo'' = None \<and>
   rejectLocalOrPrivateHost ''localhost.'' = None \<and> rejectLocalOrPrivateHost ''::1'' \<noteq> None \<and>
   rejectLocalOrPrivateHost ''127.0.0.1'' \<noteq> None \<and> rejectLocalOrPrivateHost ''LocalHost'' \<noteq> None"
  by code_simp

text \<open>An inline secret in a field its mode does not read is accepted.\<close>

lemma unread_inline_secret_accepted:
  "validateS3Auth (sample_webhook\<lparr>cn_Auth := Some \<lparr>ca_Mode = ''assume_role'', ca_AccessKeyIDRef = [],
     ca_SecretAccessKeyRef = ''wJalrXUtnFEMI'', ca_RoleARN = ''arn:x'', ca_ExternalIDRef = [], ca_SASTokenRef = [],
     ca_AccountKeyRef = []\<rparr>\<rparr>) = None"
  by (simp add: validateS3Auth_def)

end
