(* ===== verification/Config_Validate.thy ===== *)
theory Config_Validate
  imports Connector_Schema Rule_Engine Passthrough Pricing Auth_Resolver
begin

text \<open>
  The resolved configuration of \<^verbatim>\<open>internal/config\<close>: its blocks and indexes, the load-time validation
  (\<^verbatim>\<open>config_validate.go\<close>), the merge of the files of a directory and the indexes
  (\<^verbatim>\<open>config_model.go\<close>), cloning and revalidation (\<^verbatim>\<open>config_clone.go\<close>). The advisors of
  \<^verbatim>\<open>contracts/config/advisors.go\<close> are declared here. A Go map the validation ranges over is an
  association list; \<^verbatim>\<open>admin\<close> and \<^verbatim>\<open>telemetry\<close> are opaque.
\<close>

section \<open>State\<close>

record advisor =
  ad_Endpoint :: string
  ad_HMACSecretFile :: string
  ad_GatewayID :: string
  ad_TimeoutMs :: int

record resolved_config =
  rv_Providers :: "provider gomap"
  rv_Groups :: "config_group gomap"
  rv_Configurations :: "configuration gomap"
  rv_APIKeys :: "api_key list"
  rv_Rules :: "rule_contract list"
  rv_Connectors :: "connector list"
  rv_Admin :: "string option"
  rv_Telemetry :: "string option"
  rv_Advisors :: "advisor gomap"
  rv_Pricing :: "pricing option"
  rv_PricingTable :: "rate_table option"
  rv_SecretIndex :: "string \<rightharpoonup> api_key"
  rv_ConfigurationIndex :: "string \<rightharpoonup> configuration"
  rv_RuleIndex :: "string \<rightharpoonup> rule_contract"
  rv_PerConfigurationRules :: "string \<rightharpoonup> rule_contract list"
  rv_ConnectorIndex :: "string \<rightharpoonup> connector"
  rv_SourceFiles :: "string gomap"

datatype config_error =
    ErrNoConfigurations
  | ErrValidation string
  | ErrInvalidPolicy resilience_error
  | ErrInvalidPricing pricing_error
  | ErrDuplicateRuleName
  | ErrInvalidRule rule_error
  | ErrRetiredEndpointCondition
  | ErrDuplicateConnectorName
  | ErrInvalidConnector string
  | ErrUnknownConfigurationRef
  | ErrUnknownRuleName
  | ErrUnknownConnectorReference
  | ErrDuplicateKey

definition check :: "bool \<Rightarrow> string \<Rightarrow> config_error option" where
  "check bad msg = (if bad then Some (ErrValidation msg) else None)"

text \<open>The first error of two checks in sequence.\<close>

definition and_then :: "'e option \<Rightarrow> 'e option \<Rightarrow> 'e option" where
  "and_then a b = (case a of Some e \<Rightarrow> Some e | None \<Rightarrow> b)"

lemma and_then_None [simp]: "and_then a b = None \<longleftrightarrow> a = None \<and> b = None"
  by (simp add: and_then_def split: option.split)

lemma check_None [simp]: "check bad msg = None \<longleftrightarrow> \<not> bad"
  by (simp add: check_def)

section \<open>Advisors\<close>

definition advisor_Validate :: "connector_env \<Rightarrow> advisor \<Rightarrow> config_error option" where
  "advisor_Validate env a =
     and_then (check (ad_Endpoint a = []) ''endpoint missing'')
    (and_then (case ce_parse env (ad_Endpoint a) of
                 None \<Rightarrow> Some (ErrValidation ''endpoint invalid'')
               | Some u \<Rightarrow> check (u_Scheme u = [] \<or> u_Host u = []) ''endpoint invalid'')
    (and_then (check (ad_HMACSecretFile a = []) ''hmac_secret_file missing'')
              (check (ad_GatewayID a = []) ''gateway_id missing'')))"

definition validateAdvisors :: "connector_env \<Rightarrow> resolved_config \<Rightarrow> config_error option" where
  "validateAdvisors env r =
     and_then (first_error (\<lambda>(name, a). advisor_Validate env a) (rv_Advisors r))
       (first_error (\<lambda>(name, cfg).
          case cfg_AgentRouting cfg of
            None \<Rightarrow> None
          | Some ar \<Rightarrow>
              and_then (check (map_of (rv_Advisors r) (ag_Advisor ar) = None) ''agent_routing advisor unknown'')
                       (check (ag_AllowModels ar = []) ''agent_routing allow_models empty''))
         (rv_Configurations r))"

section \<open>Providers\<close>

definition knownProtocols :: "string list" where
  "knownProtocols = [''chat'', ''responses'', ''messages'', ''generate_content'', ''embeddings'']"

definition validIdentifier :: "string \<Rightarrow> bool" where
  "validIdentifier name =
     (case name of
        [] \<Rightarrow> False
      | c # s \<Rightarrow>
          (is_lower_ascii c \<or> is_upper_ascii c \<or> is_digit_ascii c) \<and>
          list_all (\<lambda>d. is_lower_ascii d \<or> is_upper_ascii d \<or> is_digit_ascii d \<or>
                        d = CHR ''.'' \<or> d = CHR ''_'' \<or> d = CHR ''-'') s)"

text \<open>\<^verbatim>\<open>strings.Count\<close> of a non-empty substring: \<open>skip\<close> bytes belong to the last occurrence.\<close>

fun count_from :: "nat \<Rightarrow> string \<Rightarrow> string \<Rightarrow> nat" where
  "count_from skip [] p = 0"
| "count_from (Suc k) (c # s) p = count_from k s p"
| "count_from 0 (c # s) p =
     (if has_prefix (c # s) p then Suc (count_from (length p - 1) s p) else count_from 0 s p)"

definition validateAuth :: "provider_auth option \<Rightarrow> config_error option" where
  "validateAuth a =
     (case a of
        None \<Rightarrow> None
      | Some x \<Rightarrow>
          if pa_Format x \<noteq> [] then
            and_then (check (pa_Header x = []) ''auth.format without auth.header'')
                     (check (count_from 0 (pa_Format x) ''{key}'' \<noteq> 1) ''auth.format needs one {key}'')
          else None)"

definition validate_provider :: "string \<times> provider \<Rightarrow> config_error option" where
  "validate_provider = (\<lambda>(name, be).
     and_then (check (\<not> validIdentifier name) ''provider name'')
    (and_then (check (pv_BaseURL be = []) ''base_url is required'')
    (and_then (check (pv_Protocols be = [] \<and> pv_Passthrough be = []) ''no protocols or passthrough families'')
    (and_then (first_error (\<lambda>(proto, def).
                 and_then (check (proto \<notin> set knownProtocols) ''unknown protocol'') (validateAuth (pp_Auth def)))
                 (pv_Protocols be))
              (first_error (\<lambda>(fam, def).
                 and_then (check (pf_Paths def = []) ''declares no paths'')
                (and_then (first_error (\<lambda>p.
                             and_then (check (ptp_Match p = []) ''match is required'')
                                      (check (ptp_Methods p = []) ''methods is required'')) (pf_Paths def))
                          (validateAuth (pf_Auth def))))
                 (pv_Passthrough be))))))"

definition validateProviders :: "resolved_config \<Rightarrow> config_error option" where
  "validateProviders r = first_error validate_provider (rv_Providers r)"

section \<open>Groups\<close>

definition sameTargetUse :: "config_target \<Rightarrow> config_target \<Rightarrow> bool" where
  "sameTargetUse a b \<longleftrightarrow>
     ct_Provider a = ct_Provider b \<and> ct_Alias a = ct_Alias b \<and> ct_Path a = ct_Path b \<and>
     maps_equal (ct_Query a) (ct_Query b)"

text \<open>The loop over the targets; \<open>prev\<close> are the targets before.\<close>

fun validate_group_targets ::
  "provider gomap \<Rightarrow> config_target list \<Rightarrow> config_target list \<Rightarrow> config_error option" where
  "validate_group_targets providers prev [] = None"
| "validate_group_targets providers prev (t # ts) =
     and_then (check (ct_Provider t = []) ''provider is required'')
    (and_then (check (map_of providers (ct_Provider t) = None) ''unknown provider'')
    (and_then (check (list_ex (\<lambda>p. sameTargetUse p t) prev) ''target already listed'')
              (validate_group_targets providers (prev @ [t]) ts)))"

definition validate_group :: "provider gomap \<Rightarrow> string \<times> config_group \<Rightarrow> config_error option" where
  "validate_group providers = (\<lambda>(name, g).
     and_then (check (\<not> validIdentifier name) ''group name'')
    (and_then (check (cg_Mode g = ModeEmpty) ''mode is required'')
    (and_then (check (cg_Targets g = []) ''declares no targets'')
    (and_then (validate_group_targets providers [] (cg_Targets g))
              (map_option ErrInvalidPolicy (policy_Validate (GroupResilienceConfig name g)))))))"

definition validateGroups :: "resolved_config \<Rightarrow> config_error option" where
  "validateGroups r = first_error (validate_group (rv_Providers r)) (rv_Groups r)"

section \<open>Libraries\<close>

fun conditionHasRetiredEndpoint :: "condition \<Rightarrow> bool" where
  "conditionHasRetiredEndpoint (UnknownCondition t) = (t = ''endpoint'')"
| "conditionHasRetiredEndpoint (RuleGroup op children neg) = list_ex conditionHasRetiredEndpoint children"
| "conditionHasRetiredEndpoint c = False"

fun validate_rules :: "golib \<Rightarrow> string list \<Rightarrow> rule_contract list \<Rightarrow> config_error option" where
  "validate_rules lib seen [] = None"
| "validate_rules lib seen (rule # rules) =
     (if rule_Name rule \<in> set seen then Some ErrDuplicateRuleName
      else and_then (map_option ErrInvalidRule (rule_Validate lib rule))
          (and_then (if conditionHasRetiredEndpoint (rule_Condition rule) then Some ErrRetiredEndpointCondition else None)
                    (validate_rules lib (rule_Name rule # seen) rules)))"

fun validate_connectors :: "connector_env \<Rightarrow> string list \<Rightarrow> connector list \<Rightarrow> config_error option" where
  "validate_connectors env seen [] = None"
| "validate_connectors env seen (c # cs) =
     (if cn_Name c \<in> set seen then Some ErrDuplicateConnectorName
      else and_then (map_option ErrInvalidConnector (connector_Validate env (Some c)))
                    (validate_connectors env (cn_Name c # seen) cs))"

definition validateLibraries :: "connector_env \<Rightarrow> resolved_config \<Rightarrow> config_error option" where
  "validateLibraries env r =
     and_then (validate_rules (ce_lib env) [] (rv_Rules r)) (validate_connectors env [] (rv_Connectors r))"

section \<open>Keys and configurations\<close>

fun validate_keys ::
  "configuration gomap \<Rightarrow> string list \<Rightarrow> string list \<Rightarrow> api_key list \<Rightarrow> config_error option" where
  "validate_keys cfgs secrets ids [] = None"
| "validate_keys cfgs secrets ids (k # ks) =
     and_then (check (ak_Secret k = []) ''secret is required'')
    (and_then (check (ak_Secret k \<in> set secrets) ''duplicate secret'')
    (and_then (check (case ak_ID k of None \<Rightarrow> False | Some i \<Rightarrow> i \<in> set ids) ''duplicate id'')
    (and_then (if map_of cfgs (ak_Configuration k) = None then Some ErrUnknownConfigurationRef else None)
              (validate_keys cfgs (ak_Secret k # secrets)
                 (case ak_ID k of None \<Rightarrow> ids | Some i \<Rightarrow> i # ids) ks))))"

definition validateModelPatterns :: "string list \<Rightarrow> config_error option" where
  "validateModelPatterns patterns =
     first_error (\<lambda>p. let star = count_stars p
       in check (star \<noteq> 0 \<and> (1 < star \<or> \<not> has_suffix p ''*'')) ''only a single trailing * is supported'') patterns"

text \<open>The exact models of a binding, claimed one after the other.\<close>

fun claim_exact :: "string \<Rightarrow> string list \<Rightarrow> string list \<Rightarrow> config_error + string list" where
  "claim_exact protocol exact [] = Inr exact"
| "claim_exact protocol exact (m # ms) =
     (if has_suffix m ''*'' then claim_exact protocol exact ms
      else if protocol @ ''|'' @ m \<in> set exact then Inl (ErrValidation ''model already bound'')
      else claim_exact protocol ((protocol @ ''|'' @ m) # exact) ms)"

definition declares :: "provider gomap \<Rightarrow> string \<Rightarrow> string \<Rightarrow> bool" where
  "declares providers provider protocol \<longleftrightarrow>
     (case map_of providers provider of
        None \<Rightarrow> False
      | Some be \<Rightarrow> map_of (pv_Protocols be) protocol \<noteq> None)"

definition validate_destination :: "resolved_config \<Rightarrow> binding \<Rightarrow> config_error option" where
  "validate_destination r b =
     (if (bd_Provider b \<noteq> []) = (bd_Group b \<noteq> []) then Some (ErrValidation ''set exactly one of provider or group'')
      else if bd_Provider b \<noteq> [] then
        and_then (check (map_of (rv_Providers r) (bd_Provider b) = None) ''unknown provider'')
                 (check (\<not> declares (rv_Providers r) (bd_Provider b) (bd_Protocol b)) ''protocol not served'')
      else (case map_of (rv_Groups r) (bd_Group b) of
              None \<Rightarrow> Some (ErrValidation ''unknown group'')
            | Some g \<Rightarrow>
                first_error (\<lambda>t. check (\<not> declares (rv_Providers r) (ct_Provider t) (bd_Protocol b))
                  ''group target does not serve protocol'') (cg_Targets g)))"

fun validate_bindings ::
  "resolved_config \<Rightarrow> string list \<Rightarrow> string list \<Rightarrow> binding list \<Rightarrow> config_error option" where
  "validate_bindings r catchAll exact [] = None"
| "validate_bindings r catchAll exact (b # bs) =
     and_then (check (bd_Protocol b \<notin> set knownProtocols) ''unknown protocol'')
    (and_then (validate_destination r b)
    (and_then (validateModelPatterns (bd_Models b))
    (and_then (check (bd_Models b = [] \<and> bd_Protocol b \<in> set catchAll) ''two catch-all bindings'')
              (case claim_exact (bd_Protocol b) exact (bd_Models b) of
                 Inl e \<Rightarrow> Some e
               | Inr exact' \<Rightarrow>
                   validate_bindings r (if bd_Models b = [] then bd_Protocol b # catchAll else catchAll) exact' bs))))"

definition ruleDefined :: "rule_contract list \<Rightarrow> string \<Rightarrow> bool" where
  "ruleDefined rules name = list_ex (\<lambda>x. rule_Name x = name) rules"

definition connectorDefined :: "connector list \<Rightarrow> string \<Rightarrow> bool" where
  "connectorDefined connectors name = list_ex (\<lambda>x. cn_Name x = name) connectors"

definition validate_configuration :: "resolved_config \<Rightarrow> string \<times> configuration \<Rightarrow> config_error option" where
  "validate_configuration r = (\<lambda>(name, cfg).
     and_then (first_error (\<lambda>(provider, c).
                 check (map_of (rv_Providers r) provider = None) ''credentials reference unknown provider'')
                 (cfg_Credentials cfg))
    (and_then (validate_bindings r [] [] (cfg_Bindings cfg))
    (and_then (first_error (\<lambda>pb.
                 case map_of (rv_Providers r) (pb_Provider pb) of
                   None \<Rightarrow> Some (ErrValidation ''unknown provider'')
                 | Some be \<Rightarrow>
                     check (map_of (pv_Passthrough be) (pb_Family pb) = None) ''no such passthrough family'')
                 (cfg_PassthroughBindings cfg))
    (and_then (first_error (\<lambda>n. if ruleDefined (rv_Rules r) n then None else Some ErrUnknownRuleName)
                 (cfg_RuleNames cfg))
              (first_error (\<lambda>cb. if connectorDefined (rv_Connectors r) (cb_Connector cb) then None
                                 else Some ErrUnknownConnectorReference)
                 (cfg_ConnectorBindings cfg))))))"

definition validateConfigurations :: "resolved_config \<Rightarrow> config_error option" where
  "validateConfigurations r =
     and_then (validate_keys (rv_Configurations r) [] [] (rv_APIKeys r))
              (first_error (validate_configuration r) (rv_Configurations r))"

definition config_Validate :: "connector_env \<Rightarrow> resolved_config \<Rightarrow> config_error option" where
  "config_Validate env r =
     (if rv_Configurations r = [] then Some ErrNoConfigurations
      else and_then (validateProviders r)
          (and_then (validateGroups r)
          (and_then (validateLibraries env r)
          (and_then (map_option ErrInvalidPricing (pricing_Validate (rv_Pricing r)))
          (and_then (validateAdvisors env r)
                    (validateConfigurations r))))))"

section \<open>What a validated configuration guarantees\<close>

lemma validated_parts:
  assumes "config_Validate env r = None"
  shows "validateProviders r = None" "validateGroups r = None" "validateLibraries env r = None"
    "pricing_Validate (rv_Pricing r) = None" "validateAdvisors env r = None" "validateConfigurations r = None"
  using assms by (simp_all add: config_Validate_def split: if_splits)

lemma validate_group_targets_None:
  assumes "validate_group_targets providers prev ts = None" and "t \<in> set ts"
  shows "ct_Provider t \<noteq> [] \<and> map_of providers (ct_Provider t) \<noteq> None"
  using assms by (induction ts arbitrary: prev) auto

lemma validated_group:
  assumes "config_Validate env r = None" and "map_of (rv_Groups r) name = Some g"
  shows "policy_Validate (GroupResilienceConfig name g) = None" "cg_Targets g \<noteq> []"
    "\<And>t. t \<in> set (cg_Targets g) \<Longrightarrow> ct_Provider t \<noteq> [] \<and> map_of (rv_Providers r) (ct_Provider t) \<noteq> None"
proof -
  have "validate_group (rv_Providers r) (name, g) = None"
    using validated_parts(2) [OF assms(1)] map_of_SomeD [OF assms(2)] by (simp add: validateGroups_def)
  then show "policy_Validate (GroupResilienceConfig name g) = None" "cg_Targets g \<noteq> []"
    "\<And>t. t \<in> set (cg_Targets g) \<Longrightarrow> ct_Provider t \<noteq> [] \<and> map_of (rv_Providers r) (ct_Provider t) \<noteq> None"
    using validate_group_targets_None [of "rv_Providers r" "[]" "cg_Targets g"]
    by (simp_all add: validate_group_def)
qed

lemma validate_rules_None:
  assumes "validate_rules lib seen rules = None"
  shows "distinct (map rule_Name rules) \<and> set (map rule_Name rules) \<inter> set seen = {} \<and>
    list_all (\<lambda>x. rule_Validate lib x = None) rules"
  using assms
proof (induction rules arbitrary: seen)
  case (Cons a rules)
  then have "validate_rules lib (rule_Name a # seen) rules = None" "rule_Name a \<notin> set seen"
    "rule_Validate lib a = None" by (simp_all split: if_splits)
  with Cons.IH [OF this(1)] show ?case by auto
qed simp

lemma validate_connectors_None:
  assumes "validate_connectors env seen cs = None"
  shows "distinct (map cn_Name cs) \<and> set (map cn_Name cs) \<inter> set seen = {} \<and>
    list_all (\<lambda>c. connector_Validate env (Some c) = None) cs"
  using assms
proof (induction cs arbitrary: seen)
  case (Cons a cs)
  then have "validate_connectors env (cn_Name a # seen) cs = None" "cn_Name a \<notin> set seen"
    "connector_Validate env (Some a) = None" by (simp_all split: if_splits)
  with Cons.IH [OF this(1)] show ?case by auto
qed simp

lemma validate_keys_None:
  assumes "validate_keys cfgs secrets ids ks = None"
  shows "distinct (map ak_Secret ks) \<and> set (map ak_Secret ks) \<inter> set secrets = {} \<and>
    list_all (\<lambda>k. ak_Secret k \<noteq> [] \<and> map_of cfgs (ak_Configuration k) \<noteq> None) ks"
  using assms by (induction ks arbitrary: secrets ids) (fastforce split: if_splits)+

lemma validated_rules:
  assumes "config_Validate env r = None"
  shows "distinct (map rule_Name (rv_Rules r))" "list_all (\<lambda>x. rule_Validate (ce_lib env) x = None) (rv_Rules r)"
  using validated_parts(3) [OF assms] validate_rules_None by (auto simp: validateLibraries_def)

lemma validated_keys:
  assumes "config_Validate env r = None"
  shows "distinct (map ak_Secret (rv_APIKeys r))"
    "\<And>k. k \<in> set (rv_APIKeys r) \<Longrightarrow> ak_Secret k \<noteq> [] \<and> map_of (rv_Configurations r) (ak_Configuration k) \<noteq> None"
  using validated_parts(6) [OF assms] validate_keys_None
  by (auto simp: validateConfigurations_def list_all_iff)

lemma validate_bindings_None:
  assumes "validate_bindings r catchAll exact bs = None" and "b \<in> set bs"
  shows "bd_Protocol b \<in> set knownProtocols \<and> validate_destination r b = None \<and>
    validateModelPatterns (bd_Models b) = None"
  using assms by (induction bs arbitrary: catchAll exact) (auto split: sum.splits)

lemma validated_configuration:
  assumes "config_Validate env r = None" and "map_of (rv_Configurations r) name = Some cfg"
  shows "validate_bindings r [] [] (cfg_Bindings cfg) = None"
    "\<And>p. p \<in> set (cfg_PassthroughBindings cfg) \<Longrightarrow>
       \<exists>be. map_of (rv_Providers r) (pb_Provider p) = Some be \<and> map_of (pv_Passthrough be) (pb_Family p) \<noteq> None"
    "\<And>n. n \<in> set (cfg_RuleNames cfg) \<Longrightarrow> ruleDefined (rv_Rules r) n"
    "\<And>b. b \<in> set (cfg_ConnectorBindings cfg) \<Longrightarrow> connectorDefined (rv_Connectors r) (cb_Connector b)"
proof -
  have c: "validate_configuration r (name, cfg) = None"
    using validated_parts(6) [OF assms(1)] map_of_SomeD [OF assms(2)] by (simp add: validateConfigurations_def)
  then show "validate_bindings r [] [] (cfg_Bindings cfg) = None"
    by (simp add: validate_configuration_def)
  show "\<And>p. p \<in> set (cfg_PassthroughBindings cfg) \<Longrightarrow>
      \<exists>be. map_of (rv_Providers r) (pb_Provider p) = Some be \<and> map_of (pv_Passthrough be) (pb_Family p) \<noteq> None"
    using c by (fastforce simp: validate_configuration_def split: option.splits)
  show "\<And>n. n \<in> set (cfg_RuleNames cfg) \<Longrightarrow> ruleDefined (rv_Rules r) n"
    using c by (fastforce simp: validate_configuration_def split: if_splits)
  show "\<And>b. b \<in> set (cfg_ConnectorBindings cfg) \<Longrightarrow> connectorDefined (rv_Connectors r) (cb_Connector b)"
    using c by (fastforce simp: validate_configuration_def split: if_splits)
qed

lemma declares_resolve:
  assumes "declares providers (ct_Provider t) protocol"
  shows "resolveTarget protocol cfg (map_of providers) t = Inl e \<Longrightarrow>
    e = ErrNoCredential (ct_Provider t) \<and> map_of (cfg_Credentials cfg) (ct_Provider t) = None"
  using assms by (auto simp: declares_def resolveTarget_def Let_def split: option.splits)

lemma declares_resolve_targets:
  assumes "\<forall>t \<in> snd ` set nts. declares providers (ct_Provider t) protocol"
    and "resolve_targets protocol cfg (map_of providers) nts = Inl e"
  shows "\<exists>n t. (n, t) \<in> set nts \<and> e = ErrNoCredential (ct_Provider t) \<and>
    map_of (cfg_Credentials cfg) (ct_Provider t) = None"
  using assms
proof (induction nts)
  case (Cons nt nts)
  obtain n t where nt: "nt = (n, t)" by fastforce
  show ?case
  proof (cases "resolveTarget protocol cfg (map_of providers) t")
    case (Inl e')
    then show ?thesis using Cons.prems declares_resolve [of providers t protocol cfg e'] nt by fastforce
  next
    case (Inr x)
    then have "resolve_targets protocol cfg (map_of providers) nts = Inl e"
      using Cons.prems(2) nt by (auto split: sum.splits)
    then show ?thesis using Cons.IH Cons.prems(1) by fastforce
  qed
qed simp

lemma declares_known: "declares providers p protocol \<Longrightarrow> map_of providers p \<noteq> None"
  by (auto simp: declares_def split: option.splits)

lemma validate_destination_None:
  assumes "validate_destination r b = None"
  shows "bd_Group b = [] \<Longrightarrow> bd_Provider b \<noteq> [] \<and> declares (rv_Providers r) (bd_Provider b) (bd_Protocol b)"
    "bd_Group b \<noteq> [] \<Longrightarrow> \<exists>g. map_of (rv_Groups r) (bd_Group b) = Some g \<and>
       (\<forall>t \<in> set (cg_Targets g). declares (rv_Providers r) (ct_Provider t) (bd_Protocol b))"
  using assms by (auto simp: validate_destination_def split: if_splits option.splits)

lemma selected_binding:
  assumes "config_Validate env r = None" and "map_of (rv_Configurations r) name = Some cfg"
    and "find (binding_serves protocol model) (cfg_Bindings cfg) = Some b"
  shows "validate_destination r b = None" "bd_Protocol b = protocol"
proof -
  have "b \<in> set (cfg_Bindings cfg)" "binding_serves protocol model b" using assms(3) by (auto simp: find_Some_iff)
  then show "validate_destination r b = None" "bd_Protocol b = protocol"
    using validate_bindings_None [OF validated_configuration(1) [OF assms(1,2)]]
    by (auto simp: binding_serves_def)
qed

lemma single_policy_valid: "st_Provider t \<noteq> [] \<Longrightarrow> policy_Validate (SingleTargetResilienceConfig t) = None"
  by (simp add: SingleTargetResilienceConfig_def empty_policy_def policy_Validate_def validate_mode_def
      validateModeShape_def target_Validate_def ProviderSwitchActions_def terminatingActionTypes_def Let_def)

section \<open>Properties\<close>

text \<open>
  C16. Routing over a validated configuration fails in two ways only: no binding of the configuration
  serves the protocol and model, or the configuration holds no credential for a provider it was
  routed to. An unknown group, an unknown provider or a protocol the destination does not serve
  cannot occur at request time.
\<close>

theorem validated_routing:
  assumes "config_Validate env r = None" and "map_of (rv_Configurations r) name = Some cfg"
    and "Select protocol model cfg (map_of (rv_Providers r)) (map_of (rv_Groups r)) = Inl e"
  shows "e = ErrNoBinding \<and> \<not> list_ex (binding_serves protocol model) (cfg_Bindings cfg) \<or>
    (\<exists>p. e = ErrNoCredential p \<and> map_of (rv_Providers r) p \<noteq> None \<and> map_of (cfg_Credentials cfg) p = None)"
proof (cases "find (binding_serves protocol model) (cfg_Bindings cfg)")
  case None
  then have "e = ErrNoBinding" using assms(3) by (simp add: Select_def select_loop_find)
  then show ?thesis using None by (auto simp: find_None_iff list_ex_iff)
next
  case (Some b)
  note b = selected_binding [OF assms(1,2) Some]
  show ?thesis
  proof (cases "bd_Group b = []")
    case True
    have "declares (rv_Providers r) (bd_Provider b) protocol" using validate_destination_None(1) [OF b(1) True] b(2) by simp
    moreover have "select_single protocol cfg (map_of (rv_Providers r)) b = Inl e"
      using assms(3) Some True by (simp add: Select_def select_loop_find)
    ultimately have "e = ErrNoCredential (bd_Provider b) \<and> map_of (cfg_Credentials cfg) (bd_Provider b) = None"
      by (auto simp: declares_def select_single_def resolveTarget_def Let_def split: option.splits sum.splits)
    then show ?thesis using declares_known \<open>declares _ _ _\<close> by blast
  next
    case False
    obtain g where g: "map_of (rv_Groups r) (bd_Group b) = Some g"
      and s: "\<forall>t \<in> set (cg_Targets g). declares (rv_Providers r) (ct_Provider t) protocol"
      using validate_destination_None(2) [OF b(1) False] b(2) by auto
    have s': "\<forall>t \<in> snd ` set (zip (TargetNames g) (cg_Targets g)). declares (rv_Providers r) (ct_Provider t) protocol"
      using s by (auto dest: set_zip_rightD)
    have "resolve_targets protocol cfg (map_of (rv_Providers r)) (zip (TargetNames g) (cg_Targets g)) = Inl e"
      using assms(3) Some False g by (auto simp: Select_def select_loop_find select_group_def split: sum.splits)
    from declares_resolve_targets [OF s' this]
    obtain n t where t: "(n, t) \<in> set (zip (TargetNames g) (cg_Targets g))"
      "e = ErrNoCredential (ct_Provider t)" "map_of (cfg_Credentials cfg) (ct_Provider t) = None" by blast
    then have "map_of (rv_Providers r) (ct_Provider t) \<noteq> None" using s' by (force dest: declares_known)
    then show ?thesis using t by blast
  qed
qed

text \<open>
  Opaque requests over a validated configuration are answered by one of its families, or the path
  or the method is not served; a dangling provider or family cannot occur.
\<close>

theorem validated_passthrough:
  assumes "config_Validate env r = None" and "map_of (rv_Configurations r) name = Some cfg"
    and "MatchPassthrough lib meth path cfg (map_of (rv_Providers r)) = Inl e"
  shows "e = ErrNoPassthrough \<or> e = ErrMethodNotAllowed"
proof -
  have "e = ErrNoPassthrough \<or> e = ErrMethodNotAllowed"
    if "match_passthrough_loop lib up path cfg (map_of (rv_Providers r)) pbs seen = Inl e"
      "\<And>p. p \<in> set pbs \<Longrightarrow> \<exists>be. map_of (rv_Providers r) (pb_Provider p) = Some be \<and>
         map_of (pv_Passthrough be) (pb_Family p) \<noteq> None" for up pbs seen
    using that
  proof (induction pbs arbitrary: seen)
    case (Cons p pbs)
    obtain be fam where f: "map_of (rv_Providers r) (pb_Provider p) = Some be"
      "map_of (pv_Passthrough be) (pb_Family p) = Some fam"
      using Cons.prems(2) [of p] by auto
    obtain m s where m: "match_family lib up path (pf_Paths fam) seen = (m, s)" by fastforce
    have "m = None" "match_passthrough_loop lib up path cfg (map_of (rv_Providers r)) pbs s = Inl e"
      using Cons.prems(1) f m by (auto split: option.splits prod.splits)
    then show ?case using Cons.IH Cons.prems(2) by simp
  qed (auto split: if_splits)
  then show ?thesis
    using assms(3) validated_configuration(2) [OF assms(1,2)] unfolding MatchPassthrough_def by blast
qed

text \<open>
  Every policy the orchestrator runs for a routed request is one that validates: the policy of a
  group, and the one-target policy of a direct binding.
\<close>

theorem validated_policies:
  assumes "config_Validate env r = None" and "map_of (rv_Configurations r) name = Some cfg"
    and "Select protocol model cfg (map_of (rv_Providers r)) (map_of (rv_Groups r)) = Inr d"
  shows "case ds_Group d of
      Some g \<Rightarrow> policy_Validate (group_ResilienceConfig g) = None
    | None \<Rightarrow> \<exists>t. ds_Single d = Some t \<and> policy_Validate (SingleTargetResilienceConfig t) = None"
proof (cases "ds_Group d")
  case (Some g)
  obtain grp where "map_of (rv_Groups r) (sg_Name g) = Some grp"
    "group_ResilienceConfig g = GroupResilienceConfig (sg_Name g) grp"
    using select_policy [OF assms(3) Some] by blast
  then show ?thesis using validated_group(1) [OF assms(1)] Some by simp
next
  case None
  obtain b where b: "find (binding_serves protocol model) (cfg_Bindings cfg) = Some b"
    using assms(3) by (auto simp: Select_def select_loop_find split: option.splits)
  then have "bd_Group b = []"
    using assms(3) None by (auto simp: Select_def select_loop_find select_group_def split: if_splits option.splits sum.splits)
  moreover from this have "select_single protocol cfg (map_of (rv_Providers r)) b = Inr d"
    using assms(3) b by (simp add: Select_def select_loop_find)
  then obtain t where t: "ds_Single d = Some t"
    "resolveTarget protocol cfg (map_of (rv_Providers r))
       \<lparr>ct_Provider = bd_Provider b, ct_Alias = bd_Alias b, ct_Query = bd_Query b, ct_Path = bd_Path b,
        ct_Weight = 0, ct_TimeoutSeconds = 0\<rparr> = Inr t"
    by (auto simp: select_single_def split: sum.splits)
  moreover have "bd_Provider b \<noteq> []"
    using validate_destination_None(1) [OF selected_binding(1) [OF assms(1,2) b]] \<open>bd_Group b = []\<close> by simp
  ultimately have "policy_Validate (SingleTargetResilienceConfig t) = None"
    using resolveTarget_fields [OF t(2)] by (intro single_policy_valid) simp
  then show ?thesis using None t(1) by simp
qed

section \<open>A concrete configuration\<close>

definition sample_config :: "string gomap \<Rightarrow> resolved_config" where
  "sample_config creds =
     \<lparr>rv_Providers = [(''openai'', sample_provider_entry ''https://a''), (''azure'', sample_provider_entry ''https://b'')],
      rv_Groups = [(''ha'', sample_group [sample_target ''openai'' ''m'', sample_target ''azure'' []])],
      rv_Configurations = [(''default'', sample_configuration\<lparr>cfg_Credentials := creds\<rparr>)],
      rv_APIKeys = [\<lparr>ak_ID = None, ak_Secret = ''sk-1'', ak_Name = ''k'', ak_Configuration = ''default'', ak_Enabled = True\<rparr>],
      rv_Rules = [], rv_Connectors = [], rv_Admin = None, rv_Telemetry = None, rv_Advisors = [], rv_Pricing = None,
      rv_PricingTable = None, rv_SecretIndex = Map.empty, rv_ConfigurationIndex = Map.empty,
      rv_RuleIndex = Map.empty, rv_PerConfigurationRules = Map.empty, rv_ConnectorIndex = Map.empty,
      rv_SourceFiles = []\<rparr>"

lemma sample_config_valid:
  "config_Validate sample_connector_env (sample_config [(''openai'', ''k1''), (''azure'', ''k2'')]) = None"
  "config_Validate sample_connector_env (sample_config []) = None"
  by code_simp+

lemma validated_routing_witness:
  "Select ''chat'' ''gpt-4o'' (sample_configuration\<lparr>cfg_Credentials := []\<rparr>)
     (map_of (rv_Providers (sample_config []))) (map_of (rv_Groups (sample_config []))) = Inl (ErrNoCredential ''openai'') \<and>
   map_of (rv_Providers (sample_config [])) ''openai'' \<noteq> None"
proof -
  have s: "Select ''chat'' ''gpt-4o'' (sample_configuration\<lparr>cfg_Credentials := []\<rparr>)
     (map_of (rv_Providers (sample_config []))) (map_of (rv_Groups (sample_config []))) = Inl (ErrNoCredential ''openai'')"
    by code_simp
  moreover have "map_of (rv_Configurations (sample_config [])) ''default'' = Some (sample_configuration\<lparr>cfg_Credentials := []\<rparr>)"
    by (simp add: sample_config_def)
  ultimately show ?thesis
    using validated_routing [OF sample_config_valid(2), of "''default''"] by fastforce
qed

lemma validated_passthrough_witness:
  "\<exists>e. MatchPassthrough ascii_lib ''GET'' ''/v1/files'' (sample_configuration\<lparr>cfg_Credentials := []\<rparr>)
     (map_of (rv_Providers (sample_config []))) = Inl e \<and> (e = ErrNoPassthrough \<or> e = ErrMethodNotAllowed)"
proof -
  have "MatchPassthrough ascii_lib ''GET'' ''/v1/files'' (sample_configuration\<lparr>cfg_Credentials := []\<rparr>)
     (map_of (rv_Providers (sample_config []))) = Inl ErrNoPassthrough"
    by (simp add: MatchPassthrough_def sample_configuration_def)
  moreover have "map_of (rv_Configurations (sample_config [])) ''default'' = Some (sample_configuration\<lparr>cfg_Credentials := []\<rparr>)"
    by (simp add: sample_config_def)
  ultimately show ?thesis
    using validated_passthrough [OF sample_config_valid(2), of "''default''"] by blast
qed

lemma validated_policies_witness:
  "\<exists>d g. Select ''chat'' ''gpt-4o'' sample_configuration
     (map_of (rv_Providers (sample_config [(''openai'', ''k1''), (''azure'', ''k2'')])))
     (map_of (rv_Groups (sample_config [(''openai'', ''k1''), (''azure'', ''k2'')]))) = Inr d \<and>
     ds_Group d = Some g \<and> policy_Validate (group_ResilienceConfig g) = None"
proof -
  let ?r = "sample_config [(''openai'', ''k1''), (''azure'', ''k2'')]"
  have c: "map_of (rv_Configurations ?r) ''default'' = Some sample_configuration"
    by (simp add: sample_config_def sample_configuration_def)
  obtain d g where d: "Select ''chat'' ''gpt-4o'' sample_configuration (map_of (rv_Providers ?r)) (map_of (rv_Groups ?r)) = Inr d"
    "ds_Group d = Some g"
    by (simp add: Select_def select_loop_find binding_serves_def select_group_def resolveTarget_def
        TargetNames_def provider_count_def sample_selection_defs sample_config_def go_defs)
  then show ?thesis using validated_policies [OF sample_config_valid(1) c d(1)] by auto
qed

end
