(* ===== verification/Config_Load.thy ===== *)
theory Config_Load
  imports Config_Validate
begin

text \<open>
  From files to the snapshot the data plane reads: the merge of the YAML documents of a directory,
  \<^verbatim>\<open>Load\<close> and \<^verbatim>\<open>buildIndexes\<close> (\<^verbatim>\<open>internal/config/config_model.go\<close>), cloning and revalidation
  (\<^verbatim>\<open>config_clone.go\<close>) and the store (\<^verbatim>\<open>store.go\<close>). Decoding a file is an argument.
\<close>

section \<open>Documents\<close>

record config_doc =
  cd_Providers :: "provider gomap"
  cd_Groups :: "config_group gomap"
  cd_Configurations :: "configuration gomap"
  cd_APIKeys :: "api_key list"
  cd_Connectors :: "connector list"
  cd_Rules :: "rule_contract list"
  cd_Admin :: "string option"
  cd_Telemetry :: "string option"
  cd_Pricing :: "pricing option"
  cd_Advisors :: "advisor gomap"

text \<open>The blocks a document sets, in the order they are claimed.\<close>

definition doc_claims :: "config_doc \<Rightarrow> (string \<times> bool) list" where
  "doc_claims doc =
     [(''providers'', cd_Providers doc \<noteq> []), (''groups'', cd_Groups doc \<noteq> []),
      (''configurations'', cd_Configurations doc \<noteq> []), (''api_keys'', cd_APIKeys doc \<noteq> []),
      (''connectors'', cd_Connectors doc \<noteq> []), (''rules'', cd_Rules doc \<noteq> []),
      (''admin'', cd_Admin doc \<noteq> None), (''telemetry'', cd_Telemetry doc \<noteq> None),
      (''pricing'', cd_Pricing doc \<noteq> None), (''advisors'', cd_Advisors doc \<noteq> [])]"

fun claim_all :: "string \<Rightarrow> (string \<times> bool) list \<Rightarrow> string gomap \<Rightarrow> config_error + string gomap" where
  "claim_all file [] seen = Inr seen"
| "claim_all file ((block, present) # cs) seen =
     (if \<not> present then claim_all file cs seen
      else if map_of seen block \<noteq> None then Inl ErrDuplicateKey
      else claim_all file cs (AList.update block file seen))"

definition take_blocks :: "config_doc \<Rightarrow> resolved_config \<Rightarrow> resolved_config" where
  "take_blocks doc r =
     r\<lparr>rv_Providers := (if cd_Providers doc \<noteq> [] then cd_Providers doc else rv_Providers r),
       rv_Groups := (if cd_Groups doc \<noteq> [] then cd_Groups doc else rv_Groups r),
       rv_Configurations := (if cd_Configurations doc \<noteq> [] then cd_Configurations doc else rv_Configurations r),
       rv_APIKeys := (if cd_APIKeys doc \<noteq> [] then cd_APIKeys doc else rv_APIKeys r),
       rv_Connectors := (if cd_Connectors doc \<noteq> [] then cd_Connectors doc else rv_Connectors r),
       rv_Rules := (if cd_Rules doc \<noteq> [] then cd_Rules doc else rv_Rules r),
       rv_Admin := (if cd_Admin doc \<noteq> None then cd_Admin doc else rv_Admin r),
       rv_Telemetry := (if cd_Telemetry doc \<noteq> None then cd_Telemetry doc else rv_Telemetry r),
       rv_Pricing := (if cd_Pricing doc \<noteq> None then cd_Pricing doc else rv_Pricing r),
       rv_Advisors := (if cd_Advisors doc \<noteq> [] then cd_Advisors doc else rv_Advisors r)\<rparr>"

definition mergeDoc ::
  "string \<Rightarrow> config_doc \<Rightarrow> resolved_config \<times> string gomap \<Rightarrow> config_error + (resolved_config \<times> string gomap)"
where
  "mergeDoc file doc = (\<lambda>(r, seen).
     case claim_all file (doc_claims doc) seen of
       Inl e \<Rightarrow> Inl e
     | Inr seen' \<Rightarrow> Inr (take_blocks doc r, seen'))"

section \<open>Indexes\<close>

definition index_by :: "('a \<Rightarrow> string) \<Rightarrow> 'a list \<Rightarrow> string \<rightharpoonup> 'a" where
  "index_by key xs = fold (\<lambda>x m. m(key x \<mapsto> x)) xs Map.empty"

text \<open>The embedded rate card: its version and rows.\<close>

type_synonym default_card = "string \<times> model_pricing list"

definition buildIndexes :: "default_card \<Rightarrow> resolved_config \<Rightarrow> resolved_config" where
  "buildIndexes defaults r =
     (let ruleIndex = index_by rule_Name (rv_Rules r)
      in r\<lparr>rv_PricingTable :=
             (if pricing_On (rv_Pricing r) then Some (New_table (fst defaults) (snd defaults) (rv_Pricing r)) else None),
           rv_SecretIndex := index_by ak_Secret (rv_APIKeys r),
           rv_ConfigurationIndex := map_of (rv_Configurations r),
           rv_RuleIndex := ruleIndex,
           rv_PerConfigurationRules :=
             (\<lambda>name. case map_of (rv_Configurations r) name of
                       None \<Rightarrow> None
                     | Some cfg \<Rightarrow>
                         if cfg_RuleNames cfg = [] then None
                         else Some (List.map_filter ruleIndex (cfg_RuleNames cfg))),
           rv_ConnectorIndex := index_by cn_Name (rv_Connectors r)\<rparr>)"

definition RevalidateAndIndex ::
  "connector_env \<Rightarrow> default_card \<Rightarrow> resolved_config \<Rightarrow> config_error + resolved_config" where
  "RevalidateAndIndex env defaults r =
     (case config_Validate env r of Some e \<Rightarrow> Inl e | None \<Rightarrow> Inr (buildIndexes defaults r))"

section \<open>Loading\<close>

definition empty_resolved :: resolved_config where
  "empty_resolved =
     \<lparr>rv_Providers = [], rv_Groups = [], rv_Configurations = [], rv_APIKeys = [], rv_Rules = [],
      rv_Connectors = [], rv_Admin = None, rv_Telemetry = None, rv_Advisors = [], rv_Pricing = None,
      rv_PricingTable = None, rv_SecretIndex = Map.empty, rv_ConfigurationIndex = Map.empty,
      rv_RuleIndex = Map.empty, rv_PerConfigurationRules = Map.empty, rv_ConnectorIndex = Map.empty,
      rv_SourceFiles = []\<rparr>"

text \<open>What reading and decoding a file can give.\<close>

datatype file_content = Unreadable | Malformed | LegacyProviders | Decoded config_doc

datatype load_error = ErrEmptyDirectory | ErrRead string | ErrParse string | ErrLegacyProvidersKey string
  | ErrMerge config_error | ErrInvalid config_error

fun merge_files ::
  "(string \<times> file_content) list \<Rightarrow> resolved_config \<times> string gomap \<Rightarrow>
     load_error + (resolved_config \<times> string gomap)" where
  "merge_files [] acc = Inr acc"
| "merge_files ((name, content) # fs) acc =
     (case content of
        Unreadable \<Rightarrow> Inl (ErrRead name)
      | Malformed \<Rightarrow> Inl (ErrParse name)
      | LegacyProviders \<Rightarrow> Inl (ErrLegacyProvidersKey name)
      | Decoded doc \<Rightarrow>
          (case mergeDoc name doc acc of
             Inl e \<Rightarrow> Inl (ErrMerge e)
           | Inr acc' \<Rightarrow> merge_files fs acc'))"

record dir_entry =
  de_Name :: string
  de_IsDir :: bool
  de_Content :: file_content

definition finish_load ::
  "connector_env \<Rightarrow> default_card \<Rightarrow> resolved_config \<Rightarrow> string gomap \<Rightarrow> load_error + resolved_config" where
  "finish_load env defaults r seen =
     (let r1 = r\<lparr>rv_SourceFiles := seen\<rparr>
      in case config_Validate env r1 of
           Some e \<Rightarrow> Inl (ErrInvalid e)
         | None \<Rightarrow> Inr (buildIndexes defaults r1))"

definition Load :: "connector_env \<Rightarrow> default_card \<Rightarrow> dir_entry list \<Rightarrow> load_error + resolved_config" where
  "Load env defaults entries =
     (let files = filter (\<lambda>e. \<not> de_IsDir e \<and> has_suffix (de_Name e) ''.yaml'') entries
      in if files = [] then Inl ErrEmptyDirectory
         else case merge_files (map (\<lambda>e. (de_Name e, de_Content e)) (sort_key de_Name files)) (empty_resolved, []) of
                Inl e \<Rightarrow> Inl e
              | Inr (r, seen) \<Rightarrow> finish_load env defaults r seen)"

section \<open>Cloning\<close>

text \<open>
  \<^verbatim>\<open>Clone\<close> copies the blocks and leaves the indexes nil. Values here have no identity, so a deep
  copy of a block is the block.
\<close>

definition Clone_config :: "resolved_config \<Rightarrow> resolved_config" where
  "Clone_config r =
     r\<lparr>rv_PricingTable := None, rv_SecretIndex := Map.empty, rv_ConfigurationIndex := Map.empty,
       rv_RuleIndex := Map.empty, rv_PerConfigurationRules := Map.empty, rv_ConnectorIndex := Map.empty\<rparr>"

section \<open>Laws\<close>

lemma claim_all_iff:
  "distinct (map fst cs) \<Longrightarrow>
   claim_all file cs seen =
     (if \<exists>b. (b, True) \<in> set cs \<and> map_of seen b \<noteq> None then Inl ErrDuplicateKey
      else Inr (fold (\<lambda>b m. AList.update b file m) (map fst (filter snd cs)) seen))"
proof (induction cs arbitrary: seen)
  case (Cons c cs)
  obtain b p where c: "c = (b, p)" by fastforce
  have k: "\<And>x. (x, True) \<in> set cs \<Longrightarrow> x \<noteq> b" using Cons.prems by (force simp: c)
  then have eq: "(\<exists>x. (x, True) \<in> set cs \<and> map_of (AList.update b file seen) x \<noteq> None) \<longleftrightarrow>
      (\<exists>x. (x, True) \<in> set cs \<and> map_of seen x \<noteq> None)"
    by (auto simp: update_conv')
  show ?case
  proof (cases "p \<and> map_of seen b = None")
    case True
    then show ?thesis using Cons.IH [of "AList.update b file seen"] Cons.prems eq by (auto simp: c)
  next
    case False
    then show ?thesis using Cons.IH [of seen] Cons.prems by (cases p) (auto simp: c)
  qed
qed simp

lemma index_by_Some:
  assumes "distinct (map key xs)"
  shows "index_by key xs k = Some x \<longleftrightarrow> x \<in> set xs \<and> key x = k"
proof -
  have "fold (\<lambda>x m. m(key x \<mapsto> x)) xs m k = Some x \<longleftrightarrow>
      x \<in> set xs \<and> key x = k \<or> k \<notin> key ` set xs \<and> m k = Some x" for m
    using assms by (induction xs arbitrary: m) (auto simp: image_iff)
  then show ?thesis by (simp add: index_by_def)
qed

lemma index_by_None: "index_by key xs k = None \<longleftrightarrow> k \<notin> key ` set xs"
proof -
  have "fold (\<lambda>x m. m(key x \<mapsto> x)) xs m k = None \<longleftrightarrow> k \<notin> key ` set xs \<and> m k = None" for m
    by (induction xs arbitrary: m) auto
  then show ?thesis by (simp add: index_by_def)
qed

lemma indexed:
  assumes "RevalidateAndIndex env defaults r = Inr r'"
  shows "config_Validate env r = None" "r' = buildIndexes defaults r"
  using assms by (auto simp: RevalidateAndIndex_def split: option.splits)

lemma map_filter_defined:
  assumes "\<And>n. n \<in> set ns \<Longrightarrow> \<exists>x. m n = Some x \<and> key x = n"
  shows "map key (List.map_filter m ns) = ns"
  using assms
proof (induction ns)
  case (Cons n ns)
  from Cons.prems [of n] obtain x where "m n = Some x" "key x = n" by auto
  then show ?case using Cons by (simp add: List.map_filter_simps)
qed (simp add: List.map_filter_simps)

lemma map_filter_from: "set (List.map_filter m ns) \<subseteq> {x. \<exists>n \<in> set ns. m n = Some x}"
  by (auto simp: List.map_filter_def)

lemma presented_key_result:
  assumes "presented_key h = Some secret"
  shows "(\<exists>ar. auth_HTTPHandler (Some snap) h = Inr ar) \<longleftrightarrow>
    (\<exists>k. as_SecretIndex snap secret = Some k \<and> ak_Enabled k \<and>
       as_ConfigurationIndex snap (ak_Configuration k) \<noteq> None)"
proof -
  consider "firstHeader h [HeaderIdentity, LegacyHeaderIdentity] \<noteq> []"
    | "firstHeader h [HeaderIdentity, LegacyHeaderIdentity] = []" "config_selector h = []"
    using assms by (auto simp: presented_key_def Let_def split: if_splits)
  then show ?thesis
    using assms by cases (auto simp: resolve_defs split: option.splits if_splits)
qed

section \<open>Properties\<close>

text \<open>
  The rules attached to a configuration are, in the order it names them, the library's rules of
  those names, and evaluating them on a protocol request body never raises a run-time action error:
  whatever the indexes of a validated configuration hand to the evaluator has passed the load-time
  checks.
\<close>

theorem indexed_rules_never_fail:
  assumes "RevalidateAndIndex env defaults r = Inr r'" and "map_of (rv_Configurations r) name = Some cfg"
    and "me_lib menv = ce_lib env" and "gc_ConfigurationName gc = name" and "b \<noteq> OtherBody"
  shows "(case rv_PerConfigurationRules r' name of None \<Rightarrow> cfg_RuleNames cfg = []
      | Some rules \<Rightarrow> map rule_Name rules = cfg_RuleNames cfg \<and> set rules \<subseteq> set (rv_Rules r)) \<and>
    set (map snd (res_Errors (Evaluate menv depth (rv_PerConfigurationRules r') gc s b))) \<subseteq> {''group_depth''} \<and>
    set (map rm_Error (res_Matches (Evaluate menv depth (rv_PerConfigurationRules r') gc s b))) \<subseteq> {None}"
proof -
  note v = indexed(1) [OF assms(1)]
  let ?idx = "index_by rule_Name (rv_Rules r)" and ?rules = "List.map_filter (index_by rule_Name (rv_Rules r)) (cfg_RuleNames cfg)"
  have idx: "\<And>n x. ?idx n = Some x \<longleftrightarrow> x \<in> set (rv_Rules r) \<and> rule_Name x = n"
    by (rule index_by_Some [OF validated_rules(1) [OF v]])
  have "\<exists>x. ?idx n = Some x \<and> rule_Name x = n" if "n \<in> set (cfg_RuleNames cfg)" for n
    using validated_configuration(3) [OF v assms(2) that] idx by (auto simp: ruleDefined_def list_ex_iff)
  then have names: "map rule_Name ?rules = cfg_RuleNames cfg" by (rule map_filter_defined)
  have sub: "set ?rules \<subseteq> set (rv_Rules r)" using map_filter_from [of ?idx "cfg_RuleNames cfg"] unfolding idx by blast
  then have ok: "list_all (\<lambda>x. rule_Validate (me_lib menv) x = None) ?rules"
    using validated_rules(2) [OF v] assms(3) by (auto simp: list_all_iff)
  have p: "rv_PerConfigurationRules r' name = (if cfg_RuleNames cfg = [] then None else Some ?rules)"
    by (simp add: indexed(2) [OF assms(1)] buildIndexes_def Let_def assms(2))
  have e: "Evaluate menv depth (rv_PerConfigurationRules r') gc s b =
      evalRules menv depth gc (if cfg_RuleNames cfg = [] then [] else ?rules) s b"
    by (simp add: Evaluate_def assms(4) p)
  have "list_all (\<lambda>x. rule_Validate (me_lib menv) x = None) (if cfg_RuleNames cfg = [] then [] else ?rules)"
    using ok by simp
  from evalRules_validated [OF this assms(5), of depth gc s] show ?thesis
    unfolding e p using names sub by (cases "cfg_RuleNames cfg = []") simp_all
qed

text \<open>The snapshot the authentication stage reads.\<close>

definition auth_view :: "resolved_config \<Rightarrow> auth_snapshot" where
  "auth_view r = \<lparr>as_SecretIndex = rv_SecretIndex r, as_ConfigurationIndex = rv_ConfigurationIndex r\<rparr>"

text \<open>
  The key index is exact and every key leads somewhere: over a validated configuration a secret
  is accepted exactly when a key of the file holds it and is enabled, and a request that presents a
  known, enabled key is never refused for an unknown configuration.
\<close>

theorem indexed_keys_authenticate:
  assumes "RevalidateAndIndex env defaults r = Inr r'" and "presented_key h = Some secret"
  shows "(\<exists>ar. auth_HTTPHandler (Some (auth_view r')) h = Inr ar) \<longleftrightarrow>
    (\<exists>k \<in> set (rv_APIKeys r). ak_Secret k = secret \<and> ak_Enabled k)"
proof -
  note v = indexed(1) [OF assms(1)]
  have idx: "\<And>k. as_SecretIndex (auth_view r') secret = Some k \<longleftrightarrow> k \<in> set (rv_APIKeys r) \<and> ak_Secret k = secret"
    using index_by_Some [OF validated_keys(1) [OF v]]
    by (simp add: auth_view_def indexed(2) [OF assms(1)] buildIndexes_def Let_def)
  have cfg: "as_ConfigurationIndex (auth_view r') = map_of (rv_Configurations r)"
    by (simp add: auth_view_def indexed(2) [OF assms(1)] buildIndexes_def Let_def)
  have "as_SecretIndex (auth_view r') secret = Some k \<Longrightarrow> as_ConfigurationIndex (auth_view r') (ak_Configuration k) \<noteq> None" for k
    using validated_keys(2) [OF v] by (simp add: idx cfg)
  then show ?thesis
    unfolding presented_key_result [OF assms(2)] idx by blast
qed


definition indexed_sample :: resolved_config where
  "indexed_sample = buildIndexes (''v'', []) (sample_config [])"

lemma indexed_sample_ok:
  "RevalidateAndIndex sample_connector_env (''v'', []) (sample_config []) = Inr indexed_sample"
  by (simp add: RevalidateAndIndex_def sample_config_valid indexed_sample_def)

lemma indexed_rules_never_fail_witness:
  "set (map rm_Error (res_Matches (Evaluate (sample_env\<lparr>me_lib := ascii_lib\<rparr>) 8 (rv_PerConfigurationRules indexed_sample)
     (sample_context\<lparr>gc_ConfigurationName := ''default''\<rparr>) sample_state NilBody))) \<subseteq> {None}"
proof -
  have "map_of (rv_Configurations (sample_config [])) ''default'' = Some (sample_configuration\<lparr>cfg_Credentials := []\<rparr>)"
    by (simp add: sample_config_def)
  then show ?thesis
    using indexed_rules_never_fail [OF indexed_sample_ok, of "''default''" _ "sample_env\<lparr>me_lib := ascii_lib\<rparr>"
        "sample_context\<lparr>gc_ConfigurationName := ''default''\<rparr>" NilBody 8 sample_state]
    by (simp add: sample_connector_env_def)
qed

lemma indexed_keys_authenticate_witness:
  "\<exists>ar. auth_HTTPHandler (Some (auth_view indexed_sample)) [(''Authorization'', [''Bearer sk-1''])] = Inr ar"
proof -
  have "presented_key [(''Authorization'', [''Bearer sk-1''])] = Some ''sk-1''" by code_simp
  from indexed_keys_authenticate [OF indexed_sample_ok this] show ?thesis
    by (simp add: sample_config_def)
qed

section \<open>Merging block by block\<close>

text \<open>The blocks a document sets.\<close>

definition set_blocks :: "config_doc \<Rightarrow> string set" where
  "set_blocks doc = {b. (b, True) \<in> set (doc_claims doc)}"

lemma claims_distinct: "distinct (map fst (doc_claims doc))"
  by (simp add: doc_claims_def)

lemma fold_update_keys:
  "map_of (fold (\<lambda>b m. AList.update b file m) bs seen) b = (if b \<in> set bs then Some file else map_of seen b)"
  by (induction bs arbitrary: seen) (auto simp: update_conv')

lemma mergeDoc_Inr:
  assumes "mergeDoc file doc (r, seen) = Inr (r', seen')"
  shows "r' = take_blocks doc r" "\<And>b. b \<in> set_blocks doc \<Longrightarrow> map_of seen b = None"
    "map_of seen' = (\<lambda>b. if b \<in> set_blocks doc then Some file else map_of seen b)"
proof -
  let ?cs = "doc_claims doc"
  have s: "r' = take_blocks doc r" "\<not> (\<exists>b. (b, True) \<in> set ?cs \<and> map_of seen b \<noteq> None)"
    "seen' = fold (\<lambda>b m. AList.update b file m) (map fst (filter snd ?cs)) seen"
    using assms by (auto simp: mergeDoc_def claim_all_iff [OF claims_distinct] split: if_splits)
  then show "r' = take_blocks doc r" "\<And>b. b \<in> set_blocks doc \<Longrightarrow> map_of seen b = None"
    by (auto simp: set_blocks_def)
  have "set (map fst (filter snd ?cs)) = set_blocks doc" by (force simp: set_blocks_def)
  then show "map_of seen' = (\<lambda>b. if b \<in> set_blocks doc then Some file else map_of seen b)"
    unfolding s(3) using fold_update_keys [of _ "map fst (filter snd ?cs)" seen] by auto
qed

definition decoded :: "(string \<times> config_doc) list \<Rightarrow> (string \<times> file_content) list" where
  "decoded ds = map (\<lambda>(n, d). (n, Decoded d)) ds"

lemma decoded_simps [simp]: "decoded [] = []" "decoded ((n, d) # ds) = (n, Decoded d) # decoded ds"
  by (simp_all add: decoded_def)

lemma merged_seen:
  "merge_files (decoded ds) (r0, seen0) = Inr (r, seen) \<Longrightarrow>
   (\<forall>b. (\<exists>n d. (n, d) \<in> set ds \<and> b \<in> set_blocks d) \<longrightarrow> map_of seen0 b = None) \<and>
   (\<forall>b f. map_of seen b = Some f \<longleftrightarrow> map_of seen0 b = Some f \<or> (\<exists>d. (f, d) \<in> set ds \<and> b \<in> set_blocks d)) \<and>
   (\<forall>b. length (filter (\<lambda>(n, d). b \<in> set_blocks d) ds) \<le> 1)"
proof (induction ds arbitrary: r0 seen0)
  case (Cons nd ds)
  obtain n d where nd: "nd = (n, d)" by fastforce
  obtain r1 seen1 where m: "mergeDoc n d (r0, seen0) = Inr (r1, seen1)"
    and rest: "merge_files (decoded ds) (r1, seen1) = Inr (r, seen)"
    using Cons.prems nd by (auto split: sum.splits)
  note IH = Cons.IH [OF rest] and m' = mergeDoc_Inr [OF m]
  have free: "\<not> (\<exists>n' d'. (n', d') \<in> set ds \<and> b \<in> set_blocks d')" if "b \<in> set_blocks d" for b
  proof
    assume "\<exists>n' d'. (n', d') \<in> set ds \<and> b \<in> set_blocks d'"
    then have "map_of seen1 b = None" using conjunct1 [OF IH] by blast
    then show False using that by (simp add: m'(3))
  qed
  have "filter (\<lambda>(n, d). b \<in> set_blocks d) ds = []" if "b \<in> set_blocks d" for b
    using free [OF that] by (auto simp: filter_empty_conv)
  then have "\<forall>b. length (filter (\<lambda>(n, d). b \<in> set_blocks d) (nd # ds)) \<le> 1" using IH nd by simp
  moreover have "\<forall>b. (\<exists>n' d'. (n', d') \<in> set (nd # ds) \<and> b \<in> set_blocks d') \<longrightarrow> map_of seen0 b = None"
  proof (intro allI impI)
    fix b assume "\<exists>n' d'. (n', d') \<in> set (nd # ds) \<and> b \<in> set_blocks d'"
    then consider "b \<in> set_blocks d" | "\<exists>n' d'. (n', d') \<in> set ds \<and> b \<in> set_blocks d'" by (auto simp: nd)
    then show "map_of seen0 b = None"
      using m'(2) conjunct1 [OF IH] by cases (auto simp: m'(3) split: if_splits)
  qed
  moreover have "\<forall>b f. map_of seen b = Some f \<longleftrightarrow>
      map_of seen0 b = Some f \<or> (\<exists>d'. (f, d') \<in> set (nd # ds) \<and> b \<in> set_blocks d')"
    using IH m' nd free by (auto split: if_splits)
  ultimately show ?case by blast
qed simp

text \<open>The block of the first document that sets it.\<close>

definition block_of :: "(config_doc \<Rightarrow> bool) \<Rightarrow> (config_doc \<Rightarrow> 'a) \<Rightarrow> 'a \<Rightarrow> (string \<times> config_doc) list \<Rightarrow> 'a" where
  "block_of present get none ds = (case filter present (map snd ds) of [] \<Rightarrow> none | d # _ \<Rightarrow> get d)"

text \<open>One block of a document and of the merged configuration.\<close>

locale config_block =
  fixes name :: string and present :: "config_doc \<Rightarrow> bool"
    and get :: "config_doc \<Rightarrow> 'a" and block :: "resolved_config \<Rightarrow> 'a"
  assumes claimed: "name \<in> set_blocks d \<longleftrightarrow> present d"
    and taken: "block (take_blocks d r) = (if present d then get d else block r)"
begin

lemma merged:
  "merge_files (decoded ds) (r0, seen0) = Inr (r, seen) \<Longrightarrow>
   block r = block_of present get (block r0) ds"
proof (induction ds arbitrary: r0 seen0)
  case (Cons nd ds)
  obtain n d where nd: "nd = (n, d)" by fastforce
  obtain r1 seen1 where m: "mergeDoc n d (r0, seen0) = Inr (r1, seen1)"
    and rest: "merge_files (decoded ds) (r1, seen1) = Inr (r, seen)"
    using Cons.prems nd by (auto split: sum.splits)
  note m' = mergeDoc_Inr [OF m]
  show ?case
  proof (cases "present d")
    case True
    then have "map_of seen1 name = Some n" by (simp add: m'(3) claimed)
    then have "\<not> (\<exists>n d. (n, d) \<in> set ds \<and> name \<in> set_blocks d)"
      using conjunct1 [OF merged_seen [OF rest]] by (metis option.distinct(1))
    then have "filter present (map snd ds) = []" using claimed by (auto simp: filter_empty_conv)
    then show ?thesis using Cons.IH [OF rest] True nd by (simp add: m'(1) taken block_of_def)
  next
    case False
    then show ?thesis using Cons.IH [OF rest] nd by (simp add: m'(1) taken block_of_def)
  qed
qed (simp add: block_of_def)

end

lemmas block_defs = set_blocks_def doc_claims_def take_blocks_def

interpretation providers_block: config_block "''providers''" "\<lambda>d. cd_Providers d \<noteq> []" cd_Providers rv_Providers
  by unfold_locales (simp_all add: block_defs)
interpretation groups_block: config_block "''groups''" "\<lambda>d. cd_Groups d \<noteq> []" cd_Groups rv_Groups
  by unfold_locales (simp_all add: block_defs)
interpretation configurations_block:
  config_block "''configurations''" "\<lambda>d. cd_Configurations d \<noteq> []" cd_Configurations rv_Configurations
  by unfold_locales (simp_all add: block_defs)
interpretation api_keys_block: config_block "''api_keys''" "\<lambda>d. cd_APIKeys d \<noteq> []" cd_APIKeys rv_APIKeys
  by unfold_locales (simp_all add: block_defs)
interpretation connectors_block: config_block "''connectors''" "\<lambda>d. cd_Connectors d \<noteq> []" cd_Connectors rv_Connectors
  by unfold_locales (simp_all add: block_defs)
interpretation rules_block: config_block "''rules''" "\<lambda>d. cd_Rules d \<noteq> []" cd_Rules rv_Rules
  by unfold_locales (simp_all add: block_defs)
interpretation admin_block: config_block "''admin''" "\<lambda>d. cd_Admin d \<noteq> None" cd_Admin rv_Admin
  by unfold_locales (simp_all add: block_defs)
interpretation telemetry_block: config_block "''telemetry''" "\<lambda>d. cd_Telemetry d \<noteq> None" cd_Telemetry rv_Telemetry
  by unfold_locales (simp_all add: block_defs)
interpretation pricing_block: config_block "''pricing''" "\<lambda>d. cd_Pricing d \<noteq> None" cd_Pricing rv_Pricing
  by unfold_locales (simp_all add: block_defs)
interpretation advisors_block: config_block "''advisors''" "\<lambda>d. cd_Advisors d \<noteq> []" cd_Advisors rv_Advisors
  by unfold_locales (simp_all add: block_defs)

text \<open>
  Splitting the configuration over files is immaterial: a merge succeeds only when no block is
  set by two files, the source index names for every block the one file that sets it, and each block
  of the result is that file's, or empty when no file sets it.
\<close>

theorem merge_by_block:
  assumes "merge_files (decoded ds) (empty_resolved, []) = Inr (r, seen)"
  shows "(\<forall>b. length (filter (\<lambda>(n, d). b \<in> set_blocks d) ds) \<le> 1) \<and>
    (\<forall>b f. map_of seen b = Some f \<longleftrightarrow> (\<exists>d. (f, d) \<in> set ds \<and> b \<in> set_blocks d)) \<and>
    rv_Providers r = block_of (\<lambda>d. cd_Providers d \<noteq> []) cd_Providers [] ds \<and>
    rv_Groups r = block_of (\<lambda>d. cd_Groups d \<noteq> []) cd_Groups [] ds \<and>
    rv_Configurations r = block_of (\<lambda>d. cd_Configurations d \<noteq> []) cd_Configurations [] ds \<and>
    rv_APIKeys r = block_of (\<lambda>d. cd_APIKeys d \<noteq> []) cd_APIKeys [] ds \<and>
    rv_Connectors r = block_of (\<lambda>d. cd_Connectors d \<noteq> []) cd_Connectors [] ds \<and>
    rv_Rules r = block_of (\<lambda>d. cd_Rules d \<noteq> []) cd_Rules [] ds \<and>
    rv_Admin r = block_of (\<lambda>d. cd_Admin d \<noteq> None) cd_Admin None ds \<and>
    rv_Telemetry r = block_of (\<lambda>d. cd_Telemetry d \<noteq> None) cd_Telemetry None ds \<and>
    rv_Pricing r = block_of (\<lambda>d. cd_Pricing d \<noteq> None) cd_Pricing None ds \<and>
    rv_Advisors r = block_of (\<lambda>d. cd_Advisors d \<noteq> []) cd_Advisors [] ds"
  using merged_seen [OF assms] providers_block.merged [OF assms] groups_block.merged [OF assms]
    configurations_block.merged [OF assms] api_keys_block.merged [OF assms] connectors_block.merged [OF assms]
    rules_block.merged [OF assms] admin_block.merged [OF assms] telemetry_block.merged [OF assms]
    pricing_block.merged [OF assms] advisors_block.merged [OF assms]
  by (simp add: empty_resolved_def)

definition sample_doc :: config_doc where
  "sample_doc =
     \<lparr>cd_Providers = [], cd_Groups = [], cd_Configurations = [], cd_APIKeys = [], cd_Connectors = [],
      cd_Rules = [], cd_Admin = None, cd_Telemetry = None, cd_Pricing = None, cd_Advisors = []\<rparr>"

lemma merge_by_block_witness:
  "\<exists>r seen. merge_files (decoded [(''a.yaml'', sample_doc\<lparr>cd_Admin := Some ''x''\<rparr>),
       (''b.yaml'', sample_doc\<lparr>cd_Telemetry := Some ''y''\<rparr>)]) (empty_resolved, []) = Inr (r, seen) \<and>
     rv_Admin r = Some ''x'' \<and> map_of seen ''telemetry'' = Some ''b.yaml''"
proof -
  let ?ds = "[(''a.yaml'', sample_doc\<lparr>cd_Admin := Some ''x''\<rparr>), (''b.yaml'', sample_doc\<lparr>cd_Telemetry := Some ''y''\<rparr>)]"
  obtain r seen where m: "merge_files (decoded ?ds) (empty_resolved, []) = Inr (r, seen)"
    by (simp add: mergeDoc_def doc_claims_def sample_doc_def)
  have "rv_Admin r = Some ''x''" using merge_by_block [OF m] by (simp add: sample_doc_def block_of_def)
  moreover have "map_of seen ''telemetry'' = Some ''b.yaml''"
    using merge_by_block [OF m] by (simp add: sample_doc_def set_blocks_def doc_claims_def)
  ultimately show ?thesis using m by blast
qed

end
