(* ===== verification/Config_Write.thy ===== *)
theory Config_Write
  imports Config_Load
begin

text \<open>
  Persisting a configuration, \<^verbatim>\<open>internal/config/config_writer.go\<close>: which blocks go to which file and
  which files are rewritten. A directory maps file names to the document a file decodes to, so a write
  stores what the encoded document decodes to. That is the document, but for the values of body
  rewrites: \<^verbatim>\<open>RewriteValue\<close> decodes itself from YAML and has no encoder of its own. (The unknown
  fields \<^verbatim>\<open>DynamicProperties.Extra\<close> keeps are not part of the model; YAML drops them.) A write may
  fail per file.
\<close>

section \<open>Placement of blocks\<close>

definition writableBlockOrder :: "string list" where
  "writableBlockOrder =
     [''providers'', ''groups'', ''configurations'', ''api_keys'', ''rules'', ''connectors'', ''admin'',
      ''telemetry'', ''pricing'', ''advisors'']"

definition editableBlocks :: "string list" where
  "editableBlocks = [''providers'', ''groups'', ''configurations'', ''api_keys'', ''rules'', ''connectors'']"

definition defaultBlockFile :: "string \<Rightarrow> string" where
  "defaultBlockFile b =
     (if b = ''providers'' \<or> b = ''groups'' then ''providers.yaml''
      else if b = ''admin'' then ''admin.yaml'' else ''policy.yaml'')"

definition block_flags :: "resolved_config \<Rightarrow> (string \<times> bool) list" where
  "block_flags r =
     [(''providers'', rv_Providers r \<noteq> []), (''groups'', rv_Groups r \<noteq> []),
      (''configurations'', rv_Configurations r \<noteq> []), (''api_keys'', rv_APIKeys r \<noteq> []),
      (''rules'', rv_Rules r \<noteq> []), (''connectors'', rv_Connectors r \<noteq> []), (''admin'', rv_Admin r \<noteq> None),
      (''telemetry'', map_of (rv_SourceFiles r) ''telemetry'' \<noteq> None), (''pricing'', rv_Pricing r \<noteq> None),
      (''advisors'', rv_Advisors r \<noteq> [])]"

definition blockPresence :: "resolved_config \<Rightarrow> string list" where
  "blockPresence r = map fst (filter snd (block_flags r))"

definition source_file :: "resolved_config \<Rightarrow> string \<Rightarrow> string" where
  "source_file r b = (case map_of (rv_SourceFiles r) b of None \<Rightarrow> [] | Some f \<Rightarrow> f)"

definition fileFor :: "resolved_config \<Rightarrow> string \<Rightarrow> string" where
  "fileFor r b = (if source_file r b \<noteq> [] then source_file r b else defaultBlockFile b)"

definition filesToWrite :: "resolved_config \<Rightarrow> string list" where
  "filesToWrite r =
     remdups (map (fileFor r) (filter (\<lambda>b. b \<in> set (blockPresence r)) editableBlocks) @
       map (source_file r) (filter (\<lambda>b. b \<notin> set (blockPresence r) \<and> source_file r b \<noteq> []) editableBlocks))"

definition fileBlocks :: "resolved_config \<Rightarrow> string \<Rightarrow> string list" where
  "fileBlocks r f = filter (\<lambda>b. b \<in> set (blockPresence r) \<and> fileFor r b = f) writableBlockOrder"

section \<open>Documents\<close>

text \<open>
  A document with some blocks of a configuration: \<^verbatim>\<open>appendResolvedBlock\<close> for each of them, into an
  empty file.
\<close>

definition appendResolvedBlocks :: "resolved_config \<Rightarrow> string list \<Rightarrow> config_doc" where
  "appendResolvedBlocks r bs =
     \<lparr>cd_Providers = (if ''providers'' \<in> set bs then rv_Providers r else []),
      cd_Groups = (if ''groups'' \<in> set bs then rv_Groups r else []),
      cd_Configurations = (if ''configurations'' \<in> set bs then rv_Configurations r else []),
      cd_APIKeys = (if ''api_keys'' \<in> set bs then rv_APIKeys r else []),
      cd_Connectors = (if ''connectors'' \<in> set bs then rv_Connectors r else []),
      cd_Rules = (if ''rules'' \<in> set bs then rv_Rules r else []),
      cd_Admin = (if ''admin'' \<in> set bs then rv_Admin r else None),
      cd_Telemetry = (if ''telemetry'' \<in> set bs then rv_Telemetry r else None),
      cd_Pricing = (if ''pricing'' \<in> set bs then rv_Pricing r else None),
      cd_Advisors = (if ''advisors'' \<in> set bs then rv_Advisors r else [])\<rparr>"

definition file_doc :: "resolved_config \<Rightarrow> string \<Rightarrow> config_doc" where
  "file_doc r f = appendResolvedBlocks r (fileBlocks r f)"

section \<open>Writing\<close>

type_synonym config_dir = "(string \<times> config_doc) list"

text \<open>
  What a rule reads back as. \<^verbatim>\<open>yaml.v3\<close> encodes a \<^verbatim>\<open>RewriteValue\<close>, a struct without an encoder, as the
  mapping of its three fields, whatever its kind; the branch of \<^verbatim>\<open>UnmarshalYAML\<close> for a mapping makes a
  structured literal of it. \<open>enc v\<close> is the JSON text of that mapping.
\<close>

definition yaml_value :: "(rewrite_value \<Rightarrow> string) \<Rightarrow> rewrite_value \<Rightarrow> rewrite_value" where
  "yaml_value enc v = RVStructured (enc v)"

fun yaml_action :: "(rewrite_value \<Rightarrow> string) \<Rightarrow> action \<Rightarrow> action" where
  "yaml_action enc (RewriteFieldAction a) = RewriteFieldAction (a\<lparr>rf_Value := yaml_value enc (rf_Value a)\<rparr>)"
| "yaml_action enc (AppendFieldAction a) = AppendFieldAction (a\<lparr>af_Value := yaml_value enc (af_Value a)\<rparr>)"
| "yaml_action enc a = a"

definition yaml_rule :: "(rewrite_value \<Rightarrow> string) \<Rightarrow> rule_contract \<Rightarrow> rule_contract" where
  "yaml_rule enc x = x\<lparr>rule_Actions := map (yaml_action enc) (rule_Actions x)\<rparr>"

definition reread :: "(rewrite_value \<Rightarrow> string) \<Rightarrow> resolved_config \<Rightarrow> resolved_config" where
  "reread enc r = r\<lparr>rv_Rules := map (yaml_rule enc) (rv_Rules r)\<rparr>"

text \<open>The writes in file order; the first one that fails ends the loop with what was written.\<close>

fun write_files ::
  "(rewrite_value \<Rightarrow> string) \<Rightarrow> (string \<Rightarrow> bool) \<Rightarrow> resolved_config \<Rightarrow> string list \<Rightarrow> config_dir \<Rightarrow>
     config_dir \<times> bool"
where
  "write_files enc writable r [] dir = (dir, True)"
| "write_files enc writable r (f # fs) dir =
     (if writable f
      then write_files enc writable r fs (AList.update f (file_doc (reread enc r) f) dir) else (dir, False))"

definition WriteConfig ::
  "(rewrite_value \<Rightarrow> string) \<Rightarrow> (string \<Rightarrow> bool) \<Rightarrow> resolved_config \<Rightarrow> config_dir \<Rightarrow> config_dir \<times> bool" where
  "WriteConfig enc writable r dir = write_files enc writable r (sort (filesToWrite r)) dir"

lemma reread_keeps [simp]:
  "blockPresence (reread enc r) = blockPresence r" "fileFor (reread enc r) b = fileFor r b"
  "filesToWrite (reread enc r) = filesToWrite r" "rv_Telemetry (reread enc r) = rv_Telemetry r"
  "source_file (reread enc r) b = source_file r b"
proof -
  have f: "block_flags (reread enc r) = block_flags r" by (simp add: reread_def block_flags_def)
  then show p: "blockPresence (reread enc r) = blockPresence r" by (simp add: blockPresence_def)
  show src: "source_file (reread enc r) b = source_file r b" for b by (simp add: reread_def source_file_def)
  then show ff: "fileFor (reread enc r) b = fileFor r b" for b by (simp add: fileFor_def)
  show "filesToWrite (reread enc r) = filesToWrite r"
    unfolding filesToWrite_def by (simp add: p src ff cong: map_cong)
  show "rv_Telemetry (reread enc r) = rv_Telemetry r" by (simp add: reread_def)
qed

lemma yaml_rule_keeps [simp]:
  "rule_Name (yaml_rule enc x) = rule_Name x" "rule_Condition (yaml_rule enc x) = rule_Condition x"
  "rule_Validate lib (yaml_rule enc x) = rule_Validate lib x"
proof -
  have a: "validate_action lib (yaml_action enc a) = validate_action lib a" for a by (cases a) simp_all
  have "validate_actions lib (map (yaml_action enc) as) = validate_actions lib as" for as
    by (induction as) (simp_all add: a split: option.split)
  then show "rule_Validate lib (yaml_rule enc x) = rule_Validate lib x" by (simp add: yaml_rule_def rule_Validate_def split: rule_behavior.split option.split)
qed (simp_all add: yaml_rule_def)

lemma reread_valid: "config_Validate env (reread enc r) = config_Validate env r"
proof -
  have "validate_rules lib seen (map (yaml_rule enc) rs) = validate_rules lib seen rs" for lib seen rs
    by (induction rs arbitrary: seen) simp_all
  then have l: "validateLibraries env (reread enc r) = validateLibraries env r"
    by (simp add: validateLibraries_def reread_def)
  have d: "ruleDefined (map (yaml_rule enc) rs) n = ruleDefined rs n" for rs n
    by (simp add: ruleDefined_def list_ex_iff)
  have b: "validate_bindings (reread enc r) c e bs = validate_bindings r c e bs" for c e bs
  proof -
    have "rv_Providers (reread enc r) = rv_Providers r" "rv_Groups (reread enc r) = rv_Groups r"
      by (simp_all add: reread_def)
    then have "validate_destination (reread enc r) b = validate_destination r b" for b
      by (simp only: validate_destination_def)
    then show ?thesis by (induction bs arbitrary: c e) (simp_all split: sum.split)
  qed
  have "validate_configuration (reread enc r) = validate_configuration r"
    unfolding validate_configuration_def b by (simp add: reread_def d fun_eq_iff)
  moreover have k: "rv_Providers (reread enc r) = rv_Providers r" "rv_Groups (reread enc r) = rv_Groups r"
    "rv_Configurations (reread enc r) = rv_Configurations r" "rv_APIKeys (reread enc r) = rv_APIKeys r"
    "rv_Pricing (reread enc r) = rv_Pricing r" "rv_Advisors (reread enc r) = rv_Advisors r"
    by (simp_all add: reread_def)
  moreover have "validateAdvisors env (reread enc r) = validateAdvisors env r" by (simp only: validateAdvisors_def k)
  ultimately show ?thesis using l
    by (simp only: config_Validate_def validateProviders_def validateGroups_def validateConfigurations_def)
qed

text \<open>Whether an action carries a value, and a rule does.\<close>

fun sets_value :: "action \<Rightarrow> bool" where
  "sets_value (RewriteFieldAction a) = True"
| "sets_value (AppendFieldAction a) = True"
| "sets_value _ = False"

definition rule_sets_value :: "rule_contract \<Rightarrow> bool" where
  "rule_sets_value x = list_ex sets_value (rule_Actions x)"

lemma yaml_rule_id: "\<not> rule_sets_value x \<Longrightarrow> yaml_rule enc x = x"
proof -
  assume n: "\<not> rule_sets_value x"
  have "\<not> sets_value a \<Longrightarrow> yaml_action enc a = a" for a by (cases a) simp_all
  then have "map (yaml_action enc) (rule_Actions x) = rule_Actions x"
    using n by (intro map_idI) (auto simp: rule_sets_value_def list_ex_iff)
  then show ?thesis by (simp add: yaml_rule_def)
qed

lemma reread_id: "\<not> list_ex rule_sets_value (rv_Rules r) \<Longrightarrow> reread enc r = r"
proof -
  assume "\<not> list_ex rule_sets_value (rv_Rules r)"
  then have "map (yaml_rule enc) (rv_Rules r) = rv_Rules r"
    by (intro map_idI yaml_rule_id) (auto simp: list_ex_iff)
  then show ?thesis by (simp add: reread_def)
qed

section \<open>Directory and configuration in step\<close>

text \<open>A block of a document is the configuration's.\<close>

definition block_eq :: "resolved_config \<Rightarrow> config_doc \<Rightarrow> string \<Rightarrow> bool" where
  "block_eq r d b \<longleftrightarrow>
     (b = ''providers'' \<longrightarrow> cd_Providers d = rv_Providers r) \<and>
     (b = ''groups'' \<longrightarrow> cd_Groups d = rv_Groups r) \<and>
     (b = ''configurations'' \<longrightarrow> cd_Configurations d = rv_Configurations r) \<and>
     (b = ''api_keys'' \<longrightarrow> cd_APIKeys d = rv_APIKeys r) \<and>
     (b = ''rules'' \<longrightarrow> cd_Rules d = rv_Rules r) \<and>
     (b = ''connectors'' \<longrightarrow> cd_Connectors d = rv_Connectors r) \<and>
     (b = ''admin'' \<longrightarrow> cd_Admin d = rv_Admin r) \<and>
     (b = ''telemetry'' \<longrightarrow> cd_Telemetry d = rv_Telemetry r) \<and>
     (b = ''pricing'' \<longrightarrow> cd_Pricing d = rv_Pricing r) \<and>
     (b = ''advisors'' \<longrightarrow> cd_Advisors d = rv_Advisors r)"

text \<open>
  Each block that is present is set by its file, with the configuration's value, and by no other
  file; a block that is not present is set nowhere. The telemetry block is recorded with its origin.
\<close>

definition in_step :: "config_dir \<Rightarrow> resolved_config \<Rightarrow> bool" where
  "in_step dir r \<longleftrightarrow>
     distinct (map fst dir) \<and>
     (rv_Telemetry r \<noteq> None \<longleftrightarrow> ''telemetry'' \<in> set (blockPresence r)) \<and>
     (\<forall>(f, d) \<in> set dir. \<forall>b \<in> set_blocks d. b \<in> set (blockPresence r) \<and> fileFor r b = f \<and> block_eq r d b) \<and>
     (\<forall>b \<in> set (blockPresence r). \<exists>d. (fileFor r b, d) \<in> set dir \<and> b \<in> set_blocks d)"

lemma blocks_writable: "b \<in> set (blockPresence r) \<Longrightarrow> b \<in> set writableBlockOrder"
proof -
  assume "b \<in> set (blockPresence r)"
  then have "b \<in> set (map fst (block_flags r))" by (auto simp: blockPresence_def)
  then show "b \<in> set writableBlockOrder" by (simp add: block_flags_def writableBlockOrder_def)
qed

lemma set_blocks_writable: "b \<in> set_blocks d \<Longrightarrow> b \<in> set writableBlockOrder"
  by (auto simp: set_blocks_def doc_claims_def writableBlockOrder_def)

lemmas block_claims = providers_block.claimed groups_block.claimed configurations_block.claimed
  api_keys_block.claimed connectors_block.claimed rules_block.claimed admin_block.claimed
  telemetry_block.claimed pricing_block.claimed advisors_block.claimed

lemma present_iff: "b \<in> set (blockPresence r) \<longleftrightarrow> (b, True) \<in> set (block_flags r)"
  by (force simp: blockPresence_def)

lemma block_present:
  "''providers'' \<in> set (blockPresence r) \<longleftrightarrow> rv_Providers r \<noteq> []"
  "''groups'' \<in> set (blockPresence r) \<longleftrightarrow> rv_Groups r \<noteq> []"
  "''configurations'' \<in> set (blockPresence r) \<longleftrightarrow> rv_Configurations r \<noteq> []"
  "''api_keys'' \<in> set (blockPresence r) \<longleftrightarrow> rv_APIKeys r \<noteq> []"
  "''rules'' \<in> set (blockPresence r) \<longleftrightarrow> rv_Rules r \<noteq> []"
  "''connectors'' \<in> set (blockPresence r) \<longleftrightarrow> rv_Connectors r \<noteq> []"
  "''admin'' \<in> set (blockPresence r) \<longleftrightarrow> rv_Admin r \<noteq> None"
  "''telemetry'' \<in> set (blockPresence r) \<longleftrightarrow> map_of (rv_SourceFiles r) ''telemetry'' \<noteq> None"
  "''pricing'' \<in> set (blockPresence r) \<longleftrightarrow> rv_Pricing r \<noteq> None"
  "''advisors'' \<in> set (blockPresence r) \<longleftrightarrow> rv_Advisors r \<noteq> []"
  by (simp_all add: present_iff block_flags_def)

lemma appended_blocks:
  assumes "rv_Telemetry r \<noteq> None \<longleftrightarrow> ''telemetry'' \<in> set (blockPresence r)"
  shows "b \<in> set_blocks (appendResolvedBlocks r bs) \<longleftrightarrow> b \<in> set writableBlockOrder \<and> b \<in> set bs \<and> b \<in> set (blockPresence r)"
    "b \<in> set bs \<Longrightarrow> block_eq r (appendResolvedBlocks r bs) b"
proof -
  have "\<forall>b \<in> set writableBlockOrder. b \<in> set_blocks (appendResolvedBlocks r bs) \<longleftrightarrow> b \<in> set bs \<and> b \<in> set (blockPresence r)"
    using assms unfolding block_present
    by (simp add: writableBlockOrder_def block_claims block_present appendResolvedBlocks_def)
  then show "b \<in> set_blocks (appendResolvedBlocks r bs) \<longleftrightarrow> b \<in> set writableBlockOrder \<and> b \<in> set bs \<and> b \<in> set (blockPresence r)"
    using set_blocks_writable by blast
  show "b \<in> set bs \<Longrightarrow> block_eq r (appendResolvedBlocks r bs) b"
    unfolding block_eq_def appendResolvedBlocks_def by (intro conjI impI) simp_all
qed

lemma file_doc_blocks:
  assumes "rv_Telemetry r \<noteq> None \<longleftrightarrow> ''telemetry'' \<in> set (blockPresence r)"
  shows "b \<in> set_blocks (file_doc r f) \<longleftrightarrow> b \<in> set (blockPresence r) \<and> fileFor r b = f"
    "b \<in> set_blocks (file_doc r f) \<Longrightarrow> block_eq r (file_doc r f) b"
proof -
  have "b \<in> set (fileBlocks r f) \<longleftrightarrow> b \<in> set (blockPresence r) \<and> fileFor r b = f" for b
    using blocks_writable by (auto simp: fileBlocks_def)
  then show "b \<in> set_blocks (file_doc r f) \<longleftrightarrow> b \<in> set (blockPresence r) \<and> fileFor r b = f"
    "b \<in> set_blocks (file_doc r f) \<Longrightarrow> block_eq r (file_doc r f) b"
    using appended_blocks [OF assms, of b "fileBlocks r f"] blocks_writable by (auto simp: file_doc_def)
qed

lemma fold_update_docs:
  "map_of (fold (\<lambda>f d. AList.update f (file_doc r f) d) fs dir) f =
     (if f \<in> set fs then Some (file_doc r f) else map_of dir f)"
  "distinct (map fst dir) \<Longrightarrow> distinct (map fst (fold (\<lambda>f d. AList.update f (file_doc r f) d) fs dir))"
  by (induction fs arbitrary: dir) (auto simp: update_conv' distinct_update)

section \<open>Writing keeps the directory in step\<close>

lemma WriteConfig_docs:
  assumes "WriteConfig enc writable r dir = (dir', True)"
  shows "map_of dir' f = (if f \<in> set (filesToWrite r) then Some (file_doc (reread enc r) f) else map_of dir f)"
    "distinct (map fst dir) \<Longrightarrow> distinct (map fst dir')"
proof -
  have w: "write_files enc writable r fs dir = (dir', True) \<Longrightarrow>
      dir' = fold (\<lambda>f d. AList.update f (file_doc (reread enc r) f) d) fs dir" for fs
    by (induction fs arbitrary: dir) (auto split: if_splits)
  have "dir' = fold (\<lambda>f d. AList.update f (file_doc (reread enc r) f) d) (sort (filesToWrite r)) dir"
    using assms by (intro w) (simp add: WriteConfig_def)
  then show "map_of dir' f = (if f \<in> set (filesToWrite r) then Some (file_doc (reread enc r) f) else map_of dir f)"
    "distinct (map fst dir) \<Longrightarrow> distinct (map fst dir')"
    using fold_update_docs by simp_all
qed

text \<open>A block that became absent is in a file that is rewritten.\<close>

definition removals_written :: "resolved_config \<Rightarrow> resolved_config \<Rightarrow> bool" where
  "removals_written r r' \<longleftrightarrow>
     (\<forall>b \<in> set (blockPresence r) - set (blockPresence r'). fileFor r b \<in> set (filesToWrite r'))"

text \<open>A change of the editable blocks only.\<close>

definition same_frame :: "resolved_config \<Rightarrow> resolved_config \<Rightarrow> bool" where
  "same_frame r r' \<longleftrightarrow>
     rv_SourceFiles r' = rv_SourceFiles r \<and> rv_Admin r' = rv_Admin r \<and> rv_Telemetry r' = rv_Telemetry r \<and>
     rv_Pricing r' = rv_Pricing r \<and> rv_Advisors r' = rv_Advisors r"

lemma frame_fileFor: "same_frame r r' \<Longrightarrow> fileFor r' b = fileFor r b"
  by (simp add: same_frame_def fileFor_def source_file_def)

lemma frame_block:
  assumes "same_frame r r'" and "b \<in> set writableBlockOrder" and "b \<notin> set editableBlocks"
  shows "b \<in> set (blockPresence r') \<longleftrightarrow> b \<in> set (blockPresence r)" "block_eq r' d b \<longleftrightarrow> block_eq r d b"
proof -
  have "set writableBlockOrder - set editableBlocks = set [''admin'', ''telemetry'', ''pricing'', ''advisors'']"
    by code_simp
  then have "b \<in> set [''admin'', ''telemetry'', ''pricing'', ''advisors'']" using assms(2,3) by blast
  then consider "b = ''admin''" | "b = ''telemetry''" | "b = ''pricing''" | "b = ''advisors''" by auto
  then show "b \<in> set (blockPresence r') \<longleftrightarrow> b \<in> set (blockPresence r)" "block_eq r' d b \<longleftrightarrow> block_eq r d b"
    using assms(1) by (cases; simp add: block_present same_frame_def block_eq_def)+
qed

lemma editable_present_written:
  "b \<in> set editableBlocks \<Longrightarrow> b \<in> set (blockPresence r) \<Longrightarrow> fileFor r b \<in> set (filesToWrite r)"
  by (auto simp: filesToWrite_def)

lemma docs_keep_step:
  assumes "in_step dir r" and "same_frame r r'" and "removals_written r r'" and dd': "distinct (map fst dir')"
    and docs: "\<And>f. map_of dir' f = (if f \<in> set (filesToWrite r') then Some (file_doc r' f) else map_of dir f)"
  shows "in_step dir' r'"
proof -
  have dd: "distinct (map fst dir)" using assms(1) by (simp add: in_step_def)
  have ff: "fileFor r' b = fileFor r b" for b by (rule frame_fileFor [OF assms(2)])
  have tele: "rv_Telemetry r' \<noteq> None \<longleftrightarrow> ''telemetry'' \<in> set (blockPresence r')"
    using assms(1,2) by (simp add: in_step_def same_frame_def block_present)
  have old: "b \<in> set (blockPresence r) \<and> fileFor r b = f \<and> block_eq r d b"
    if "(f, d) \<in> set dir" "b \<in> set_blocks d" for f d b
    using assms(1) that by (fastforce simp: in_step_def)
  have sound: "b \<in> set (blockPresence r') \<and> fileFor r' b = f \<and> block_eq r' d b"
    if m: "(f, d) \<in> set dir'" "b \<in> set_blocks d" for f d b
  proof (cases "f \<in> set (filesToWrite r')")
    case True
    then have "d = file_doc r' f" using docs [of f] m(1) dd' by auto
    then show ?thesis using file_doc_blocks [OF tele, of b f] m(2) by auto
  next
    case False
    then have "map_of dir f = Some d" using docs [of f] m(1) dd' by auto
    then have o: "b \<in> set (blockPresence r)" "fileFor r b = f" "block_eq r d b"
      using old [OF map_of_SomeD m(2)] by auto
    have p: "b \<in> set (blockPresence r')" using assms(3) o False by (auto simp: removals_written_def)
    then have ne: "b \<notin> set editableBlocks" using editable_present_written [of b r'] False o(2) ff by auto
    show ?thesis using p o ff frame_block(2) [OF assms(2) blocks_writable [OF o(1)] ne] by simp
  qed
  have complete: "\<exists>d. (fileFor r' b, d) \<in> set dir' \<and> b \<in> set_blocks d" if p: "b \<in> set (blockPresence r')" for b
  proof (cases "fileFor r' b \<in> set (filesToWrite r')")
    case True
    then have "map_of dir' (fileFor r' b) = Some (file_doc r' (fileFor r' b))" using docs by simp
    then show ?thesis using file_doc_blocks(1) [OF tele] p map_of_SomeD by metis
  next
    case False
    then have ne: "b \<notin> set editableBlocks" using editable_present_written p by blast
    then have "b \<in> set (blockPresence r)" using frame_block(1) [OF assms(2) blocks_writable [OF p] ne] p by simp
    then obtain d where d: "(fileFor r b, d) \<in> set dir" "b \<in> set_blocks d" using assms(1) by (auto simp: in_step_def)
    then have "map_of dir' (fileFor r' b) = Some d" using docs [of "fileFor r' b"] False ff dd by simp
    then show ?thesis using d(2) map_of_SomeD by metis
  qed
  show ?thesis unfolding in_step_def using dd' tele sound complete by blast
qed

lemma write_keeps_step:
  assumes "in_step dir r" and "same_frame r r'" and "removals_written r r'"
    and "WriteConfig enc writable r' dir = (dir', True)"
  shows "in_step dir' (reread enc r')"
proof (rule docs_keep_step [OF assms(1)])
  show "same_frame r (reread enc r')" using assms(2) by (simp add: same_frame_def reread_def)
  show "removals_written r (reread enc r')" using assms(3) by (simp add: removals_written_def)
  show "distinct (map fst dir')"
    using WriteConfig_docs(2) [OF assms(4)] assms(1) by (simp add: in_step_def)
qed (use WriteConfig_docs(1) [OF assms(4)] in simp)

section \<open>Loading what is in step\<close>

lemma mergeDoc_ok:
  assumes "\<And>b. b \<in> set_blocks d \<Longrightarrow> map_of seen b = None"
  shows "\<exists>r' seen'. mergeDoc f d (r, seen) = Inr (r', seen')"
  using assms by (simp add: mergeDoc_def claim_all_iff [OF claims_distinct] set_blocks_def)

lemma merge_succeeds:
  assumes "\<And>n d b. (n, d) \<in> set ds \<Longrightarrow> b \<in> set_blocks d \<Longrightarrow> map_of seen0 b = None"
    and "\<And>b. length (filter (\<lambda>(n, d). b \<in> set_blocks d) ds) \<le> 1"
  shows "\<exists>r seen. merge_files (decoded ds) (r0, seen0) = Inr (r, seen)"
  using assms
proof (induction ds arbitrary: r0 seen0)
  case (Cons nd ds)
  obtain n d where nd: "nd = (n, d)" by fastforce
  obtain r1 seen1 where m: "mergeDoc n d (r0, seen0) = Inr (r1, seen1)"
    using mergeDoc_ok [of d seen0 n r0] Cons.prems(1) nd by fastforce
  have "map_of seen1 b = None" if "(n', d') \<in> set ds" "b \<in> set_blocks d'" for n' d' b
  proof -
    have "(n', d') \<in> set (filter (\<lambda>(n, d). b \<in> set_blocks d) ds)" using that by simp
    then have "0 < length (filter (\<lambda>(n, d). b \<in> set_blocks d) ds)" by (rule length_pos_if_in_set)
    then have "b \<notin> set_blocks d" using Cons.prems(2) [of b] nd by (simp split: if_splits)
    then show ?thesis using Cons.prems(1) [of n' d' b] that by (simp add: mergeDoc_Inr(3) [OF m])
  qed
  moreover have "length (filter (\<lambda>(n, d). b \<in> set_blocks d) ds) \<le> 1" for b
    using Cons.prems(2) [of b] by (simp split: if_splits)
  ultimately have "\<exists>r seen. merge_files (decoded ds) (r1, seen1) = Inr (r, seen)" by (rule Cons.IH)
  then show ?case using m nd by auto
qed simp

lemma one_file:
  assumes "distinct (map fst ds)" and "\<And>f d. (f, d) \<in> set ds \<Longrightarrow> P d \<Longrightarrow> f = g"
  shows "length (filter (\<lambda>(n, d). P d) ds) \<le> 1"
proof -
  have "set (map fst (filter (\<lambda>(n, d). P d) ds)) \<subseteq> {g}" using assms(2) by auto
  moreover have "distinct (map fst (filter (\<lambda>(n, d). P d) ds))" by (rule distinct_map_filter [OF assms(1)])
  ultimately show ?thesis
    by (metis (no_types, lifting) card_mono distinct_card finite.emptyI finite.insertI is_singletonI
        is_singleton_altdef length_map)
qed

lemma block_of_value:
  assumes "\<And>d. d \<in> snd ` set ds \<Longrightarrow> P d \<Longrightarrow> g d = v"
    and "(\<exists>d \<in> snd ` set ds. P d) \<or> v = none"
  shows "block_of P g none ds = v"
proof (cases "filter P (map snd ds)")
  case Nil
  then have "\<not> (\<exists>d \<in> snd ` set ds. P d)" by (auto simp: filter_empty_conv)
  then show ?thesis using assms(2) Nil by (simp add: block_of_def)
next
  case (Cons d xs)
  then have "d \<in> set (filter P (map snd ds))" by simp
  then have "d \<in> snd ` set ds" "P d" by auto
  then show ?thesis using assms(1) Cons by (simp add: block_of_def)
qed

lemma block_in_step:
  assumes "\<And>f d b. (f, d) \<in> set ds \<Longrightarrow> b \<in> set_blocks d \<Longrightarrow>
      b \<in> set (blockPresence r) \<and> fileFor r b = f \<and> block_eq r d b"
    and "\<And>b. b \<in> set (blockPresence r) \<Longrightarrow> \<exists>d. (fileFor r b, d) \<in> set ds \<and> b \<in> set_blocks d"
    and "\<And>d. P d \<longleftrightarrow> b \<in> set_blocks d" and "\<And>d. block_eq r d b \<Longrightarrow> g d = v"
    and "b \<in> set (blockPresence r) \<or> v = none"
  shows "block_of P g none ds = v"
proof (rule block_of_value)
  show "\<And>d. d \<in> snd ` set ds \<Longrightarrow> P d \<Longrightarrow> g d = v" using assms(1,3,4) by force
  show "(\<exists>d \<in> snd ` set ds. P d) \<or> v = none" using assms(2,3,5) by force
qed

text \<open>The blocks of two configurations agree.\<close>

definition same_blocks :: "resolved_config \<Rightarrow> resolved_config \<Rightarrow> bool" where
  "same_blocks r r' \<longleftrightarrow>
     rv_Providers r = rv_Providers r' \<and> rv_Groups r = rv_Groups r' \<and> rv_Configurations r = rv_Configurations r' \<and>
     rv_APIKeys r = rv_APIKeys r' \<and> rv_Connectors r = rv_Connectors r' \<and> rv_Rules r = rv_Rules r' \<and>
     rv_Admin r = rv_Admin r' \<and> rv_Telemetry r = rv_Telemetry r' \<and> rv_Pricing r = rv_Pricing r' \<and>
     rv_Advisors r = rv_Advisors r'"

lemma merge_in_step:
  assumes "in_step dir r" and "set ds = set dir" and "distinct (map fst ds)"
  shows "\<exists>r2 seen. merge_files (decoded ds) (empty_resolved, []) = Inr (r2, seen) \<and> same_blocks r2 r"
proof -
  have sound: "\<And>f d b. (f, d) \<in> set ds \<Longrightarrow> b \<in> set_blocks d \<Longrightarrow>
      b \<in> set (blockPresence r) \<and> fileFor r b = f \<and> block_eq r d b"
    using assms(1,2) by (fastforce simp: in_step_def)
  have complete: "\<And>b. b \<in> set (blockPresence r) \<Longrightarrow> \<exists>d. (fileFor r b, d) \<in> set ds \<and> b \<in> set_blocks d"
    using assms(1,2) by (auto simp: in_step_def)
  have tele: "rv_Telemetry r \<noteq> None \<longleftrightarrow> ''telemetry'' \<in> set (blockPresence r)" using assms(1) by (simp add: in_step_def)
  have "length (filter (\<lambda>(n, d). b \<in> set_blocks d) ds) \<le> 1" for b
    by (rule one_file [OF assms(3), where g = "fileFor r b"]) (use sound in blast)
  then obtain r2 seen where m: "merge_files (decoded ds) (empty_resolved, []) = Inr (r2, seen)"
    using merge_succeeds [of ds "[]" empty_resolved] by auto
  have "rv_Providers r2 = rv_Providers r"
    unfolding providers_block.merged [OF m]
    by (rule block_in_step [OF sound complete, where b = "''providers''"]) (simp_all add: block_claims block_present block_eq_def empty_resolved_def)
  moreover have "rv_Groups r2 = rv_Groups r"
    unfolding groups_block.merged [OF m]
    by (rule block_in_step [OF sound complete, where b = "''groups''"]) (simp_all add: block_claims block_present block_eq_def empty_resolved_def)
  moreover have "rv_Configurations r2 = rv_Configurations r"
    unfolding configurations_block.merged [OF m]
    by (rule block_in_step [OF sound complete, where b = "''configurations''"]) (simp_all add: block_claims block_present block_eq_def empty_resolved_def)
  moreover have "rv_APIKeys r2 = rv_APIKeys r"
    unfolding api_keys_block.merged [OF m]
    by (rule block_in_step [OF sound complete, where b = "''api_keys''"]) (simp_all add: block_claims block_present block_eq_def empty_resolved_def)
  moreover have "rv_Connectors r2 = rv_Connectors r"
    unfolding connectors_block.merged [OF m]
    by (rule block_in_step [OF sound complete, where b = "''connectors''"]) (simp_all add: block_claims block_present block_eq_def empty_resolved_def)
  moreover have "rv_Rules r2 = rv_Rules r"
    unfolding rules_block.merged [OF m]
    by (rule block_in_step [OF sound complete, where b = "''rules''"]) (simp_all add: block_claims block_present block_eq_def empty_resolved_def)
  moreover have "rv_Admin r2 = rv_Admin r"
    unfolding admin_block.merged [OF m]
    by (rule block_in_step [OF sound complete, where b = "''admin''"]) (auto simp: block_claims block_present block_eq_def empty_resolved_def)
  moreover have "rv_Telemetry r2 = rv_Telemetry r"
    unfolding telemetry_block.merged [OF m]
    by (rule block_in_step [OF sound complete, where b = "''telemetry''"])
       (use tele in \<open>auto simp: block_claims block_eq_def empty_resolved_def\<close>)
  moreover have "rv_Pricing r2 = rv_Pricing r"
    unfolding pricing_block.merged [OF m]
    by (rule block_in_step [OF sound complete, where b = "''pricing''"]) (auto simp: block_claims block_present block_eq_def empty_resolved_def)
  moreover have "rv_Advisors r2 = rv_Advisors r"
    unfolding advisors_block.merged [OF m]
    by (rule block_in_step [OF sound complete, where b = "''advisors''"]) (simp_all add: block_claims block_present block_eq_def empty_resolved_def)
  ultimately show ?thesis using m by (simp add: same_blocks_def)
qed

lemma validate_bindings_cong:
  assumes "rv_Providers r = rv_Providers r'" and "rv_Groups r = rv_Groups r'"
  shows "validate_bindings r c e bs = validate_bindings r' c e bs"
proof -
  have "validate_destination r b = validate_destination r' b" for b
    by (simp only: validate_destination_def assms)
  then show ?thesis by (induction bs arbitrary: c e) (simp_all split: sum.split)
qed

lemma validate_same_blocks:
  assumes "same_blocks r r'"
  shows "config_Validate env r = config_Validate env r'"
proof -
  have "validate_configuration r = validate_configuration r'"
    using assms validate_bindings_cong [of r r'] by (auto simp: validate_configuration_def same_blocks_def)
  moreover have "rv_Advisors r = rv_Advisors r'" "rv_Configurations r = rv_Configurations r'"
    using assms by (simp_all add: same_blocks_def)
  then have "validateAdvisors env r = validateAdvisors env r'" by (simp only: validateAdvisors_def)
  ultimately show ?thesis
    using assms
    by (simp add: same_blocks_def config_Validate_def validateProviders_def validateGroups_def validateLibraries_def
        validateConfigurations_def)
qed

text \<open>A directory as the loader lists it.\<close>

definition dir_entries :: "config_dir \<Rightarrow> dir_entry list" where
  "dir_entries dir = map (\<lambda>(f, d). \<lparr>de_Name = f, de_IsDir = False, de_Content = Decoded d\<rparr>) dir"

definition yaml_names :: "config_dir \<Rightarrow> bool" where
  "yaml_names dir \<longleftrightarrow> list_all (\<lambda>f. has_suffix f ''.yaml'') (map fst dir)"

lemma Load_dir:
  assumes "distinct (map fst dir)" and "yaml_names dir" and "dir \<noteq> []"
  obtains ds where "set ds = set dir" "distinct (map fst ds)"
    "Load env defaults (dir_entries dir) =
       (case merge_files (decoded ds) (empty_resolved, []) of
          Inl e \<Rightarrow> Inl e
        | Inr (r, seen) \<Rightarrow> finish_load env defaults r seen)"
proof -
  let ?es = "sort_key de_Name (dir_entries dir)"
  define ds where "ds = map (\<lambda>e. (de_Name e, case de_Content e of Decoded d \<Rightarrow> d)) ?es"
  have dec: "\<And>e. e \<in> set ?es \<Longrightarrow> \<exists>d. de_Content e = Decoded d" by (auto simp: dir_entries_def)
  have files: "filter (\<lambda>e. \<not> de_IsDir e \<and> has_suffix (de_Name e) ''.yaml'') (dir_entries dir) = dir_entries dir"
    using assms(2) by (intro filter_True) (force simp: dir_entries_def yaml_names_def list_all_iff)
  have "map (\<lambda>e. (de_Name e, de_Content e)) ?es = decoded ds"
    unfolding ds_def decoded_def using dec by (force simp: comp_def)
  moreover have "dir_entries dir \<noteq> []" using assms(3) by (simp add: dir_entries_def)
  moreover have "set ds = set dir" by (force simp: ds_def dir_entries_def)
  moreover have "distinct (map fst ds)"
  proof -
    have "map de_Name (dir_entries dir) = map fst dir" by (auto simp: dir_entries_def)
    then have "distinct (map de_Name ?es)"
      using assms(1) by (metis distinct_map distinct_sort set_sort)
    then show ?thesis by (simp add: ds_def comp_def)
  qed
  ultimately show thesis using that [of ds] by (simp add: Load_def Let_def files)
qed

lemma indexes_keep_blocks: "same_blocks (buildIndexes defaults r) r"
  by (simp add: same_blocks_def buildIndexes_def Let_def)

lemma sources_keep_blocks: "same_blocks (r\<lparr>rv_SourceFiles := s\<rparr>) r"
  by (simp add: same_blocks_def)

lemma same_blocks_trans: "same_blocks a b \<Longrightarrow> same_blocks b c \<Longrightarrow> same_blocks a c"
  by (simp add: same_blocks_def)

lemma reload_in_step:
  assumes "in_step dir r" and "yaml_names dir" and "config_Validate env r = None"
  shows "\<exists>r2. Load env defaults (dir_entries dir) = Inr r2 \<and> same_blocks r2 r"
proof -
  have "rv_Configurations r \<noteq> []" using assms(3) by (auto simp: config_Validate_def split: if_splits)
  then have "''configurations'' \<in> set (blockPresence r)" by (simp add: block_present)
  then have ne: "dir \<noteq> []" using assms(1) by (auto simp: in_step_def)
  obtain ds where ds: "set ds = set dir" "distinct (map fst ds)"
    "Load env defaults (dir_entries dir) =
       (case merge_files (decoded ds) (empty_resolved, []) of
          Inl e \<Rightarrow> Inl e
        | Inr (r, seen) \<Rightarrow> finish_load env defaults r seen)"
    by (rule Load_dir [OF _ assms(2) ne]) (use assms(1) in \<open>simp add: in_step_def\<close>)
  obtain r2 seen where m: "merge_files (decoded ds) (empty_resolved, []) = Inr (r2, seen)" and s: "same_blocks r2 r"
    using merge_in_step [OF assms(1) ds(1,2)] by blast
  have s1: "same_blocks (r2\<lparr>rv_SourceFiles := seen\<rparr>) r" using sources_keep_blocks s same_blocks_trans by blast
  then have "config_Validate env (r2\<lparr>rv_SourceFiles := seen\<rparr>) = None" using validate_same_blocks assms(3) by metis
  then have "finish_load env defaults r2 seen = Inr (buildIndexes defaults (r2\<lparr>rv_SourceFiles := seen\<rparr>))"
    unfolding finish_load_def Let_def by (simp only: option.case)
  moreover have "Load env defaults (dir_entries dir) = finish_load env defaults r2 seen" using ds(3) m by simp
  ultimately show ?thesis using same_blocks_trans [OF indexes_keep_blocks s1] by auto
qed

lemma block_of_single:
  assumes "\<And>d'. d' \<in> snd ` set ds \<Longrightarrow> P d' \<Longrightarrow> d' = d" and "d \<in> snd ` set ds" and "P d"
  shows "block_of P g none ds = g d"
proof (rule block_of_value)
  fix d' assume "d' \<in> snd ` set ds" and "P d'"
  from assms(1) [OF this] show "g d' = g d" by (rule arg_cong)
next
  show "(\<exists>d \<in> snd ` set ds. P d) \<or> g d = none" using assms(2,3) by blast
qed

lemma block_of_none:
  assumes "\<And>d. P d \<longleftrightarrow> g d \<noteq> none"
  shows "block_of P g none ds \<noteq> none \<longleftrightarrow> (\<exists>d \<in> snd ` set ds. P d)"
proof (cases "filter P (map snd ds)")
  case Nil
  then show ?thesis by (auto simp: block_of_def filter_empty_conv)
next
  case (Cons d xs)
  then have "d \<in> set (filter P (map snd ds))" by simp
  then have "d \<in> snd ` set ds" "P d" by auto
  then show ?thesis using Cons assms by (auto simp: block_of_def)
qed

lemma loaded_in_step:
  assumes "Load env defaults (dir_entries dir) = Inr r" and "distinct (map fst dir)" and "yaml_names dir"
  shows "in_step dir r"
proof -
  have ne: "dir \<noteq> []" using assms(1) by (auto simp: Load_def dir_entries_def)
  obtain ds where ds: "set ds = set dir" "distinct (map fst ds)"
    "Load env defaults (dir_entries dir) =
       (case merge_files (decoded ds) (empty_resolved, []) of
          Inl e \<Rightarrow> Inl e
        | Inr (r, seen) \<Rightarrow> finish_load env defaults r seen)"
    by (rule Load_dir [OF assms(2,3) ne])
  then obtain r1 seen where m: "merge_files (decoded ds) (empty_resolved, []) = Inr (r1, seen)"
    and r: "r = buildIndexes defaults (r1\<lparr>rv_SourceFiles := seen\<rparr>)"
    using assms(1) by (auto simp: finish_load_def Let_def split: sum.splits option.splits)
  have seen: "map_of seen b = Some f \<longleftrightarrow> (\<exists>d. (f, d) \<in> set dir \<and> b \<in> set_blocks d)" for b f
    using merged_seen [OF m] ds(1) by simp
  have src: "rv_SourceFiles r = seen" by (simp add: r buildIndexes_def Let_def)
  have ff: "fileFor r b = f" if "(f, d) \<in> set dir" "b \<in> set_blocks d" for f d b
  proof -
    have "map_of seen b = Some f" using seen that by blast
    moreover have "f \<noteq> []" using assms(3) that(1) by (auto simp: yaml_names_def list_all_iff has_suffix_iff)
    ultimately show ?thesis by (simp add: fileFor_def source_file_def src)
  qed
  have one: "d = d'" if "(f, d) \<in> set dir" "(f', d') \<in> set dir" "b \<in> set_blocks d" "b \<in> set_blocks d'" for f d f' d' b
  proof -
    have "f = f'" using ff that by metis
    then show ?thesis using that assms(2) by (metis map_of_eq_Some_iff option.inject)
  qed
  let ?has = "\<lambda>b. \<exists>d \<in> snd ` set ds. b \<in> set_blocks d"
  have blocks: "same_blocks r r1" using r indexes_keep_blocks sources_keep_blocks same_blocks_trans by metis
  note merged = providers_block.merged [OF m] groups_block.merged [OF m] configurations_block.merged [OF m]
    api_keys_block.merged [OF m] connectors_block.merged [OF m] rules_block.merged [OF m] admin_block.merged [OF m]
    telemetry_block.merged [OF m] pricing_block.merged [OF m] advisors_block.merged [OF m]
  have vals: "rv_Providers r = block_of (\<lambda>d. cd_Providers d \<noteq> []) cd_Providers [] ds"
    "rv_Groups r = block_of (\<lambda>d. cd_Groups d \<noteq> []) cd_Groups [] ds"
    "rv_Configurations r = block_of (\<lambda>d. cd_Configurations d \<noteq> []) cd_Configurations [] ds"
    "rv_APIKeys r = block_of (\<lambda>d. cd_APIKeys d \<noteq> []) cd_APIKeys [] ds"
    "rv_Connectors r = block_of (\<lambda>d. cd_Connectors d \<noteq> []) cd_Connectors [] ds"
    "rv_Rules r = block_of (\<lambda>d. cd_Rules d \<noteq> []) cd_Rules [] ds"
    "rv_Admin r = block_of (\<lambda>d. cd_Admin d \<noteq> None) cd_Admin None ds"
    "rv_Telemetry r = block_of (\<lambda>d. cd_Telemetry d \<noteq> None) cd_Telemetry None ds"
    "rv_Pricing r = block_of (\<lambda>d. cd_Pricing d \<noteq> None) cd_Pricing None ds"
    "rv_Advisors r = block_of (\<lambda>d. cd_Advisors d \<noteq> []) cd_Advisors [] ds"
    using blocks merged by (simp_all add: same_blocks_def empty_resolved_def)
  have tele: "map_of seen ''telemetry'' \<noteq> None \<longleftrightarrow> ?has ''telemetry''"
    using seen ds(1) by force
  have ne: "rv_Providers r \<noteq> [] \<longleftrightarrow> (\<exists>d \<in> snd ` set ds. cd_Providers d \<noteq> [])"
    "rv_Groups r \<noteq> [] \<longleftrightarrow> (\<exists>d \<in> snd ` set ds. cd_Groups d \<noteq> [])"
    "rv_Configurations r \<noteq> [] \<longleftrightarrow> (\<exists>d \<in> snd ` set ds. cd_Configurations d \<noteq> [])"
    "rv_APIKeys r \<noteq> [] \<longleftrightarrow> (\<exists>d \<in> snd ` set ds. cd_APIKeys d \<noteq> [])"
    "rv_Connectors r \<noteq> [] \<longleftrightarrow> (\<exists>d \<in> snd ` set ds. cd_Connectors d \<noteq> [])"
    "rv_Rules r \<noteq> [] \<longleftrightarrow> (\<exists>d \<in> snd ` set ds. cd_Rules d \<noteq> [])"
    "rv_Admin r \<noteq> None \<longleftrightarrow> (\<exists>d \<in> snd ` set ds. cd_Admin d \<noteq> None)"
    "rv_Telemetry r \<noteq> None \<longleftrightarrow> (\<exists>d \<in> snd ` set ds. cd_Telemetry d \<noteq> None)"
    "rv_Pricing r \<noteq> None \<longleftrightarrow> (\<exists>d \<in> snd ` set ds. cd_Pricing d \<noteq> None)"
    "rv_Advisors r \<noteq> [] \<longleftrightarrow> (\<exists>d \<in> snd ` set ds. cd_Advisors d \<noteq> [])"
    unfolding vals by (rule block_of_none; rule refl)+
  have "\<forall>b \<in> set [''providers'', ''groups'', ''configurations'', ''api_keys'', ''rules'', ''connectors'', ''admin'',
      ''telemetry'', ''pricing'', ''advisors'']. b \<in> set (blockPresence r) \<longleftrightarrow> ?has b"
    unfolding list.set ball_simps block_present src tele block_claims ne by simp
  then have present: "\<forall>b \<in> set writableBlockOrder. b \<in> set (blockPresence r) \<longleftrightarrow> ?has b"
    by (simp only: writableBlockOrder_def)
  have sound: "b \<in> set (blockPresence r) \<and> fileFor r b = f \<and> block_eq r d b"
    if m: "(f, d) \<in> set dir" "b \<in> set_blocks d" for f d b
  proof -
    have d: "d \<in> snd ` set ds" using m(1) ds(1) by force
    have u: "\<And>d'. d' \<in> snd ` set ds \<Longrightarrow> b \<in> set_blocks d' \<Longrightarrow> d' = d" using one m ds(1) by force
    have "block_eq r d b"
      unfolding block_eq_def vals
      by (intro conjI impI; rule block_of_single [symmetric, OF _ d])
         (use m(2) u in \<open>simp_all only: block_claims simp_thms not_False_eq_True\<close>)
    then show ?thesis using ff [OF m] present set_blocks_writable [OF m(2)] m(2) d by blast
  qed
  have complete: "\<exists>d. (fileFor r b, d) \<in> set dir \<and> b \<in> set_blocks d" if p: "b \<in> set (blockPresence r)" for b
  proof -
    have "?has b" using present blocks_writable [OF p] p by blast
    then obtain f d where "(f, d) \<in> set dir" "b \<in> set_blocks d" using ds(1) by force
    then show ?thesis using ff by blast
  qed
  have "rv_Telemetry r \<noteq> None \<longleftrightarrow> ''telemetry'' \<in> set (blockPresence r)"
    unfolding block_present src tele block_claims ne by simp
  then show ?thesis using assms(2) sound complete by (auto simp: in_step_def)
qed

section \<open>Properties\<close>

text \<open>
  A successful write survives a restart: when the directory is in step with the running
  configuration, only editable blocks change, and no block disappears without the file that held it
  being rewritten, then loading the directory after \<^verbatim>\<open>WriteConfig\<close> gives a configuration with the
  blocks that were written, the untouched blocks of shared files included, and the values of body
  rewrites as YAML gives them back.
\<close>

theorem written_config_reloads:
  assumes "in_step dir r" and "same_frame r r'" and "removals_written r r'"
    and "config_Validate env r' = None" and "WriteConfig enc writable r' dir = (dir', True)" and "yaml_names dir'"
  shows "\<exists>r2. Load env defaults (dir_entries dir') = Inr r2 \<and> same_blocks r2 (reread enc r')"
  by (rule reload_in_step [OF write_keeps_step [OF assms(1-3,5)] assms(6)]) (simp add: reread_valid assms(4))

definition one_file_config :: resolved_config where
  "one_file_config = (sample_config [])\<lparr>rv_SourceFiles :=
     [(''providers'', ''gateway.yaml''), (''groups'', ''gateway.yaml''), (''configurations'', ''gateway.yaml''),
      (''api_keys'', ''gateway.yaml'')]\<rparr>"

definition added_rule :: rule_contract where
  "added_rule = sample_rule ''mark'' BehaviorContinue [AddTagAction \<lparr>at_Tag = ''gold''\<rparr>]"

definition with_rules :: "rule_contract list \<Rightarrow> resolved_config" where
  "with_rules rs = one_file_config\<lparr>rv_Rules := rs\<rparr>"

definition one_file_dir :: config_dir where
  "one_file_dir = [(''gateway.yaml'', file_doc (with_rules []) ''gateway.yaml'')]"

lemma with_rules_valid:
  "config_Validate sample_connector_env (with_rules [added_rule]) = None"
  "config_Validate sample_connector_env (with_rules []) = None"
  by code_simp+

lemma in_step_fresh:
  assumes "rv_Telemetry r \<noteq> None \<longleftrightarrow> ''telemetry'' \<in> set (blockPresence r)" and "distinct fs"
    and "\<And>b. b \<in> set (blockPresence r) \<Longrightarrow> fileFor r b \<in> set fs"
  shows "in_step (map (\<lambda>f. (f, file_doc r f)) fs) r"
  unfolding in_step_def
proof (intro conjI assms(1))
  show "distinct (map fst (map (\<lambda>f. (f, file_doc r f)) fs))" using assms(2) by (simp add: comp_def)
qed (use assms(3) file_doc_blocks [OF assms(1)] in auto)

lemma one_file_in_step: "in_step one_file_dir (with_rules [])"
proof -
  have "list_all (\<lambda>b. fileFor (with_rules []) b = ''gateway.yaml'') (blockPresence (with_rules []))"
    by code_simp
  then have "in_step (map (\<lambda>f. (f, file_doc (with_rules []) f)) [''gateway.yaml'']) (with_rules [])"
    by (intro in_step_fresh)
       (auto simp: list_all_iff block_present with_rules_def one_file_config_def sample_config_def)
  then show ?thesis by (simp add: one_file_dir_def)
qed

lemma with_rules_frame: "same_frame (with_rules rs) (with_rules rs')"
  by (simp add: same_frame_def with_rules_def)

text \<open>The files after a rule is added through the API, and after it is deleted again.\<close>

definition added_dir :: config_dir where
  "added_dir = fst (WriteConfig (\<lambda>_. []) (\<lambda>_. True) (with_rules [added_rule]) one_file_dir)"

definition deleted_dir :: config_dir where
  "deleted_dir = fst (WriteConfig (\<lambda>_. []) (\<lambda>_. True) (with_rules []) added_dir)"

lemma rule_files:
  "map fst added_dir = [''gateway.yaml'', ''policy.yaml'']" "map fst deleted_dir = [''gateway.yaml'', ''policy.yaml'']"
  by code_simp+

lemma written_config_reloads_witness:
  "\<exists>r2. Load sample_connector_env ([], []) (dir_entries added_dir) = Inr r2 \<and>
    same_blocks r2 (reread (\<lambda>_. []) (with_rules [added_rule]))"
proof -
  have w: "WriteConfig (\<lambda>_. []) (\<lambda>_. True) (with_rules [added_rule]) one_file_dir = (added_dir, True)"
  proof -
    have "snd (WriteConfig (\<lambda>_. []) (\<lambda>_. True) (with_rules [added_rule]) one_file_dir)" by code_simp
    then show ?thesis by (simp add: added_dir_def prod_eq_iff)
  qed
  have "removals_written (with_rules []) (with_rules [added_rule])" by code_simp
  moreover have "yaml_names added_dir" unfolding yaml_names_def rule_files by code_simp
  ultimately show ?thesis
    by (rule written_config_reloads [OF one_file_in_step with_rules_frame _ with_rules_valid(1) w])
qed

text \<open>
  What is lost. After any write that succeeds, of whatever block, a rule that sets a body field from
  a template comes back from the directory as another rule, whatever the encoding: the template is
  replaced by the literal object its struct was encoded as.
\<close>

theorem rewrite_templates_lost:
  assumes "in_step dir r" and "same_frame r r'" and "removals_written r r'"
    and "config_Validate cenv r' = None" and "WriteConfig enc writable r' dir = (dir', True)" and "yaml_names dir'"
    and "i < length (rv_Rules r')" and "RewriteFieldAction a \<in> set (rule_Actions (rv_Rules r' ! i))"
    and "rf_Value a = RVTemplate t"
  shows "\<exists>r2. Load cenv defaults (dir_entries dir') = Inr r2 \<and> rv_Rules r2 ! i \<noteq> rv_Rules r' ! i \<and>
    RewriteFieldAction (a\<lparr>rf_Value := RVStructured (enc (RVTemplate t))\<rparr>) \<in> set (rule_Actions (rv_Rules r2 ! i))"
proof -
  obtain r2 where r2: "Load cenv defaults (dir_entries dir') = Inr r2" "same_blocks r2 (reread enc r')"
    using written_config_reloads [OF assms(1-6), of defaults] by blast
  let ?x = "rv_Rules r' ! i"
  have x: "rv_Rules r2 ! i = yaml_rule enc ?x" using r2(2) assms(7) by (simp add: same_blocks_def reread_def)
  have "RewriteFieldAction a \<notin> yaml_action enc ` set (rule_Actions ?x)"
  proof
    assume "RewriteFieldAction a \<in> yaml_action enc ` set (rule_Actions ?x)"
    then obtain y where "RewriteFieldAction a = yaml_action enc y" by blast
    then show False using assms(9) by (cases y) (auto simp: yaml_value_def)
  qed
  then have "map (yaml_action enc) (rule_Actions ?x) \<noteq> rule_Actions ?x" using assms(8) by (metis list.set_map)
  then have "yaml_rule enc ?x \<noteq> ?x" by (auto simp: yaml_rule_def dest!: arg_cong [where f = rule_Actions])
  moreover have "RewriteFieldAction (a\<lparr>rf_Value := RVStructured (enc (RVTemplate t))\<rparr>) \<in> set (rule_Actions (yaml_rule enc ?x))"
    using assms(8,9) by (force simp: yaml_rule_def yaml_value_def)
  ultimately show ?thesis using r2(1) x by auto
qed

definition templated :: rewrite_field_action where
  "templated = \<lparr>rf_Target = ''request.body.user'', rf_Value = RVTemplate ''gateway''\<rparr>"

definition templating_rule :: rule_contract where
  "templating_rule = sample_rule ''stamp'' BehaviorContinue [RewriteFieldAction templated]"

lemma rewrite_templates_lost_witness:
  "\<exists>r2. Load sample_connector_env ([], []) (dir_entries (fst (WriteConfig (\<lambda>_. ''{}'') (\<lambda>_. True)
       (with_rules [templating_rule]) one_file_dir))) = Inr r2 \<and> rv_Rules r2 ! 0 \<noteq> templating_rule"
proof -
  let ?w = "WriteConfig (\<lambda>_. ''{}'') (\<lambda>_. True) (with_rules [templating_rule]) one_file_dir"
  have "snd ?w" by code_simp
  then have w: "?w = (fst ?w, True)" by (simp add: prod_eq_iff)
  have v: "config_Validate sample_connector_env (with_rules [templating_rule]) = None" by code_simp
  have m: "removals_written (with_rules []) (with_rules [templating_rule])" by code_simp
  have "map fst (fst ?w) = [''gateway.yaml'', ''policy.yaml'']" by code_simp
  then have y: "yaml_names (fst ?w)" unfolding yaml_names_def by (simp only:) code_simp
  have x: "rv_Rules (with_rules [templating_rule]) ! 0 = templating_rule" "0 < length (rv_Rules (with_rules [templating_rule]))"
    by (simp_all add: with_rules_def)
  have "RewriteFieldAction templated \<in> set (rule_Actions (rv_Rules (with_rules [templating_rule]) ! 0))"
    "rf_Value templated = RVTemplate ''gateway''"
    unfolding x by (simp_all add: templating_rule_def sample_rule_def templated_def)
  from rewrite_templates_lost [OF one_file_in_step with_rules_frame m v w y x(2) this, of "([], [])"] x(1)
  show ?thesis by auto
qed

text \<open>
  A block that was first introduced through the API has no recorded file of origin, so emptying
  it again does not rewrite the file it went to: the running configuration has no rules, the write
  succeeds, and the next start loads the deleted rule.
\<close>

theorem deleted_block_resurfaces:
  "rv_Rules (with_rules []) = [] \<and>
   (case Load sample_connector_env ([], []) (dir_entries deleted_dir) of
      Inl e \<Rightarrow> False
    | Inr r \<Rightarrow> map rule_Name (rv_Rules r) = [''mark''])"
proof
  show "rv_Rules (with_rules []) = []" by (simp add: with_rules_def)
  show "case Load sample_connector_env ([], []) (dir_entries deleted_dir) of
      Inl e \<Rightarrow> False
    | Inr r \<Rightarrow> map rule_Name (rv_Rules r) = [''mark'']" by code_simp
qed

end
