(* ===== verification/Admin_View.thy ===== *)
theory Admin_View
  imports Config_Write
begin

text \<open>
  What the admin API shows: the projections of \<^verbatim>\<open>internal/admin/config_dto.go\<close> and \<^verbatim>\<open>redact.go\<close>, and
  the read handlers of \<^verbatim>\<open>config_handlers.go\<close> over a snapshot of the store. A reply is a status and a
  body before JSON encoding. A Go \<^verbatim>\<open>sort.Slice\<close> is the stable sort; rows with equal keys (API keys of
  one name) have no promised order.
\<close>

section \<open>Redaction\<close>

record redacted =
  rd_Length :: nat
  rd_Last4 :: string

definition redact :: "string \<Rightarrow> redacted" where
  "redact secret =
     (let runes = utf8_runes secret; n = length runes
      in if n = 0 then \<lparr>rd_Length = 0, rd_Last4 = []\<rparr>
         else if n \<le> 4 then \<lparr>rd_Length = n, rd_Last4 = concat (map rune_value runes)\<rparr>
         else \<lparr>rd_Length = n, rd_Last4 = concat (map rune_value (drop (n - 4) runes))\<rparr>)"

definition redactMap :: "string gomap \<Rightarrow> redacted gomap" where
  "redactMap m = map (\<lambda>(k, v). (k, redact v)) m"

section \<open>Rows\<close>

record configuration_summary =
  cs_Name :: string
  cs_KeyCount :: nat
  cs_RuleCount :: nat
  cs_Tags :: "string gomap"

record key_summary =
  ks_Name :: string
  ks_Secret :: redacted
  ks_Enabled :: bool

record key_item =
  ki_ID :: "string option"
  ki_Name :: string
  ki_Configuration :: string
  ki_Enabled :: bool
  ki_Secret :: redacted

record key_reveal =
  kr_Name :: string
  kr_Secret :: string
  kr_Enabled :: bool
  kr_Configuration :: string

record rule_attachment =
  ra_Name :: string
  ra_ConditionSummary :: string
  ra_ActionTypes :: "string list"
  ra_Behavior :: rule_behavior

record rule_summary =
  rs_Name :: string
  rs_ConditionSummary :: string
  rs_ActionTypes :: "string list"
  rs_Behavior :: rule_behavior
  rs_UsedBy :: "string list"

record rule_detail =
  rl_Name :: string
  rl_Behavior :: rule_behavior
  rl_Condition :: condition
  rl_Actions :: "action list"
  rl_UsedBy :: "string list"

record protocol_row =
  pr_Name :: string
  pr_Path :: string
  pr_AuthHeader :: string
  pr_AuthFormat :: string

record path_row =
  pw_Path :: string
  pw_Match :: string
  pw_Methods :: "string list"

record family_row =
  fr_Name :: string
  fr_AuthHeader :: string
  fr_Paths :: "path_row list"

record provider_summary =
  ps_Name :: string
  ps_BaseURL :: string
  ps_Protocols :: "string list"
  ps_HasPassthrough :: bool

record provider_detail =
  pd_Name :: string
  pd_BaseURL :: string
  pd_RequiredHeaders :: "(string \<times> string) list"
  pd_Query :: "string gomap"
  pd_Protocols :: "protocol_row list"
  pd_Passthrough :: "family_row list"

record binding_row =
  br_Configuration :: string
  br_Protocol :: string
  br_Models :: "string list"
  br_Provider :: string
  br_Group :: string
  br_Alias :: string
  br_Tags :: "string list"

record passthrough_row =
  pt_Configuration :: string
  pt_Family :: string
  pt_Provider :: string
  pt_Tags :: "string list"

record configuration_detail =
  cv_Name :: string
  cv_Credentials :: "redacted gomap"
  cv_Bindings :: "binding_row list"
  cv_PassthroughBindings :: "passthrough_row list"
  cv_RuleRows :: "rule_attachment list"
  cv_Tags :: "string gomap"
  cv_ConnectorBindings :: "connector_binding list"
  cv_KeyRows :: "key_summary list"

section \<open>Summaries\<close>

definition opString :: "string \<Rightarrow> string" where
  "opString s = (if s = [] then ''Equals'' else s)"

definition notSuffix :: "bool \<Rightarrow> string" where
  "notSuffix b = (if b then '' (negated)'' else [])"

definition pluralChildren :: "nat \<Rightarrow> string" where
  "pluralChildren n = (if n = 1 then ''1 child'' else itoa n @ '' children'')"

fun string_op_text :: "string_op \<Rightarrow> string" where
  "string_op_text StringEquals = ''Equals''"
| "string_op_text StringStartsWith = ''StartsWith''"
| "string_op_text StringEndsWith = ''EndsWith''"
| "string_op_text StringContains = ''Contains''"
| "string_op_text StringRegex = ''Regex''"
| "string_op_text (StringOpOther s) = s"

fun enum_op_text :: "enum_op \<Rightarrow> string" where
  "enum_op_text EnumEquals = ''Equals''"
| "enum_op_text (EnumOpOther s) = s"

fun logical_op_text :: "logical_op \<Rightarrow> string" where
  "logical_op_text LogicalAnd = ''And''"
| "logical_op_text LogicalOr = ''Or''"
| "logical_op_text (LogicalOpOther s) = s"

text \<open>The bytes of the separator, a middle dot between two spaces.\<close>

definition middle_dot :: string where
  "middle_dot = [CHR '' '', CHR 0xC2, CHR 0xB7, CHR '' '']"

fun summariseCondition :: "condition \<Rightarrow> string" where
  "summariseCondition NilCondition = ''(no condition)''"
| "summariseCondition (ProviderCondition v) =
     ''provider '' @ opString (enum_op_text (pc_Operator v)) @ '' '' @ pc_ExpectedProvider v @ notSuffix (pc_Not v)"
| "summariseCondition (ProtocolCondition v) =
     ''protocol '' @ opString (enum_op_text (prc_Operator v)) @ '' '' @ prc_ExpectedProtocol v @ notSuffix (prc_Not v)"
| "summariseCondition (ModelNameCondition v) =
     ''model '' @ opString (string_op_text (mc_Operator v)) @ '' '' @ mc_ExpectedModelName v @ notSuffix (mc_Not v)"
| "summariseCondition (HeaderCondition v) =
     ''header '' @ opString (string_op_text (hc_KeyOperator v)) @ '' '' @ hc_KeyPattern v @
     (case hc_ValueOperator v of
        None \<Rightarrow> []
      | Some vo \<Rightarrow>
          if string_op_text vo = [] then []
          else middle_dot @ ''value '' @ opString (string_op_text vo) @ '' '' @ hc_ValuePattern v) @
     notSuffix (hc_Not v)"
| "summariseCondition (RuleGroup lop children neg) =
     ''group ('' @ logical_op_text lop @ middle_dot @ pluralChildren (length children) @ '')'' @ notSuffix neg"
| "summariseCondition (TagCondition v) = ''tag''"
| "summariseCondition (BodyFieldCondition v) = ''bodyField''"
| "summariseCondition (UnknownCondition t) = t"

definition summariseActionTypes :: "action list \<Rightarrow> string list" where
  "summariseActionTypes actions = map actionType actions"

section \<open>Projections\<close>

definition auth_header_of :: "provider_auth option \<Rightarrow> string" where
  "auth_header_of a = (case a of None \<Rightarrow> [] | Some x \<Rightarrow> pa_Header x)"

definition auth_format_of :: "provider_auth option \<Rightarrow> string" where
  "auth_format_of a = (case a of None \<Rightarrow> [] | Some x \<Rightarrow> pa_Format x)"

definition providerSummaryFromContract :: "string \<Rightarrow> provider \<Rightarrow> provider_summary" where
  "providerSummaryFromContract name b =
     \<lparr>ps_Name = name, ps_BaseURL = pv_BaseURL b, ps_Protocols = sort (map fst (pv_Protocols b)),
      ps_HasPassthrough = (pv_Passthrough b \<noteq> [])\<rparr>"

definition providerDetailFromContract :: "string \<Rightarrow> provider \<Rightarrow> provider_detail" where
  "providerDetailFromContract name b =
     \<lparr>pd_Name = name, pd_BaseURL = pv_BaseURL b, pd_RequiredHeaders = pv_RequiredHeaders b, pd_Query = pv_Query b,
      pd_Protocols = sort_key pr_Name
        (map (\<lambda>(n, p). \<lparr>pr_Name = n, pr_Path = pp_Path p, pr_AuthHeader = auth_header_of (pp_Auth p),
            pr_AuthFormat = auth_format_of (pp_Auth p)\<rparr>) (pv_Protocols b)),
      pd_Passthrough = sort_key fr_Name
        (map (\<lambda>(n, f). \<lparr>fr_Name = n, fr_AuthHeader = auth_header_of (pf_Auth f),
            fr_Paths = map (\<lambda>pp. \<lparr>pw_Path = ptp_Path pp, pw_Match = ptp_Match pp, pw_Methods = ptp_Methods pp\<rparr>)
              (pf_Paths f)\<rparr>) (pv_Passthrough b))\<rparr>"

definition bindingRowsFromConfiguration ::
  "string \<Rightarrow> configuration \<Rightarrow> binding_row list \<times> passthrough_row list" where
  "bindingRowsFromConfiguration configName cfg =
     (map (\<lambda>b. \<lparr>br_Configuration = configName, br_Protocol = bd_Protocol b, br_Models = bd_Models b,
          br_Provider = bd_Provider b, br_Group = bd_Group b, br_Alias = bd_Alias b, br_Tags = bd_Tags b\<rparr>)
        (cfg_Bindings cfg),
      map (\<lambda>pb. \<lparr>pt_Configuration = configName, pt_Family = pb_Family pb, pt_Provider = pb_Provider pb,
          pt_Tags = pb_Tags pb\<rparr>)
        (cfg_PassthroughBindings cfg))"

definition buildAPIKeySummaries :: "string \<Rightarrow> api_key list \<Rightarrow> key_summary list" where
  "buildAPIKeySummaries configName keys =
     sort_key ks_Name
       (map (\<lambda>k. \<lparr>ks_Name = ak_Name k, ks_Secret = redact (ak_Secret k), ks_Enabled = ak_Enabled k\<rparr>)
         (filter (\<lambda>k. ak_Configuration k = configName) keys))"

definition buildRuleAttachments :: "string \<Rightarrow> resolved_config \<Rightarrow> rule_attachment list" where
  "buildRuleAttachments configName r =
     (case map_of (rv_Configurations r) configName of
        None \<Rightarrow> []
      | Some cfg \<Rightarrow>
          let indexed = (case rv_PerConfigurationRules r configName of None \<Rightarrow> [] | Some rules \<Rightarrow> rules);
              attached = (if indexed = [] \<and> cfg_RuleNames cfg \<noteq> []
                          then List.map_filter (rv_RuleIndex r) (cfg_RuleNames cfg) else indexed)
          in map (\<lambda>x. \<lparr>ra_Name = rule_Name x, ra_ConditionSummary = summariseCondition (rule_Condition x),
                 ra_ActionTypes = summariseActionTypes (rule_Actions x), ra_Behavior = rule_Behavior x\<rparr>) attached)"

definition empty_configuration :: configuration where
  "empty_configuration =
     \<lparr>cfg_Credentials = [], cfg_Bindings = [], cfg_PassthroughBindings = [], cfg_RuleNames = [], cfg_Tags = [],
      cfg_ConnectorBindings = [], cfg_AgentRouting = None\<rparr>"

definition configurationDetailView :: "string \<Rightarrow> resolved_config \<Rightarrow> configuration_detail" where
  "configurationDetailView name r =
     (let cfg = (case map_of (rv_Configurations r) name of None \<Rightarrow> empty_configuration | Some c \<Rightarrow> c);
          rows = bindingRowsFromConfiguration [] cfg
      in \<lparr>cv_Name = name, cv_Credentials = redactMap (cfg_Credentials cfg), cv_Bindings = fst rows,
          cv_PassthroughBindings = snd rows, cv_RuleRows = buildRuleAttachments name r, cv_Tags = cfg_Tags cfg,
          cv_ConnectorBindings = cfg_ConnectorBindings cfg, cv_KeyRows = buildAPIKeySummaries name (rv_APIKeys r)\<rparr>)"

text \<open>The configurations that name a rule, once per mention.\<close>

definition invertRuleUsage :: "resolved_config \<Rightarrow> string \<Rightarrow> string list" where
  "invertRuleUsage r n =
     concat (map (\<lambda>(name, cfg). map (\<lambda>_. name) (filter (\<lambda>x. x = n) (cfg_RuleNames cfg))) (rv_Configurations r))"

text \<open>And once per configuration.\<close>

definition configurationsReferencingRule :: "resolved_config \<Rightarrow> string \<Rightarrow> string list" where
  "configurationsReferencingRule r n =
     sort (map fst (filter (\<lambda>(name, cfg). n \<in> set (cfg_RuleNames cfg)) (rv_Configurations r)))"

definition rule_detail_of :: "rule_contract \<Rightarrow> string list \<Rightarrow> rule_detail" where
  "rule_detail_of x used =
     \<lparr>rl_Name = rule_Name x, rl_Behavior = rule_Behavior x, rl_Condition = rule_Condition x, rl_Actions = rule_Actions x,
      rl_UsedBy = used\<rparr>"

definition apiKeyListItem :: "api_key \<Rightarrow> key_item" where
  "apiKeyListItem k =
     \<lparr>ki_ID = ak_ID k, ki_Name = ak_Name k, ki_Configuration = ak_Configuration k, ki_Enabled = ak_Enabled k,
      ki_Secret = redact (ak_Secret k)\<rparr>"

definition key_reveal_of :: "api_key \<Rightarrow> key_reveal" where
  "key_reveal_of k =
     \<lparr>kr_Name = ak_Name k, kr_Secret = ak_Secret k, kr_Enabled = ak_Enabled k, kr_Configuration = ak_Configuration k\<rparr>"

section \<open>Replies and read handlers\<close>

datatype reply_body =
    NoBody
  | TextBody string
  | ConflictBody string string "string list"
  | PreviewBody "config_error option"
  | InvalidBody config_error
  | ConfigurationRows "configuration_summary list"
  | ConfigurationBody configuration_detail
  | RuleRows "rule_summary list"
  | RuleBody rule_detail
  | ProviderRows "provider_summary list"
  | ProviderBody provider_detail
  | GroupRows "(string \<times> config_group) list"
  | GroupBody string config_group
  | ConnectorRows "connector list"
  | ConnectorBody connector
  | KeyRows "key_item list"
  | KeyBody key_item
  | RevealBody key_reveal
  | BindingRows "binding_row list" "passthrough_row list"

record reply =
  rp_Status :: nat
  rp_Body :: reply_body

definition reply_of :: "nat \<Rightarrow> reply_body \<Rightarrow> reply" where
  "reply_of st b = \<lparr>rp_Status = st, rp_Body = b\<rparr>"

definition NotFound :: reply where
  "NotFound = reply_of 404 (TextBody ''404 page not found'')"

text \<open>\<^verbatim>\<open>snapshot\<close> with the answer when there is none.\<close>

definition with_snapshot :: "resolved_config option \<Rightarrow> (resolved_config \<Rightarrow> reply) \<Rightarrow> reply" where
  "with_snapshot store h = (case store of None \<Rightarrow> reply_of 503 (TextBody ''config unavailable'') | Some r \<Rightarrow> h r)"

definition name_from_path :: "string \<Rightarrow> string \<Rightarrow> string" where
  "name_from_path pre path = trim_suffix (trim_prefix path pre) ''/''"

definition ConfigurationsListHandler :: "resolved_config option \<Rightarrow> reply" where
  "ConfigurationsListHandler store = with_snapshot store (\<lambda>r. reply_of 200 (ConfigurationRows (sort_key cs_Name
     (map (\<lambda>(name, cfg). \<lparr>cs_Name = name, cs_KeyCount = length (filter (\<lambda>k. ak_Configuration k = name) (rv_APIKeys r)),
        cs_RuleCount = length (cfg_RuleNames cfg), cs_Tags = cfg_Tags cfg\<rparr>) (rv_Configurations r)))))"

definition ConfigurationDetailHandler :: "resolved_config option \<Rightarrow> string \<Rightarrow> reply" where
  "ConfigurationDetailHandler store path = with_snapshot store (\<lambda>r.
     let name = name_from_path ''/api/v1/config/configurations/'' path
     in if name = [] then NotFound
        else if map_of (rv_Configurations r) name = None then NotFound
        else reply_of 200 (ConfigurationBody (configurationDetailView name r)))"

definition RulesListHandler :: "resolved_config option \<Rightarrow> reply" where
  "RulesListHandler store = with_snapshot store (\<lambda>r. reply_of 200 (RuleRows (sort_key rs_Name
     (map (\<lambda>x. \<lparr>rs_Name = rule_Name x, rs_ConditionSummary = summariseCondition (rule_Condition x),
        rs_ActionTypes = summariseActionTypes (rule_Actions x), rs_Behavior = rule_Behavior x,
        rs_UsedBy = sort (invertRuleUsage r (rule_Name x))\<rparr>) (rv_Rules r)))))"

definition RuleDetailHandler :: "resolved_config option \<Rightarrow> string \<Rightarrow> reply" where
  "RuleDetailHandler store path = with_snapshot store (\<lambda>r.
     let name = name_from_path ''/api/v1/config/rules/'' path
     in if name = [] then NotFound
        else case rv_RuleIndex r name of
               None \<Rightarrow> NotFound
             | Some x \<Rightarrow> reply_of 200 (RuleBody (rule_detail_of x (sort (invertRuleUsage r (rule_Name x))))))"

definition ProvidersListHandler :: "resolved_config option \<Rightarrow> reply" where
  "ProvidersListHandler store = with_snapshot store (\<lambda>r. reply_of 200 (ProviderRows (sort_key ps_Name
     (map (\<lambda>(name, b). providerSummaryFromContract name b) (rv_Providers r)))))"

definition ProviderDetailHandler :: "resolved_config option \<Rightarrow> string \<Rightarrow> reply" where
  "ProviderDetailHandler store path = with_snapshot store (\<lambda>r.
     let name = name_from_path ''/api/v1/config/providers/'' path
     in if name = [] then NotFound
        else case map_of (rv_Providers r) name of
               None \<Rightarrow> NotFound
             | Some b \<Rightarrow> reply_of 200 (ProviderBody (providerDetailFromContract name b)))"

text \<open>The first value of a query parameter, empty when there is none.\<close>

definition query_get :: "string \<Rightarrow> string \<Rightarrow> string" where
  "query_get raw k = (case values_of (ParseQuery raw) k of [] \<Rightarrow> [] | v # vs \<Rightarrow> v)"

definition APIKeysRevealHandler :: "resolved_config option \<Rightarrow> string \<Rightarrow> reply" where
  "APIKeysRevealHandler store raw = with_snapshot store (\<lambda>r.
     let c = query_get raw ''configuration''; n = query_get raw ''name''
     in if c = [] \<or> n = []
        then reply_of 400 (TextBody ''configuration and name query parameters are required'')
        else case find (\<lambda>k. ak_Configuration k = c \<and> ak_Name k = n) (rv_APIKeys r) of
               None \<Rightarrow> NotFound
             | Some k \<Rightarrow> reply_of 200 (RevealBody (key_reveal_of k)))"

definition binding_row_key :: "binding_row \<Rightarrow> string list" where
  "binding_row_key b = [br_Configuration b, br_Protocol b, join_with '','' (br_Models b)]"

definition BindingsHandler :: "resolved_config option \<Rightarrow> reply" where
  "BindingsHandler store = with_snapshot store (\<lambda>r.
     let rows = map (\<lambda>(name, cfg). bindingRowsFromConfiguration name cfg) (rv_Configurations r)
     in reply_of 200 (BindingRows (sort_key binding_row_key (concat (map fst rows)))
          (sort_key (\<lambda>p. [pt_Configuration p, pt_Family p]) (concat (map snd rows)))))"

definition GroupsListHandler :: "resolved_config option \<Rightarrow> reply" where
  "GroupsListHandler store = with_snapshot store (\<lambda>r. reply_of 200 (GroupRows (sort_key fst (rv_Groups r))))"

definition GroupDetailHandler :: "resolved_config option \<Rightarrow> string \<Rightarrow> reply" where
  "GroupDetailHandler store path = with_snapshot store (\<lambda>r.
     let name = name_from_path ''/api/v1/config/groups/'' path
     in if name = [] then NotFound
        else case map_of (rv_Groups r) name of
               None \<Rightarrow> NotFound
             | Some g \<Rightarrow> reply_of 200 (GroupBody name g))"

definition ConnectorsListHandler :: "resolved_config option \<Rightarrow> reply" where
  "ConnectorsListHandler store = with_snapshot store (\<lambda>r. reply_of 200 (ConnectorRows (sort_key cn_Name (rv_Connectors r))))"

definition ConnectorDetailHandler :: "resolved_config option \<Rightarrow> string \<Rightarrow> reply" where
  "ConnectorDetailHandler store path = with_snapshot store (\<lambda>r.
     let name = name_from_path ''/api/v1/config/connectors/'' path
     in if name = [] then NotFound
        else case find (\<lambda>c. cn_Name c = name) (rv_Connectors r) of
               None \<Rightarrow> NotFound
             | Some c \<Rightarrow> reply_of 200 (ConnectorBody c))"

definition APIKeysListHandler :: "resolved_config option \<Rightarrow> reply" where
  "APIKeysListHandler store =
     with_snapshot store (\<lambda>r. reply_of 200 (KeyRows (sort_key ki_Name (map apiKeyListItem (rv_APIKeys r)))))"

text \<open>A key is addressed by its identifier first, then by its name.\<close>

definition index_of :: "('a \<Rightarrow> bool) \<Rightarrow> 'a list \<Rightarrow> nat option" where
  "index_of p xs = (let i = length (takeWhile (\<lambda>x. \<not> p x) xs) in if i < length xs then Some i else None)"

definition apiKeyIndexByRef :: "api_key list \<Rightarrow> string \<Rightarrow> nat option" where
  "apiKeyIndexByRef keys ref =
     (case index_of (\<lambda>k. ak_ID k = Some ref) keys of
        Some i \<Rightarrow> Some i
      | None \<Rightarrow> index_of (\<lambda>k. ak_Name k = ref) keys)"

definition APIKeyDetailHandler :: "resolved_config option \<Rightarrow> string \<Rightarrow> reply" where
  "APIKeyDetailHandler store path = with_snapshot store (\<lambda>r.
     let ref = name_from_path ''/api/v1/config/api-keys/'' path
     in if ref = [] then NotFound
        else case apiKeyIndexByRef (rv_APIKeys r) ref of
               None \<Rightarrow> NotFound
             | Some i \<Rightarrow> reply_of 200 (KeyBody (apiKeyListItem (rv_APIKeys r ! i))))"

text \<open>The requests of the read surface that only show masked secrets.\<close>

datatype admin_query = ListConfigurations | GetConfiguration string | ListRules | GetRule string
  | ListProviders | GetProvider string | ListBindings | ListGroups | GetGroup string
  | ListConnectors | GetConnector string | ListKeys | GetKey string

fun answer :: "resolved_config option \<Rightarrow> admin_query \<Rightarrow> reply" where
  "answer s ListConfigurations = ConfigurationsListHandler s"
| "answer s (GetConfiguration p) = ConfigurationDetailHandler s p"
| "answer s ListRules = RulesListHandler s"
| "answer s (GetRule p) = RuleDetailHandler s p"
| "answer s ListProviders = ProvidersListHandler s"
| "answer s (GetProvider p) = ProviderDetailHandler s p"
| "answer s ListBindings = BindingsHandler s"
| "answer s ListGroups = GroupsListHandler s"
| "answer s (GetGroup p) = GroupDetailHandler s p"
| "answer s ListConnectors = ConnectorsListHandler s"
| "answer s (GetConnector p) = ConnectorDetailHandler s p"
| "answer s ListKeys = APIKeysListHandler s"
| "answer s (GetKey p) = APIKeyDetailHandler s p"

section \<open>Masked reads\<close>

text \<open>A configuration without its secrets, and a snapshot without any.\<close>

definition masked_configuration :: "string \<times> configuration \<Rightarrow> string \<times> configuration \<times> redacted gomap" where
  "masked_configuration = (\<lambda>(n, c). (n, c\<lparr>cfg_Credentials := []\<rparr>, redactMap (cfg_Credentials c)))"

definition same_masked :: "resolved_config \<Rightarrow> resolved_config \<Rightarrow> bool" where
  "same_masked r r' \<longleftrightarrow>
     map masked_configuration (rv_Configurations r) = map masked_configuration (rv_Configurations r') \<and>
     map apiKeyListItem (rv_APIKeys r) = map apiKeyListItem (rv_APIKeys r') \<and>
     rv_Providers r = rv_Providers r' \<and> rv_Groups r = rv_Groups r' \<and> rv_Rules r = rv_Rules r' \<and>
     rv_Connectors r = rv_Connectors r' \<and> rv_RuleIndex r = rv_RuleIndex r' \<and>
     rv_PerConfigurationRules r = rv_PerConfigurationRules r'"

lemma map_factors:
  assumes "map m xs = map m ys" and "\<And>x y. m x = m y \<Longrightarrow> f x = f y"
  shows "map f xs = map f ys"
  using assms(1)
proof (induction xs arbitrary: ys)
  case (Cons x xs)
  then obtain y ys' where y: "ys = y # ys'" "m x = m y" "map m xs = map m ys'" by (cases ys) auto
  show ?case using Cons.IH [OF y(3)] assms(2) [OF y(2)] y(1) by simp
qed simp

lemma masked_fields:
  assumes "masked_configuration (n, c) = masked_configuration (n', c')"
  shows "n = n'" "cfg_Bindings c = cfg_Bindings c'" "cfg_PassthroughBindings c = cfg_PassthroughBindings c'"
    "cfg_RuleNames c = cfg_RuleNames c'" "cfg_Tags c = cfg_Tags c'"
    "cfg_ConnectorBindings c = cfg_ConnectorBindings c'"
    "redactMap (cfg_Credentials c) = redactMap (cfg_Credentials c')"
proof -
  have e: "c\<lparr>cfg_Credentials := []\<rparr> = c'\<lparr>cfg_Credentials := []\<rparr>" using assms by (simp add: masked_configuration_def)
  show "n = n'" "redactMap (cfg_Credentials c) = redactMap (cfg_Credentials c')"
    using assms by (simp_all add: masked_configuration_def)
  show "cfg_Bindings c = cfg_Bindings c'" using arg_cong [OF e, of cfg_Bindings] by simp
  show "cfg_PassthroughBindings c = cfg_PassthroughBindings c'" using arg_cong [OF e, of cfg_PassthroughBindings] by simp
  show "cfg_RuleNames c = cfg_RuleNames c'" using arg_cong [OF e, of cfg_RuleNames] by simp
  show "cfg_Tags c = cfg_Tags c'" using arg_cong [OF e, of cfg_Tags] by simp
  show "cfg_ConnectorBindings c = cfg_ConnectorBindings c'" using arg_cong [OF e, of cfg_ConnectorBindings] by simp
qed

lemma masked_lookup:
  assumes "map masked_configuration cs = map masked_configuration cs'"
  shows "map_option (\<lambda>c. masked_configuration (n, c)) (map_of cs n) =
    map_option (\<lambda>c. masked_configuration (n, c)) (map_of cs' n)"
  using assms
proof (induction cs arbitrary: cs')
  case (Cons x cs)
  obtain a c where x: "x = (a, c)" by fastforce
  from Cons.prems x obtain c' ds where d: "cs' = (a, c') # ds" and m: "masked_configuration (a, c) = masked_configuration (a, c')"
    and t: "map masked_configuration cs = map masked_configuration ds"
    by (cases cs') (auto simp: masked_configuration_def)
  show ?case unfolding x d using Cons.IH [OF t] m by simp
qed simp

lemma map_masked:
  assumes "map masked_configuration cs = map masked_configuration cs'"
    and "\<And>n c c'. masked_configuration (n, c) = masked_configuration (n, c') \<Longrightarrow> F n c = F n c'"
  shows "map (\<lambda>(n, c). F n c) cs = map (\<lambda>(n, c). F n c) cs'"
proof (rule map_factors [OF assms(1)])
  fix x y assume e: "masked_configuration x = masked_configuration y"
  obtain n c n' c' where "x = (n, c)" "y = (n', c')" by fastforce
  then show "(case x of (n, c) \<Rightarrow> F n c) = (case y of (n, c) \<Rightarrow> F n c)"
    using e masked_fields(1) [of n c n' c'] assms(2) [of n c c'] by simp
qed

lemma index_of_map: "index_of p xs = index_of (\<lambda>b. b) (map p xs)"
  by (simp add: index_of_def takeWhile_map comp_def)

lemma key_summaries_of_items:
  "buildAPIKeySummaries n keys = sort_key ks_Name
     (map (\<lambda>i. \<lparr>ks_Name = ki_Name i, ks_Secret = ki_Secret i, ks_Enabled = ki_Enabled i\<rparr>)
       (filter (\<lambda>i. ki_Configuration i = n) (map apiKeyListItem keys)))"
  unfolding buildAPIKeySummaries_def by (rule arg_cong [where f = "sort_key ks_Name"])
    (induction keys; simp add: apiKeyListItem_def)

lemma rule_usage_masked:
  assumes "same_masked r r'"
  shows "invertRuleUsage r = invertRuleUsage r'"
proof
  fix n
  have "map (\<lambda>(name, cfg). map (\<lambda>_. name) (filter (\<lambda>x. x = n) (cfg_RuleNames cfg))) (rv_Configurations r) =
      map (\<lambda>(name, cfg). map (\<lambda>_. name) (filter (\<lambda>x. x = n) (cfg_RuleNames cfg))) (rv_Configurations r')"
  proof (rule map_masked)
    show "map masked_configuration (rv_Configurations r) = map masked_configuration (rv_Configurations r')"
      using assms by (simp add: same_masked_def)
  qed (drule masked_fields(4), simp)
  then show "invertRuleUsage r n = invertRuleUsage r' n" by (simp add: invertRuleUsage_def)
qed

lemma binding_rows_masked:
  "masked_configuration (n, c) = masked_configuration (n', c') \<Longrightarrow>
   bindingRowsFromConfiguration a c = bindingRowsFromConfiguration a c'"
  by (frule masked_fields(2), drule masked_fields(3)) (simp add: bindingRowsFromConfiguration_def)

lemma attachments_masked:
  assumes "same_masked r r'"
  shows "buildRuleAttachments n r = buildRuleAttachments n r'"
proof -
  have c: "map masked_configuration (rv_Configurations r) = map masked_configuration (rv_Configurations r')"
    and i: "rv_RuleIndex r = rv_RuleIndex r'" "rv_PerConfigurationRules r = rv_PerConfigurationRules r'"
    using assms by (simp_all add: same_masked_def)
  note m = masked_lookup [OF c, of n]
  show ?thesis
  proof (cases "map_of (rv_Configurations r) n")
    case None
    then show ?thesis using m by (simp add: buildRuleAttachments_def)
  next
    case (Some c)
    then obtain c' where c': "map_of (rv_Configurations r') n = Some c'" "masked_configuration (n, c) = masked_configuration (n, c')"
      using m by (cases "map_of (rv_Configurations r') n") simp_all
    show ?thesis using Some c'(1) masked_fields(4) [OF c'(2)] by (simp add: buildRuleAttachments_def i Let_def)
  qed
qed

lemma detail_masked:
  assumes "same_masked r r'"
  shows "configurationDetailView n r = configurationDetailView n r'"
proof -
  have m: "map masked_configuration (rv_Configurations r) = map masked_configuration (rv_Configurations r')"
    and k: "map apiKeyListItem (rv_APIKeys r) = map apiKeyListItem (rv_APIKeys r')"
    using assms by (simp_all add: same_masked_def)
  show ?thesis
  proof (cases "map_of (rv_Configurations r) n")
    case None
    then show ?thesis using masked_lookup [OF m, of n] attachments_masked [OF assms]
      by (simp add: configurationDetailView_def key_summaries_of_items k)
  next
    case (Some c)
    then obtain c' where c': "map_of (rv_Configurations r') n = Some c'" "masked_configuration (n, c) = masked_configuration (n, c')"
      using masked_lookup [OF m, of n] by (cases "map_of (rv_Configurations r') n") simp_all
    show ?thesis using Some c'(1) attachments_masked [OF assms] masked_fields [OF c'(2)] binding_rows_masked [OF c'(2), of "[]"]
      by (simp add: configurationDetailView_def key_summaries_of_items k)
  qed
qed

text \<open>
  Two secrets an operator may not tell apart: as many characters, and the same last four of them
  (all of them, when there are fewer).
\<close>

definition alike :: "string \<Rightarrow> string \<Rightarrow> bool" where
  "alike v w \<longleftrightarrow>
     length (utf8_runes v) = length (utf8_runes w) \<and>
     drop (length (utf8_runes v) - 4) (utf8_runes v) = drop (length (utf8_runes w) - 4) (utf8_runes w)"

text \<open>Two snapshots that differ in nothing but such secrets.\<close>

definition same_but_secrets :: "resolved_config \<Rightarrow> resolved_config \<Rightarrow> bool" where
  "same_but_secrets r r' \<longleftrightarrow>
     list_all2 (\<lambda>(n, c) (n', c'). n = n' \<and> c\<lparr>cfg_Credentials := []\<rparr> = c'\<lparr>cfg_Credentials := []\<rparr> \<and>
         list_all2 (\<lambda>(p, v) (p', v'). p = p' \<and> alike v v') (cfg_Credentials c) (cfg_Credentials c'))
       (rv_Configurations r) (rv_Configurations r') \<and>
     list_all2 (\<lambda>k k'. k\<lparr>ak_Secret := []\<rparr> = k'\<lparr>ak_Secret := []\<rparr> \<and> alike (ak_Secret k) (ak_Secret k'))
       (rv_APIKeys r) (rv_APIKeys r') \<and>
     rv_Providers r = rv_Providers r' \<and> rv_Groups r = rv_Groups r' \<and> rv_Rules r = rv_Rules r' \<and>
     rv_Connectors r = rv_Connectors r' \<and> rv_RuleIndex r = rv_RuleIndex r' \<and>
     rv_PerConfigurationRules r = rv_PerConfigurationRules r'"

lemma api_key_but_secret:
  "k\<lparr>ak_Secret := []\<rparr> = k'\<lparr>ak_Secret := []\<rparr> \<Longrightarrow>
   (ak_ID k = ak_ID k' \<Longrightarrow> ak_Name k = ak_Name k' \<Longrightarrow> ak_Configuration k = ak_Configuration k' \<Longrightarrow>
      ak_Enabled k = ak_Enabled k' \<Longrightarrow> P) \<Longrightarrow> P"
  by (cases k; cases k') simp

lemma redact_alike: "alike v w \<Longrightarrow> redact v = redact w"
  by (auto simp: alike_def redact_def Let_def)

lemma map_list_all2: "list_all2 P xs ys \<Longrightarrow> (\<And>x y. P x y \<Longrightarrow> f x = g y) \<Longrightarrow> map f xs = map g ys"
  by (induction rule: list_all2_induct) auto

lemma alike_masked: "same_but_secrets r r' \<Longrightarrow> same_masked r r'"
proof -
  assume s: "same_but_secrets r r'"
  have "map masked_configuration (rv_Configurations r) = map masked_configuration (rv_Configurations r')"
    by (rule map_list_all2 [OF conjunct1 [OF s [unfolded same_but_secrets_def]]])
       (auto simp: masked_configuration_def redactMap_def redact_alike elim!: map_list_all2)
  moreover have "map apiKeyListItem (rv_APIKeys r) = map apiKeyListItem (rv_APIKeys r')"
  proof (rule map_list_all2)
    show "list_all2 (\<lambda>k k'. k\<lparr>ak_Secret := []\<rparr> = k'\<lparr>ak_Secret := []\<rparr> \<and> alike (ak_Secret k) (ak_Secret k'))
       (rv_APIKeys r) (rv_APIKeys r')" using s by (simp add: same_but_secrets_def)
  qed (auto simp: apiKeyListItem_def redact_alike elim!: api_key_but_secret)
  ultimately show ?thesis using s by (simp add: same_but_secrets_def same_masked_def)
qed


text \<open>Two snapshots that differ in a key and a credential of the same length and ending.\<close>

definition masked_sample :: "string \<Rightarrow> resolved_config" where
  "masked_sample secret = (sample_config [(''openai'', secret)])\<lparr>rv_APIKeys :=
     [\<lparr>ak_ID = None, ak_Secret = secret, ak_Name = ''k'', ak_Configuration = ''default'', ak_Enabled = True\<rparr>]\<rparr>"


text \<open>
  The reveal endpoint returns the plaintext of a key that was minted earlier.
\<close>

lemma reveal_returns_plaintext:
  "APIKeysRevealHandler (Some (masked_sample ''sk-one-wxyz'')) ''configuration=default&name=k'' =
     reply_of 200 (RevealBody \<lparr>kr_Name = ''k'', kr_Secret = ''sk-one-wxyz'', kr_Enabled = True, kr_Configuration = ''default''\<rparr>)"
proof -
  have "query_get ''configuration=default&name=k'' ''configuration'' = ''default''"
    "query_get ''configuration=default&name=k'' ''name'' = ''k''" by code_simp+
  then show ?thesis by (simp add: APIKeysRevealHandler_def with_snapshot_def masked_sample_def key_reveal_of_def)
qed

end
