(* ===== verification/Admin_Write.thy ===== *)
theory Admin_Write
  imports Admin_View
begin

text \<open>
  The write side of the admin API, \<^verbatim>\<open>internal/admin/*_write.go\<close>: every POST, PUT, PATCH and DELETE
  handler over the running snapshot and the configuration directory, with the shared tail
  \<^verbatim>\<open>commitClone\<close> (validate, persist, replace). The decoded request body is a parameter of a handler:
  decoding is \<^verbatim>\<open>encoding/json\<close>. A minted secret or identifier comes from the random source of the
  request, which may fail.
\<close>

section \<open>State and requests\<close>

text \<open>The store's snapshot and the directory the gateway loaded.\<close>

record admin_state =
  am_Snapshot :: resolved_config
  am_Dir :: config_dir

record admin_env =
  ae_Connectors :: connector_env
  ae_Defaults :: default_card
  ae_Yaml :: "rewrite_value \<Rightarrow> string"

text \<open>
  One request: whether store and directory are wired, which files can be written while it runs, its
  path and raw query, and what decoding its body gave.
\<close>

datatype 'b body = BodyUnreadable | BodyEmpty | BodyMalformed | Decoded_body 'b

record 'b request =
  rq_Wired :: bool
  rq_Writable :: "string \<Rightarrow> bool"
  rq_Path :: string
  rq_RawQuery :: string
  rq_Body :: "'b body"

definition isDryRun :: "'b request \<Rightarrow> bool" where
  "isDryRun q \<longleftrightarrow> query_get (rq_RawQuery q) ''dry_run'' = ''true''"

definition Unavailable :: reply where
  "Unavailable = reply_of 503 (TextBody ''config unavailable'')"

definition bad_request :: "string \<Rightarrow> reply" where
  "bad_request msg = reply_of 400 (TextBody msg)"

definition conflict :: "string \<Rightarrow> string \<Rightarrow> string list \<Rightarrow> reply" where
  "conflict msg name used = reply_of 409 (ConflictBody msg name used)"

text \<open>The handler bodies behind \<^verbatim>\<open>writableGuard\<close> and behind the decoder of the request body.\<close>

definition writableGuard ::
  "'b request \<Rightarrow> admin_state \<Rightarrow> (unit \<Rightarrow> reply \<times> admin_state) \<Rightarrow> reply \<times> admin_state" where
  "writableGuard q s h = (if rq_Wired q then h () else (Unavailable, s))"

definition with_body ::
  "'b request \<Rightarrow> admin_state \<Rightarrow> ('b \<Rightarrow> reply \<times> admin_state) \<Rightarrow> reply \<times> admin_state" where
  "with_body q s h =
     (case rq_Body q of
        BodyUnreadable \<Rightarrow> (bad_request ''request body too large or unreadable'', s)
      | BodyEmpty \<Rightarrow> (bad_request ''request body is empty'', s)
      | BodyMalformed \<Rightarrow> (bad_request ''invalid JSON'', s)
      | Decoded_body b \<Rightarrow> h b)"

section \<open>Preview and commit\<close>

definition previewMutation ::
  "admin_env \<Rightarrow> resolved_config \<Rightarrow> (resolved_config \<Rightarrow> resolved_config) \<Rightarrow> config_error option" where
  "previewMutation env snap mutate =
     (case RevalidateAndIndex (ae_Connectors env) (ae_Defaults env) (mutate (Clone_config snap)) of
        Inl e \<Rightarrow> Some e
      | Inr _ \<Rightarrow> None)"

datatype commit_error = NotValid config_error | NotPersisted

definition commitClone ::
  "admin_env \<Rightarrow> (string \<Rightarrow> bool) \<Rightarrow> resolved_config \<Rightarrow> admin_state \<Rightarrow> commit_error option \<times> admin_state" where
  "commitClone env writable clone s =
     (case RevalidateAndIndex (ae_Connectors env) (ae_Defaults env) clone of
        Inl e \<Rightarrow> (Some (NotValid e), s)
      | Inr r \<Rightarrow>
          (case WriteConfig (ae_Yaml env) writable r (am_Dir s) of
             (dir, ok) \<Rightarrow> if ok then (None, \<lparr>am_Snapshot = r, am_Dir = dir\<rparr>)
                          else (Some NotPersisted, s\<lparr>am_Dir := dir\<rparr>)))"

fun writeMutationError :: "commit_error \<Rightarrow> reply" where
  "writeMutationError (NotValid e) = reply_of 422 (InvalidBody e)"
| "writeMutationError NotPersisted = reply_of 500 (TextBody ''persist'')"

text \<open>The tails of a handler: with and without the dry-run branch.\<close>

definition commit_reply ::
  "admin_env \<Rightarrow> 'b request \<Rightarrow> admin_state \<Rightarrow> (resolved_config \<Rightarrow> resolved_config) \<Rightarrow>
     (resolved_config \<Rightarrow> reply) \<Rightarrow> reply \<times> admin_state" where
  "commit_reply env q s mutate success =
     (case commitClone env (rq_Writable q) (mutate (Clone_config (am_Snapshot s))) s of
        (Some e, s') \<Rightarrow> (writeMutationError e, s')
      | (None, s') \<Rightarrow> (success (am_Snapshot s'), s'))"

definition preview_or_commit ::
  "admin_env \<Rightarrow> 'b request \<Rightarrow> admin_state \<Rightarrow> (resolved_config \<Rightarrow> resolved_config) \<Rightarrow>
     (resolved_config \<Rightarrow> reply) \<Rightarrow> reply \<times> admin_state" where
  "preview_or_commit env q s mutate success =
     (if isDryRun q then (reply_of 200 (PreviewBody (previewMutation env (am_Snapshot s) mutate)), s)
      else commit_reply env q s mutate success)"

section \<open>Referrers\<close>

definition sortedUnique :: "string list \<Rightarrow> string list" where
  "sortedUnique xs = remdups_adj (sort xs)"

definition referrersToProvider :: "resolved_config \<Rightarrow> string \<Rightarrow> string list" where
  "referrersToProvider snap name =
     sortedUnique
       (concat (map (\<lambda>(n, cfg).
            (if map_of (cfg_Credentials cfg) name \<noteq> None then [''configuration:'' @ n @ '' credentials''] else []) @
            (if list_ex (\<lambda>b. bd_Provider b = name) (cfg_Bindings cfg) then [''configuration:'' @ n @ '' binding''] else []) @
            (if list_ex (\<lambda>pb. pb_Provider pb = name) (cfg_PassthroughBindings cfg)
             then [''configuration:'' @ n @ '' passthrough''] else []))
          (rv_Configurations snap)) @
        concat (map (\<lambda>(n, g). if list_ex (\<lambda>t. ct_Provider t = name) (cg_Targets g) then [''group:'' @ n] else [])
          (rv_Groups snap)))"

definition referrersToGroup :: "resolved_config \<Rightarrow> string \<Rightarrow> string list" where
  "referrersToGroup snap name =
     sortedUnique (concat (map (\<lambda>(n, cfg).
         if list_ex (\<lambda>b. bd_Group b = name) (cfg_Bindings cfg) then [''configuration:'' @ n @ '' binding''] else [])
       (rv_Configurations snap)))"

definition key_label :: "nat \<times> api_key \<Rightarrow> string" where
  "key_label = (\<lambda>(i, k).
     if ak_Name k \<noteq> [] then ak_Name k
     else (case ak_ID k of
             Some u \<Rightarrow> if u \<noteq> [] then u else ''#'' @ itoa i
           | None \<Rightarrow> ''#'' @ itoa i))"

definition referrersToConfiguration :: "resolved_config \<Rightarrow> string \<Rightarrow> string list" where
  "referrersToConfiguration snap name =
     sortedUnique (map (\<lambda>ik. ''api_key:'' @ key_label ik)
       (filter (\<lambda>(i, k). ak_Configuration k = name) (List.enumerate 0 (rv_APIKeys snap))))"

definition referrersToConnector :: "resolved_config \<Rightarrow> string \<Rightarrow> string list" where
  "referrersToConnector snap name =
     sortedUnique (concat (map (\<lambda>(n, cfg).
         if list_ex (\<lambda>cb. cb_Connector cb = name) (cfg_ConnectorBindings cfg) then [''configuration:'' @ n] else [])
       (rv_Configurations snap)))"

section \<open>Rules\<close>

definition bare_rule_detail :: "string \<Rightarrow> rule_detail" where
  "bare_rule_detail name =
     \<lparr>rl_Name = name, rl_Behavior = BehaviorEmpty, rl_Condition = NilCondition, rl_Actions = [], rl_UsedBy = []\<rparr>"

definition ruleDetailFromClone :: "resolved_config \<Rightarrow> string \<Rightarrow> rule_detail" where
  "ruleDetailFromClone snap name =
     (case rv_RuleIndex snap name of
        None \<Rightarrow> bare_rule_detail name
      | Some x \<Rightarrow> rule_detail_of x (configurationsReferencingRule snap name))"

definition indexOfRule :: "rule_contract list \<Rightarrow> string \<Rightarrow> nat option" where
  "indexOfRule rules name = index_of (\<lambda>x. rule_Name x = name) rules"

definition remove_nth :: "nat \<Rightarrow> 'a list \<Rightarrow> 'a list" where
  "remove_nth i xs = take i xs @ drop (Suc i) xs"

definition RulesCreateHandler ::
  "admin_env \<Rightarrow> rule_contract request \<Rightarrow> admin_state \<Rightarrow> reply \<times> admin_state" where
  "RulesCreateHandler env q s = writableGuard q s (\<lambda>_. with_body q s (\<lambda>rule.
     if rule_Name rule = [] then (bad_request ''rule name is required'', s)
     else if rv_RuleIndex (am_Snapshot s) (rule_Name rule) \<noteq> None
     then (conflict ''rule already exists'' (rule_Name rule) [], s)
     else commit_reply env q s (\<lambda>c. c\<lparr>rv_Rules := rv_Rules c @ [rule]\<rparr>)
            (\<lambda>snap. reply_of 201 (RuleBody (ruleDetailFromClone snap (rule_Name rule))))))"

definition RulesReplaceHandler ::
  "admin_env \<Rightarrow> rule_contract request \<Rightarrow> admin_state \<Rightarrow> reply \<times> admin_state" where
  "RulesReplaceHandler env q s = writableGuard q s (\<lambda>_.
     let urlName = name_from_path ''/api/v1/config/rules/'' (rq_Path q)
     in if urlName = [] then (NotFound, s)
        else with_body q s (\<lambda>rule0.
          let rule = (if rule_Name rule0 = [] then rule0\<lparr>rule_Name := urlName\<rparr> else rule0)
          in if rule_Name rule \<noteq> urlName
             then (conflict ''rename not supported; body.name must match URL name'' (rule_Name rule) [], s)
             else case indexOfRule (rv_Rules (am_Snapshot s)) urlName of
                    None \<Rightarrow> (NotFound, s)
                  | Some idx \<Rightarrow>
                      commit_reply env q s (\<lambda>c. c\<lparr>rv_Rules := (rv_Rules c)[idx := rule]\<rparr>)
                        (\<lambda>snap. reply_of 200 (RuleBody (ruleDetailFromClone snap (rule_Name rule))))))"

definition RulesDeleteHandler ::
  "admin_env \<Rightarrow> unit request \<Rightarrow> admin_state \<Rightarrow> reply \<times> admin_state" where
  "RulesDeleteHandler env q s = writableGuard q s (\<lambda>_.
     let urlName = name_from_path ''/api/v1/config/rules/'' (rq_Path q)
     in if urlName = [] then (NotFound, s)
        else case indexOfRule (rv_Rules (am_Snapshot s)) urlName of
               None \<Rightarrow> (NotFound, s)
             | Some idx \<Rightarrow>
                 let usedBy = configurationsReferencingRule (am_Snapshot s) urlName
                 in if usedBy \<noteq> []
                    then (conflict ''rule is referenced by one or more configurations'' urlName usedBy, s)
                    else commit_reply env q s (\<lambda>c. c\<lparr>rv_Rules := remove_nth idx (rv_Rules c)\<rparr>)
                           (\<lambda>_. reply_of 204 NoBody))"

section \<open>Providers\<close>

text \<open>A named body: the name field and the connection; an empty name adopts the one of the path.\<close>

definition adopt_name :: "string \<Rightarrow> string \<Rightarrow> string" where
  "adopt_name urlName name = (if name = [] then urlName else name)"

definition put_provider :: "string \<Rightarrow> provider \<Rightarrow> resolved_config \<Rightarrow> resolved_config" where
  "put_provider name be c = c\<lparr>rv_Providers := AList.update name be (rv_Providers c)\<rparr>"

definition zero_provider :: provider where
  "zero_provider =
     \<lparr>pv_BaseURL = [], pv_RequiredHeaders = [], pv_Query = [], pv_Protocols = [], pv_Passthrough = []\<rparr>"

definition provider_reply :: "nat \<Rightarrow> string \<Rightarrow> resolved_config \<Rightarrow> reply" where
  "provider_reply st name snap = reply_of st (ProviderBody (providerDetailFromContract name
     (case map_of (rv_Providers snap) name of None \<Rightarrow> zero_provider | Some b \<Rightarrow> b)))"

definition ProvidersCreateHandler ::
  "admin_env \<Rightarrow> (string \<times> provider) request \<Rightarrow> admin_state \<Rightarrow> reply \<times> admin_state" where
  "ProvidersCreateHandler env q s = writableGuard q s (\<lambda>_. with_body q s (\<lambda>(name, be).
     if name = [] then (bad_request ''provider name is required'', s)
     else if map_of (rv_Providers (am_Snapshot s)) name \<noteq> None
     then (conflict ''provider already exists'' name [], s)
     else preview_or_commit env q s (put_provider name be) (provider_reply 201 name)))"

definition ProvidersReplaceHandler ::
  "admin_env \<Rightarrow> (string \<times> provider) request \<Rightarrow> admin_state \<Rightarrow> reply \<times> admin_state" where
  "ProvidersReplaceHandler env q s = writableGuard q s (\<lambda>_.
     let urlName = name_from_path ''/api/v1/config/providers/'' (rq_Path q)
     in if urlName = [] then (NotFound, s)
        else with_body q s (\<lambda>(name0, be).
          let name = adopt_name urlName name0
          in if name \<noteq> urlName
             then (conflict ''rename not supported; body.name must match URL name'' name [], s)
             else if map_of (rv_Providers (am_Snapshot s)) urlName = None then (NotFound, s)
             else preview_or_commit env q s (put_provider urlName be) (provider_reply 200 urlName)))"

definition ProvidersDeleteHandler ::
  "admin_env \<Rightarrow> unit request \<Rightarrow> admin_state \<Rightarrow> reply \<times> admin_state" where
  "ProvidersDeleteHandler env q s = writableGuard q s (\<lambda>_.
     let name = name_from_path ''/api/v1/config/providers/'' (rq_Path q)
     in if name = [] then (NotFound, s)
        else if map_of (rv_Providers (am_Snapshot s)) name = None then (NotFound, s)
        else let usedBy = referrersToProvider (am_Snapshot s) name
             in if usedBy \<noteq> []
                then (conflict ''provider is referenced by one or more bindings, groups, or credentials'' name usedBy, s)
                else commit_reply env q s (\<lambda>c. c\<lparr>rv_Providers := AList.delete name (rv_Providers c)\<rparr>)
                       (\<lambda>_. reply_of 204 NoBody))"

section \<open>Groups\<close>

definition put_group :: "string \<Rightarrow> config_group \<Rightarrow> resolved_config \<Rightarrow> resolved_config" where
  "put_group name g c = c\<lparr>rv_Groups := AList.update name g (rv_Groups c)\<rparr>"

definition zero_group :: config_group where
  "zero_group =
     \<lparr>cg_Mode = ModeEmpty, cg_FailureStatusCodes = [], cg_CircuitBreaker = None, cg_StrictWeights = False,
      cg_ResponseHeaderTimeoutSeconds = 0, cg_TimeoutSeconds = 0, cg_Retry = None, cg_Targets = []\<rparr>"

definition group_reply :: "nat \<Rightarrow> string \<Rightarrow> resolved_config \<Rightarrow> reply" where
  "group_reply st name snap = reply_of st (GroupBody name
     (case map_of (rv_Groups snap) name of None \<Rightarrow> zero_group | Some g \<Rightarrow> g))"

definition GroupsCreateHandler ::
  "admin_env \<Rightarrow> (string \<times> config_group) request \<Rightarrow> admin_state \<Rightarrow> reply \<times> admin_state" where
  "GroupsCreateHandler env q s = writableGuard q s (\<lambda>_. with_body q s (\<lambda>(name, g).
     if name = [] then (bad_request ''group name is required'', s)
     else if map_of (rv_Groups (am_Snapshot s)) name \<noteq> None then (conflict ''group already exists'' name [], s)
     else preview_or_commit env q s (put_group name g) (group_reply 201 name)))"

definition GroupsReplaceHandler ::
  "admin_env \<Rightarrow> (string \<times> config_group) request \<Rightarrow> admin_state \<Rightarrow> reply \<times> admin_state" where
  "GroupsReplaceHandler env q s = writableGuard q s (\<lambda>_.
     let urlName = name_from_path ''/api/v1/config/groups/'' (rq_Path q)
     in if urlName = [] then (NotFound, s)
        else with_body q s (\<lambda>(name0, g).
          let name = adopt_name urlName name0
          in if name \<noteq> urlName
             then (conflict ''rename not supported; body.name must match URL name'' name [], s)
             else if map_of (rv_Groups (am_Snapshot s)) urlName = None then (NotFound, s)
             else preview_or_commit env q s (put_group urlName g) (group_reply 200 urlName)))"

definition GroupsDeleteHandler ::
  "admin_env \<Rightarrow> unit request \<Rightarrow> admin_state \<Rightarrow> reply \<times> admin_state" where
  "GroupsDeleteHandler env q s = writableGuard q s (\<lambda>_.
     let name = name_from_path ''/api/v1/config/groups/'' (rq_Path q)
     in if name = [] then (NotFound, s)
        else if map_of (rv_Groups (am_Snapshot s)) name = None then (NotFound, s)
        else let usedBy = referrersToGroup (am_Snapshot s) name
             in if usedBy \<noteq> []
                then (conflict ''group is referenced by one or more bindings'' name usedBy, s)
                else commit_reply env q s (\<lambda>c. c\<lparr>rv_Groups := AList.delete name (rv_Groups c)\<rparr>)
                       (\<lambda>_. reply_of 204 NoBody))"

section \<open>Connectors\<close>

definition indexOfConnector :: "connector list \<Rightarrow> string \<Rightarrow> nat option" where
  "indexOfConnector conns name = index_of (\<lambda>c. cn_Name c = name) conns"

definition ConnectorsCreateHandler ::
  "admin_env \<Rightarrow> connector request \<Rightarrow> admin_state \<Rightarrow> reply \<times> admin_state" where
  "ConnectorsCreateHandler env q s = writableGuard q s (\<lambda>_. with_body q s (\<lambda>conn.
     if cn_Name conn = [] then (bad_request ''connector name is required'', s)
     else if indexOfConnector (rv_Connectors (am_Snapshot s)) (cn_Name conn) \<noteq> None
     then (conflict ''connector already exists'' (cn_Name conn) [], s)
     else preview_or_commit env q s (\<lambda>c. c\<lparr>rv_Connectors := rv_Connectors c @ [conn]\<rparr>)
            (\<lambda>_. reply_of 201 (ConnectorBody conn))))"

definition ConnectorsReplaceHandler ::
  "admin_env \<Rightarrow> connector request \<Rightarrow> admin_state \<Rightarrow> reply \<times> admin_state" where
  "ConnectorsReplaceHandler env q s = writableGuard q s (\<lambda>_.
     let urlName = name_from_path ''/api/v1/config/connectors/'' (rq_Path q)
     in if urlName = [] then (NotFound, s)
        else with_body q s (\<lambda>conn0.
          let conn = conn0\<lparr>cn_Name := adopt_name urlName (cn_Name conn0)\<rparr>
          in if cn_Name conn \<noteq> urlName
             then (conflict ''rename not supported; body.name must match URL name'' (cn_Name conn) [], s)
             else case indexOfConnector (rv_Connectors (am_Snapshot s)) urlName of
                    None \<Rightarrow> (NotFound, s)
                  | Some idx \<Rightarrow>
                      preview_or_commit env q s (\<lambda>c. c\<lparr>rv_Connectors := (rv_Connectors c)[idx := conn]\<rparr>)
                        (\<lambda>_. reply_of 200 (ConnectorBody conn))))"

definition ConnectorsDeleteHandler ::
  "admin_env \<Rightarrow> unit request \<Rightarrow> admin_state \<Rightarrow> reply \<times> admin_state" where
  "ConnectorsDeleteHandler env q s = writableGuard q s (\<lambda>_.
     let name = name_from_path ''/api/v1/config/connectors/'' (rq_Path q)
     in if name = [] then (NotFound, s)
        else case indexOfConnector (rv_Connectors (am_Snapshot s)) name of
               None \<Rightarrow> (NotFound, s)
             | Some idx \<Rightarrow>
                 let usedBy = referrersToConnector (am_Snapshot s) name
                 in if usedBy \<noteq> []
                    then (conflict ''connector is referenced by one or more configurations'' name usedBy, s)
                    else commit_reply env q s (\<lambda>c. c\<lparr>rv_Connectors := remove_nth idx (rv_Connectors c)\<rparr>)
                           (\<lambda>_. reply_of 204 NoBody))"

section \<open>Configurations\<close>

text \<open>A credential that is null in the body keeps the stored secret.\<close>

record configuration_body =
  cw_Name :: string
  cw_Credentials :: "string option gomap"
  cw_Bindings :: "binding list"
  cw_PassthroughBindings :: "passthrough_binding list"
  cw_RuleNames :: "string list"
  cw_Tags :: "string gomap"
  cw_ConnectorBindings :: "connector_binding list"

definition mergeSecret :: "string option \<Rightarrow> string \<Rightarrow> string" where
  "mergeSecret incoming existing = (case incoming of None \<Rightarrow> existing | Some v \<Rightarrow> v)"

definition stored_credential :: "configuration \<Rightarrow> string \<Rightarrow> string" where
  "stored_credential existing p = (case map_of (cfg_Credentials existing) p of None \<Rightarrow> [] | Some v \<Rightarrow> v)"

definition buildConfiguration :: "configuration_body \<Rightarrow> configuration \<Rightarrow> configuration" where
  "buildConfiguration b existing =
     \<lparr>cfg_Credentials = map (\<lambda>(p, incoming). (p, mergeSecret incoming (stored_credential existing p))) (cw_Credentials b),
      cfg_Bindings = cw_Bindings b, cfg_PassthroughBindings = cw_PassthroughBindings b, cfg_RuleNames = cw_RuleNames b,
      cfg_Tags = cw_Tags b, cfg_ConnectorBindings = cw_ConnectorBindings b,
      cfg_AgentRouting = cfg_AgentRouting existing\<rparr>"

definition put_configuration :: "string \<Rightarrow> configuration \<Rightarrow> resolved_config \<Rightarrow> resolved_config" where
  "put_configuration name cfg c = c\<lparr>rv_Configurations := AList.update name cfg (rv_Configurations c)\<rparr>"

definition ConfigurationsCreateHandler ::
  "admin_env \<Rightarrow> configuration_body request \<Rightarrow> admin_state \<Rightarrow> reply \<times> admin_state" where
  "ConfigurationsCreateHandler env q s = writableGuard q s (\<lambda>_. with_body q s (\<lambda>b.
     if cw_Name b = [] then (bad_request ''configuration name is required'', s)
     else if map_of (rv_Configurations (am_Snapshot s)) (cw_Name b) \<noteq> None
     then (conflict ''configuration already exists'' (cw_Name b) [], s)
     else preview_or_commit env q s (put_configuration (cw_Name b) (buildConfiguration b empty_configuration))
            (\<lambda>snap. reply_of 201 (ConfigurationBody (configurationDetailView (cw_Name b) snap)))))"

definition ConfigurationsReplaceHandler ::
  "admin_env \<Rightarrow> configuration_body request \<Rightarrow> admin_state \<Rightarrow> reply \<times> admin_state" where
  "ConfigurationsReplaceHandler env q s = writableGuard q s (\<lambda>_.
     let urlName = name_from_path ''/api/v1/config/configurations/'' (rq_Path q)
     in if urlName = [] then (NotFound, s)
        else with_body q s (\<lambda>b.
          let name = adopt_name urlName (cw_Name b)
          in if name \<noteq> urlName
             then (conflict ''rename not supported; body.name must match URL name'' name [], s)
             else case map_of (rv_Configurations (am_Snapshot s)) urlName of
                    None \<Rightarrow> (NotFound, s)
                  | Some existing \<Rightarrow>
                      preview_or_commit env q s (put_configuration urlName (buildConfiguration b existing))
                        (\<lambda>snap. reply_of 200 (ConfigurationBody (configurationDetailView urlName snap)))))"

definition ConfigurationsDeleteHandler ::
  "admin_env \<Rightarrow> unit request \<Rightarrow> admin_state \<Rightarrow> reply \<times> admin_state" where
  "ConfigurationsDeleteHandler env q s = writableGuard q s (\<lambda>_.
     let name = name_from_path ''/api/v1/config/configurations/'' (rq_Path q)
     in if name = [] then (NotFound, s)
        else if map_of (rv_Configurations (am_Snapshot s)) name = None then (NotFound, s)
        else let usedBy = referrersToConfiguration (am_Snapshot s) name
             in if usedBy \<noteq> []
                then (conflict ''configuration is referenced by one or more api keys'' name usedBy, s)
                else commit_reply env q s (\<lambda>c. c\<lparr>rv_Configurations := AList.delete name (rv_Configurations c)\<rparr>)
                       (\<lambda>_. reply_of 204 NoBody))"

section \<open>API keys\<close>

definition apiKeyNameExists :: "api_key list \<Rightarrow> string \<Rightarrow> bool" where
  "apiKeyNameExists keys name = list_ex (\<lambda>k. ak_Name k = name) keys"

record key_create_body =
  kc_Name :: string
  kc_Configuration :: string
  kc_Enabled :: "bool option"

text \<open>The secret of 32 random bytes, in hexadecimal behind the prefix.\<close>

definition mintAPIKeySecret :: "nat list option \<Rightarrow> string option" where
  "mintAPIKeySecret rand = map_option (\<lambda>bytes.
     ''sk_live_'' @ concat (map (\<lambda>n. [''0123456789abcdef'' ! (n div 16 mod 16), ''0123456789abcdef'' ! (n mod 16)]) bytes)) rand"

definition APIKeysCreateHandler ::
  "admin_env \<Rightarrow> nat list option \<Rightarrow> string option \<Rightarrow> key_create_body request \<Rightarrow> admin_state \<Rightarrow> reply \<times> admin_state" where
  "APIKeysCreateHandler env rand newID q s = writableGuard q s (\<lambda>_. with_body q s (\<lambda>b.
     if kc_Name b = [] then (bad_request ''api key name is required'', s)
     else if apiKeyNameExists (rv_APIKeys (am_Snapshot s)) (kc_Name b)
     then (conflict ''api key name already exists'' (kc_Name b) [], s)
     else case mintAPIKeySecret rand of
            None \<Rightarrow> (reply_of 500 (TextBody ''could not mint secret''), s)
          | Some secret \<Rightarrow>
              (case newID of
                 None \<Rightarrow> (reply_of 500 (TextBody ''could not mint id''), s)
               | Some u \<Rightarrow>
                   let key = \<lparr>ak_ID = Some u, ak_Secret = secret, ak_Name = kc_Name b,
                              ak_Configuration = kc_Configuration b,
                              ak_Enabled = (case kc_Enabled b of None \<Rightarrow> True | Some e \<Rightarrow> e)\<rparr>
                   in preview_or_commit env q s (\<lambda>c. c\<lparr>rv_APIKeys := rv_APIKeys c @ [key]\<rparr>)
                        (\<lambda>_. reply_of 201 (RevealBody (key_reveal_of key))))))"

record key_replace_body =
  kp_Name :: string
  kp_Configuration :: string
  kp_Enabled :: bool

record key_patch_body =
  kt_Name :: "string option"
  kt_Configuration :: "string option"
  kt_Enabled :: "bool option"

text \<open>The handlers of one key, behind its reference in the path.\<close>

definition at_key ::
  "'b request \<Rightarrow> admin_state \<Rightarrow> (nat \<Rightarrow> reply \<times> admin_state) \<Rightarrow> reply \<times> admin_state" where
  "at_key q s h =
     (case apiKeyIndexByRef (rv_APIKeys (am_Snapshot s)) (name_from_path ''/api/v1/config/api-keys/'' (rq_Path q)) of
        None \<Rightarrow> (NotFound, s)
      | Some idx \<Rightarrow> h idx)"

definition put_key :: "nat \<Rightarrow> api_key \<Rightarrow> resolved_config \<Rightarrow> resolved_config" where
  "put_key idx k c = c\<lparr>rv_APIKeys := (rv_APIKeys c)[idx := k]\<rparr>"

definition APIKeysReplaceHandler ::
  "admin_env \<Rightarrow> key_replace_body request \<Rightarrow> admin_state \<Rightarrow> reply \<times> admin_state" where
  "APIKeysReplaceHandler env q s = writableGuard q s (\<lambda>_.
     if name_from_path ''/api/v1/config/api-keys/'' (rq_Path q) = [] then (NotFound, s)
     else with_body q s (\<lambda>b. at_key q s (\<lambda>idx.
       let old = rv_APIKeys (am_Snapshot s) ! idx
       in if kp_Name b \<noteq> [] \<and> kp_Name b \<noteq> ak_Name old
          then (conflict ''rename not supported on PUT; use PATCH'' (kp_Name b) [], s)
          else let updated = old\<lparr>ak_Configuration := kp_Configuration b, ak_Enabled := kp_Enabled b\<rparr>
               in preview_or_commit env q s (put_key idx updated) (\<lambda>_. reply_of 200 (KeyBody (apiKeyListItem updated))))))"

definition patched_key :: "key_patch_body \<Rightarrow> api_key \<Rightarrow> api_key" where
  "patched_key b old =
     old\<lparr>ak_Name := (case kt_Name b of None \<Rightarrow> ak_Name old | Some n \<Rightarrow> n),
         ak_Configuration := (case kt_Configuration b of None \<Rightarrow> ak_Configuration old | Some c \<Rightarrow> c),
         ak_Enabled := (case kt_Enabled b of None \<Rightarrow> ak_Enabled old | Some e \<Rightarrow> e)\<rparr>"

definition APIKeysPatchHandler ::
  "admin_env \<Rightarrow> key_patch_body request \<Rightarrow> admin_state \<Rightarrow> reply \<times> admin_state" where
  "APIKeysPatchHandler env q s = writableGuard q s (\<lambda>_.
     if name_from_path ''/api/v1/config/api-keys/'' (rq_Path q) = [] then (NotFound, s)
     else with_body q s (\<lambda>b. at_key q s (\<lambda>idx.
       let old = rv_APIKeys (am_Snapshot s) ! idx; updated = patched_key b old
       in if ak_Name updated \<noteq> ak_Name old \<and> apiKeyNameExists (rv_APIKeys (am_Snapshot s)) (ak_Name updated)
          then (conflict ''api key name already exists'' (ak_Name updated) [], s)
          else preview_or_commit env q s (put_key idx updated) (\<lambda>_. reply_of 200 (KeyBody (apiKeyListItem updated))))))"

definition APIKeysDeleteHandler ::
  "admin_env \<Rightarrow> unit request \<Rightarrow> admin_state \<Rightarrow> reply \<times> admin_state" where
  "APIKeysDeleteHandler env q s = writableGuard q s (\<lambda>_.
     if name_from_path ''/api/v1/config/api-keys/'' (rq_Path q) = [] then (NotFound, s)
     else at_key q s (\<lambda>idx.
       commit_reply env q s (\<lambda>c. c\<lparr>rv_APIKeys := remove_nth idx (rv_APIKeys c)\<rparr>) (\<lambda>_. reply_of 204 NoBody)))"

end
