(* ===== verification/Admin_Run.thy ===== *)
theory Admin_Run
  imports Admin_Write
begin

text \<open>
  Sequences of admin requests over the handlers of \<open>Admin_Write\<close>: what one request can do as a step
  relation, the interface of an operation on the running configuration with its laws, the invariant of
  the live snapshot, agreement of a restart with what was running, and completeness of the reference
  checks before a deletion.
\<close>

section \<open>Calls and runs\<close>

datatype admin_call =
    CreateRule "rule_contract request" | ReplaceRule "rule_contract request" | DeleteRule "unit request"
  | CreateProvider "(string \<times> provider) request" | ReplaceProvider "(string \<times> provider) request"
  | DeleteProvider "unit request"
  | CreateGroup "(string \<times> config_group) request" | ReplaceGroup "(string \<times> config_group) request"
  | DeleteGroup "unit request"
  | CreateConnector "connector request" | ReplaceConnector "connector request" | DeleteConnector "unit request"
  | CreateConfiguration "configuration_body request" | ReplaceConfiguration "configuration_body request"
  | DeleteConfiguration "unit request"
  | CreateKey "nat list option" "string option" "key_create_body request"
  | ReplaceKey "key_replace_body request" | PatchKey "key_patch_body request" | DeleteKey "unit request"

fun handle :: "admin_env \<Rightarrow> admin_call \<Rightarrow> admin_state \<Rightarrow> reply \<times> admin_state" where
  "handle env (CreateRule q) s = RulesCreateHandler env q s"
| "handle env (ReplaceRule q) s = RulesReplaceHandler env q s"
| "handle env (DeleteRule q) s = RulesDeleteHandler env q s"
| "handle env (CreateProvider q) s = ProvidersCreateHandler env q s"
| "handle env (ReplaceProvider q) s = ProvidersReplaceHandler env q s"
| "handle env (DeleteProvider q) s = ProvidersDeleteHandler env q s"
| "handle env (CreateGroup q) s = GroupsCreateHandler env q s"
| "handle env (ReplaceGroup q) s = GroupsReplaceHandler env q s"
| "handle env (DeleteGroup q) s = GroupsDeleteHandler env q s"
| "handle env (CreateConnector q) s = ConnectorsCreateHandler env q s"
| "handle env (ReplaceConnector q) s = ConnectorsReplaceHandler env q s"
| "handle env (DeleteConnector q) s = ConnectorsDeleteHandler env q s"
| "handle env (CreateConfiguration q) s = ConfigurationsCreateHandler env q s"
| "handle env (ReplaceConfiguration q) s = ConfigurationsReplaceHandler env q s"
| "handle env (DeleteConfiguration q) s = ConfigurationsDeleteHandler env q s"
| "handle env (CreateKey rand u q) s = APIKeysCreateHandler env rand u q s"
| "handle env (ReplaceKey q) s = APIKeysReplaceHandler env q s"
| "handle env (PatchKey q) s = APIKeysPatchHandler env q s"
| "handle env (DeleteKey q) s = APIKeysDeleteHandler env q s"

text \<open>Requests one after the other: the replies and the final state.\<close>

fun admin_run :: "admin_env \<Rightarrow> admin_call list \<Rightarrow> admin_state \<Rightarrow> reply list \<times> admin_state" where
  "admin_run env [] s = ([], s)"
| "admin_run env (c # cs) s =
     (let (rp, s1) = handle env c s; (rps, s2) = admin_run env cs s1 in (rp # rps, s2))"

section \<open>What a request can do\<close>

inductive handler_step :: "admin_env \<Rightarrow> reply \<Rightarrow> admin_state \<Rightarrow> admin_state \<Rightarrow> bool" where
  refused: "400 \<le> rp_Status rp \<Longrightarrow> handler_step env rp s s"
| previewed: "handler_step env (reply_of 200 (PreviewBody p)) s s"
| unpersisted:
    "RevalidateAndIndex (ae_Connectors env) (ae_Defaults env) c = Inr r \<Longrightarrow>
     WriteConfig (ae_Yaml env) w r (am_Dir s) = (dir, False) \<Longrightarrow> rp_Status rp = 500 \<Longrightarrow>
     handler_step env rp s (s\<lparr>am_Dir := dir\<rparr>)"
| committed:
    "same_frame (am_Snapshot s) c \<Longrightarrow>
     RevalidateAndIndex (ae_Connectors env) (ae_Defaults env) c = Inr r \<Longrightarrow>
     WriteConfig (ae_Yaml env) w r (am_Dir s) = (dir, True) \<Longrightarrow> rp_Status rp \<in> {200, 201, 204} \<Longrightarrow>
     handler_step env rp s \<lparr>am_Snapshot = r, am_Dir = dir\<rparr>"

inductive_cases handler_stepE: "handler_step env rp s s'"

lemma reply_status [simp]: "rp_Status (reply_of st b) = st" "rp_Body (reply_of st b) = b"
  by (simp_all add: reply_of_def)

lemma refusals [simp]:
  "rp_Status NotFound = 404" "rp_Status Unavailable = 503" "rp_Status (bad_request m) = 400"
  "rp_Status (conflict m n u) = 409"
  by (simp_all add: NotFound_def Unavailable_def bad_request_def conflict_def)

definition steps_to :: "admin_env \<Rightarrow> admin_state \<Rightarrow> reply \<times> admin_state \<Rightarrow> bool" where
  "steps_to env s x \<longleftrightarrow> handler_step env (fst x) s (snd x)"

lemma step_refused: "400 \<le> rp_Status rp \<Longrightarrow> steps_to env s (rp, s)"
  by (simp add: steps_to_def handler_step.refused)

lemma step_commit:
  assumes "same_frame (am_Snapshot s) (mutate (Clone_config (am_Snapshot s)))"
    and "\<And>snap. rp_Status (success snap) \<in> {200, 201, 204}"
  shows "steps_to env s (commit_reply env q s mutate success)"
proof -
  let ?c = "mutate (Clone_config (am_Snapshot s))"
  show ?thesis
  proof (cases "RevalidateAndIndex (ae_Connectors env) (ae_Defaults env) ?c")
    case (Inl e)
    then show ?thesis by (simp add: commit_reply_def commitClone_def steps_to_def handler_step.refused)
  next
    case (Inr r)
    obtain dir ok where w: "WriteConfig (ae_Yaml env) (rq_Writable q) r (am_Dir s) = (dir, ok)" by fastforce
    then show ?thesis using Inr assms handler_step.unpersisted [OF Inr] handler_step.committed [OF assms(1) Inr]
      by (cases ok) (simp_all add: commit_reply_def commitClone_def steps_to_def)
  qed
qed

lemma step_preview_or_commit:
  assumes "same_frame (am_Snapshot s) (mutate (Clone_config (am_Snapshot s)))"
    and "\<And>snap. rp_Status (success snap) \<in> {200, 201, 204}"
  shows "steps_to env s (preview_or_commit env q s mutate success)"
  using step_commit [where mutate = mutate and success = success and q = q, OF assms] by (simp add: preview_or_commit_def steps_to_def handler_step.previewed)

lemma step_guard: "steps_to env s (h ()) \<Longrightarrow> steps_to env s (writableGuard q s h)"
  by (auto simp: writableGuard_def intro!: step_refused)

lemma step_body: "(\<And>b. steps_to env s (h b)) \<Longrightarrow> steps_to env s (with_body q s h)"
  by (auto simp: with_body_def intro!: step_refused split: body.split)

lemma step_key: "(\<And>i. steps_to env s (h i)) \<Longrightarrow> steps_to env s (at_key q s h)"
  by (auto simp: at_key_def intro!: step_refused split: option.split)

lemma frame_updates [simp]:
  "same_frame r (Clone_config r)"
  "same_frame r (c\<lparr>rv_Rules := x1\<rparr>) \<longleftrightarrow> same_frame r c"
  "same_frame r (c\<lparr>rv_Providers := x2\<rparr>) \<longleftrightarrow> same_frame r c"
  "same_frame r (c\<lparr>rv_Groups := x3\<rparr>) \<longleftrightarrow> same_frame r c"
  "same_frame r (c\<lparr>rv_Connectors := x4\<rparr>) \<longleftrightarrow> same_frame r c"
  "same_frame r (c\<lparr>rv_Configurations := x5\<rparr>) \<longleftrightarrow> same_frame r c"
  "same_frame r (c\<lparr>rv_APIKeys := x6\<rparr>) \<longleftrightarrow> same_frame r c"
  by (simp_all add: same_frame_def Clone_config_def)

lemmas mutations = put_provider_def put_group_def put_configuration_def put_key_def
lemmas handler_defs = RulesCreateHandler_def RulesReplaceHandler_def RulesDeleteHandler_def ProvidersCreateHandler_def
  ProvidersReplaceHandler_def ProvidersDeleteHandler_def GroupsCreateHandler_def GroupsReplaceHandler_def
  GroupsDeleteHandler_def ConnectorsCreateHandler_def ConnectorsReplaceHandler_def ConnectorsDeleteHandler_def
  ConfigurationsCreateHandler_def ConfigurationsReplaceHandler_def ConfigurationsDeleteHandler_def
  APIKeysCreateHandler_def APIKeysReplaceHandler_def APIKeysPatchHandler_def APIKeysDeleteHandler_def

lemmas step_rules = step_guard step_body step_key step_refused step_commit step_preview_or_commit

lemma handle_steps: "steps_to env s (handle env c s)"
  by (cases c)
     (auto simp: handler_defs Let_def mutations provider_reply_def group_reply_def
       split: option.split intro!: step_rules)

section \<open>Operations on the configuration as an interface\<close>

text \<open>An operation that changes the running configuration by the validate, persist, replace tail.\<close>

locale config_operation =
  fixes env :: admin_env
    and op :: "'q \<Rightarrow> admin_state \<Rightarrow> reply \<times> admin_state"
  assumes stepping: "steps_to env s (op q s)"
begin

text \<open>The snapshot stays one that validation and indexing produced.\<close>

lemma validated:
  assumes "RevalidateAndIndex (ae_Connectors env) (ae_Defaults env) c = Inr (am_Snapshot s)" and "op q s = (rp, s')"
  shows "\<exists>c'. RevalidateAndIndex (ae_Connectors env) (ae_Defaults env) c' = Inr (am_Snapshot s')"
  using stepping [of s q] assms by (auto simp: steps_to_def elim!: handler_stepE)

lemma frame:
  assumes "op q s = (rp, s')"
  shows "same_frame (am_Snapshot s) (am_Snapshot s')"
  using stepping [of s q] assms
  by (auto simp: steps_to_def same_frame_def RevalidateAndIndex_def buildIndexes_def Let_def elim!: handler_stepE split: option.splits)

lemma failure_keeps_snapshot:
  assumes "op q s = (rp, s')" and "400 \<le> rp_Status rp"
  shows "am_Snapshot s' = am_Snapshot s" "rp_Status rp \<noteq> 500 \<Longrightarrow> s' = s"
  using stepping [of s q] assms by (auto simp: steps_to_def elim!: handler_stepE)

end

interpretation api: config_operation env "handle env" for env
  by unfold_locales (rule handle_steps)

section \<open>Runs\<close>

text \<open>The snapshot is validated and carries the indexes of its own blocks.\<close>

definition live :: "admin_env \<Rightarrow> resolved_config \<Rightarrow> bool" where
  "live env r \<longleftrightarrow>
     config_Validate (ae_Connectors env) r = None \<and> buildIndexes (ae_Defaults env) r = r"

lemma index_twice: "buildIndexes d (buildIndexes d r) = buildIndexes d r"
  by (simp add: buildIndexes_def Let_def)

lemma live_iff: "live env r \<longleftrightarrow> (\<exists>c. RevalidateAndIndex (ae_Connectors env) (ae_Defaults env) c = Inr r)"
proof
  assume "live env r"
  then have "RevalidateAndIndex (ae_Connectors env) (ae_Defaults env) r = Inr r" by (simp add: live_def RevalidateAndIndex_def)
  then show "\<exists>c. RevalidateAndIndex (ae_Connectors env) (ae_Defaults env) c = Inr r" by blast
next
  assume "\<exists>c. RevalidateAndIndex (ae_Connectors env) (ae_Defaults env) c = Inr r"
  then obtain c where "config_Validate (ae_Connectors env) c = None" "r = buildIndexes (ae_Defaults env) c"
    using indexed by blast
  then show "live env r"
    using validate_same_blocks [OF indexes_keep_blocks, of "ae_Connectors env" "ae_Defaults env" c]
    by (simp add: live_def index_twice)
qed

lemma live_loaded:
  assumes "Load (ae_Connectors env) (ae_Defaults env) entries = Inr r"
  shows "live env r"
proof -
  obtain r1 where "config_Validate (ae_Connectors env) r1 = None" "r = buildIndexes (ae_Defaults env) r1"
    using assms by (auto simp: Load_def finish_load_def Let_def split: sum.splits option.splits if_splits)
  then have "RevalidateAndIndex (ae_Connectors env) (ae_Defaults env) r1 = Inr r" by (simp add: RevalidateAndIndex_def)
  then show ?thesis unfolding live_iff by blast
qed

lemma run_invariant:
  assumes "\<And>c s rp s'. P s \<Longrightarrow> handle env c s = (rp, s') \<Longrightarrow> Q rp \<Longrightarrow> P s'"
    and "P s" and "admin_run env cs s = (rps, s')" and "list_all Q rps"
  shows "P s'"
  using assms(2-4)
proof (induction cs arbitrary: s rps)
  case (Cons c cs)
  obtain rp s1 where h: "handle env c s = (rp, s1)" by fastforce
  moreover obtain rps' where "admin_run env cs s1 = (rps', s')" "rps = rp # rps'"
    using Cons.prems(2) h by (auto split: prod.splits)
  ultimately show ?case using Cons.IH [of s1 rps'] Cons.prems(1,3) assms(1) [of s c rp s1] by simp
qed simp

text \<open>
  C12. Whatever requests the admin API serves after a successful start, accepted or refused, the
  running snapshot has passed validation, its indexes are those of its own blocks, and the blocks the
  API does not own (admin, telemetry, pricing, advisors) and the file origins are the ones loaded.
\<close>

theorem admin_keeps_snapshot_live:
  assumes "Load (ae_Connectors env) (ae_Defaults env) entries = Inr r"
    and "admin_run env cs \<lparr>am_Snapshot = r, am_Dir = dir\<rparr> = (rps, s)"
  shows "live env (am_Snapshot s) \<and> same_frame r (am_Snapshot s)"
proof (rule run_invariant [where Q = "\<lambda>_. True", OF _ _ assms(2)])
  fix c s rp s' assume "live env (am_Snapshot s) \<and> same_frame r (am_Snapshot s)" "handle env c s = (rp, s')"
  then show "live env (am_Snapshot s') \<and> same_frame r (am_Snapshot s')"
    using api.validated [of env _ s c] api.frame [of env c s] by (auto simp: live_iff same_frame_def)
qed (use live_loaded [OF assms(1)] in \<open>simp_all add: same_frame_def list_all_iff\<close>)

text \<open>
  A request that is answered with an error leaves the running snapshot as it was, and unless the
  files could not be written (500) it leaves the directory as it was, too.
\<close>

theorem admin_errors_change_nothing:
  assumes "handle env c s = (rp, s')" and "400 \<le> rp_Status rp"
  shows "am_Snapshot s' = am_Snapshot s \<and> (rp_Status rp \<noteq> 500 \<longrightarrow> s' = s)"
  using api.failure_keeps_snapshot [OF assms] by simp

section \<open>Restart\<close>

text \<open>Each block the API owns has a file of origin, and every origin is a YAML file.\<close>

definition origins_complete :: "resolved_config \<Rightarrow> bool" where
  "origins_complete r \<longleftrightarrow> list_all (\<lambda>b. source_file r b \<noteq> []) editableBlocks"

definition yaml_origins :: "resolved_config \<Rightarrow> bool" where
  "yaml_origins r \<longleftrightarrow> (\<forall>b f. map_of (rv_SourceFiles r) b = Some f \<longrightarrow> has_suffix f ''.yaml'')"

definition restartable :: "admin_env \<Rightarrow> admin_state \<Rightarrow> bool" where
  "restartable env s \<longleftrightarrow>
     live env (am_Snapshot s) \<and>
     (in_step (am_Dir s) (am_Snapshot s) \<or> in_step (am_Dir s) (reread (ae_Yaml env) (am_Snapshot s))) \<and>
     yaml_names (am_Dir s) \<and> origins_complete (am_Snapshot s) \<and> yaml_origins (am_Snapshot s)"

lemma source_frame: "same_frame r r' \<Longrightarrow> source_file r' b = source_file r b"
  by (simp add: same_frame_def source_file_def)

lemma removals_with_origins:
  assumes "same_frame r r'" and "origins_complete r"
  shows "removals_written r r'"
proof -
  have "fileFor r b \<in> set (filesToWrite r')" if b: "b \<in> set (blockPresence r)" "b \<notin> set (blockPresence r')" for b
  proof -
    have e: "b \<in> set editableBlocks" using frame_block(1) [OF assms(1) blocks_writable [OF b(1)]] b by blast
    then have "source_file r b \<noteq> []" using assms(2) by (auto simp: origins_complete_def list_all_iff)
    then have "source_file r b \<in> source_file r ` set (filter (\<lambda>x. x \<notin> set (blockPresence r') \<and> source_file r x \<noteq> []) editableBlocks)"
      using e b(2) by (intro imageI) simp
    then show ?thesis using \<open>source_file r b \<noteq> []\<close> by (simp add: filesToWrite_def fileFor_def source_frame [OF assms(1)])
  qed
  then show ?thesis by (auto simp: removals_written_def)
qed

lemma written_names:
  assumes "origins_complete r" and "yaml_origins r" and "yaml_names dir"
    and "WriteConfig (ae_Yaml env) w r dir = (dir', True)" and "distinct (map fst dir)"
  shows "yaml_names dir'"
proof -
  have f: "has_suffix (source_file r b) ''.yaml''" if "source_file r b \<noteq> []" for b
    using that assms(2) by (auto simp: source_file_def yaml_origins_def split: option.splits)
  have "has_suffix n ''.yaml''" if n: "n \<in> set (filesToWrite r)" for n
  proof -
    have "n \<in> source_file r ` set editableBlocks"
      using n assms(1) by (auto simp: filesToWrite_def fileFor_def origins_complete_def list_all_iff)
    then show ?thesis using f assms(1) by (auto simp: origins_complete_def list_all_iff)
  qed
  moreover have "n \<in> set (filesToWrite r) \<or> n \<in> set (map fst dir)" if "n \<in> set (map fst dir')" for n
  proof -
    have "map_of dir' n \<noteq> None" using that by (simp add: map_of_eq_None_iff)
    then have "n \<in> set (filesToWrite r) \<or> map_of dir n \<noteq> None" using WriteConfig_docs(1) [OF assms(4), of n] by metis
    then show ?thesis by (simp add: map_of_eq_None_iff)
  qed
  ultimately show ?thesis using assms(3) unfolding yaml_names_def list_all_iff by blast
qed

lemma handle_restartable:
  assumes "restartable env s" and "handle env c s = (rp, s')" and "rp_Status rp \<noteq> 500"
  shows "restartable env s'"
proof -
  have st: "handler_step env rp s s'" using handle_steps [of env s c] assms(2) by (simp add: steps_to_def)
  from st show ?thesis
  proof cases
    case (committed c r w dir)
    note live' = iffD2 [OF live_iff exI, OF committed(3)]
    have fr: "same_frame (am_Snapshot s) r"
      using committed(2,3) by (auto simp: same_frame_def RevalidateAndIndex_def buildIndexes_def Let_def split: option.splits)
    have o: "origins_complete r" "yaml_origins r"
      using assms(1) fr source_frame [OF fr]
      by (simp_all add: restartable_def origins_complete_def yaml_origins_def same_frame_def)
    have old: "origins_complete (am_Snapshot s)" "yaml_names (am_Dir s)"
      using assms(1) by (simp_all add: restartable_def)
    obtain r0 where r0: "in_step (am_Dir s) r0" "r0 \<in> {am_Snapshot s, reread (ae_Yaml env) (am_Snapshot s)}"
      using assms(1) by (auto simp: restartable_def)
    have fr0: "same_frame r0 r" "removals_written r0 r"
      using r0(2) fr removals_with_origins [OF fr old(1)]
      by (auto simp: removals_written_def) (simp_all add: same_frame_def reread_def)
    have "in_step dir (reread (ae_Yaml env) r)"
      by (rule write_keeps_step [OF r0(1) fr0 committed(4)])
    moreover have "yaml_names dir"
      by (rule written_names [OF o old(2) committed(4)]) (use r0(1) in \<open>simp add: in_step_def\<close>)
    ultimately show ?thesis using live' o committed(1) by (simp add: restartable_def)
  qed (use assms in auto)
qed

lemma loaded_origin:
  assumes "Load env defaults (dir_entries dir) = Inr r" and "distinct (map fst dir)" and "yaml_names dir"
    and "map_of (rv_SourceFiles r) b = Some f"
  shows "has_suffix f ''.yaml''"
proof -
  have ne: "dir \<noteq> []" using assms(1) by (auto simp: Load_def dir_entries_def)
  obtain ds where ds: "set ds = set dir" "distinct (map fst ds)"
    "Load env defaults (dir_entries dir) =
       (case merge_files (decoded ds) (empty_resolved, []) of
          Inl e \<Rightarrow> Inl e
        | Inr (r, seen) \<Rightarrow> finish_load env defaults r seen)"
    by (rule Load_dir [OF assms(2,3) ne])
  then obtain r1 seen where m: "merge_files (decoded ds) (empty_resolved, []) = Inr (r1, seen)"
    and "r = buildIndexes defaults (r1\<lparr>rv_SourceFiles := seen\<rparr>)"
    using assms(1) by (auto simp: finish_load_def Let_def split: sum.splits option.splits)
  then have "map_of seen b = Some f" using assms(4) by (simp add: buildIndexes_def Let_def)
  then obtain d where "(f, d) \<in> set dir" using merged_seen [OF m] ds(1) by auto
  then show ?thesis using assms(3) by (auto simp: yaml_names_def list_all_iff)
qed


section \<open>Deleting what nothing refers to\<close>

lemma sort_Nil [simp]: "sort xs = [] \<longleftrightarrow> xs = []"
  by (metis length_0_conv length_sort)

lemma sortedUnique_Nil [simp]: "sortedUnique xs = [] \<longleftrightarrow> xs = []"
  by (simp add: sortedUnique_def)

lemma first_error_cong [fundef_cong]:
  "xs = ys \<Longrightarrow> (\<And>x. x \<in> set ys \<Longrightarrow> f x = g x) \<Longrightarrow> first_error f xs = first_error g ys"
  by (induction xs arbitrary: ys) (auto split: option.split)

lemma unreferenced_provider:
  assumes "referrersToProvider snap name = []"
  shows "\<And>n cfg. (n, cfg) \<in> set (rv_Configurations snap) \<Longrightarrow>
      map_of (cfg_Credentials cfg) name = None \<and> (\<forall>b \<in> set (cfg_Bindings cfg). bd_Provider b \<noteq> name) \<and>
      (\<forall>pb \<in> set (cfg_PassthroughBindings cfg). pb_Provider pb \<noteq> name)"
    and "\<And>n g. (n, g) \<in> set (rv_Groups snap) \<Longrightarrow> \<forall>t \<in> set (cg_Targets g). ct_Provider t \<noteq> name"
  using assms by (fastforce simp: referrersToProvider_def list_ex_iff split: if_splits)+

lemma unreferenced_group:
  "referrersToGroup snap name = [] \<Longrightarrow> (n, cfg) \<in> set (rv_Configurations snap) \<Longrightarrow>
   \<forall>b \<in> set (cfg_Bindings cfg). bd_Group b \<noteq> name"
  by (fastforce simp: referrersToGroup_def list_ex_iff split: if_splits)

lemma unreferenced_connector:
  "referrersToConnector snap name = [] \<Longrightarrow> (n, cfg) \<in> set (rv_Configurations snap) \<Longrightarrow>
   \<forall>cb \<in> set (cfg_ConnectorBindings cfg). cb_Connector cb \<noteq> name"
  by (fastforce simp: referrersToConnector_def list_ex_iff split: if_splits)

lemma unreferenced_rule:
  "configurationsReferencingRule snap name = [] \<Longrightarrow> (n, cfg) \<in> set (rv_Configurations snap) \<Longrightarrow>
   name \<notin> set (cfg_RuleNames cfg)"
proof -
  assume "configurationsReferencingRule snap name = []"
  then have "filter (\<lambda>(n, cfg). name \<in> set (cfg_RuleNames cfg)) (rv_Configurations snap) = []"
    by (simp add: configurationsReferencingRule_def)
  then show "(n, cfg) \<in> set (rv_Configurations snap) \<Longrightarrow> name \<notin> set (cfg_RuleNames cfg)"
    by (auto simp: filter_empty_conv)
qed

lemma unreferenced_configuration:
  "referrersToConfiguration snap name = [] \<Longrightarrow> k \<in> set (rv_APIKeys snap) \<Longrightarrow> ak_Configuration k \<noteq> name"
proof -
  assume "referrersToConfiguration snap name = []" "k \<in> set (rv_APIKeys snap)"
  then have "\<forall>x \<in> set (List.enumerate 0 (rv_APIKeys snap)). ak_Configuration (snd x) \<noteq> name"
    by (auto simp: referrersToConfiguration_def filter_empty_conv)
  then have "\<forall>k \<in> set (map snd (List.enumerate 0 (rv_APIKeys snap))). ak_Configuration k \<noteq> name"
    unfolding set_map by blast
  then show "ak_Configuration k \<noteq> name" using \<open>k \<in> set (rv_APIKeys snap)\<close> by simp
qed

text \<open>Validation of parts in a configuration where the lookups they make are unchanged.\<close>

lemma group_targets_cong:
  assumes "\<And>t. t \<in> set ts \<Longrightarrow> map_of ps (ct_Provider t) = map_of ps' (ct_Provider t)"
  shows "validate_group_targets ps prev ts = validate_group_targets ps' prev ts"
  using assms by (induction ts arbitrary: prev) simp_all

lemma bindings_cong:
  assumes "\<And>b. b \<in> set bs \<Longrightarrow> validate_destination r b = validate_destination r' b"
  shows "validate_bindings r c e bs = validate_bindings r' c e bs"
  using assms by (induction bs arbitrary: c e) (simp_all split: sum.split)

lemma declares_cong: "map_of ps p = map_of ps' p \<Longrightarrow> declares ps p protocol = declares ps' p protocol"
  by (simp add: declares_def)

lemma advisors_cong:
  "rv_Advisors r = rv_Advisors r' \<Longrightarrow> rv_Configurations r = rv_Configurations r' \<Longrightarrow>
   validateAdvisors env r = validateAdvisors env r'"
  by (simp only: validateAdvisors_def)

lemma destination_cong:
  "rv_Providers r = rv_Providers r' \<Longrightarrow> map_of (rv_Groups r) (bd_Group b) = map_of (rv_Groups r') (bd_Group b) \<Longrightarrow>
   validate_destination r b = validate_destination r' b"
  by (simp only: validate_destination_def)

lemma delete_subset: "x \<in> set (AList.delete k xs) \<Longrightarrow> x \<in> set xs"
  by (auto simp: AList.delete_eq)

lemma provider_deletable:
  assumes "config_Validate env r = None" and "name \<noteq> []" and "referrersToProvider r name = []"
  shows "config_Validate env (r\<lparr>rv_Providers := AList.delete name (rv_Providers r)\<rparr>) = None"
proof -
  let ?r = "r\<lparr>rv_Providers := AList.delete name (rv_Providers r)\<rparr>"
  note parts = validated_parts [OF assms(1)]
  note free = unreferenced_provider [OF assms(3)]
  have look: "map_of (rv_Providers ?r) p = map_of (rv_Providers r) p" if "p \<noteq> name" for p
    using that by (simp add: delete_conv')
  have "validateProviders ?r = None"
    using parts(1) by (auto simp: validateProviders_def dest: delete_subset)
  moreover have "validate_group (rv_Providers ?r) (n, g) = None" if "(n, g) \<in> set (rv_Groups r)" for n g
  proof -
    have "validate_group_targets (rv_Providers ?r) [] (cg_Targets g) = validate_group_targets (rv_Providers r) [] (cg_Targets g)"
      by (rule group_targets_cong) (use free(2) [OF that] look in blast)
    moreover have "validate_group (rv_Providers r) (n, g) = None" using parts(2) that by (auto simp: validateGroups_def)
    ultimately show ?thesis by (simp add: validate_group_def)
  qed
  moreover have "validate_configuration ?r (n, cfg) = None" if "(n, cfg) \<in> set (rv_Configurations r)" for n cfg
  proof -
    have ok: "validate_configuration r (n, cfg) = None" using parts(6) that by (auto simp: validateConfigurations_def)
    note fr = free(1) [OF that]
    have "validate_destination ?r b = validate_destination r b" if b: "b \<in> set (cfg_Bindings cfg)" for b
    proof -
      have "declares (rv_Providers ?r) (ct_Provider t) (bd_Protocol b) = declares (rv_Providers r) (ct_Provider t) (bd_Protocol b)"
        if "map_of (rv_Groups r) (bd_Group b) = Some g" "t \<in> set (cg_Targets g)" for g t
        by (rule declares_cong look)+ (use free(2) [OF map_of_SomeD [OF that(1)]] that(2) in blast)
      moreover have "map_of (rv_Providers ?r) (bd_Provider b) = map_of (rv_Providers r) (bd_Provider b)"
        by (rule look) (use fr b in blast)
      ultimately show ?thesis
        using declares_cong [of "rv_Providers ?r" "bd_Provider b" "rv_Providers r"]
        by (auto simp: validate_destination_def split: option.splits cong: first_error_cong)
    qed
    then have "validate_bindings ?r [] [] (cfg_Bindings cfg) = validate_bindings r [] [] (cfg_Bindings cfg)"
      by (rule bindings_cong)
    moreover have "map_of (rv_Providers ?r) p \<noteq> None" if "(p, v) \<in> set (cfg_Credentials cfg)" for p v
    proof -
      have "p \<in> fst ` set (cfg_Credentials cfg)" using that by force
      then have "p \<noteq> name" using fr by (auto simp: map_of_eq_None_iff)
      moreover have "map_of (rv_Providers r) p \<noteq> None" using ok that by (fastforce simp: validate_configuration_def)
      ultimately show ?thesis using look by simp
    qed
    moreover have "map_of (rv_Providers ?r) (pb_Provider pb) = map_of (rv_Providers r) (pb_Provider pb)"
      if "pb \<in> set (cfg_PassthroughBindings cfg)" for pb by (rule look) (use fr that in blast)
    ultimately show ?thesis using ok by (auto simp: validate_configuration_def)
  qed
  moreover have "validateLibraries env ?r = validateLibraries env r" by (simp add: validateLibraries_def)
  moreover have "validateAdvisors env ?r = validateAdvisors env r" by (rule advisors_cong) simp_all
  moreover have "rv_Configurations r \<noteq> []" using assms(1) by (auto simp: config_Validate_def split: if_splits)
  ultimately show ?thesis using parts
    by (auto simp: config_Validate_def validateGroups_def validateConfigurations_def)
qed

lemma group_deletable:
  assumes "config_Validate env r = None" and "referrersToGroup r name = []"
  shows "config_Validate env (r\<lparr>rv_Groups := AList.delete name (rv_Groups r)\<rparr>) = None"
proof -
  let ?r = "r\<lparr>rv_Groups := AList.delete name (rv_Groups r)\<rparr>"
  note parts = validated_parts [OF assms(1)]
  have "validate_configuration ?r (n, cfg) = None" if c: "(n, cfg) \<in> set (rv_Configurations r)" for n cfg
  proof -
    have "validate_destination ?r b = validate_destination r b" if "b \<in> set (cfg_Bindings cfg)" for b
      by (rule destination_cong) (use unreferenced_group [OF assms(2) c] that in \<open>simp_all add: delete_conv'\<close>)
    then have "validate_bindings ?r [] [] (cfg_Bindings cfg) = validate_bindings r [] [] (cfg_Bindings cfg)"
      by (rule bindings_cong)
    moreover have "validate_configuration r (n, cfg) = None" using parts(6) c by (auto simp: validateConfigurations_def)
    ultimately show ?thesis by (simp add: validate_configuration_def)
  qed
  moreover have "validateGroups ?r = None" using parts(2) by (auto simp: validateGroups_def dest: delete_subset)
  moreover have "validateLibraries env ?r = validateLibraries env r" by (simp add: validateLibraries_def)
  moreover have "validateAdvisors env ?r = validateAdvisors env r" by (rule advisors_cong) simp_all
  moreover have "rv_Configurations r \<noteq> []" using assms(1) by (auto simp: config_Validate_def split: if_splits)
  ultimately show ?thesis using parts
    by (auto simp: config_Validate_def validateProviders_def validateConfigurations_def)
qed

text \<open>Removing one entry of a library: the entries seen before a check only get fewer.\<close>

lemma split_nth:
  assumes "index_of p xs = Some i"
  obtains ys x zs where "xs = ys @ x # zs" "p x" "remove_nth i xs = ys @ zs" "i < length xs"
proof -
  have i: "i = length (takeWhile (\<lambda>x. \<not> p x) xs)" "i < length xs"
    using assms by (auto simp: index_of_def Let_def split: if_splits)
  have "p (xs ! i)" using nth_length_takeWhile [of "\<lambda>x. \<not> p x" xs] i by simp
  then show thesis using that [of "take i xs" "xs ! i" "drop (Suc i) xs"] i(2)
    by (simp add: id_take_nth_drop [symmetric] remove_nth_def)
qed

lemma rules_mono:
  "validate_rules lib seen xs = None \<Longrightarrow> set seen' \<subseteq> set seen \<Longrightarrow> validate_rules lib seen' xs = None"
proof (induction xs arbitrary: seen seen')
  case (Cons x xs)
  have "set (rule_Name x # seen') \<subseteq> set (rule_Name x # seen)" using Cons.prems(2) by auto
  then show ?case using Cons.prems Cons.IH [of "rule_Name x # seen" "rule_Name x # seen'"]
    by (auto split: if_splits)
qed simp

lemma rules_without:
  "validate_rules lib seen (ys @ x # zs) = None \<Longrightarrow> validate_rules lib seen (ys @ zs) = None"
proof (induction ys arbitrary: seen)
  case Nil
  then show ?case using rules_mono [of lib "rule_Name x # seen" zs seen] by (auto split: if_splits)
qed (auto split: if_splits)

lemma connectors_mono:
  "validate_connectors env seen xs = None \<Longrightarrow> set seen' \<subseteq> set seen \<Longrightarrow> validate_connectors env seen' xs = None"
proof (induction xs arbitrary: seen seen')
  case (Cons x xs)
  have "set (cn_Name x # seen') \<subseteq> set (cn_Name x # seen)" using Cons.prems(2) by auto
  then show ?case using Cons.prems Cons.IH [of "cn_Name x # seen" "cn_Name x # seen'"]
    by (auto split: if_splits)
qed simp

lemma connectors_without:
  "validate_connectors env seen (ys @ x # zs) = None \<Longrightarrow> validate_connectors env seen (ys @ zs) = None"
proof (induction ys arbitrary: seen)
  case Nil
  then show ?case using connectors_mono [of env "cn_Name x # seen" zs seen] by (auto split: if_splits)
qed (auto split: if_splits)

lemma keys_mono:
  "validate_keys cfgs s i ks = None \<Longrightarrow> set s' \<subseteq> set s \<Longrightarrow> set i' \<subseteq> set i \<Longrightarrow> validate_keys cfgs s' i' ks = None"
proof (induction ks arbitrary: s i s' i')
  case (Cons k ks)
  let ?ids = "\<lambda>j. case ak_ID k of None \<Rightarrow> j | Some u \<Rightarrow> u # j"
  have "set (ak_Secret k # s') \<subseteq> set (ak_Secret k # s)" "set (?ids i') \<subseteq> set (?ids i)"
    using Cons.prems(2,3) by (auto split: option.split)
  then show ?case using Cons.prems Cons.IH [of "ak_Secret k # s" "?ids i" "ak_Secret k # s'" "?ids i'"]
    by (auto split: if_splits option.splits)
qed simp

lemma keys_without:
  "validate_keys cfgs s i (ys @ k # zs) = None \<Longrightarrow> validate_keys cfgs s i (ys @ zs) = None"
proof (induction ys arbitrary: s i)
  case Nil
  then have "validate_keys cfgs (ak_Secret k # s) (case ak_ID k of None \<Rightarrow> i | Some u \<Rightarrow> u # i) zs = None" by simp
  then have "validate_keys cfgs s i zs = None" by (rule keys_mono) (auto split: option.split)
  then show ?case by simp
qed simp

lemma keys_cong:
  "(\<And>k. k \<in> set ks \<Longrightarrow> map_of cfgs (ak_Configuration k) = map_of cfgs' (ak_Configuration k)) \<Longrightarrow>
   validate_keys cfgs s i ks = validate_keys cfgs' s i ks"
  by (induction ks arbitrary: s i) simp_all

lemma rule_deletable:
  assumes "config_Validate env r = None" and "configurationsReferencingRule r name = []"
    and "indexOfRule (rv_Rules r) name = Some i"
  shows "config_Validate env (r\<lparr>rv_Rules := remove_nth i (rv_Rules r)\<rparr>) = None"
proof -
  let ?r = "r\<lparr>rv_Rules := remove_nth i (rv_Rules r)\<rparr>"
  note parts = validated_parts [OF assms(1)]
  obtain ys x zs where x: "rv_Rules r = ys @ x # zs" "rule_Name x = name" "remove_nth i (rv_Rules r) = ys @ zs"
    by (rule split_nth [OF assms(3) [unfolded indexOfRule_def]])
  have "validateLibraries env ?r = None" using parts(3) x rules_without by (auto simp: validateLibraries_def)
  moreover have "validate_configuration ?r (n, cfg) = None" if c: "(n, cfg) \<in> set (rv_Configurations r)" for n cfg
  proof -
    have ok: "validate_configuration r (n, cfg) = None" using parts(6) c by (auto simp: validateConfigurations_def)
    have "ruleDefined (rv_Rules ?r) m" if "m \<in> set (cfg_RuleNames cfg)" for m
    proof -
      have "ruleDefined (rv_Rules r) m" using ok that by (fastforce simp: validate_configuration_def split: if_splits)
      moreover have "m \<noteq> name" using unreferenced_rule [OF assms(2) c] that by blast
      ultimately show ?thesis using x by (auto simp: ruleDefined_def)
    qed
    moreover have "validate_bindings ?r [] [] (cfg_Bindings cfg) = validate_bindings r [] [] (cfg_Bindings cfg)"
      by (rule bindings_cong, rule destination_cong) simp_all
    ultimately show ?thesis using ok by (auto simp: validate_configuration_def)
  qed
  moreover have "validateGroups ?r = validateGroups r" "validateProviders ?r = validateProviders r"
    by (simp_all add: validateGroups_def validateProviders_def)
  moreover have "validateAdvisors env ?r = validateAdvisors env r" by (rule advisors_cong) simp_all
  moreover have "rv_Configurations r \<noteq> []" using assms(1) by (auto simp: config_Validate_def split: if_splits)
  ultimately show ?thesis using parts by (auto simp: config_Validate_def validateConfigurations_def)
qed

lemma connector_deletable:
  assumes "config_Validate env r = None" and "referrersToConnector r name = []"
    and "indexOfConnector (rv_Connectors r) name = Some i"
  shows "config_Validate env (r\<lparr>rv_Connectors := remove_nth i (rv_Connectors r)\<rparr>) = None"
proof -
  let ?r = "r\<lparr>rv_Connectors := remove_nth i (rv_Connectors r)\<rparr>"
  note parts = validated_parts [OF assms(1)]
  obtain ys x zs where x: "rv_Connectors r = ys @ x # zs" "cn_Name x = name" "remove_nth i (rv_Connectors r) = ys @ zs"
    by (rule split_nth [OF assms(3) [unfolded indexOfConnector_def]])
  have "validateLibraries env ?r = None" using parts(3) x connectors_without by (auto simp: validateLibraries_def)
  moreover have "validate_configuration ?r (n, cfg) = None" if c: "(n, cfg) \<in> set (rv_Configurations r)" for n cfg
  proof -
    have ok: "validate_configuration r (n, cfg) = None" using parts(6) c by (auto simp: validateConfigurations_def)
    have "connectorDefined (rv_Connectors ?r) (cb_Connector cb)" if "cb \<in> set (cfg_ConnectorBindings cfg)" for cb
    proof -
      have "connectorDefined (rv_Connectors r) (cb_Connector cb)"
        using ok that by (fastforce simp: validate_configuration_def split: if_splits)
      moreover have "cb_Connector cb \<noteq> name" using unreferenced_connector [OF assms(2) c] that by blast
      ultimately show ?thesis using x by (auto simp: connectorDefined_def)
    qed
    moreover have "validate_bindings ?r [] [] (cfg_Bindings cfg) = validate_bindings r [] [] (cfg_Bindings cfg)"
      by (rule bindings_cong, rule destination_cong) simp_all
    ultimately show ?thesis using ok by (auto simp: validate_configuration_def)
  qed
  moreover have "validateGroups ?r = validateGroups r" "validateProviders ?r = validateProviders r"
    by (simp_all add: validateGroups_def validateProviders_def)
  moreover have "validateAdvisors env ?r = validateAdvisors env r" by (rule advisors_cong) simp_all
  moreover have "rv_Configurations r \<noteq> []" using assms(1) by (auto simp: config_Validate_def split: if_splits)
  ultimately show ?thesis using parts by (auto simp: config_Validate_def validateConfigurations_def)
qed

lemma key_deletable:
  assumes "config_Validate env r = None" and "apiKeyIndexByRef (rv_APIKeys r) ref = Some i"
  shows "config_Validate env (r\<lparr>rv_APIKeys := remove_nth i (rv_APIKeys r)\<rparr>) = None"
proof -
  let ?r = "r\<lparr>rv_APIKeys := remove_nth i (rv_APIKeys r)\<rparr>"
  note parts = validated_parts [OF assms(1)]
  obtain p where "index_of p (rv_APIKeys r) = Some i"
    using assms(2) by (auto simp: apiKeyIndexByRef_def split: option.splits)
  then obtain ys x zs where x: "rv_APIKeys r = ys @ x # zs" "remove_nth i (rv_APIKeys r) = ys @ zs" by (rule split_nth)
  have "validate_keys (rv_Configurations ?r) [] [] (rv_APIKeys ?r) = None"
    using parts(6) x keys_without [of "rv_Configurations r" "[]" "[]" ys x zs] by (simp add: validateConfigurations_def)
  moreover have "validate_configuration ?r (n, cfg) = None" if c: "(n, cfg) \<in> set (rv_Configurations r)" for n cfg
  proof -
    have "validate_bindings ?r [] [] (cfg_Bindings cfg) = validate_bindings r [] [] (cfg_Bindings cfg)"
      by (rule bindings_cong, rule destination_cong) simp_all
    moreover have "validate_configuration r (n, cfg) = None" using parts(6) c by (auto simp: validateConfigurations_def)
    ultimately show ?thesis by (simp add: validate_configuration_def)
  qed
  moreover have "validateGroups ?r = validateGroups r" "validateProviders ?r = validateProviders r"
    "validateLibraries env ?r = validateLibraries env r"
    by (simp_all add: validateGroups_def validateProviders_def validateLibraries_def)
  moreover have "validateAdvisors env ?r = validateAdvisors env r" by (rule advisors_cong) simp_all
  moreover have "rv_Configurations r \<noteq> []" using assms(1) by (auto simp: config_Validate_def split: if_splits)
  ultimately show ?thesis using parts by (auto simp: config_Validate_def validateConfigurations_def)
qed

lemma configuration_deletable:
  assumes "config_Validate env r = None" and "referrersToConfiguration r name = []"
    and "AList.delete name (rv_Configurations r) \<noteq> []"
  shows "config_Validate env (r\<lparr>rv_Configurations := AList.delete name (rv_Configurations r)\<rparr>) = None"
proof -
  let ?r = "r\<lparr>rv_Configurations := AList.delete name (rv_Configurations r)\<rparr>"
  note parts = validated_parts [OF assms(1)]
  have "validate_keys (rv_Configurations ?r) [] [] (rv_APIKeys r) = validate_keys (rv_Configurations r) [] [] (rv_APIKeys r)"
    by (rule keys_cong) (use unreferenced_configuration [OF assms(2)] in \<open>simp add: delete_conv'\<close>)
  then have "validate_keys (rv_Configurations ?r) [] [] (rv_APIKeys ?r) = None"
    using parts(6) by (simp add: validateConfigurations_def)
  moreover have "validate_configuration ?r (n, cfg) = None" if c: "(n, cfg) \<in> set (rv_Configurations r)" for n cfg
  proof -
    have "validate_bindings ?r [] [] (cfg_Bindings cfg) = validate_bindings r [] [] (cfg_Bindings cfg)"
      by (rule bindings_cong, rule destination_cong) simp_all
    moreover have "validate_configuration r (n, cfg) = None" using parts(6) c by (auto simp: validateConfigurations_def)
    ultimately show ?thesis by (simp add: validate_configuration_def)
  qed
  moreover have "validateGroups ?r = validateGroups r" "validateProviders ?r = validateProviders r"
    "validateLibraries env ?r = validateLibraries env r"
    by (simp_all add: validateGroups_def validateProviders_def validateLibraries_def)
  moreover have "validateAdvisors env ?r = None"
  proof -
    have a: "rv_Advisors ?r = rv_Advisors r" by simp
    show ?thesis using parts(5) unfolding validateAdvisors_def a by (auto dest: delete_subset)
  qed
  ultimately show ?thesis using parts assms(3)
    by (auto simp: config_Validate_def validateConfigurations_def dest: delete_subset)
qed

text \<open>The deletions of the API.\<close>

fun is_delete :: "admin_call \<Rightarrow> bool" where
  "is_delete (DeleteRule q) = True"
| "is_delete (DeleteProvider q) = True"
| "is_delete (DeleteGroup q) = True"
| "is_delete (DeleteConnector q) = True"
| "is_delete (DeleteConfiguration q) = True"
| "is_delete (DeleteKey q) = True"
| "is_delete c = False"

lemma validate_clone: "config_Validate env (Clone_config r) = config_Validate env r"
  by (rule validate_same_blocks) (simp add: same_blocks_def Clone_config_def)

lemma commit_status:
  assumes "config_Validate (ae_Connectors env) (mutate (Clone_config (am_Snapshot s))) = None"
    and "\<And>snap. rp_Status (success snap) = 204"
  shows "rp_Status (fst (commit_reply env q s mutate success)) \<in> {204, 500}"
  using assms
  by (auto simp: commit_reply_def commitClone_def RevalidateAndIndex_def split: prod.split)

lemma clone_blocks [simp]:
  "rv_Providers (Clone_config r) = rv_Providers r" "rv_Groups (Clone_config r) = rv_Groups r"
  "rv_Configurations (Clone_config r) = rv_Configurations r" "rv_APIKeys (Clone_config r) = rv_APIKeys r"
  "rv_Rules (Clone_config r) = rv_Rules r" "rv_Connectors (Clone_config r) = rv_Connectors r"
  by (simp_all add: Clone_config_def)

lemma clone_deletable:
  assumes "config_Validate env r = None"
  shows "name \<noteq> [] \<Longrightarrow> referrersToProvider r name = [] \<Longrightarrow>
      config_Validate env ((Clone_config r)\<lparr>rv_Providers := AList.delete name (rv_Providers r)\<rparr>) = None"
    "referrersToGroup r name = [] \<Longrightarrow>
      config_Validate env ((Clone_config r)\<lparr>rv_Groups := AList.delete name (rv_Groups r)\<rparr>) = None"
    "configurationsReferencingRule r name = [] \<Longrightarrow> indexOfRule (rv_Rules r) name = Some i \<Longrightarrow>
      config_Validate env ((Clone_config r)\<lparr>rv_Rules := remove_nth i (rv_Rules r)\<rparr>) = None"
    "referrersToConnector r name = [] \<Longrightarrow> indexOfConnector (rv_Connectors r) name = Some i \<Longrightarrow>
      config_Validate env ((Clone_config r)\<lparr>rv_Connectors := remove_nth i (rv_Connectors r)\<rparr>) = None"
    "apiKeyIndexByRef (rv_APIKeys r) ref = Some i \<Longrightarrow>
      config_Validate env ((Clone_config r)\<lparr>rv_APIKeys := remove_nth i (rv_APIKeys r)\<rparr>) = None"
    "referrersToConfiguration r name = [] \<Longrightarrow> AList.delete name (rv_Configurations r) \<noteq> [] \<Longrightarrow>
      config_Validate env ((Clone_config r)\<lparr>rv_Configurations := AList.delete name (rv_Configurations r)\<rparr>) = None"
proof -
  have v: "config_Validate env (Clone_config r) = None" using assms by (simp add: validate_clone)
  have same: "referrersToProvider (Clone_config r) = referrersToProvider r" "referrersToGroup (Clone_config r) = referrersToGroup r"
    "configurationsReferencingRule (Clone_config r) = configurationsReferencingRule r"
    "referrersToConnector (Clone_config r) = referrersToConnector r"
    "referrersToConfiguration (Clone_config r) = referrersToConfiguration r"
    by (simp_all add: fun_eq_iff referrersToProvider_def referrersToGroup_def configurationsReferencingRule_def
        referrersToConnector_def referrersToConfiguration_def)
  note d = provider_deletable [OF v, unfolded same clone_blocks] group_deletable [OF v, unfolded same clone_blocks]
    rule_deletable [OF v, unfolded same clone_blocks] connector_deletable [OF v, unfolded same clone_blocks]
    key_deletable [OF v, unfolded same clone_blocks] configuration_deletable [OF v, unfolded same clone_blocks]
  show "name \<noteq> [] \<Longrightarrow> referrersToProvider r name = [] \<Longrightarrow>
      config_Validate env ((Clone_config r)\<lparr>rv_Providers := AList.delete name (rv_Providers r)\<rparr>) = None"
    "referrersToGroup r name = [] \<Longrightarrow>
      config_Validate env ((Clone_config r)\<lparr>rv_Groups := AList.delete name (rv_Groups r)\<rparr>) = None"
    "configurationsReferencingRule r name = [] \<Longrightarrow> indexOfRule (rv_Rules r) name = Some i \<Longrightarrow>
      config_Validate env ((Clone_config r)\<lparr>rv_Rules := remove_nth i (rv_Rules r)\<rparr>) = None"
    "referrersToConnector r name = [] \<Longrightarrow> indexOfConnector (rv_Connectors r) name = Some i \<Longrightarrow>
      config_Validate env ((Clone_config r)\<lparr>rv_Connectors := remove_nth i (rv_Connectors r)\<rparr>) = None"
    "apiKeyIndexByRef (rv_APIKeys r) ref = Some i \<Longrightarrow>
      config_Validate env ((Clone_config r)\<lparr>rv_APIKeys := remove_nth i (rv_APIKeys r)\<rparr>) = None"
    "referrersToConfiguration r name = [] \<Longrightarrow> AList.delete name (rv_Configurations r) \<noteq> [] \<Longrightarrow>
      config_Validate env ((Clone_config r)\<lparr>rv_Configurations := AList.delete name (rv_Configurations r)\<rparr>) = None"
    by (erule (1) d | erule d)+
qed

text \<open>
  The reference checks before a deletion are complete: over a live snapshot a DELETE is answered
  204, 404, 409, 500 or 503 and never fails validation, except for the attempt to delete the last
  configuration.
\<close>

theorem deletes_never_invalid:
  assumes "live env (am_Snapshot s)" and "is_delete c"
    and "\<And>q. c = DeleteConfiguration q \<Longrightarrow>
      AList.delete (name_from_path ''/api/v1/config/configurations/'' (rq_Path q)) (rv_Configurations (am_Snapshot s)) \<noteq> []"
  shows "rp_Status (fst (handle env c s)) \<in> {204, 404, 409, 500, 503}"
proof -
  have v: "config_Validate (ae_Connectors env) (am_Snapshot s) = None" using assms(1) by (simp add: live_def)
  note d = clone_deletable [OF v]
  have commits: "config_Validate (ae_Connectors env) (mutate (Clone_config (am_Snapshot s))) = None \<Longrightarrow>
      rp_Status (fst (commit_reply env q s mutate (\<lambda>_. reply_of 204 NoBody))) \<in> {204, 404, 409, 500, 503}" for q :: "unit request" and mutate
    using commit_status [of env mutate s "\<lambda>_. reply_of 204 NoBody" q] by auto
  show ?thesis
    using assms(2,3)
    by (cases c; simp add: handler_defs writableGuard_def at_key_def Let_def del: insert_iff split: option.split)
       (auto intro!: commits d simp del: insert_iff)
qed

section \<open>Concrete requests\<close>

definition sample_admin_env :: admin_env where
  "sample_admin_env = \<lparr>ae_Connectors = sample_connector_env, ae_Defaults = ([], []), ae_Yaml = (\<lambda>_. ''{}'')\<rparr>"

definition sample_request :: "string \<Rightarrow> string \<Rightarrow> 'b \<Rightarrow> 'b request" where
  "sample_request path raw b =
     \<lparr>rq_Wired = True, rq_Writable = (\<lambda>_. True), rq_Path = path, rq_RawQuery = raw, rq_Body = Decoded_body b\<rparr>"

text \<open>A directory of one file with all the blocks the API owns, and the state after loading it.\<close>

definition full_config :: resolved_config where
  "full_config = (sample_config [])\<lparr>rv_Rules := [added_rule], rv_Connectors := [sample_webhook],
     rv_SourceFiles := map (\<lambda>b. (b, ''gateway.yaml'')) editableBlocks\<rparr>"

definition full_dir :: config_dir where
  "full_dir = [(''gateway.yaml'', file_doc full_config ''gateway.yaml'')]"

definition loaded_config :: resolved_config where
  "loaded_config = (case Load sample_connector_env ([], []) (dir_entries full_dir) of Inl e \<Rightarrow> full_config | Inr r \<Rightarrow> r)"

definition loaded_state :: admin_state where
  "loaded_state = \<lparr>am_Snapshot = loaded_config, am_Dir = full_dir\<rparr>"

lemma full_dir_loads: "Load (ae_Connectors sample_admin_env) (ae_Defaults sample_admin_env) (dir_entries full_dir) = Inr loaded_config"
proof -
  have "\<not> isl (Load sample_connector_env ([], []) (dir_entries full_dir))" by code_simp
  then obtain r where "Load sample_connector_env ([], []) (dir_entries full_dir) = Inr r"
    by (cases "Load sample_connector_env ([], []) (dir_entries full_dir)") auto
  then show ?thesis by (simp add: loaded_config_def sample_admin_env_def)
qed

lemma loaded_live: "live sample_admin_env loaded_config"
  by (rule live_loaded [OF full_dir_loads])

definition delete_mark :: admin_call where
  "delete_mark = DeleteRule (sample_request ''/api/v1/config/rules/mark'' [] ())"

lemma delete_mark_status: "map rp_Status (fst (admin_run sample_admin_env [delete_mark] loaded_state)) = [204]"
  by code_simp

lemma admin_keeps_snapshot_live_witness:
  "live sample_admin_env (am_Snapshot (snd (admin_run sample_admin_env [delete_mark] loaded_state)))"
  using admin_keeps_snapshot_live [OF full_dir_loads, of "[delete_mark]" full_dir]
  by (metis (no_types, lifting) loaded_state_def prod.collapse)


lemma admin_errors_change_nothing_witness:
  "am_Snapshot (snd (handle sample_admin_env (DeleteProvider (sample_request ''/api/v1/config/providers/openai'' [] ())) loaded_state)) =
   loaded_config"
proof -
  let ?x = "handle sample_admin_env (DeleteProvider (sample_request ''/api/v1/config/providers/openai'' [] ())) loaded_state"
  have "400 \<le> rp_Status (fst ?x)" by code_simp
  then show ?thesis
    using admin_errors_change_nothing [OF prod.collapse [symmetric]] by (metis admin_state.select_convs(1) loaded_state_def)
qed

lemma deletes_never_invalid_witness:
  "rp_Status (fst (handle sample_admin_env delete_mark loaded_state)) \<in> {204, 404, 409, 500, 503}"
  by (rule deletes_never_invalid) (simp_all add: loaded_state_def loaded_live delete_mark_def)

end
