(* ===== verification/Admin_Edit.thy ===== *)
theory Admin_Edit
  imports Admin_Run
begin

text \<open>
  Contracts of the admin API seen by a client: the type of each reply, reading a configuration and
  writing it back, and what happens to writes that overlap.
\<close>

section \<open>Reply types\<close>

text \<open>The kind of object a call is about, and the kind a body shows.\<close>

datatype resource = RuleResource | ProviderResource | GroupResource | ConnectorResource
  | ConfigurationResource | MintedKey | KeyResource | NoResource

fun call_resource :: "admin_call \<Rightarrow> resource" where
  "call_resource (CreateRule q) = RuleResource"
| "call_resource (ReplaceRule q) = RuleResource"
| "call_resource (CreateProvider q) = ProviderResource"
| "call_resource (ReplaceProvider q) = ProviderResource"
| "call_resource (CreateGroup q) = GroupResource"
| "call_resource (ReplaceGroup q) = GroupResource"
| "call_resource (CreateConnector q) = ConnectorResource"
| "call_resource (ReplaceConnector q) = ConnectorResource"
| "call_resource (CreateConfiguration q) = ConfigurationResource"
| "call_resource (ReplaceConfiguration q) = ConfigurationResource"
| "call_resource (CreateKey rand u q) = MintedKey"
| "call_resource (ReplaceKey q) = KeyResource"
| "call_resource (PatchKey q) = KeyResource"
| "call_resource c = NoResource"

fun body_resource :: "reply_body \<Rightarrow> resource" where
  "body_resource (RuleBody d) = RuleResource"
| "body_resource (ProviderBody d) = ProviderResource"
| "body_resource (GroupBody n g) = GroupResource"
| "body_resource (ConnectorBody d) = ConnectorResource"
| "body_resource (ConfigurationBody d) = ConfigurationResource"
| "body_resource (RevealBody d) = MintedKey"
| "body_resource (KeyBody d) = KeyResource"
| "body_resource b = NoResource"

definition result_body :: "admin_call \<Rightarrow> reply_body \<Rightarrow> bool" where
  "result_body c b \<longleftrightarrow> body_resource b = call_resource c \<and> body_resource b \<noteq> NoResource"

fun is_preview :: "reply_body \<Rightarrow> bool" where
  "is_preview (PreviewBody p) = True"
| "is_preview b = False"

fun is_text :: "reply_body \<Rightarrow> bool" where
  "is_text (TextBody t) = True"
| "is_text b = False"

fun is_conflict :: "reply_body \<Rightarrow> bool" where
  "is_conflict (ConflictBody m n u) = True"
| "is_conflict b = False"

fun is_invalid :: "reply_body \<Rightarrow> bool" where
  "is_invalid (InvalidBody e) = True"
| "is_invalid b = False"

definition reply_typed :: "admin_call \<Rightarrow> reply \<Rightarrow> bool" where
  "reply_typed c rp \<longleftrightarrow>
     (let st = rp_Status rp; b = rp_Body rp
      in st = 200 \<and> \<not> is_delete c \<and> (result_body c b \<or> is_preview b) \<or>
         st = 201 \<and> result_body c b \<or>
         st = 204 \<and> is_delete c \<and> b = NoBody \<or>
         st \<in> {400, 404, 500, 503} \<and> is_text b \<or>
         st = 409 \<and> is_conflict b \<or>
         st = 422 \<and> is_invalid b)"

lemma reply_bodies [simp]:
  "is_text (rp_Body NotFound)" "is_text (rp_Body Unavailable)" "is_text (rp_Body (bad_request m))"
  "is_conflict (rp_Body (conflict m n u))"
  by (simp_all add: NotFound_def Unavailable_def bad_request_def conflict_def)

lemma typed_refusals [simp]:
  "reply_typed c NotFound" "reply_typed c Unavailable" "reply_typed c (bad_request m)" "reply_typed c (conflict m n u)"
  by (simp_all add: reply_typed_def)

lemma typed_commit:
  assumes "\<And>snap. reply_typed c (success snap)"
  shows "reply_typed c (fst (commit_reply env q s mutate success))"
  using assms
  by (auto simp: commit_reply_def commitClone_def reply_typed_def Let_def split: sum.split prod.split)

lemma typed_preview:
  assumes "\<And>snap. reply_typed c (success snap)" and "\<not> is_delete c"
  shows "reply_typed c (fst (preview_or_commit env q s mutate success))"
  using typed_commit [where success = success and q = q, OF assms(1)] assms(2)
  by (auto simp: preview_or_commit_def reply_typed_def)

lemma typed_guard: "reply_typed c (fst (h ())) \<Longrightarrow> reply_typed c (fst (writableGuard q s h))"
  by (auto simp: writableGuard_def)

lemma typed_body: "(\<And>b. reply_typed c (fst (h b))) \<Longrightarrow> reply_typed c (fst (with_body q s h))"
  by (auto simp: with_body_def split: body.split)

lemma typed_key: "(\<And>i. reply_typed c (fst (h i))) \<Longrightarrow> reply_typed c (fst (at_key q s h))"
  by (auto simp: at_key_def split: option.split)

lemma typed_results [simp]:
  "reply_typed c (reply_of 200 b) \<longleftrightarrow> \<not> is_delete c \<and> (result_body c b \<or> is_preview b)"
  "reply_typed c (reply_of 201 b) \<longleftrightarrow> result_body c b"
  "reply_typed c (reply_of 204 NoBody) \<longleftrightarrow> is_delete c"
  "reply_typed c (reply_of 500 (TextBody t))"
  by (auto simp: reply_typed_def)


section \<open>Editing what was read\<close>

text \<open>
  A client that edits a configuration sends back what it read: the rows of the detail view, with
  every credential left masked.
\<close>

definition echo_body :: "configuration_detail \<Rightarrow> configuration_body" where
  "echo_body d =
     \<lparr>cw_Name = cv_Name d, cw_Credentials = map (\<lambda>(p, _). (p, None)) (cv_Credentials d),
      cw_Bindings = map (\<lambda>b. \<lparr>bd_Protocol = br_Protocol b, bd_Models = br_Models b, bd_Provider = br_Provider b,
          bd_Group = br_Group b, bd_Alias = br_Alias b, bd_Query = [], bd_Path = [], bd_Tags = br_Tags b\<rparr>) (cv_Bindings d),
      cw_PassthroughBindings = map (\<lambda>b. \<lparr>pb_Family = pt_Family b, pb_Provider = pt_Provider b, pb_Tags = pt_Tags b\<rparr>)
        (cv_PassthroughBindings d),
      cw_RuleNames = map ra_Name (cv_RuleRows d), cw_Tags = cv_Tags d, cw_ConnectorBindings = cv_ConnectorBindings d\<rparr>"

lemma attached_names:
  assumes "live env r" and "map_of (rv_Configurations r) name = Some cfg"
  shows "map ra_Name (buildRuleAttachments name r) = cfg_RuleNames cfg"
proof -
  have v: "config_Validate (ae_Connectors env) r = None" and i: "buildIndexes (ae_Defaults env) r = r"
    using assms(1) by (simp_all add: live_def)
  let ?idx = "index_by rule_Name (rv_Rules r)"
  have idx: "rv_RuleIndex r = ?idx"
    using arg_cong [OF i, of rv_RuleIndex] by (simp add: buildIndexes_def Let_def)
  have per: "rv_PerConfigurationRules r name =
      (if cfg_RuleNames cfg = [] then None else Some (List.map_filter ?idx (cfg_RuleNames cfg)))"
  proof -
    have "rv_PerConfigurationRules (buildIndexes (ae_Defaults env) r) name =
        (if cfg_RuleNames cfg = [] then None else Some (List.map_filter ?idx (cfg_RuleNames cfg)))"
      by (simp add: buildIndexes_def Let_def assms(2))
    then show ?thesis by (simp only: i)
  qed
  have "\<exists>x. ?idx n = Some x \<and> rule_Name x = n" if "n \<in> set (cfg_RuleNames cfg)" for n
  proof -
    have "ruleDefined (rv_Rules r) n" by (rule validated_configuration(3) [OF v assms(2) that])
    then obtain x where "x \<in> set (rv_Rules r)" "rule_Name x = n" by (auto simp: ruleDefined_def list_ex_iff)
    then show ?thesis using index_by_Some [OF validated_rules(1) [OF v], of n x] by blast
  qed
  then have "map rule_Name (List.map_filter ?idx (cfg_RuleNames cfg)) = cfg_RuleNames cfg" by (rule map_filter_defined)
  moreover have "map ra_Name (buildRuleAttachments name r) = map rule_Name (List.map_filter ?idx (cfg_RuleNames cfg))"
    unfolding buildRuleAttachments_def assms(2) option.case per idx Let_def
    by (cases "cfg_RuleNames cfg = []") (simp_all add: comp_def List.map_filter_simps)
  ultimately show ?thesis by (rule trans [rotated])
qed

lemma masked_merge:
  assumes "distinct (map fst creds)"
  shows "map (\<lambda>(p, incoming). (p, mergeSecret incoming (case map_of creds p of None \<Rightarrow> [] | Some v \<Rightarrow> v)))
      (map (\<lambda>(p, _). (p, None)) (redactMap creds)) = creds"
proof -
  have "map_of creds p = Some v" if "(p, v) \<in> set creds" for p v using assms that by simp
  then have "map (\<lambda>(p, v). (p, case map_of creds p of None \<Rightarrow> [] | Some v \<Rightarrow> v)) creds = map (\<lambda>x. x) creds"
    by (intro map_cong) auto
  then show ?thesis by (simp add: redactMap_def mergeSecret_def comp_def case_prod_unfold)
qed

text \<open>
  C13. Reading a configuration and writing it back unchanged, credentials left masked, stores exactly
  the configuration that was there: no secret is lost, the order of the rules is kept and the agent
  routing, which the body cannot carry, is preserved, provided no binding overrides the path or the
  query.
\<close>

theorem masked_echo_roundtrip:
  assumes "live env r" and "map_of (rv_Configurations r) name = Some cfg"
    and "distinct (map fst (cfg_Credentials cfg))"
    and "\<forall>b \<in> set (cfg_Bindings cfg). bd_Path b = [] \<and> bd_Query b = []"
  shows "buildConfiguration (echo_body (configurationDetailView name r)) cfg = cfg"
proof -
  have b: "map (\<lambda>b. \<lparr>bd_Protocol = bd_Protocol b, bd_Models = bd_Models b, bd_Provider = bd_Provider b,
      bd_Group = bd_Group b, bd_Alias = bd_Alias b, bd_Query = [], bd_Path = [], bd_Tags = bd_Tags b\<rparr>) (cfg_Bindings cfg) =
      cfg_Bindings cfg"
    by (rule map_idI) (use assms(4) in simp)
  have p: "map (\<lambda>b. \<lparr>pb_Family = pb_Family b, pb_Provider = pb_Provider b, pb_Tags = pb_Tags b\<rparr>) (cfg_PassthroughBindings cfg) =
      cfg_PassthroughBindings cfg"
    by (rule map_idI) simp
  show ?thesis
    using masked_merge [OF assms(3)] attached_names [OF assms(1,2)] b p assms(2)
    by (simp add: buildConfiguration_def echo_body_def configurationDetailView_def bindingRowsFromConfiguration_def
        stored_credential_def Let_def comp_def)
qed

section \<open>Concurrent writes\<close>

text \<open>
  No lock spans a handler from its snapshot to its commit, so the last writer wins: when the clone
  of a write was taken from an earlier snapshot, its commit publishes that clone's blocks whatever was
  committed in between.
\<close>

theorem last_writer_wins:
  assumes "commitClone env w (mutate (Clone_config (am_Snapshot s0))) s1 = (None, s2)"
  shows "same_blocks (am_Snapshot s2) (mutate (Clone_config (am_Snapshot s0)))"
proof -
  let ?c = "mutate (Clone_config (am_Snapshot s0))"
  obtain r where r: "RevalidateAndIndex (ae_Connectors env) (ae_Defaults env) ?c = Inr r" "am_Snapshot s2 = r"
    using assms by (auto simp: commitClone_def split: sum.splits prod.splits if_splits)
  then show ?thesis using indexed(2) [OF r(1)] indexes_keep_blocks by simp
qed

section \<open>Concrete edits\<close>

lemma masked_echo_roundtrip_witness:
  "\<exists>cfg. map_of (rv_Configurations loaded_config) ''default'' = Some cfg \<and>
     buildConfiguration (echo_body (configurationDetailView ''default'' loaded_config)) cfg = cfg"
proof -
  have "case map_of (rv_Configurations loaded_config) ''default'' of None \<Rightarrow> False
      | Some cfg \<Rightarrow> distinct (map fst (cfg_Credentials cfg)) \<and>
          (\<forall>b \<in> set (cfg_Bindings cfg). bd_Path b = [] \<and> bd_Query b = [])" by code_simp
  then obtain cfg where "map_of (rv_Configurations loaded_config) ''default'' = Some cfg"
    "distinct (map fst (cfg_Credentials cfg))" "\<forall>b \<in> set (cfg_Bindings cfg). bd_Path b = [] \<and> bd_Query b = []"
    by (auto split: option.splits)
  then show ?thesis using masked_echo_roundtrip [OF loaded_live] by blast
qed

text \<open>
  A rule and a group are created at the same time: both clones are taken from the loaded snapshot, both
  requests succeed, and the rule is gone.
\<close>

definition late_rule :: rule_contract where
  "late_rule = sample_rule ''late'' BehaviorContinue [AddTagAction \<lparr>at_Tag = ''late''\<rparr>]"

definition first_commit :: "commit_error option \<times> admin_state" where
  "first_commit = commitClone sample_admin_env (\<lambda>_. True)
     ((Clone_config (am_Snapshot loaded_state))\<lparr>rv_Rules := rv_Rules loaded_config @ [late_rule]\<rparr>) loaded_state"

definition second_commit :: "commit_error option \<times> admin_state" where
  "second_commit = commitClone sample_admin_env (\<lambda>_. True)
     (put_group ''spare'' (sample_group [sample_target ''openai'' ''m'', sample_target ''azure'' []])
       (Clone_config (am_Snapshot loaded_state))) (snd first_commit)"

lemma last_writer_wins_witness:
  "fst first_commit = None \<and> fst second_commit = None \<and>
   map rule_Name (rv_Rules (am_Snapshot (snd first_commit))) = [''mark'', ''late''] \<and>
   rv_Rules (am_Snapshot (snd second_commit)) = rv_Rules loaded_config"
proof (intro conjI)
  show one: "fst first_commit = None" and two: "fst second_commit = None" by code_simp+
  show "map rule_Name (rv_Rules (am_Snapshot (snd first_commit))) = [''mark'', ''late'']" by code_simp
  have "second_commit = (None, snd second_commit)" using two by (metis prod.collapse)
  then have "same_blocks (am_Snapshot (snd second_commit)) (put_group ''spare''
      (sample_group [sample_target ''openai'' ''m'', sample_target ''azure'' []]) (Clone_config (am_Snapshot loaded_state)))"
    unfolding second_commit_def by (rule last_writer_wins)
  then show "rv_Rules (am_Snapshot (snd second_commit)) = rv_Rules loaded_config"
    by (simp add: same_blocks_def put_group_def loaded_state_def)
qed

text \<open>
  What the detail view does not show is lost by an edit: a binding with a path of its own is read
  without it, and writing the view back drops it.
\<close>

theorem echo_drops_binding_path:
  "\<exists>cfg. map bd_Path (cfg_Bindings cfg) = [''/v2/chat''] \<and>
     map bd_Path (cfg_Bindings (buildConfiguration (echo_body (configurationDetailView ''default''
       (full_config\<lparr>rv_Configurations := [(''default'', cfg)]\<rparr>))) cfg)) = [[]]"
proof
  let ?b = "\<lparr>bd_Protocol = ''chat'', bd_Models = [], bd_Provider = ''openai'', bd_Group = [], bd_Alias = [],
    bd_Query = [], bd_Path = ''/v2/chat'', bd_Tags = []\<rparr>"
  show "map bd_Path (cfg_Bindings (empty_configuration\<lparr>cfg_Bindings := [?b]\<rparr>)) = [''/v2/chat''] \<and>
     map bd_Path (cfg_Bindings (buildConfiguration (echo_body (configurationDetailView ''default''
       (full_config\<lparr>rv_Configurations := [(''default'', empty_configuration\<lparr>cfg_Bindings := [?b]\<rparr>)]\<rparr>)))
       (empty_configuration\<lparr>cfg_Bindings := [?b]\<rparr>))) = [[]]"
    by (simp add: buildConfiguration_def echo_body_def configurationDetailView_def bindingRowsFromConfiguration_def Let_def)
qed

text \<open>A dry-run creation of a rule is committed.\<close>

lemma rule_dry_run_commits:
  "map rule_Name (rv_Rules (am_Snapshot (snd (handle sample_admin_env
     (CreateRule (sample_request ''/api/v1/config/rules'' ''dry_run=true'' late_rule)) loaded_state)))) = [''mark'', ''late'']"
  by code_simp

end
