(* ===== verification/Connector_Record.thy ===== *)
theory Connector_Record
  imports Prelude
begin

text \<open>
  What connectors ship, package \<^verbatim>\<open>contracts/connector\<close>: the record of one request, the sealed segment
  handed to \<^verbatim>\<open>Upload\<close>, and the classes of upload errors. A \<^verbatim>\<open>json.RawMessage\<close> is an optional byte
  string (\<^verbatim>\<open>nil\<close> is \<open>None\<close>); a pointer is an option; an \<^verbatim>\<open>int\<close> is an integer.
\<close>

section \<open>Records\<close>

definition SchemaVersion :: int where
  "SchemaVersion = 6"

record request_part =
  crq_Method :: string
  crq_Path :: string
  crq_Headers :: "string gomap"
  crq_BodySha256 :: string
  crq_BodyBytes :: int
  crq_Body :: "string option"
  crq_BodyRef :: string
  crq_BodyOmitted :: bool

record response_part =
  crs_Status :: int
  crs_Headers :: "string gomap"
  crs_BodySha256 :: string
  crs_BodyBytes :: int
  crs_Body :: "string option"
  crs_BodyRef :: string
  crs_BodyOmitted :: bool
  crs_FirstByteNs :: int
  crs_LastByteNs :: int
  crs_StreamChunks :: int
  crs_Assembled :: "string option"
  crs_AssemblyPartial :: bool

record token_counts =
  ctk_Input :: int
  ctk_Output :: int
  ctk_Cached :: int
  ctk_CacheCreation :: int
  ctk_CacheCreation5m :: int
  ctk_CacheCreation1h :: int
  ctk_InputAudio :: int
  ctk_OutputAudio :: int
  ctk_Reasoning :: int

record cost_estimate =
  cco_TotalUSD :: f64
  cco_ByCategory :: "f64 gomap"
  cco_TableVersion :: string

record attempt_entry =
  cat_Target :: string
  cat_StartedAtNs :: int
  cat_DurationMs :: int
  cat_StatusCode :: int
  cat_Error :: string
  cat_Outcome :: string

record rule_fired =
  crf_Name :: string
  crf_TookUs :: int
  crf_ActionsApplied :: "string list"
  crf_Terminated :: bool
  crf_ErrorMessage :: string

text \<open>The identity of a request: the ids the gateway resolved and where each was found.\<close>

record record_ids =
  cr_CorrelationID :: string
  cr_SessionID :: string
  cr_SessionIDSource :: string
  cr_ConversationID :: string
  cr_ConversationIDSource :: string
  cr_ParentConversationID :: string
  cr_AgentID :: string
  cr_AgentIDSource :: string
  cr_UserID :: string
  cr_UserIDSource :: string

record connector_record =
  cr_V :: int
  cr_ID :: string
  cr_TsNs :: int
  cr_Seq :: nat
  cr_InstanceID :: string
  cr_Ids :: record_ids
  cr_Configuration :: string
  cr_APIKeyName :: string
  cr_Provider :: string
  cr_Protocol :: string
  cr_Model :: string
  cr_Tags :: "string list"
  cr_Request :: request_part
  cr_Response :: response_part
  cr_Tokens :: "token_counts option"
  cr_ServerToolUse :: "int gomap"
  cr_ServiceTier :: string
  cr_InferenceGeo :: string
  cr_Cost :: "cost_estimate option"
  cr_RulesFired :: "rule_fired list"
  cr_UpstreamStatus :: int
  cr_UpstreamError :: string
  cr_PolicyRef :: string
  cr_Attempts :: "attempt_entry list"
  cr_SchemaVersion :: int

section \<open>Sealed segments and upload errors\<close>

record sealed_segment =
  sl_Path :: string
  sl_Bytes :: int
  sl_BytesUncompressed :: int
  sl_Records :: int
  sl_TsMinNs :: int
  sl_TsMaxNs :: int
  sl_DeliveryID :: string
  sl_Connector :: string

text \<open>
  An error as its unwrap chain shows it: the wrappers \<open>Retryable\<close> and \<open>Permanent\<close>, other wrappers, and
  a leaf. \<^verbatim>\<open>errors.As\<close> walks the chain.
\<close>

datatype upload_error = Retryable "upload_error option" | Permanent "upload_error option"
  | Wrapped string upload_error | Plain string

fun IsRetryable :: "upload_error option \<Rightarrow> bool" where
  "IsRetryable None = False"
| "IsRetryable (Some (Retryable e)) = True"
| "IsRetryable (Some (Permanent e)) = IsRetryable e"
| "IsRetryable (Some (Wrapped m e)) = IsRetryable (Some e)"
| "IsRetryable (Some (Plain m)) = False"

fun IsPermanent :: "upload_error option \<Rightarrow> bool" where
  "IsPermanent None = False"
| "IsPermanent (Some (Permanent e)) = True"
| "IsPermanent (Some (Retryable e)) = IsPermanent e"
| "IsPermanent (Some (Wrapped m e)) = IsPermanent (Some e)"
| "IsPermanent (Some (Plain m)) = False"

text \<open>A record to evaluate on.\<close>

definition sample_record :: connector_record where
  "sample_record =
     \<lparr>cr_V = 1, cr_ID = ''r1'', cr_TsNs = 7, cr_Seq = 1, cr_InstanceID = ''pod'',
      cr_Ids = \<lparr>cr_CorrelationID = ''c1'', cr_SessionID = [], cr_SessionIDSource = [], cr_ConversationID = [],
        cr_ConversationIDSource = [], cr_ParentConversationID = [], cr_AgentID = [], cr_AgentIDSource = [],
        cr_UserID = [], cr_UserIDSource = []\<rparr>,
      cr_Configuration = ''prod'', cr_APIKeyName = [], cr_Provider = ''openai'', cr_Protocol = ''chat'',
      cr_Model = ''gpt'', cr_Tags = [],
      cr_Request = \<lparr>crq_Method = ''POST'', crq_Path = [], crq_Headers = [], crq_BodySha256 = [], crq_BodyBytes = 2,
        crq_Body = Some ''{}'', crq_BodyRef = [], crq_BodyOmitted = False\<rparr>,
      cr_Response = \<lparr>crs_Status = 200, crs_Headers = [], crs_BodySha256 = [], crs_BodyBytes = 4,
        crs_Body = Some ''null'', crs_BodyRef = [], crs_BodyOmitted = False, crs_FirstByteNs = 0, crs_LastByteNs = 0,
        crs_StreamChunks = 0, crs_Assembled = None, crs_AssemblyPartial = False\<rparr>,
      cr_Tokens = None, cr_ServerToolUse = [], cr_ServiceTier = [], cr_InferenceGeo = [], cr_Cost = None,
      cr_RulesFired = [], cr_UpstreamStatus = 200, cr_UpstreamError = [], cr_PolicyRef = [], cr_Attempts = [],
      cr_SchemaVersion = SchemaVersion\<rparr>"

end
