(* ===== verification/Spool_Disk.thy ===== *)
theory Spool_Disk
  imports Connector_Record "HOL-Library.List_Lexorder"
begin

text \<open>
  The disk side of the spool, \<^verbatim>\<open>internal/spool\<close>: the segment being appended to (\<^verbatim>\<open>segment.go\<close>), its stats
  sidecar (\<^verbatim>\<open>meta.go\<close>), the directory layout and its transitions (\<^verbatim>\<open>manager.go\<close>) and the reconcile after
  a restart (\<^verbatim>\<open>recovery.go\<close>). A path below the root of a connector is a state directory and a file
  name. The disk maps paths to files; a segment file is known by the records its stream decodes to and
  whether it decodes to the end. Every system call may fail for a reason of its own, given by an
  argument; without a fault it does what the file system does, \<^verbatim>\<open>rename\<close> onto an existing file included.
\<close>

section \<open>Files\<close>

datatype spool_dir = DirActive | DirSealed | DirUploading | DirDeadletter | DirQuarantine

fun state_name :: "spool_dir \<Rightarrow> string" where
  "state_name DirActive = ''active''"
| "state_name DirSealed = ''sealed''"
| "state_name DirUploading = ''uploading''"
| "state_name DirDeadletter = ''deadletter''"
| "state_name DirQuarantine = ''quarantine''"

type_synonym seg_path = "spool_dir \<times> string"

record segment_meta =
  sm_Records :: int
  sm_BytesUncompressed :: int
  sm_TsMinNs :: int
  sm_TsMaxNs :: int

datatype disk_file = SegmentFile bool "connector_record list" | MetaFile "segment_meta option"

type_synonym disk = "(seg_path \<times> disk_file) list"

datatype os_errno = ENOENT | EEXIST | EOTHER

datatype spool_error = ErrNotUnder | ErrOS os_errno | ErrSegmentClosed | ErrMarshal | ErrEncoder
  | ErrRootRequired | ErrDecodeMeta

definition is_not_exist :: "spool_error \<Rightarrow> bool" where
  "is_not_exist e \<longleftrightarrow> e = ErrOS ENOENT"

text \<open>Faults of the system calls one operation makes; \<open>None\<close> is a call that is not disturbed.\<close>

record io_faults =
  io_Open :: "os_errno option"
  io_Encoder :: bool
  io_Close :: bool
  io_Rename :: "os_errno option"
  io_MetaStat :: "os_errno option"
  io_MetaRename :: "os_errno option"
  io_MetaWrite :: "os_errno option"
  io_MetaRead :: "os_errno option"
  io_Remove :: "os_errno option"
  io_MetaRemove :: "os_errno option"

definition no_faults :: io_faults where
  "no_faults = \<lparr>io_Open = None, io_Encoder = False, io_Close = False, io_Rename = None, io_MetaStat = None,
     io_MetaRename = None, io_MetaWrite = None, io_MetaRead = None, io_Remove = None, io_MetaRemove = None\<rparr>"

definition os_rename :: "os_errno option \<Rightarrow> seg_path \<Rightarrow> seg_path \<Rightarrow> disk \<Rightarrow> os_errno option \<times> disk" where
  "os_rename fault src dst d =
     (case fault of Some e \<Rightarrow> (Some e, d)
      | None \<Rightarrow> (case map_of d src of None \<Rightarrow> (Some ENOENT, d)
                | Some f \<Rightarrow> (None, AList.update dst f (AList.delete src d))))"

definition os_remove :: "os_errno option \<Rightarrow> seg_path \<Rightarrow> disk \<Rightarrow> os_errno option \<times> disk" where
  "os_remove fault p d =
     (case fault of Some e \<Rightarrow> (Some e, d)
      | None \<Rightarrow> (if map_of d p = None then (Some ENOENT, d) else (None, AList.delete p d)))"

definition os_lstat :: "os_errno option \<Rightarrow> seg_path \<Rightarrow> disk \<Rightarrow> os_errno option" where
  "os_lstat fault p d =
     (case fault of Some e \<Rightarrow> Some e | None \<Rightarrow> if map_of d p = None then Some ENOENT else None)"

section \<open>The active segment\<close>

definition segmentExt :: string where
  "segmentExt = ''.ndjson.zst''"

definition metaExt :: string where
  "metaExt = ''.meta.json''"

definition metaPath :: "seg_path \<Rightarrow> seg_path" where
  "metaPath p = (fst p, snd p @ metaExt)"

definition itoa_int :: "int \<Rightarrow> string" where
  "itoa_int i = (if i < 0 then CHR ''-'' # itoa (nat (- i)) else itoa (nat i))"

definition segmentFilename :: "int \<Rightarrow> nat \<Rightarrow> string" where
  "segmentFilename openedAt seq = itoa_int openedAt @ ''-'' @ itoa seq @ segmentExt"

text \<open>\<open>sg_Written\<close> is what the encoder was given: the records the file decodes to once it is closed.\<close>

record segment =
  sg_Path :: seg_path
  sg_Seq :: nat
  sg_OpenedAt :: int
  sg_Written :: "connector_record list"
  sg_Closed :: bool
  sg_Records :: int
  sg_BytesUncompressed :: int
  sg_TsMinNs :: int
  sg_TsMaxNs :: int

definition OpenSegment ::
  "io_faults \<Rightarrow> spool_dir \<Rightarrow> nat \<Rightarrow> int \<Rightarrow> disk \<Rightarrow> (spool_error + segment) \<times> disk" where
  "OpenSegment flt dir seq openedAt d =
     (let p = (dir, segmentFilename openedAt seq)
      in case io_Open flt of
           Some e \<Rightarrow> (Inl (ErrOS e), d)
         | None \<Rightarrow>
             if map_of d p \<noteq> None then (Inl (ErrOS EEXIST), d)
             else if io_Encoder flt then (Inl ErrEncoder, d)
             else (Inr \<lparr>sg_Path = p, sg_Seq = seq, sg_OpenedAt = openedAt, sg_Written = [], sg_Closed = False,
                        sg_Records = 0, sg_BytesUncompressed = 0, sg_TsMinNs = 0, sg_TsMaxNs = 0\<rparr>,
                   AList.update p (SegmentFile False []) d))"

definition Segment_Write ::
  "(connector_record \<Rightarrow> string option) \<Rightarrow> io_faults \<Rightarrow> segment \<Rightarrow> connector_record \<Rightarrow> spool_error option \<times> segment"
  where
  "Segment_Write marshal flt s rec =
     (if sg_Closed s then (Some ErrSegmentClosed, s)
      else case marshal rec of
        None \<Rightarrow> (Some ErrMarshal, s)
      | Some line \<Rightarrow>
          if io_Encoder flt then (Some ErrEncoder, s)
          else (None, s\<lparr>sg_Written := sg_Written s @ [rec], sg_Records := sg_Records s + 1,
                  sg_BytesUncompressed := i64 (sg_BytesUncompressed s + (int (length line) + 1)),
                  sg_TsMinNs := (if sg_TsMinNs s = 0 \<or> cr_TsNs rec < sg_TsMinNs s then cr_TsNs rec else sg_TsMinNs s),
                  sg_TsMaxNs := (if cr_TsNs rec > sg_TsMaxNs s then cr_TsNs rec else sg_TsMaxNs s)\<rparr>))"

text \<open>Closing finishes the last frame, so the file decodes to the end unless a step fails.\<close>

definition Segment_Close :: "io_faults \<Rightarrow> segment \<Rightarrow> disk \<Rightarrow> spool_error option \<times> segment \<times> disk" where
  "Segment_Close flt s d =
     (if sg_Closed s then (None, s, d)
      else if io_Close flt
        then (Some (ErrOS EOTHER), s\<lparr>sg_Closed := True\<rparr>, AList.update (sg_Path s) (SegmentFile False (sg_Written s)) d)
      else (None, s\<lparr>sg_Closed := True\<rparr>, AList.update (sg_Path s) (SegmentFile True (sg_Written s)) d))"

definition ShouldRotate :: "segment \<Rightarrow> int \<Rightarrow> int \<Rightarrow> int \<Rightarrow> bool" where
  "ShouldRotate s maxBytes maxAge now \<longleftrightarrow>
     maxBytes > 0 \<and> sg_BytesUncompressed s \<ge> maxBytes \<or> maxAge > 0 \<and> now - sg_OpenedAt s \<ge> maxAge"

definition segment_stats :: "segment \<Rightarrow> segment_meta" where
  "segment_stats s = \<lparr>sm_Records = sg_Records s, sm_BytesUncompressed = sg_BytesUncompressed s,
     sm_TsMinNs = sg_TsMinNs s, sm_TsMaxNs = sg_TsMaxNs s\<rparr>"

section \<open>The stats sidecar\<close>

definition writeSegmentMeta :: "io_faults \<Rightarrow> seg_path \<Rightarrow> segment_meta \<Rightarrow> disk \<Rightarrow> spool_error option \<times> disk" where
  "writeSegmentMeta flt p stats d =
     (case io_MetaWrite flt of Some e \<Rightarrow> (Some (ErrOS e), d)
      | None \<Rightarrow> (None, AList.update (metaPath p) (MetaFile (Some stats)) d))"

definition readSegmentMeta :: "io_faults \<Rightarrow> seg_path \<Rightarrow> disk \<Rightarrow> spool_error + segment_meta option" where
  "readSegmentMeta flt p d =
     (case io_MetaRead flt of
        Some e \<Rightarrow> if e = ENOENT then Inr None else Inl (ErrOS e)
      | None \<Rightarrow> (case map_of d (metaPath p) of
          None \<Rightarrow> Inr None
        | Some (MetaFile (Some m)) \<Rightarrow> Inr (Some m)
        | Some f \<Rightarrow> Inl ErrDecodeMeta))"

definition moveSegmentMeta :: "io_faults \<Rightarrow> seg_path \<Rightarrow> seg_path \<Rightarrow> disk \<Rightarrow> spool_error option \<times> disk" where
  "moveSegmentMeta flt src dst d =
     (case os_lstat (io_MetaStat flt) (metaPath src) d of
        Some e \<Rightarrow> if e = ENOENT then (None, d) else (Some (ErrOS e), d)
      | None \<Rightarrow> (case os_rename (io_MetaRename flt) (metaPath src) (metaPath dst) d of
          (Some e, d') \<Rightarrow> (Some (ErrOS e), d')
        | (None, d') \<Rightarrow> (None, d')))"

definition removeSegmentMeta :: "io_faults \<Rightarrow> seg_path \<Rightarrow> disk \<Rightarrow> spool_error option \<times> disk" where
  "removeSegmentMeta flt p d =
     (case os_remove (io_MetaRemove flt) (metaPath p) d of
        (Some e, d') \<Rightarrow> if e = ENOENT then (None, d') else (Some (ErrOS e), d')
      | (None, d') \<Rightarrow> (None, d'))"

section \<open>The manager\<close>

definition assertUnder :: "seg_path \<Rightarrow> spool_dir \<Rightarrow> spool_error option" where
  "assertUnder p st = (if fst p = st then None else Some ErrNotUnder)"

text \<open>The Go function returns the new path beside the error of moving the sidecar.\<close>

definition seg_transition ::
  "io_faults \<Rightarrow> seg_path \<Rightarrow> spool_dir \<Rightarrow> spool_dir \<Rightarrow> disk \<Rightarrow> (seg_path option \<times> spool_error option) \<times> disk" where
  "seg_transition flt src from to d =
     (case assertUnder src from of
        Some e \<Rightarrow> ((None, Some e), d)
      | None \<Rightarrow>
          (let dst = (to, snd src)
           in case os_rename (io_Rename flt) src dst d of
                (Some e, d1) \<Rightarrow> ((None, Some (ErrOS e)), d1)
              | (None, d1) \<Rightarrow> (case moveSegmentMeta flt src dst d1 of
                    (Some e, d2) \<Rightarrow> ((Some dst, Some e), d2)
                  | (None, d2) \<Rightarrow> ((Some dst, None), d2))))"

definition Seal :: "io_faults \<Rightarrow> seg_path \<Rightarrow> disk \<Rightarrow> (seg_path option \<times> spool_error option) \<times> disk" where
  "Seal flt p d = seg_transition flt p DirActive DirSealed d"

definition Claim :: "io_faults \<Rightarrow> seg_path \<Rightarrow> disk \<Rightarrow> (seg_path option \<times> spool_error option) \<times> disk" where
  "Claim flt p d = seg_transition flt p DirSealed DirUploading d"

definition Deadletter :: "io_faults \<Rightarrow> seg_path \<Rightarrow> disk \<Rightarrow> (seg_path option \<times> spool_error option) \<times> disk" where
  "Deadletter flt p d = seg_transition flt p DirUploading DirDeadletter d"

definition Quarantine :: "io_faults \<Rightarrow> seg_path \<Rightarrow> disk \<Rightarrow> (seg_path option \<times> spool_error option) \<times> disk" where
  "Quarantine flt p d = seg_transition flt p DirActive DirQuarantine d"

definition Complete :: "io_faults \<Rightarrow> seg_path \<Rightarrow> disk \<Rightarrow> spool_error option \<times> disk" where
  "Complete flt p d =
     (case assertUnder p DirUploading of
        Some e \<Rightarrow> (Some e, d)
      | None \<Rightarrow> (case os_remove (io_Remove flt) p d of
            (Some e, d1) \<Rightarrow> if e = ENOENT then removeSegmentMeta flt p d1 else (Some (ErrOS e), d1)
          | (None, d1) \<Rightarrow> removeSegmentMeta flt p d1))"

definition is_segment :: "string \<Rightarrow> bool" where
  "is_segment name \<longleftrightarrow> \<not> (length name < length segmentExt \<or> drop (length name - length segmentExt) name \<noteq> segmentExt)"

definition listSegments :: "os_errno option \<Rightarrow> spool_dir \<Rightarrow> disk \<Rightarrow> spool_error + seg_path list" where
  "listSegments fault dir d =
     (case fault of Some e \<Rightarrow> Inl (ErrOS e)
      | None \<Rightarrow> Inr (map (Pair dir)
          (sort (filter is_segment (map snd (filter (\<lambda>p. fst p = dir) (map fst d)))))))"

section \<open>Recovery\<close>

record recovery_report =
  rr_RecoveredFromUploading :: nat
  rr_SealedFromActive :: nat
  rr_QuarantinedFromActive :: nat

text \<open>Whether listing a directory fails, and the faults met at the file of a name.\<close>

record recover_env =
  re_List :: "spool_dir \<Rightarrow> os_errno option"
  re_File :: "seg_path \<Rightarrow> io_faults"

definition validateZstdFrames :: "io_faults \<Rightarrow> seg_path \<Rightarrow> disk \<Rightarrow> spool_error + bool" where
  "validateZstdFrames flt p d =
     (case io_Open flt of Some e \<Rightarrow> Inl (ErrOS e)
      | None \<Rightarrow> (case map_of d p of
          None \<Rightarrow> Inl (ErrOS ENOENT)
        | Some (SegmentFile whole recs) \<Rightarrow> Inr whole
        | Some (MetaFile m) \<Rightarrow> Inr False))"

fun recover_uploading ::
  "recover_env \<Rightarrow> seg_path list \<Rightarrow> recovery_report \<Rightarrow> disk \<Rightarrow> (recovery_report \<times> spool_error option) \<times> disk" where
  "recover_uploading env [] rep d = ((rep, None), d)"
| "recover_uploading env (p # ps) rep d =
     (case seg_transition (re_File env p) p DirUploading DirSealed d of
        ((_, Some e), d') \<Rightarrow> ((rep, Some e), d')
      | ((_, None), d') \<Rightarrow>
          recover_uploading env ps (rep\<lparr>rr_RecoveredFromUploading := rr_RecoveredFromUploading rep + 1\<rparr>) d')"

fun recover_active ::
  "recover_env \<Rightarrow> seg_path list \<Rightarrow> recovery_report \<Rightarrow> disk \<Rightarrow> (recovery_report \<times> spool_error option) \<times> disk" where
  "recover_active env [] rep d = ((rep, None), d)"
| "recover_active env (p # ps) rep d =
     (case validateZstdFrames (re_File env p) p d of
        Inl e \<Rightarrow> ((rep, Some e), d)
      | Inr True \<Rightarrow>
          (case Seal (re_File env p) p d of
             ((_, Some e), d') \<Rightarrow> ((rep, Some e), d')
           | ((_, None), d') \<Rightarrow>
               recover_active env ps (rep\<lparr>rr_SealedFromActive := rr_SealedFromActive rep + 1\<rparr>) d')
      | Inr False \<Rightarrow>
          (case Quarantine (re_File env p) p d of
             ((_, Some e), d') \<Rightarrow> ((rep, Some e), d')
           | ((_, None), d') \<Rightarrow>
               recover_active env ps (rep\<lparr>rr_QuarantinedFromActive := rr_QuarantinedFromActive rep + 1\<rparr>) d'))"

definition Recover :: "recover_env \<Rightarrow> disk \<Rightarrow> (recovery_report \<times> spool_error option) \<times> disk" where
  "Recover env d =
     (let rep = \<lparr>rr_RecoveredFromUploading = 0, rr_SealedFromActive = 0, rr_QuarantinedFromActive = 0\<rparr>
      in case listSegments (re_List env DirUploading) DirUploading d of
           Inl e \<Rightarrow> ((rep, Some e), d)
         | Inr uploading \<Rightarrow>
             (case recover_uploading env uploading rep d of
                ((rep1, Some e), d1) \<Rightarrow> ((rep1, Some e), d1)
              | ((rep1, None), d1) \<Rightarrow>
                  (case listSegments (re_List env DirActive) DirActive d1 of
                     Inl e \<Rightarrow> ((rep1, Some e), d1)
                   | Inr active \<Rightarrow> recover_active env active rep1 d1)))"

section \<open>What a disk holds\<close>

text \<open>The segment file at a path: whether it decodes to the end, and its records.\<close>

definition seg_at :: "disk \<Rightarrow> seg_path \<Rightarrow> (bool \<times> connector_record list) option" where
  "seg_at d p =
     (if is_segment (snd p)
      then (case map_of d p of Some (SegmentFile whole recs) \<Rightarrow> Some (whole, recs) | _ \<Rightarrow> None) else None)"

definition one_place :: "disk \<Rightarrow> bool" where
  "one_place d \<longleftrightarrow> (\<forall>n a b. map_of d (a, n) \<noteq> None \<longrightarrow> map_of d (b, n) \<noteq> None \<longrightarrow> is_segment n \<longrightarrow> a = b)"

definition holds :: "disk \<Rightarrow> string \<Rightarrow> bool \<times> connector_record list \<Rightarrow> bool" where
  "holds d n c \<longleftrightarrow> (\<exists>a. seg_at d (a, n) = Some c)"

definition has_name :: "disk \<Rightarrow> string \<Rightarrow> bool" where
  "has_name d n \<longleftrightarrow> (\<exists>a. map_of d (a, n) \<noteq> None)"

definition same_holdings :: "disk \<Rightarrow> disk \<Rightarrow> bool" where
  "same_holdings d d' \<longleftrightarrow>
     (\<forall>n c. holds d n c = holds d' n c) \<and> (\<forall>n. is_segment n \<longrightarrow> has_name d n = has_name d' n)"

text \<open>Two disks with the same files under segment names.\<close>

definition same_segments :: "disk \<Rightarrow> disk \<Rightarrow> bool" where
  "same_segments d d' \<longleftrightarrow> (\<forall>p. is_segment (snd p) \<longrightarrow> map_of d p = map_of d' p)"

definition moved :: "disk \<Rightarrow> seg_path \<Rightarrow> seg_path \<Rightarrow> disk \<Rightarrow> bool" where
  "moved d src dst d' \<longleftrightarrow>
     (\<forall>p. is_segment (snd p) \<longrightarrow> map_of d' p = ((map_of d)(src := None, dst := map_of d src)) p)"

lemma meta_not_segment [simp]: "\<not> is_segment (n @ metaExt)"
proof -
  have "drop (length (n @ metaExt) - length segmentExt) (n @ metaExt) \<noteq> segmentExt"
  proof
    assume "drop (length (n @ metaExt) - length segmentExt) (n @ metaExt) = segmentExt"
    then have "last (drop (length (n @ metaExt) - length segmentExt) (n @ metaExt)) = last segmentExt" by simp
    then show False by (simp add: segmentExt_def metaExt_def split: if_splits)
  qed
  then show ?thesis by (auto simp: is_segment_def)
qed

lemma same_segments_refl [simp]: "same_segments d d"
  by (simp add: same_segments_def)

lemma same_segments_trans: "same_segments a b \<Longrightarrow> same_segments b c \<Longrightarrow> same_segments a c"
  by (simp add: same_segments_def)

lemma os_rename_map:
  "os_rename f src dst d = (e, d') \<Longrightarrow>
     (if e = None then f = None \<and> map_of d src \<noteq> None \<and> map_of d' = (map_of d)(src := None, dst := map_of d src) else d' = d)"
  by (auto simp: os_rename_def update_conv' delete_conv' split: option.splits)

lemma os_remove_map:
  "os_remove f p d = (e, d') \<Longrightarrow> (if e = None then map_of d' = (map_of d)(p := None) else d' = d)"
  by (auto simp: os_remove_def delete_conv' split: option.splits if_splits)

lemma moveSegmentMeta_segments: "moveSegmentMeta flt src dst d = (e, d') \<Longrightarrow> same_segments d d'"
  by (auto simp: moveSegmentMeta_def same_segments_def metaPath_def dest!: os_rename_map
        split: option.splits if_splits prod.splits)

lemma removeSegmentMeta_segments: "removeSegmentMeta flt p d = (e, d') \<Longrightarrow> same_segments d d'"
  by (auto simp: removeSegmentMeta_def same_segments_def metaPath_def dest!: os_remove_map
        split: option.splits if_splits prod.splits)

lemma writeSegmentMeta_segments: "same_segments d (snd (writeSegmentMeta flt p m d))"
  by (auto simp: writeSegmentMeta_def same_segments_def metaPath_def update_conv' split: option.splits)

lemma transition_map:
  assumes "seg_transition flt src from to d = ((q, e), d')"
  shows "(q = None \<and> e \<noteq> None \<and> d' = d) \<or>
    (q = Some (to, snd src) \<and> fst src = from \<and> map_of d src \<noteq> None \<and> moved d src (to, snd src) d')"
proof (cases "fst src = from")
  case under: True
  obtain e1 d1 where rn: "os_rename (io_Rename flt) src (to, snd src) d = (e1, d1)" by fastforce
  show ?thesis
  proof (cases e1)
    case None
    obtain e2 d2 where mv: "moveSegmentMeta flt src (to, snd src) d1 = (e2, d2)" by fastforce
    from os_rename_map [OF rn] None have m1: "map_of d src \<noteq> None"
      "map_of d1 = (map_of d)(src := None, (to, snd src) := map_of d src)" by auto
    from assms rn mv None under have "q = Some (to, snd src)" "d' = d2"
      by (auto simp: seg_transition_def assertUnder_def Let_def split: option.splits)
    with moveSegmentMeta_segments [OF mv] m1 under show ?thesis
      by (auto simp: moved_def same_segments_def)
  next
    case (Some x)
    with os_rename_map [OF rn] assms rn under show ?thesis
      by (auto simp: seg_transition_def assertUnder_def Let_def)
  qed
next
  case False
  with assms show ?thesis by (auto simp: seg_transition_def assertUnder_def)
qed

lemma seg_transition_ok:
  "seg_transition flt src from to d = ((q, None), d') \<Longrightarrow>
     q = Some (to, snd src) \<and> fst src = from \<and> map_of d src \<noteq> None \<and> moved d src (to, snd src) d'"
  using transition_map by fastforce

lemma one_placeD: "one_place d \<Longrightarrow> map_of d (a, n) \<noteq> None \<Longrightarrow> is_segment n \<Longrightarrow> z \<noteq> a \<Longrightarrow> map_of d (z, n) = None"
  unfolding one_place_def by metis

lemma moved_one_place:
  assumes "one_place d" "moved d (a, n) (b, n) d'" "map_of d (a, n) \<noteq> None"
  shows "one_place d'"
  unfolding one_place_def
proof (intro allI impI)
  fix m x y assume *: "map_of d' (x, m) \<noteq> None" "map_of d' (y, m) \<noteq> None" "is_segment m"
  from * assms(2) have v: "map_of d' (z, m) = ((map_of d)((a, n) := None, (b, n) := map_of d (a, n))) (z, m)" for z
    by (simp add: moved_def)
  show "x = y"
  proof (cases "m = n")
    case True
    have "z = b" if "map_of d' (z, n) \<noteq> None" for z
    proof (rule ccontr)
      assume "z \<noteq> b"
      with that v [of z] True have "map_of d (z, n) \<noteq> None" "z \<noteq> a" by (auto split: if_splits)
      with assms(1,3) * True show False by (auto simp: one_place_def)
    qed
    with * True show ?thesis by auto
  next
    case False
    with v [of x] v [of y] * assms(1) show ?thesis by (auto simp: one_place_def)
  qed
qed

lemma moved_holdings:
  assumes "one_place d" "moved d (a, n) (b, n) d'" "map_of d (a, n) \<noteq> None"
  shows "same_holdings d d'"
  unfolding same_holdings_def
proof (intro conjI allI impI)
  fix m assume "is_segment m"
  then have v: "map_of d' (z, m) = ((map_of d)((a, n) := None, (b, n) := map_of d (a, n))) (z, m)" for z
    using assms(2) by (simp add: moved_def)
  show "has_name d m = has_name d' m"
  proof (cases "m = n")
    case True
    with v [of b] assms(3) have "map_of d (a, m) \<noteq> None" "map_of d' (b, m) \<noteq> None" by auto
    then show ?thesis unfolding has_name_def by blast
  next
    case False
    with v show ?thesis by (simp add: has_name_def)
  qed
next
  fix m c
  show "holds d m c = holds d' m c"
  proof (cases "is_segment m")
    case seg: True
    have v: "map_of d' (z, m) = ((map_of d)((a, n) := None, (b, n) := map_of d (a, n))) (z, m)" for z
      using assms(2) seg by (simp add: moved_def)
    show ?thesis
    proof (cases "m = n")
      case True
      have only: "map_of d (z, n) = None" if "z \<noteq> a" for z
        using one_placeD [OF assms(1,3) _ that] seg True by simp
      have old: "seg_at d (z, n) = (if z = a then seg_at d (a, n) else None)" for z
        using only by (simp add: seg_at_def)
      have new: "seg_at d' (z, n) = (if z = b then seg_at d (a, n) else None)" for z
      proof -
        have eq: "map_of d' (z, n) = (if z = b then map_of d (a, n) else None)"
          using v [of z] only [of z] True by auto
        show ?thesis unfolding seg_at_def eq by simp
      qed
      have "holds d n c \<longleftrightarrow> seg_at d (a, n) = Some c"
        unfolding holds_def by (metis old option.distinct(1))
      moreover have "holds d' n c \<longleftrightarrow> seg_at d (a, n) = Some c"
        unfolding holds_def by (metis new option.distinct(1))
      ultimately show ?thesis using True by simp
    next
      case False
      with v have "map_of d' (z, m) = map_of d (z, m)" for z by simp
      then show ?thesis by (simp add: holds_def seg_at_def)
    qed
  qed (simp add: holds_def seg_at_def)
qed

lemma transition_kept:
  assumes "one_place d" "seg_transition flt src from to d = (r, d')"
  shows "one_place d'" "same_holdings d d'"
proof -
  obtain q e where r: "r = (q, e)" by fastforce
  obtain a n where src: "src = (a, n)" by fastforce
  from transition_map [OF assms(2) [unfolded r]] src
  consider "d' = d" | "moved d (a, n) (to, n) d'" "map_of d (a, n) \<noteq> None" by fastforce
  then have "one_place d' \<and> same_holdings d d'"
    by cases (use assms(1) moved_one_place moved_holdings in \<open>auto simp: same_holdings_def\<close>)
  then show "one_place d'" "same_holdings d d'" by auto
qed

lemma same_holdings_trans [trans]: "same_holdings a b \<Longrightarrow> same_holdings b c \<Longrightarrow> same_holdings a c"
  by (simp add: same_holdings_def)

lemma same_holdings_refl [simp]: "same_holdings d d"
  by (simp add: same_holdings_def)

lemma same_segments_kept: "same_segments d d' \<Longrightarrow> one_place d \<Longrightarrow> one_place d' \<and> same_holdings d d'"
proof -
  assume s: "same_segments d d'" and o: "one_place d"
  from s have v: "is_segment n \<Longrightarrow> map_of d' (a, n) = map_of d (a, n)" for a n
    by (simp add: same_segments_def)
  from v have "seg_at d' (a, n) = seg_at d (a, n)" for a n
    by (simp add: seg_at_def)
  with v have "same_holdings d d'" by (simp add: same_holdings_def holds_def has_name_def)
  moreover from o v have "one_place d'" unfolding one_place_def by metis
  ultimately show ?thesis by simp
qed

section \<open>Listing and recovery\<close>

definition disk_ok :: "disk \<Rightarrow> bool" where
  "disk_ok d \<longleftrightarrow> distinct (map fst d) \<and> one_place d"

lemma os_rename_distinct: "os_rename f src dst d = (e, d') \<Longrightarrow> distinct (map fst d) \<Longrightarrow> distinct (map fst d')"
  by (auto simp: os_rename_def distinct_update distinct_delete split: option.splits)

lemma os_remove_distinct: "os_remove f p d = (e, d') \<Longrightarrow> distinct (map fst d) \<Longrightarrow> distinct (map fst d')"
  by (auto simp: os_remove_def distinct_delete split: option.splits if_splits)

lemma moveSegmentMeta_distinct: "moveSegmentMeta flt a b d = (e, d') \<Longrightarrow> distinct (map fst d) \<Longrightarrow> distinct (map fst d')"
  by (auto simp: moveSegmentMeta_def dest: os_rename_distinct split: option.splits if_splits prod.splits)

lemma removeSegmentMeta_distinct: "removeSegmentMeta flt p d = (e, d') \<Longrightarrow> distinct (map fst d) \<Longrightarrow> distinct (map fst d')"
  by (auto simp: removeSegmentMeta_def dest: os_remove_distinct split: option.splits if_splits prod.splits)

lemma writeSegmentMeta_distinct: "distinct (map fst d) \<Longrightarrow> distinct (map fst (snd (writeSegmentMeta flt p m d)))"
  by (auto simp: writeSegmentMeta_def distinct_update split: option.splits)

lemma transition_distinct: "seg_transition flt src a b d = (r, d') \<Longrightarrow> distinct (map fst d) \<Longrightarrow> distinct (map fst d')"
  by (auto simp: seg_transition_def Let_def dest: os_rename_distinct moveSegmentMeta_distinct split: option.splits prod.splits)

lemma transition_disk_ok: "disk_ok d \<Longrightarrow> seg_transition flt src a b d = (r, d') \<Longrightarrow> disk_ok d' \<and> same_holdings d d'"
  by (simp add: disk_ok_def transition_kept [of d flt src a b r d'] transition_distinct [of flt src a b d r d'])

lemma transition_step:
  assumes "one_place d" "seg_transition flt (s, n) s t d = ((q, None), d')" "s \<noteq> t"
  shows "q = Some (t, n) \<and> map_of d (s, n) \<noteq> None \<and>
    (is_segment m \<longrightarrow> map_of d' (a, m) = (if m = n then (if a = t then map_of d (s, n) else None) else map_of d (a, m)))"
proof -
  from seg_transition_ok [OF assms(2)] have ok: "q = Some (t, n)" "map_of d (s, n) \<noteq> None"
    and mv: "moved d (s, n) (t, n) d'" by auto
  have "map_of d' (a, m) = (if m = n then (if a = t then map_of d (s, n) else None) else map_of d (a, m))"
    if seg: "is_segment m"
  proof -
    from mv seg have v: "map_of d' (a, m) = ((map_of d)((s, n) := None, (t, n) := map_of d (s, n))) (a, m)"
      by (simp add: moved_def)
    show ?thesis
    proof (cases "m = n")
      case True
      with one_placeD [OF assms(1) ok(2)] seg have "a \<noteq> s \<Longrightarrow> map_of d (a, n) = None" by simp
      with v True show ?thesis by auto
    qed (use v in simp)
  qed
  with ok show ?thesis by simp
qed

lemma listSegments_Inr:
  assumes "listSegments f dir d = Inr ps"
  shows "set ps = {(dir, n) |n. is_segment n \<and> map_of d (dir, n) \<noteq> None}"
    "distinct (map fst d) \<Longrightarrow> distinct ps" "sorted (map snd ps)"
proof -
  from assms have ps: "ps = map (Pair dir) (sort (filter is_segment (map snd (filter (\<lambda>p. fst p = dir) (map fst d)))))"
    by (auto simp: listSegments_def split: option.splits)
  show "set ps = {(dir, n) |n. is_segment n \<and> map_of d (dir, n) \<noteq> None}"
    by (force simp: ps map_of_eq_None_iff)
  show "sorted (map snd ps)" by (simp add: ps o_def)
  assume d: "distinct (map fst d)"
  have "inj_on snd {p. fst p = dir}" by (auto intro: inj_onI)
  then have "distinct (map snd (filter (\<lambda>p. fst p = dir) (map fst d)))"
    using d by (auto simp: distinct_map intro: inj_on_subset)
  then show "distinct ps" by (auto simp: ps distinct_map intro: inj_onI)
qed

definition recovered :: "spool_dir \<Rightarrow> bool \<Rightarrow> spool_dir" where
  "recovered dir whole =
     (case dir of DirUploading \<Rightarrow> DirSealed | DirActive \<Rightarrow> if whole then DirSealed else DirQuarantine | _ \<Rightarrow> dir)"

lemma recover_uploading_kept:
  "recover_uploading env ps rep d = (r, d') \<Longrightarrow> disk_ok d \<Longrightarrow> disk_ok d' \<and> same_holdings d d'"
proof (induction ps arbitrary: rep d)
  case (Cons p ps)
  obtain q e d1 where t: "seg_transition (re_File env p) p DirUploading DirSealed d = ((q, e), d1)" by (metis prod.collapse)
  from transition_disk_ok [OF Cons.prems(2) t] have d1: "disk_ok d1" "same_holdings d d1" by auto
  show ?case
  proof (cases e)
    case None
    with Cons.prems(1) t have "recover_uploading env ps (rep\<lparr>rr_RecoveredFromUploading := rr_RecoveredFromUploading rep + 1\<rparr>) d1 = (r, d')"
      by simp
    from Cons.IH [OF this d1(1)] d1(2) same_holdings_trans show ?thesis by blast
  qed (use Cons.prems(1) t d1 in auto)
qed simp

lemma recover_active_kept:
  "recover_active env ps rep d = (r, d') \<Longrightarrow> disk_ok d \<Longrightarrow> disk_ok d' \<and> same_holdings d d'"
proof (induction ps arbitrary: rep d)
  case (Cons p ps)
  obtain to where to: "to = (if validateZstdFrames (re_File env p) p d = Inr True then DirSealed else DirQuarantine)" by simp
  obtain q e d1 where t: "seg_transition (re_File env p) p DirActive to d = ((q, e), d1)" by (metis prod.collapse)
  from transition_disk_ok [OF Cons.prems(2) t] have d1: "disk_ok d1" "same_holdings d d1" by auto
  consider (bad) x where "validateZstdFrames (re_File env p) p d = Inl x"
    | (ok) w where "validateZstdFrames (re_File env p) p d = Inr w" by (cases "validateZstdFrames (re_File env p) p d")
  then show ?case
  proof cases
    case bad
    with Cons.prems show ?thesis by auto
  next
    case ok
    show ?thesis
    proof (cases e)
      case None
      with Cons.prems(1) t to ok have "\<exists>rep'. recover_active env ps rep' d1 = (r, d')"
        by (cases w) (auto simp: Seal_def Quarantine_def)
      with Cons.IH d1 same_holdings_trans show ?thesis by blast
    qed (use Cons.prems(1) t d1 to ok in \<open>cases w; auto simp: Seal_def Quarantine_def\<close>)
  qed
qed simp

theorem Recover_kept: "disk_ok d \<Longrightarrow> disk_ok (snd (Recover env d)) \<and> same_holdings d (snd (Recover env d))"
proof -
  assume ok: "disk_ok d"
  let ?rep = "\<lparr>rr_RecoveredFromUploading = 0, rr_SealedFromActive = 0, rr_QuarantinedFromActive = 0\<rparr>"
  show ?thesis
  proof (cases "listSegments (re_List env DirUploading) DirUploading d")
    case (Inl e)
    with ok show ?thesis by (simp add: Recover_def)
  next
    case (Inr ps)
    obtain rep1 e1 d1 where u: "recover_uploading env ps ?rep d = ((rep1, e1), d1)" by (metis prod.collapse)
    from recover_uploading_kept [OF u ok] have d1: "disk_ok d1" "same_holdings d d1" by auto
    show ?thesis
    proof (cases "e1 = None \<and> \<not> isl (listSegments (re_List env DirActive) DirActive d1)")
      case True
      then obtain qs where qs: "listSegments (re_List env DirActive) DirActive d1 = Inr qs"
        by (cases "listSegments (re_List env DirActive) DirActive d1") auto
      obtain r2 d2 where a: "recover_active env qs rep1 d1 = (r2, d2)" by fastforce
      from recover_active_kept [OF a d1(1)] d1(2) same_holdings_trans True u Inr qs a show ?thesis
        by (auto simp: Recover_def)
    next
      case False
      with u Inr d1 show ?thesis
        by (cases e1; cases "listSegments (re_List env DirActive) DirActive d1") (auto simp: Recover_def)
    qed
  qed
qed

definition whole_at :: "disk \<Rightarrow> seg_path \<Rightarrow> bool" where
  "whole_at d p \<longleftrightarrow> (case map_of d p of Some (SegmentFile w rs) \<Rightarrow> w | _ \<Rightarrow> False)"

lemma validate_whole: "validateZstdFrames flt p d = Inr w \<Longrightarrow> w = whole_at d p"
  by (auto simp: validateZstdFrames_def whole_at_def split: option.splits disk_file.splits)

lemma recover_uploading_ok:
  "recover_uploading env ps rep d = ((rep', None), d') \<Longrightarrow> one_place d \<Longrightarrow> \<forall>p \<in> set ps. fst p = DirUploading \<Longrightarrow>
   distinct ps \<Longrightarrow>
   rep' = rep\<lparr>rr_RecoveredFromUploading := rr_RecoveredFromUploading rep + length ps\<rparr> \<and>
   (\<forall>m a. is_segment m \<longrightarrow> map_of d' (a, m) =
      (if (DirUploading, m) \<in> set ps then (if a = DirSealed then map_of d (DirUploading, m) else None)
       else map_of d (a, m)))"
proof (induction ps arbitrary: rep d)
  case (Cons p ps)
  obtain n where p: "p = (DirUploading, n)" using Cons.prems(3) by (cases p) auto
  obtain q e d1 where t: "seg_transition (re_File env p) p DirUploading DirSealed d = ((q, e), d1)" by (metis prod.collapse)
  from Cons.prems(1) t have e: "e = None"
    and rest: "recover_uploading env ps (rep\<lparr>rr_RecoveredFromUploading := rr_RecoveredFromUploading rep + 1\<rparr>) d1 = ((rep', None), d')"
    by (auto split: option.splits)
  note st = transition_step [OF Cons.prems(2) t [unfolded p e], simplified]
  from transition_kept [OF Cons.prems(2) t] have "one_place d1" by simp
  from Cons.IH [OF rest this] Cons.prems(3,4)
  have ih: "rep' = rep\<lparr>rr_RecoveredFromUploading := rr_RecoveredFromUploading rep + length (p # ps)\<rparr>"
    "is_segment m \<Longrightarrow> map_of d' (a, m) =
      (if (DirUploading, m) \<in> set ps then (if a = DirSealed then map_of d1 (DirUploading, m) else None)
       else map_of d1 (a, m))" for m a
    by auto
  have "(DirUploading, n) \<notin> set ps" using Cons.prems(4) p by auto
  with ih st p show ?case by auto
qed simp

lemma recover_active_ok:
  "recover_active env ps rep d = ((rep', None), d') \<Longrightarrow> one_place d \<Longrightarrow> \<forall>p \<in> set ps. fst p = DirActive \<and> is_segment (snd p) \<Longrightarrow>
   distinct ps \<Longrightarrow>
   rep' = rep\<lparr>rr_SealedFromActive := rr_SealedFromActive rep + length (filter (whole_at d) ps),
              rr_QuarantinedFromActive := rr_QuarantinedFromActive rep + length (filter (\<lambda>p. \<not> whole_at d p) ps)\<rparr> \<and>
   (\<forall>m a. is_segment m \<longrightarrow> map_of d' (a, m) =
      (if (DirActive, m) \<in> set ps
       then (if a = (if whole_at d (DirActive, m) then DirSealed else DirQuarantine) then map_of d (DirActive, m) else None)
       else map_of d (a, m)))"
proof (induction ps arbitrary: rep d)
  case (Cons p ps)
  obtain n where p: "p = (DirActive, n)" and n: "is_segment n" using Cons.prems(3) by (cases p) auto
  from Cons.prems(1) obtain w where v: "validateZstdFrames (re_File env p) p d = Inr w"
    by (auto split: sum.splits)
  then have w: "w = whole_at d p" by (rule validate_whole)
  define to where "to = (if whole_at d p then DirSealed else DirQuarantine)"
  define rep1 where "rep1 = (if whole_at d p then rep\<lparr>rr_SealedFromActive := rr_SealedFromActive rep + 1\<rparr>
    else rep\<lparr>rr_QuarantinedFromActive := rr_QuarantinedFromActive rep + 1\<rparr>)"
  obtain q e d1 where t: "seg_transition (re_File env p) p DirActive to d = ((q, e), d1)" by (metis prod.collapse)
  from Cons.prems(1) t v w have e: "e = None" and rest: "recover_active env ps rep1 d1 = ((rep', None), d')"
    by (auto simp: to_def rep1_def Seal_def Quarantine_def split: option.splits if_splits)
  have "DirActive \<noteq> to" by (simp add: to_def)
  note st = transition_step [OF Cons.prems(2) t [unfolded p e] this]
  from transition_kept [OF Cons.prems(2) t] have "one_place d1" by simp
  note ih = Cons.IH [OF rest this]
  have ne: "n \<noteq> m" if "(DirActive, m) \<in> set ps" for m using Cons.prems(4) p that by auto
  have same: "map_of d1 (a, m) = map_of d (a, m)" if "(DirActive, m) \<in> set ps" for a m
    using st [of m a] ne [OF that] Cons.prems(3) that by auto
  have wh: "whole_at d1 x = whole_at d x" if "x \<in> set ps" for x
    using same [of "snd x" "fst x"] Cons.prems(3) that by (cases x) (auto simp: whole_at_def)
  then have "filter (whole_at d1) ps = filter (whole_at d) ps"
    "filter (\<lambda>x. \<not> whole_at d1 x) ps = filter (\<lambda>x. \<not> whole_at d x) ps" by (auto intro: filter_cong)
  with ih Cons.prems(3,4)
  have r: "rep' = rep1\<lparr>rr_SealedFromActive := rr_SealedFromActive rep1 + length (filter (whole_at d) ps),
              rr_QuarantinedFromActive := rr_QuarantinedFromActive rep1 + length (filter (\<lambda>p. \<not> whole_at d p) ps)\<rparr>"
    and m: "is_segment m \<Longrightarrow> map_of d' (a, m) =
      (if (DirActive, m) \<in> set ps
       then (if a = (if whole_at d1 (DirActive, m) then DirSealed else DirQuarantine) then map_of d1 (DirActive, m) else None)
       else map_of d1 (a, m))" for m a
    by auto
  have "map_of d' (a, m) =
      (if (DirActive, m) \<in> set (p # ps)
       then (if a = (if whole_at d (DirActive, m) then DirSealed else DirQuarantine) then map_of d (DirActive, m) else None)
       else map_of d (a, m))" if "is_segment m" for a m
  proof (cases "m = n")
    case True
    with m [OF that, of a] st [of m a] that ne p to_def show ?thesis by auto
  next
    case False
    with m [OF that, of a] st [of m a] that p same [of m DirActive] wh [of "(DirActive, m)"] show ?thesis by auto
  qed
  moreover from r have "rep' = rep\<lparr>rr_SealedFromActive := rr_SealedFromActive rep + length (filter (whole_at d) (p # ps)),
              rr_QuarantinedFromActive := rr_QuarantinedFromActive rep + length (filter (\<lambda>p. \<not> whole_at d p) (p # ps))\<rparr>"
    by (simp add: rep1_def)
  ultimately show ?case by blast
qed simp

text \<open>The segments of one state directory.\<close>

definition names_in :: "disk \<Rightarrow> spool_dir \<Rightarrow> string set" where
  "names_in d dir = {n. is_segment n \<and> map_of d (dir, n) \<noteq> None}"

lemma listed_names: "listSegments f dir d = Inr ps \<Longrightarrow> set ps = Pair dir ` names_in d dir"
  by (auto simp: listSegments_Inr(1) names_in_def)

lemma listed_card: "listSegments f dir d = Inr ps \<Longrightarrow> distinct (map fst d) \<Longrightarrow> length ps = card (names_in d dir)"
  using listed_names [of f dir d ps] distinct_card [OF listSegments_Inr(2), of f dir d ps]
  by (simp add: card_image inj_on_def)

lemma Recover_spec:
  assumes "disk_ok d" "Recover env d = ((rep, None), d')"
  shows "names_in d' DirUploading = {}" "names_in d' DirActive = {}"
    and "seg_at d (a, n) = Some (w, rs) \<Longrightarrow> seg_at d' (recovered a w, n) = Some (w, rs)"
    and "seg_at d' (b, n) = Some (w, rs) \<Longrightarrow> \<exists>a. seg_at d (a, n) = Some (w, rs) \<and> b = recovered a w"
    and "rr_RecoveredFromUploading rep = card (names_in d DirUploading)"
    and "rr_SealedFromActive rep + rr_QuarantinedFromActive rep = card (names_in d DirActive)"
proof -
  let ?rep = "\<lparr>rr_RecoveredFromUploading = 0, rr_SealedFromActive = 0, rr_QuarantinedFromActive = 0\<rparr>"
  from assms(1) have o: "one_place d" and dd: "distinct (map fst d)" by (auto simp: disk_ok_def)
  from assms(2) obtain ps rep1 d1 qs where ps: "listSegments (re_List env DirUploading) DirUploading d = Inr ps"
    and u: "recover_uploading env ps ?rep d = ((rep1, None), d1)"
    and qs: "listSegments (re_List env DirActive) DirActive d1 = Inr qs"
    and v: "recover_active env qs rep1 d1 = ((rep, None), d')"
    by (auto simp: Recover_def Let_def split: sum.splits prod.splits option.splits)
  from recover_uploading_kept [OF u assms(1)] have ok1: "disk_ok d1" by simp
  have s1: "(DirUploading, m) \<in> set ps \<longleftrightarrow> map_of d (DirUploading, m) \<noteq> None" if "is_segment m" for m
    using that by (simp add: listSegments_Inr(1) [OF ps])
  have s2: "(DirActive, m) \<in> set qs \<longleftrightarrow> map_of d1 (DirActive, m) \<noteq> None" if "is_segment m" for m
    using that by (simp add: listSegments_Inr(1) [OF qs])
  note uo = recover_uploading_ok [OF u o _ listSegments_Inr(2) [OF ps dd]]
  from uo have r1: "rep1 = ?rep\<lparr>rr_RecoveredFromUploading := length ps\<rparr>"
    and m1: "is_segment m \<Longrightarrow> map_of d1 (a, m) =
      (if map_of d (DirUploading, m) \<noteq> None then (if a = DirSealed then map_of d (DirUploading, m) else None)
       else map_of d (a, m))" for m a
    using s1 by (auto simp: listSegments_Inr(1) [OF ps])
  have "one_place d1" "distinct qs" using ok1 listSegments_Inr(2) [OF qs] by (auto simp: disk_ok_def)
  note ao = recover_active_ok [OF v this(1) _ this(2)]
  from ao have r2: "rr_RecoveredFromUploading rep = rr_RecoveredFromUploading rep1"
    "rr_SealedFromActive rep + rr_QuarantinedFromActive rep =
       rr_SealedFromActive rep1 + rr_QuarantinedFromActive rep1 + length qs"
    and m2: "is_segment m \<Longrightarrow> map_of d' (a, m) =
      (if map_of d1 (DirActive, m) \<noteq> None
       then (if a = (if whole_at d1 (DirActive, m) then DirSealed else DirQuarantine) then map_of d1 (DirActive, m) else None)
       else map_of d1 (a, m))" for m a
    using s2 sum_length_filter_compl [of "whole_at d1" qs] by (auto simp: listSegments_Inr(1) [OF qs])
  show "names_in d' DirUploading = {}" "names_in d' DirActive = {}"
    using m1 m2 by (auto simp: names_in_def split: if_splits)
  have na: "names_in d1 DirActive = names_in d DirActive"
  proof -
    have "map_of d (DirUploading, m) = None" if "is_segment m" "map_of d (DirActive, m) \<noteq> None" for m
      using one_placeD [OF o that(2,1), of DirUploading] by simp
    with m1 show ?thesis by (auto simp: names_in_def split: if_splits)
  qed
  show "rr_RecoveredFromUploading rep = card (names_in d DirUploading)"
    using r1 r2 listed_card [OF ps dd] by simp
  show "rr_SealedFromActive rep + rr_QuarantinedFromActive rep = card (names_in d DirActive)"
    using r1 r2 listed_card [OF qs] ok1 na by (simp add: disk_ok_def)
  have fwd: "seg_at d' (recovered a w, n) = Some (w, rs)" if "seg_at d (a, n) = Some (w, rs)" for a n w rs
  proof -
    from that have n: "is_segment n" and f: "map_of d (a, n) = Some (SegmentFile w rs)"
      by (auto simp: seg_at_def split: if_splits option.splits disk_file.splits)
    have "map_of d (b, n) = None" if "b \<noteq> a" for b using one_placeD [OF o _ n that] f by simp
    then have "map_of d' (recovered a w, n) = Some (SegmentFile w rs)"
      using m1 [OF n] m2 [OF n] f by (cases a) (auto simp: recovered_def whole_at_def)
    with n show ?thesis by (simp add: seg_at_def)
  qed
  then show "seg_at d (a, n) = Some (w, rs) \<Longrightarrow> seg_at d' (recovered a w, n) = Some (w, rs)" .
  assume b: "seg_at d' (b, n) = Some (w, rs)"
  then have "holds d' n (w, rs)" by (auto simp: holds_def)
  with Recover_kept [OF assms(1), of env] assms(2) have "holds d n (w, rs)" and o': "one_place d'"
    by (auto simp: same_holdings_def disk_ok_def)
  then obtain a where a: "seg_at d (a, n) = Some (w, rs)" by (auto simp: holds_def)
  from fwd [OF a] b o' have "b = recovered a w"
    unfolding one_place_def seg_at_def by (auto split: if_splits option.splits)
  with a show "\<exists>a. seg_at d (a, n) = Some (w, rs) \<and> b = recovered a w" by blast
qed

text \<open>
  After a recovery without an error nothing is left in \<^verbatim>\<open>uploading/\<close> and \<^verbatim>\<open>active/\<close>: what was being
  uploaded and the active files that decode to the end are sealed again, torn ones are in quarantine,
  every other segment is where it was, no content changed, and the report counts the moves.
\<close>

theorem recover_restores:
  assumes "disk_ok d" "Recover env d = ((rep, None), d')"
  shows "names_in d' DirUploading = {} \<and> names_in d' DirActive = {} \<and>
    (\<forall>a n c. seg_at d (a, n) = Some c \<longrightarrow> seg_at d' (recovered a (fst c), n) = Some c) \<and>
    (\<forall>b n c. seg_at d' (b, n) = Some c \<longrightarrow> (\<exists>a. seg_at d (a, n) = Some c \<and> b = recovered a (fst c))) \<and>
    rr_RecoveredFromUploading rep = card (names_in d DirUploading) \<and>
    rr_SealedFromActive rep + rr_QuarantinedFromActive rep = card (names_in d DirActive)"
  using Recover_spec [OF assms] by (simp add: split_paired_all)

definition sample_disk :: disk where
  "sample_disk =
     [((DirUploading, segmentFilename 1 1), SegmentFile True [sample_record]),
      (metaPath (DirUploading, segmentFilename 1 1), MetaFile None),
      ((DirActive, segmentFilename 2 1), SegmentFile True [sample_record]),
      ((DirActive, segmentFilename 3 1), SegmentFile False []),
      ((DirDeadletter, segmentFilename 0 1), SegmentFile True [sample_record])]"

definition quiet_recovery :: recover_env where
  "quiet_recovery = \<lparr>re_List = (\<lambda>_. None), re_File = (\<lambda>_. no_faults)\<rparr>"

lemma sample_names:
  "segmentFilename 0 1 = ''0-1.ndjson.zst''" "segmentFilename 1 1 = ''1-1.ndjson.zst''"
  "segmentFilename 2 1 = ''2-1.ndjson.zst''" "segmentFilename 3 1 = ''3-1.ndjson.zst''"
  by code_simp+

lemma sample_disk_ok: "disk_ok sample_disk"
  by (auto simp: disk_ok_def one_place_def sample_disk_def sample_names [simplified] metaPath_def metaExt_def split: if_splits)

theorem recover_restores_witness:
  "\<exists>rep d'. Recover quiet_recovery sample_disk = ((rep, None), d') \<and> names_in d' DirActive = {} \<and>
     rr_RecoveredFromUploading rep = 1 \<and> rr_SealedFromActive rep = 1 \<and> rr_QuarantinedFromActive rep = 1"
proof -
  have "snd (fst (Recover quiet_recovery sample_disk)) = None \<and>
    fst (fst (Recover quiet_recovery sample_disk)) =
      \<lparr>rr_RecoveredFromUploading = 1, rr_SealedFromActive = 1, rr_QuarantinedFromActive = 1\<rparr>"
    by code_simp
  then obtain d' where r: "Recover quiet_recovery sample_disk =
      ((\<lparr>rr_RecoveredFromUploading = 1, rr_SealedFromActive = 1, rr_QuarantinedFromActive = 1\<rparr>, None), d')"
    by (metis prod.collapse)
  from recover_restores [OF sample_disk_ok r] r show ?thesis by simp
qed

end
