(* ===== verification/Spool_Track.thy ===== *)
theory Spool_Track
  imports Spool_Disk
begin

text \<open>
  One connector destination of the spool: its options (\<^verbatim>\<open>options.go\<close>), its circuit breaker
  (\<^verbatim>\<open>breaker.go\<close>), the retry schedule (\<^verbatim>\<open>backoff.go\<close>) and the track with its ring, its active segment and
  its uploader (\<^verbatim>\<open>track.go\<close>). The track carries its part of the disk and, for the statements, the calls
  of \<^verbatim>\<open>Upload\<close> it has made. Clocks, the connector's answers, the end of contexts and the random draws
  are arguments. A product of a duration and the multiplier is an argument too, \<open>to_Scale\<close>.
\<close>

section \<open>Options\<close>

record rotation_opts =
  ro_MaxBytes :: int
  ro_MaxAge :: int

record retry_opts =
  rt_BaseBackoff :: int
  rt_MaxBackoff :: int
  rt_Multiplier :: f64
  rt_MaxAttempts :: int

record breaker_opts =
  bo_FailuresToOpen :: int
  bo_HalfOpenAfter :: int

definition second_ns :: int where
  "second_ns = 1000000000"

definition rotation_withDefaults :: "rotation_opts \<Rightarrow> rotation_opts" where
  "rotation_withDefaults r =
     \<lparr>ro_MaxBytes = (if ro_MaxBytes r \<le> 0 then 64 * 1024 * 1024 else ro_MaxBytes r),
      ro_MaxAge = (if ro_MaxAge r \<le> 0 then 60 * second_ns else ro_MaxAge r)\<rparr>"

definition retry_withDefaults :: "retry_opts \<Rightarrow> retry_opts" where
  "retry_withDefaults r =
     \<lparr>rt_BaseBackoff = (if rt_BaseBackoff r \<le> 0 then second_ns else rt_BaseBackoff r),
      rt_MaxBackoff = (if rt_MaxBackoff r \<le> 0 then 60 * second_ns else rt_MaxBackoff r),
      rt_Multiplier = (if f64_less (rt_Multiplier r) (Fin 1) \<or> f64_eq (rt_Multiplier r) (Fin 1) then Fin 2
                       else rt_Multiplier r),
      rt_MaxAttempts = (if rt_MaxAttempts r \<le> 0 then 8 else rt_MaxAttempts r)\<rparr>"

definition breaker_withDefaults :: "breaker_opts \<Rightarrow> breaker_opts" where
  "breaker_withDefaults b =
     \<lparr>bo_FailuresToOpen = (if bo_FailuresToOpen b \<le> 0 then 5 else bo_FailuresToOpen b),
      bo_HalfOpenAfter = (if bo_HalfOpenAfter b \<le> 0 then 30 * second_ns else bo_HalfOpenAfter b)\<rparr>"

section \<open>The breaker\<close>

datatype spool_breaker_state = BreakerClosed | BreakerHalfOpen | BreakerOpen

record spool_breaker =
  sb_State :: spool_breaker_state
  sb_FailuresToOpen :: int
  sb_HalfOpenAfter :: int
  sb_ConsecutiveFails :: int
  sb_OpenedAt :: int
  sb_ProbeInFlight :: bool

definition newBreaker :: "breaker_opts \<Rightarrow> spool_breaker" where
  "newBreaker opts =
     (let o' = breaker_withDefaults opts
      in \<lparr>sb_State = BreakerClosed, sb_FailuresToOpen = bo_FailuresToOpen o', sb_HalfOpenAfter = bo_HalfOpenAfter o',
          sb_ConsecutiveFails = 0, sb_OpenedAt = 0, sb_ProbeInFlight = False\<rparr>)"

definition spool_Allow :: "int \<Rightarrow> spool_breaker \<Rightarrow> bool \<times> spool_breaker" where
  "spool_Allow now b =
     (case sb_State b of
        BreakerClosed \<Rightarrow> (True, b)
      | BreakerHalfOpen \<Rightarrow> if sb_ProbeInFlight b then (False, b) else (True, b\<lparr>sb_ProbeInFlight := True\<rparr>)
      | BreakerOpen \<Rightarrow>
          if now - sb_OpenedAt b \<ge> sb_HalfOpenAfter b
          then (True, b\<lparr>sb_State := BreakerHalfOpen, sb_ProbeInFlight := True\<rparr>) else (False, b))"

definition spool_Release :: "spool_breaker \<Rightarrow> spool_breaker" where
  "spool_Release b = (if sb_State b = BreakerHalfOpen then b\<lparr>sb_ProbeInFlight := False\<rparr> else b)"

definition spool_RecordSuccess :: "spool_breaker \<Rightarrow> spool_breaker" where
  "spool_RecordSuccess b = b\<lparr>sb_State := BreakerClosed, sb_ConsecutiveFails := 0, sb_ProbeInFlight := False\<rparr>"

definition spool_RecordFailure :: "int \<Rightarrow> spool_breaker \<Rightarrow> spool_breaker" where
  "spool_RecordFailure now b =
     (let b1 = b\<lparr>sb_ProbeInFlight := False\<rparr>
      in case sb_State b of
           BreakerClosed \<Rightarrow>
             (let b2 = b1\<lparr>sb_ConsecutiveFails := sb_ConsecutiveFails b1 + 1\<rparr>
              in if sb_ConsecutiveFails b2 \<ge> sb_FailuresToOpen b2
                 then b2\<lparr>sb_State := BreakerOpen, sb_OpenedAt := now\<rparr> else b2)
         | BreakerHalfOpen \<Rightarrow> b1\<lparr>sb_State := BreakerOpen, sb_OpenedAt := now\<rparr>
         | BreakerOpen \<Rightarrow> b1)"

section \<open>Backoff\<close>

definition fullJitter :: "(int \<Rightarrow> int) \<Rightarrow> int \<Rightarrow> int" where
  "fullJitter draw current = (if current \<le> 0 then 0 else if current \<le> 1 then 0 else draw current)"

definition nextBackoff :: "(int \<Rightarrow> int) \<Rightarrow> int \<Rightarrow> int \<Rightarrow> int" where
  "nextBackoff scale current maxBackoff =
     (let nxt = scale current
      in if nxt > maxBackoff then maxBackoff else if nxt < current then maxBackoff else nxt)"

section \<open>The track\<close>

record track_opts =
  to_Root :: string
  to_Name :: string
  to_QueueSize :: nat
  to_Rotation :: rotation_opts
  to_Retry :: retry_opts
  to_Breaker :: breaker_opts
  to_Marshal :: "connector_record \<Rightarrow> string option"
  to_Size :: "disk_file \<Rightarrow> int"
  to_Scale :: "int \<Rightarrow> int"

text \<open>A call of \<^verbatim>\<open>Upload\<close>: its argument, the file at its path, and the answer.\<close>

record upload_call =
  uc_Segment :: sealed_segment
  uc_File :: "disk_file option"
  uc_Error :: "upload_error option"

record track =
  tk_Queue :: "connector_record list"
  tk_Seq :: nat
  tk_Segment :: "segment option"
  tk_Breaker :: spool_breaker
  tk_Kick :: bool
  tk_Enqueued :: nat
  tk_DroppedRing :: nat
  tk_Written :: nat
  tk_WriteErrors :: nat
  tk_SegmentsSealed :: nat
  tk_UploadsOK :: nat
  tk_UploadsRetried :: nat
  tk_UploadsDLQ :: nat
  tk_Disk :: disk
  tk_Calls :: "upload_call list"

definition newTrack :: "track_opts \<Rightarrow> disk \<Rightarrow> track" where
  "newTrack opts d =
     \<lparr>tk_Queue = [], tk_Seq = 0, tk_Segment = None, tk_Breaker = newBreaker (to_Breaker opts), tk_Kick = False,
      tk_Enqueued = 0, tk_DroppedRing = 0, tk_Written = 0, tk_WriteErrors = 0, tk_SegmentsSealed = 0,
      tk_UploadsOK = 0, tk_UploadsRetried = 0, tk_UploadsDLQ = 0, tk_Disk = d, tk_Calls = []\<rparr>"

definition enqueue :: "track_opts \<Rightarrow> connector_record \<Rightarrow> track \<Rightarrow> track" where
  "enqueue opts rec t =
     (if length (tk_Queue t) < to_QueueSize opts
      then t\<lparr>tk_Queue := tk_Queue t @ [rec], tk_Enqueued := tk_Enqueued t + 1\<rparr>
      else t\<lparr>tk_DroppedRing := tk_DroppedRing t + 1\<rparr>)"

definition writeRecord ::
  "track_opts \<Rightarrow> io_faults \<Rightarrow> int \<Rightarrow> connector_record \<Rightarrow> track \<Rightarrow> spool_error option \<times> track" where
  "writeRecord opts flt now rec t =
     (case tk_Segment t of
        Some s \<Rightarrow> (case Segment_Write (to_Marshal opts) flt s rec of
            (e, s') \<Rightarrow> (e, t\<lparr>tk_Segment := Some s'\<rparr>))
      | None \<Rightarrow>
          (let t1 = t\<lparr>tk_Seq := tk_Seq t + 1\<rparr>
           in case OpenSegment flt DirActive (tk_Seq t1) now (tk_Disk t1) of
                (Inl e, d) \<Rightarrow> (Some e, t1\<lparr>tk_Disk := d\<rparr>)
              | (Inr s, d) \<Rightarrow> (case Segment_Write (to_Marshal opts) flt s rec of
                    (e, s') \<Rightarrow> (e, t1\<lparr>tk_Disk := d, tk_Segment := Some s'\<rparr>))))"

definition handleRecord :: "track_opts \<Rightarrow> io_faults \<Rightarrow> int \<Rightarrow> connector_record \<Rightarrow> track \<Rightarrow> track" where
  "handleRecord opts flt now rec t =
     (case writeRecord opts flt now rec t of
        (Some e, t') \<Rightarrow> t'\<lparr>tk_WriteErrors := tk_WriteErrors t' + 1\<rparr>
      | (None, t') \<Rightarrow> t'\<lparr>tk_Written := tk_Written t' + 1\<rparr>)"

definition shouldRotateNow :: "track_opts \<Rightarrow> int \<Rightarrow> track \<Rightarrow> bool" where
  "shouldRotateNow opts now t =
     (case tk_Segment t of None \<Rightarrow> False
      | Some s \<Rightarrow> ShouldRotate s (ro_MaxBytes (to_Rotation opts)) (ro_MaxAge (to_Rotation opts)) now)"

definition sealCurrent :: "io_faults \<Rightarrow> track \<Rightarrow> spool_error option \<times> track" where
  "sealCurrent flt t =
     (case tk_Segment t of
        None \<Rightarrow> (None, t)
      | Some s \<Rightarrow>
          (let t1 = t\<lparr>tk_Segment := None\<rparr>; stats = segment_stats s
           in case Segment_Close flt s (tk_Disk t) of
                (Some e, _, d1) \<Rightarrow> (Some e, t1\<lparr>tk_Disk := d1\<rparr>)
              | (None, s', d1) \<Rightarrow>
                  if sm_Records stats = 0 then (None, t1\<lparr>tk_Disk := snd (os_remove (io_Remove flt) (sg_Path s') d1)\<rparr>)
                  else (let d2 = snd (writeSegmentMeta flt (sg_Path s') stats d1)
                        in case Seal flt (sg_Path s') d2 of
                             ((_, Some e), d3) \<Rightarrow> (Some e, t1\<lparr>tk_Disk := d3\<rparr>)
                           | ((_, None), d3) \<Rightarrow>
                               (None, t1\<lparr>tk_Disk := d3, tk_SegmentsSealed := tk_SegmentsSealed t1 + 1,
                                        tk_Kick := True\<rparr>))))"

text \<open>One record taken off the ring by the drain goroutine, and the ring emptied at a stop.\<close>

definition drain_one :: "track_opts \<Rightarrow> io_faults \<Rightarrow> int \<Rightarrow> track \<Rightarrow> track" where
  "drain_one opts flt now t =
     (case tk_Queue t of [] \<Rightarrow> t
      | rec # rest \<Rightarrow>
          (let t1 = handleRecord opts flt now rec (t\<lparr>tk_Queue := rest\<rparr>)
           in if shouldRotateNow opts now t1 then snd (sealCurrent flt t1) else t1))"

fun drainQueue :: "track_opts \<Rightarrow> (nat \<Rightarrow> io_faults) \<Rightarrow> int \<Rightarrow> connector_record list \<Rightarrow> track \<Rightarrow> track" where
  "drainQueue opts flts now [] t = t\<lparr>tk_Queue := []\<rparr>"
| "drainQueue opts flts now (rec # rest) t =
     drainQueue opts flts now rest (handleRecord opts (flts (length rest)) now rec (t\<lparr>tk_Queue := rest\<rparr>))"

section \<open>Uploading\<close>

definition deliveryIDFromFilename :: "string \<Rightarrow> string" where
  "deliveryIDFromFilename name =
     (if length name > length segmentExt \<and> drop (length name - length segmentExt) name = segmentExt
      then take (length name - length segmentExt) name else name)"

text \<open>How the wait between two attempts ends.\<close>

datatype wait_end = WaitElapsed | WaitContext | WaitStop

text \<open>
  What \<^verbatim>\<open>uploadOne\<close> returns: \<open>nil\<close>, \<open>errClaimRaceLost\<close>, \<open>errDeadlettered\<close>, \<open>errShutdown\<close>, the error of
  the context, or a local failure.
\<close>

datatype upload_end = Delivered | ClaimRaceLost | Deadlettered upload_error | Interrupted | ContextEnded
  | LocalFailure spool_error

record upload_env =
  ue_Claim :: io_faults
  ue_Stat :: "os_errno option"
  ue_Answer :: "nat \<Rightarrow> upload_error option"
  ue_CtxErr :: "nat \<Rightarrow> bool"
  ue_Clock :: "nat \<Rightarrow> int"
  ue_Wait :: "nat \<Rightarrow> wait_end"
  ue_Draw :: "nat \<Rightarrow> int \<Rightarrow> int"
  ue_End :: io_faults

definition describeSealed :: "track_opts \<Rightarrow> io_faults \<Rightarrow> os_errno option \<Rightarrow> seg_path \<Rightarrow> disk \<Rightarrow> sealed_segment" where
  "describeSealed opts flt statFault p d =
     (let seg = \<lparr>sl_Path = to_Root opts @ ''/'' @ state_name (fst p) @ ''/'' @ snd p,
            sl_Bytes = (if os_lstat statFault p d = None then to_Size opts (the (map_of d p)) else 0),
            sl_BytesUncompressed = 0, sl_Records = 0, sl_TsMinNs = 0, sl_TsMaxNs = 0,
            sl_DeliveryID = deliveryIDFromFilename (snd p), sl_Connector = to_Name opts\<rparr>
      in case readSegmentMeta flt p d of
           Inl e \<Rightarrow> seg
         | Inr None \<Rightarrow> seg
         | Inr (Some m) \<Rightarrow> seg\<lparr>sl_Records := sm_Records m, sl_BytesUncompressed := sm_BytesUncompressed m,
             sl_TsMinNs := sm_TsMinNs m, sl_TsMaxNs := sm_TsMaxNs m\<rparr>)"

definition on_breaker :: "(spool_breaker \<Rightarrow> spool_breaker) \<Rightarrow> track \<Rightarrow> track" where
  "on_breaker f t = t\<lparr>tk_Breaker := f (tk_Breaker t)\<rparr>"

definition deadletter :: "io_faults \<Rightarrow> seg_path \<Rightarrow> upload_error \<Rightarrow> track \<Rightarrow> upload_end \<times> track" where
  "deadletter flt uploading cause t =
     (Deadlettered cause,
      t\<lparr>tk_Disk := snd (Deadletter flt uploading (tk_Disk t)), tk_UploadsDLQ := tk_UploadsDLQ t + 1\<rparr>)"

text \<open>The retry loop. Its result carries the sleeps it took between attempts.\<close>

function upload_loop ::
  "track_opts \<Rightarrow> upload_env \<Rightarrow> seg_path \<Rightarrow> sealed_segment \<Rightarrow> nat \<Rightarrow> int \<Rightarrow> int list \<Rightarrow> track \<Rightarrow> upload_end \<times> int list \<times> track"
  where
  "upload_loop opts env p seg attempt backoff sleeps t =
     (if \<not> int attempt \<le> rt_MaxAttempts (to_Retry opts) then (Interrupted, sleeps, t)
      else
        let answer = ue_Answer env attempt;
            t1 = t\<lparr>tk_Calls := tk_Calls t @ [\<lparr>uc_Segment = seg, uc_File = map_of (tk_Disk t) p, uc_Error = answer\<rparr>]\<rparr>
        in case answer of
             None \<Rightarrow>
               (let t2 = on_breaker spool_RecordSuccess t1
                in (Delivered, sleeps, t2\<lparr>tk_Disk := snd (Complete (ue_End env) p (tk_Disk t2)),
                                         tk_UploadsOK := tk_UploadsOK t2 + 1\<rparr>))
           | Some err \<Rightarrow>
               if ue_CtxErr env attempt then (ContextEnded, sleeps, on_breaker spool_Release t1)
               else
                 let t2 = on_breaker (spool_RecordFailure (ue_Clock env attempt)) t1
                 in if IsPermanent (Some err)
                    then (case deadletter (ue_End env) p err t2 of (r, t3) \<Rightarrow> (r, sleeps, t3))
                    else
                      let t3 = t2\<lparr>tk_UploadsRetried := tk_UploadsRetried t2 + 1\<rparr>
                      in if int attempt \<ge> rt_MaxAttempts (to_Retry opts)
                         then (case deadletter (ue_End env) p err t3 of (r, t4) \<Rightarrow> (r, sleeps, t4))
                         else let sleep = fullJitter (ue_Draw env attempt) backoff
                              in (case ue_Wait env attempt of
                                    WaitContext \<Rightarrow> (ContextEnded, sleeps, t3)
                                  | WaitStop \<Rightarrow> (Interrupted, sleeps, t3)
                                  | WaitElapsed \<Rightarrow>
                                      upload_loop opts env p seg (attempt + 1)
                                        (nextBackoff (to_Scale opts) backoff (rt_MaxBackoff (to_Retry opts)))
                                        (sleeps @ [sleep]) t3))"
  by pat_completeness auto

termination
  by (relation "measure (\<lambda>(opts, env, p, seg, attempt, backoff, sleeps, t).
        nat (rt_MaxAttempts (to_Retry opts) + 1 - int attempt))") auto

declare upload_loop.simps [simp del]

definition uploadOne :: "track_opts \<Rightarrow> upload_env \<Rightarrow> seg_path \<Rightarrow> track \<Rightarrow> upload_end \<times> int list \<times> track" where
  "uploadOne opts env p t =
     (case Claim (ue_Claim env) p (tk_Disk t) of
        ((_, Some e), d) \<Rightarrow>
          (if is_not_exist e then ClaimRaceLost else LocalFailure e, [], t\<lparr>tk_Disk := d\<rparr>)
      | ((q, None), d) \<Rightarrow>
          (let uploading = (case q of Some q' \<Rightarrow> q' | None \<Rightarrow> p);
               t1 = t\<lparr>tk_Disk := d\<rparr>
           in upload_loop opts env uploading (describeSealed opts (ue_Claim env) (ue_Stat env) uploading d) 1
                (rt_BaseBackoff (to_Retry opts)) [] t1))"

text \<open>
  One scan of the sealed segments. A context that has ended stays ended, so \<^verbatim>\<open>ctx.Err()\<close> is asked again
  only after a local failure.
\<close>

datatype scan_select = SelectContext | SelectStop | SelectDefault

record scan_env =
  sv_Allow :: "nat \<Rightarrow> int"
  sv_List :: "os_errno option"
  sv_Select :: "nat \<Rightarrow> scan_select"
  sv_Upload :: "nat \<Rightarrow> upload_env"
  sv_CtxErr :: "nat \<Rightarrow> bool"
  sv_Clock :: "nat \<Rightarrow> int"

fun scan_loop :: "track_opts \<Rightarrow> scan_env \<Rightarrow> nat \<Rightarrow> seg_path list \<Rightarrow> track \<Rightarrow> track" where
  "scan_loop opts env i [] t = t"
| "scan_loop opts env i (p # ps) t =
     (case (if i > 0 then spool_Allow (sv_Allow env i) (tk_Breaker t) else (True, tk_Breaker t)) of
        (False, b) \<Rightarrow> t\<lparr>tk_Breaker := b\<rparr>
      | (True, b) \<Rightarrow>
          (let t1 = t\<lparr>tk_Breaker := b\<rparr>
           in case sv_Select env i of
                SelectContext \<Rightarrow> on_breaker spool_Release t1
              | SelectStop \<Rightarrow> on_breaker spool_Release t1
              | SelectDefault \<Rightarrow>
                  (case uploadOne opts (sv_Upload env i) p t1 of
                     (Delivered, _, t2) \<Rightarrow> scan_loop opts env (i + 1) ps t2
                   | (Deadlettered e, _, t2) \<Rightarrow> scan_loop opts env (i + 1) ps t2
                   | (ClaimRaceLost, _, t2) \<Rightarrow> scan_loop opts env (i + 1) ps (on_breaker spool_Release t2)
                   | (Interrupted, _, t2) \<Rightarrow> t2
                   | (ContextEnded, _, t2) \<Rightarrow> t2
                   | (LocalFailure e, _, t2) \<Rightarrow>
                       if sv_CtxErr env i then t2 else on_breaker (spool_RecordFailure (sv_Clock env i)) t2)))"

definition attemptUploads :: "track_opts \<Rightarrow> scan_env \<Rightarrow> track \<Rightarrow> track" where
  "attemptUploads opts env t =
     (case spool_Allow (sv_Allow env 0) (tk_Breaker t) of
        (False, b) \<Rightarrow> t\<lparr>tk_Breaker := b\<rparr>
      | (True, b) \<Rightarrow>
          (let t1 = t\<lparr>tk_Breaker := b\<rparr>
           in case listSegments (sv_List env) DirSealed (tk_Disk t1) of
                Inl e \<Rightarrow> on_breaker spool_Release t1
              | Inr [] \<Rightarrow> on_breaker spool_Release t1
              | Inr sealed \<Rightarrow> scan_loop opts env 0 sealed t1))"

record track_stats =
  st_Enqueued :: nat
  st_DroppedRing :: nat
  st_Written :: nat
  st_WriteErrors :: nat
  st_SegmentsSealed :: nat
  st_UploadsOK :: nat
  st_UploadsRetried :: nat
  st_UploadsDLQ :: nat
  st_BreakerState :: spool_breaker_state
  st_PendingSegments :: nat

definition track_Stats :: "os_errno option \<Rightarrow> track \<Rightarrow> track_stats" where
  "track_Stats fault t =
     \<lparr>st_Enqueued = tk_Enqueued t, st_DroppedRing = tk_DroppedRing t, st_Written = tk_Written t,
      st_WriteErrors = tk_WriteErrors t, st_SegmentsSealed = tk_SegmentsSealed t, st_UploadsOK = tk_UploadsOK t,
      st_UploadsRetried = tk_UploadsRetried t, st_UploadsDLQ = tk_UploadsDLQ t,
      st_BreakerState = sb_State (tk_Breaker t),
      st_PendingSegments = (case listSegments fault DirSealed (tk_Disk t) of Inl e \<Rightarrow> 0 | Inr l \<Rightarrow> length l)\<rparr>"

section \<open>The retry loop\<close>

text \<open>What the uploader leaves alone.\<close>

definition same_drain :: "track \<Rightarrow> track \<Rightarrow> bool" where
  "same_drain t t' \<longleftrightarrow> tk_Queue t' = tk_Queue t \<and> tk_Seq t' = tk_Seq t \<and> tk_Segment t' = tk_Segment t \<and>
     tk_Enqueued t' = tk_Enqueued t \<and> tk_DroppedRing t' = tk_DroppedRing t \<and> tk_Written t' = tk_Written t \<and>
     tk_WriteErrors t' = tk_WriteErrors t \<and> tk_SegmentsSealed t' = tk_SegmentsSealed t"

lemma same_drain_refl [simp]: "same_drain t t"
  by (simp add: same_drain_def)

lemma same_drain_trans: "same_drain a b \<Longrightarrow> same_drain b c \<Longrightarrow> same_drain a c"
  by (simp add: same_drain_def)

definition breaker_sound :: "spool_breaker \<Rightarrow> bool" where
  "breaker_sound b \<longleftrightarrow> (sb_ProbeInFlight b \<longrightarrow> sb_State b = BreakerHalfOpen)"

lemma breaker_sound_simps [simp]:
  "breaker_sound (newBreaker opts)"
  "breaker_sound (spool_RecordSuccess b)"
  "breaker_sound (spool_RecordFailure now b)"
  "breaker_sound b \<Longrightarrow> breaker_sound (spool_Release b)"
  "breaker_sound b \<Longrightarrow> breaker_sound (snd (spool_Allow now b))"
  "\<not> sb_ProbeInFlight (spool_RecordSuccess b)"
  "\<not> sb_ProbeInFlight (spool_RecordFailure now b)"
  "breaker_sound b \<Longrightarrow> \<not> sb_ProbeInFlight (spool_Release b)"
  by (auto simp: breaker_sound_def newBreaker_def spool_RecordSuccess_def spool_RecordFailure_def spool_Release_def
        spool_Allow_def Let_def split: spool_breaker_state.splits if_splits)

text \<open>
  The end of a loop that starts at attempt \<open>a\<close>: the attempt \<open>k\<close> it stops at, the calls it makes, why it
  stops, and what it does with the segment.
\<close>

definition retried :: "upload_env \<Rightarrow> nat \<Rightarrow> bool" where
  "retried env j \<longleftrightarrow> (\<exists>e. ue_Answer env j = Some e \<and> \<not> IsPermanent (Some e) \<and> ue_Wait env j = WaitElapsed)
     \<and> \<not> ue_CtxErr env j"

definition loop_stop :: "track_opts \<Rightarrow> upload_env \<Rightarrow> seg_path \<Rightarrow> nat \<Rightarrow> upload_end \<Rightarrow> disk \<Rightarrow> disk \<Rightarrow> bool" where
  "loop_stop opts env p k r d d' \<longleftrightarrow>
     (case r of
        Delivered \<Rightarrow> ue_Answer env k = None \<and> d' = snd (Complete (ue_End env) p d)
      | Deadlettered e \<Rightarrow> ue_Answer env k = Some e \<and> \<not> ue_CtxErr env k \<and>
          (IsPermanent (Some e) \<or> int k = rt_MaxAttempts (to_Retry opts)) \<and> d' = snd (Deadletter (ue_End env) p d)
      | ContextEnded \<Rightarrow> ue_Answer env k \<noteq> None \<and> (ue_CtxErr env k \<or> ue_Wait env k = WaitContext) \<and> d' = d
      | Interrupted \<Rightarrow> ue_Answer env k \<noteq> None \<and> ue_Wait env k = WaitStop \<and> d' = d
      | _ \<Rightarrow> False)"

definition loop_calls :: "upload_env \<Rightarrow> seg_path \<Rightarrow> sealed_segment \<Rightarrow> disk \<Rightarrow> nat \<Rightarrow> nat \<Rightarrow> upload_call list" where
  "loop_calls env p seg d a k =
     map (\<lambda>j. \<lparr>uc_Segment = seg, uc_File = map_of d p, uc_Error = ue_Answer env j\<rparr>) [a..<Suc k]"

definition loop_post ::
  "track_opts \<Rightarrow> upload_env \<Rightarrow> seg_path \<Rightarrow> sealed_segment \<Rightarrow> nat \<Rightarrow> int list \<Rightarrow> track \<Rightarrow> upload_end \<times> int list \<times> track \<Rightarrow> bool"
  where
  "loop_post opts env p seg a sleeps t res \<longleftrightarrow>
     (case res of (r, sleeps', t') \<Rightarrow>
        \<exists>k. a \<le> k \<and> int k \<le> rt_MaxAttempts (to_Retry opts) \<and> length sleeps' = length sleeps + (k - a) \<and>
          tk_Calls t' = tk_Calls t @ loop_calls env p seg (tk_Disk t) a k \<and> (\<forall>j \<in> {a..<k}. retried env j) \<and>
          loop_stop opts env p k r (tk_Disk t) (tk_Disk t') \<and>
          \<not> sb_ProbeInFlight (tk_Breaker t') \<and> same_drain t t' \<and> tk_Kick t' = tk_Kick t \<and>
          tk_UploadsOK t' = tk_UploadsOK t + (if r = Delivered then 1 else 0))"

lemma loop_calls_first: "a \<le> k \<Longrightarrow>
  loop_calls env p seg d a k = \<lparr>uc_Segment = seg, uc_File = map_of d p, uc_Error = ue_Answer env a\<rparr> #
    (if a = k then [] else loop_calls env p seg d (Suc a) k)"
  by (auto simp: loop_calls_def upt_rec [of a])

lemma loop_post_step:
  assumes post: "loop_post opts env p seg (a + 1) (sleeps @ [s]) t1 res"
    and t1: "tk_Calls t1 = tk_Calls t @ [\<lparr>uc_Segment = seg, uc_File = map_of (tk_Disk t) p, uc_Error = ue_Answer env a\<rparr>]"
      "tk_Disk t1 = tk_Disk t" "same_drain t t1" "tk_Kick t1 = tk_Kick t" "tk_UploadsOK t1 = tk_UploadsOK t"
    and a: "retried env a"
  shows "loop_post opts env p seg a sleeps t res"
proof -
  obtain r ss t' where res: "res = (r, ss, t')" by (metis prod.collapse)
  from post res obtain k where k: "a + 1 \<le> k" "int k \<le> rt_MaxAttempts (to_Retry opts)"
    "length ss = length (sleeps @ [s]) + (k - (a + 1))"
    "tk_Calls t' = tk_Calls t1 @ loop_calls env p seg (tk_Disk t1) (a + 1) k" "\<forall>j \<in> {a + 1..<k}. retried env j"
    "loop_stop opts env p k r (tk_Disk t1) (tk_Disk t')" "\<not> sb_ProbeInFlight (tk_Breaker t')" "same_drain t1 t'"
    "tk_Kick t' = tk_Kick t1" "tk_UploadsOK t' = tk_UploadsOK t1 + (if r = Delivered then 1 else 0)"
    unfolding loop_post_def by auto
  have "retried env j" if "j \<in> {a..<k}" for j
    using k(5) a that by (cases "j = a") auto
  moreover have "same_drain t t'" using t1(3) k(8) by (rule same_drain_trans)
  ultimately show ?thesis
    unfolding res loop_post_def using k t1 by (auto simp: loop_calls_first [of a k] intro!: exI [of _ k])
qed

lemma upload_loop_post:
  "int attempt \<le> rt_MaxAttempts (to_Retry opts) \<Longrightarrow> breaker_sound (tk_Breaker t) \<Longrightarrow>
   loop_post opts env p seg attempt sleeps t (upload_loop opts env p seg attempt backoff sleeps t)"
proof (induction "nat (rt_MaxAttempts (to_Retry opts) - int attempt)" arbitrary: attempt backoff sleeps t rule: less_induct)
  case less
  let ?t1 = "t\<lparr>tk_Calls := tk_Calls t @ [\<lparr>uc_Segment = seg, uc_File = map_of (tk_Disk t) p, uc_Error = ue_Answer env attempt\<rparr>]\<rparr>"
  let ?t2 = "on_breaker (spool_RecordFailure (ue_Clock env attempt)) ?t1"
  let ?t3 = "?t2\<lparr>tk_UploadsRetried := tk_UploadsRetried ?t2 + 1\<rparr>"
  note unf = upload_loop.simps [of opts env p seg attempt backoff sleeps t]
  have here: "loop_post opts env p seg attempt sleeps t (r, sleeps, t')"
    if "tk_Calls t' = tk_Calls ?t1" "loop_stop opts env p attempt r (tk_Disk t) (tk_Disk t')"
      "\<not> sb_ProbeInFlight (tk_Breaker t')" "same_drain t t'" "tk_Kick t' = tk_Kick t"
      "tk_UploadsOK t' = tk_UploadsOK t + (if r = Delivered then 1 else 0)" for r t'
    using that less.prems(1) unfolding loop_post_def by (auto simp: loop_calls_def intro!: exI [of _ attempt])
  show ?case
  proof (cases "ue_Answer env attempt")
    case None
    with less.prems(1) show ?thesis
      unfolding unf by (auto simp: Let_def loop_stop_def on_breaker_def same_drain_def intro!: here)
  next
    case (Some e)
    consider (ctx) "ue_CtxErr env attempt" | (perm) "\<not> ue_CtxErr env attempt" "IsPermanent (Some e)"
      | (last) "\<not> ue_CtxErr env attempt" "\<not> IsPermanent (Some e)" "int attempt \<ge> rt_MaxAttempts (to_Retry opts)"
      | (wctx) "\<not> ue_CtxErr env attempt" "\<not> IsPermanent (Some e)" "\<not> int attempt \<ge> rt_MaxAttempts (to_Retry opts)"
          "ue_Wait env attempt = WaitContext"
      | (wstop) "\<not> ue_CtxErr env attempt" "\<not> IsPermanent (Some e)" "\<not> int attempt \<ge> rt_MaxAttempts (to_Retry opts)"
          "ue_Wait env attempt = WaitStop"
      | (again) "\<not> ue_CtxErr env attempt" "\<not> IsPermanent (Some e)" "\<not> int attempt \<ge> rt_MaxAttempts (to_Retry opts)"
          "ue_Wait env attempt = WaitElapsed"
      by (cases "ue_Wait env attempt") blast+
    then show ?thesis
    proof cases
      case ctx
      with Some less.prems show ?thesis
        unfolding unf by (auto simp: Let_def loop_stop_def on_breaker_def same_drain_def intro!: here)
    next
      case perm
      with Some less.prems(1) show ?thesis
        unfolding unf by (auto simp: Let_def deadletter_def loop_stop_def on_breaker_def same_drain_def intro!: here)
    next
      case last
      with Some less.prems(1) show ?thesis
        unfolding unf by (auto simp: Let_def deadletter_def loop_stop_def on_breaker_def same_drain_def intro!: here)
    next
      case wctx
      with Some less.prems(1) show ?thesis
        unfolding unf by (auto simp: Let_def loop_stop_def on_breaker_def same_drain_def intro!: here)
    next
      case wstop
      with Some less.prems(1) show ?thesis
        unfolding unf by (auto simp: Let_def loop_stop_def on_breaker_def same_drain_def intro!: here)
    next
      case again
      then have "loop_post opts env p seg (attempt + 1) (sleeps @ [fullJitter (ue_Draw env attempt) backoff]) ?t3
          (upload_loop opts env p seg (attempt + 1) (nextBackoff (to_Scale opts) backoff (rt_MaxBackoff (to_Retry opts)))
            (sleeps @ [fullJitter (ue_Draw env attempt) backoff]) ?t3)"
        by (intro less.hyps) (auto simp: on_breaker_def)
      then have "loop_post opts env p seg attempt sleeps t
          (upload_loop opts env p seg (attempt + 1) (nextBackoff (to_Scale opts) backoff (rt_MaxBackoff (to_Retry opts)))
            (sleeps @ [fullJitter (ue_Draw env attempt) backoff]) ?t3)"
        by (rule loop_post_step) (use again Some in \<open>auto simp: on_breaker_def same_drain_def retried_def\<close>)
      with again Some less.prems(1) show ?thesis unfolding unf by (simp add: Let_def)
    qed
  qed
qed

section \<open>What uploads do to the segments\<close>

definition delivered :: "upload_call list \<Rightarrow> string \<Rightarrow> bool \<times> connector_record list \<Rightarrow> bool" where
  "delivered calls n c \<longleftrightarrow>
     (\<exists>u \<in> set calls. uc_Error u = None \<and> uc_File u = Some (SegmentFile (fst c) (snd c)) \<and>
        sl_DeliveryID (uc_Segment u) = deliveryIDFromFilename n)"

text \<open>
  From \<open>d\<close> to \<open>d'\<close> no segment was lost unless the calls delivered it, none was made up, and the active
  directory was left alone.
\<close>

definition segments_kept :: "disk \<Rightarrow> disk \<Rightarrow> upload_call list \<Rightarrow> bool" where
  "segments_kept d d' calls \<longleftrightarrow>
     disk_ok d' \<and> (\<forall>n c. holds d n c \<longrightarrow> holds d' n c \<or> delivered calls n c) \<and>
     (\<forall>b n f. is_segment n \<longrightarrow> map_of d' (b, n) = Some f \<longrightarrow> (\<exists>a. map_of d (a, n) = Some f)) \<and>
     (\<forall>n. is_segment n \<longrightarrow> map_of d' (DirActive, n) = map_of d (DirActive, n))"

definition calls_extend :: "track \<Rightarrow> track \<Rightarrow> bool" where
  "calls_extend t t' \<longleftrightarrow> set (tk_Calls t) \<subseteq> set (tk_Calls t')"

lemma segments_kept_refl: "disk_ok d \<Longrightarrow> segments_kept d d calls"
  by (auto simp: segments_kept_def)

lemma delivered_mono: "delivered calls n c \<Longrightarrow> set calls \<subseteq> set calls' \<Longrightarrow> delivered calls' n c"
  by (auto simp: delivered_def)

lemma segments_kept_trans:
  assumes "segments_kept d1 d2 calls" "segments_kept d2 d3 calls'" "set calls \<subseteq> set calls'"
  shows "segments_kept d1 d3 calls'"
proof -
  have "holds d3 n c \<or> delivered calls' n c" if "holds d1 n c" for n c
    using assms that delivered_mono unfolding segments_kept_def by blast
  moreover have "\<exists>a. map_of d1 (a, n) = Some f" if "is_segment n" "map_of d3 (b, n) = Some f" for b n f
    using assms that unfolding segments_kept_def by blast
  ultimately show ?thesis using assms by (simp add: segments_kept_def)
qed

lemma segments_kept_mono: "segments_kept d d' calls \<Longrightarrow> set calls \<subseteq> set calls' \<Longrightarrow> segments_kept d d' calls'"
  using delivered_mono unfolding segments_kept_def by blast

lemma transition_segments_kept:
  assumes ok: "disk_ok d" and t: "seg_transition flt src from to d = (r, d')" and dirs: "from \<noteq> DirActive" "to \<noteq> DirActive"
  shows "segments_kept d d' calls"
proof -
  obtain q e where r: "r = (q, e)" by fastforce
  obtain a n where src: "src = (a, n)" by fastforce
  from transition_disk_ok [OF ok t] have ok': "disk_ok d'" and same: "same_holdings d d'" by auto
  from transition_map [OF t [unfolded r]] src consider "d' = d" | "a = from" "moved d (from, n) (to, n) d'" by fastforce
  then have "(\<forall>b m f. is_segment m \<longrightarrow> map_of d' (b, m) = Some f \<longrightarrow> (\<exists>a. map_of d (a, m) = Some f)) \<and>
     (\<forall>m. is_segment m \<longrightarrow> map_of d' (DirActive, m) = map_of d (DirActive, m))"
  proof cases
    case 2
    then have v: "map_of d' (x, m) = ((map_of d)((from, n) := None, (to, n) := map_of d (from, n))) (x, m)"
      if "is_segment m" for x m using that by (simp add: moved_def)
    show ?thesis
    proof (intro conjI allI impI)
      fix b m f assume m: "is_segment m" "map_of d' (b, m) = Some f"
      with v [OF m(1), of b] show "\<exists>a. map_of d (a, m) = Some f" by (auto split: if_splits)
    qed (use v dirs in auto)
  qed auto
  with ok' same show ?thesis by (auto simp: segments_kept_def same_holdings_def)
qed

lemma Complete_segments:
  assumes ok: "disk_ok d" and c: "Complete flt (DirUploading, n) d = (e, d')"
  shows "disk_ok d'" "is_segment (snd p) \<Longrightarrow> map_of d' p = map_of d p \<or> p = (DirUploading, n) \<and> map_of d' p = None"
proof -
  obtain e1 d1 where rm: "os_remove (io_Remove flt) (DirUploading, n) d = (e1, d1)" by fastforce
  obtain e2 d2 where mr: "removeSegmentMeta flt (DirUploading, n) d1 = (e2, d2)" by fastforce
  have d1: "map_of d1 p = map_of d p \<or> p = (DirUploading, n) \<and> map_of d1 p = None" for p
    using os_remove_map [OF rm] by (auto split: if_splits)
  have d12: "d' = d2 \<or> d' = d1" using c rm mr by (auto simp: Complete_def assertUnder_def split: option.splits if_splits)
  have s: "map_of d' p = map_of d p \<or> p = (DirUploading, n) \<and> map_of d' p = None" if "is_segment (snd p)" for p
  proof -
    from that have "map_of d2 p = map_of d1 p"
      using removeSegmentMeta_segments [OF mr] unfolding same_segments_def by metis
    with d12 d1 [of p] show ?thesis by auto
  qed
  then show "is_segment (snd p) \<Longrightarrow> map_of d' p = map_of d p \<or> p = (DirUploading, n) \<and> map_of d' p = None" .
  have "distinct (map fst d')"
    using ok d12 os_remove_distinct [OF rm] removeSegmentMeta_distinct [OF mr] by (auto simp: disk_ok_def)
  moreover have "one_place d'" unfolding one_place_def
  proof (intro allI impI)
    fix m a b assume *: "map_of d' (a, m) \<noteq> None" "map_of d' (b, m) \<noteq> None" "is_segment m"
    with s [of "(a, m)"] s [of "(b, m)"] have "map_of d (a, m) \<noteq> None" "map_of d (b, m) \<noteq> None" by auto
    with * ok show "a = b" by (auto simp: disk_ok_def one_place_def)
  qed
  ultimately show "disk_ok d'" by (simp add: disk_ok_def)
qed

lemma Complete_kept:
  assumes ok: "disk_ok d" and c: "Complete flt (DirUploading, n) d = (e, d')"
    and del: "\<And>w rs. map_of d (DirUploading, n) = Some (SegmentFile w rs) \<Longrightarrow> delivered calls n (w, rs)"
  shows "segments_kept d d' calls"
proof -
  note s = Complete_segments [OF ok c]
  have "holds d' m x \<or> delivered calls m x" if "holds d m x" for m x
  proof -
    from that obtain a where a: "seg_at d (a, m) = Some x" by (auto simp: holds_def)
    then have m: "is_segment m" and f: "map_of d (a, m) = Some (SegmentFile (fst x) (snd x))"
      by (auto simp: seg_at_def split: if_splits option.splits disk_file.splits)
    show ?thesis
    proof (cases "map_of d' (a, m) = map_of d (a, m)")
      case True
      with a m f have "seg_at d' (a, m) = Some x" by (simp add: seg_at_def)
      then show ?thesis by (auto simp: holds_def)
    next
      case False
      with s(2) [of "(a, m)"] m have "a = DirUploading" "m = n" by auto
      with del f show ?thesis by simp
    qed
  qed
  moreover have "\<exists>a. map_of d (a, m) = Some f" if "is_segment m" "map_of d' (b, m) = Some f" for b m f
    using s(2) [of "(b, m)"] that by auto
  moreover have "map_of d' (DirActive, m) = map_of d (DirActive, m)" if "is_segment m" for m
    using s(2) [of "(DirActive, m)"] that by auto
  ultimately show ?thesis using s(1) by (auto simp: segments_kept_def)
qed

lemma describeSealed_id: "sl_DeliveryID (describeSealed opts flt f p d) = deliveryIDFromFilename (snd p)"
  by (auto simp: describeSealed_def Let_def split: sum.splits option.splits)

text \<open>The contract of one upload.\<close>

definition upload_contract :: "track \<Rightarrow> track \<Rightarrow> bool" where
  "upload_contract t t' \<longleftrightarrow>
     segments_kept (tk_Disk t) (tk_Disk t') (tk_Calls t') \<and> set (tk_Calls t) \<subseteq> set (tk_Calls t') \<and> same_drain t t' \<and>
     breaker_sound (tk_Breaker t')"

lemma upload_contract_trans: "upload_contract a b \<Longrightarrow> upload_contract b c \<Longrightarrow> upload_contract a c"
  unfolding upload_contract_def using segments_kept_trans same_drain_trans by blast

lemma loop_contract:
  assumes ok: "disk_ok (tk_Disk t)" and post: "loop_post opts env (DirUploading, n) seg a sleeps t (r, ss, t')"
    and id: "sl_DeliveryID seg = deliveryIDFromFilename n"
  shows "upload_contract t t'"
proof -
  let ?d = "tk_Disk t"
  from post obtain k where k: "a \<le> k" "tk_Calls t' = tk_Calls t @ loop_calls env (DirUploading, n) seg ?d a k"
    "loop_stop opts env (DirUploading, n) k r ?d (tk_Disk t')" "\<not> sb_ProbeInFlight (tk_Breaker t')" "same_drain t t'"
    by (auto simp: loop_post_def)
  have last: "\<lparr>uc_Segment = seg, uc_File = map_of ?d (DirUploading, n), uc_Error = ue_Answer env k\<rparr> \<in> set (tk_Calls t')"
    using k(1,2) by (auto simp: loop_calls_def)
  have "segments_kept ?d (tk_Disk t') (tk_Calls t')"
  proof (cases r)
    case Delivered
    obtain e d' where c: "Complete (ue_End env) (DirUploading, n) ?d = (e, d')" by fastforce
    have "delivered (tk_Calls t') n (w, rs)" if "map_of ?d (DirUploading, n) = Some (SegmentFile w rs)" for w rs
      using last id that k(3) Delivered unfolding delivered_def by (intro bexI [OF _ last]) (auto simp: loop_stop_def)
    from Complete_kept [OF ok c this] k(3) c Delivered show ?thesis by (simp add: loop_stop_def)
  next
    case (Deadlettered e)
    obtain x d' where "Deadletter (ue_End env) (DirUploading, n) ?d = (x, d')" by fastforce
    with k(3) Deadlettered transition_segments_kept [OF ok this [unfolded Deadletter_def]] show ?thesis
      by (simp add: loop_stop_def)
  qed (use k(3) ok in \<open>auto simp: loop_stop_def segments_kept_refl\<close>)
  with k show ?thesis by (auto simp: upload_contract_def breaker_sound_def)
qed

lemma uploadOne_contract:
  assumes ok: "disk_ok (tk_Disk t)" and b: "breaker_sound (tk_Breaker t)" and m: "1 \<le> rt_MaxAttempts (to_Retry opts)"
    and u: "uploadOne opts env (DirSealed, n) t = (r, ss, t')"
  shows "upload_contract t t'"
    and "(\<not> sb_ProbeInFlight (tk_Breaker t') \<or> r = ClaimRaceLost \<or> (\<exists>e. r = LocalFailure e))"
proof -
  obtain q e d where c: "Claim (ue_Claim env) (DirSealed, n) (tk_Disk t) = ((q, e), d)" by (metis prod.collapse)
  have kept: "segments_kept (tk_Disk t) d calls" for calls
    using transition_segments_kept [OF ok c [unfolded Claim_def]] by simp
  have "upload_contract t t' \<and> (\<not> sb_ProbeInFlight (tk_Breaker t') \<or> r = ClaimRaceLost \<or> (\<exists>e. r = LocalFailure e))"
  proof (cases e)
    case (Some x)
    with u c have "t' = t\<lparr>tk_Disk := d\<rparr>" "r = (if is_not_exist x then ClaimRaceLost else LocalFailure x)"
      by (auto simp: uploadOne_def)
    with kept b show ?thesis by (auto simp: upload_contract_def same_drain_def)
  next
    case None
    from seg_transition_ok [OF c [unfolded Claim_def None]] have q: "q = Some (DirUploading, n)" by simp
    let ?t1 = "t\<lparr>tk_Disk := d\<rparr>"
    let ?seg = "describeSealed opts (ue_Claim env) (ue_Stat env) (DirUploading, n) d"
    from u c None q have l: "upload_loop opts env (DirUploading, n) ?seg 1 (rt_BaseBackoff (to_Retry opts)) [] ?t1 = (r, ss, t')"
      by (simp add: uploadOne_def Let_def)
    have ok1: "disk_ok (tk_Disk ?t1)" using kept by (simp add: segments_kept_def)
    from upload_loop_post [of 1 opts ?t1 env "(DirUploading, n)" ?seg "[]" "rt_BaseBackoff (to_Retry opts)"] m b l
    have post: "loop_post opts env (DirUploading, n) ?seg 1 [] ?t1 (r, ss, t')" by simp
    from loop_contract [OF ok1 post] have "upload_contract ?t1 t'" by (simp add: describeSealed_id)
    moreover have "upload_contract t ?t1" using kept b by (auto simp: upload_contract_def same_drain_def)
    moreover have "\<not> sb_ProbeInFlight (tk_Breaker t')" using post by (auto simp: loop_post_def)
    ultimately show ?thesis using upload_contract_trans by blast
  qed
  then show "upload_contract t t'" "(\<not> sb_ProbeInFlight (tk_Breaker t') \<or> r = ClaimRaceLost \<or> (\<exists>e. r = LocalFailure e))" by auto
qed

lemma on_breaker_simps [simp]:
  "tk_Breaker (on_breaker f t) = f (tk_Breaker t)" "tk_Disk (on_breaker f t) = tk_Disk t"
  "tk_Calls (on_breaker f t) = tk_Calls t" "tk_Kick (on_breaker f t) = tk_Kick t" "tk_UploadsOK (on_breaker f t) = tk_UploadsOK t"
  "same_drain t (on_breaker f t)" "same_drain s (on_breaker f t) = same_drain s t"
  by (simp_all add: on_breaker_def same_drain_def)

lemma contract_breaker: "upload_contract t t' \<Longrightarrow> breaker_sound (f (tk_Breaker t')) \<Longrightarrow> upload_contract t (on_breaker f t')"
  by (simp add: upload_contract_def)

lemma contract_set_breaker: "disk_ok (tk_Disk t) \<Longrightarrow> breaker_sound b \<Longrightarrow> upload_contract t (t\<lparr>tk_Breaker := b\<rparr>)"
  by (simp add: upload_contract_def segments_kept_refl same_drain_def)

lemma Allow_refused: "spool_Allow now b = (False, b') \<Longrightarrow> b' = b"
  by (auto simp: spool_Allow_def split: spool_breaker_state.splits if_splits)

lemma Allow_sound: "spool_Allow now b = (v, b') \<Longrightarrow> breaker_sound b \<Longrightarrow> breaker_sound b'"
  using breaker_sound_simps(5) [of b now] by simp

lemma scan_contract:
  assumes m: "1 \<le> rt_MaxAttempts (to_Retry opts)"
  shows "disk_ok (tk_Disk t) \<Longrightarrow> breaker_sound (tk_Breaker t) \<Longrightarrow> \<forall>p \<in> set ps. fst p = DirSealed \<Longrightarrow>
    upload_contract t (scan_loop opts env i ps t) \<and>
    ((ps = [] \<or> i > 0 \<longrightarrow> \<not> sb_ProbeInFlight (tk_Breaker t)) \<longrightarrow> (\<forall>i. \<not> sv_CtxErr env i) \<longrightarrow>
      \<not> sb_ProbeInFlight (tk_Breaker (scan_loop opts env i ps t)))"
proof (induction ps arbitrary: i t)
  case Nil
  then show ?case by (simp add: upload_contract_def segments_kept_refl)
next
  case (Cons p ps)
  obtain n where p: "p = (DirSealed, n)" using Cons.prems(3) by (cases p) auto
  obtain v b where a: "(if i > 0 then spool_Allow (sv_Allow env i) (tk_Breaker t) else (True, tk_Breaker t)) = (v, b)" by fastforce
  then have b: "breaker_sound b" using Cons.prems(2) Allow_sound by (auto split: if_splits)
  let ?t1 = "t\<lparr>tk_Breaker := b\<rparr>"
  have c1: "upload_contract t ?t1" using contract_set_breaker [OF Cons.prems(1) b] .
  show ?case
  proof (cases "v \<and> sv_Select env i = SelectDefault")
    case False
    have "v = False \<Longrightarrow> b = tk_Breaker t" using a Allow_refused by (auto split: if_splits)
    with False a c1 b show ?thesis
      by (cases v; cases "sv_Select env i") (auto simp: Let_def contract_breaker split: if_splits)
  next
    case True
    obtain r ss t2 where u: "uploadOne opts (sv_Upload env i) (DirSealed, n) ?t1 = (r, ss, t2)" by (metis prod.collapse)
    have pre: "disk_ok (tk_Disk ?t1)" "breaker_sound (tk_Breaker ?t1)" using Cons.prems(1) b by auto
    note one = uploadOne_contract [OF pre m u]
    from upload_contract_trans [OF c1 one(1)] have c2: "upload_contract t t2" .
    then have pre2: "disk_ok (tk_Disk t2)" "breaker_sound (tk_Breaker t2)"
      by (auto simp: upload_contract_def segments_kept_def)
    have rest: "upload_contract t (scan_loop opts env (i + 1) ps t')"
      "\<not> sb_ProbeInFlight (tk_Breaker t') \<Longrightarrow> \<forall>i. \<not> sv_CtxErr env i \<Longrightarrow>
         \<not> sb_ProbeInFlight (tk_Breaker (scan_loop opts env (i + 1) ps t'))"
      if "upload_contract t t'" for t'
    proof -
      from that have "disk_ok (tk_Disk t')" "breaker_sound (tk_Breaker t')"
        by (auto simp: upload_contract_def segments_kept_def)
      from Cons.IH [OF this, of "i + 1"] Cons.prems(3)
      show "upload_contract t (scan_loop opts env (i + 1) ps t')"
        "\<not> sb_ProbeInFlight (tk_Breaker t') \<Longrightarrow> \<forall>i. \<not> sv_CtxErr env i \<Longrightarrow>
         \<not> sb_ProbeInFlight (tk_Breaker (scan_loop opts env (i + 1) ps t'))"
        using upload_contract_trans [OF that] by auto
    qed
    have eq: "scan_loop opts env i (p # ps) t =
      (case r of Delivered \<Rightarrow> scan_loop opts env (i + 1) ps t2
       | Deadlettered e \<Rightarrow> scan_loop opts env (i + 1) ps t2
       | ClaimRaceLost \<Rightarrow> scan_loop opts env (i + 1) ps (on_breaker spool_Release t2)
       | Interrupted \<Rightarrow> t2 | ContextEnded \<Rightarrow> t2
       | LocalFailure e \<Rightarrow> if sv_CtxErr env i then t2 else on_breaker (spool_RecordFailure (sv_Clock env i)) t2)"
      using a True u p by (simp add: Let_def split: upload_end.split)
    show ?thesis
      using one(2) rest [OF c2] rest [OF contract_breaker [OF c2, of spool_Release]] pre2(2) c2
      unfolding eq by (auto simp: contract_breaker split: upload_end.split)
  qed
qed

lemma attemptUploads_contract:
  assumes m: "1 \<le> rt_MaxAttempts (to_Retry opts)" and ok: "disk_ok (tk_Disk t)" and b: "breaker_sound (tk_Breaker t)"
  shows "upload_contract t (attemptUploads opts env t)"
    and "\<not> sb_ProbeInFlight (tk_Breaker t) \<Longrightarrow> \<forall>i. \<not> sv_CtxErr env i \<Longrightarrow>
      \<not> sb_ProbeInFlight (tk_Breaker (attemptUploads opts env t))"
proof -
  obtain v b' where a: "spool_Allow (sv_Allow env 0) (tk_Breaker t) = (v, b')" by fastforce
  let ?t1 = "t\<lparr>tk_Breaker := b'\<rparr>"
  have b': "breaker_sound b'" using Allow_sound [OF a b] .
  note c1 = contract_set_breaker [OF ok b']
  have "upload_contract t (attemptUploads opts env t) \<and>
    (\<not> sb_ProbeInFlight (tk_Breaker t) \<longrightarrow> (\<forall>i. \<not> sv_CtxErr env i) \<longrightarrow>
      \<not> sb_ProbeInFlight (tk_Breaker (attemptUploads opts env t)))"
  proof (cases v)
    case False
    with a c1 Allow_refused show ?thesis by (auto simp: attemptUploads_def)
  next
    case True
    show ?thesis
    proof (cases "listSegments (sv_List env) DirSealed (tk_Disk t)")
      case (Inl e)
      with True a c1 b' show ?thesis by (simp add: attemptUploads_def Let_def contract_breaker)
    next
      case (Inr ps)
      show ?thesis
      proof (cases ps)
        case Nil
        with Inr True a c1 b' show ?thesis by (simp add: attemptUploads_def Let_def contract_breaker)
      next
        case (Cons p ps')
        have "\<forall>p \<in> set ps. fst p = DirSealed" using listSegments_Inr(1) [OF Inr] by auto
        with scan_contract [OF m, of ?t1 ps env 0] ok b' Inr True a Cons upload_contract_trans [OF c1]
        show ?thesis by (auto simp: attemptUploads_def Let_def)
      qed
    qed
  qed
  then show "upload_contract t (attemptUploads opts env t)"
    "\<not> sb_ProbeInFlight (tk_Breaker t) \<Longrightarrow> \<forall>i. \<not> sv_CtxErr env i \<Longrightarrow>
      \<not> sb_ProbeInFlight (tk_Breaker (attemptUploads opts env t))" by auto
qed

lemma default_attempts: "1 \<le> rt_MaxAttempts (retry_withDefaults r)"
  by (simp add: retry_withDefaults_def)

lemma nextBackoff_bound: "current \<le> M \<Longrightarrow> maxBackoff \<le> M \<Longrightarrow> nextBackoff scale current maxBackoff \<le> M"
  by (auto simp: nextBackoff_def Let_def)

lemma fullJitter_bound:
  "(\<And>x. 0 < x \<Longrightarrow> 0 \<le> draw x \<and> draw x < x) \<Longrightarrow> 0 \<le> fullJitter draw c \<and> (fullJitter draw c < c \<or> fullJitter draw c = 0)"
  by (auto simp: fullJitter_def)

lemma loop_sleeps:
  assumes draw: "\<And>j x. 0 < x \<Longrightarrow> 0 \<le> ue_Draw env j x \<and> ue_Draw env j x < x" and M: "0 \<le> M" "rt_MaxBackoff (to_Retry opts) \<le> M"
  shows "backoff \<le> M \<Longrightarrow> \<forall>x \<in> set sleeps. 0 \<le> x \<and> x \<le> M \<Longrightarrow>
    \<forall>x \<in> set (fst (snd (upload_loop opts env p seg attempt backoff sleeps t))). 0 \<le> x \<and> x \<le> M"
proof (induction "nat (rt_MaxAttempts (to_Retry opts) + 1 - int attempt)" arbitrary: attempt backoff sleeps t rule: less_induct)
  case less
  have j: "0 \<le> fullJitter (ue_Draw env attempt) backoff \<and> fullJitter (ue_Draw env attempt) backoff \<le> M"
    using fullJitter_bound [of "ue_Draw env attempt" backoff] draw less.prems(1) M(1) by fastforce
  have next_M: "nextBackoff (to_Scale opts) backoff (rt_MaxBackoff (to_Retry opts)) \<le> M"
    using less.prems(1) M(2) by (rule nextBackoff_bound)
  have ih: "\<forall>x \<in> set (fst (snd (upload_loop opts env p seg (attempt + 1)
      (nextBackoff (to_Scale opts) backoff (rt_MaxBackoff (to_Retry opts)))
      (sleeps @ [fullJitter (ue_Draw env attempt) backoff]) t'))). 0 \<le> x \<and> x \<le> M"
    if "int attempt \<le> rt_MaxAttempts (to_Retry opts)" for t'
    by (rule less.hyps) (use that next_M j less.prems(2) in auto)
  show ?case
  proof (cases "int attempt \<le> rt_MaxAttempts (to_Retry opts)")
    case True
    show ?thesis
      unfolding upload_loop.simps [of opts env p seg attempt backoff sleeps t] Let_def deadletter_def
      using less.prems(2) ih [OF True] True
      by (simp split: option.split wait_end.split)
  next
    case False
    then show ?thesis
      unfolding upload_loop.simps [of opts env p seg attempt backoff sleeps t] using less.prems(2) by simp
  qed
qed

text \<open>
  C19. The retry loop of a segment ends: it makes at most \<^verbatim>\<open>MaxAttempts\<close> uploads, one sleep between two of
  them, each sleep within the larger of the base and the maximal backoff; every attempt but the last was
  a failure that is not permanent; and it ends with a delivery, in the deadletter directory after a
  permanent failure or the last attempt, or interrupted by a stop or the end of the context. The
  statement after the loop is never reached.
\<close>

theorem upload_budget:
  assumes "1 \<le> rt_MaxAttempts (to_Retry opts)" "breaker_sound (tk_Breaker t)"
    and "\<And>j x. 0 < x \<Longrightarrow> 0 \<le> ue_Draw env j x \<and> ue_Draw env j x < x"
    and "0 \<le> rt_BaseBackoff (to_Retry opts)"
    and "uploadOne opts env p t = (res, sleeps, t')"
  shows "(res = ClaimRaceLost \<or> (\<exists>e. res = LocalFailure e)) \<and> tk_Calls t' = tk_Calls t \<and> sleeps = [] \<or>
    (\<exists>k. 1 \<le> k \<and> int k \<le> rt_MaxAttempts (to_Retry opts) \<and> length (tk_Calls t') = length (tk_Calls t) + k \<and>
       length sleeps = k - 1 \<and>
       (\<forall>x \<in> set sleeps. 0 \<le> x \<and> x \<le> max (rt_BaseBackoff (to_Retry opts)) (rt_MaxBackoff (to_Retry opts))) \<and>
       (\<forall>j \<in> {1..<k}. retried env j) \<and>
       (case res of Delivered \<Rightarrow> ue_Answer env k = None
        | Deadlettered e \<Rightarrow> ue_Answer env k = Some e \<and> (IsPermanent (Some e) \<or> int k = rt_MaxAttempts (to_Retry opts))
        | ContextEnded \<Rightarrow> ue_Answer env k \<noteq> None \<and> (ue_CtxErr env k \<or> ue_Wait env k = WaitContext)
        | Interrupted \<Rightarrow> ue_Answer env k \<noteq> None \<and> ue_Wait env k = WaitStop
        | _ \<Rightarrow> False))"
proof -
  obtain q e d where c: "Claim (ue_Claim env) p (tk_Disk t) = ((q, e), d)" by (metis prod.collapse)
  show ?thesis
  proof (cases e)
    case (Some x)
    with c assms(5) show ?thesis by (cases "is_not_exist x") (auto simp: uploadOne_def)
  next
    case None
    define u where "u = (case q of Some q' \<Rightarrow> q' | None \<Rightarrow> p)"
    let ?t1 = "t\<lparr>tk_Disk := d\<rparr>" and ?seg = "describeSealed opts (ue_Claim env) (ue_Stat env) u d"
    have l: "upload_loop opts env u ?seg 1 (rt_BaseBackoff (to_Retry opts)) [] ?t1 = (res, sleeps, t')"
      using assms(5) c None by (simp add: uploadOne_def Let_def u_def)
    have "loop_post opts env u ?seg 1 [] ?t1 (res, sleeps, t')"
      using upload_loop_post [of 1 opts ?t1 env u ?seg "[]" "rt_BaseBackoff (to_Retry opts)"] assms(1,2) l by simp
    then obtain k where k: "1 \<le> k" "int k \<le> rt_MaxAttempts (to_Retry opts)" "length sleeps = k - 1"
      "tk_Calls t' = tk_Calls t @ loop_calls env u ?seg d 1 k" "\<forall>j \<in> {1..<k}. retried env j"
      "loop_stop opts env u k res d (tk_Disk t')" by (auto simp: loop_post_def)
    have "\<forall>x \<in> set (fst (snd (upload_loop opts env u ?seg 1 (rt_BaseBackoff (to_Retry opts)) [] ?t1))).
        0 \<le> x \<and> x \<le> max (rt_BaseBackoff (to_Retry opts)) (rt_MaxBackoff (to_Retry opts))"
      by (rule loop_sleeps) (use assms(3,4) in auto)
    with k l show ?thesis
      by (intro disjI2 exI [of _ k]) (auto simp: loop_calls_def loop_stop_def split: upload_end.splits)
  qed
qed

definition sample_opts :: track_opts where
  "sample_opts =
     \<lparr>to_Root = ''/spool'', to_Name = ''s3'', to_QueueSize = 2,
      to_Rotation = rotation_withDefaults \<lparr>ro_MaxBytes = 0, ro_MaxAge = 0\<rparr>,
      to_Retry = retry_withDefaults \<lparr>rt_BaseBackoff = 0, rt_MaxBackoff = 0, rt_Multiplier = NaN, rt_MaxAttempts = 2\<rparr>,
      to_Breaker = \<lparr>bo_FailuresToOpen = 0, bo_HalfOpenAfter = 0\<rparr>, to_Marshal = (\<lambda>r. Some (cr_ID r)),
      to_Size = (\<lambda>_. 0), to_Scale = (\<lambda>x. 2 * x)\<rparr>"

definition failing_upload :: upload_env where
  "failing_upload =
     \<lparr>ue_Claim = no_faults, ue_Stat = None, ue_Answer = (\<lambda>_. Some (Plain ''503'')), ue_CtxErr = (\<lambda>_. False),
      ue_Clock = (\<lambda>_. 100), ue_Wait = (\<lambda>_. WaitElapsed), ue_Draw = (\<lambda>_ x. x - 1), ue_End = no_faults\<rparr>"

definition sealed_disk :: disk where
  "sealed_disk =
     [((DirSealed, segmentFilename 2 1), SegmentFile True [sample_record]),
      (metaPath (DirSealed, segmentFilename 2 1), MetaFile (Some \<lparr>sm_Records = 1, sm_BytesUncompressed = 3, sm_TsMinNs = 7, sm_TsMaxNs = 7\<rparr>)),
      ((DirSealed, segmentFilename 1 1), SegmentFile True [sample_record])]"

lemma upload_budget_witness:
  "\<exists>k. 1 \<le> k \<and> int k \<le> 2 \<and>
     length (tk_Calls (snd (snd (uploadOne sample_opts failing_upload (DirSealed, segmentFilename 1 1) (newTrack sample_opts sealed_disk))))) = k"
proof -
  let ?t = "newTrack sample_opts sealed_disk" and ?p = "(DirSealed, segmentFilename 1 1)"
  obtain r ss t' where u: "uploadOne sample_opts failing_upload ?p ?t = (r, ss, t')" by (metis prod.collapse)
  have "length (tk_Calls (snd (snd (uploadOne sample_opts failing_upload ?p ?t)))) = 2" by code_simp
  with u have two: "length (tk_Calls t') = 2" by simp
  have m: "1 \<le> rt_MaxAttempts (to_Retry sample_opts)" "0 \<le> rt_BaseBackoff (to_Retry sample_opts)"
    "rt_MaxAttempts (to_Retry sample_opts) = 2" by code_simp+
  have b: "breaker_sound (tk_Breaker ?t)" by (simp add: newTrack_def)
  have c: "tk_Calls ?t = []" by (simp add: newTrack_def)
  have "0 \<le> ue_Draw failing_upload j x \<and> ue_Draw failing_upload j x < x" if "0 < x" for j x
    using that by (simp add: failing_upload_def)
  from upload_budget [OF m(1) b this m(2) u] two u c m(3) show ?thesis by auto
qed

text \<open>
  A half-open probe reservation does not leak: when a scan of the sealed segments starts with no
  reservation, none is held when it returns, whatever uploads, claims and listings answer, unless the
  context ended during a failed claim.
\<close>

theorem probe_never_leaks:
  assumes "to_Retry opts = retry_withDefaults r" "disk_ok (tk_Disk t)" "\<not> sb_ProbeInFlight (tk_Breaker t)"
    and "\<forall>i. \<not> sv_CtxErr env i"
  shows "\<not> sb_ProbeInFlight (tk_Breaker (attemptUploads opts env t))"
  by (rule attemptUploads_contract) (use assms default_attempts in \<open>auto simp: breaker_sound_def\<close>)

definition failing_scan :: scan_env where
  "failing_scan =
     \<lparr>sv_Allow = (\<lambda>_. 100), sv_List = None, sv_Select = (\<lambda>_. SelectDefault), sv_Upload = (\<lambda>_. failing_upload),
      sv_CtxErr = (\<lambda>_. False), sv_Clock = (\<lambda>_. 100)\<rparr>"

definition recovering :: track where
  "recovering = (newTrack sample_opts sealed_disk)\<lparr>tk_Breaker :=
     \<lparr>sb_State = BreakerOpen, sb_FailuresToOpen = 5, sb_HalfOpenAfter = 30, sb_ConsecutiveFails = 5, sb_OpenedAt = 0,
      sb_ProbeInFlight = False\<rparr>\<rparr>"

lemma sealed_disk_ok: "disk_ok sealed_disk"
  by (auto simp: disk_ok_def one_place_def sealed_disk_def sample_names [simplified] metaPath_def metaExt_def split: if_splits)

lemma probe_never_leaks_witness:
  "\<not> sb_ProbeInFlight (tk_Breaker (attemptUploads sample_opts failing_scan recovering)) \<and>
   length (tk_Calls (attemptUploads sample_opts failing_scan recovering)) = 2"
proof
  show "\<not> sb_ProbeInFlight (tk_Breaker (attemptUploads sample_opts failing_scan recovering))"
  proof (rule probe_never_leaks)
    show "to_Retry sample_opts =
        retry_withDefaults \<lparr>rt_BaseBackoff = 0, rt_MaxBackoff = 0, rt_Multiplier = NaN, rt_MaxAttempts = 2\<rparr>"
      by (simp add: sample_opts_def)
    show "disk_ok (tk_Disk recovering)" by (simp add: recovering_def newTrack_def sealed_disk_ok)
    show "\<not> sb_ProbeInFlight (tk_Breaker recovering)" by (simp add: recovering_def)
    show "\<forall>i. \<not> sv_CtxErr failing_scan i" by (simp add: failing_scan_def)
  qed
  show "length (tk_Calls (attemptUploads sample_opts failing_scan recovering)) = 2" by code_simp
qed

section \<open>A healthy destination\<close>

lemma transition_quiet:
  assumes "map_of d (from, n) \<noteq> None" "from \<noteq> to"
  shows "\<exists>d'. seg_transition no_faults (from, n) from to d = ((Some (to, n), None), d')"
proof -
  let ?d1 = "AList.update (to, n) (the (map_of d (from, n))) (AList.delete (from, n) d)"
  have "os_rename None (from, n) (to, n) d = (None, ?d1)"
    using assms by (auto simp: os_rename_def)
  moreover have "\<exists>d'. moveSegmentMeta no_faults (from, n) (to, n) ?d1 = (None, d')"
    by (cases "map_of ?d1 (metaPath (from, n))")
      (auto simp: moveSegmentMeta_def os_lstat_def os_rename_def no_faults_def)
  ultimately show ?thesis by (auto simp: seg_transition_def assertUnder_def no_faults_def Let_def)
qed

lemma Complete_quiet:
  assumes "map_of d (DirUploading, n) \<noteq> None" "is_segment n"
  shows "map_of (snd (Complete no_faults (DirUploading, n) d)) (DirUploading, n) = None"
proof -
  let ?d1 = "AList.delete (DirUploading, n) d"
  obtain e d2 where m: "removeSegmentMeta no_faults (DirUploading, n) ?d1 = (e, d2)" by fastforce
  have "os_remove None (DirUploading, n) d = (None, ?d1)" using assms by (auto simp: os_remove_def)
  with m have "Complete no_faults (DirUploading, n) d = (e, d2)"
    by (simp add: Complete_def assertUnder_def no_faults_def)
  moreover have "map_of d2 (DirUploading, n) = map_of ?d1 (DirUploading, n)"
    using removeSegmentMeta_segments [OF m] assms(2) by (simp add: same_segments_def)
  ultimately show ?thesis by (simp add: delete_conv')
qed

definition healthy_upload :: "upload_env \<Rightarrow> bool" where
  "healthy_upload env \<longleftrightarrow> ue_Claim env = no_faults \<and> ue_Answer env 1 = None \<and> ue_End env = no_faults"

definition healthy_scan :: "scan_env \<Rightarrow> bool" where
  "healthy_scan env \<longleftrightarrow> sv_List env = None \<and> (\<forall>i. sv_Select env i = SelectDefault \<and> healthy_upload (sv_Upload env i))"

text \<open>The call that delivers the segment of a name.\<close>

definition delivers :: "disk \<Rightarrow> string \<Rightarrow> upload_call \<Rightarrow> bool" where
  "delivers d n u \<longleftrightarrow> uc_Error u = None \<and> uc_File u = map_of d (DirSealed, n) \<and>
     sl_DeliveryID (uc_Segment u) = deliveryIDFromFilename n"

definition drops_names :: "string set \<Rightarrow> disk \<Rightarrow> disk \<Rightarrow> bool" where
  "drops_names ns d d' \<longleftrightarrow>
     (\<forall>p. is_segment (snd p) \<longrightarrow> map_of d' p = (if snd p \<in> ns then None else map_of d p))"

lemma uploadOne_healthy:
  assumes ok: "disk_ok (tk_Disk t)" and n: "is_segment n" "map_of (tk_Disk t) (DirSealed, n) \<noteq> None"
    and m: "1 \<le> rt_MaxAttempts (to_Retry opts)" and h: "healthy_upload env"
  shows "\<exists>t' u. uploadOne opts env (DirSealed, n) t = (Delivered, [], t') \<and> sb_State (tk_Breaker t') = BreakerClosed \<and>
    tk_Calls t' = tk_Calls t @ [u] \<and> delivers (tk_Disk t) n u \<and> tk_UploadsOK t' = tk_UploadsOK t + 1 \<and>
    disk_ok (tk_Disk t') \<and> drops_names {n} (tk_Disk t) (tk_Disk t')"
proof -
  let ?d = "tk_Disk t"
  from ok have o: "one_place ?d" by (simp add: disk_ok_def)
  have ss: "DirSealed \<noteq> DirUploading" by simp
  obtain d1 where tr: "seg_transition no_faults (DirSealed, n) DirSealed DirUploading ?d = ((Some (DirUploading, n), None), d1)"
    using transition_quiet [OF n(2) ss] by blast
  from transition_disk_ok [OF ok tr] have ok1: "disk_ok d1" by simp
  have m1: "map_of d1 (a, k) = (if k = n then (if a = DirUploading then map_of ?d (DirSealed, n) else None) else map_of ?d (a, k))"
    if "is_segment k" for a k
    using transition_step [OF o tr ss] that by simp
  let ?t1 = "t\<lparr>tk_Disk := d1\<rparr>"
  let ?seg = "describeSealed opts (ue_Claim env) (ue_Stat env) (DirUploading, n) d1"
  let ?u = "\<lparr>uc_Segment = ?seg, uc_File = map_of d1 (DirUploading, n), uc_Error = None\<rparr>"
  let ?d2 = "snd (Complete no_faults (DirUploading, n) d1)"
  let ?t' = "(on_breaker spool_RecordSuccess (?t1\<lparr>tk_Calls := tk_Calls t @ [?u]\<rparr>))\<lparr>tk_Disk := ?d2, tk_UploadsOK := tk_UploadsOK t + 1\<rparr>"
  from h have env: "ue_Claim env = no_faults" "ue_Answer env (Suc 0) = None" "ue_End env = no_faults" by (auto simp: healthy_upload_def)
  have l: "upload_loop opts env (DirUploading, n) ?seg (Suc 0) (rt_BaseBackoff (to_Retry opts)) [] ?t1 = (Delivered, [], ?t')"
    using m env by (subst upload_loop.simps) (simp add: Let_def on_breaker_def)
  have one: "uploadOne opts env (DirSealed, n) t = (Delivered, [], ?t')"
    using tr env l by (simp add: uploadOne_def Claim_def Let_def)
  obtain e d2 where c: "Complete no_faults (DirUploading, n) d1 = (e, d2)" by fastforce
  note cs = Complete_segments [OF ok1 c]
  have gone: "map_of d2 (DirUploading, n) = None"
    using Complete_quiet [of d1 n] m1 [OF n(1), of DirUploading] n c by simp
  have "drops_names {n} ?d d2"
    unfolding drops_names_def
  proof (intro allI impI)
    fix p :: seg_path assume p: "is_segment (snd p)"
    with cs(2) [OF p] m1 [of "snd p" "fst p"] gone
    show "map_of d2 p = (if snd p \<in> {n} then None else map_of ?d p)" by (cases p) (auto split: if_splits)
  qed
  moreover have "delivers ?d n ?u" using m1 [OF n(1), of DirUploading] by (simp add: delivers_def describeSealed_id)
  ultimately show ?thesis using one c cs(1)
    by (intro exI [of _ ?t'] exI [of _ ?u]) (simp add: on_breaker_def spool_RecordSuccess_def)
qed

lemma scan_healthy:
  assumes m: "1 \<le> rt_MaxAttempts (to_Retry opts)" and h: "healthy_scan env"
  shows "disk_ok (tk_Disk t) \<Longrightarrow> sb_State (tk_Breaker t) = BreakerClosed \<Longrightarrow> distinct ns \<Longrightarrow>
    \<forall>n \<in> set ns. is_segment n \<and> map_of (tk_Disk t) (DirSealed, n) \<noteq> None \<Longrightarrow>
    \<exists>us. tk_Calls (scan_loop opts env i (map (Pair DirSealed) ns) t) = tk_Calls t @ us \<and>
      list_all2 (delivers (tk_Disk t)) ns us \<and>
      tk_UploadsOK (scan_loop opts env i (map (Pair DirSealed) ns) t) = tk_UploadsOK t + length ns \<and>
      drops_names (set ns) (tk_Disk t) (tk_Disk (scan_loop opts env i (map (Pair DirSealed) ns) t))"
proof (induction ns arbitrary: i t)
  case Nil
  then show ?case by (simp add: drops_names_def)
next
  case (Cons n ns)
  let ?t = "t\<lparr>tk_Breaker := tk_Breaker t\<rparr>"
  have up: "healthy_upload (sv_Upload env i)" and sel: "sv_Select env i = SelectDefault" using h by (auto simp: healthy_scan_def)
  obtain t' u where one: "uploadOne opts (sv_Upload env i) (DirSealed, n) ?t = (Delivered, [], t')"
    "sb_State (tk_Breaker t') = BreakerClosed" "tk_Calls t' = tk_Calls t @ [u]" "delivers (tk_Disk t) n u"
    "tk_UploadsOK t' = tk_UploadsOK t + 1" "disk_ok (tk_Disk t')" "drops_names {n} (tk_Disk t) (tk_Disk t')"
    using uploadOne_healthy [OF _ _ _ m up, of ?t n] Cons.prems by auto
  have a: "(if i > 0 then spool_Allow (sv_Allow env i) (tk_Breaker t) else (True, tk_Breaker t)) = (True, tk_Breaker t)"
    using Cons.prems(2) by (simp add: spool_Allow_def)
  have step: "scan_loop opts env i (map (Pair DirSealed) (n # ns)) t = scan_loop opts env (i + 1) (map (Pair DirSealed) ns) t'"
    using a one(1) sel by (simp add: Let_def)
  have same: "map_of (tk_Disk t') (DirSealed, k) = map_of (tk_Disk t) (DirSealed, k)" if "k \<in> set ns" for k
    using one(7) that Cons.prems(3,4) by (auto simp: drops_names_def)
  then have all: "\<forall>k \<in> set ns. is_segment k \<and> map_of (tk_Disk t') (DirSealed, k) \<noteq> None"
    using Cons.prems(4) by simp
  obtain us where us: "tk_Calls (scan_loop opts env (i + 1) (map (Pair DirSealed) ns) t') = tk_Calls t' @ us"
    "list_all2 (delivers (tk_Disk t')) ns us"
    "tk_UploadsOK (scan_loop opts env (i + 1) (map (Pair DirSealed) ns) t') = tk_UploadsOK t' + length ns"
    "drops_names (set ns) (tk_Disk t') (tk_Disk (scan_loop opts env (i + 1) (map (Pair DirSealed) ns) t'))"
    using Cons.IH [OF one(6,2) _ all] Cons.prems(3) by auto
  have "list_all2 (delivers (tk_Disk t)) ns us"
    using us(2) by (rule list.rel_mono_strong) (use same in \<open>auto simp: delivers_def\<close>)
  moreover have "drops_names (set (n # ns)) (tk_Disk t) (tk_Disk (scan_loop opts env (i + 1) (map (Pair DirSealed) ns) t'))"
    using us(4) one(7) by (simp add: drops_names_def)
  ultimately show ?case
    unfolding step using us(1,3) one(3,4,5) by (intro exI [of _ "u # us"]) simp
qed

text \<open>
  C20. While the breaker is closed, one wake of the uploader with a destination that accepts delivers the
  whole backlog: every sealed segment is uploaded once, in the order of the file names, with the bytes it
  was sealed with, then removed; nothing is left in \<^verbatim>\<open>sealed/\<close> and no other segment is touched.
\<close>

theorem healthy_backlog_drains:
  assumes "to_Retry opts = retry_withDefaults r" "disk_ok (tk_Disk t)" "sb_State (tk_Breaker t) = BreakerClosed"
    and "healthy_scan env" "t' = attemptUploads opts env t"
  shows "names_in (tk_Disk t') DirSealed = {} \<and>
    (\<exists>ns us. sorted ns \<and> distinct ns \<and> set ns = names_in (tk_Disk t) DirSealed \<and>
       tk_Calls t' = tk_Calls t @ us \<and> list_all2 (delivers (tk_Disk t)) ns us \<and>
       tk_UploadsOK t' = tk_UploadsOK t + length ns \<and> drops_names (set ns) (tk_Disk t) (tk_Disk t'))"
proof -
  have m: "1 \<le> rt_MaxAttempts (to_Retry opts)" using assms(1) default_attempts by simp
  have l: "sv_List env = None" using assms(4) by (simp add: healthy_scan_def)
  define ns where "ns = sort (filter is_segment (map snd (filter (\<lambda>p. fst p = DirSealed) (map fst (tk_Disk t)))))"
  have list: "listSegments (sv_List env) DirSealed (tk_Disk t) = Inr (map (Pair DirSealed) ns)"
    using l by (simp add: listSegments_def ns_def)
  have set_ns: "set ns = names_in (tk_Disk t) DirSealed"
    using listed_names [OF list] by auto
  have d: "distinct ns" using listSegments_Inr(2) [OF list] assms(2) by (simp add: disk_ok_def distinct_map)
  have al: "spool_Allow (sv_Allow env 0) (tk_Breaker t) = (True, tk_Breaker t)" using assms(3) by (simp add: spool_Allow_def)
  have ex: "\<exists>us. tk_Calls t' = tk_Calls t @ us \<and> list_all2 (delivers (tk_Disk t)) ns us \<and>
       tk_UploadsOK t' = tk_UploadsOK t + length ns \<and> drops_names (set ns) (tk_Disk t) (tk_Disk t')"
  proof (cases ns)
    case Nil
    with list al assms(3,5) show ?thesis
      by (simp add: attemptUploads_def Let_def drops_names_def)
  next
    case (Cons k ks)
    have "t' = scan_loop opts env 0 (map (Pair DirSealed) ns) t"
      using assms(5) list al Cons by (simp add: attemptUploads_def Let_def)
    with scan_healthy [OF m assms(4) assms(2,3) d, of 0] set_ns show ?thesis by (auto simp: names_in_def)
  qed
  moreover from ex set_ns have "names_in (tk_Disk t') DirSealed = {}"
    by (auto simp: names_in_def drops_names_def)
  ultimately show ?thesis using d set_ns by (intro conjI exI [of _ ns]) (auto simp: ns_def)
qed

definition good_scan :: scan_env where
  "good_scan = failing_scan\<lparr>sv_Upload := (\<lambda>_. failing_upload\<lparr>ue_Answer := (\<lambda>_. None)\<rparr>)\<rparr>"

lemma healthy_backlog_drains_witness:
  "names_in (tk_Disk (attemptUploads sample_opts good_scan (newTrack sample_opts sealed_disk))) DirSealed = {} \<and>
   length (tk_Calls (attemptUploads sample_opts good_scan (newTrack sample_opts sealed_disk))) = 2"
proof
  have "to_Retry sample_opts =
        retry_withDefaults \<lparr>rt_BaseBackoff = 0, rt_MaxBackoff = 0, rt_Multiplier = NaN, rt_MaxAttempts = 2\<rparr>"
    by (simp add: sample_opts_def)
  from healthy_backlog_drains [OF this, of "newTrack sample_opts sealed_disk" good_scan]
  show "names_in (tk_Disk (attemptUploads sample_opts good_scan (newTrack sample_opts sealed_disk))) DirSealed = {}"
    by (simp add: newTrack_def newBreaker_def Let_def sealed_disk_ok healthy_scan_def healthy_upload_def good_scan_def
        failing_scan_def failing_upload_def)
  show "length (tk_Calls (attemptUploads sample_opts good_scan (newTrack sample_opts sealed_disk))) = 2" by code_simp
qed

end
