(* ===== verification/Spool_Run.thy ===== *)
theory Spool_Run
  imports Spool_Track
begin

text \<open>
  Runs of a track, and the spool that holds the tracks (\<^verbatim>\<open>spool.go\<close>). A run interleaves calls of
  \<^verbatim>\<open>Enqueue\<close>, iterations of the drain goroutine, wakes of the uploader, stops, and the loss of the
  process followed by a recovery. The two goroutines of a track share its breaker and the sealed
  directory only through operations that do not interfere (the uploader works on the list it has read;
  the drain adds names that are not on it), so a wake of the uploader is one step. A state carries the
  clock reading of the process start and the last reading used for a file name.
\<close>

section \<open>Steps\<close>

type_synonym run_state = "track \<times> int \<times> int"

text \<open>
  What a crash leaves of the segment that was open: its stream may decode to the end or not, and to any
  prefix of what was written.
\<close>

definition crash_disk :: "bool \<Rightarrow> nat \<Rightarrow> track \<Rightarrow> disk" where
  "crash_disk whole k t =
     (case tk_Segment t of None \<Rightarrow> tk_Disk t
      | Some s \<Rightarrow> AList.update (sg_Path s) (SegmentFile whole (take k (sg_Written s))) (tk_Disk t))"

definition restarted :: "track_opts \<Rightarrow> disk \<Rightarrow> track \<Rightarrow> track" where
  "restarted opts d t = (newTrack opts d)\<lparr>tk_Calls := tk_Calls t, tk_Kick := True\<rparr>"

inductive track_step :: "track_opts \<Rightarrow> run_state \<Rightarrow> run_state \<Rightarrow> bool" for opts where
  step_enqueue: "track_step opts (t, boot, now) (enqueue opts rec t, boot, now)"
| step_drain: "now \<le> now' \<Longrightarrow> track_step opts (t, boot, now) (drain_one opts flt now' t, boot, now')"
| step_seal: "track_step opts (t, boot, now) (snd (sealCurrent flt t), boot, now)"
| step_stop: "now \<le> now' \<Longrightarrow>
    track_step opts (t, boot, now) (snd (sealCurrent flt (drainQueue opts flts now' (tk_Queue t) t)), boot, now')"
| step_upload: "track_step opts (t, boot, now) (attemptUploads opts env (t\<lparr>tk_Kick := False\<rparr>), boot, now)"
| step_restart: "now < now' \<Longrightarrow> Recover env (crash_disk whole k t) = ((rep, None), d) \<Longrightarrow>
    track_step opts (t, boot, now) (restarted opts d t, now', now')"

inductive_cases track_stepE: "track_step opts (t, boot, now) (t', boot', now')"

inductive track_reach :: "track_opts \<Rightarrow> run_state \<Rightarrow> run_state \<Rightarrow> bool" for opts where
  reach_refl: "track_reach opts s s"
| reach_step: "track_reach opts s s' \<Longrightarrow> track_step opts s' s'' \<Longrightarrow> track_reach opts s s''"

section \<open>The invariant of a run\<close>

definition open_name :: "track \<Rightarrow> string \<Rightarrow> bool" where
  "open_name t n \<longleftrightarrow> (\<exists>s. tk_Segment t = Some s \<and> sg_Path s = (DirActive, n))"

definition open_ok :: "track \<Rightarrow> bool" where
  "open_ok t \<longleftrightarrow>
     (case tk_Segment t of None \<Rightarrow> True
      | Some s \<Rightarrow> fst (sg_Path s) = DirActive \<and> is_segment (snd (sg_Path s)) \<and> \<not> sg_Closed s \<and>
          map_of (tk_Disk t) (sg_Path s) \<noteq> None \<and> sg_Records s = int (length (sg_Written s)))"

definition names_ok :: "int \<Rightarrow> int \<Rightarrow> track \<Rightarrow> bool" where
  "names_ok boot now t \<longleftrightarrow>
     (\<forall>n. is_segment n \<longrightarrow> has_name (tk_Disk t) n \<longrightarrow>
        (\<exists>ns seq. n = segmentFilename ns seq \<and> 0 \<le> ns \<and> (ns < boot \<or> ns \<le> now \<and> seq \<le> tk_Seq t)))"

definition ring_ok :: "track_opts \<Rightarrow> track \<Rightarrow> bool" where
  "ring_ok opts t \<longleftrightarrow> tk_Enqueued t = tk_Written t + tk_WriteErrors t + length (tk_Queue t) \<and>
     length (tk_Queue t) \<le> to_QueueSize opts"

fun track_inv :: "track_opts \<Rightarrow> run_state \<Rightarrow> bool" where
  "track_inv opts (t, boot, now) \<longleftrightarrow>
     0 \<le> boot \<and> boot \<le> now \<and> disk_ok (tk_Disk t) \<and> open_ok t \<and> names_ok boot now t \<and> ring_ok opts t \<and>
     breaker_sound (tk_Breaker t)"

text \<open>No segment at rest is lost between two states, unless it was delivered.\<close>

definition rest_kept :: "track \<Rightarrow> track \<Rightarrow> bool" where
  "rest_kept t t' \<longleftrightarrow> set (tk_Calls t) \<subseteq> set (tk_Calls t') \<and>
     (\<forall>n c. holds (tk_Disk t) n c \<longrightarrow> \<not> open_name t n \<longrightarrow>
        \<not> open_name t' n \<and> holds (tk_Disk t') n c \<or> delivered (tk_Calls t') n c)"

lemma rest_kept_refl [simp]: "rest_kept t t"
  by (simp add: rest_kept_def)

lemma rest_kept_trans:
  assumes "rest_kept a b" "rest_kept b c"
  shows "rest_kept a c"
  unfolding rest_kept_def
proof (intro conjI allI impI)
  from assms show "set (tk_Calls a) \<subseteq> set (tk_Calls c)" by (auto simp: rest_kept_def)
  fix n x assume "holds (tk_Disk a) n x" "\<not> open_name a n"
  with assms(1) consider "\<not> open_name b n" "holds (tk_Disk b) n x" | "delivered (tk_Calls b) n x"
    unfolding rest_kept_def by blast
  then show "\<not> open_name c n \<and> holds (tk_Disk c) n x \<or> delivered (tk_Calls c) n x"
  proof cases
    case 1
    with assms(2) show ?thesis unfolding rest_kept_def by blast
  next
    case 2
    with assms(2) show ?thesis unfolding rest_kept_def using delivered_mono by blast
  qed
qed

text \<open>The same without deliveries: what the drain goroutine promises.\<close>

definition rest_held :: "track \<Rightarrow> track \<Rightarrow> bool" where
  "rest_held t t' \<longleftrightarrow> tk_Calls t' = tk_Calls t \<and>
     (\<forall>n c. holds (tk_Disk t) n c \<longrightarrow> \<not> open_name t n \<longrightarrow> \<not> open_name t' n \<and> holds (tk_Disk t') n c)"

lemma rest_held_refl [simp]: "rest_held t t"
  by (simp add: rest_held_def)

lemma rest_held_trans: "rest_held a b \<Longrightarrow> rest_held b c \<Longrightarrow> rest_held a c"
  unfolding rest_held_def by metis

lemma rest_held_kept: "rest_held a b \<Longrightarrow> rest_kept a b"
  unfolding rest_held_def rest_kept_def by auto

subsection \<open>File names\<close>

lemma itoa_digit: "c \<in> set (itoa n) \<Longrightarrow> is_digit_ascii c"
  using itoa_digits [of n] by (simp add: list_all_iff)

lemma append_sep_inj:
  assumes "list_all P x" "list_all P y" "\<not> P c" "x @ c # u = y @ c # v"
  shows "x = y \<and> u = v"
proof -
  have "takeWhile P (z @ c # w) = z" if "list_all P z" for z w
    using that assms(3) by (induction z) auto
  from this [OF assms(1), of u] this [OF assms(2), of v] assms(4) have "x = y" by simp
  with assms(4) show ?thesis by simp
qed

lemma itoa_inj: "itoa a = itoa b \<Longrightarrow> a = b"
  by (metis number_value_itoa)

lemma segmentFilename_inj:
  assumes "segmentFilename a m = segmentFilename b k" "0 \<le> a" "0 \<le> b"
  shows "a = b \<and> m = k"
proof -
  from assms have "itoa (nat a) @ CHR ''-'' # itoa m @ segmentExt = itoa (nat b) @ CHR ''-'' # itoa k @ segmentExt"
    by (simp add: segmentFilename_def itoa_int_def del: itoa.simps)
  from append_sep_inj [OF itoa_digits itoa_digits _ this]
  have "itoa (nat a) = itoa (nat b)" "itoa m @ segmentExt = itoa k @ segmentExt" by (auto simp: is_digit_ascii_def simp del: itoa.simps)
  then show ?thesis using itoa_inj assms(2,3) by (metis append_same_eq eq_nat_nat_iff)
qed

lemma segmentFilename_segment [simp]: "is_segment (segmentFilename a m)"
  by (simp add: is_segment_def segmentFilename_def del: itoa.simps)

lemma fresh_name:
  assumes "names_ok boot now t" "0 \<le> boot" "boot \<le> now'"  "now \<le> now'" "0 \<le> now'"
  shows "\<not> has_name (tk_Disk t) (segmentFilename now' (tk_Seq t + 1))"
proof
  assume "has_name (tk_Disk t) (segmentFilename now' (tk_Seq t + 1))"
  with assms(1) obtain ns seq where "segmentFilename now' (tk_Seq t + 1) = segmentFilename ns seq" "0 \<le> ns"
    "ns < boot \<or> ns \<le> now \<and> seq \<le> tk_Seq t" unfolding names_ok_def using segmentFilename_segment by blast
  with segmentFilename_inj [OF this(1) assms(5) this(2)] assms show False by auto
qed

subsection \<open>The drain goroutine\<close>

definition core_inv :: "int \<Rightarrow> int \<Rightarrow> track \<Rightarrow> bool" where
  "core_inv boot now t \<longleftrightarrow> disk_ok (tk_Disk t) \<and> open_ok t \<and> names_ok boot now t"

definition drain_frame :: "track \<Rightarrow> track \<Rightarrow> bool" where
  "drain_frame t t' \<longleftrightarrow> tk_Queue t' = tk_Queue t \<and> tk_Enqueued t' = tk_Enqueued t \<and> tk_Breaker t' = tk_Breaker t \<and>
     tk_Calls t' = tk_Calls t"

lemma core_inv_cong:
  assumes "tk_Disk t' = tk_Disk t" "tk_Segment t' = tk_Segment t" "tk_Seq t' = tk_Seq t"
  shows "core_inv boot now t' = core_inv boot now t"
  unfolding core_inv_def open_ok_def names_ok_def assms ..

lemma rest_held_cong:
  assumes "tk_Disk t' = tk_Disk t" "tk_Segment t' = tk_Segment t" "tk_Calls t' = tk_Calls t"
  shows "rest_held s t' = rest_held s t" "rest_held t' s = rest_held t s"
  unfolding rest_held_def open_name_def assms by auto

lemma rest_kept_cong:
  assumes "tk_Disk t' = tk_Disk t" "tk_Segment t' = tk_Segment t" "tk_Calls t' = tk_Calls t"
  shows "rest_kept s t' = rest_kept s t" "rest_kept t' s = rest_kept t s"
  unfolding rest_kept_def open_name_def assms by auto

lemma disk_ok_update:
  assumes "disk_ok d" "\<And>b. b \<noteq> fst p \<Longrightarrow> map_of d (b, snd p) = None"
  shows "disk_ok (AList.update p f d)"
proof -
  have "one_place (AList.update p f d)" unfolding one_place_def
  proof (intro allI impI)
    fix n a b assume *: "map_of (AList.update p f d) (a, n) \<noteq> None" "map_of (AList.update p f d) (b, n) \<noteq> None" "is_segment n"
    show "a = b"
    proof (cases "n = snd p")
      case True
      then have "x = fst p" if "map_of (AList.update p f d) (x, n) \<noteq> None" for x
        using that assms(2) [of x] by (cases p) (auto simp: update_conv' split: if_splits)
      with * show ?thesis by metis
    next
      case False
      then have "map_of (AList.update p f d) (x, n) = map_of d (x, n)" for x by (cases p) (auto simp: update_conv')
      with * assms(1) show ?thesis by (auto simp: disk_ok_def one_place_def)
    qed
  qed
  with assms(1) show ?thesis by (simp add: disk_ok_def distinct_update)
qed

lemma update_elsewhere:
  assumes "p = (a, n)" "m \<noteq> n"
  shows "holds (AList.update p f d) m c = holds d m c" "has_name (AList.update p f d) m = has_name d m"
  using assms by (auto simp: holds_def has_name_def seg_at_def update_conv')

lemma Write_path: "Segment_Write mar flt s rec = (e, s') \<Longrightarrow> sg_Path s' = sg_Path s \<and> sg_Closed s' = sg_Closed s \<and>
    (sg_Records s = int (length (sg_Written s)) \<longrightarrow> sg_Records s' = int (length (sg_Written s')))"
  by (auto simp: Segment_Write_def split: if_splits option.splits)

lemma names_ok_mono:
  "names_ok boot now t \<Longrightarrow> now \<le> now' \<Longrightarrow> tk_Seq t \<le> tk_Seq t' \<Longrightarrow>
   (\<And>n. is_segment n \<Longrightarrow> has_name (tk_Disk t') n \<Longrightarrow> has_name (tk_Disk t) n) \<Longrightarrow> names_ok boot now' t'"
  unfolding names_ok_def by (meson order_trans)

lemma writeRecord_inv:
  assumes inv: "core_inv boot now t" and ts: "0 \<le> boot" "boot \<le> now" "now \<le> now'"
    and w: "writeRecord opts flt now' rec t = (e, t')"
  shows "core_inv boot now' t' \<and> rest_held t t' \<and> drain_frame t t' \<and> tk_Written t' = tk_Written t \<and>
    tk_WriteErrors t' = tk_WriteErrors t"
proof (cases "tk_Segment t")
  case (Some s)
  obtain e1 s' where sw: "Segment_Write (to_Marshal opts) flt s rec = (e1, s')" by fastforce
  from w Some sw have t': "t' = t\<lparr>tk_Segment := Some s'\<rparr>" by (simp add: writeRecord_def)
  note p = Write_path [OF sw]
  have "names_ok boot now' t'" using inv ts names_ok_mono [of boot now t now' t'] by (simp add: core_inv_def t')
  with p inv Some show ?thesis
    by (auto simp: t' core_inv_def open_ok_def rest_held_def drain_frame_def open_name_def)
next
  case None
  let ?n = "segmentFilename now' (tk_Seq t + 1)"
  let ?p = "(DirActive, ?n)"
  let ?t1 = "t\<lparr>tk_Seq := tk_Seq t + 1\<rparr>"
  have nm: "names_ok boot now' ?t1"
    using inv ts names_ok_mono [of boot now t now' ?t1] by (simp add: core_inv_def)
  have fr: "\<not> has_name (tk_Disk t) ?n" using fresh_name [of boot now t now'] inv ts by (simp add: core_inv_def)
  obtain r d where o: "OpenSegment flt DirActive (tk_Seq t + 1) now' (tk_Disk t) = (r, d)" by fastforce
  show ?thesis
  proof (cases r)
    case (Inl x)
    with o have "d = tk_Disk t" by (auto simp: OpenSegment_def Let_def split: option.splits if_splits)
    with w None Inl o have "t' = ?t1" by (simp add: writeRecord_def)
    with inv None nm show ?thesis
      by (auto simp: core_inv_def open_ok_def rest_held_def drain_frame_def open_name_def)
  next
    case (Inr s)
    with o have d: "d = AList.update ?p (SegmentFile False []) (tk_Disk t)"
      and s: "sg_Path s = ?p" "\<not> sg_Closed s" "sg_Records s = 0" "sg_Written s = []"
      by (auto simp: OpenSegment_def Let_def split: option.splits if_splits)
    obtain e1 s' where sw: "Segment_Write (to_Marshal opts) flt s rec = (e1, s')" by fastforce
    with w None Inr o have t': "t' = ?t1\<lparr>tk_Disk := d, tk_Segment := Some s'\<rparr>" by (simp add: writeRecord_def)
    note p = Write_path [OF sw]
    have "disk_ok d" unfolding d
      by (rule disk_ok_update) (use inv fr in \<open>auto simp: core_inv_def has_name_def\<close>)
    moreover have "open_ok t'" using p s by (simp add: t' open_ok_def d update_conv')
    moreover have "names_ok boot now' t'" unfolding names_ok_def
    proof (intro allI impI)
      fix m assume m: "is_segment m" "has_name (tk_Disk t') m"
      show "\<exists>ns seq. m = segmentFilename ns seq \<and> 0 \<le> ns \<and> (ns < boot \<or> ns \<le> now' \<and> seq \<le> tk_Seq t')"
      proof (cases "m = ?n")
        case True
        with ts show ?thesis by (intro exI [of _ now'] exI [of _ "tk_Seq t + 1"]) (simp add: t')
      next
        case False
        have "has_name d m = has_name (tk_Disk t) m" unfolding d by (rule update_elsewhere(2) [OF refl False])
        with m nm show ?thesis by (simp add: names_ok_def t')
      qed
    qed
    moreover have "rest_held t t'" unfolding rest_held_def
    proof (rule conjI; (intro allI impI)?)
      fix m c assume h: "holds (tk_Disk t) m c" "\<not> open_name t m"
      then have "has_name (tk_Disk t) m"
        by (auto simp: holds_def has_name_def seg_at_def split: if_splits option.splits)
      with fr have ne: "m \<noteq> ?n" by auto
      have "holds d m c = holds (tk_Disk t) m c" unfolding d by (rule update_elsewhere(1) [OF refl ne])
      with h p s ne show "\<not> open_name t' m \<and> holds (tk_Disk t') m c"
        by (simp add: t' open_name_def)
    qed (simp add: t')
    ultimately show ?thesis by (simp add: core_inv_def t' drain_frame_def)
  qed
qed

lemma handleRecord_inv:
  assumes "core_inv boot now t" "0 \<le> boot" "boot \<le> now" "now \<le> now'"
  shows "core_inv boot now' (handleRecord opts flt now' rec t) \<and> rest_held t (handleRecord opts flt now' rec t) \<and>
    drain_frame t (handleRecord opts flt now' rec t) \<and>
    tk_Written (handleRecord opts flt now' rec t) + tk_WriteErrors (handleRecord opts flt now' rec t) =
      Suc (tk_Written t + tk_WriteErrors t)"
proof -
  obtain e t' where w: "writeRecord opts flt now' rec t = (e, t')" by fastforce
  let ?e = "t'\<lparr>tk_WriteErrors := tk_WriteErrors t' + 1\<rparr>" and ?w = "t'\<lparr>tk_Written := tk_Written t' + 1\<rparr>"
  have "core_inv boot now' ?e = core_inv boot now' t'" "core_inv boot now' ?w = core_inv boot now' t'"
    by (rule core_inv_cong; simp)+
  moreover have "rest_held t ?e = rest_held t t'" "rest_held t ?w = rest_held t t'"
    by (rule rest_held_cong; simp)+
  ultimately show ?thesis using writeRecord_inv [OF assms w] w
    by (cases e) (simp_all add: handleRecord_def drain_frame_def)
qed

text \<open>Sealing only touches the name of the open segment, and keeps what was written to it.\<close>

definition only_name :: "string \<Rightarrow> disk \<Rightarrow> disk \<Rightarrow> bool" where
  "only_name n d d' \<longleftrightarrow> disk_ok d' \<and>
     (\<forall>m. m \<noteq> n \<longrightarrow> is_segment m \<longrightarrow> (\<forall>a. map_of d' (a, m) = map_of d (a, m)))"

lemma only_name_trans: "only_name n a b \<Longrightarrow> only_name n b c \<Longrightarrow> only_name n a c"
  by (simp add: only_name_def)

lemma only_name_holds: "only_name n d d' \<Longrightarrow> m \<noteq> n \<Longrightarrow> holds d' m c = holds d m c"
  by (cases "is_segment m") (simp_all add: only_name_def holds_def seg_at_def)

lemma only_name_has: "only_name n d d' \<Longrightarrow> m \<noteq> n \<Longrightarrow> is_segment m \<Longrightarrow> has_name d' m = has_name d m"
  by (simp add: only_name_def has_name_def)

lemma same_holdingsD: "same_holdings d d' \<Longrightarrow> holds d' n c = holds d n c"
  unfolding same_holdings_def by blast

lemma transition_only:
  assumes "disk_ok d" "seg_transition flt (from, n) from to d = (r, d')"
  shows "only_name n d d'"
proof -
  obtain q e where r: "r = (q, e)" by fastforce
  from transition_map [OF assms(2) [unfolded r]] transition_disk_ok [OF assms]
  show ?thesis by (auto simp: only_name_def moved_def)
qed

lemma Close_result:
  "\<not> sg_Closed s \<Longrightarrow> \<exists>s'. Segment_Close flt s d = (if io_Close flt then Some (ErrOS EOTHER) else None, s',
     AList.update (sg_Path s) (SegmentFile (\<not> io_Close flt) (sg_Written s)) d) \<and> sg_Path s' = sg_Path s"
  by (simp add: Segment_Close_def)

lemma update_only:
  assumes "disk_ok d" "map_of d (a, n) \<noteq> None" "is_segment n"
  shows "only_name n d (AList.update (a, n) f d)"
proof -
  have "disk_ok (AList.update (a, n) f d)"
    by (rule disk_ok_update [OF assms(1)]) (use assms one_placeD in \<open>auto simp: disk_ok_def\<close>)
  then show ?thesis by (auto simp: only_name_def update_conv')
qed

lemma remove_only:
  assumes "disk_ok d"
  shows "only_name n d (snd (os_remove f (a, n) d))"
proof -
  obtain e d' where r: "os_remove f (a, n) d = (e, d')" by fastforce
  from os_remove_map [OF r] have m: "map_of d' p = map_of d p \<or> p = (a, n) \<and> map_of d' p = None" for p
    by (auto split: if_splits)
  have "one_place d'" unfolding one_place_def
  proof (intro allI impI)
    fix k x y assume *: "map_of d' (x, k) \<noteq> None" "map_of d' (y, k) \<noteq> None" "is_segment k"
    with m [of "(x, k)"] m [of "(y, k)"] have "map_of d (x, k) \<noteq> None" "map_of d (y, k) \<noteq> None" by auto
    with * assms show "x = y" by (auto simp: disk_ok_def one_place_def)
  qed
  moreover have "map_of d' (b, k) = map_of d (b, k)" if "k \<noteq> n" for b k using m [of "(b, k)"] that by auto
  ultimately show ?thesis using os_remove_distinct [OF r] assms r by (auto simp: only_name_def disk_ok_def)
qed

lemma writeMeta_only: "disk_ok d \<Longrightarrow> only_name n d (snd (writeSegmentMeta flt p m d))"
proof -
  assume ok: "disk_ok d"
  note s = writeSegmentMeta_segments [of d flt p m]
  have "disk_ok (snd (writeSegmentMeta flt p m d))"
    using same_segments_kept [OF s] writeSegmentMeta_distinct ok by (simp add: disk_ok_def)
  moreover have "map_of (snd (writeSegmentMeta flt p m d)) (a, k) = map_of d (a, k)" if "is_segment k" for a k
    using s that by (simp add: same_segments_def)
  ultimately show ?thesis by (simp add: only_name_def)
qed

lemma sealCurrent_spec:
  assumes ok: "disk_ok (tk_Disk t)" "open_ok t" and s: "tk_Segment t = Some s" "sg_Path s = (DirActive, n)"
    and seal: "sealCurrent flt t = (e, t')"
  shows "only_name n (tk_Disk t) (tk_Disk t')"
    and "tk_Segment t' = None" "drain_frame t t'" "tk_Seq t' = tk_Seq t"
    and "tk_Written t' = tk_Written t" "tk_WriteErrors t' = tk_WriteErrors t"
    and "sg_Written s \<noteq> [] \<Longrightarrow> holds (tk_Disk t') n (\<not> io_Close flt, sg_Written s)"
proof -
  from ok(2) s have o: "\<not> sg_Closed s" "map_of (tk_Disk t) (DirActive, n) \<noteq> None" "is_segment n"
    "sg_Records s = int (length (sg_Written s))" by (auto simp: open_ok_def)
  let ?d1 = "AList.update (DirActive, n) (SegmentFile (\<not> io_Close flt) (sg_Written s)) (tk_Disk t)"
  from Close_result [OF o(1), of flt "tk_Disk t"] s(2) obtain s' where c: "Segment_Close flt s (tk_Disk t) =
     (if io_Close flt then Some (ErrOS EOTHER) else None, s', ?d1)" "sg_Path s' = (DirActive, n)" by auto
  note u = update_only [OF ok(1) o(2,3), of "SegmentFile (\<not> io_Close flt) (sg_Written s)"]
  then have ok1: "disk_ok ?d1" by (simp add: only_name_def)
  have h1: "holds ?d1 n (\<not> io_Close flt, sg_Written s)"
    unfolding holds_def by (rule exI [of _ DirActive]) (use o(3) in \<open>simp add: seg_at_def update_conv'\<close>)
  let ?d2 = "snd (writeSegmentMeta flt (DirActive, n) (segment_stats s) ?d1)"
  note w = writeMeta_only [OF ok1, of n flt "(DirActive, n)" "segment_stats s"]
  then have ok2: "disk_ok ?d2" by (simp add: only_name_def)
  obtain r d3 where tr: "seg_transition flt (DirActive, n) DirActive DirSealed ?d2 = (r, d3)" by fastforce
  have h2: "holds ?d2 n c = holds ?d1 n c" for c
    using same_segments_kept [OF writeSegmentMeta_segments [of ?d1 flt "(DirActive, n)" "segment_stats s"]] ok1
    by (simp add: disk_ok_def same_holdingsD)
  have h3: "holds d3 n c = holds ?d2 n c" for c
    using transition_disk_ok [OF ok2 tr] by (simp add: same_holdingsD)
  have "only_name n (tk_Disk t) (tk_Disk t') \<and> tk_Segment t' = None \<and> drain_frame t t' \<and> tk_Seq t' = tk_Seq t \<and>
    tk_Written t' = tk_Written t \<and> tk_WriteErrors t' = tk_WriteErrors t \<and>
    (sg_Written s \<noteq> [] \<longrightarrow> holds (tk_Disk t') n (\<not> io_Close flt, sg_Written s))"
  proof (cases "io_Close flt")
    case True
    with seal s c have "t' = t\<lparr>tk_Segment := None, tk_Disk := ?d1\<rparr>" by (simp add: sealCurrent_def Let_def)
    with u h1 show ?thesis by (simp add: drain_frame_def)
  next
    case False
    show ?thesis
    proof (cases "sg_Records s = 0")
      case True
      with False seal s c have "t' = t\<lparr>tk_Segment := None, tk_Disk := snd (os_remove (io_Remove flt) (DirActive, n) ?d1)\<rparr>"
        by (simp add: sealCurrent_def Let_def segment_stats_def)
      with only_name_trans [OF u remove_only [OF ok1]] True o(4) show ?thesis by (simp add: drain_frame_def)
    next
      case nz: False
      with False seal s c tr have "tk_Disk t' = d3 \<and> tk_Segment t' = None \<and> drain_frame t t' \<and> tk_Seq t' = tk_Seq t \<and>
        tk_Written t' = tk_Written t \<and> tk_WriteErrors t' = tk_WriteErrors t"
        by (auto simp: sealCurrent_def Let_def segment_stats_def Seal_def drain_frame_def split: prod.splits option.splits)
      with only_name_trans [OF only_name_trans [OF u w] transition_only [OF ok2 tr]] h1 h2 h3 show ?thesis by simp
    qed
  qed
  then show "only_name n (tk_Disk t) (tk_Disk t')"
    "tk_Segment t' = None" "drain_frame t t'" "tk_Seq t' = tk_Seq t"
    "tk_Written t' = tk_Written t" "tk_WriteErrors t' = tk_WriteErrors t"
    "sg_Written s \<noteq> [] \<Longrightarrow> holds (tk_Disk t') n (\<not> io_Close flt, sg_Written s)" by auto
qed

lemma sealCurrent_inv:
  assumes inv: "core_inv boot now t"
  shows "core_inv boot now (snd (sealCurrent flt t)) \<and> rest_held t (snd (sealCurrent flt t)) \<and>
    drain_frame t (snd (sealCurrent flt t)) \<and> tk_Written (snd (sealCurrent flt t)) = tk_Written t \<and>
    tk_WriteErrors (snd (sealCurrent flt t)) = tk_WriteErrors t"
proof (cases "tk_Segment t")
  case None
  with inv show ?thesis by (simp add: sealCurrent_def drain_frame_def)
next
  case (Some s)
  from inv have ok: "disk_ok (tk_Disk t)" "open_ok t" by (auto simp: core_inv_def)
  obtain n where n: "sg_Path s = (DirActive, n)" using ok(2) Some by (cases "sg_Path s") (auto simp: open_ok_def)
  obtain e t' where seal: "sealCurrent flt t = (e, t')" by fastforce
  note sp = sealCurrent_spec [OF ok Some n seal]
  have has: "has_name (tk_Disk t) n" using ok(2) Some n by (auto simp: open_ok_def has_name_def)
  have "names_ok boot now t'"
  proof (rule names_ok_mono [of boot now t now t'])
    fix m assume "is_segment m" "has_name (tk_Disk t') m"
    with has only_name_has [OF sp(1)] show "has_name (tk_Disk t) m" by (cases "m = n") auto
  qed (use inv sp(4) in \<open>auto simp: core_inv_def\<close>)
  moreover have "rest_held t t'" unfolding rest_held_def
  proof (rule conjI; (intro allI impI)?)
    fix m c assume h: "holds (tk_Disk t) m c" "\<not> open_name t m"
    then have "m \<noteq> n" using Some n by (auto simp: open_name_def)
    with h(1) only_name_holds [OF sp(1)] sp(2)
    show "\<not> open_name t' m \<and> holds (tk_Disk t') m c" by (simp add: open_name_def)
  qed (use sp(3) in \<open>simp add: drain_frame_def\<close>)
  ultimately show ?thesis using sp seal by (simp add: core_inv_def open_ok_def only_name_def)
qed

subsection \<open>Every step\<close>

lemma ring_step: "drain_frame t t' \<Longrightarrow> tk_Written t' = tk_Written t \<Longrightarrow> tk_WriteErrors t' = tk_WriteErrors t \<Longrightarrow>
    ring_ok opts t \<Longrightarrow> ring_ok opts t'"
  by (simp add: ring_ok_def drain_frame_def)

lemma drain_frame_trans: "drain_frame a b \<Longrightarrow> drain_frame b c \<Longrightarrow> drain_frame a c"
  by (simp add: drain_frame_def)

lemma drain_one_step:
  assumes inv: "core_inv boot now t" "ring_ok opts t" and ts: "0 \<le> boot" "boot \<le> now" "now \<le> now'"
  shows "core_inv boot now' (drain_one opts flt now' t) \<and> rest_held t (drain_one opts flt now' t) \<and>
    ring_ok opts (drain_one opts flt now' t) \<and> tk_Breaker (drain_one opts flt now' t) = tk_Breaker t"
proof (cases "tk_Queue t")
  case Nil
  have "core_inv boot now' t" using inv ts names_ok_mono [of boot now t now' t] by (simp add: core_inv_def)
  with Nil inv show ?thesis by (simp add: drain_one_def)
next
  case (Cons rec rest)
  let ?t0 = "t\<lparr>tk_Queue := rest\<rparr>"
  let ?t1 = "handleRecord opts flt now' rec ?t0"
  have c0: "core_inv boot now ?t0" using inv(1) core_inv_cong [of ?t0 t boot now] by simp
  have k0: "rest_held t x = rest_held ?t0 x" for x by (rule rest_held_cong(2); simp)
  note h = handleRecord_inv [OF c0 ts, of opts flt rec]
  then have r1: "ring_ok opts ?t1" using inv(2) Cons by (auto simp: ring_ok_def drain_frame_def)
  from h have c1: "core_inv boot now' ?t1" by simp
  note s = sealCurrent_inv [OF c1, of flt]
  have "ring_ok opts (snd (sealCurrent flt ?t1))" using s r1 ring_step by blast
  with h s r1 k0 rest_held_trans show ?thesis
    by (auto simp: drain_one_def Cons Let_def drain_frame_def)
qed

lemma drainQueue_step:
  "core_inv boot now t \<Longrightarrow> ring_ok opts t \<Longrightarrow> 0 \<le> boot \<Longrightarrow> boot \<le> now \<Longrightarrow> tk_Queue t = q \<Longrightarrow>
   core_inv boot now (drainQueue opts flts now q t) \<and> rest_held t (drainQueue opts flts now q t) \<and>
   ring_ok opts (drainQueue opts flts now q t) \<and> tk_Breaker (drainQueue opts flts now q t) = tk_Breaker t"
proof (induction q arbitrary: t)
  case Nil
  have "core_inv boot now (t\<lparr>tk_Queue := []\<rparr>) = core_inv boot now t" by (rule core_inv_cong; simp)
  moreover have "rest_held t (t\<lparr>tk_Queue := []\<rparr>) = rest_held t t" by (rule rest_held_cong(1); simp)
  ultimately show ?case using Nil by (simp add: ring_ok_def)
next
  case (Cons rec rest)
  let ?t0 = "t\<lparr>tk_Queue := rest\<rparr>"
  let ?t1 = "handleRecord opts (flts (length rest)) now rec ?t0"
  have c0: "core_inv boot now ?t0" using Cons.prems(1) core_inv_cong [of ?t0 t boot now] by simp
  have k0: "rest_held t x = rest_held ?t0 x" for x by (rule rest_held_cong(2); simp)
  note h = handleRecord_inv [OF c0 Cons.prems(3,4) order_refl, of opts "flts (length rest)" rec]
  then have r1: "ring_ok opts ?t1" using Cons.prems(2,5) by (auto simp: ring_ok_def drain_frame_def)
  from h have "tk_Queue ?t1 = rest" by (simp add: drain_frame_def)
  with Cons.IH [of ?t1] h r1 Cons.prems(3,4) k0 rest_held_trans show ?case by (auto simp: drain_frame_def)
qed

lemma upload_rest_kept:
  assumes c: "upload_contract t t'" and inv: "open_ok t"
  shows "rest_kept t t'"
  using c unfolding rest_kept_def upload_contract_def segments_kept_def same_drain_def open_name_def by auto

lemma upload_core:
  assumes c: "upload_contract t t'" and inv: "core_inv boot now t"
  shows "core_inv boot now t'"
proof -
  from c have sk: "segments_kept (tk_Disk t) (tk_Disk t') (tk_Calls t')"
    and sd: "tk_Segment t' = tk_Segment t" "tk_Seq t' = tk_Seq t"
    by (auto simp: upload_contract_def same_drain_def)
  have "open_ok t'"
  proof (cases "tk_Segment t")
    case (Some s)
    with inv sk sd show ?thesis by (cases "sg_Path s") (auto simp: core_inv_def open_ok_def segments_kept_def)
  qed (use sd in \<open>simp add: open_ok_def\<close>)
  moreover have "names_ok boot now t'"
  proof (rule names_ok_mono [of boot now t now t'])
    fix n assume "is_segment n" "has_name (tk_Disk t') n"
    with sk show "has_name (tk_Disk t) n" unfolding segments_kept_def has_name_def by blast
  qed (use inv sd in \<open>auto simp: core_inv_def\<close>)
  ultimately show ?thesis using sk by (simp add: core_inv_def segments_kept_def)
qed

lemma crash_only:
  assumes "core_inv boot now t"
  shows "disk_ok (crash_disk whole k t) \<and>
    (\<forall>n. \<not> open_name t n \<longrightarrow> (\<forall>c. holds (crash_disk whole k t) n c = holds (tk_Disk t) n c)) \<and>
    (\<forall>n. is_segment n \<longrightarrow> has_name (crash_disk whole k t) n \<longrightarrow> has_name (tk_Disk t) n)"
proof (cases "tk_Segment t")
  case None
  with assms show ?thesis by (simp add: crash_disk_def core_inv_def)
next
  case (Some s)
  then obtain n where n: "sg_Path s = (DirActive, n)" "is_segment n" "map_of (tk_Disk t) (DirActive, n) \<noteq> None"
    using assms by (cases "sg_Path s") (auto simp: core_inv_def open_ok_def)
  have ok: "disk_ok (tk_Disk t)" using assms by (simp add: core_inv_def)
  have u: "only_name n (tk_Disk t) (crash_disk whole k t)"
    unfolding crash_disk_def using update_only [OF ok n(3,2)] Some n(1) by simp
  have "has_name (tk_Disk t) m" if "is_segment m" "has_name (crash_disk whole k t) m" for m
  proof (cases "m = n")
    case True
    with n(3) show ?thesis unfolding has_name_def by blast
  qed (use only_name_has [OF u] that in simp)
  moreover have "m \<noteq> n" if "\<not> open_name t m" for m using that Some n by (auto simp: open_name_def)
  ultimately show ?thesis using u only_name_holds [OF u] by (auto simp: only_name_def)
qed

lemma restart_step:
  assumes inv: "core_inv boot now t" and ts: "0 \<le> boot" "boot \<le> now" "now < now'"
    and rec: "Recover env (crash_disk whole k t) = ((rep, None), d)"
  shows "track_inv opts (restarted opts d t, now', now') \<and> rest_kept t (restarted opts d t)"
proof -
  note c = crash_only [OF inv, of whole k]
  with Recover_kept [of "crash_disk whole k t" env] rec have ok: "disk_ok d" and same: "same_holdings (crash_disk whole k t) d"
    by auto
  have "names_ok now' now' (restarted opts d t)" unfolding names_ok_def
  proof (intro allI impI)
    fix n assume n: "is_segment n" "has_name (tk_Disk (restarted opts d t)) n"
    with same c have "has_name (tk_Disk t) n" by (auto simp: restarted_def newTrack_def same_holdings_def)
    with inv n(1) obtain ns seq where "n = segmentFilename ns seq" "0 \<le> ns" "ns < boot \<or> ns \<le> now"
      unfolding core_inv_def names_ok_def by blast
    with ts show "\<exists>ns seq. n = segmentFilename ns seq \<and> 0 \<le> ns \<and>
        (ns < now' \<or> ns \<le> now' \<and> seq \<le> tk_Seq (restarted opts d t))"
      by (intro exI [of _ ns] exI [of _ seq]) auto
  qed
  moreover have "rest_kept t (restarted opts d t)" unfolding rest_kept_def
  proof (intro conjI allI impI)
    fix n x assume "holds (tk_Disk t) n x" "\<not> open_name t n"
    with c same_holdingsD [OF same] have "holds d n x" by (cases x) simp
    then show "\<not> open_name (restarted opts d t) n \<and> holds (tk_Disk (restarted opts d t)) n x \<or>
        delivered (tk_Calls (restarted opts d t)) n x"
      by (simp add: restarted_def newTrack_def open_name_def)
  qed (simp add: restarted_def)
  ultimately show ?thesis
    using ok ts by (simp add: restarted_def newTrack_def open_ok_def ring_ok_def)
qed

lemma step_inv:
  assumes m: "1 \<le> rt_MaxAttempts (to_Retry opts)"
  shows "track_step opts s s' \<Longrightarrow> track_inv opts s \<Longrightarrow> track_inv opts s' \<and> rest_kept (fst s) (fst s')"
proof (induction rule: track_step.induct)
  case (step_enqueue t boot now rec)
  have "core_inv boot now (enqueue opts rec t) = core_inv boot now t"
    by (rule core_inv_cong; simp add: enqueue_def)
  moreover have "rest_kept t (enqueue opts rec t) = rest_kept t t"
    by (rule rest_kept_cong(1); simp add: enqueue_def)
  ultimately show ?case using step_enqueue by (auto simp: core_inv_def ring_ok_def enqueue_def)
next
  case (step_drain now now' t boot flt)
  then have "core_inv boot now t" "ring_ok opts t" "0 \<le> boot" "boot \<le> now" by (auto simp: core_inv_def)
  from drain_one_step [OF this step_drain(1), of flt] step_drain rest_held_kept show ?case by (auto simp: core_inv_def)
next
  case (step_seal t boot now flt)
  then have "core_inv boot now t" by (auto simp: core_inv_def)
  from sealCurrent_inv [OF this, of flt] step_seal rest_held_kept show ?case
    by (auto simp: core_inv_def drain_frame_def ring_ok_def)
next
  case (step_stop now now' t boot flt flts)
  have i: "core_inv boot now' t" "ring_ok opts t" "0 \<le> boot" "boot \<le> now'"
    using step_stop names_ok_mono [of boot now t now' t] by (auto simp: core_inv_def)
  let ?t1 = "drainQueue opts flts now' (tk_Queue t) t"
  note d = drainQueue_step [OF i refl, of flts]
  note s = sealCurrent_inv [of boot now' ?t1 flt]
  have r: "ring_ok opts (snd (sealCurrent flt ?t1))" using s d ring_step by blast
  have k: "rest_kept t (snd (sealCurrent flt ?t1))" using s d rest_held_trans rest_held_kept by blast
  from d s r k step_stop i show ?case by (auto simp: core_inv_def drain_frame_def)
next
  case (step_upload t boot now env)
  let ?t = "t\<lparr>tk_Kick := False\<rparr>"
  have c0: "core_inv boot now ?t" using step_upload core_inv_cong [of ?t t boot now] by (simp add: core_inv_def)
  have k0: "rest_kept t x = rest_kept ?t x" for x by (rule rest_kept_cong(2); simp)
  have c: "upload_contract ?t (attemptUploads opts env ?t)"
    by (rule attemptUploads_contract(1) [OF m]) (use step_upload in auto)
  have "ring_ok opts (attemptUploads opts env ?t)" using c step_upload
    by (simp add: upload_contract_def same_drain_def ring_ok_def)
  with upload_core [OF c c0] upload_rest_kept [OF c] c0 k0 c step_upload show ?case
    by (auto simp: core_inv_def upload_contract_def)
next
  case (step_restart now now' env whole k t rep d boot)
  then have "core_inv boot now t" "0 \<le> boot" "boot \<le> now" by (auto simp: core_inv_def)
  from restart_step [OF this step_restart(1,2), of opts] show ?case by simp
qed

lemma reach_inv:
  assumes m: "1 \<le> rt_MaxAttempts (to_Retry opts)"
  shows "track_reach opts s s' \<Longrightarrow> track_inv opts s \<Longrightarrow> track_inv opts s' \<and> rest_kept (fst s) (fst s')"
proof (induction rule: track_reach.induct)
  case (reach_step s s' s'')
  with step_inv [OF m reach_step(2)] rest_kept_trans show ?case by blast
qed simp

section \<open>Contracts of a track\<close>



lemma fresh_track_inv: "0 \<le> now \<Longrightarrow> track_inv opts (newTrack opts [], now, now)"
  by (simp add: newTrack_def disk_ok_def one_place_def open_ok_def names_ok_def has_name_def ring_ok_def)

definition busy_run :: "track" where
  "busy_run = attemptUploads sample_opts failing_scan
     ((snd (sealCurrent no_faults (drain_one sample_opts no_faults 6 (enqueue sample_opts sample_record (newTrack sample_opts [])))))\<lparr>tk_Kick := False\<rparr>)"

lemma busy_reach: "track_reach sample_opts (newTrack sample_opts [], 5, 5) (busy_run, 5, 6)"
  unfolding busy_run_def
  by (rule reach_step [OF reach_step [OF reach_step [OF reach_step [OF reach_refl step_enqueue] step_drain] step_seal] step_upload]) simp


definition sealed_run :: track where
  "sealed_run = snd (sealCurrent no_faults (drain_one sample_opts no_faults 6 (enqueue sample_opts sample_record (newTrack sample_opts []))))"


section \<open>The spool\<close>

datatype spool_call_error = ErrConnectorRequired | ErrNameEmpty | ErrAlreadyRegistered | ErrManager
  | ErrRecover spool_error | ErrUnknownTrack | ErrTrackStopTimeout | ErrAlreadyStarted

text \<open>
  \<open>sp_Disks\<close> is the content of the directories of the names that have no track. A registration option
  without a connector has no name.
\<close>

record spool =
  sp_Root :: string
  sp_Started :: bool
  sp_Tracks :: "(track_opts \<times> track) gomap"
  sp_Unrouted :: "nat gomap"
  sp_Disks :: "string \<Rightarrow> disk"

record register_opts =
  rg_Connector :: "string option"
  rg_QueueSize :: int
  rg_Rotation :: rotation_opts
  rg_Retry :: retry_opts
  rg_Breaker :: breaker_opts
  rg_Marshal :: "connector_record \<Rightarrow> string option"
  rg_Size :: "disk_file \<Rightarrow> int"
  rg_Scale :: "int \<Rightarrow> int"

definition new_spool :: "string \<Rightarrow> (string \<Rightarrow> disk) \<Rightarrow> spool option" where
  "new_spool dir disks =
     (if dir = [] then None
      else Some \<lparr>sp_Root = dir, sp_Started = False, sp_Tracks = [], sp_Unrouted = [], sp_Disks = disks\<rparr>)"

definition defaultQueueSize :: int where
  "defaultQueueSize = 10000"

definition track_options :: "spool \<Rightarrow> register_opts \<Rightarrow> string \<Rightarrow> track_opts" where
  "track_options s ro name =
     \<lparr>to_Root = sp_Root s @ ''/records/'' @ name, to_Name = name,
      to_QueueSize = nat (if rg_QueueSize ro \<le> 0 then defaultQueueSize else rg_QueueSize ro),
      to_Rotation = rotation_withDefaults (rg_Rotation ro), to_Retry = retry_withDefaults (rg_Retry ro),
      to_Breaker = breaker_withDefaults (rg_Breaker ro), to_Marshal = rg_Marshal ro, to_Size = rg_Size ro,
      to_Scale = rg_Scale ro\<rparr>"

text \<open>
  \<^verbatim>\<open>RegisterTrack\<close> reads the spool under its lock, prepares the track without it, and takes the lock again
  to insert the track: \<open>register_begin\<close> and \<open>register_commit\<close>.
\<close>

definition register_begin ::
  "bool \<Rightarrow> recover_env \<Rightarrow> register_opts \<Rightarrow> spool \<Rightarrow> spool_call_error + string \<times> track_opts \<times> track" where
  "register_begin mkdirOK env ro s =
     (case rg_Connector ro of
        None \<Rightarrow> Inl ErrConnectorRequired
      | Some name \<Rightarrow>
          if name = [] then Inl ErrNameEmpty
          else if map_of (sp_Tracks s) name \<noteq> None then Inl ErrAlreadyRegistered
          else if \<not> mkdirOK then Inl ErrManager
          else let opts = track_options s ro name; t = newTrack opts (sp_Disks s name)
               in if sp_Started s
                  then (case Recover env (tk_Disk t) of
                          ((_, Some e), d) \<Rightarrow> Inl (ErrRecover e)
                        | ((_, None), d) \<Rightarrow> Inr (name, opts, t\<lparr>tk_Disk := d\<rparr>))
                  else Inr (name, opts, t))"

definition track_start :: "track \<Rightarrow> track" where
  "track_start t = t\<lparr>tk_Kick := True\<rparr>"

definition register_commit :: "string \<times> track_opts \<times> track \<Rightarrow> spool \<Rightarrow> spool_call_error option \<times> spool" where
  "register_commit nt s =
     (case nt of (name, opts, t) \<Rightarrow>
        if map_of (sp_Tracks s) name \<noteq> None then (Some ErrAlreadyRegistered, s)
        else (None, s\<lparr>sp_Tracks := AList.update name (opts, if sp_Started s then track_start t else t) (sp_Tracks s)\<rparr>))"

definition RegisterTrack :: "bool \<Rightarrow> recover_env \<Rightarrow> register_opts \<Rightarrow> spool \<Rightarrow> spool_call_error option \<times> spool" where
  "RegisterTrack mkdirOK env ro s =
     (case register_begin mkdirOK env ro s of Inl e \<Rightarrow> (Some e, s) | Inr nt \<Rightarrow> register_commit nt s)"

text \<open>
  A graceful stop drains the ring, seals, and lets the goroutines end; \<open>joined\<close> tells whether the first
  and the second wait saw them end.
\<close>

record stop_env =
  se_Joined :: "bool \<times> bool"
  se_Faults :: "nat \<Rightarrow> io_faults"
  se_Seal :: io_faults
  se_Now :: int

definition track_stop :: "stop_env \<Rightarrow> track_opts \<Rightarrow> track \<Rightarrow> track" where
  "track_stop env opts t = snd (sealCurrent (se_Seal env) (drainQueue opts (se_Faults env) (se_Now env) (tk_Queue t) t))"

definition UnregisterTrack :: "stop_env \<Rightarrow> string \<Rightarrow> spool \<Rightarrow> spool_call_error option \<times> spool" where
  "UnregisterTrack env name s =
     (case map_of (sp_Tracks s) name of
        None \<Rightarrow> (Some ErrUnknownTrack, s)
      | Some (opts, t) \<Rightarrow>
          (let s1 = s\<lparr>sp_Tracks := AList.delete name (sp_Tracks s)\<rparr>
           in if \<not> sp_Started s then (None, s1\<lparr>sp_Disks := (sp_Disks s)(name := tk_Disk t)\<rparr>)
              else if fst (se_Joined env) \<or> snd (se_Joined env)
                then (None, s1\<lparr>sp_Disks := (sp_Disks s)(name := tk_Disk (track_stop env opts t))\<rparr>)
              else (Some ErrTrackStopTimeout, s1\<lparr>sp_Disks := (sp_Disks s)(name := tk_Disk t)\<rparr>)))"

fun recover_tracks ::
  "(string \<Rightarrow> recover_env) \<Rightarrow> (track_opts \<times> track) gomap \<Rightarrow> spool_error option \<times> (track_opts \<times> track) gomap" where
  "recover_tracks env [] = (None, [])"
| "recover_tracks env ((name, opts, t) # rest) =
     (case Recover (env name) (tk_Disk t) of
        ((_, Some e), d) \<Rightarrow> (Some e, (name, opts, t\<lparr>tk_Disk := d\<rparr>) # rest)
      | ((_, None), d) \<Rightarrow>
          (case recover_tracks env rest of (r, rest') \<Rightarrow> (r, (name, opts, t\<lparr>tk_Disk := d\<rparr>) # rest')))"

definition Start :: "(string \<Rightarrow> recover_env) \<Rightarrow> spool \<Rightarrow> spool_call_error option \<times> spool" where
  "Start env s =
     (if sp_Started s then (Some ErrAlreadyStarted, s)
      else case recover_tracks env (sp_Tracks s) of
        (Some e, ts) \<Rightarrow> (Some (ErrRecover e), s\<lparr>sp_Tracks := ts\<rparr>)
      | (None, ts) \<Rightarrow> (None, s\<lparr>sp_Started := True, sp_Tracks := map (\<lambda>(n, opts, t). (n, opts, track_start t)) ts\<rparr>))"

text \<open>Shutdown: every track is stopped; the tracks stay in the map.\<close>

definition spool_Stop :: "(string \<Rightarrow> stop_env) \<Rightarrow> spool \<Rightarrow> bool \<times> spool" where
  "spool_Stop env s =
     (list_all (\<lambda>nt. fst (se_Joined (env (fst nt)))) (sp_Tracks s),
      s\<lparr>sp_Tracks := map (\<lambda>(n, opts, t). (n, opts, if fst (se_Joined (env n)) then track_stop (env n) opts t else t))
           (sp_Tracks s)\<rparr>)"

definition count_of :: "nat gomap \<Rightarrow> string \<Rightarrow> nat" where
  "count_of m name = (case map_of m name of None \<Rightarrow> 0 | Some k \<Rightarrow> k)"

definition spool_enqueue_one :: "connector_record \<Rightarrow> string \<Rightarrow> spool \<Rightarrow> spool" where
  "spool_enqueue_one rec name s =
     (case map_of (sp_Tracks s) name of
        Some (opts, t) \<Rightarrow> s\<lparr>sp_Tracks := AList.update name (opts, enqueue opts rec t) (sp_Tracks s)\<rparr>
      | None \<Rightarrow> s\<lparr>sp_Unrouted := AList.update name (count_of (sp_Unrouted s) name + 1) (sp_Unrouted s)\<rparr>)"

fun spool_Enqueue :: "connector_record \<Rightarrow> string list \<Rightarrow> spool \<Rightarrow> spool" where
  "spool_Enqueue rec [] s = s"
| "spool_Enqueue rec (name # names) s = spool_Enqueue rec names (spool_enqueue_one rec name s)"

definition TrackNames :: "spool \<Rightarrow> string list" where
  "TrackNames s = sort (map fst (sp_Tracks s))"

definition spool_Stats :: "(string \<Rightarrow> os_errno option) \<Rightarrow> spool \<Rightarrow> track_stats gomap \<times> nat gomap" where
  "spool_Stats faults s = (map (\<lambda>(n, opts, t). (n, track_Stats (faults n) t)) (sp_Tracks s), sp_Unrouted s)"

section \<open>Contracts of the spool\<close>

text \<open>What happened to the records sent to a name.\<close>

definition name_total :: "spool \<Rightarrow> string \<Rightarrow> nat" where
  "name_total s name =
     (case map_of (sp_Tracks s) name of Some (opts, t) \<Rightarrow> tk_Enqueued t + tk_DroppedRing t | None \<Rightarrow> 0) +
     count_of (sp_Unrouted s) name"

lemma enqueue_one_total: "name_total (spool_enqueue_one rec name s) m = name_total s m + (if m = name then 1 else 0)"
  by (cases "map_of (sp_Tracks s) name")
    (auto simp: name_total_def spool_enqueue_one_def enqueue_def count_of_def update_conv' split: option.split)

text \<open>
  Enqueue loses no record silently: for every name, the records accepted, dropped at a full ring and
  counted as unrouted grow by exactly the number of times the name was given.
\<close>

theorem enqueue_counts_every_record:
  "name_total (spool_Enqueue rec names s) m = name_total s m + count_list names m"
  by (induction names arbitrary: s) (simp_all add: enqueue_one_total)

text \<open>
  A live edit keeps the backlog: after an unregistration that joined the goroutines and a
  registration under the same name, every segment that was at rest, and the open one with the records
  of the ring, is on the disk of the new track; nothing of it is left in \<^verbatim>\<open>uploading/\<close> or \<^verbatim>\<open>active/\<close>.
\<close>

theorem live_edit_keeps_backlog:
  assumes "sp_Started s" "map_of (sp_Tracks s) name = Some (opts, t)" "distinct (map fst (sp_Tracks s))"
    and "track_inv opts (t, boot, now)" "now \<le> se_Now senv" "fst (se_Joined senv) \<or> snd (se_Joined senv)"
    and "UnregisterTrack senv name s = (e1, s1)" "rg_Connector ro = Some name"
    and "RegisterTrack True env ro s1 = (None, s2)"
  shows "\<exists>t'. map_of (sp_Tracks s2) name = Some (track_options s1 ro name, t') \<and>
    (\<forall>n c. holds (tk_Disk t) n c \<longrightarrow> \<not> open_name t n \<longrightarrow> holds (tk_Disk t') n c) \<and>
    names_in (tk_Disk t') DirUploading = {} \<and> names_in (tk_Disk t') DirActive = {}"
proof -
  let ?t1 = "track_stop senv opts t"
  have s1: "s1 = s\<lparr>sp_Tracks := AList.delete name (sp_Tracks s), sp_Disks := (sp_Disks s)(name := tk_Disk ?t1)\<rparr>"
    using assms(1,2,6,7) by (auto simp: UnregisterTrack_def Let_def)
  have "map_of (sp_Tracks s1) name = None" by (simp add: s1 delete_conv')
  with assms(1,8,9) obtain rep d where r: "Recover env (tk_Disk ?t1) = ((rep, None), d)"
    and s2: "map_of (sp_Tracks s2) name = Some (track_options s1 ro name,
      track_start ((newTrack (track_options s1 ro name) (tk_Disk ?t1))\<lparr>tk_Disk := d\<rparr>))"
    by (auto simp: RegisterTrack_def register_begin_def register_commit_def s1 newTrack_def Let_def update_conv'
          split: if_splits prod.splits option.splits)
  have i: "core_inv boot (se_Now senv) t" "ring_ok opts t" "0 \<le> boot" "boot \<le> se_Now senv"
    using assms(4,5) names_ok_mono [of boot now t "se_Now senv" t] by (auto simp: core_inv_def)
  note dr = drainQueue_step [OF i refl, of "se_Faults senv"]
  define t0 where "t0 = drainQueue opts (se_Faults senv) (se_Now senv) (tk_Queue t) t"
  from dr have c0: "core_inv boot (se_Now senv) t0" and k0: "rest_held t t0" by (simp_all add: t0_def)
  note se = sealCurrent_inv [OF c0, of "se_Seal senv"]
  have t1: "?t1 = snd (sealCurrent (se_Seal senv) t0)" by (simp add: track_stop_def t0_def)
  have ok: "disk_ok (tk_Disk ?t1)" and k1: "rest_held t ?t1" using se k0 rest_held_trans t1 by (auto simp: core_inv_def)
  show ?thesis
  proof (intro exI conjI allI impI)
    show "map_of (sp_Tracks s2) name = Some (track_options s1 ro name,
      track_start ((newTrack (track_options s1 ro name) (tk_Disk ?t1))\<lparr>tk_Disk := d\<rparr>))" by (rule s2)
    show "names_in (tk_Disk (track_start ((newTrack (track_options s1 ro name) (tk_Disk ?t1))\<lparr>tk_Disk := d\<rparr>))) DirUploading = {}"
      "names_in (tk_Disk (track_start ((newTrack (track_options s1 ro name) (tk_Disk ?t1))\<lparr>tk_Disk := d\<rparr>))) DirActive = {}"
      using Recover_spec [OF ok r] by (simp_all add: track_start_def)
  next
    fix n c assume h: "holds (tk_Disk t) n c" "\<not> open_name t n"
    show "holds (tk_Disk (track_start ((newTrack (track_options s1 ro name) (tk_Disk ?t1))\<lparr>tk_Disk := d\<rparr>))) n c"
    proof -
      from h k1 have "holds (tk_Disk ?t1) n c" unfolding rest_held_def by blast
      with Recover_kept [OF ok, of env] r same_holdingsD show ?thesis by (fastforce simp: track_start_def)
    qed
  qed
qed

definition sample_register :: "string \<Rightarrow> register_opts" where
  "sample_register name =
     \<lparr>rg_Connector = Some name, rg_QueueSize = 2, rg_Rotation = \<lparr>ro_MaxBytes = 0, ro_MaxAge = 0\<rparr>,
      rg_Retry = \<lparr>rt_BaseBackoff = 0, rt_MaxBackoff = 0, rt_Multiplier = NaN, rt_MaxAttempts = 2\<rparr>,
      rg_Breaker = \<lparr>bo_FailuresToOpen = 0, bo_HalfOpenAfter = 0\<rparr>, rg_Marshal = (\<lambda>r. Some (cr_ID r)),
      rg_Size = (\<lambda>_. 0), rg_Scale = (\<lambda>x. 2 * x)\<rparr>"

definition running_spool :: spool where
  "running_spool = \<lparr>sp_Root = ''/spool'', sp_Started = True, sp_Tracks = [(''s3'', sample_opts, sealed_run)], sp_Unrouted = [],
     sp_Disks = (\<lambda>_. [])\<rparr>"

definition graceful :: stop_env where
  "graceful = \<lparr>se_Joined = (True, True), se_Faults = (\<lambda>_. no_faults), se_Seal = no_faults, se_Now = 7\<rparr>"

lemma sealed_run_facts:
  "map_of (tk_Disk sealed_run) (DirSealed, segmentFilename 6 1) = Some (SegmentFile True [sample_record])"
  "tk_Segment sealed_run = None"
  by code_simp+

lemma sealed_run_inv: "track_inv sample_opts (sealed_run, 5, 6)"
proof -
  have "track_reach sample_opts (newTrack sample_opts [], 5, 5) (sealed_run, 5, 6)"
    unfolding sealed_run_def
    by (rule reach_step [OF reach_step [OF reach_step [OF reach_refl step_enqueue] step_drain] step_seal]) simp
  from reach_inv [OF _ this fresh_track_inv] show ?thesis by (simp add: sample_opts_def default_attempts)
qed

lemma live_edit_keeps_backlog_witness:
  "\<exists>t'. map_of (sp_Tracks (snd (RegisterTrack True quiet_recovery (sample_register ''s3'')
        (snd (UnregisterTrack graceful ''s3'' running_spool))))) ''s3'' =
      Some (track_options (snd (UnregisterTrack graceful ''s3'' running_spool)) (sample_register ''s3'') ''s3'', t') \<and>
     holds (tk_Disk t') (segmentFilename 6 1) (True, [sample_record])"
proof -
  obtain e1 s1 where u: "UnregisterTrack graceful ''s3'' running_spool = (e1, s1)" by fastforce
  have "fst (RegisterTrack True quiet_recovery (sample_register ''s3'') (snd (UnregisterTrack graceful ''s3'' running_spool))) = None"
    by code_simp
  then obtain s2 where r: "RegisterTrack True quiet_recovery (sample_register ''s3'') s1 = (None, s2)"
    using u by (metis prod.collapse snd_conv)
  have a: "sp_Started running_spool" "map_of (sp_Tracks running_spool) ''s3'' = Some (sample_opts, sealed_run)"
    "distinct (map fst (sp_Tracks running_spool))" by (simp_all add: running_spool_def)
  have b: "(6::int) \<le> se_Now graceful" "fst (se_Joined graceful) \<or> snd (se_Joined graceful)" by (simp_all add: graceful_def)
  have c: "rg_Connector (sample_register ''s3'') = Some ''s3''" by (simp add: sample_register_def)
  have h: "holds (tk_Disk sealed_run) (segmentFilename 6 1) (True, [sample_record])"
    unfolding holds_def by (rule exI [of _ DirSealed]) (simp add: seg_at_def sealed_run_facts [simplified])
  have n: "\<not> open_name sealed_run (segmentFilename 6 1)" by (simp add: open_name_def sealed_run_facts)
  from live_edit_keeps_backlog [OF a sealed_run_inv b u c r] h n u r show ?thesis by auto
qed

text \<open>
  A registration that read the spool before \<^verbatim>\<open>Start\<close> and inserts its track after it starts the track without
  a recovery: what an earlier process left in \<^verbatim>\<open>uploading/\<close> stays there, and no scan lists it.
\<close>

theorem overtaken_registration_skips_recovery:
  "\<exists>nt s1 s2 t. new_spool ''/spool'' (\<lambda>_. sample_disk) \<noteq> None \<and>
     register_begin True quiet_recovery (sample_register ''s3'') (the (new_spool ''/spool'' (\<lambda>_. sample_disk))) = Inr nt \<and>
     Start (\<lambda>_. quiet_recovery) (the (new_spool ''/spool'' (\<lambda>_. sample_disk))) = (None, s1) \<and>
     register_commit nt s1 = (None, s2) \<and> map_of (sp_Tracks s2) ''s3'' = Some (fst (snd nt), t) \<and> tk_Kick t \<and>
     map_of (tk_Disk t) (DirUploading, segmentFilename 1 1) = Some (SegmentFile True [sample_record])"
  by (simp add: new_spool_def register_begin_def Start_def register_commit_def track_start_def newTrack_def
      sample_register_def sample_disk_def Let_def)


end
