(* ===== verification/Header_Redaction.thy ===== *)
theory Header_Redaction
  imports Auth_Resolver
begin

text \<open>
  Masking of credentials in captured headers, \<^verbatim>\<open>internal/headers/redact.go\<close>. A redactor is its list of
  substrings; the nil redactor is \<open>None\<close>. \<^verbatim>\<open>strings.ToLower\<close> is the field \<open>to_lower\<close> of the library
  argument.
\<close>

definition builtinSensitiveSubstrings :: "string list" where
  "builtinSensitiveSubstrings =
     [''auth'', ''api-key'', ''apikey'', ''token'', ''cookie'', ''secret'', ''slipspace-identity'', ''sluice-identity'']"

fun add_extras :: "golib \<Rightarrow> string list \<Rightarrow> string list \<Rightarrow> string list \<Rightarrow> string list" where
  "add_extras lib [] seen subs = subs"
| "add_extras lib (e # es) seen subs =
     (let v = to_lower lib (trim_space e)
      in if v = [] \<or> v \<in> set seen then add_extras lib es seen subs
         else add_extras lib es (v # seen) (subs @ [v]))"

definition NewRedactor :: "golib \<Rightarrow> string list \<Rightarrow> string list" where
  "NewRedactor lib extra = add_extras lib extra builtinSensitiveSubstrings builtinSensitiveSubstrings"

definition Extras :: "string list option \<Rightarrow> string list" where
  "Extras r = (case r of None \<Rightarrow> [] | Some subs \<Rightarrow> filter (\<lambda>s. s \<notin> set builtinSensitiveSubstrings) subs)"

definition IsSensitive :: "golib \<Rightarrow> string list option \<Rightarrow> string \<Rightarrow> bool" where
  "IsSensitive lib r name =
     (let lower = to_lower lib name;
          subs = (case r of Some subs \<Rightarrow> if length subs > 0 then subs else builtinSensitiveSubstrings
                  | None \<Rightarrow> builtinSensitiveSubstrings)
      in list_ex (\<lambda>s. str_contains lower s) subs)"

definition Redact :: "golib \<Rightarrow> string list option \<Rightarrow> headers \<Rightarrow> headers" where
  "Redact lib r h =
     map (\<lambda>(k, vs). (k, if IsSensitive lib r k then map (\<lambda>_. ''[REDACTED]'') vs else vs)) h"

section \<open>What a capture reveals\<close>

lemma add_extras_keeps: "\<exists>new. add_extras lib es seen subs = subs @ new \<and> (\<forall>v \<in> set new. v \<notin> set seen \<and> v \<noteq> [])"
proof (induction es arbitrary: seen subs)
  case (Cons e es)
  let ?v = "to_lower lib (trim_space e)"
  show ?case
  proof (cases "?v = [] \<or> ?v \<in> set seen")
    case True
    with Cons.IH [of seen subs] show ?thesis by (simp add: Let_def)
  next
    case False
    from Cons.IH [of "?v # seen" "subs @ [?v]"] obtain new where
      "add_extras lib es (?v # seen) (subs @ [?v]) = (subs @ [?v]) @ new" "\<forall>v \<in> set new. v \<notin> set (?v # seen) \<and> v \<noteq> []"
      by blast
    with False show ?thesis by (intro exI [of _ "?v # new"]) (auto simp: Let_def)
  qed
qed simp

text \<open>A redactor of the code: the nil one, or one that \<^verbatim>\<open>NewRedactor\<close> made.\<close>

definition made :: "golib \<Rightarrow> string list option \<Rightarrow> bool" where
  "made lib r \<longleftrightarrow> r = None \<or> (\<exists>extra. r = Some (NewRedactor lib extra))"

lemma builtins_always_masked:
  "made lib r \<Longrightarrow> s \<in> set builtinSensitiveSubstrings \<Longrightarrow> str_contains (to_lower lib name) s \<Longrightarrow> IsSensitive lib r name"
proof -
  assume m: "made lib r" and s: "s \<in> set builtinSensitiveSubstrings" "str_contains (to_lower lib name) s"
  show ?thesis
  proof (cases r)
    case None
    with s show ?thesis by (simp add: IsSensitive_def Let_def list_ex_iff) blast
  next
    case (Some subs)
    with m obtain extra where "subs = NewRedactor lib extra" by (auto simp: made_def)
    with add_extras_keeps [of lib extra builtinSensitiveSubstrings builtinSensitiveSubstrings]
    obtain new where subs: "subs = builtinSensitiveSubstrings @ new" unfolding NewRedactor_def by blast
    with s(1) have "s \<in> set subs" "length subs > 0" by (auto intro: length_pos_if_in_set)
    with s(2) Some show ?thesis by (simp add: IsSensitive_def Let_def list_ex_iff) blast
  qed
qed

definition credential_names :: "string list" where
  "credential_names =
     [HeaderAuthorization, headerAnthropicAPIKey, headerGeminiAPIKey, HeaderIdentity, LegacyHeaderIdentity]"

lemma credential_names_masked:
  assumes "made lib r" "\<forall>n \<in> set credential_names. to_lower lib n = map lower_char n" "n \<in> set credential_names"
  shows "IsSensitive lib r n"
proof -
  have "\<forall>n \<in> set credential_names. \<exists>s \<in> set builtinSensitiveSubstrings. str_contains (map lower_char n) s"
    by code_simp
  with assms builtins_always_masked show ?thesis by metis
qed

text \<open>
  C22. A captured header map does not depend on a credential: two requests that differ only in the values
  of the headers the authenticator reads a secret from, with as many values each, are captured alike,
  with the nil redactor and with any that the operator's list extends. The library's lower case is
  taken to map these five names as ASCII does.
\<close>

theorem capture_hides_credentials:
  assumes "made lib r" "\<forall>n \<in> set credential_names. to_lower lib n = map lower_char n"
    and "list_all2 (\<lambda>(k, vs) (k', vs'). k = k' \<and> length vs = length vs' \<and> (k \<in> set credential_names \<or> vs = vs')) h h'"
  shows "Redact lib r h = Redact lib r h'"
  using assms(3)
proof (induction rule: list_all2_induct)
  case (Cons x xs y ys)
  then show ?case using credential_names_masked [OF assms(1,2), of "fst x"]
    by (cases x; cases y) (auto simp: Redact_def map_replicate_const [symmetric] intro: nth_equalityI)
qed (simp add: Redact_def)

lemma capture_hides_credentials_witness:
  "Redact ascii_lib (Some (NewRedactor ascii_lib [''X-Trace'']))
     [(''Authorization'', [''Bearer sk_live_1'']), (''Accept'', [''*''])] =
   Redact ascii_lib (Some (NewRedactor ascii_lib [''X-Trace'']))
     [(''Authorization'', [''Bearer other'']), (''Accept'', [''*''])]"
  by (rule capture_hides_credentials) (auto simp: made_def ascii_lib_def credential_names_def)

text \<open>The secret a request presents is read from those headers alone, so a capture cannot reveal it.\<close>

lemma presented_key_from_credentials:
  assumes "\<forall>n \<in> set credential_names. header_get h n = header_get h' n"
    and "header_get h HeaderConfiguration = header_get h' HeaderConfiguration"
    and "header_get h LegacyHeaderConfiguration = header_get h' LegacyHeaderConfiguration"
  shows "presented_key h = presented_key h'"
  using assms
  by (simp add: presented_key_def config_selector_def discoverManagedKey_def firstHeader.simps credential_names_def Let_def)

end
