(* ===== verification/Live_Feed.thy ===== *)
theory Live_Feed
  imports Header_Redaction "HOL-Library.While_Combinator"
begin

text \<open>
  The live feed of the admin console, \<^verbatim>\<open>internal/observability/livefeed\<close>: the bounded ring of recent
  requests with its subscribers (\<^verbatim>\<open>ring.go\<close>), the byte-bounded store of bodies, an LRU kept as a doubly
  linked list (\<^verbatim>\<open>bodystore.go\<close>, \<^verbatim>\<open>compress.go\<close>), and the capture of a response (\<^verbatim>\<open>responsebuf.go\<close>). The
  ring does not look into its entries. A pointer is an address of a heap of nodes, \<^verbatim>\<open>nil\<close> is \<open>None\<close>. The
  zstd encoder and decoder are arguments.
\<close>

section \<open>The ring\<close>

record 'e subscriber =
  sub_Size :: nat
  sub_Chan :: "'e list"
  sub_Dropped :: nat
  sub_Closed :: bool

record 'e ring =
  rn_Capacity :: nat
  rn_Entries :: "'e list"
  rn_Subs :: "nat list"
  rn_Subscribers :: "nat \<Rightarrow> 'e subscriber"
  rn_Next :: nat

text \<open>
  \<open>rn_Subs\<close> is the subscriber set in the order of an iteration; \<open>rn_Subscribers\<close> is the heap of the
  subscribers, and \<open>rn_Next\<close> the next free address.
\<close>

definition NewRing :: "int \<Rightarrow> 'e ring option" where
  "NewRing capacity =
     (if capacity \<le> 0 then None
      else Some \<lparr>rn_Capacity = nat capacity, rn_Entries = [], rn_Subs = [],
             rn_Subscribers = (\<lambda>_. \<lparr>sub_Size = 0, sub_Chan = [], sub_Dropped = 0, sub_Closed = True\<rparr>), rn_Next = 0\<rparr>)"

definition deliver :: "'e \<Rightarrow> 'e subscriber \<Rightarrow> 'e subscriber" where
  "deliver e s =
     (if sub_Closed s then s
      else if length (sub_Chan s) < sub_Size s then s\<lparr>sub_Chan := sub_Chan s @ [e]\<rparr>
      else s\<lparr>sub_Dropped := sub_Dropped s + 1\<rparr>)"

definition on_subscriber :: "nat \<Rightarrow> ('e subscriber \<Rightarrow> 'e subscriber) \<Rightarrow> 'e ring \<Rightarrow> 'e ring" where
  "on_subscriber i f r = r\<lparr>rn_Subscribers := (rn_Subscribers r)(i := f (rn_Subscribers r i))\<rparr>"

text \<open>The part of \<^verbatim>\<open>Append\<close> under the lock, which also takes the snapshot of the subscribers.\<close>

definition ring_insert :: "'e \<Rightarrow> 'e ring \<Rightarrow> 'e ring \<times> nat list" where
  "ring_insert e r =
     (let xs = rn_Entries r
      in (r\<lparr>rn_Entries :=
             (if length xs < rn_Capacity r then xs @ [e]
              else (tl xs @ [last xs])[length xs - 1 := e])\<rparr>, rn_Subs r))"

definition Append :: "'e \<Rightarrow> 'e ring \<Rightarrow> 'e ring" where
  "Append e r = (case ring_insert e r of (r1, subs) \<Rightarrow> foldl (\<lambda>r i. on_subscriber i (deliver e) r) r1 subs)"

definition Recent :: "int \<Rightarrow> 'e ring \<Rightarrow> 'e list" where
  "Recent limit r =
     (let n = int (length (rn_Entries r)); l = (if limit \<le> 0 \<or> limit > n then n else limit)
      in if l = 0 then [] else drop (nat (n - l)) (rn_Entries r))"

definition Subscribe :: "int \<Rightarrow> 'e ring \<Rightarrow> nat \<times> 'e ring" where
  "Subscribe bufSize r =
     (let size = (if bufSize \<le> 0 then 32 else bufSize); i = rn_Next r
      in (i, r\<lparr>rn_Subs := i # rn_Subs r, rn_Next := i + 1,
              rn_Subscribers := (rn_Subscribers r)(i := \<lparr>sub_Size = nat size, sub_Chan = [], sub_Dropped = 0, sub_Closed = False\<rparr>)\<rparr>))"

definition detach :: "nat \<Rightarrow> 'e ring \<Rightarrow> 'e ring" where
  "detach i r =
     (if sub_Closed (rn_Subscribers r i) then r
      else (on_subscriber i (\<lambda>s. s\<lparr>sub_Closed := True\<rparr>) r)\<lparr>rn_Subs := filter (\<lambda>j. j \<noteq> i) (rn_Subs r)\<rparr>)"

text \<open>The console's handler takes the next entry off the channel, if there is one.\<close>

definition receive :: "nat \<Rightarrow> 'e ring \<Rightarrow> 'e option \<times> 'e ring" where
  "receive i r =
     (case sub_Chan (rn_Subscribers r i) of [] \<Rightarrow> (None, r)
      | e # es \<Rightarrow> (Some e, on_subscriber i (\<lambda>s. s\<lparr>sub_Chan := es\<rparr>) r))"

definition SubscriberCount :: "'e ring \<Rightarrow> nat" where
  "SubscriberCount r = length (rn_Subs r)"

subsection \<open>What the ring keeps and delivers\<close>

lemma ring_entries_deliver: "rn_Entries (foldl (\<lambda>r i. on_subscriber i (deliver e) r) r subs) = rn_Entries r \<and>
    rn_Capacity (foldl (\<lambda>r i. on_subscriber i (deliver e) r) r subs) = rn_Capacity r \<and>
    rn_Subs (foldl (\<lambda>r i. on_subscriber i (deliver e) r) r subs) = rn_Subs r \<and>
    rn_Next (foldl (\<lambda>r i. on_subscriber i (deliver e) r) r subs) = rn_Next r"
  by (induction subs arbitrary: r) (simp_all add: on_subscriber_def)

lemma shift_in: "xs \<noteq> [] \<Longrightarrow> (tl xs @ [last xs])[length xs - 1 := e] = tl xs @ [e]"
  by (simp add: list_update_append)

definition latest :: "nat \<Rightarrow> 'a list \<Rightarrow> 'a list" where
  "latest k xs = drop (length xs - k) xs"

lemma Append_latest:
  assumes "rn_Entries r = latest (rn_Capacity r) es" "0 < rn_Capacity r"
  shows "rn_Entries (Append e r) = latest (rn_Capacity r) (es @ [e])"
proof (cases "length es < rn_Capacity r")
  case True
  with assms show ?thesis by (simp add: Append_def ring_insert_def Let_def ring_entries_deliver latest_def)
next
  case False
  then have l: "length (rn_Entries r) = rn_Capacity r" using assms(1) by (simp add: latest_def)
  then have "rn_Entries r \<noteq> []" using assms(2) by auto
  with l have "rn_Entries (Append e r) = tl (rn_Entries r) @ [e]"
    using shift_in [of "rn_Entries r" e] by (simp add: Append_def ring_insert_def Let_def ring_entries_deliver)
  moreover have "tl (drop (length es - rn_Capacity r) es) = drop (Suc (length es) - rn_Capacity r) es"
    using False by (simp add: tl_drop drop_Suc Suc_diff_le)
  ultimately show ?thesis using assms False by (simp add: latest_def)
qed

lemma Append_capacity: "rn_Capacity (Append e r) = rn_Capacity r"
  by (simp add: Append_def ring_insert_def Let_def ring_entries_deliver)

lemma Append_run:
  "NewRing capacity = Some r \<Longrightarrow>
   rn_Entries (fold Append es r) = latest (nat capacity) es \<and> rn_Capacity (fold Append es r) = nat capacity"
proof (induction es rule: rev_induct)
  case (snoc e es)
  from snoc have "0 < nat capacity" by (auto simp: NewRing_def split: if_splits)
  with snoc Append_latest [of "fold Append es r" es e] show ?case by (simp add: Append_capacity)
qed (auto simp: NewRing_def latest_def split: if_splits)

text \<open>
  The ring holds the latest entries: after any sequence of appends \<^verbatim>\<open>Recent\<close> returns, oldest first,
  the last ones, as many as asked for, the capacity and the sequence allow.
\<close>

theorem ring_keeps_latest:
  assumes "NewRing capacity = Some r"
  shows "Recent limit (fold Append es r) =
    latest (if limit \<le> 0 then nat capacity else min (nat limit) (nat capacity)) es"
proof -
  note run = Append_run [OF assms, of es]
  define k where "k = nat capacity"
  have l: "length (latest k es) = min (length es) k" by (simp add: latest_def)
  have "drop (min (length es) k - j) (latest k es) = latest (min j k) es" for j
    by (simp add: latest_def min_def)
  from this [of "nat limit"] this [of k] run l show ?thesis
    by (auto simp: Recent_def Let_def k_def [symmetric] latest_def nat_diff_distrib' min_def)
qed

lemma ring_keeps_latest_witness:
  "Recent 2 (fold Append [1, 2, 3, 4 :: nat] (the (NewRing 3))) = [3, 4]"
proof -
  have "NewRing 3 = Some (the (NewRing 3))" by (simp add: NewRing_def)
  from ring_keeps_latest [OF this, of 2 "[1, 2, 3, 4 :: nat]"] show ?thesis by (simp add: latest_def)
qed

datatype 'e ring_op = OpAppend 'e | OpSubscribe int | OpDetach nat | OpReceive nat

text \<open>A run of operations, with what the subscriber \<open>i\<close> received on the way.\<close>

fun ring_exec :: "nat \<Rightarrow> 'e ring_op \<Rightarrow> 'e ring \<times> 'e list \<Rightarrow> 'e ring \<times> 'e list" where
  "ring_exec i (OpAppend e) (r, got) = (Append e r, got)"
| "ring_exec i (OpSubscribe b) (r, got) = (snd (Subscribe b r), got)"
| "ring_exec i (OpDetach j) (r, got) = (detach j r, got)"
| "ring_exec i (OpReceive j) (r, got) =
     (case receive j r of (None, r') \<Rightarrow> (r', got) | (Some e, r') \<Rightarrow> (r', if j = i then got @ [e] else got))"

fun appended :: "'e ring_op list \<Rightarrow> 'e list" where
  "appended [] = []"
| "appended (OpAppend e # ops) = e # appended ops"
| "appended (op # ops) = appended ops"

lemma appended_append: "appended (xs @ ys) = appended xs @ appended ys"
  by (induction xs rule: appended.induct) auto

definition ring_ok :: "'e ring \<Rightarrow> bool" where
  "ring_ok r \<longleftrightarrow> distinct (rn_Subs r) \<and> (\<forall>j \<in> set (rn_Subs r). j < rn_Next r)"

lemma deliver_subscribers:
  "distinct subs \<Longrightarrow> rn_Subscribers (foldl (\<lambda>r i. on_subscriber i (deliver e) r) r subs) i =
     (if i \<in> set subs then deliver e (rn_Subscribers r i) else rn_Subscribers r i)"
  by (induction subs arbitrary: r) (auto simp: on_subscriber_def)

lemma Append_subscriber:
  "ring_ok r \<Longrightarrow> rn_Subscribers (Append e r) i =
     (if i \<in> set (rn_Subs r) then deliver e (rn_Subscribers r i) else rn_Subscribers r i)"
  by (simp add: Append_def ring_insert_def Let_def ring_ok_def deliver_subscribers)

lemma Append_ring_ok: "ring_ok (Append e r) = ring_ok r" "rn_Subs (Append e r) = rn_Subs r"
  by (simp_all add: ring_ok_def Append_def ring_insert_def Let_def ring_entries_deliver)

definition feed_inv :: "nat \<Rightarrow> nat \<Rightarrow> 'e list \<Rightarrow> 'e ring \<times> 'e list \<Rightarrow> bool" where
  "feed_inv i bnd es rg \<longleftrightarrow>
     (case rg of (r, got) \<Rightarrow>
        ring_ok r \<and> i \<in> set (rn_Subs r) \<and> \<not> sub_Closed (rn_Subscribers r i) \<and> sub_Size (rn_Subscribers r i) = bnd \<and>
        subseq (got @ sub_Chan (rn_Subscribers r i)) es \<and> length (sub_Chan (rn_Subscribers r i)) \<le> bnd \<and>
        length es = length got + length (sub_Chan (rn_Subscribers r i)) + sub_Dropped (rn_Subscribers r i))"

lemma subseq_snoc: "subseq xs es \<Longrightarrow> subseq (xs @ [e]) (es @ [e])" "subseq xs es \<Longrightarrow> subseq xs (es @ [e])"
  by (auto intro: list_emb_append_mono list_emb_append2)

lemma feed_step:
  assumes "feed_inv i bnd es rg" "op \<noteq> OpDetach i"
  shows "feed_inv i bnd (es @ appended [op]) (ring_exec i op rg)"
proof (cases rg)
  case (Pair r got)
  with assms(1) have ok: "ring_ok r" "i \<in> set (rn_Subs r)" by (auto simp: feed_inv_def)
  show ?thesis
  proof (cases op)
    case (OpAppend e)
    with assms(1) Pair show ?thesis
      using subseq_snoc [of "got @ sub_Chan (rn_Subscribers r i)" es e]
      by (auto simp: feed_inv_def Append_subscriber Append_ring_ok deliver_def)
  next
    case (OpSubscribe b)
    with ok have "i \<noteq> rn_Next r" by (auto simp: ring_ok_def)
    with assms(1) Pair OpSubscribe show ?thesis
      by (auto simp: feed_inv_def Subscribe_def Let_def ring_ok_def)
  next
    case (OpDetach j)
    with assms Pair show ?thesis by (auto simp: feed_inv_def detach_def on_subscriber_def ring_ok_def)
  next
    case (OpReceive j)
    show ?thesis
    proof (cases "sub_Chan (rn_Subscribers r j)")
      case Nil
      with assms(1) Pair OpReceive show ?thesis by (simp add: receive_def)
    next
      case (Cons e rest)
      with assms(1) Pair OpReceive show ?thesis
        by (cases "j = i") (auto simp: feed_inv_def receive_def on_subscriber_def ring_ok_def)
    qed
  qed
qed

text \<open>
  A subscriber sees the feed in order and knows what it missed: over any run that does not close it,
  what it received followed by what is buffered is a subsequence of the entries appended since it
  subscribed, the buffer keeps its bound, and the drop counter is exactly the number missing.
\<close>

theorem subscriber_accounts:
  assumes "ring_ok r" "Subscribe b r = (i, r1)" "OpDetach i \<notin> set ops"
    and "(r2, got) = fold (ring_exec i) ops (r1, [])"
  shows "subseq (got @ sub_Chan (rn_Subscribers r2 i)) (appended ops) \<and>
    length (sub_Chan (rn_Subscribers r2 i)) \<le> nat (if b \<le> 0 then 32 else b) \<and>
    length (appended ops) = length got + length (sub_Chan (rn_Subscribers r2 i)) + sub_Dropped (rn_Subscribers r2 i)"
proof -
  have "feed_inv i (nat (if b \<le> 0 then 32 else b)) (appended ops) (fold (ring_exec i) ops (r1, []))"
    using assms(3)
  proof (induction ops rule: rev_induct)
    case Nil
    from assms(1) have "rn_Next r \<notin> set (rn_Subs r)" "\<forall>j \<in> set (rn_Subs r). j < Suc (rn_Next r)" by (auto simp: ring_ok_def)
    with assms(1,2) show ?case by (auto simp: feed_inv_def Subscribe_def Let_def ring_ok_def)
  next
    case (snoc op ops)
    then have "feed_inv i (nat (if b \<le> 0 then 32 else b)) (appended ops) (fold (ring_exec i) ops (r1, []))" "op \<noteq> OpDetach i"
      by auto
    from feed_step [OF this] show ?case by (simp add: appended_append del: if_split)
  qed
  with assms(4) [symmetric] show ?thesis by (simp add: feed_inv_def)
qed

lemma subscriber_accounts_witness:
  "length (appended [OpAppend (1::nat), OpAppend 2, OpReceive 0, OpAppend 3]) =
     1 + length (sub_Chan (rn_Subscribers (fst (fold (ring_exec 0) [OpAppend (1::nat), OpAppend 2, OpReceive 0, OpAppend 3]
       (snd (Subscribe 1 (the (NewRing 2))), []))) 0)) + 1"
proof -
  let ?ops = "[OpAppend (1::nat), OpAppend 2, OpReceive 0, OpAppend 3]"
  let ?fin = "fold (ring_exec 0) ?ops (snd (Subscribe 1 (the (NewRing 2))), [])"
  have ok: "ring_ok (the (NewRing 2) :: nat ring)" by (simp add: ring_ok_def NewRing_def)
  have s: "Subscribe 1 (the (NewRing 2) :: nat ring) = (0, snd (Subscribe 1 (the (NewRing 2))))"
    by (simp add: Subscribe_def NewRing_def)
  have "snd ?fin = [1] \<and> sub_Dropped (rn_Subscribers (fst ?fin) 0) = 1" by code_simp
  with subscriber_accounts [OF ok s, of ?ops "fst ?fin" "snd ?fin"] show ?thesis by simp
qed

section \<open>The capture of a response\<close>

record response_buffer =
  rb_MaxBytes :: int
  rb_Buf :: string
  rb_Total :: int
  rb_Truncated :: bool
  rb_Headers :: "headers option"

definition NewResponseBuffer :: "int \<Rightarrow> response_buffer option" where
  "NewResponseBuffer maxBytes =
     (if maxBytes \<le> 0 then None
      else Some \<lparr>rb_MaxBytes = maxBytes, rb_Buf = [], rb_Total = 0, rb_Truncated = False, rb_Headers = None\<rparr>)"

definition buffer_Append :: "string \<Rightarrow> response_buffer \<Rightarrow> response_buffer" where
  "buffer_Append p b =
     (if p = [] then b
      else let b1 = b\<lparr>rb_Total := i64 (rb_Total b + int (length p))\<rparr>; remaining = rb_MaxBytes b1 - int (length (rb_Buf b1))
           in if remaining \<le> 0 then b1\<lparr>rb_Truncated := True\<rparr>
              else if int (length p) > remaining
                then b1\<lparr>rb_Buf := rb_Buf b1 @ take (nat remaining) p, rb_Truncated := True\<rparr>
              else b1\<lparr>rb_Buf := rb_Buf b1 @ p\<rparr>)"

text \<open>
  The writer around the client's: a write is forwarded, and the part the client took is appended; the
  headers are captured at the first status line or write.
\<close>

record tee_writer =
  tw_Buf :: response_buffer
  tw_Taken :: bool

definition snapshotHeadersOnce :: "golib \<Rightarrow> string list option \<Rightarrow> headers \<Rightarrow> tee_writer \<Rightarrow> tee_writer" where
  "snapshotHeadersOnce lib redactor h t =
     (if tw_Taken t then t
      else t\<lparr>tw_Taken := True, tw_Buf := (tw_Buf t)\<lparr>rb_Headers := (if h = [] then None else Some (Redact lib redactor h))\<rparr>\<rparr>)"

definition tee_Write :: "golib \<Rightarrow> string list option \<Rightarrow> headers \<Rightarrow> (string \<Rightarrow> int) \<Rightarrow> string \<Rightarrow> tee_writer \<Rightarrow> int \<times> tee_writer" where
  "tee_Write lib redactor h inner p t =
     (let t1 = snapshotHeadersOnce lib redactor h t; n = inner p
      in (n, if n > 0 then t1\<lparr>tw_Buf := buffer_Append (take (nat n) p) (tw_Buf t1)\<rparr> else t1))"

definition tee_WriteHeader :: "golib \<Rightarrow> string list option \<Rightarrow> headers \<Rightarrow> tee_writer \<Rightarrow> tee_writer" where
  "tee_WriteHeader lib redactor h t = snapshotHeadersOnce lib redactor h t"

lemma buffer_run:
  assumes "NewResponseBuffer maxBytes = Some b" "int (length (concat ps)) < 2 ^ 63"
  shows "rb_Buf (fold buffer_Append ps b) = take (nat maxBytes) (concat ps) \<and>
    rb_Total (fold buffer_Append ps b) = int (length (concat ps)) \<and>
    rb_Truncated (fold buffer_Append ps b) = (int (length (concat ps)) > maxBytes) \<and>
    rb_MaxBytes (fold buffer_Append ps b) = maxBytes"
  using assms(2)
proof (induction ps rule: rev_induct)
  case Nil
  with assms(1) show ?case by (auto simp: NewResponseBuffer_def split: if_splits)
next
  case (snoc p ps)
  let ?b = "fold buffer_Append ps b"
  from assms(1) have m: "0 < maxBytes" by (auto simp: NewResponseBuffer_def split: if_splits)
  from snoc have ih: "rb_Buf ?b = take (nat maxBytes) (concat ps)" "rb_Total ?b = int (length (concat ps))"
    "rb_Truncated ?b = (int (length (concat ps)) > maxBytes)" "rb_MaxBytes ?b = maxBytes" by auto
  have t: "i64 (rb_Total ?b + int (length p)) = int (length (concat (ps @ [p])))"
    using snoc.prems ih(2) by (subst i64_id) auto
  have l: "length (rb_Buf ?b) = min (length (concat ps)) (nat maxBytes)" by (simp add: ih(1) min.commute)
  consider "p = []" | "p \<noteq> []" "maxBytes \<le> int (length (concat ps))"
    | "p \<noteq> []" "int (length (concat ps)) < maxBytes" "int (length p) > maxBytes - int (length (concat ps))"
    | "p \<noteq> []" "int (length (concat ps)) < maxBytes" "int (length p) \<le> maxBytes - int (length (concat ps))"
    by linarith
  then show ?case
  proof cases
    case 1
    with ih show ?thesis by (simp add: buffer_Append_def [of "[]"])
  next
    case 2
    then have "1 \<le> length p" by (simp add: Suc_leI)
    with 2(2) have "maxBytes < int (length (concat ps)) + int (length p)" by linarith
    with 2 ih t l m show ?thesis by (simp add: buffer_Append_def [of p ?b] Let_def)
  next
    case 3
    with ih t l m show ?thesis by (simp add: buffer_Append_def [of p ?b] Let_def nat_diff_distrib')
  next
    case 4
    with ih t l m show ?thesis by (simp add: buffer_Append_def [of p ?b] Let_def)
  qed
qed

text \<open>
  The captured body is the head of what was sent: after any writes the buffer holds the first bytes
  up to its cap, the total is the length sent, and the flag tells exactly whether something is missing.
\<close>

theorem captured_body_is_head:
  assumes "NewResponseBuffer maxBytes = Some b" "int (length (concat ps)) < 2 ^ 63"
  shows "rb_Buf (fold buffer_Append ps b) = take (nat maxBytes) (concat ps) \<and>
    rb_Total (fold buffer_Append ps b) = int (length (concat ps)) \<and>
    rb_Truncated (fold buffer_Append ps b) = (int (length (concat ps)) > maxBytes)"
  using buffer_run [OF assms] by simp

lemma captured_body_is_head_witness:
  "rb_Buf (fold buffer_Append [''ab'', [], ''cde''] (the (NewResponseBuffer 3))) = ''abc''"
proof -
  have "NewResponseBuffer 3 = Some (the (NewResponseBuffer 3))" by (simp add: NewResponseBuffer_def)
  from captured_body_is_head [OF this, of "[''ab'', [], ''cde'']"] show ?thesis by simp
qed

text \<open>
  An informational status is passed through \<^verbatim>\<open>WriteHeader\<close>, and the headers of that moment are captured:
  the headers of the final response never are.
\<close>

theorem early_hints_hide_headers:
  "let t = tee_WriteHeader ascii_lib None [(''Link'', [''</style.css>''])]
             \<lparr>tw_Buf = the (NewResponseBuffer 3), tw_Taken = False\<rparr>;
       t' = tee_WriteHeader ascii_lib None [(''Content-Type'', [''application/json''])] t
   in rb_Headers (tw_Buf t') = Some [(''Link'', [''</style.css>''])]"
  by code_simp

section \<open>Body envelopes\<close>

record body_envelope =
  be_Request :: string
  be_RequestTotalBytes :: int
  be_RequestTruncated :: bool
  be_Response :: string
  be_ResponseTotalBytes :: int
  be_ResponseTruncated :: bool
  be_ResponseAssembled :: string
  be_AssemblyPartial :: bool
  be_RequestHeaders :: headers
  be_ResponseHeaders :: headers

text \<open>A compressed envelope has the same shape with the three bodies encoded.\<close>

type_synonym compressed_envelope = body_envelope

record zstd =
  zs_Encode :: "string \<Rightarrow> string"
  zs_Decode :: "string \<Rightarrow> string option"

definition headerMapBytes :: "headers \<Rightarrow> nat" where
  "headerMapBytes h = sum_list (map (\<lambda>(k, vs). length k + sum_list (map length vs)) h)"

definition envelope_bytes :: "body_envelope \<Rightarrow> nat" where
  "envelope_bytes e = length (be_Request e) + length (be_Response e) + length (be_ResponseAssembled e) +
     headerMapBytes (be_RequestHeaders e) + headerMapBytes (be_ResponseHeaders e)"

definition compressBytes :: "zstd \<Rightarrow> string \<Rightarrow> string" where
  "compressBytes z s = (if s = [] then [] else zs_Encode z s)"

definition decompressBytes :: "zstd \<Rightarrow> string \<Rightarrow> string" where
  "decompressBytes z s = (if s = [] then [] else case zs_Decode z s of None \<Rightarrow> [] | Some out \<Rightarrow> out)"

definition compressEnvelope :: "zstd \<Rightarrow> body_envelope \<Rightarrow> compressed_envelope" where
  "compressEnvelope z e = e\<lparr>be_Request := compressBytes z (be_Request e), be_Response := compressBytes z (be_Response e),
     be_ResponseAssembled := compressBytes z (be_ResponseAssembled e)\<rparr>"

definition decompressEnvelope :: "zstd \<Rightarrow> compressed_envelope \<Rightarrow> body_envelope" where
  "decompressEnvelope z e = e\<lparr>be_Request := decompressBytes z (be_Request e), be_Response := decompressBytes z (be_Response e),
     be_ResponseAssembled := decompressBytes z (be_ResponseAssembled e)\<rparr>"

definition zstd_lossless :: "zstd \<Rightarrow> bool" where
  "zstd_lossless z \<longleftrightarrow> (\<forall>s. s \<noteq> [] \<longrightarrow> zs_Encode z s \<noteq> [] \<and> zs_Decode z (zs_Encode z s) = Some s)"

lemma envelope_roundtrip: "zstd_lossless z \<Longrightarrow> decompressEnvelope z (compressEnvelope z e) = e"
  by (simp add: zstd_lossless_def decompressEnvelope_def compressEnvelope_def compressBytes_def decompressBytes_def)

section \<open>The body store\<close>

record body_node =
  bn_ID :: string
  bn_Env :: compressed_envelope
  bn_Bytes :: int
  bn_Prev :: "nat option"
  bn_Next :: "nat option"

record body_store =
  bs_Capacity :: int
  bs_Bytes :: int
  bs_Entries :: "(string \<times> nat) list"
  bs_Head :: "nat option"
  bs_Tail :: "nat option"
  bs_Heap :: "nat \<Rightarrow> body_node option"
  bs_Fresh :: nat

definition NewBodyStore :: "int \<Rightarrow> body_store option" where
  "NewBodyStore capacityBytes =
     (if capacityBytes \<le> 0 then None
      else Some \<lparr>bs_Capacity = capacityBytes, bs_Bytes = 0, bs_Entries = [], bs_Head = None, bs_Tail = None,
             bs_Heap = (\<lambda>_. None), bs_Fresh = 0\<rparr>)"

definition set_node :: "nat \<Rightarrow> (body_node \<Rightarrow> body_node) \<Rightarrow> body_store \<Rightarrow> body_store" where
  "set_node a f s = s\<lparr>bs_Heap := (bs_Heap s)(a := map_option f (bs_Heap s a))\<rparr>"

definition pushFront :: "nat \<Rightarrow> body_store \<Rightarrow> body_store" where
  "pushFront a s =
     (let s1 = set_node a (\<lambda>n. n\<lparr>bn_Prev := None, bn_Next := bs_Head s\<rparr>) s;
          s2 = (case bs_Head s1 of None \<Rightarrow> s1 | Some h \<Rightarrow> set_node h (\<lambda>n. n\<lparr>bn_Prev := Some a\<rparr>) s1);
          s3 = s2\<lparr>bs_Head := Some a\<rparr>
      in if bs_Tail s3 = None then s3\<lparr>bs_Tail := Some a\<rparr> else s3)"

definition remove_node :: "nat \<Rightarrow> body_store \<Rightarrow> body_store" where
  "remove_node a s =
     (let n = the (bs_Heap s a);
          s1 = (case bn_Prev n of Some p \<Rightarrow> set_node p (\<lambda>m. m\<lparr>bn_Next := bn_Next n\<rparr>) s
                | None \<Rightarrow> s\<lparr>bs_Head := bn_Next n\<rparr>);
          s2 = (case bn_Next n of Some x \<Rightarrow> set_node x (\<lambda>m. m\<lparr>bn_Prev := bn_Prev n\<rparr>) s1
                | None \<Rightarrow> s1\<lparr>bs_Tail := bn_Prev n\<rparr>)
      in set_node a (\<lambda>m. m\<lparr>bn_Prev := None, bn_Next := None\<rparr>) s2)"

definition store_Delete :: "string \<Rightarrow> body_store \<Rightarrow> body_store" where
  "store_Delete eventID s =
     (case map_of (bs_Entries s) eventID of
        None \<Rightarrow> s
      | Some a \<Rightarrow>
          (let s1 = s\<lparr>bs_Bytes := bs_Bytes s - bn_Bytes (the (bs_Heap s a))\<rparr>; s2 = remove_node a s1
           in s2\<lparr>bs_Entries := AList.delete eventID (bs_Entries s2)\<rparr>))"

definition evictOldestLocked :: "body_store \<Rightarrow> body_store" where
  "evictOldestLocked s =
     (case bs_Tail s of
        None \<Rightarrow> s
      | Some a \<Rightarrow>
          (let victim = the (bs_Heap s a); s1 = s\<lparr>bs_Bytes := bs_Bytes s - bn_Bytes victim\<rparr>; s2 = remove_node a s1
           in s2\<lparr>bs_Entries := AList.delete (bn_ID victim) (bs_Entries s2)\<rparr>))"

text \<open>The eviction loop; \<open>None\<close> would be a loop that does not end.\<close>

definition evict_loop :: "int \<Rightarrow> body_store \<Rightarrow> body_store option" where
  "evict_loop need s =
     while_option (\<lambda>s. bs_Bytes s + need > bs_Capacity s \<and> bs_Tail s \<noteq> None) evictOldestLocked s"

definition Put :: "zstd \<Rightarrow> string \<Rightarrow> body_envelope \<Rightarrow> body_store \<Rightarrow> body_store option" where
  "Put z eventID env s =
     (let compressed = compressEnvelope z env; need = int (envelope_bytes compressed)
      in if need > bs_Capacity s then Some s
         else let s1 = store_Delete eventID s
              in case evict_loop need s1 of
                   None \<Rightarrow> None
                 | Some s2 \<Rightarrow>
                     (let a = bs_Fresh s2;
                          node = \<lparr>bn_ID = eventID, bn_Env = compressed, bn_Bytes = need, bn_Prev = None, bn_Next = None\<rparr>;
                          s3 = s2\<lparr>bs_Heap := (bs_Heap s2)(a := Some node), bs_Fresh := a + 1,
                                  bs_Entries := AList.update eventID a (bs_Entries s2), bs_Bytes := bs_Bytes s2 + need\<rparr>
                      in Some (pushFront a s3)))"

definition Get :: "zstd \<Rightarrow> string \<Rightarrow> body_store \<Rightarrow> body_envelope option \<times> body_store" where
  "Get z eventID s =
     (case map_of (bs_Entries s) eventID of
        None \<Rightarrow> (None, s)
      | Some a \<Rightarrow>
          (let s1 = pushFront a (remove_node a s)
           in (Some (decompressEnvelope z (bn_Env (the (bs_Heap s1 a)))), s1)))"

subsection \<open>The list in the heap\<close>

definition first_of :: "nat list \<Rightarrow> nat option \<Rightarrow> nat option" where
  "first_of xs q = (case xs of [] \<Rightarrow> q | x # _ \<Rightarrow> Some x)"

definition last_of :: "nat list \<Rightarrow> nat option \<Rightarrow> nat option" where
  "last_of xs p = (if xs = [] then p else Some (last xs))"

text \<open>The nodes of a list of addresses, linked both ways between \<open>p\<close> and \<open>q\<close>.\<close>

fun linked :: "(nat \<Rightarrow> body_node option) \<Rightarrow> nat option \<Rightarrow> nat list \<Rightarrow> nat option \<Rightarrow> bool" where
  "linked h p [] q = True"
| "linked h p (a # as) q \<longleftrightarrow>
     (\<exists>n. h a = Some n \<and> bn_Prev n = p \<and> bn_Next n = first_of as q) \<and> linked h (Some a) as q"

lemma first_of_simps [simp]: "first_of [] q = q" "first_of (x # xs) q = Some x" "first_of (xs @ ys) q = first_of xs (first_of ys q)"
  by (auto simp: first_of_def split: list.split)

lemma last_of_simps [simp]: "last_of [] p = p" "last_of (xs @ [x]) p = Some x" "last_of (x # xs) p = last_of xs (Some x)"
  by (auto simp: last_of_def)

lemma linked_append: "linked h p (xs @ ys) q \<longleftrightarrow> linked h p xs (first_of ys q) \<and> linked h (last_of xs p) ys q"
  by (induction xs arbitrary: p) auto

lemma linked_cong: "(\<And>a. a \<in> set xs \<Longrightarrow> h a = h' a) \<Longrightarrow> linked h p xs q = linked h' p xs q"
  by (induction xs arbitrary: p) auto

lemma linked_node: "linked h p (xs @ a # ys) q \<Longrightarrow>
    \<exists>n. h a = Some n \<and> bn_Prev n = last_of xs p \<and> bn_Next n = first_of ys q"
  by (simp add: linked_append)

lemma linked_next:
  assumes "linked h p (xs @ [a]) q" "a \<notin> set xs"
  shows "linked (h(a := map_option (\<lambda>m. m\<lparr>bn_Next := q'\<rparr>) (h a))) p (xs @ [a]) q'"
proof -
  have "linked (h(a := map_option (\<lambda>m. m\<lparr>bn_Next := q'\<rparr>) (h a))) p xs (Some a) = linked h p xs (Some a)"
    by (rule linked_cong) (use assms(2) in auto)
  with assms(1) show ?thesis by (auto simp: linked_append)
qed

lemma linked_prev:
  assumes "linked h p (a # ys) q" "a \<notin> set ys"
  shows "linked (h(a := map_option (\<lambda>m. m\<lparr>bn_Prev := p'\<rparr>) (h a))) p' (a # ys) q"
proof -
  have "linked (h(a := map_option (\<lambda>m. m\<lparr>bn_Prev := p'\<rparr>) (h a))) (Some a) ys q = linked h (Some a) ys q"
    by (rule linked_cong) (use assms(2) in auto)
  with assms(1) show ?thesis by auto
qed

definition node_data :: "body_node \<Rightarrow> string \<times> compressed_envelope \<times> int" where
  "node_data n = (bn_ID n, bn_Env n, bn_Bytes n)"

definition same_data :: "body_store \<Rightarrow> body_store \<Rightarrow> bool" where
  "same_data s s' \<longleftrightarrow> (\<forall>b. map_option node_data (bs_Heap s' b) = map_option node_data (bs_Heap s b)) \<and>
     bs_Bytes s' = bs_Bytes s \<and> bs_Entries s' = bs_Entries s \<and> bs_Capacity s' = bs_Capacity s \<and> bs_Fresh s' = bs_Fresh s"

definition chain :: "body_store \<Rightarrow> nat list \<Rightarrow> bool" where
  "chain s as \<longleftrightarrow> distinct as \<and> linked (bs_Heap s) None as None \<and> bs_Head s = first_of as None \<and>
     bs_Tail s = last_of as None \<and> (\<forall>a \<in> set as. a < bs_Fresh s)"

lemma set_node_simps [simp]:
  "bs_Heap (set_node a f s) = (bs_Heap s)(a := map_option f (bs_Heap s a))"
  "bs_Head (set_node a f s) = bs_Head s" "bs_Tail (set_node a f s) = bs_Tail s" "bs_Fresh (set_node a f s) = bs_Fresh s"
  "bs_Bytes (set_node a f s) = bs_Bytes s" "bs_Entries (set_node a f s) = bs_Entries s" "bs_Capacity (set_node a f s) = bs_Capacity s"
  by (simp_all add: set_node_def)

lemma map_data [simp]:
  "map_option node_data (map_option (\<lambda>m. m\<lparr>bn_Next := q\<rparr>) x) = map_option node_data x"
  "map_option node_data (map_option (\<lambda>m. m\<lparr>bn_Prev := q\<rparr>) x) = map_option node_data x"
  "map_option node_data (map_option (\<lambda>m. m\<lparr>bn_Prev := q, bn_Next := r\<rparr>) x) = map_option node_data x"
  by (cases x; simp add: node_data_def)+

lemma linked_skip: "a \<notin> set xs \<Longrightarrow> linked (h(a := x)) p xs q = linked h p xs q"
  by (rule linked_cong) auto

lemma remove_chain:
  assumes c: "chain s (xs @ a # ys)"
  shows "chain (remove_node a s) (xs @ ys)" "same_data s (remove_node a s)" "bs_Heap (remove_node a s) a \<noteq> None"
proof -
  from c have d: "distinct (xs @ a # ys)" and l: "linked (bs_Heap s) None (xs @ a # ys) None"
    and fr: "\<forall>b \<in> set (xs @ a # ys). b < bs_Fresh s" by (auto simp: chain_def)
  obtain n where n: "bs_Heap s a = Some n" "bn_Prev n = last_of xs None" "bn_Next n = first_of ys None"
    using linked_node [OF l] by auto
  have lx: "linked (bs_Heap s) None xs (Some a)" and ly: "linked (bs_Heap s) (Some a) ys None"
    using l by (simp_all add: linked_append)
  define s1 where "s1 = (case bn_Prev n of Some p \<Rightarrow> set_node p (\<lambda>m. m\<lparr>bn_Next := bn_Next n\<rparr>) s | None \<Rightarrow> s\<lparr>bs_Head := bn_Next n\<rparr>)"
  define s2 where "s2 = (case bn_Next n of Some x \<Rightarrow> set_node x (\<lambda>m. m\<lparr>bn_Prev := bn_Prev n\<rparr>) s1 | None \<Rightarrow> s1\<lparr>bs_Tail := bn_Prev n\<rparr>)"
  have r: "remove_node a s = set_node a (\<lambda>m. m\<lparr>bn_Prev := None, bn_Next := None\<rparr>) s2"
    unfolding remove_node_def Let_def n(1) option.sel s1_def s2_def ..
  have x1: "linked (bs_Heap s1) None xs (first_of ys None) \<and> linked (bs_Heap s1) (Some a) ys None \<and>
      bs_Head s1 = first_of (xs @ ys) None \<and> bs_Tail s1 = bs_Tail s \<and> same_data s s1"
  proof (cases xs rule: rev_cases)
    case Nil
    with n ly show ?thesis by (simp add: s1_def same_data_def)
  next
    case (snoc xs' p)
    then have s1: "s1 = set_node p (\<lambda>m. m\<lparr>bn_Next := bn_Next n\<rparr>) s" using n by (simp add: s1_def)
    have "linked (bs_Heap s1) None xs (first_of ys None)"
      unfolding s1 snoc using linked_next [of "bs_Heap s" None xs' p "Some a" "bn_Next n"] lx d snoc n(3) by simp
    moreover have "linked (bs_Heap s1) (Some a) ys None"
      unfolding s1 using ly d snoc by (simp add: linked_skip)
    moreover have "bs_Head s = first_of (xs @ ys) None" using c snoc by (cases xs') (auto simp: chain_def)
    ultimately show ?thesis by (simp add: s1 same_data_def)
  qed
  have x2: "linked (bs_Heap s2) None xs (first_of ys None) \<and> linked (bs_Heap s2) (last_of xs None) ys None \<and>
      bs_Head s2 = bs_Head s1 \<and> bs_Tail s2 = last_of (xs @ ys) None \<and> same_data s s2"
  proof (cases ys)
    case Nil
    with n x1 show ?thesis by (auto simp: s2_def same_data_def)
  next
    case (Cons y ys')
    then have s2: "s2 = set_node y (\<lambda>m. m\<lparr>bn_Prev := bn_Prev n\<rparr>) s1" using n by (simp add: s2_def)
    have "linked (bs_Heap s2) (last_of xs None) ys None"
      unfolding s2 Cons using linked_prev [of "bs_Heap s1" "Some a" y ys' None "bn_Prev n"] x1 d Cons n(2) by simp
    moreover have "linked (bs_Heap s2) None xs (first_of ys None)"
      unfolding s2 using x1 d Cons by (simp add: linked_skip)
    moreover have "bs_Tail s = last_of (xs @ ys) None" using c Cons by (simp add: chain_def last_of_def)
    ultimately show ?thesis using x1 by (simp add: s2 same_data_def)
  qed
  have "linked (bs_Heap (remove_node a s)) None (xs @ ys) None"
    using x2 d by (simp add: r linked_append linked_skip)
  with x1 x2 d fr show "chain (remove_node a s) (xs @ ys)" by (auto simp: chain_def r same_data_def)
  from x2 show "same_data s (remove_node a s)" by (simp add: r same_data_def)
  from x2 n(1) have "bs_Heap s2 a \<noteq> None" unfolding same_data_def by (metis option.map_disc_iff option.distinct(1))
  then show "bs_Heap (remove_node a s) a \<noteq> None" by (simp add: r)
qed

lemma push_chain:
  assumes c: "chain s as" and a: "a \<notin> set as" "bs_Heap s a \<noteq> None" "a < bs_Fresh s"
  shows "chain (pushFront a s) (a # as)" "same_data s (pushFront a s)"
proof -
  define s1 where "s1 = set_node a (\<lambda>n. n\<lparr>bn_Prev := None, bn_Next := bs_Head s\<rparr>) s"
  from a(2) obtain n where n: "bs_Heap s a = Some n" by auto
  have s1: "linked (bs_Heap s1) None as None" "bs_Heap s1 a = Some (n\<lparr>bn_Prev := None, bn_Next := bs_Head s\<rparr>)"
    "bs_Head s1 = bs_Head s" "bs_Tail s1 = bs_Tail s" "bs_Fresh s1 = bs_Fresh s" "same_data s s1"
    using c a(1) n by (simp_all add: s1_def linked_skip chain_def same_data_def node_data_def)
  have pf: "pushFront a s =
      (let s2 = (case bs_Head s1 of None \<Rightarrow> s1 | Some h \<Rightarrow> set_node h (\<lambda>n. n\<lparr>bn_Prev := Some a\<rparr>) s1); s3 = s2\<lparr>bs_Head := Some a\<rparr>
       in if bs_Tail s3 = None then s3\<lparr>bs_Tail := Some a\<rparr> else s3)"
    unfolding pushFront_def s1_def Let_def ..
  have "chain (pushFront a s) (a # as) \<and> same_data s (pushFront a s)"
  proof (cases as)
    case Nil
    with c a(3) s1 have "pushFront a s = s1\<lparr>bs_Head := Some a, bs_Tail := Some a\<rparr>"
      by (simp add: pf chain_def Let_def)
    with Nil c a(3) s1 show ?thesis by (simp add: chain_def same_data_def)
  next
    case (Cons b bs)
    then have hd: "bs_Head s = Some b" "bs_Tail s = last_of as None" "bs_Tail s \<noteq> None"
      using c by (auto simp: chain_def last_of_def)
    with s1 have p: "pushFront a s = (set_node b (\<lambda>n. n\<lparr>bn_Prev := Some a\<rparr>) s1)\<lparr>bs_Head := Some a\<rparr>"
      by (auto simp: pf Let_def)
    have ne: "b \<noteq> a" "b \<notin> set bs" using a(1) c Cons by (auto simp: chain_def)
    have "linked (bs_Heap (pushFront a s)) (Some a) as None"
      unfolding p Cons using linked_prev [of "bs_Heap s1" None b bs None "Some a"] s1(1) ne(2) Cons by simp
    moreover have "bs_Heap (pushFront a s) a = bs_Heap s1 a" using ne(1) by (simp add: p)
    moreover have "same_data s (pushFront a s)" using s1(6) by (simp add: p same_data_def)
    ultimately show ?thesis using c a hd s1 Cons
      by (simp add: chain_def p last_of_def del: linked.simps(2)) (simp add: chain_def)
  qed
  then show "chain (pushFront a s) (a # as)" "same_data s (pushFront a s)" by auto
qed

subsection \<open>The store implements an LRU list\<close>

text \<open>The specification: entries with their cost, the most recently used first.\<close>

type_synonym lru = "(string \<times> compressed_envelope \<times> int) list"

definition lru_size :: "lru \<Rightarrow> int" where
  "lru_size xs = sum_list (map (\<lambda>x. snd (snd x)) xs)"

function lru_evict :: "int \<Rightarrow> int \<Rightarrow> lru \<Rightarrow> lru" where
  "lru_evict cap need xs = (if xs \<noteq> [] \<and> lru_size xs + need > cap then lru_evict cap need (butlast xs) else xs)"
  by pat_completeness auto

termination by (relation "measure (\<lambda>(cap, need, xs). length xs)") auto

declare lru_evict.simps [simp del]

definition lru_drop :: "string \<Rightarrow> lru \<Rightarrow> lru" where
  "lru_drop k xs = filter (\<lambda>x. fst x \<noteq> k) xs"

definition lru_put :: "int \<Rightarrow> string \<Rightarrow> compressed_envelope \<Rightarrow> lru \<Rightarrow> lru" where
  "lru_put cap k c xs =
     (let need = int (envelope_bytes c)
      in if need > cap then xs else (k, c, need) # lru_evict cap need (lru_drop k xs))"

definition lru_get :: "string \<Rightarrow> lru \<Rightarrow> compressed_envelope option \<times> lru" where
  "lru_get k xs = (case map_of xs k of None \<Rightarrow> (None, xs) | Some (c, n) \<Rightarrow> (Some c, (k, c, n) # lru_drop k xs))"

definition view :: "body_store \<Rightarrow> nat list \<Rightarrow> lru" where
  "view s as = map (\<lambda>a. node_data (the (bs_Heap s a))) as"

definition indexed :: "body_store \<Rightarrow> nat list \<Rightarrow> bool" where
  "indexed s as \<longleftrightarrow> (\<forall>k a. map_of (bs_Entries s) k = Some a \<longleftrightarrow> a \<in> set as \<and> fst (node_data (the (bs_Heap s a))) = k)"

definition represents :: "body_store \<Rightarrow> lru \<Rightarrow> bool" where
  "represents s xs \<longleftrightarrow> (\<exists>as. chain s as \<and> xs = view s as \<and> indexed s as \<and> bs_Bytes s = lru_size xs)"

lemma linked_some: "linked h p as q \<Longrightarrow> a \<in> set as \<Longrightarrow> h a \<noteq> None"
  by (induction as arbitrary: p) auto

lemma same_data_view:
  assumes "same_data s s'" "\<forall>a \<in> set as. bs_Heap s a \<noteq> None"
  shows "view s' as = view s as"
proof -
  have "node_data (the (bs_Heap s' a)) = node_data (the (bs_Heap s a))" if "a \<in> set as" for a
  proof -
    from assms that obtain n where n: "bs_Heap s a = Some n" by auto
    from assms(1) have "map_option node_data (bs_Heap s' a) = map_option node_data (bs_Heap s a)"
      unfolding same_data_def by blast
    with n show ?thesis by auto
  qed
  then show ?thesis by (simp add: view_def)
qed

lemma indexed_inj: "indexed s as \<Longrightarrow> a \<in> set as \<Longrightarrow> b \<in> set as \<Longrightarrow>
    fst (node_data (the (bs_Heap s a))) = fst (node_data (the (bs_Heap s b))) \<Longrightarrow> a = b"
  unfolding indexed_def by (metis option.inject)

lemma view_keys: "indexed s as \<Longrightarrow> distinct as \<Longrightarrow> distinct (map fst (view s as))"
  by (auto simp: view_def distinct_map inj_on_def dest: indexed_inj)

lemma view_simps [simp]: "view s [] = []" "view s (a # as) = node_data (the (bs_Heap s a)) # view s as"
  "view s (xs @ ys) = view s xs @ view s ys"
  by (simp_all add: view_def)

lemma lru_size_simps [simp]: "lru_size [] = 0" "lru_size (x # xs) = snd (snd x) + lru_size xs"
  "lru_size (xs @ ys) = lru_size xs + lru_size ys"
  by (simp_all add: lru_size_def)

lemma take_out:
  assumes c: "chain s (xs @ a # ys)" and i: "indexed s (xs @ a # ys)" and b: "bs_Bytes s = lru_size (view s (xs @ a # ys))"
    and n: "bs_Heap s a = Some n"
  defines "s' \<equiv> (remove_node a (s\<lparr>bs_Bytes := bs_Bytes s - bn_Bytes n\<rparr>))
      \<lparr>bs_Entries := AList.delete (bn_ID n) (bs_Entries (remove_node a (s\<lparr>bs_Bytes := bs_Bytes s - bn_Bytes n\<rparr>)))\<rparr>"
  shows "chain s' (xs @ ys)" "view s' (xs @ ys) = view s (xs @ ys)" "indexed s' (xs @ ys)"
    "bs_Bytes s' = lru_size (view s' (xs @ ys))" "bs_Capacity s' = bs_Capacity s"
proof -
  let ?s0 = "s\<lparr>bs_Bytes := bs_Bytes s - bn_Bytes n\<rparr>"
  have c0: "chain ?s0 (xs @ a # ys)" using c by (simp add: chain_def)
  note r = remove_chain [OF c0]
  from r(1) show ch: "chain s' (xs @ ys)" by (simp add: s'_def chain_def)
  have some: "\<forall>x \<in> set (xs @ a # ys). bs_Heap ?s0 x \<noteq> None" using c linked_some by (auto simp: chain_def)
  have nd: "node_data (the (bs_Heap s' x)) = node_data (the (bs_Heap s x))" if "x \<in> set (xs @ a # ys)" for x
  proof -
    have "view (remove_node a ?s0) [x] = view ?s0 [x]" by (rule same_data_view [OF r(2)]) (use some that in auto)
    then show ?thesis by (simp add: view_def s'_def)
  qed
  then show vv: "view s' (xs @ ys) = view s (xs @ ys)" by (simp add: view_def)
  have e: "bs_Entries s' = AList.delete (bn_ID n) (bs_Entries s)" using r(2) by (simp add: s'_def same_data_def)
  have ka: "fst (node_data (the (bs_Heap s a))) = bn_ID n" using n by (simp add: node_data_def)
  from c have d: "a \<notin> set (xs @ ys)" by (simp add: chain_def)
  show "indexed s' (xs @ ys)" unfolding indexed_def
  proof (intro allI)
    fix k x
    show "map_of (bs_Entries s') k = Some x \<longleftrightarrow> x \<in> set (xs @ ys) \<and> fst (node_data (the (bs_Heap s' x))) = k"
    proof (cases "k = bn_ID n")
      case True
      have "\<not> (x \<in> set (xs @ ys) \<and> fst (node_data (the (bs_Heap s' x))) = k)"
        using indexed_inj [OF i, of x a] d True ka nd [of x] by auto
      then show ?thesis unfolding e delete_conv' using True by simp
    next
      case False
      have "map_of (bs_Entries s) k = Some x \<longleftrightarrow> x \<in> set (xs @ a # ys) \<and> fst (node_data (the (bs_Heap s x))) = k"
        using i unfolding indexed_def by blast
      with False ka nd [of x] show ?thesis unfolding e delete_conv' by auto
    qed
  qed
  have "bs_Bytes s' = bs_Bytes s - bn_Bytes n" "bs_Capacity s' = bs_Capacity s" using r(2) by (simp_all add: s'_def same_data_def)
  then show "bs_Bytes s' = lru_size (view s' (xs @ ys))" "bs_Capacity s' = bs_Capacity s"
    using b n unfolding vv by (simp_all add: node_data_def)
qed

lemma drop_split:
  assumes "indexed s (us @ a # vs)" "a \<notin> set (us @ vs)" "fst (node_data (the (bs_Heap s a))) = k"
  shows "lru_drop k (view s (us @ a # vs)) = view s (us @ vs)"
proof -
  have "fst (node_data (the (bs_Heap s y))) \<noteq> k" if "y \<in> set (us @ vs)" for y
    using indexed_inj [OF assms(1), of y a] that assms(2,3) by auto
  then have "filter (\<lambda>x. fst x \<noteq> k) (view s us) = view s us" "filter (\<lambda>x. fst x \<noteq> k) (view s vs) = view s vs"
    by (auto simp: view_def filter_id_conv)
  with assms(3) show ?thesis by (simp add: lru_drop_def)
qed

lemma delete_refines:
  assumes "represents s xs"
  shows "represents (store_Delete k s) (lru_drop k xs) \<and> bs_Capacity (store_Delete k s) = bs_Capacity s"
proof -
  from assms obtain as where c: "chain s as" and x: "xs = view s as" and i: "indexed s as" and b: "bs_Bytes s = lru_size xs"
    by (auto simp: represents_def)
  show ?thesis
  proof (cases "map_of (bs_Entries s) k")
    case None
    then have "fst (node_data (the (bs_Heap s a))) \<noteq> k" if "a \<in> set as" for a
      using i that unfolding indexed_def by (metis option.distinct(1))
    then have "lru_drop k xs = xs" by (auto simp: lru_drop_def x view_def filter_id_conv)
    with None assms show ?thesis by (simp add: store_Delete_def)
  next
    case (Some a)
    with i have a: "a \<in> set as" "fst (node_data (the (bs_Heap s a))) = k" unfolding indexed_def by blast+
    then obtain us vs where as: "as = us @ a # vs" by (meson split_list)
    from a(1) c linked_some obtain n where n: "bs_Heap s a = Some n" unfolding chain_def by blast
    with a(2) have k: "k = bn_ID n" by (simp add: node_data_def)
    note t = take_out [OF c [unfolded as] i [unfolded as] b [unfolded x as] n]
    have "store_Delete k s = (remove_node a (s\<lparr>bs_Bytes := bs_Bytes s - bn_Bytes n\<rparr>))
      \<lparr>bs_Entries := AList.delete (bn_ID n) (bs_Entries (remove_node a (s\<lparr>bs_Bytes := bs_Bytes s - bn_Bytes n\<rparr>)))\<rparr>"
      using Some n k by (simp add: store_Delete_def Let_def)
    moreover have "lru_drop k xs = view s (us @ vs)"
      using drop_split [of s us a vs k] i c a(2) as x by (auto simp: chain_def)
    ultimately show ?thesis using t unfolding represents_def by auto
  qed
qed

lemma evict_refines:
  assumes "represents s xs" "xs \<noteq> []"
  shows "represents (evictOldestLocked s) (butlast xs) \<and> bs_Capacity (evictOldestLocked s) = bs_Capacity s \<and> bs_Tail s \<noteq> None"
proof -
  from assms obtain as where c: "chain s as" and x: "xs = view s as" and i: "indexed s as" and b: "bs_Bytes s = lru_size xs"
    by (auto simp: represents_def)
  with assms(2) have "as \<noteq> []" by auto
  then obtain us a where as: "as = us @ [a]" by (metis append_butlast_last_id)
  then have "a \<in> set as" by simp
  with c linked_some obtain n where n: "bs_Heap s a = Some n" unfolding chain_def by blast
  have tl: "bs_Tail s = Some a" using c as by (simp add: chain_def)
  note t = take_out [of s us a "[]" n, OF _ _ _ n]
  have "evictOldestLocked s = (remove_node a (s\<lparr>bs_Bytes := bs_Bytes s - bn_Bytes n\<rparr>))
      \<lparr>bs_Entries := AList.delete (bn_ID n) (bs_Entries (remove_node a (s\<lparr>bs_Bytes := bs_Bytes s - bn_Bytes n\<rparr>)))\<rparr>"
    using tl n by (simp add: evictOldestLocked_def Let_def)
  moreover have "butlast xs = view s us" by (simp add: x as)
  ultimately show ?thesis using t c i b x as tl unfolding represents_def by auto
qed

lemma represents_tail: "represents s xs \<Longrightarrow> (bs_Tail s \<noteq> None) = (xs \<noteq> [])"
  by (auto simp: represents_def chain_def last_of_def view_def)

lemma evict_loop_refines:
  assumes "represents s xs"
  shows "\<exists>s'. evict_loop need s = Some s' \<and> represents s' (lru_evict (bs_Capacity s) need xs) \<and> bs_Capacity s' = bs_Capacity s"
  using assms
proof (induction "length xs" arbitrary: s xs)
  case 0
  then have "bs_Tail s = None" using represents_tail [OF 0(2)] by simp
  with 0 show ?case by (simp add: evict_loop_def while_option_unfold lru_evict.simps)
next
  case (Suc m)
  have b: "bs_Bytes s = lru_size xs" using Suc.prems by (auto simp: represents_def)
  have t: "bs_Tail s \<noteq> None" "xs \<noteq> []" using represents_tail [OF Suc.prems] Suc.hyps(2) by auto
  show ?case
  proof (cases "lru_size xs + need > bs_Capacity s")
    case False
    with t b Suc.prems show ?thesis by (simp add: evict_loop_def while_option_unfold lru_evict.simps)
  next
    case True
    note e = evict_refines [OF Suc.prems t(2)]
    have "evict_loop need s = evict_loop need (evictOldestLocked s)"
      using True t b by (simp add: evict_loop_def) (subst while_option_unfold, simp)
    moreover have "lru_evict (bs_Capacity s) need xs = lru_evict (bs_Capacity s) need (butlast xs)"
      using True t(2) by (subst lru_evict.simps) simp
    ultimately show ?thesis using Suc.hyps(1) [of "butlast xs" "evictOldestLocked s"] e Suc.hyps(2) by simp
  qed
qed

lemma lru_evict_sub: "set (lru_evict cap need xs) \<subseteq> set xs"
proof (induction cap need xs rule: lru_evict.induct)
  case (1 cap need xs)
  then show ?case by (subst lru_evict.simps) (auto dest: in_set_butlastD)
qed

lemma lru_evict_fits: "need \<le> cap \<Longrightarrow> lru_size (lru_evict cap need xs) + need \<le> cap"
proof (induction cap need xs rule: lru_evict.induct)
  case (1 cap need xs)
  then show ?case by (subst lru_evict.simps) auto
qed

lemma lru_drop_keys: "k \<notin> fst ` set (lru_drop k xs)"
  by (auto simp: lru_drop_def)

text \<open>A fresh or detached node pushed to the front joins the view at its head.\<close>

lemma push_refines:
  assumes c: "chain s as" and a: "a \<notin> set as" "bs_Heap s a = Some n" "a < bs_Fresh s"
    and i: "\<forall>k x. map_of (bs_Entries s) k = Some x \<longleftrightarrow> x \<in> set (a # as) \<and> fst (node_data (the (bs_Heap s x))) = k"
    and b: "bs_Bytes s = lru_size (node_data n # view s as)"
  shows "represents (pushFront a s) (node_data n # view s as) \<and> bs_Capacity (pushFront a s) = bs_Capacity s"
proof -
  note p = push_chain [OF c a(1) _ a(3)]
  have ne: "bs_Heap s a \<noteq> None" using a(2) by simp
  have some: "\<forall>x \<in> set (a # as). bs_Heap s x \<noteq> None" using c linked_some ne unfolding chain_def by auto
  have v: "view (pushFront a s) zs = view s zs" if "set zs \<subseteq> set (a # as)" for zs
    by (rule same_data_view [OF p(2) [OF ne]]) (use some that in auto)
  have d: "node_data (the (bs_Heap (pushFront a s) x)) = node_data (the (bs_Heap s x))" if "x \<in> set (a # as)" for x
    using v [of "[x]"] that by (simp add: view_def)
  have f: "bs_Bytes (pushFront a s) = bs_Bytes s" "bs_Entries (pushFront a s) = bs_Entries s" "bs_Capacity (pushFront a s) = bs_Capacity s"
    using p(2) [OF ne] by (simp_all add: same_data_def)
  have "indexed (pushFront a s) (a # as)" unfolding indexed_def f using i d by metis
  moreover have "view (pushFront a s) (a # as) = node_data n # view s as" using v [of "a # as"] a(2) by simp
  ultimately show ?thesis using p(1) [OF ne] f b unfolding represents_def by metis
qed

theorem Put_refines:
  assumes "represents s xs"
  shows "\<exists>s'. Put z k env s = Some s' \<and> represents s' (lru_put (bs_Capacity s) k (compressEnvelope z env) xs) \<and>
    bs_Capacity s' = bs_Capacity s"
proof -
  let ?c = "compressEnvelope z env" let ?need = "int (envelope_bytes (compressEnvelope z env))"
  show ?thesis
  proof (cases "?need > bs_Capacity s")
    case True
    with assms show ?thesis by (simp add: Put_def lru_put_def Let_def)
  next
    case False
    note d = delete_refines [OF assms, of k]
    obtain s2 where s2: "evict_loop ?need (store_Delete k s) = Some s2"
      and r: "represents s2 (lru_evict (bs_Capacity s) ?need (lru_drop k xs))" and cap: "bs_Capacity s2 = bs_Capacity s"
      using evict_loop_refines [of "store_Delete k s" _ ?need] d by fastforce
    define ys where "ys = lru_evict (bs_Capacity s) ?need (lru_drop k xs)"
    from r obtain as where c: "chain s2 as" and ys: "ys = view s2 as" and i: "indexed s2 as" and b: "bs_Bytes s2 = lru_size ys"
      by (auto simp: represents_def ys_def)
    let ?a = "bs_Fresh s2"
    let ?n = "\<lparr>bn_ID = k, bn_Env = ?c, bn_Bytes = ?need, bn_Prev = None, bn_Next = None\<rparr>"
    define s3 where "s3 = s2\<lparr>bs_Heap := (bs_Heap s2)(?a := Some ?n), bs_Fresh := ?a + 1,
        bs_Entries := AList.update k ?a (bs_Entries s2), bs_Bytes := bs_Bytes s2 + ?need\<rparr>"
    have pe: "Put z k env s = Some (pushFront ?a s3)" using False s2 by (simp add: Put_def Let_def s3_def)
    have fa: "?a \<notin> set as" using c by (auto simp: chain_def)
    have c3: "chain s3 as" using c fa by (auto simp: chain_def s3_def linked_skip)
    have nk: "fst (node_data (the (bs_Heap s2 x))) \<noteq> k" if "x \<in> set as" for x
    proof -
      have "k \<notin> fst ` set ys" using lru_drop_keys [of k xs] lru_evict_sub unfolding ys_def by fastforce
      with that show ?thesis by (auto simp: ys view_def)
    qed
    have v3: "view s3 as = ys" using fa by (auto simp: view_def ys s3_def)
    have "\<forall>k' x. map_of (bs_Entries s3) k' = Some x \<longleftrightarrow> x \<in> set (?a # as) \<and> fst (node_data (the (bs_Heap s3 x))) = k'"
    proof (intro allI)
      fix k' x
      have "map_of (bs_Entries s2) k' = Some x \<longleftrightarrow> x \<in> set as \<and> fst (node_data (the (bs_Heap s2 x))) = k'"
        using i unfolding indexed_def by blast
      with fa nk show "map_of (bs_Entries s3) k' = Some x \<longleftrightarrow> x \<in> set (?a # as) \<and> fst (node_data (the (bs_Heap s3 x))) = k'"
        by (auto simp: s3_def update_conv' node_data_def)
    qed
    from push_refines [OF c3 fa _ _ this, of ?n] b v3 cap pe show ?thesis
      using False by (simp add: s3_def node_data_def lru_put_def Let_def ys_def)
  qed
qed

lemma map_of_view: "indexed s as \<Longrightarrow> distinct as \<Longrightarrow> a \<in> set as \<Longrightarrow> node_data (the (bs_Heap s a)) = (k, v) \<Longrightarrow>
    map_of (view s as) k = Some v"
proof (rule map_of_is_SomeI)
  assume i: "indexed s as" "distinct as" and a: "a \<in> set as" "node_data (the (bs_Heap s a)) = (k, v)"
  from view_keys [OF i] show "distinct (map fst (view s as))" .
  from a show "(k, v) \<in> set (view s as)" unfolding view_def by force
qed

theorem Get_refines:
  assumes "represents s xs"
  shows "fst (Get z k s) = map_option (decompressEnvelope z) (fst (lru_get k xs)) \<and>
    represents (snd (Get z k s)) (snd (lru_get k xs)) \<and> bs_Capacity (snd (Get z k s)) = bs_Capacity s"
proof -
  from assms obtain as where c: "chain s as" and x: "xs = view s as" and i: "indexed s as" and b: "bs_Bytes s = lru_size xs"
    by (auto simp: represents_def)
  show ?thesis
  proof (cases "map_of (bs_Entries s) k")
    case None
    then have "fst (node_data (the (bs_Heap s a))) \<noteq> k" if "a \<in> set as" for a
      using i that unfolding indexed_def by (metis option.distinct(1))
    then have "k \<notin> (\<lambda>a. fst (node_data (the (bs_Heap s a)))) ` set as" by blast
    then have "map_of xs k = None" by (simp add: map_of_eq_None_iff x view_def image_image)
    with None assms show ?thesis by (simp add: Get_def lru_get_def)
  next
    case (Some a)
    with i have a: "a \<in> set as" "fst (node_data (the (bs_Heap s a))) = k" unfolding indexed_def by blast+
    then obtain us vs where as: "as = us @ a # vs" by (meson split_list)
    from a(1) c linked_some obtain n where n: "bs_Heap s a = Some n" unfolding chain_def by blast
    with a(2) have nd: "node_data n = (k, bn_Env n, bn_Bytes n)" by (simp add: node_data_def)
    note r = remove_chain [OF c [unfolded as]]
    let ?s1 = "remove_node a s"
    from r(2) n have "map_option node_data (bs_Heap ?s1 a) = Some (node_data n)" unfolding same_data_def by simp
    then obtain m where m: "bs_Heap ?s1 a = Some m" "node_data m = node_data n" by auto
    have some: "\<forall>y \<in> set as. bs_Heap s y \<noteq> None" using c linked_some by (auto simp: chain_def)
    have v: "view ?s1 zs = view s zs" if "set zs \<subseteq> set as" for zs
      by (rule same_data_view [OF r(2)]) (use some that in auto)
    have d: "node_data (the (bs_Heap ?s1 y)) = node_data (the (bs_Heap s y))" if "y \<in> set as" for y
      using v [of "[y]"] that by (simp add: view_def)
    have da: "distinct as" using c by (simp add: chain_def)
    have na: "a \<notin> set (us @ vs)" "a < bs_Fresh ?s1" using c r(2) as by (auto simp: chain_def same_data_def)
    have sa: "set (a # us @ vs) = set as" using as by auto
    have ix: "\<forall>k x. map_of (bs_Entries ?s1) k = Some x \<longleftrightarrow> x \<in> set (a # us @ vs) \<and> fst (node_data (the (bs_Heap ?s1 x))) = k"
    proof -
      have "bs_Entries ?s1 = bs_Entries s" using r(2) by (simp add: same_data_def)
      then show ?thesis unfolding sa using i d unfolding indexed_def by metis
    qed
    have vd: "view ?s1 (us @ vs) = lru_drop k xs"
      using v [of "us @ vs"] drop_split [of s us a vs k] i na(1) a(2) as x by auto
    have sz: "bs_Bytes ?s1 = lru_size (node_data m # view ?s1 (us @ vs))"
    proof -
      have "view ?s1 (us @ vs) = view s (us @ vs)" by (rule v) (use as in auto)
      moreover have "bs_Bytes ?s1 = bs_Bytes s" using r(2) by (simp add: same_data_def)
      ultimately show ?thesis using b as n m(2) by (simp add: x)
    qed
    note p = push_refines [OF r(1) na(1) m(1) na(2) ix sz]
    have lg: "lru_get k xs = (Some (bn_Env n), (k, bn_Env n, bn_Bytes n) # lru_drop k xs)"
      using map_of_view [OF i da a(1), of k "(bn_Env n, bn_Bytes n)"] n nd x by (simp add: lru_get_def)
    have ev: "bn_Env (the (bs_Heap (pushFront a ?s1) a)) = bn_Env n"
    proof -
      have "same_data ?s1 (pushFront a ?s1)" by (rule push_chain [OF r(1) na(1) r(3) na(2)])
      then have "map_option node_data (bs_Heap (pushFront a ?s1) a) = Some (node_data n)"
        using m unfolding same_data_def by simp
      then show ?thesis by (auto simp: node_data_def)
    qed
    have "bs_Capacity ?s1 = bs_Capacity s" using r(2) by (simp add: same_data_def)
    with p lg ev Some m(2) nd vd show ?thesis by (simp add: Get_def Let_def)
  qed
qed

subsection \<open>Runs of the store\<close>

datatype store_call = PutCall string body_envelope | GetCall string | DeleteCall string

text \<open>One call of a client; a \<^verbatim>\<open>Put\<close> that did not end would be \<open>None\<close>.\<close>

fun store_call_run :: "zstd \<Rightarrow> store_call \<Rightarrow> body_store \<Rightarrow> (body_envelope option \<times> body_store) option" where
  "store_call_run z (PutCall k e) s = map_option (Pair None) (Put z k e s)"
| "store_call_run z (GetCall k) s = Some (Get z k s)"
| "store_call_run z (DeleteCall k) s = Some (None, store_Delete k s)"

fun store_run :: "zstd \<Rightarrow> store_call list \<Rightarrow> body_store \<Rightarrow> (body_envelope option list \<times> body_store) option" where
  "store_run z [] s = Some ([], s)"
| "store_run z (c # cs) s =
     (case store_call_run z c s of
        None \<Rightarrow> None
      | Some (r, s1) \<Rightarrow> map_option (\<lambda>(rs, s2). (r # rs, s2)) (store_run z cs s1))"

fun lru_call :: "int \<Rightarrow> zstd \<Rightarrow> store_call \<Rightarrow> lru \<Rightarrow> body_envelope option \<times> lru" where
  "lru_call cap z (PutCall k e) xs = (None, lru_put cap k (compressEnvelope z e) xs)"
| "lru_call cap z (GetCall k) xs = apfst (map_option (decompressEnvelope z)) (lru_get k xs)"
| "lru_call cap z (DeleteCall k) xs = (None, lru_drop k xs)"

fun lru_run :: "int \<Rightarrow> zstd \<Rightarrow> store_call list \<Rightarrow> lru \<Rightarrow> body_envelope option list \<times> lru" where
  "lru_run cap z [] xs = ([], xs)"
| "lru_run cap z (c # cs) xs = (let (r, xs1) = lru_call cap z c xs in apfst ((#) r) (lru_run cap z cs xs1))"

definition costs_ok :: "lru \<Rightarrow> bool" where
  "costs_ok xs \<longleftrightarrow> (\<forall>x \<in> set xs. 0 \<le> snd (snd x))"

lemma lru_drop_size: "costs_ok xs \<Longrightarrow> lru_size (lru_drop k xs) \<le> lru_size xs"
  by (induction xs) (auto simp: lru_drop_def costs_ok_def)

lemma lru_take_size: "costs_ok xs \<Longrightarrow> map_of xs k = Some (c, n) \<Longrightarrow> n + lru_size (lru_drop k xs) \<le> lru_size xs"
proof (induction xs)
  case (Cons x xs)
  then show ?case using lru_drop_size [of xs k] by (cases x) (auto simp: lru_drop_def costs_ok_def split: if_splits)
qed simp

lemma lru_call_fits:
  assumes "lru_size xs \<le> cap" "costs_ok xs"
  shows "lru_size (snd (lru_call cap z c xs)) \<le> cap \<and> costs_ok (snd (lru_call cap z c xs))"
proof (cases c)
  case (PutCall k e)
  have "costs_ok (lru_evict cap need (lru_drop k xs))" for need
    using assms(2) lru_evict_sub [of cap need "lru_drop k xs"] by (auto simp: costs_ok_def lru_drop_def)
  moreover have "int (envelope_bytes (compressEnvelope z e)) \<le> cap \<Longrightarrow> int (envelope_bytes (compressEnvelope z e)) +
      lru_size (lru_evict cap (int (envelope_bytes (compressEnvelope z e))) (lru_drop k xs)) \<le> cap"
    using lru_evict_fits [of _ cap "lru_drop k xs"] by (simp add: add.commute)
  ultimately show ?thesis using PutCall assms by (auto simp: lru_put_def Let_def costs_ok_def)
next
  case (GetCall k)
  show ?thesis
  proof (cases "map_of xs k")
    case None
    with GetCall assms show ?thesis by (simp add: lru_get_def)
  next
    case (Some v)
    obtain c n where v: "v = (c, n)" by (cases v)
    with Some have "0 \<le> n" using assms(2) map_of_SomeD unfolding costs_ok_def by fastforce
    with Some v GetCall assms lru_take_size [of xs k c n] show ?thesis
      by (auto simp: lru_get_def costs_ok_def lru_drop_def)
  qed
next
  case (DeleteCall k)
  with assms lru_drop_size [of xs k] show ?thesis by (auto simp: costs_ok_def lru_drop_def)
qed

lemma store_call_refines:
  assumes "represents s xs"
  shows "\<exists>s'. store_call_run z c s = Some (fst (lru_call (bs_Capacity s) z c xs), s') \<and>
    represents s' (snd (lru_call (bs_Capacity s) z c xs)) \<and> bs_Capacity s' = bs_Capacity s"
proof (cases c)
  case (PutCall k e)
  with Put_refines [OF assms, of z k e] show ?thesis by auto
next
  case (GetCall k)
  with Get_refines [OF assms, of z k] show ?thesis by (cases "Get z k s") simp
next
  case (DeleteCall k)
  with delete_refines [OF assms, of k] show ?thesis by simp
qed

lemma store_run_refines:
  assumes "represents s xs" "lru_size xs \<le> bs_Capacity s" "costs_ok xs"
  shows "\<exists>s'. store_run z cs s = Some (fst (lru_run (bs_Capacity s) z cs xs), s') \<and>
    represents s' (snd (lru_run (bs_Capacity s) z cs xs)) \<and> bs_Bytes s' \<le> bs_Capacity s \<and> bs_Capacity s' = bs_Capacity s"
  using assms
proof (induction cs arbitrary: s xs)
  case Nil
  then show ?case by (auto simp: represents_def)
next
  case (Cons c cs)
  from store_call_refines [OF Cons.prems(1)] obtain s1 where
    s1: "store_call_run z c s = Some (fst (lru_call (bs_Capacity s) z c xs), s1)"
      "represents s1 (snd (lru_call (bs_Capacity s) z c xs))" "bs_Capacity s1 = bs_Capacity s" by blast
  note f = lru_call_fits [OF Cons.prems(2,3), of z c]
  from Cons.IH [OF s1(2)] f s1(3) show ?case
    using s1(1) by (auto simp: Let_def split_beta apfst_def map_prod_def)
qed

lemma new_store_represents:
  assumes "NewBodyStore cap = Some s"
  shows "represents s []" "bs_Capacity s = cap" "0 < cap"
proof -
  from assms have s: "s = \<lparr>bs_Capacity = cap, bs_Bytes = 0, bs_Entries = [], bs_Head = None, bs_Tail = None,
      bs_Heap = (\<lambda>_. None), bs_Fresh = 0\<rparr>" "0 < cap" by (auto simp: NewBodyStore_def split: if_splits)
  then show "bs_Capacity s = cap" "0 < cap" by simp_all
  have "chain s []" "view s [] = []" "indexed s []" using s by (simp_all add: chain_def indexed_def)
  then show "represents s []" using s unfolding represents_def by (intro exI [of _ "[]"]) simp
qed

lemma body_store_is_lru_core:
  assumes "NewBodyStore cap = Some s"
  shows "\<exists>s'. store_run z cs s = Some (fst (lru_run cap z cs []), s') \<and>
    represents s' (snd (lru_run cap z cs [])) \<and> bs_Bytes s' \<le> cap"
proof -
  note n = new_store_represents [OF assms]
  have "lru_size [] \<le> bs_Capacity s" "costs_ok []" using n by (simp_all add: costs_ok_def)
  from store_run_refines [OF n(1) this, of z cs] n(2) show ?thesis by auto
qed

text \<open>
  C23. The linked list with its index is an LRU cache: over any sequence of calls on a new store, every
  \<^verbatim>\<open>Put\<close> ends, the answers are those of a list kept in order of use, evicted from its end until
  the new entry fits, and the bytes accounted are the sum of the entries kept and never above the capacity.
\<close>

theorem body_store_is_lru:
  assumes "NewBodyStore cap = Some s"
  shows "\<exists>s'. store_run z cs s = Some (fst (lru_run cap z cs []), s') \<and>
    bs_Bytes s' = lru_size (snd (lru_run cap z cs [])) \<and> bs_Bytes s' \<le> cap \<and>
    (\<forall>k. fst (Get z k s') = map_option (decompressEnvelope z) (fst (lru_get k (snd (lru_run cap z cs [])))))"
proof -
  from body_store_is_lru_core [OF assms, of z cs] obtain s' where
    s': "store_run z cs s = Some (fst (lru_run cap z cs []), s')" "represents s' (snd (lru_run cap z cs []))" "bs_Bytes s' \<le> cap"
    by blast
  have "bs_Bytes s' = lru_size (snd (lru_run cap z cs []))" using s'(2) by (auto simp: represents_def)
  moreover have "fst (Get z k s') = map_option (decompressEnvelope z) (fst (lru_get k (snd (lru_run cap z cs []))))" for k
    using Get_refines [OF s'(2)] by blast
  ultimately show ?thesis using s' by blast
qed

definition sample_zstd :: zstd where
  "sample_zstd = \<lparr>zs_Encode = (\<lambda>s. CHR ''z'' # s), zs_Decode = (\<lambda>s. case s of [] \<Rightarrow> None | c # cs \<Rightarrow> Some cs)\<rparr>"

definition sample_envelope :: "string \<Rightarrow> body_envelope" where
  "sample_envelope b = \<lparr>be_Request = b, be_RequestTotalBytes = int (length b), be_RequestTruncated = False,
     be_Response = [], be_ResponseTotalBytes = 0, be_ResponseTruncated = False, be_ResponseAssembled = [],
     be_AssemblyPartial = False, be_RequestHeaders = [], be_ResponseHeaders = []\<rparr>"

definition sample_calls :: "store_call list" where
  "sample_calls = [PutCall ''a'' (sample_envelope ''111''), PutCall ''b'' (sample_envelope ''222''), GetCall ''a'',
     PutCall ''c'' (sample_envelope ''333''), GetCall ''a'', GetCall ''b'', PutCall ''d'' (sample_envelope ''too big'')]"

lemma body_store_is_lru_witness:
  "map_option (\<lambda>(rs, s'). (rs, bs_Bytes s')) (store_run sample_zstd sample_calls (the (NewBodyStore 8))) =
     Some ([None, None, Some (sample_envelope ''111''), None, Some (sample_envelope ''111''), None, None], 8)"
proof -
  have "NewBodyStore 8 = Some (the (NewBodyStore 8))" by (simp add: NewBodyStore_def)
  from body_store_is_lru [OF this, of sample_zstd sample_calls]
  obtain s' where s': "store_run sample_zstd sample_calls (the (NewBodyStore 8)) = Some (fst (lru_run 8 sample_zstd sample_calls []), s')"
    "bs_Bytes s' = lru_size (snd (lru_run 8 sample_zstd sample_calls []))" by blast
  have "fst (lru_run 8 sample_zstd sample_calls []) =
      [None, None, Some (sample_envelope ''111''), None, Some (sample_envelope ''111''), None, None]" by code_simp
  moreover have "lru_size (snd (lru_run 8 sample_zstd sample_calls [])) = 8" by code_simp
  ultimately show ?thesis using s' by simp
qed

text \<open>
  What was captured comes back: after any calls, a body envelope that fits the store is returned
  unchanged by the next read of its event, provided the zstd codec is lossless.
\<close>

theorem captured_body_roundtrip:
  assumes "NewBodyStore cap = Some s" "zstd_lossless z" "int (envelope_bytes (compressEnvelope z e)) \<le> cap"
  shows "\<exists>rs s'. store_run z (cs @ [PutCall k e, GetCall k]) s = Some (rs @ [None, Some e], s')"
proof -
  have app: "lru_run cap z (xs @ ys) l = (let (r, l1) = lru_run cap z xs l; (r', l2) = lru_run cap z ys l1 in (r @ r', l2))" for xs ys l
    by (induction xs arbitrary: l) (simp_all add: Let_def split_beta apfst_def map_prod_def)
  have "fst (lru_run cap z [PutCall k e, GetCall k] l) = [None, Some e]" for l
    using assms(3) by (simp add: Let_def split_beta lru_put_def lru_get_def envelope_roundtrip [OF assms(2)])
  then have "fst (lru_run cap z (cs @ [PutCall k e, GetCall k]) []) = fst (lru_run cap z cs []) @ [None, Some e]"
    unfolding app by (simp add: Let_def split_beta)
  with body_store_is_lru_core [OF assms(1), of z "cs @ [PutCall k e, GetCall k]"] show ?thesis by auto
qed

lemma captured_body_roundtrip_witness:
  "\<exists>rs s'. store_run sample_zstd ([PutCall ''a'' (sample_envelope ''111'')] @ [PutCall ''b'' (sample_envelope ''22''), GetCall ''b''])
      (the (NewBodyStore 5)) = Some (rs @ [None, Some (sample_envelope ''22'')], s')"
proof (rule captured_body_roundtrip)
  show "NewBodyStore 5 = Some (the (NewBodyStore 5))" by (simp add: NewBodyStore_def)
  show "zstd_lossless sample_zstd" by (simp add: zstd_lossless_def sample_zstd_def)
  show "int (envelope_bytes (compressEnvelope sample_zstd (sample_envelope ''22''))) \<le> 5" by code_simp
qed

end
