(* ===== verification/Agent_Register.thy ===== *)
theory Agent_Register
  imports Prelude
begin

text \<open>
  The pin store of agent-aware routing, \<^verbatim>\<open>internal/agentroute/register.go\<close>: one entry per conversation.
  Times are nanoseconds. The sweep ranges over a Go map, so which live entries it drops is up to the
  iteration order, an argument \<open>order\<close> that permutes the keys.
\<close>

section \<open>The register\<close>

definition maxEntries :: int where "maxEntries = 100000"

record pin =
  pn_Model :: string
  pn_Reason :: string

record pin_entry =
  en_pin :: "pin option"
  en_decided :: bool
  en_seen :: int
  en_expires :: int

type_synonym pin_register = "(string \<times> pin_entry) list"

definition NewRegister :: pin_register where "NewRegister = []"

definition sweepLocked :: "(string list \<Rightarrow> string list) \<Rightarrow> int \<Rightarrow> pin_register \<Rightarrow> pin_register" where
  "sweepLocked order now r =
     (let r1 = filter (\<lambda>(k, e). \<not> now > en_expires e) r;
          over = int (length r1) - (maxEntries - maxEntries div 100);
          dropped = take (nat over) (order (map fst r1))
      in filter (\<lambda>(k, e). k \<notin> set dropped) r1)"

text \<open>The current pin, and whether the caller launches an advisory call.\<close>

definition Observe ::
  "(string list \<Rightarrow> string list) \<Rightarrow> int \<Rightarrow> string \<Rightarrow> int \<Rightarrow> pin_register \<Rightarrow> (pin option \<times> bool) \<times> pin_register" where
  "Observe order now key ttl r =
     (let fresh = \<lparr>en_pin = None, en_decided = False, en_seen = 1, en_expires = now + ttl\<rparr>
      in case map_of r key of
           None \<Rightarrow>
             (let r1 = (if int (length r) \<ge> maxEntries then sweepLocked order now r else r)
              in ((None, True), AList.update key fresh r1))
         | Some e \<Rightarrow>
             if now > en_expires e then ((None, True), AList.update key fresh r)
             else ((en_pin e, False), AList.update key (e\<lparr>en_seen := en_seen e + 1\<rparr>) r))"

definition pin_Complete :: "string \<Rightarrow> pin option \<Rightarrow> int \<Rightarrow> pin_register \<Rightarrow> pin_register" where
  "pin_Complete key p window r =
     (case map_of r key of
        None \<Rightarrow> r
      | Some e \<Rightarrow>
          (let e1 = e\<lparr>en_decided := True\<rparr>
           in AList.update key (if p \<noteq> None \<and> en_seen e1 \<le> window then e1\<lparr>en_pin := p\<rparr> else e1) r))"

definition pin_Fail :: "string \<Rightarrow> pin_register \<Rightarrow> pin_register" where
  "pin_Fail key r =
     (case map_of r key of
        None \<Rightarrow> r
      | Some e \<Rightarrow> if \<not> en_decided e then AList.delete key r else r)"

section \<open>Bounds\<close>

definition permutes_keys :: "(string list \<Rightarrow> string list) \<Rightarrow> bool" where
  "permutes_keys order \<longleftrightarrow> (\<forall>ks. distinct ks \<longrightarrow> distinct (order ks) \<and> set (order ks) = set ks)"

lemma permutes_id: "permutes_keys (\<lambda>ks. ks)"
  by (simp add: permutes_keys_def)

definition register_ok :: "pin_register \<Rightarrow> bool" where
  "register_ok r \<longleftrightarrow> distinct (map fst r) \<and> int (length r) \<le> maxEntries"

lemma length_filter_out:
  assumes "distinct (map fst r)" "distinct ds" "set ds \<subseteq> fst ` set r"
  shows "length (filter (\<lambda>(k, e). k \<notin> set ds) r) = length r - length ds"
proof -
  let ?p = "\<lambda>(k, e). k \<in> set ds"
  have "distinct (map fst (filter ?p r))" using assms(1) by (simp add: distinct_map_filter)
  moreover have "set (map fst (filter ?p r)) = set ds" using assms(3) by force
  ultimately have "length (filter ?p r) = length ds"
    using assms(2) by (metis distinct_card length_map)
  moreover have "length (filter ?p r) + length (filter (\<lambda>x. \<not> ?p x) r) = length r" by (rule sum_length_filter_compl)
  ultimately show ?thesis by (simp add: split_def)
qed

lemma sweep_headroom:
  assumes "permutes_keys order" "distinct (map fst r)"
  shows "distinct (map fst (sweepLocked order now r)) \<and> int (length (sweepLocked order now r)) \<le> 99000"
proof -
  define r1 where "r1 = filter (\<lambda>(k, e). \<not> now > en_expires e) r"
  define ds where "ds = take (nat (int (length r1) - 99000)) (order (map fst r1))"
  have d1: "distinct (map fst r1)" using assms(2) by (simp add: r1_def distinct_map_filter)
  have o: "distinct (order (map fst r1))" "set (order (map fst r1)) = fst ` set r1"
    using assms(1) d1 unfolding permutes_keys_def by auto
  have l: "length (order (map fst r1)) = length r1"
    using o d1 by (metis distinct_card length_map set_map)
  have s: "sweepLocked order now r = filter (\<lambda>(k, e). k \<notin> set ds) r1"
    by (simp add: sweepLocked_def Let_def r1_def ds_def maxEntries_def)
  have "length (filter (\<lambda>(k, e). k \<notin> set ds) r1) = length r1 - length ds"
    by (rule length_filter_out [OF d1]) (use o in \<open>auto simp: ds_def dest: in_set_takeD\<close>)
  with l d1 show ?thesis by (simp add: s ds_def distinct_map_filter)
qed

lemma length_update: "length (AList.update k v r) \<le> Suc (length r)" "k \<in> fst ` set r \<Longrightarrow> length (AList.update k v r) = length r"
  by (induction r) auto

lemma update_register_ok: "register_ok r \<Longrightarrow> k \<in> fst ` set r \<Longrightarrow> register_ok (AList.update k v r)"
  by (simp add: register_ok_def length_update distinct_update)

lemma Observe_ok:
  assumes "permutes_keys order" "register_ok r"
  shows "register_ok (snd (Observe order now key ttl r))"
proof (cases "map_of r key")
  case None
  define r1 where "r1 = (if int (length r) \<ge> maxEntries then sweepLocked order now r else r)"
  have "distinct (map fst r1)" "int (length r1) < maxEntries"
    using assms(2) sweep_headroom [OF assms(1), of r now] by (auto simp: r1_def register_ok_def maxEntries_def)
  then have "register_ok (AList.update key v r1)" for v
    using length_update(1) [of key v r1] by (simp add: register_ok_def distinct_update)
  with None show ?thesis by (simp add: Observe_def Let_def r1_def)
next
  case (Some e)
  then have "key \<in> fst ` set r" using map_of_SomeD by force
  with Some update_register_ok [OF assms(2)] show ?thesis by (simp add: Observe_def Let_def)
qed

lemma Complete_ok: "register_ok r \<Longrightarrow> register_ok (pin_Complete key p window r)"
  using update_register_ok map_of_SomeD [of r key] by (fastforce simp: pin_Complete_def Let_def split: option.splits)

lemma Fail_ok: "register_ok r \<Longrightarrow> register_ok (pin_Fail key r)"
  using length_delete_le [of key r] by (auto simp: pin_Fail_def register_ok_def distinct_delete split: option.splits)

section \<open>The life of an entry\<close>

text \<open>Operations on the register, each with the time and order it runs under.\<close>

datatype pin_op =
    DoObserve "string list \<Rightarrow> string list" int string int
  | DoComplete string "pin option" int
  | DoFail string

fun pin_exec :: "pin_op \<Rightarrow> pin_register \<Rightarrow> pin_register" where
  "pin_exec (DoObserve order now key ttl) r = snd (Observe order now key ttl r)"
| "pin_exec (DoComplete key p window) r = pin_Complete key p window r"
| "pin_exec (DoFail key) r = pin_Fail key r"

text \<open>
  What may happen to a conversation between two of its events without touching its entry otherwise:
  observations before it expires, and anything about other conversations, as long as the register has
  room, so that no sweep runs.
\<close>

fun quiet_op :: "string \<Rightarrow> int \<Rightarrow> pin_op \<Rightarrow> bool" where
  "quiet_op k expires (DoObserve order now key ttl) \<longleftrightarrow> (key = k \<longrightarrow> now \<le> expires)"
| "quiet_op k expires (DoComplete key p window) \<longleftrightarrow> key \<noteq> k"
| "quiet_op k expires (DoFail key) \<longleftrightarrow> key \<noteq> k"

fun observes :: "string \<Rightarrow> pin_op \<Rightarrow> nat" where
  "observes k (DoObserve order now key ttl) = (if key = k then 1 else 0)"
| "observes k _ = 0"

lemma quiet_step:
  assumes "map_of r k = Some e" "quiet_op k (en_expires e) o'" "int (length r) < maxEntries"
  shows "map_of (pin_exec o' r) k = Some (e\<lparr>en_seen := en_seen e + int (observes k o')\<rparr>) \<and> length (pin_exec o' r) \<le> length r + 1"
proof (cases o')
  case (DoObserve order now key ttl)
  show ?thesis
  proof (cases "key = k")
    case True
    with assms DoObserve have "\<not> now > en_expires e" by simp
    moreover have "k \<in> fst ` set r" using assms(1) map_of_SomeD by force
    ultimately show ?thesis using assms DoObserve True
      by (simp add: Observe_def Let_def update_conv' length_update)
  next
    case False
    with assms DoObserve show ?thesis
      by (auto simp: Observe_def Let_def update_conv' length_update split: option.split)
  qed
next
  case (DoComplete key p window)
  with assms show ?thesis by (auto simp: pin_Complete_def Let_def update_conv' length_update split: option.split)
next
  case (DoFail key)
  with assms length_delete_le [of key r] show ?thesis by (auto simp: pin_Fail_def delete_conv' split: option.split)
qed

lemma quiet_run:
  assumes "map_of r k = Some e" "\<forall>o' \<in> set ops. quiet_op k (en_expires e) o'" "int (length r + length ops) \<le> maxEntries"
  shows "map_of (fold pin_exec ops r) k = Some (e\<lparr>en_seen := en_seen e + int (sum_list (map (observes k) ops))\<rparr>)"
  using assms
proof (induction ops arbitrary: r e)
  case (Cons o' ops)
  then have s: "map_of (pin_exec o' r) k = Some (e\<lparr>en_seen := en_seen e + int (observes k o')\<rparr>)" "length (pin_exec o' r) \<le> length r + 1"
    using quiet_step [of r k e o'] by auto
  from Cons.IH [OF s(1)] Cons.prems(2,3) s(2) show ?case by (simp add: add.assoc)
qed simp

text \<open>
  One advisory call per life of a conversation, and its verdict applies within the window: the
  observation that opens an entry asks for a call; after any traffic of other conversations and further
  requests of this one, the verdict pins the conversation exactly when at most \<open>window\<close> requests were
  seen; from then on, until the entry expires, every request gets that answer and none asks again,
  whatever other conversations do. The register is taken to have room, so that no sweep drops the entry.
\<close>

theorem verdict_lands_in_window:
  assumes "fst (Observe order now k ttl r) = (None, True)"
    and "int (length r + length before + length after) + 2 \<le> maxEntries"
    and "\<forall>o' \<in> set (before @ after). quiet_op k (now + ttl) o'" "now' \<le> now + ttl"
  shows "fst (Observe order' now' k ttl'
      (fold pin_exec after (pin_Complete k p window (fold pin_exec before (snd (Observe order now k ttl r)))))) =
    (if 1 + int (sum_list (map (observes k) before)) \<le> window then p else None, False)"
proof -
  let ?e = "\<lparr>en_pin = None, en_decided = False, en_seen = 1, en_expires = now + ttl\<rparr>"
  let ?seen = "1 + int (sum_list (map (observes k) before))"
  define r1 where "r1 = snd (Observe order now k ttl r)"
  have r1: "map_of r1 k = Some ?e" "length r1 \<le> length r + 1"
    using assms(1,2) length_update(1) [of k ?e r]
    by (auto simp: r1_def Observe_def Let_def update_conv' split: option.splits if_splits)
  define r2 where "r2 = fold pin_exec before r1"
  have r2: "map_of r2 k = Some (?e\<lparr>en_seen := ?seen\<rparr>)"
    using quiet_run [of r1 k ?e before] r1 assms(2,3) by (simp add: r2_def)
  have len: "length (fold pin_exec ops s) \<le> length s + length ops" if "int (length s + length ops) \<le> maxEntries" for ops s
    using that
  proof (induction ops arbitrary: s)
    case (Cons o' ops)
    have "length (pin_exec o' s) \<le> length s + 1"
    proof (cases o')
      case (DoObserve order now key ttl)
      with Cons.prems length_update(1) [of key _ s] show ?thesis
        by (auto simp: Observe_def Let_def split: option.split)
    next
      case (DoComplete key p window)
      with length_update(1) [of key _ s] show ?thesis by (auto simp: pin_Complete_def Let_def split: option.split)
    next
      case (DoFail key)
      with length_delete_le [of key s] show ?thesis by (auto simp: pin_Fail_def split: option.split)
    qed
    with Cons.IH [of "pin_exec o' s"] Cons.prems show ?case by simp
  qed simp
  let ?e3 = "?e\<lparr>en_seen := ?seen, en_decided := True, en_pin := if ?seen \<le> window then p else None\<rparr>"
  define r3 where "r3 = pin_Complete k p window r2"
  have "k \<in> fst ` set r2" using r2 map_of_SomeD by force
  then have r3: "map_of r3 k = Some ?e3" "length r3 = length r2"
    using r2 by (auto simp: r3_def pin_Complete_def Let_def update_conv' length_update)
  have "length r2 \<le> length r + 1 + length before"
    using len [of r1 before] r1(2) assms(2) by (simp add: r2_def)
  then have "map_of (fold pin_exec after r3) k = Some (?e3\<lparr>en_seen := ?seen + int (sum_list (map (observes k) after))\<rparr>)"
    using quiet_run [of r3 k ?e3 after] r3 assms(2,3) by simp
  with assms(4) show ?thesis unfolding r1_def [symmetric] r2_def [symmetric] r3_def [symmetric]
    by (simp add: Observe_def Let_def)
qed

definition sample_pin :: pin where "sample_pin = \<lparr>pn_Model = ''claude-haiku-4'', pn_Reason = ''echo''\<rparr>"

lemma verdict_lands_in_window_witness:
  "fst (Observe (\<lambda>ks. ks) 7 ''c'' 10
     (fold pin_exec [DoFail ''d''] (pin_Complete ''c'' (Some sample_pin) 2
       (fold pin_exec [DoObserve (\<lambda>ks. ks) 1 ''d'' 10, DoObserve (\<lambda>ks. ks) 2 ''c'' 10]
         (snd (Observe (\<lambda>ks. ks) 0 ''c'' 10 NewRegister)))))) = (Some sample_pin, False)"
  using verdict_lands_in_window [of "\<lambda>ks. ks" 0 "''c''" 10 NewRegister
      "[DoObserve (\<lambda>ks. ks) 1 ''d'' 10, DoObserve (\<lambda>ks. ks) 2 ''c'' 10]" "[DoFail ''d'']" 7 "\<lambda>ks. ks" 10 "Some sample_pin" 2]
  by (simp add: Observe_def NewRegister_def maxEntries_def)

text \<open>
  A verdict outlives the entry that asked for it: after the entry expired, the next request opens a new
  one with a call of its own, and the old verdict still lands there, with the window counted anew.
\<close>

theorem stale_verdict_pins:
  "fst (Observe (\<lambda>ks. ks) 12 ''c'' 10
     (pin_Complete ''c'' (Some sample_pin) 1
       (snd (Observe (\<lambda>ks. ks) 11 ''c'' 10 (snd (Observe (\<lambda>ks. ks) 5 ''c'' 10 (snd (Observe (\<lambda>ks. ks) 0 ''c'' 10 NewRegister)))))))) =
   (Some sample_pin, False)"
  by code_simp

end
