(* ===== verification/Correlation.thy ===== *)
theory Correlation
  imports Header_Redaction
begin

text \<open>
  Who a request belongs to: the session, conversation, parent, agent and user ids of
  \<^verbatim>\<open>internal/observability\<close> (\<^verbatim>\<open>resolver.go\<close>, \<^verbatim>\<open>session.go\<close>, \<^verbatim>\<open>conversation.go\<close>, \<^verbatim>\<open>agent.go\<close>,
  \<^verbatim>\<open>user.go\<close>) and \<^verbatim>\<open>correlationMiddleware\<close> of \<^verbatim>\<open>cmd/gateway/correlation.go\<close>, which reads them from
  the headers and echoes them. An id that was not found is the empty string, as in the code. The trace
  context and the logger are left out; a fresh correlation id is an argument.
\<close>

section \<open>Resolvers\<close>

record id_resolver =
  ir_authoritative :: string
  ir_fallbacks :: "string list"

definition resolver_chain :: "string list \<Rightarrow> string list \<Rightarrow> string list" where
  "resolver_chain defaults extra = defaults @ filter (\<lambda>e. e \<noteq> []) (map trim_space extra)"

definition newIDResolver :: "string \<Rightarrow> string list \<Rightarrow> string list \<Rightarrow> id_resolver" where
  "newIDResolver authoritative defaults extra =
     \<lparr>ir_authoritative = authoritative, ir_fallbacks = resolver_chain defaults extra\<rparr>"

definition pickHeader :: "headers \<Rightarrow> string \<Rightarrow> (string \<Rightarrow> bool) \<Rightarrow> string \<times> string" where
  "pickHeader h name sensitive =
     (if sensitive name then ([], [])
      else let v = trim_space (header_get h name) in if v \<noteq> [] then (v, name) else ([], []))"

fun walk_chain :: "headers \<Rightarrow> (string \<Rightarrow> bool) \<Rightarrow> string list \<Rightarrow> string \<times> string" where
  "walk_chain h sensitive [] = ([], [])"
| "walk_chain h sensitive (name # names) =
     (case pickHeader h name sensitive of
        (i, source) \<Rightarrow> if i \<noteq> [] then (i, source) else walk_chain h sensitive names)"

definition id_resolve :: "id_resolver \<Rightarrow> headers \<Rightarrow> (string \<Rightarrow> bool) \<Rightarrow> string \<times> string" where
  "id_resolve r h sensitive =
     (if ir_authoritative r \<noteq> []
      then (case pickHeader h (ir_authoritative r) sensitive of
              (i, source) \<Rightarrow> if i \<noteq> [] then (i, source) else walk_chain h sensitive (ir_fallbacks r))
      else walk_chain h sensitive (ir_fallbacks r))"

definition SlipSpaceSessionHeader :: string where "SlipSpaceSessionHeader = ''X-Slipspace-Session-Id''"

definition SlipSpaceThreadHeader :: string where "SlipSpaceThreadHeader = ''X-Slipspace-Thread-Id''"

definition SlipSpaceParentHeader :: string where "SlipSpaceParentHeader = ''X-Slipspace-Parent-Conversation-Id''"

definition SlipSpaceAgentHeader :: string where "SlipSpaceAgentHeader = ''X-Slipspace-Agent-Id''"

definition SlipSpaceUserHeader :: string where "SlipSpaceUserHeader = ''X-Slipspace-User-Id''"

definition NewSessionResolver :: "string list \<Rightarrow> id_resolver" where
  "NewSessionResolver extra = newIDResolver SlipSpaceSessionHeader [''Session-Id'', ''X-Claude-Code-Session-Id''] extra"

definition NewConversationResolver :: "string list \<Rightarrow> id_resolver" where
  "NewConversationResolver extra = newIDResolver SlipSpaceThreadHeader [''Thread-Id'', ''X-Claude-Code-Agent-Id''] extra"

definition NewParentResolver :: "string list \<Rightarrow> id_resolver" where
  "NewParentResolver extra = newIDResolver SlipSpaceParentHeader [''X-Codex-Parent-Thread-Id''] extra"

text \<open>The agent and user resolvers are structures of their own, which hold the chain alone.\<close>

definition NewAgentResolver :: "string list \<Rightarrow> string list" where
  "NewAgentResolver extra = resolver_chain [] extra"

definition agent_Resolve :: "string list \<Rightarrow> headers \<Rightarrow> (string \<Rightarrow> bool) \<Rightarrow> string \<times> string" where
  "agent_Resolve fallbacks h sensitive =
     (case pickHeader h SlipSpaceAgentHeader sensitive of
        (i, source) \<Rightarrow> if i \<noteq> [] then (i, source) else walk_chain h sensitive fallbacks)"

definition NewUserResolver :: "string list \<Rightarrow> string list" where
  "NewUserResolver extra = resolver_chain [] extra"

definition user_Resolve :: "string list \<Rightarrow> headers \<Rightarrow> (string \<Rightarrow> bool) \<Rightarrow> string \<times> string" where
  "user_Resolve fallbacks h sensitive =
     (case pickHeader h SlipSpaceUserHeader sensitive of
        (i, source) \<Rightarrow> if i \<noteq> [] then (i, source) else walk_chain h sensitive fallbacks)"

section \<open>The middleware\<close>

text \<open>What the request context carries: every id with the header it came from.\<close>

record request_ids =
  id_Correlation :: string
  id_Session :: string
  id_SessionSource :: string
  id_Conversation :: string
  id_ConversationSource :: string
  id_Parent :: string
  id_Agent :: string
  id_AgentSource :: string
  id_User :: string
  id_UserSource :: string

record correlation_resolvers =
  cr_sessions :: id_resolver
  cr_conversations :: id_resolver
  cr_parents :: id_resolver
  cr_agents :: "string list"
  cr_users :: "string list"

definition headerCorrelationID :: string where
  "headerCorrelationID = ''X-Slipspace-Correlation-Id''"

definition request_ids_of :: "correlation_resolvers \<Rightarrow> (string \<Rightarrow> bool) \<Rightarrow> string \<Rightarrow> headers \<Rightarrow> request_ids" where
  "request_ids_of cr sensitive fresh h =
     (let cid = (let i = header_get h headerCorrelationID in if i = [] then fresh else i);
          (sessionID, sessionSource) = id_resolve (cr_sessions cr) h sensitive;
          (threadID, threadSource) = id_resolve (cr_conversations cr) h sensitive;
          (explicitParent, _) = id_resolve (cr_parents cr) h sensitive;
          (conversationID, conversationSource) =
            (if threadID \<noteq> [] then (threadID, threadSource) else (sessionID, sessionSource));
          parentID = (if conversationID \<noteq> [] \<and> conversationID \<noteq> sessionID
                      then (if explicitParent = [] then sessionID else explicitParent) else []);
          (agentID, agentSource) = agent_Resolve (cr_agents cr) h sensitive;
          (userID, userSource) = user_Resolve (cr_users cr) h sensitive
      in \<lparr>id_Correlation = cid, id_Session = sessionID, id_SessionSource = sessionSource,
          id_Conversation = conversationID, id_ConversationSource = conversationSource, id_Parent = parentID,
          id_Agent = agentID, id_AgentSource = agentSource, id_User = userID, id_UserSource = userSource\<rparr>)"

definition echo_id :: "string \<Rightarrow> string \<Rightarrow> headers \<Rightarrow> headers" where
  "echo_id name i h = (if i \<noteq> [] then header_set h name i else h)"

definition echo_ids :: "request_ids \<Rightarrow> headers \<Rightarrow> headers" where
  "echo_ids ids w =
     echo_id SlipSpaceUserHeader (id_User ids)
       (echo_id SlipSpaceAgentHeader (id_Agent ids)
         (echo_id SlipSpaceThreadHeader (id_Conversation ids)
           (echo_id SlipSpaceSessionHeader (id_Session ids)
             (header_set w headerCorrelationID (id_Correlation ids)))))"

text \<open>The ids the handlers behind the middleware see, and the response headers they start from.\<close>

definition correlationMiddleware ::
  "golib \<Rightarrow> correlation_resolvers \<Rightarrow> string list option \<Rightarrow> string \<Rightarrow> headers \<Rightarrow> headers \<Rightarrow> request_ids \<times> headers" where
  "correlationMiddleware lib cr redactor fresh h w =
     (let ids = request_ids_of cr (IsSensitive lib redactor) fresh h in (ids, echo_ids ids w))"

section \<open>What the ids reveal\<close>

text \<open>A resolved id is the trimmed value of a header that is not masked.\<close>

definition promoted :: "headers \<Rightarrow> (string \<Rightarrow> bool) \<Rightarrow> string \<times> string \<Rightarrow> bool" where
  "promoted h sensitive p \<longleftrightarrow>
     p = ([], []) \<or> (fst p = trim_space (header_get h (snd p)) \<and> fst p \<noteq> [] \<and> \<not> sensitive (snd p))"

lemma pickHeader_promoted: "promoted h sensitive (pickHeader h name sensitive)"
  by (simp add: promoted_def pickHeader_def Let_def)

lemma walk_chain_promoted: "promoted h sensitive (walk_chain h sensitive names)"
proof (induction names)
  case (Cons n ns)
  with pickHeader_promoted [of h sensitive n] show ?case by (cases "pickHeader h n sensitive") auto
qed (simp add: promoted_def)

lemma then_chain_promoted:
  "promoted h sensitive (case pickHeader h name sensitive of
     (i, source) \<Rightarrow> if i \<noteq> [] then (i, source) else walk_chain h sensitive names)"
  using pickHeader_promoted [of h sensitive name] walk_chain_promoted [of h sensitive names]
  by (cases "pickHeader h name sensitive") auto

lemma id_resolve_promoted: "promoted h sensitive (id_resolve r h sensitive)"
  using then_chain_promoted walk_chain_promoted by (simp add: id_resolve_def)

lemma agent_promoted: "promoted h sensitive (agent_Resolve fb h sensitive)"
  unfolding agent_Resolve_def by (rule then_chain_promoted)

lemma user_promoted: "promoted h sensitive (user_Resolve fb h sensitive)"
  unfolding user_Resolve_def by (rule then_chain_promoted)

lemma conversation_promoted:
  assumes "promoted h sensitive s" "promoted h sensitive t"
  shows "promoted h sensitive (if fst t \<noteq> [] then t else s)"
  using assms by simp

lemma request_ids_promoted:
  "promoted h sensitive (id_Session (request_ids_of cr sensitive fresh h), id_SessionSource (request_ids_of cr sensitive fresh h)) \<and>
   promoted h sensitive (id_Conversation (request_ids_of cr sensitive fresh h), id_ConversationSource (request_ids_of cr sensitive fresh h)) \<and>
   promoted h sensitive (id_Agent (request_ids_of cr sensitive fresh h), id_AgentSource (request_ids_of cr sensitive fresh h)) \<and>
   promoted h sensitive (id_User (request_ids_of cr sensitive fresh h), id_UserSource (request_ids_of cr sensitive fresh h))"
  using id_resolve_promoted [of h sensitive "cr_sessions cr"] id_resolve_promoted [of h sensitive "cr_conversations cr"]
    agent_promoted [of h sensitive "cr_agents cr"] user_promoted [of h sensitive "cr_users cr"]
  by (simp add: request_ids_of_def Let_def split_beta)


definition sample_resolvers :: correlation_resolvers where
  "sample_resolvers = \<lparr>cr_sessions = NewSessionResolver [''Authorization''], cr_conversations = NewConversationResolver [],
     cr_parents = NewParentResolver [], cr_agents = NewAgentResolver [], cr_users = NewUserResolver [''X-Api-Key'']\<rparr>"

definition sample_inbound :: headers where
  "sample_inbound = [(''Authorization'', [''Bearer sk_live_1'']), (''X-Api-Key'', [''sk_live_2'']), (''Thread-Id'', ['' t1 '']),
     (''Session-Id'', [''s1''])]"


text \<open>
  The parent of a conversation: a request has one only when its conversation is a thread of its own,
  and then it is the explicit parent, or else the session.
\<close>

theorem parent_of_a_subagent:
  assumes "correlationMiddleware lib cr r fresh h w = (ids, w')"
  shows "id_Conversation ids = id_Session ids \<Longrightarrow> id_Parent ids = []"
    and "id_Conversation ids \<noteq> id_Session ids \<Longrightarrow>
      id_Parent ids = (let p = fst (id_resolve (cr_parents cr) h (IsSensitive lib r)) in if p = [] then id_Session ids else p)"
proof -
  have "ids = request_ids_of cr (IsSensitive lib r) fresh h" using assms by (auto simp: correlationMiddleware_def Let_def)
  then show "id_Conversation ids = id_Session ids \<Longrightarrow> id_Parent ids = []"
    and "id_Conversation ids \<noteq> id_Session ids \<Longrightarrow>
      id_Parent ids = (let p = fst (id_resolve (cr_parents cr) h (IsSensitive lib r)) in if p = [] then id_Session ids else p)"
    by (auto simp: request_ids_of_def Let_def split_beta split: if_splits)
qed

end
