(* ===== verification/Wire_Types.thy ===== *)
theory Wire_Types
  imports Prelude
begin

text \<open>
  The wire types of two provider dialects as far as the gateway's own code reads or writes them:
  Anthropic Messages (\<^verbatim>\<open>protocols/anthropic/messages\<close>) and OpenAI Chat Completions
  (\<^verbatim>\<open>protocols/openai/chat\<close>). A raw JSON field is represented by what it decodes to, or, where the code
  only copies it, by its bytes (empty when absent). Unknown properties, which the translators do not
  carry over, and fields no code looks at are left out.
\<close>

section \<open>Raw fields\<close>

text \<open>A field of polymorphic JSON: absent, \<^verbatim>\<open>null\<close>, a string, an array of decodable elements, or anything else.\<close>

datatype 'b raw_content = RawAbsent | RawNull | RawString string | RawBlocks "'b list" | RawOther

text \<open>\<^verbatim>\<open>json.Unmarshal\<close> into a Go string: \<^verbatim>\<open>null\<close> leaves the empty string and is no error.\<close>

fun as_string :: "'b raw_content \<Rightarrow> string option" where
  "as_string (RawString s) = Some s"
| "as_string RawNull = Some []"
| "as_string _ = None"

fun as_blocks :: "'b raw_content \<Rightarrow> 'b list option" where
  "as_blocks (RawBlocks bs) = Some bs"
| "as_blocks _ = None"

text \<open>\<^verbatim>\<open>json.Marshal\<close> of a slice: a nil one is \<^verbatim>\<open>null\<close>.\<close>

definition raw_slice :: "'b list \<Rightarrow> 'b raw_content" where
  "raw_slice bs = (if bs = [] then RawNull else RawBlocks bs)"

section \<open>Anthropic Messages\<close>

record image_source =
  is_Type :: string
  is_MediaType :: string
  is_Data :: string
  is_URL :: string

text \<open>The blocks the code tells apart; any other is its \<^verbatim>\<open>type\<close>.\<close>

datatype content_block =
    TextBlock string
  | ImageBlock image_source
  | ToolUseBlock string string string
  | ToolResultBlock string "content_block raw_content" "bool option"
  | ThinkingBlock
  | RedactedThinkingBlock
  | OtherBlock string

fun BlockType :: "content_block \<Rightarrow> string" where
  "BlockType (TextBlock _) = ''text''"
| "BlockType (ImageBlock _) = ''image''"
| "BlockType (ToolUseBlock _ _ _) = ''tool_use''"
| "BlockType (ToolResultBlock _ _ _) = ''tool_result''"
| "BlockType ThinkingBlock = ''thinking''"
| "BlockType RedactedThinkingBlock = ''redacted_thinking''"
| "BlockType (OtherBlock t) = t"

record system_block =
  sy_Text :: string
  sy_CacheControl :: bool

record ant_message =
  am_Role :: string
  am_Content :: "content_block raw_content"

record ant_tool =
  at_Type :: string
  at_Name :: string
  at_Description :: string
  at_InputSchema :: string
  at_DeferLoading :: "bool option"
  at_CacheControl :: bool

record ant_tool_choice =
  tc_Type :: string
  tc_Name :: string
  tc_DisableParallelToolUse :: "bool option"

record ant_metadata =
  md_UserID :: string
  md_Extra :: bool

record output_config =
  oc_Effort :: string
  oc_Format :: bool
  oc_Extra :: bool

record messages_request =
  mq_Model :: string
  mq_MaxTokens :: int
  mq_Messages :: "ant_message list"
  mq_System :: "system_block raw_content"
  mq_Temperature :: "f64 option"
  mq_TopP :: "f64 option"
  mq_TopK :: "int option"
  mq_StopSequences :: "string list"
  mq_Stream :: bool
  mq_Tools :: "ant_tool list"
  mq_ToolChoice :: "ant_tool_choice option"
  mq_Metadata :: "ant_metadata option"
  mq_Thinking :: bool
  mq_ServiceTier :: string
  mq_OutputConfig :: "output_config option"
  mq_ContextManagement :: bool

record ant_usage =
  us_InputTokens :: int
  us_OutputTokens :: int
  us_CacheReadInputTokens :: "int option"
  us_ServiceTier :: string

record messages_response =
  mr_ID :: string
  mr_Model :: string
  mr_Content :: "content_block list"
  mr_StopReason :: "string option"
  mr_StopSequence :: "string option"
  mr_Usage :: ant_usage
  mr_Container :: bool
  mr_StopDetails :: bool
  mr_ContextManagement :: bool

record stream_error =
  se_Type :: string
  se_Message :: string

text \<open>Deltas and events of the stream; a field that does not decode makes the event undecodable.\<close>

datatype block_delta = TextDelta string | InputJSONDelta string | OtherDelta string

datatype stream_event =
    MessageStart messages_response
  | ContentBlockStart int "content_block option"
  | ContentBlockDelta int "block_delta option"
  | ContentBlockStop int
  | MessageDelta "string option" int int
  | MessageStop
  | ErrorEvent stream_error
  | OtherEvent string

section \<open>OpenAI Chat Completions\<close>

datatype content_part =
    TextPart string
  | ImagePart string
  | RefusalPart string
  | OtherPart string

fun PartType :: "content_part \<Rightarrow> string" where
  "PartType (TextPart _) = ''text''"
| "PartType (ImagePart _) = ''image_url''"
| "PartType (RefusalPart _) = ''refusal''"
| "PartType (OtherPart t) = t"

record tool_call =
  tl_ID :: string
  tl_Name :: string
  tl_Arguments :: string

record assistant_message =
  as_Content :: "content_part raw_content"
  as_ToolCalls :: "tool_call list"
  as_Refusal :: "string option"
  as_Audio :: bool

datatype chat_message =
    SystemMessage string
  | DeveloperMessage string
  | UserMessage "content_part raw_content"
  | AssistantMessage assistant_message
  | ToolMessage string "content_part raw_content"
  | FunctionMessage
  | UnknownMessage string

record tool_function =
  tf_Name :: string
  tf_Description :: string
  tf_Parameters :: string
  tf_Strict :: "bool option"

record chat_tool =
  ct_ToolType :: string
  ct_Function :: "tool_function option"

text \<open>\<^verbatim>\<open>tool_choice\<close>: absent, a string, an object with a type and a function name, or anything else.\<close>

datatype chat_tool_choice = ChoiceAbsent | ChoiceString string | ChoiceObject string string | ChoiceOther

text \<open>\<^verbatim>\<open>stop\<close>: absent, a string, an array of strings, or anything else.\<close>

datatype chat_stop = StopAbsent | StopString string | StopList "string list" | StopOther

text \<open>Of the fields that Anthropic does not express only the presence is kept.\<close>

record chat_request =
  cq_Model :: string
  cq_Messages :: "chat_message list"
  cq_MaxTokens :: "int option"
  cq_MaxCompletionTokens :: "int option"
  cq_Temperature :: "f64 option"
  cq_TopP :: "f64 option"
  cq_Stream :: bool
  cq_Stop :: chat_stop
  cq_User :: string
  cq_Tools :: "chat_tool list"
  cq_ToolChoice :: chat_tool_choice
  cq_ReasoningEffort :: string
  cq_Reasoning :: "string option"
  cq_ServiceTier :: string
  cq_ParallelToolCalls :: "bool option"
  cq_N :: bool
  cq_StreamOptions :: bool
  cq_PresencePenalty :: bool
  cq_FrequencyPenalty :: bool
  cq_LogitBias :: bool
  cq_LogProbs :: bool
  cq_TopLogProbs :: bool
  cq_ResponseFormat :: bool
  cq_Seed :: bool
  cq_Modalities :: bool
  cq_Audio :: bool
  cq_Metadata :: bool
  cq_Store :: bool
  cq_Think :: bool
  cq_ChatTemplateKwargs :: bool

record chat_usage =
  cu_PromptTokens :: int
  cu_CompletionTokens :: int
  cu_TotalTokens :: int
  cu_CachedTokens :: "int option"

record response_message =
  rm_Content :: "content_part raw_content"
  rm_ToolCalls :: "tool_call list"
  rm_Refusal :: "string option"
  rm_Audio :: bool

record chat_choice =
  ch_Message :: response_message
  ch_FinishReason :: "string option"
  ch_LogProbs :: bool

record chat_response =
  cr_ID :: string
  cr_Model :: string
  cr_SystemFingerprint :: string
  cr_ServiceTier :: string
  cr_Choices :: "chat_choice list"
  cr_Usage :: "chat_usage option"

record tool_call_delta =
  td_Index :: int
  td_ID :: string
  td_Function :: "(string \<times> string) option"
    \<comment> \<open>name and arguments\<close>

record chunk_choice =
  cc_Role :: string
  cc_Content :: "content_part raw_content"
  cc_ToolCalls :: "tool_call_delta list"
  cc_FinishReason :: "string option"

record chat_chunk =
  ck_ID :: string
  ck_Model :: string
  ck_Choices :: "chunk_choice list"
  ck_Usage :: "chat_usage option"

end
