(* ===== verification/Agent_Route.thy ===== *)
theory Agent_Route
  imports Agent_Register Correlation Config_Validate Wire_Types
begin

text \<open>
  Agent-aware routing, \<^verbatim>\<open>internal/agentroute\<close> and \<^verbatim>\<open>cmd/gateway/agentrouting.go\<close>: who calls
  (\<^verbatim>\<open>identity.go\<close>), what a pinned model cannot serve (\<^verbatim>\<open>betas.go\<close>, \<^verbatim>\<open>body.go\<close>), the advisory call
  (\<^verbatim>\<open>client.go\<close>) and the service that decides per request and lands verdicts out of band
  (\<^verbatim>\<open>service.go\<close>); and \<^verbatim>\<open>selectionMiddleware\<close> of \<^verbatim>\<open>cmd/gateway/pipeline.go\<close>, which applies a pin. JSON,
  HMAC and the HTTP exchange are arguments. The typed body is that of \<open>Wire_Types\<close>. The goroutines of the service are steps: a request, or the end of an advisory call.
\<close>

section \<open>Identity\<close>

record identity =
  ai_Family :: string
  ai_Entrypoint :: string
  ai_IsSubagent :: bool

definition FamilyClaudeCode :: string where "FamilyClaudeCode = ''claude-code''"

definition FamilyCodex :: string where "FamilyCodex = ''codex''"

definition claudeEntrypoint :: "string \<Rightarrow> string" where
  "claudeEntrypoint ua =
     (case index_byte (CHR ''('') ua of
        None \<Rightarrow> []
      | Some opn \<Rightarrow>
          (case index_byte (CHR '')'') (drop opn ua) of
             None \<Rightarrow> []
           | Some cls \<Rightarrow>
               (let parts = split_on (CHR '','') (take (cls - 1) (drop (opn + 1) ua))
                in if length parts < 2 then [] else trim_space (last parts))))"

definition Identify :: "headers \<Rightarrow> identity" where
  "Identify h =
     (let ua = header_get h ''User-Agent''
      in if has_prefix ua ''claude-cli/''
         then \<lparr>ai_Family = FamilyClaudeCode, ai_Entrypoint = claudeEntrypoint ua,
               ai_IsSubagent = header_get h ''X-Claude-Code-Agent-Id'' \<noteq> []\<rparr>
         else let orig = header_get h ''Originator''
              in if orig \<noteq> [] \<or> has_prefix ua ''codex''
                 then let session = header_get h ''Session-Id''; thread = header_get h ''Thread-Id''
                      in \<lparr>ai_Family = FamilyCodex, ai_Entrypoint = orig,
                          ai_IsSubagent = session \<noteq> [] \<and> thread \<noteq> [] \<and> session \<noteq> thread\<rparr>
                 else \<lparr>ai_Family = [], ai_Entrypoint = [], ai_IsSubagent = False\<rparr>)"

section \<open>What a pinned model cannot serve\<close>

definition betaHeader :: string where "betaHeader = ''Anthropic-Beta''"

definition context1MPrefix :: string where "context1MPrefix = ''context-1m''"

definition lacks1MContext :: "string \<Rightarrow> bool" where
  "lacks1MContext model = has_prefix model ''claude-haiku''"

definition long_context_token :: "golib \<Rightarrow> string \<Rightarrow> bool" where
  "long_context_token lib tok = has_prefix (to_lower lib (trim_space tok)) context1MPrefix"

text \<open>\<^verbatim>\<open>strings.Trim(s, ", ") == ""\<close>.\<close>

definition only_separators :: "string \<Rightarrow> bool" where
  "only_separators s = list_all (\<lambda>c. c = CHR '','' \<or> c = CHR '' '') s"

text \<open>The loop over the header's values: whether a token was stripped, and the values kept.\<close>

fun reconcile_values :: "golib \<Rightarrow> string list \<Rightarrow> bool \<times> string list" where
  "reconcile_values lib [] = (False, [])"
| "reconcile_values lib (v # vs) =
     (let toks = split_on (CHR '','') v;
          kept = filter (\<lambda>tok. \<not> long_context_token lib tok) toks;
          (stripped, out) = reconcile_values lib vs
      in (stripped \<or> list_ex (long_context_token lib) toks,
          if only_separators (join_with '','' kept) then out else join_with '','' kept # out))"

definition ReconcileBetas :: "golib \<Rightarrow> headers \<Rightarrow> string \<Rightarrow> bool \<times> headers" where
  "ReconcileBetas lib h pinnedModel =
     (if \<not> lacks1MContext pinnedModel then (False, h)
      else let vals = header_values h betaHeader
           in if vals = [] then (False, h)
              else let (stripped, out) = reconcile_values lib vals
                   in if \<not> stripped then (False, h)
                      else (True, foldl (\<lambda>h v. header_add h betaHeader v) (header_del h betaHeader) out))"

definition lacksEffort :: "string \<Rightarrow> bool" where "lacksEffort model = lacks1MContext model"

definition ReconcileBody :: "messages_request option \<Rightarrow> string \<Rightarrow> body_op list" where
  "ReconcileBody req pinnedModel =
     (case req of
        None \<Rightarrow> []
      | Some q \<Rightarrow>
          if \<not> lacksEffort pinnedModel then []
          else case mq_OutputConfig q of
                 None \<Rightarrow> []
               | Some oc \<Rightarrow>
                   if oc_Effort oc = [] then []
                   else [\<lparr>bop_Kind = OpRemove,
                          bop_Path = (if \<not> oc_Format oc \<and> \<not> oc_Extra oc then ''output_config'' else ''output_config.effort''),
                          bop_Value = RVLiteral [], bop_ActionType = ''agentRoutePin''\<rparr>])"

section \<open>The excerpts sent to the advisor\<close>

definition maxPrefixBytes :: nat where "maxPrefixBytes = 4096"

definition truncate_prefix :: "string \<Rightarrow> string" where
  "truncate_prefix s = (if length s \<le> maxPrefixBytes then s else take maxPrefixBytes s)"

text \<open>\<^verbatim>\<open>strings.Index\<close>.\<close>

fun str_index :: "string \<Rightarrow> string \<Rightarrow> nat option" where
  "str_index [] p = (if p = [] then Some 0 else None)"
| "str_index (c # s) p = (if has_prefix (c # s) p then Some 0 else map_option Suc (str_index s p))"

definition reminderOpen :: string where "reminderOpen = ''<system-reminder>''"

definition reminderClose :: string where "reminderClose = ''</system-reminder>''"

lemma trim_left_length: "length (trim_left s) \<le> length s"
  by (induction s rule: trim_left.induct) auto

lemma trim_rev_length: "length (trim_rev s) \<le> length s"
  by (induction s rule: trim_rev.induct) auto

lemma trim_space_length: "length (trim_space s) \<le> length s"
  using trim_rev_length [of "rev (trim_left s)"] trim_left_length [of s] by (simp add: trim_space_def)

function stripSystemReminders :: "string \<Rightarrow> string" where
  "stripSystemReminders s =
     (let t = trim_space s
      in if \<not> has_prefix t reminderOpen then t
         else case str_index t reminderClose of
                None \<Rightarrow> []
              | Some n \<Rightarrow> stripSystemReminders (drop (n + length reminderClose) t))"
  by pat_completeness auto

termination
proof (relation "measure length", goal_cases)
  case (2 s t n)
  then have "t \<noteq> []" by (auto simp: reminderOpen_def)
  then have "length (drop (n + length reminderClose) t) < length t" by (simp add: reminderClose_def)
  with 2 trim_space_length [of s] show ?case by simp
qed simp

declare stripSystemReminders.simps [simp del]

fun system_text :: "system_block list \<Rightarrow> string \<Rightarrow> string" where
  "system_text [] out = out"
| "system_text (b # bs) out =
     (if length out \<ge> maxPrefixBytes then out
      else system_text bs ((if out \<noteq> [] then out @ [CHR 0x0A] else out) @ sy_Text b))"

definition systemPrefix :: "messages_request \<Rightarrow> string" where
  "systemPrefix req =
     (case as_string (mq_System req) of
        Some s \<Rightarrow> truncate_prefix s
      | None \<Rightarrow> (case as_blocks (mq_System req) of
            Some bs \<Rightarrow> truncate_prefix (system_text bs [])
          | None \<Rightarrow> []))"

fun first_text :: "content_block list \<Rightarrow> string" where
  "first_text [] = []"
| "first_text (TextBlock t # bs) =
     (let s = stripSystemReminders t in if s \<noteq> [] then truncate_prefix s else first_text bs)"
| "first_text (_ # bs) = first_text bs"

fun first_user :: "ant_message list \<Rightarrow> string" where
  "first_user [] = []"
| "first_user (m # ms) =
     (if am_Role m \<noteq> ''user'' then first_user ms
      else case as_string (am_Content m) of
             Some s \<Rightarrow> truncate_prefix (stripSystemReminders s)
           | None \<Rightarrow> (case as_blocks (am_Content m) of Some bs \<Rightarrow> first_text bs | None \<Rightarrow> []))"

definition firstUserMessage :: "messages_request \<Rightarrow> string" where
  "firstUserMessage req = first_user (mq_Messages req)"

section \<open>The advisory call\<close>

record advise_request =
  aq_Configuration :: string
  aq_Protocol :: string
  aq_Provider :: string
  aq_Model :: string
  aq_ConversationID :: string
  aq_SessionID :: string
  aq_AgentFamily :: string
  aq_Entrypoint :: string
  aq_IsSubagent :: bool
  aq_SystemPrefix :: string
  aq_FirstUserMessage :: string
  aq_ToolNames :: "string list"

record verdict =
  vd_Switch :: bool
  vd_Model :: string
  vd_Reason :: string
  vd_Confidence :: f64

record advise_client =
  cl_endpoint :: string
  cl_gatewayID :: string
  cl_secret :: string
  cl_timeout :: int

datatype advise_error = AdviseMarshal | AdviseBuild | AdviseCall | AdviseStatus int | AdviseRead | AdviseDecode

text \<open>JSON, the HMAC in hexadecimal, and the exchange: its status and the body, if it can be read.\<close>

record advise_env =
  av_marshal :: "advise_request \<Rightarrow> string option"
  av_sign :: "string \<Rightarrow> string \<Rightarrow> string"
  av_build :: "string \<Rightarrow> bool"
  av_post :: "string \<Rightarrow> headers \<Rightarrow> string \<Rightarrow> (int \<times> string option) option"
  av_decode :: "string \<Rightarrow> verdict option"

definition maxVerdictBytes :: nat where "maxVerdictBytes = 65536"

definition Advise :: "advise_env \<Rightarrow> advise_client \<Rightarrow> advise_request \<Rightarrow> advise_error + verdict" where
  "Advise env c req =
     (case av_marshal env req of
        None \<Rightarrow> Inl AdviseMarshal
      | Some body \<Rightarrow>
          if \<not> av_build env (cl_endpoint c) then Inl AdviseBuild
          else let h = header_set (header_set (header_set [] ''Content-Type'' ''application/json'')
                         ''X-Slipspace-Gateway-Id'' (cl_gatewayID c))
                         ''X-Slipspace-Signature'' (av_sign env (cl_secret c) body)
               in case av_post env (cl_endpoint c) h body of
                    None \<Rightarrow> Inl AdviseCall
                  | Some (status, payload) \<Rightarrow>
                      if status \<noteq> 200 then Inl (AdviseStatus status)
                      else case payload of
                             None \<Rightarrow> Inl AdviseRead
                           | Some raw \<Rightarrow> (case av_decode env (take maxVerdictBytes raw) of
                                 None \<Rightarrow> Inl AdviseDecode
                               | Some v \<Rightarrow> Inr v))"

section \<open>Policy and clients\<close>

definition advisor_Timeout :: "advisor \<Rightarrow> int" where
  "advisor_Timeout a = (if ad_TimeoutMs a \<le> 0 then 5000 * 1000000 else i64 (ad_TimeoutMs a * 1000000))"

definition PinTTL :: "agent_routing option \<Rightarrow> int" where
  "PinTTL ar =
     (case ar of
        None \<Rightarrow> 7200 * 1000000000
      | Some a \<Rightarrow> if ag_PinTTLSeconds a \<le> 0 then 7200 * 1000000000 else i64 (ag_PinTTLSeconds a * 1000000000))"

definition ApplyWindow :: "agent_routing option \<Rightarrow> int" where
  "ApplyWindow ar =
     (case ar of None \<Rightarrow> 3 | Some a \<Rightarrow> if ag_ApplyWindowRequests a \<le> 0 then 3 else ag_ApplyWindowRequests a)"

fun modelIn :: "string list \<Rightarrow> string \<Rightarrow> bool" where
  "modelIn [] model = False"
| "modelIn (m # ms) model = (if m = model then True else modelIn ms model)"

definition NewClient :: "string \<Rightarrow> string \<Rightarrow> string \<Rightarrow> int \<Rightarrow> advise_client" where
  "NewClient endpoint gatewayID secret timeout =
     \<lparr>cl_endpoint = endpoint, cl_gatewayID = gatewayID, cl_secret = secret, cl_timeout = timeout\<rparr>"

text \<open>A call in flight holds what its goroutine captured.\<close>

record flight =
  fl_client :: advise_client
  fl_key :: string
  fl_allowed :: "string list"
  fl_window :: int
  fl_request :: advise_request

record agent_service =
  svc_register :: pin_register
  svc_clients :: "advise_client gomap"
  svc_inflight :: "flight list"

definition maxInflight :: nat where "maxInflight = 8"

definition NewService :: "advisor gomap \<Rightarrow> (string \<rightharpoonup> string) \<Rightarrow> agent_service" where
  "NewService advisors secrets =
     \<lparr>svc_register = NewRegister,
      svc_clients = List.map_filter (\<lambda>(name, a).
        map_option (\<lambda>secret. (name, NewClient (ad_Endpoint a) (ad_GatewayID a) secret (advisor_Timeout a)))
          (secrets name)) advisors,
      svc_inflight = []\<rparr>"

text \<open>The secret of an advisor: the trimmed content of its file, when there is one.\<close>

definition advisor_secrets :: "(string \<Rightarrow> string option) \<Rightarrow> advisor gomap \<Rightarrow> string \<rightharpoonup> string" where
  "advisor_secrets read_file advisors name =
     (case map_of advisors name of
        None \<Rightarrow> None
      | Some a \<Rightarrow> (case read_file (ad_HMACSecretFile a) of
            None \<Rightarrow> None
          | Some raw \<Rightarrow> (let secret = trim_space raw in if secret = [] then None else Some secret)))"

definition buildAgentRouter :: "(string \<Rightarrow> string option) \<Rightarrow> resolved_config \<Rightarrow> agent_service option" where
  "buildAgentRouter read_file resolved =
     (if rv_Advisors resolved = [] then None
      else Some (NewService (rv_Advisors resolved) (advisor_secrets read_file (rv_Advisors resolved))))"

section \<open>The service\<close>

text \<open>\<^verbatim>\<open>dispatch\<close>: a call takes one of the slots of the semaphore, or the attempt is abandoned.\<close>

definition svc_dispatch :: "advise_client \<Rightarrow> agent_routing \<Rightarrow> string \<Rightarrow> advise_request \<Rightarrow> agent_service \<Rightarrow> agent_service" where
  "svc_dispatch client ar key areq s =
     (if length (svc_inflight s) < maxInflight
      then s\<lparr>svc_inflight := svc_inflight s @
             [\<lparr>fl_client = client, fl_key = key, fl_allowed = ag_AllowModels ar, fl_window = ApplyWindow (Some ar), fl_request = areq\<rparr>]\<rparr>
      else s\<lparr>svc_register := pin_Fail key (svc_register s)\<rparr>)"

text \<open>What a request is decided on.\<close>

record route_query =
  rq_ids :: request_ids
  rq_cfgName :: string
  rq_routing :: "agent_routing option"
  rq_protocol :: string
  rq_provider :: string
  rq_model :: string
  rq_req :: "messages_request option"
  rq_headers :: headers

definition advise_request_of :: "route_query \<Rightarrow> messages_request \<Rightarrow> advise_request" where
  "advise_request_of q req =
     (let i = Identify (rq_headers q)
      in \<lparr>aq_Configuration = rq_cfgName q, aq_Protocol = rq_protocol q, aq_Provider = rq_provider q, aq_Model = rq_model q,
          aq_ConversationID = id_Conversation (rq_ids q), aq_SessionID = id_Session (rq_ids q),
          aq_AgentFamily = ai_Family i, aq_Entrypoint = ai_Entrypoint i, aq_IsSubagent = ai_IsSubagent i,
          aq_SystemPrefix = systemPrefix req, aq_FirstUserMessage = firstUserMessage req, aq_ToolNames = map at_Name (mq_Tools req)\<rparr>)"

definition agent_Evaluate ::
  "(string list \<Rightarrow> string list) \<Rightarrow> int \<Rightarrow> route_query \<Rightarrow> agent_service \<Rightarrow> pin option \<times> agent_service" where
  "agent_Evaluate order now q s =
     (case (rq_routing q, rq_req q) of
        (Some ar, Some req) \<Rightarrow>
          (case map_of (svc_clients s) (ag_Advisor ar) of
             None \<Rightarrow> (None, s)
           | Some client \<Rightarrow>
               if rq_protocol q \<noteq> ''messages'' then (None, s)
               else if \<not> ai_IsSubagent (Identify (rq_headers q)) then (None, s)
               else if mq_Tools req = [] then (None, s)
               else let key = id_Conversation (rq_ids q)
                    in if key = [] then (None, s)
                       else case Observe order now key (PinTTL (Some ar)) (svc_register s) of
                              ((p, fire), r) \<Rightarrow>
                                (let s1 = s\<lparr>svc_register := r\<rparr>
                                 in if p \<noteq> None then (p, s1)
                                    else if \<not> fire then (None, s1)
                                    else (None, svc_dispatch client ar key (advise_request_of q req) s1)))
      | _ \<Rightarrow> (None, s))"

datatype advise_answer = AdviseReturns "advise_error + verdict" | AdvisePanics

text \<open>The end of a goroutine: its verdict lands, and then its slot is free. A panic lands nothing.\<close>

definition land_verdict :: "flight \<Rightarrow> advise_answer \<Rightarrow> pin_register \<Rightarrow> pin_register" where
  "land_verdict f answer r =
     (case answer of
        AdvisePanics \<Rightarrow> r
      | AdviseReturns (Inl e) \<Rightarrow> pin_Fail (fl_key f) r
      | AdviseReturns (Inr v) \<Rightarrow>
          pin_Complete (fl_key f)
            (if \<not> vd_Switch v then None
             else if \<not> modelIn (fl_allowed f) (vd_Model v) then None
             else Some \<lparr>pn_Model = vd_Model v, pn_Reason = vd_Reason v\<rparr>) (fl_window f) r)"

definition finish_flight :: "nat \<Rightarrow> advise_answer \<Rightarrow> agent_service \<Rightarrow> agent_service" where
  "finish_flight i answer s =
     (if i < length (svc_inflight s)
      then s\<lparr>svc_register := land_verdict (svc_inflight s ! i) answer (svc_register s),
             svc_inflight := take i (svc_inflight s) @ drop (i + 1) (svc_inflight s)\<rparr>
      else s)"

datatype route_event =
    Arrive "string list \<Rightarrow> string list" int route_query
  | Finish nat advise_answer

fun route_step :: "route_event \<Rightarrow> agent_service \<Rightarrow> pin option \<times> agent_service" where
  "route_step (Arrive order now q) s = agent_Evaluate order now q s"
| "route_step (Finish i answer) s = (None, finish_flight i answer s)"

fun route_run :: "route_event list \<Rightarrow> agent_service \<Rightarrow> agent_service" where
  "route_run [] s = s"
| "route_run (e # es) s = route_run es (snd (route_step e s))"

lemma route_run_snoc: "route_run (es @ [e]) s = snd (route_step e (route_run es s))"
  by (induction es arbitrary: s) auto

section \<open>What a run guarantees\<close>

text \<open>An earlier request of the conversation whose policy allows the model.\<close>

definition allowed_in :: "route_event list \<Rightarrow> string \<Rightarrow> string \<Rightarrow> bool" where
  "allowed_in es key model \<longleftrightarrow>
     (\<exists>order now q ar. Arrive order now q \<in> set es \<and> id_Conversation (rq_ids q) = key \<and>
        rq_routing q = Some ar \<and> model \<in> set (ag_AllowModels ar))"

definition allowed_pins :: "route_event list \<Rightarrow> pin_register \<Rightarrow> bool" where
  "allowed_pins es r \<longleftrightarrow> (\<forall>k e p. map_of r k = Some e \<longrightarrow> en_pin e = Some p \<longrightarrow> allowed_in es k (pn_Model p))"

definition allowed_flights :: "route_event list \<Rightarrow> flight list \<Rightarrow> bool" where
  "allowed_flights es fs \<longleftrightarrow> (\<forall>f \<in> set fs. \<forall>m \<in> set (fl_allowed f). allowed_in es (fl_key f) m)"

lemma allowed_in_mono: "allowed_in es k m \<Longrightarrow> allowed_in (es @ es') k m"
  unfolding allowed_in_def by (metis Un_iff set_append)

lemma modelIn_set: "modelIn ms m \<longleftrightarrow> m \<in> set ms"
  by (induction ms) auto

lemma sweep_sub: "map_of (sweepLocked order now r) k = Some e \<Longrightarrow> distinct (map fst r) \<Longrightarrow> map_of r k = Some e"
  by (auto simp: sweepLocked_def Let_def dest!: map_of_SomeD intro!: map_of_is_SomeI)

lemma Observe_pins:
  assumes "allowed_pins es r" "distinct (map fst r)" "Observe order now key ttl r = ((p, fire), r')"
  shows "allowed_pins es r' \<and> (\<forall>x. p = Some x \<longrightarrow> allowed_in es key (pn_Model x))"
proof -
  have s: "allowed_pins es (sweepLocked order now r)"
    using assms(1) sweep_sub [OF _ assms(2)] unfolding allowed_pins_def by blast
  show ?thesis
  proof (cases "map_of r key")
    case None
    then have "p = None" "r' = AList.update key \<lparr>en_pin = None, en_decided = False, en_seen = 1, en_expires = now + ttl\<rparr>
        (if int (length r) \<ge> maxEntries then sweepLocked order now r else r)"
      using assms(3) by (simp_all add: Observe_def Let_def)
    with s assms(1) show ?thesis by (auto simp: allowed_pins_def update_conv')
  next
    case (Some e)
    with assms(1,3) show ?thesis
      by (auto simp: Observe_def Let_def allowed_pins_def update_conv' split: if_splits)
  qed
qed

lemma Complete_pins:
  assumes "allowed_pins es r" "\<And>x. p = Some x \<Longrightarrow> allowed_in es key (pn_Model x)"
  shows "allowed_pins es (pin_Complete key p window r)"
  using assms by (auto simp: pin_Complete_def Let_def allowed_pins_def update_conv' split: option.splits if_splits)

lemma Fail_pins: "allowed_pins es r \<Longrightarrow> allowed_pins es (pin_Fail key r)"
  by (auto simp: pin_Fail_def allowed_pins_def delete_conv' split: option.splits if_splits)

definition service_ok :: "route_event list \<Rightarrow> agent_service \<Rightarrow> bool" where
  "service_ok es s \<longleftrightarrow> register_ok (svc_register s) \<and> length (svc_inflight s) \<le> maxInflight \<and>
     allowed_pins es (svc_register s) \<and> allowed_flights es (svc_inflight s)"

lemma service_ok_mono: "service_ok es s \<Longrightarrow> service_ok (es @ es') s"
  using allowed_in_mono unfolding service_ok_def allowed_pins_def allowed_flights_def by blast

lemma dispatch_ok:
  assumes "service_ok es s" "\<forall>m \<in> set (ag_AllowModels ar). allowed_in es key m"
  shows "service_ok es (svc_dispatch client ar key areq s)"
  using assms Fail_ok Fail_pins by (auto simp: svc_dispatch_def service_ok_def allowed_flights_def)

lemma Evaluate_ok:
  assumes "service_ok es s" "permutes_keys order"
  shows "service_ok (es @ [Arrive order now q]) (snd (agent_Evaluate order now q s)) \<and>
    (\<forall>p. fst (agent_Evaluate order now q s) = Some p \<longrightarrow> allowed_in es (id_Conversation (rq_ids q)) (pn_Model p))"
proof (cases "agent_Evaluate order now q s = (None, s)")
  case True
  with service_ok_mono [OF assms(1)] show ?thesis by simp
next
  case False
  then obtain ar req client where q: "rq_routing q = Some ar" "rq_req q = Some req" "map_of (svc_clients s) (ag_Advisor ar) = Some client"
    by (auto simp: agent_Evaluate_def split: option.splits)
  let ?key = "id_Conversation (rq_ids q)"
  obtain p fire r where o: "Observe order now ?key (PinTTL (Some ar)) (svc_register s) = ((p, fire), r)" by (metis prod.collapse)
  have s0: "register_ok (svc_register s)" "allowed_pins es (svc_register s)" using assms(1) by (auto simp: service_ok_def)
  then have d: "distinct (map fst (svc_register s))" by (simp add: register_ok_def)
  note op = Observe_pins [OF s0(2) d o]
  have s1: "service_ok es (s\<lparr>svc_register := r\<rparr>)"
    using op assms(1) Observe_ok [OF assms(2) s0(1), of now ?key "PinTTL (Some ar)"] o by (simp add: service_ok_def)
  have al: "\<forall>m \<in> set (ag_AllowModels ar). allowed_in (es @ [Arrive order now q]) ?key m"
    using q(1) by (auto simp: allowed_in_def)
  have ev: "agent_Evaluate order now q s =
      (if p \<noteq> None then (p, s\<lparr>svc_register := r\<rparr>) else if \<not> fire then (None, s\<lparr>svc_register := r\<rparr>)
       else (None, svc_dispatch client ar ?key (advise_request_of q req) (s\<lparr>svc_register := r\<rparr>)))"
    using False o q by (auto simp: agent_Evaluate_def Let_def split: if_splits)
  show ?thesis unfolding ev
    using op service_ok_mono [OF s1] dispatch_ok [OF service_ok_mono [OF s1] al] by auto
qed

lemma land_pins:
  assumes "allowed_pins es r" "\<forall>m \<in> set (fl_allowed f). allowed_in es (fl_key f) m"
  shows "allowed_pins es (land_verdict f answer r)"
  using assms unfolding land_verdict_def
  by (auto intro!: Complete_pins Fail_pins simp: modelIn_set split: advise_answer.split sum.split)

lemma land_ok: "register_ok r \<Longrightarrow> register_ok (land_verdict f answer r)"
  by (auto intro!: Complete_ok Fail_ok simp: land_verdict_def split: advise_answer.split sum.split)

lemma finish_ok:
  assumes "service_ok es s"
  shows "service_ok es (finish_flight i answer s)"
proof (cases "i < length (svc_inflight s)")
  case True
  let ?f = "svc_inflight s ! i"
  have f: "?f \<in> set (svc_inflight s)" using True by simp
  have "allowed_pins es (land_verdict ?f answer (svc_register s)) \<and> register_ok (land_verdict ?f answer (svc_register s))"
    using assms f land_pins land_ok unfolding service_ok_def allowed_flights_def by blast
  moreover have "set (take i (svc_inflight s) @ drop (i + 1) (svc_inflight s)) \<subseteq> set (svc_inflight s)"
    using set_take_subset set_drop_subset by fastforce
  ultimately show ?thesis using assms True
    unfolding service_ok_def allowed_flights_def finish_flight_def by (auto simp: subset_iff)
next
  case False
  with assms show ?thesis by (simp add: finish_flight_def)
qed

lemma run_ok:
  assumes "\<forall>order now q. Arrive order now q \<in> set es \<longrightarrow> permutes_keys order"
  shows "service_ok es (route_run es (NewService advisors secrets))"
  using assms
proof (induction es rule: rev_induct)
  case Nil
  show ?case by (simp add: service_ok_def NewService_def NewRegister_def register_ok_def maxEntries_def allowed_pins_def allowed_flights_def)
next
  case (snoc e es)
  then have ih: "service_ok es (route_run es (NewService advisors secrets))" by auto
  show ?case
  proof (cases e)
    case (Arrive order now q)
    with snoc.prems have "permutes_keys order" by auto
    from Evaluate_ok [OF ih this] Arrive show ?thesis by (simp add: route_run_snoc)
  next
    case (Finish i answer)
    with finish_ok [OF service_ok_mono [OF ih]] show ?thesis by (simp add: route_run_snoc)
  qed
qed

text \<open>
  C24. Agent routing is bounded and only pins what a policy allowed: after any requests and ends of
  advisory calls, in any order and with any answers, the register holds at most 100000 conversations and
  at most eight calls are in flight, and the pin a request gets names a model that the policy of an
  earlier request of the same conversation lists.
\<close>

theorem pins_were_allowed:
  assumes "\<forall>order now q. Arrive order now q \<in> set (es @ [Arrive order0 now0 q0]) \<longrightarrow> permutes_keys order"
    and "s = route_run es (NewService advisors secrets)"
  shows "length (svc_register s) \<le> 100000 \<and> length (svc_inflight s) \<le> 8 \<and>
    (\<forall>p. fst (agent_Evaluate order0 now0 q0 s) = Some p \<longrightarrow> allowed_in es (id_Conversation (rq_ids q0)) (pn_Model p))"
proof -
  have "service_ok es s" unfolding assms(2) by (rule run_ok) (use assms(1) in auto)
  with Evaluate_ok [OF this, of order0 now0 q0] assms(1) show ?thesis
    by (simp add: service_ok_def register_ok_def maxEntries_def maxInflight_def)
qed


definition sample_advisors :: "advisor gomap" where
  "sample_advisors = [(''arbiter'', \<lparr>ad_Endpoint = ''https://arbiter/advise'', ad_HMACSecretFile = ''/run/hmac'', ad_GatewayID = ''gw'', ad_TimeoutMs = 0\<rparr>)]"

definition sample_policy_allowing :: "string list \<Rightarrow> agent_routing" where
  "sample_policy_allowing ms = \<lparr>ag_Advisor = ''arbiter'', ag_AllowModels = ms, ag_PinTTLSeconds = 0, ag_ApplyWindowRequests = 0\<rparr>"

definition bash_tool :: ant_tool where
  "bash_tool = \<lparr>at_Type = [], at_Name = ''Bash'', at_Description = [], at_InputSchema = [], at_DeferLoading = None, at_CacheControl = False\<rparr>"

definition plain_request :: "string \<Rightarrow> ant_message list \<Rightarrow> ant_tool list \<Rightarrow> messages_request" where
  "plain_request model msgs tools =
     \<lparr>mq_Model = model, mq_MaxTokens = 1024, mq_Messages = msgs, mq_System = RawAbsent, mq_Temperature = None, mq_TopP = None,
      mq_TopK = None, mq_StopSequences = [], mq_Stream = False, mq_Tools = tools, mq_ToolChoice = None, mq_Metadata = None,
      mq_Thinking = False, mq_ServiceTier = [], mq_OutputConfig = None, mq_ContextManagement = False\<rparr>"

definition sample_subagent :: "string \<Rightarrow> string list \<Rightarrow> route_query" where
  "sample_subagent cfg ms =
     \<lparr>rq_ids = \<lparr>id_Correlation = ''c'', id_Session = ''s'', id_SessionSource = [], id_Conversation = ''a1'', id_ConversationSource = [],
        id_Parent = ''s'', id_Agent = [], id_AgentSource = [], id_User = [], id_UserSource = []\<rparr>,
      rq_cfgName = cfg, rq_routing = Some (sample_policy_allowing ms), rq_protocol = ''messages'', rq_provider = ''anthropic'',
      rq_model = ''claude-opus-4'',
      rq_req = Some (plain_request ''claude-opus-4'' [\<lparr>am_Role = ''user'', am_Content = RawString ''echo''\<rparr>] [bash_tool]),
      rq_headers = [(''User-Agent'', [''claude-cli/2.1.209 (external, sdk-cli)'']), (''X-Claude-Code-Agent-Id'', [''a1''])]\<rparr>"

definition haiku_verdict :: advise_answer where
  "haiku_verdict = AdviseReturns (Inr \<lparr>vd_Switch = True, vd_Model = ''claude-haiku-4'', vd_Reason = ''trivial'', vd_Confidence = Fin 1\<rparr>)"

definition sample_route_run :: "route_event list" where
  "sample_route_run = [Arrive (\<lambda>ks. ks) 0 (sample_subagent ''a'' [''claude-haiku-4'']), Finish 0 haiku_verdict]"

definition sample_service :: agent_service where
  "sample_service = route_run sample_route_run (NewService sample_advisors (\<lambda>_. Some ''key''))"

lemma sample_service_pins:
  "fst (agent_Evaluate (\<lambda>ks. ks) 1 (sample_subagent ''a'' [''claude-haiku-4'']) sample_service) =
     Some \<lparr>pn_Model = ''claude-haiku-4'', pn_Reason = ''trivial''\<rparr>"
  by code_simp

lemma pins_were_allowed_witness: "allowed_in sample_route_run ''a1'' ''claude-haiku-4''"
proof -
  let ?q = "sample_subagent ''a'' [''claude-haiku-4'']"
  have "\<forall>order now q. Arrive order now q \<in> set (sample_route_run @ [Arrive (\<lambda>ks. ks) 1 ?q]) \<longrightarrow> permutes_keys order"
    using permutes_id by (auto simp: sample_route_run_def)
  from pins_were_allowed [OF this sample_service_def] sample_service_pins show ?thesis
    by (simp add: sample_subagent_def)
qed

text \<open>
  The pin belongs to the conversation id alone, which the client chooses: a request of another
  configuration under the same id is pinned to a model its own policy does not list.
\<close>

theorem pin_crosses_configurations:
  "fst (agent_Evaluate (\<lambda>ks. ks) 1 (sample_subagent ''b'' [''claude-sonnet-4'']) sample_service) =
     Some \<lparr>pn_Model = ''claude-haiku-4'', pn_Reason = ''trivial''\<rparr> \<and>
   \<not> modelIn (ag_AllowModels (the (rq_routing (sample_subagent ''b'' [''claude-sonnet-4''])))) ''claude-haiku-4''"
proof
  show "fst (agent_Evaluate (\<lambda>ks. ks) 1 (sample_subagent ''b'' [''claude-sonnet-4'']) sample_service) =
     Some \<lparr>pn_Model = ''claude-haiku-4'', pn_Reason = ''trivial''\<rparr>" by code_simp
  show "\<not> modelIn (ag_AllowModels (the (rq_routing (sample_subagent ''b'' [''claude-sonnet-4''])))) ''claude-haiku-4''" by code_simp
qed

text \<open>Only a subagent conversation of the messages protocol that declares tools is ever looked at.\<close>

lemma Evaluate_eligible:
  assumes "agent_Evaluate order now q s \<noteq> (None, s)"
  shows "rq_protocol q = ''messages'' \<and> ai_IsSubagent (Identify (rq_headers q)) \<and> id_Conversation (rq_ids q) \<noteq> [] \<and>
    (\<exists>ar req. rq_routing q = Some ar \<and> rq_req q = Some req \<and> mq_Tools req \<noteq> [])"
  using assms by (auto simp: agent_Evaluate_def Let_def split: option.splits if_splits)

section \<open>Reconciliation\<close>

text \<open>The tokens of a header, over all its values.\<close>

definition beta_tokens :: "headers \<Rightarrow> string list" where
  "beta_tokens h = concat (map (split_on (CHR '','')) (header_values h betaHeader))"

lemma split_on_nonempty: "split_on c s \<noteq> []"
  by (induction s) (auto split: list.splits)

lemma split_on_parts: "x \<in> set (split_on c s) \<Longrightarrow> c \<notin> set x"
  by (induction s arbitrary: x) (auto split: list.splits if_splits)

lemma kept_split:
  assumes "\<not> only_separators (join_with '','' (filter P (split_on (CHR '','') v)))"
  shows "split_on (CHR '','') (join_with '','' (filter P (split_on (CHR '','') v))) = filter P (split_on (CHR '','') v)"
  by (rule split_join) (use assms in \<open>auto simp: only_separators_def dest: split_on_parts\<close>)

lemma reconcile_clean:
  "\<forall>v \<in> set (snd (reconcile_values lib vs)). \<forall>tok \<in> set (split_on (CHR '','') v). \<not> long_context_token lib tok"
  by (induction vs) (auto simp: Let_def split_beta kept_split)

lemma reconcile_stripped: "fst (reconcile_values lib vs) \<longleftrightarrow> (\<exists>v \<in> set vs. \<exists>tok \<in> set (split_on (CHR '','') v). long_context_token lib tok)"
  by (induction vs) (auto simp: Let_def split_beta list_ex_iff)

lemma add_values: "header_values (foldl (\<lambda>h v. header_add h betaHeader v) h vs) betaHeader = header_values h betaHeader @ vs"
  by (induction vs arbitrary: h) (simp_all add: header_values_add)


lemma join_separators: "only_separators (join_with '','' xs) \<longleftrightarrow> (\<forall>x \<in> set xs. only_separators x)"
  by (induction xs rule: induct_list012) (auto simp: only_separators_def)

lemma reconcile_tokens:
  "filter (\<lambda>t. \<not> only_separators t) (concat (map (split_on (CHR '','')) (snd (reconcile_values lib vs)))) =
   filter (\<lambda>t. \<not> long_context_token lib t \<and> \<not> only_separators t) (concat (map (split_on (CHR '','')) vs))"
proof (induction vs)
  case (Cons v vs)
  let ?kept = "filter (\<lambda>tok. \<not> long_context_token lib tok) (split_on (CHR '','') v)"
  have "filter (\<lambda>t. \<not> only_separators t) ?kept =
      (if only_separators (join_with '','' ?kept) then [] else filter (\<lambda>t. \<not> only_separators t) (split_on (CHR '','') (join_with '','' ?kept)))"
  proof (cases "only_separators (join_with '','' ?kept)")
    case True
    then show ?thesis unfolding join_separators by (auto simp: filter_empty_conv)
  next
    case False
    then show ?thesis by (simp add: kept_split)
  qed
  moreover have "filter (\<lambda>t. \<not> only_separators t) ?kept = filter (\<lambda>t. \<not> long_context_token lib t \<and> \<not> only_separators t) (split_on (CHR '','') v)"
    by (simp add: conj_commute)
  ultimately show ?case using Cons by (auto simp: Let_def split_beta)
qed simp

text \<open>
  Reconciling the beta header is a filter: for a pinned model without the long context no such token
  is left, the other tokens stay in their order, no other header changes, and when there is nothing to
  strip the header is untouched.
\<close>

theorem betas_reconciled:
  assumes "ReconcileBetas lib h model = (stripped, h')"
  shows "(lacks1MContext model \<longrightarrow> (\<forall>tok \<in> set (beta_tokens h'). \<not> long_context_token lib tok)) \<and>
    (\<not> stripped \<longrightarrow> h' = h) \<and>
    (stripped \<longrightarrow> filter (\<lambda>t. \<not> only_separators t) (beta_tokens h') =
       filter (\<lambda>t. \<not> long_context_token lib t \<and> \<not> only_separators t) (beta_tokens h)) \<and>
    (\<forall>k. canonical_key k \<noteq> canonical_key betaHeader \<longrightarrow> header_values h' k = header_values h k)"
proof -
  have other: "header_values (foldl (\<lambda>h v. header_add h betaHeader v) g vs) k = header_values g k"
    if "canonical_key k \<noteq> canonical_key betaHeader" for k g vs
    using that by (induction vs arbitrary: g) (simp_all add: header_values_add)
  let ?r = "reconcile_values lib (header_values h betaHeader)"
  show ?thesis
  proof (cases "lacks1MContext model \<and> header_values h betaHeader \<noteq> [] \<and> fst ?r")
    case True
    with assms have h': "stripped" "h' = foldl (\<lambda>h v. header_add h betaHeader v) (header_del h betaHeader) (snd ?r)"
      by (simp_all add: ReconcileBetas_def Let_def split_beta)
    then have "header_values h' betaHeader = snd ?r" by (simp add: add_values header_values_del)
    with h' reconcile_clean [of lib] reconcile_tokens [of lib "header_values h betaHeader"] other show ?thesis
      by (auto simp: beta_tokens_def header_values_del)
  next
    case False
    with assms have "\<not> stripped" "h' = h" by (auto simp: ReconcileBetas_def Let_def split_beta split: if_splits)
    moreover have "\<forall>tok \<in> set (beta_tokens h). \<not> long_context_token lib tok" if "lacks1MContext model"
      using False that reconcile_stripped [of lib "header_values h betaHeader"] by (auto simp: beta_tokens_def)
    ultimately show ?thesis by auto
  qed
qed

lemma betas_reconciled_witness:
  "filter (\<lambda>t. \<not> only_separators t)
     (beta_tokens (snd (ReconcileBetas ascii_lib [(''Anthropic-Beta'', [''oauth-1, Context-1M-2025,fine'', ''context-1m''])] ''claude-haiku-4''))) =
   [''oauth-1'', ''fine'']"
proof -
  let ?h = "[(''Anthropic-Beta'', [''oauth-1, Context-1M-2025,fine'', ''context-1m''])]"
  have r: "ReconcileBetas ascii_lib ?h ''claude-haiku-4'' = (True, snd (ReconcileBetas ascii_lib ?h ''claude-haiku-4''))" by code_simp
  have "filter (\<lambda>t. \<not> long_context_token ascii_lib t \<and> \<not> only_separators t) (beta_tokens ?h) = [''oauth-1'', ''fine'']" by code_simp
  with betas_reconciled [OF r] show ?thesis by simp
qed

section \<open>Reminders\<close>

lemma str_index_prefix: "str_index s p = Some n \<Longrightarrow> has_prefix (drop n s) p"
  by (induction s p arbitrary: n rule: str_index.induct) (auto split: if_splits)

text \<open>The excerpt never starts with a reminder, is trimmed, and is a part of the message.\<close>

lemma strip_no_reminder: "\<not> has_prefix (stripSystemReminders s) reminderOpen"
proof (induction s rule: stripSystemReminders.induct)
  case (1 s)
  then show ?case by (subst stripSystemReminders.simps) (auto simp: Let_def reminderOpen_def split: option.split)
qed

lemma truncate_bound: "length (truncate_prefix s) \<le> 4096"
  by (simp add: truncate_prefix_def maxPrefixBytes_def)

lemma first_text_bound: "length (first_text bs) \<le> 4096"
  by (induction bs rule: first_text.induct) (simp_all add: truncate_bound Let_def)

lemma first_user_bound: "length (first_user ms) \<le> 4096"
  by (induction ms rule: first_user.induct) (simp_all add: truncate_bound first_text_bound split: option.split)

theorem excerpts_bounded:
  "length (aq_SystemPrefix (advise_request_of q req)) \<le> 4096 \<and> length (aq_FirstUserMessage (advise_request_of q req)) \<le> 4096"
  by (simp add: advise_request_of_def Let_def systemPrefix_def firstUserMessage_def first_user_bound truncate_bound split: option.split)

section \<open>The selection stage\<close>

record protocol_info =
  pi_protocol :: string
  pi_params :: "(string \<times> string) list"
  pi_generative :: bool

definition protocolMiddleware :: "string \<Rightarrow> protocol_info" where
  "protocolMiddleware path =
     (case ProtocolForPath path of
        Some (proto, params) \<Rightarrow> \<lparr>pi_protocol = proto, pi_params = params, pi_generative = True\<rparr>
      | None \<Rightarrow> \<lparr>pi_protocol = [], pi_params = [], pi_generative = False\<rparr>)"

text \<open>The captured body: a typed messages request in full, any other by what the rules see of it.\<close>

datatype captured_body = CapMessages messages_request | CapOther typed_body

definition bodycapture_Model :: "captured_body \<Rightarrow> string" where
  "bodycapture_Model b =
     (case b of
        CapMessages q \<Rightarrow> trim_space (mq_Model q)
      | CapOther (ChatBody m) \<Rightarrow> trim_space m
      | CapOther (ResponsesBody m) \<Rightarrow> trim_space m
      | CapOther (MessagesBody m) \<Rightarrow> trim_space m
      | CapOther _ \<Rightarrow> [])"

record selection_input =
  si_info :: "protocol_info option"
  si_auth :: "auth_result option"
  si_method :: string
  si_path :: string
  si_body :: "captured_body option"
  si_ids :: request_ids
  si_headers :: headers

text \<open>An answer written by the stage, or what it hands on; a nil dereference would be \<open>SelPanics\<close>.\<close>

datatype selection_outcome =
    SelRefused int string string
  | SelPassthrough passthrough_match mutable_state
  | SelRouted mutable_state resilience_config headers
  | SelPanics

definition add_tags :: "string list \<Rightarrow> mutable_state \<Rightarrow> mutable_state" where
  "add_tags ts s = foldl (\<lambda>s t. snd (AddTag s t)) s ts"

definition select_passthrough ::
  "golib \<Rightarrow> providers_config \<Rightarrow> selection_input \<Rightarrow> configuration \<Rightarrow> selection_outcome" where
  "select_passthrough lib providers inp cfg =
     (case MatchPassthrough lib (si_method inp) (si_path inp) cfg providers of
        Inl ErrNoPassthrough \<Rightarrow> SelRefused 404 ''no_route'' ''no route for path''
      | Inl ErrMethodNotAllowed \<Rightarrow> SelRefused 405 ''method_not_allowed'' ''method not allowed''
      | Inl _ \<Rightarrow> SelRefused 500 ''internal'' ''internal error''
      | Inr pm \<Rightarrow>
          SelPassthrough pm
            (add_tags (pm_Tags pm) (NewMutableState (pm_Provider pm) (pm_Family pm) (si_path inp) (pm_Params pm))))"

definition request_model :: "selection_input \<Rightarrow> protocol_info \<Rightarrow> string" where
  "request_model inp info =
     (let m = param (pi_params info) ''model''
      in if m = [] then (case si_body inp of Some b \<Rightarrow> bodycapture_Model b | None \<Rightarrow> []) else m)"

text \<open>The pin of a generative request: only single targets of a configuration with a policy are asked about.\<close>

definition select_pin ::
  "(string list \<Rightarrow> string list) \<Rightarrow> int \<Rightarrow> selection_input \<Rightarrow> auth_result \<Rightarrow> configuration \<Rightarrow> string \<Rightarrow> string \<Rightarrow>
     destination \<Rightarrow> agent_service option \<Rightarrow> (pin option \<times> messages_request option) \<times> agent_service option" where
  "select_pin order now inp ar cfg protocol model dest router =
     (case (router, ds_Single dest, cfg_AgentRouting cfg) of
        (Some s, Some single, Some routing) \<Rightarrow>
          (case si_body inp of
             Some (CapMessages mreq) \<Rightarrow>
               (case agent_Evaluate order now
                   \<lparr>rq_ids = si_ids inp, rq_cfgName = ar_ConfigurationName ar, rq_routing = Some routing, rq_protocol = protocol,
                    rq_provider = st_Provider single, rq_model = model, rq_req = Some mreq, rq_headers = si_headers inp\<rparr> s of
                  (p, s') \<Rightarrow> ((p, Some mreq), Some s'))
           | _ \<Rightarrow> ((None, None), router))
      | _ \<Rightarrow> ((None, None), router))"

text \<open>What a pin does to the state and to the inbound headers.\<close>

definition apply_pin ::
  "golib \<Rightarrow> pin option \<Rightarrow> messages_request option \<Rightarrow> mutable_state \<Rightarrow> headers \<Rightarrow> mutable_state \<times> headers" where
  "apply_pin lib pinned body s h =
     (case pinned of
        None \<Rightarrow> (s, h)
      | Some p \<Rightarrow>
          (let ops = ReconcileBody body (pn_Model p);
               s1 = snd (AddTag s (''agent-route:'' @ pn_Model p));
               (stripped, h1) = ReconcileBetas lib h (pn_Model p);
               s2 = (if stripped then snd (AddTag s1 ''agent-route:stripped-context-1m'') else s1);
               s3 = (if ops \<noteq> []
                     then snd (AddTag (s2\<lparr>ms_BodyRewrites := ms_BodyRewrites s2 @ ops\<rparr>) ''agent-route:stripped-effort'')
                     else s2)
           in (s3, h1)))"

definition select_generative ::
  "golib \<Rightarrow> (string list \<Rightarrow> string list) \<Rightarrow> int \<Rightarrow> providers_config \<Rightarrow> groups_config \<Rightarrow> selection_input \<Rightarrow> protocol_info \<Rightarrow>
     auth_result \<Rightarrow> configuration \<Rightarrow> agent_service option \<Rightarrow> selection_outcome \<times> agent_service option" where
  "select_generative lib order now providers groups inp info ar cfg router =
     (let model = request_model inp info
      in case Select (pi_protocol info) model cfg providers groups of
           Inl ErrNoBinding \<Rightarrow> (SelRefused 404 ''no_binding'' ''model not served on this protocol'', router)
         | Inl _ \<Rightarrow> (SelRefused 500 ''internal'' ''internal error'', router)
         | Inr dest \<Rightarrow>
             (case select_pin order now inp ar cfg (pi_protocol info) model dest router of
                ((pinned, body), router1) \<Rightarrow>
                  (let single = (case pinned of None \<Rightarrow> ds_Single dest
                                 | Some p \<Rightarrow> map_option (\<lambda>t. t\<lparr>st_Alias := pn_Model p\<rparr>) (ds_Single dest))
                   in case (case ds_Group dest of
                              Some g \<Rightarrow> Some (group_ResilienceConfig g, [])
                            | None \<Rightarrow> map_option (\<lambda>t. (SingleTargetResilienceConfig t, st_Provider t)) single) of
                        None \<Rightarrow> (SelPanics, router1)
                      | Some (rc, provider) \<Rightarrow>
                          (let s0 = add_tags (ds_Tags dest) (NewMutableState provider (pi_protocol info) [] (pi_params info));
                               (s1, h1) = apply_pin lib pinned body s0 (si_headers inp)
                           in (SelRouted (s1\<lparr>ms_PolicyRef := rc_Name rc\<rparr>) rc h1, router1)))))"

definition selectionMiddleware ::
  "golib \<Rightarrow> (string list \<Rightarrow> string list) \<Rightarrow> int \<Rightarrow> providers_config \<Rightarrow> groups_config \<Rightarrow> selection_input \<Rightarrow>
     agent_service option \<Rightarrow> selection_outcome \<times> agent_service option" where
  "selectionMiddleware lib order now providers groups inp router =
     (case si_info inp of
        None \<Rightarrow> (SelRefused 500 ''internal'' ''internal error'', router)
      | Some info \<Rightarrow>
          (case si_auth inp of
             None \<Rightarrow> (SelRefused 500 ''internal'' ''internal error'', router)
           | Some ar \<Rightarrow>
               (case ar_Configuration ar of
                  None \<Rightarrow> (SelRefused 500 ''internal'' ''internal error'', router)
                | Some cfg \<Rightarrow>
                    if \<not> pi_generative info then (select_passthrough lib providers inp cfg, router)
                    else select_generative lib order now providers groups inp info ar cfg router)))"

lemma Select_destination:
  assumes "Select protocol model cfg providers groups = Inr dest"
  shows "(ds_Single dest = None) \<noteq> (ds_Group dest = None)"
proof -
  have "(ds_Single dest = None) \<noteq> (ds_Group dest = None)"
    if "select_loop protocol model cfg providers groups bs = Inr dest" for bs
    using that
    by (induction bs) (auto simp: select_single_def select_group_def Let_def split: option.splits sum.splits if_splits)
  with assms show ?thesis by (auto simp: Select_def)
qed

text \<open>The stage never dereferences a missing destination.\<close>

lemma selection_never_panics: "fst (selectionMiddleware lib order now providers groups inp router) \<noteq> SelPanics"
proof -
  have "fst (select_generative lib order now providers groups inp info ar cfg router) \<noteq> SelPanics" for info ar cfg
    using Select_destination
    by (fastforce simp: select_generative_def Let_def split_beta split: sum.splits selection_error.splits option.splits)
  moreover have "select_passthrough lib providers inp cfg \<noteq> SelPanics" for cfg
    by (auto simp: select_passthrough_def split: sum.splits selection_error.splits)
  ultimately show ?thesis by (auto simp: selectionMiddleware_def split: option.split)
qed


lemma AddTag_rest [simp]: "ms_Provider (snd (AddTag s t)) = ms_Provider s" "ms_BodyRewrites (snd (AddTag s t)) = ms_BodyRewrites s"
  by (simp_all add: AddTag_def)

lemma AddTag_tags: "set (ms_Tags s) \<subseteq> set (ms_Tags (snd (AddTag s t)))" "t \<noteq> [] \<Longrightarrow> t \<in> set (ms_Tags (snd (AddTag s t)))"
  by (auto simp: AddTag_def)

lemma add_tags_mem: "set ts - {[]} \<union> set (ms_Tags s) \<subseteq> set (ms_Tags (add_tags ts s))"
proof (induction ts arbitrary: s)
  case Nil
  then show ?case by (simp add: add_tags_def)
next
  case (Cons t ts)
  have e: "add_tags (t # ts) s = add_tags ts (snd (AddTag s t))" by (simp add: add_tags_def)
  have "set (ms_Tags s) \<subseteq> set (ms_Tags (snd (AddTag s t)))" "t \<noteq> [] \<Longrightarrow> t \<in> set (ms_Tags (snd (AddTag s t)))"
    by (rule AddTag_tags, assumption?)+
  with Cons.IH [of "snd (AddTag s t)"] show ?case unfolding e by auto
qed

lemma add_tags_rest: "ms_Provider (add_tags ts s) = ms_Provider s" "ms_BodyRewrites (add_tags ts s) = ms_BodyRewrites s"
  unfolding add_tags_def by (induction ts arbitrary: s) simp_all

lemma apply_pin_effect:
  assumes "apply_pin lib (Some p) body s h = (s', h')"
  shows "ms_Provider s' = ms_Provider s \<and> set (ms_Tags s) \<subseteq> set (ms_Tags s') \<and> (''agent-route:'' @ pn_Model p) \<in> set (ms_Tags s') \<and>
    ms_BodyRewrites s' = ms_BodyRewrites s @ ReconcileBody body (pn_Model p) \<and> h' = snd (ReconcileBetas lib h (pn_Model p))"
proof -
  let ?s1 = "snd (AddTag s (''agent-route:'' @ pn_Model p))"
  obtain stripped h1 where b: "ReconcileBetas lib h (pn_Model p) = (stripped, h1)" by fastforce
  define s2 where "s2 = (if stripped then snd (AddTag ?s1 ''agent-route:stripped-context-1m'') else ?s1)"
  have s2: "ms_Provider s2 = ms_Provider s" "ms_BodyRewrites s2 = ms_BodyRewrites s" "set (ms_Tags ?s1) \<subseteq> set (ms_Tags s2)"
    unfolding s2_def using AddTag_tags(1) [of ?s1 "''agent-route:stripped-context-1m''"] by simp_all
  have s': "h' = h1" "s' = (if ReconcileBody body (pn_Model p) \<noteq> []
      then snd (AddTag (s2\<lparr>ms_BodyRewrites := ms_BodyRewrites s2 @ ReconcileBody body (pn_Model p)\<rparr>) ''agent-route:stripped-effort'') else s2)"
    using assms unfolding apply_pin_def option.case Let_def b prod.case s2_def by blast+
  have t: "set (ms_Tags s2) \<subseteq> set (ms_Tags s')" unfolding s'(2)
    using AddTag_tags(1) [of "s2\<lparr>ms_BodyRewrites := ms_BodyRewrites s2 @ ReconcileBody body (pn_Model p)\<rparr>" "''agent-route:stripped-effort''"]
    by simp
  have in1: "(''agent-route:'' @ pn_Model p) \<in> set (ms_Tags ?s1)" by (rule AddTag_tags(2)) simp
  have sub1: "set (ms_Tags s) \<subseteq> set (ms_Tags ?s1)" by (rule AddTag_tags(1))
  have r: "ms_Provider s' = ms_Provider s" "ms_BodyRewrites s' = ms_BodyRewrites s @ ReconcileBody body (pn_Model p)"
    using s2(1,2) unfolding s'(2) by simp_all
  show ?thesis unfolding s'(1)
  proof (intro conjI)
    show "set (ms_Tags s) \<subseteq> set (ms_Tags s')" using sub1 s2(3) t by (rule subset_trans [OF subset_trans])
    show "(''agent-route:'' @ pn_Model p) \<in> set (ms_Tags s')" by (rule subsetD [OF t subsetD [OF s2(3) in1]])
    show "h1 = snd (ReconcileBetas lib h (pn_Model p))" by (simp add: b)
  qed (rule r)+
qed

text \<open>
  A pin acts as the alias of the binding's single target: the request runs with one target of the
  provider the binding names, whose actions switch to that provider and the pinned model, it carries the
  binding's tags and the pin's, and what the pinned model rejects, the long-context tokens and the
  effort parameter, is taken out of the headers and the body; no other header changes.
\<close>

theorem pin_acts_as_alias:
  assumes "si_info inp = Some info" "pi_generative info" "si_auth inp = Some ar" "ar_Configuration ar = Some cfg"
    and "Select (pi_protocol info) (request_model inp info) cfg providers groups = Inr dest"
    and "select_pin order now inp ar cfg (pi_protocol info) (request_model inp info) dest router = ((Some p, body), router')"
  shows "\<exists>t st rc x h'. ds_Single dest = Some t \<and>
    selectionMiddleware lib order now providers groups inp router = (SelRouted st rc h', router') \<and>
    rc_Targets rc = [x] \<and> tg_Provider x = st_Provider t \<and> tg_Actions x = ProviderSwitchActions (st_Provider t) (pn_Model p) \<and>
    ms_Provider st = st_Provider t \<and> insert (''agent-route:'' @ pn_Model p) (set (ds_Tags dest) - {[]}) \<subseteq> set (ms_Tags st) \<and>
    (lacks1MContext (pn_Model p) \<longrightarrow> (\<forall>tok \<in> set (beta_tokens h'). \<not> long_context_token lib tok)) \<and>
    (\<forall>k. canonical_key k \<noteq> canonical_key betaHeader \<longrightarrow> header_values h' k = header_values (si_headers inp) k) \<and>
    ms_BodyRewrites st = ReconcileBody body (pn_Model p)"
proof -
  from assms(6) obtain t where t: "ds_Single dest = Some t" by (auto simp: select_pin_def split: option.splits)
  with Select_destination [OF assms(5)] have g: "ds_Group dest = None" by simp
  let ?t = "t\<lparr>st_Alias := pn_Model p\<rparr>"
  let ?rc = "SingleTargetResilienceConfig ?t"
  let ?s0 = "add_tags (ds_Tags dest) (NewMutableState (st_Provider t) (pi_protocol info) [] (pi_params info))"
  obtain s1 h1 where a: "apply_pin lib (Some p) body ?s0 (si_headers inp) = (s1, h1)" by fastforce
  have "select_generative lib order now providers groups inp info ar cfg router =
      (SelRouted (s1\<lparr>ms_PolicyRef := rc_Name ?rc\<rparr>) ?rc h1, router')"
    using assms(5,6) t g a by (simp add: select_generative_def Let_def)
  then have m: "selectionMiddleware lib order now providers groups inp router = (SelRouted (s1\<lparr>ms_PolicyRef := rc_Name ?rc\<rparr>) ?rc h1, router')"
    using assms(1-4) by (simp add: selectionMiddleware_def)
  note e = apply_pin_effect [OF a]
  obtain stripped where b: "ReconcileBetas lib (si_headers inp) (pn_Model p) = (stripped, h1)" using e by (metis prod.collapse)
  have s0: "ms_Provider ?s0 = st_Provider t" "ms_BodyRewrites ?s0 = []" "set (ds_Tags dest) - {[]} \<subseteq> set (ms_Tags ?s0)"
    using add_tags_mem [of "ds_Tags dest" "NewMutableState (st_Provider t) (pi_protocol info) [] (pi_params info)"]
    by (auto simp: add_tags_rest NewMutableState_def)
  have rc: "rc_Targets ?rc = [hd (rc_Targets ?rc)]" "tg_Provider (hd (rc_Targets ?rc)) = st_Provider t"
    "tg_Actions (hd (rc_Targets ?rc)) = ProviderSwitchActions (st_Provider t) (pn_Model p)"
    by (simp_all add: SingleTargetResilienceConfig_def empty_policy_def)
  show ?thesis
    by (rule exI [of _ t], rule exI [of _ "s1\<lparr>ms_PolicyRef := rc_Name ?rc\<rparr>"], rule exI [of _ ?rc],
        rule exI [of _ "hd (rc_Targets ?rc)"], rule exI [of _ h1])
      (use t m rc e s0 betas_reconciled [OF b] in auto)
qed

text \<open>A group destination is never pinned and leaves no trace in the register.\<close>

lemma group_never_pinned:
  "ds_Group dest = Some g \<Longrightarrow> Select protocol model cfg providers groups = Inr dest \<Longrightarrow>
    select_pin order now inp ar cfg protocol model' dest router = ((None, None), router)"
  using Select_destination by (fastforce simp: select_pin_def split: option.split)


definition claude_provider :: provider where
  "claude_provider = \<lparr>pv_BaseURL = ''https://api'', pv_RequiredHeaders = [], pv_Query = [],
     pv_Protocols = [(''messages'', \<lparr>pp_Path = ''/v1/messages'', pp_Auth = None\<rparr>)], pv_Passthrough = []\<rparr>"

definition claude_configuration :: configuration where
  "claude_configuration = \<lparr>cfg_Credentials = [(''anthropic'', ''k'')],
     cfg_Bindings = [\<lparr>bd_Protocol = ''messages'', bd_Models = [], bd_Provider = ''anthropic'', bd_Group = [], bd_Alias = [],
       bd_Query = [], bd_Path = [], bd_Tags = [''claude'']\<rparr>],
     cfg_PassthroughBindings = [], cfg_RuleNames = [], cfg_Tags = [], cfg_ConnectorBindings = [],
     cfg_AgentRouting = Some (sample_policy_allowing [''claude-haiku-4''])\<rparr>"

definition claude_input :: selection_input where
  "claude_input = \<lparr>si_info = Some (protocolMiddleware ''/v1/messages''),
     si_auth = Some (no_auth\<lparr>ar_Configuration := Some claude_configuration, ar_ConfigurationName := ''a''\<rparr>),
     si_method = ''POST'', si_path = ''/v1/messages'',
     si_body = map_option CapMessages (rq_req (sample_subagent ''a'' [])),
     si_ids = rq_ids (sample_subagent ''a'' []), si_headers = rq_headers (sample_subagent ''a'' [])\<rparr>"

lemma pin_acts_as_alias_witness:
  "\<exists>st rc x h' r. selectionMiddleware ascii_lib (\<lambda>ks. ks) 1 [''anthropic'' \<mapsto> claude_provider] Map.empty claude_input (Some sample_service) =
     (SelRouted st rc h', r) \<and> rc_Targets rc = [x] \<and> tg_Actions x = ProviderSwitchActions ''anthropic'' ''claude-haiku-4''"
proof -
  let ?info = "protocolMiddleware ''/v1/messages''"
  let ?ar = "no_auth\<lparr>ar_Configuration := Some claude_configuration, ar_ConfigurationName := ''a''\<rparr>"
  define m where "m = request_model claude_input ?info"
  define sel where "sel = Select (pi_protocol ?info) m claude_configuration [''anthropic'' \<mapsto> claude_provider] Map.empty"
  have i: "si_info claude_input = Some ?info" "si_auth claude_input = Some ?ar" by (simp_all add: claude_input_def)
  have g: "pi_generative ?info" by code_simp
  have "case sel of Inl _ \<Rightarrow> False | Inr d \<Rightarrow> map_option st_Provider (ds_Single d) = Some ''anthropic''"
    unfolding sel_def m_def by code_simp
  then obtain d t where d: "sel = Inr d" "ds_Single d = Some t" "st_Provider t = ''anthropic''" by (auto split: sum.splits)
  have "case sel of Inl _ \<Rightarrow> False | Inr d \<Rightarrow>
      map_option pn_Model (fst (fst (select_pin (\<lambda>ks. ks) 1 claude_input ?ar claude_configuration (pi_protocol ?info) m d (Some sample_service))))
        = Some ''claude-haiku-4''"
    unfolding sel_def m_def by code_simp
  then obtain p where p: "fst (fst (select_pin (\<lambda>ks. ks) 1 claude_input ?ar claude_configuration (pi_protocol ?info) m d (Some sample_service))) = Some p"
    "pn_Model p = ''claude-haiku-4''" using d(1) by auto
  obtain b r where pin: "select_pin (\<lambda>ks. ks) 1 claude_input ?ar claude_configuration (pi_protocol ?info) m d (Some sample_service) = ((Some p, b), r)"
    using p(1) by (metis prod.collapse)
  have c: "ar_Configuration ?ar = Some claude_configuration" by simp
  show ?thesis
    using pin_acts_as_alias [OF i(1) g i(2) c d(1) [unfolded sel_def m_def] pin [unfolded m_def], of ascii_lib] d(2,3) p(2) by auto
qed

end
