(* ===== verification/Translate_Message.thy ===== *)
theory Translate_Message
  imports Wire_Types
begin

text \<open>
  Translation of whole messages between the two dialects, \<^verbatim>\<open>internal/translate\<close>: requests
  (\<^verbatim>\<open>anthropic_openai_request.go\<close>, \<^verbatim>\<open>openai_anthropic_request.go\<close>), responses
  (\<^verbatim>\<open>anthropic_openai_response.go\<close>, \<^verbatim>\<open>openai_anthropic_response.go\<close>) and error bodies
  (\<^verbatim>\<open>anthropic_openai_error.go\<close>, \<^verbatim>\<open>openai_anthropic_error.go\<close>), over the decoded values. Encoding a raw
  field fails when its bytes are not JSON and otherwise compacts them: \<open>js\<close> is \<^verbatim>\<open>json.Compact\<close>. The
  outermost decoding of a body is an argument of the wrappers in \<open>Translate_Stream\<close>.
\<close>

section \<open>Drops\<close>

record drop =
  dp_Field :: string
  dp_Reason :: string

definition reasonNoTargetEquivalent :: string where
  "reasonNoTargetEquivalent = ''no target-protocol equivalent''"

abbreviation no_equivalent :: "string \<Rightarrow> drop" where
  "no_equivalent field \<equiv> \<lparr>dp_Field = field, dp_Reason = reasonNoTargetEquivalent\<rparr>"

abbreviation no_equivalent_if :: "bool \<Rightarrow> string \<Rightarrow> drop list" where
  "no_equivalent_if c field \<equiv> (if c then [no_equivalent field] else [])"

definition at_index :: "string \<Rightarrow> nat \<Rightarrow> string" where
  "at_index name i = name @ ''['' @ itoa i @ '']''"

datatype translate_error =
    ErrDecode
  | ErrContent nat
  | ErrToolResult nat nat
  | ErrStop
  | ErrToolChoice
  | ErrEncode

section \<open>Requests, Messages to Chat\<close>

definition imageSourceToURL :: "image_source \<Rightarrow> string" where
  "imageSourceToURL src =
     (if is_Type src = ''url'' then is_URL src else ''data:'' @ is_MediaType src @ '';base64,'' @ is_Data src)"

fun tools_to_chat :: "nat \<Rightarrow> ant_tool list \<Rightarrow> chat_tool list \<times> drop list" where
  "tools_to_chat i [] = ([], [])"
| "tools_to_chat i (t # ts) =
     (let (out, drops) = tools_to_chat (i + 1) ts
      in if at_Type t \<in> {''tool_search_tool_regex_20251119'', ''tool_search_tool_bm25_20251119''}
         then (out, no_equivalent (at_index ''tools'' i @ ''.'' @ at_Type t) # drops)
         else (\<lparr>ct_ToolType = ''function'',
                ct_Function = Some \<lparr>tf_Name = at_Name t, tf_Description = at_Description t, tf_Parameters = at_InputSchema t,
                                    tf_Strict = None\<rparr>\<rparr> # out,
               no_equivalent_if (at_DeferLoading t \<noteq> None) (at_index ''tools'' i @ ''.defer_loading'') @
               no_equivalent_if (at_CacheControl t) (at_index ''tools'' i @ ''.cache_control'') @ drops))"

definition translateTools :: "ant_tool list \<Rightarrow> chat_tool list \<times> drop list" where
  "translateTools ts = tools_to_chat 0 ts"

definition translateToolChoice :: "ant_tool_choice \<Rightarrow> chat_tool_choice \<times> bool option" where
  "translateToolChoice tc =
     (if tc_Type tc = ''auto'' then ChoiceString ''auto''
      else if tc_Type tc = ''any'' then ChoiceString ''required''
      else if tc_Type tc = ''none'' then ChoiceString ''none''
      else if tc_Type tc = ''tool'' then ChoiceObject ''function'' (tc_Name tc)
      else ChoiceAbsent,
      map_option Not (tc_DisableParallelToolUse tc))"

definition blank_line :: string where "blank_line = [CHR 0x0A, CHR 0x0A]"

fun system_drops :: "nat \<Rightarrow> system_block list \<Rightarrow> drop list" where
  "system_drops i [] = []"
| "system_drops i (b # bs) =
     no_equivalent_if (sy_CacheControl b) (at_index ''system'' i @ ''.cache_control'') @ system_drops (i + 1) bs"

definition translateSystem :: "messages_request \<Rightarrow> (chat_message \<times> drop list) option" where
  "translateSystem src =
     (case as_string (mq_System src) of
        Some s \<Rightarrow> Some (SystemMessage s, [])
      | None \<Rightarrow> (case as_blocks (mq_System src) of
            Some bs \<Rightarrow> Some (SystemMessage (join_with blank_line (map sy_Text bs)), system_drops 0 bs)
          | None \<Rightarrow> None))"

definition block_path :: "nat \<Rightarrow> nat \<Rightarrow> string" where
  "block_path idx bi = at_index ''messages'' idx @ ''.'' @ at_index ''content'' bi"

definition tool_arguments :: "string \<Rightarrow> string" where
  "tool_arguments input = (if length input > 0 then input else ''{}'')"

text \<open>The loop over the blocks of an assistant turn: its text, tool calls and drops.\<close>

fun assistant_loop :: "(nat \<Rightarrow> string) \<Rightarrow> nat \<Rightarrow> content_block list \<Rightarrow> string \<times> tool_call list \<times> drop list" where
  "assistant_loop path bi [] = ([], [], [])"
| "assistant_loop path bi (b # bs) =
     (case assistant_loop path (bi + 1) bs of
        (text, calls, drops) \<Rightarrow>
          (case b of
             TextBlock t \<Rightarrow> (t @ text, calls, drops)
           | ToolUseBlock i n inp \<Rightarrow>
               (text, \<lparr>tl_ID = i, tl_Name = n, tl_Arguments = tool_arguments inp\<rparr> # calls, drops)
           | _ \<Rightarrow> (text, calls, no_equivalent (path bi @ ''.'' @ BlockType b) # drops)))"

definition translateAssistantBlocks :: "nat \<Rightarrow> content_block list \<Rightarrow> chat_message list \<times> drop list" where
  "translateAssistantBlocks idx blocks =
     (case assistant_loop (block_path idx) 0 blocks of
        (text, calls, drops) \<Rightarrow>
          ([AssistantMessage \<lparr>as_Content = (if text \<noteq> [] then RawString text else RawAbsent), as_ToolCalls = calls,
             as_Refusal = None, as_Audio = False\<rparr>], drops))"

fun result_parts :: "(nat \<Rightarrow> string) \<Rightarrow> nat \<Rightarrow> content_block list \<Rightarrow> content_part list \<times> drop list" where
  "result_parts path ri [] = ([], [])"
| "result_parts path ri (b # bs) =
     (case result_parts path (ri + 1) bs of
        (parts, drops) \<Rightarrow>
          (case b of
             TextBlock t \<Rightarrow> (TextPart t # parts, drops)
           | ImageBlock src \<Rightarrow> (ImagePart (imageSourceToURL src) # parts, drops)
           | _ \<Rightarrow> (parts, no_equivalent (path ri @ ''.'' @ BlockType b) # drops)))"

definition translateToolResult ::
  "nat \<Rightarrow> nat \<Rightarrow> string \<Rightarrow> content_block raw_content \<Rightarrow> translate_error + chat_message \<times> drop list" where
  "translateToolResult idx bi toolUseID content =
     (if content = RawAbsent then Inr (ToolMessage toolUseID (RawString []), [])
      else case as_string content of
             Some s \<Rightarrow> Inr (ToolMessage toolUseID (RawString s), [])
           | None \<Rightarrow> (case as_blocks content of
                 None \<Rightarrow> Inl (ErrToolResult idx bi)
               | Some bs \<Rightarrow>
                   (case result_parts (\<lambda>ri. block_path idx bi @ ''.'' @ at_index ''tool_result'' ri) 0 bs of
                      (parts, drops) \<Rightarrow> Inr (ToolMessage toolUseID (raw_slice parts), drops))))"

text \<open>The loop over the blocks of a user turn: the tool messages, the parts and the drops.\<close>

fun user_loop ::
  "nat \<Rightarrow> nat \<Rightarrow> content_block list \<Rightarrow> translate_error + chat_message list \<times> content_part list \<times> drop list" where
  "user_loop idx bi [] = Inr ([], [], [])"
| "user_loop idx bi (b # bs) =
     (case b of
        ToolResultBlock i content e \<Rightarrow>
          (case translateToolResult idx bi i content of
             Inl err \<Rightarrow> Inl err
           | Inr (tm, td) \<Rightarrow>
               (case user_loop idx (bi + 1) bs of
                  Inl err \<Rightarrow> Inl err
                | Inr (out, parts, drops) \<Rightarrow> Inr (tm # out, parts, td @ drops)))
      | _ \<Rightarrow>
          (case user_loop idx (bi + 1) bs of
             Inl err \<Rightarrow> Inl err
           | Inr (out, parts, drops) \<Rightarrow>
               (case b of
                  TextBlock t \<Rightarrow> Inr (out, TextPart t # parts, drops)
                | ImageBlock src \<Rightarrow> Inr (out, ImagePart (imageSourceToURL src) # parts, drops)
                | _ \<Rightarrow> Inr (out, parts, no_equivalent (block_path idx bi @ ''.'' @ BlockType b) # drops))))"

definition translateUserBlocks :: "nat \<Rightarrow> content_block list \<Rightarrow> translate_error + chat_message list \<times> drop list" where
  "translateUserBlocks idx blocks =
     (case user_loop idx 0 blocks of
        Inl err \<Rightarrow> Inl err
      | Inr (out, parts, drops) \<Rightarrow> Inr (if length parts > 0 then out @ [UserMessage (RawBlocks parts)] else out, drops))"

definition translateMessage :: "nat \<Rightarrow> ant_message \<Rightarrow> translate_error + chat_message list \<times> drop list" where
  "translateMessage idx m =
     (case as_string (am_Content m) of
        Some s \<Rightarrow>
          Inr (if am_Role m = ''assistant''
               then [AssistantMessage \<lparr>as_Content = RawString s, as_ToolCalls = [], as_Refusal = None, as_Audio = False\<rparr>]
               else [UserMessage (RawString s)], [])
      | None \<Rightarrow> (case as_blocks (am_Content m) of
            None \<Rightarrow> Inl (ErrContent idx)
          | Some blocks \<Rightarrow>
              if am_Role m = ''assistant'' then Inr (translateAssistantBlocks idx blocks)
              else translateUserBlocks idx blocks))"

fun messages_loop :: "nat \<Rightarrow> ant_message list \<Rightarrow> translate_error + chat_message list \<times> drop list" where
  "messages_loop i [] = Inr ([], [])"
| "messages_loop i (m # ms) =
     (case translateMessage i m of
        Inl e \<Rightarrow> Inl e
      | Inr (msgs, md) \<Rightarrow>
          (case messages_loop (i + 1) ms of
             Inl e \<Rightarrow> Inl e
           | Inr (out, drops) \<Rightarrow> Inr (msgs @ out, md @ drops)))"

definition translateMessages :: "messages_request \<Rightarrow> translate_error + chat_message list \<times> drop list" where
  "translateMessages src =
     (case messages_loop 0 (mq_Messages src) of
        Inl e \<Rightarrow> Inl e
      | Inr (out, drops) \<Rightarrow>
          (case translateSystem src of
             None \<Rightarrow> Inr (out, drops)
           | Some (sysMsg, sd) \<Rightarrow> Inr (sysMsg # out, sd @ drops)))"

definition no_chat_request :: chat_request where
  "no_chat_request =
     \<lparr>cq_Model = [], cq_Messages = [], cq_MaxTokens = None, cq_MaxCompletionTokens = None, cq_Temperature = None,
      cq_TopP = None, cq_Stream = False, cq_Stop = StopAbsent, cq_User = [], cq_Tools = [], cq_ToolChoice = ChoiceAbsent,
      cq_ReasoningEffort = [], cq_Reasoning = None, cq_ServiceTier = [], cq_ParallelToolCalls = None, cq_N = False,
      cq_StreamOptions = False, cq_PresencePenalty = False, cq_FrequencyPenalty = False, cq_LogitBias = False,
      cq_LogProbs = False, cq_TopLogProbs = False, cq_ResponseFormat = False, cq_Seed = False, cq_Modalities = False,
      cq_Audio = False, cq_Metadata = False, cq_Store = False, cq_Think = False, cq_ChatTemplateKwargs = False\<rparr>"

definition translateMessagesRequestToChat :: "messages_request \<Rightarrow> translate_error + chat_request \<times> drop list" where
  "translateMessagesRequestToChat src =
     (let (tools, td) = translateTools (mq_Tools src);
          (choice, parallel) =
            (case mq_ToolChoice src of None \<Rightarrow> (ChoiceAbsent, None) | Some tc \<Rightarrow> translateToolChoice tc);
          drops =
            no_equivalent_if (mq_TopK src \<noteq> None) ''top_k'' @
            no_equivalent_if (mq_Thinking src) ''thinking'' @
            no_equivalent_if (mq_ContextManagement src) ''context_management'' @
            (case mq_Metadata src of
               None \<Rightarrow> []
             | Some md \<Rightarrow>
                 if md_Extra md then [\<lparr>dp_Field = ''metadata'', dp_Reason = ''only metadata.user_id maps to OpenAI user''\<rparr>] else []) @
            td
      in case translateMessages src of
           Inl e \<Rightarrow> Inl e
         | Inr (msgs, md) \<Rightarrow>
             Inr (no_chat_request\<lparr>
                    cq_Model := mq_Model src, cq_Temperature := mq_Temperature src, cq_TopP := mq_TopP src,
                    cq_Stream := mq_Stream src, cq_ServiceTier := mq_ServiceTier src,
                    cq_MaxTokens := (if mq_MaxTokens src > 0 then Some (mq_MaxTokens src) else None),
                    cq_Stop := (if mq_StopSequences src \<noteq> [] then StopList (mq_StopSequences src) else StopAbsent),
                    cq_ReasoningEffort := (case mq_OutputConfig src of None \<Rightarrow> [] | Some oc \<Rightarrow> oc_Effort oc),
                    cq_User := (case mq_Metadata src of None \<Rightarrow> [] | Some md \<Rightarrow> md_UserID md),
                    cq_Tools := tools, cq_ToolChoice := choice, cq_ParallelToolCalls := parallel, cq_Messages := msgs\<rparr>,
                  drops @ md))"

section \<open>Requests, Chat to Messages\<close>

definition defaultAnthropicMaxTokens :: int where "defaultAnthropicMaxTokens = 4096"

text \<open>A \<^verbatim>\<open>null\<close> stop decodes as an empty list.\<close>

definition stopToSequences :: "chat_stop \<Rightarrow> translate_error + string list" where
  "stopToSequences s =
     (case s of StopList ss \<Rightarrow> Inr ss | StopString t \<Rightarrow> Inr [t] | StopAbsent \<Rightarrow> Inr [] | StopOther \<Rightarrow> Inl ErrStop)"

fun tools_to_messages :: "nat \<Rightarrow> chat_tool list \<Rightarrow> ant_tool list \<times> drop list" where
  "tools_to_messages i [] = ([], [])"
| "tools_to_messages i (t # ts) =
     (let (out, drops) = tools_to_messages (i + 1) ts
      in if ct_ToolType t \<noteq> ''function'' \<or> ct_Function t = None then (out, no_equivalent (at_index ''tools'' i) # drops)
         else let f = the (ct_Function t)
              in (\<lparr>at_Type = [], at_Name = tf_Name f, at_Description = tf_Description f, at_InputSchema = tf_Parameters f,
                   at_DeferLoading = None, at_CacheControl = False\<rparr> # out,
                  no_equivalent_if (tf_Strict f \<noteq> None) (at_index ''tools'' i @ ''.function.strict'') @ drops))"

definition translateToolsToMessages :: "chat_tool list \<Rightarrow> ant_tool list \<times> drop list" where
  "translateToolsToMessages ts = tools_to_messages 0 ts"

abbreviation plain_choice :: "string \<Rightarrow> ant_tool_choice" where
  "plain_choice t \<equiv> \<lparr>tc_Type = t, tc_Name = [], tc_DisableParallelToolUse = None\<rparr>"

text \<open>A \<^verbatim>\<open>null\<close> choice decodes as the empty string.\<close>

definition translateToolChoiceToMessages ::
  "chat_tool_choice \<Rightarrow> bool option \<Rightarrow> translate_error + ant_tool_choice option \<times> drop list" where
  "translateToolChoiceToMessages raw par =
     (case (case raw of
              ChoiceAbsent \<Rightarrow> Inr (None, [])
            | ChoiceString s \<Rightarrow>
                Inr (if s = ''auto'' then (Some (plain_choice ''auto''), [])
                     else if s = ''none'' then (Some (plain_choice ''none''), [])
                     else if s = ''required'' then (Some (plain_choice ''any''), [])
                     else (None, [\<lparr>dp_Field = ''tool_choice'', dp_Reason = ''unknown tool_choice value, omitted''\<rparr>]))
            | ChoiceObject t name \<Rightarrow>
                Inr (if t = ''function'' \<and> name \<noteq> [] then (Some ((plain_choice ''tool'')\<lparr>tc_Name := name\<rparr>), [])
                     else (None, [\<lparr>dp_Field = ''tool_choice'', dp_Reason = ''unsupported tool_choice object, omitted''\<rparr>]))
            | ChoiceOther \<Rightarrow> Inl ErrToolChoice) of
        Inl e \<Rightarrow> Inl e
      | Inr (tc, drops) \<Rightarrow>
          (case par of
             None \<Rightarrow> Inr (tc, drops)
           | Some p \<Rightarrow>
               (let base = (case tc of None \<Rightarrow> plain_choice ''auto'' | Some c \<Rightarrow> c)
                in Inr (Some (base\<lparr>tc_DisableParallelToolUse := Some (\<not> p)\<rparr>), drops))))"

definition imageURLToSource :: "string \<Rightarrow> image_source" where
  "imageURLToSource url =
     (let plain = \<lparr>is_Type = ''url'', is_MediaType = [], is_Data = [], is_URL = url\<rparr>
      in if has_prefix url ''data:''
         then let rest = drop (length ''data:'') url
              in case index_byte (CHR '','') rest of
                   Some comma \<Rightarrow>
                     (let meta = take comma rest; payload = drop (comma + 1) rest;
                          mediaType = (case index_byte (CHR '';'') meta of Some semi \<Rightarrow> take semi meta | None \<Rightarrow> meta)
                      in \<lparr>is_Type = ''base64'', is_MediaType = mediaType, is_Data = payload, is_URL = []\<rparr>)
                 | None \<Rightarrow> plain
         else plain)"

definition contentPartPath :: "nat \<Rightarrow> bool \<Rightarrow> nat \<Rightarrow> string \<Rightarrow> string" where
  "contentPartPath idx tool_result k kind =
     at_index ''messages'' idx @ (if tool_result then ''.tool_result.'' else ''.'') @ at_index ''content'' k @ ''.'' @ kind"

fun parts_to_blocks :: "nat \<Rightarrow> bool \<Rightarrow> nat \<Rightarrow> content_part list \<Rightarrow> content_block list \<times> drop list" where
  "parts_to_blocks idx tr k [] = ([], [])"
| "parts_to_blocks idx tr k (p # ps) =
     (case parts_to_blocks idx tr (k + 1) ps of
        (blocks, drops) \<Rightarrow>
          (case p of
             TextPart t \<Rightarrow> (TextBlock t # blocks, drops)
           | ImagePart u \<Rightarrow> (ImageBlock (imageURLToSource u) # blocks, drops)
           | _ \<Rightarrow> (blocks, no_equivalent (contentPartPath idx tr k (PartType p)) # drops)))"

definition contentPartsToBlocks :: "nat \<Rightarrow> bool \<Rightarrow> content_part list \<Rightarrow> content_block list \<times> drop list" where
  "contentPartsToBlocks idx tr ps = parts_to_blocks idx tr 0 ps"

text \<open>\<^verbatim>\<open>IsNull\<close>, \<^verbatim>\<open>IsString\<close> and \<^verbatim>\<open>AsParts\<close> of a \<^verbatim>\<open>MessageContent\<close> are the constructors of \<open>raw_content\<close>.\<close>

definition userContentToBlocks :: "nat \<Rightarrow> content_part raw_content \<Rightarrow> translate_error + content_block list \<times> drop list" where
  "userContentToBlocks idx c =
     (case c of
        RawAbsent \<Rightarrow> Inr ([], [])
      | RawNull \<Rightarrow> Inr ([], [])
      | RawString s \<Rightarrow> Inr ([TextBlock s], [])
      | RawBlocks parts \<Rightarrow> Inr (contentPartsToBlocks idx False parts)
      | RawOther \<Rightarrow> Inl (ErrContent idx))"

text \<open>Encoding a block: the input of a tool use is compacted, or is no JSON and fails.\<close>

fun compact_block :: "(string \<Rightarrow> string option) \<Rightarrow> content_block \<Rightarrow> content_block option" where
  "compact_block js (ToolUseBlock i n inp) =
     (if inp = [] then Some (ToolUseBlock i n []) else map_option (ToolUseBlock i n) (js inp))"
| "compact_block js b = Some b"

definition SetContentBlocks :: "(string \<Rightarrow> string option) \<Rightarrow> content_block list \<Rightarrow> content_block raw_content option" where
  "SetContentBlocks js bs = map_option raw_slice (those (map (compact_block js) bs))"

text \<open>The parts of assistant content, where a refusal becomes text; \<open>path\<close> names the content in drops.\<close>

definition refusal_reason :: string where
  "refusal_reason = ''mapped to text; Anthropic has no refusal block''"

fun assistant_parts :: "string \<Rightarrow> nat \<Rightarrow> content_part list \<Rightarrow> content_block list \<times> drop list" where
  "assistant_parts path k [] = ([], [])"
| "assistant_parts path k (p # ps) =
     (case assistant_parts path (k + 1) ps of
        (blocks, drops) \<Rightarrow>
          (case p of
             TextPart t \<Rightarrow> (TextBlock t # blocks, drops)
           | RefusalPart t \<Rightarrow>
               (TextBlock t # blocks, \<lparr>dp_Field = at_index path k @ ''.refusal'', dp_Reason = refusal_reason\<rparr> # drops)
           | _ \<Rightarrow> (blocks, no_equivalent (at_index path k @ ''.'' @ PartType p) # drops)))"

definition tool_use_of :: "string \<Rightarrow> tool_call \<Rightarrow> content_block" where
  "tool_use_of args tc = ToolUseBlock (tl_ID tc) (tl_Name tc) args"

text \<open>The text of an assistant's content: nothing for an empty string.\<close>

definition assistant_text :: "string \<Rightarrow> content_part raw_content \<Rightarrow> (content_block list \<times> drop list) option" where
  "assistant_text path c =
     (case c of
        RawAbsent \<Rightarrow> Some ([], [])
      | RawNull \<Rightarrow> Some ([], [])
      | RawString s \<Rightarrow> Some (if s \<noteq> [] then [TextBlock s] else [], [])
      | RawBlocks parts \<Rightarrow> Some (assistant_parts path 0 parts)
      | RawOther \<Rightarrow> None)"

definition refusal_block :: "string \<Rightarrow> string option \<Rightarrow> content_block list \<times> drop list" where
  "refusal_block path r =
     (case r of
        None \<Rightarrow> ([], [])
      | Some t \<Rightarrow> if t = [] then ([], []) else ([TextBlock t], [\<lparr>dp_Field = path @ ''.refusal'', dp_Reason = refusal_reason\<rparr>]))"

definition assistantToMessage ::
  "(string \<Rightarrow> string option) \<Rightarrow> nat \<Rightarrow> assistant_message \<Rightarrow> translate_error + ant_message \<times> drop list" where
  "assistantToMessage js idx msg =
     (let path = at_index ''messages'' idx
      in case assistant_text (path @ ''.content'') (as_Content msg) of
           None \<Rightarrow> Inl (ErrContent idx)
         | Some (texts, d1) \<Rightarrow>
             (let (refusal, d2) = refusal_block path (as_Refusal msg);
                  d3 = no_equivalent_if (as_Audio msg) (path @ ''.audio'');
                  calls = map (\<lambda>tc. tool_use_of (if trim_space (tl_Arguments tc) \<noteq> [] then tl_Arguments tc else ''{}'') tc) (as_ToolCalls msg)
              in case SetContentBlocks js (texts @ refusal @ calls) of
                   None \<Rightarrow> Inl (ErrContent idx)
                 | Some c \<Rightarrow> Inr (\<lparr>am_Role = ''assistant'', am_Content = c\<rparr>, d1 @ d2 @ d3)))"

definition toolMessageToResult ::
  "nat \<Rightarrow> string \<Rightarrow> content_part raw_content \<Rightarrow> translate_error + content_block \<times> drop list" where
  "toolMessageToResult idx callID c =
     (case c of
        RawAbsent \<Rightarrow> Inr (ToolResultBlock callID RawAbsent None, [])
      | RawNull \<Rightarrow> Inr (ToolResultBlock callID RawAbsent None, [])
      | RawString s \<Rightarrow> Inr (ToolResultBlock callID (RawString s) None, [])
      | RawBlocks parts \<Rightarrow>
          (case contentPartsToBlocks idx True parts of
             (blocks, drops) \<Rightarrow> Inr (ToolResultBlock callID (raw_slice blocks) None, drops))
      | RawOther \<Rightarrow> Inl (ErrContent idx))"

text \<open>\<^verbatim>\<open>flush\<close>: the pending user blocks as one turn.\<close>

definition flush_user :: "(string \<Rightarrow> string option) \<Rightarrow> content_block list \<Rightarrow> translate_error + ant_message list" where
  "flush_user js pending =
     (if pending = [] then Inr []
      else case SetContentBlocks js pending of
             None \<Rightarrow> Inl ErrEncode
           | Some c \<Rightarrow> Inr [\<lparr>am_Role = ''user'', am_Content = c\<rparr>])"

text \<open>The walk over the flat message array: system parts, turns and drops.\<close>

fun chat_loop ::
  "(string \<Rightarrow> string option) \<Rightarrow> nat \<Rightarrow> content_block list \<Rightarrow> chat_message list \<Rightarrow>
     translate_error + string list \<times> ant_message list \<times> drop list" where
  "chat_loop js i pending [] =
     (case flush_user js pending of Inl e \<Rightarrow> Inl e | Inr ms \<Rightarrow> Inr ([], ms, []))"
| "chat_loop js i pending (rm # rms) =
     (case rm of
        SystemMessage s \<Rightarrow>
          (case chat_loop js (i + 1) pending rms of Inl e \<Rightarrow> Inl e | Inr (sys, ms, ds) \<Rightarrow> Inr (s # sys, ms, ds))
      | DeveloperMessage s \<Rightarrow>
          (case chat_loop js (i + 1) pending rms of Inl e \<Rightarrow> Inl e | Inr (sys, ms, ds) \<Rightarrow> Inr (s # sys, ms, ds))
      | UserMessage c \<Rightarrow>
          (case userContentToBlocks i c of
             Inl e \<Rightarrow> Inl e
           | Inr (blocks, d) \<Rightarrow>
               (case chat_loop js (i + 1) (pending @ blocks) rms of
                  Inl e \<Rightarrow> Inl e | Inr (sys, ms, ds) \<Rightarrow> Inr (sys, ms, d @ ds)))
      | ToolMessage callID c \<Rightarrow>
          (case toolMessageToResult i callID c of
             Inl e \<Rightarrow> Inl e
           | Inr (blk, d) \<Rightarrow>
               (case chat_loop js (i + 1) (pending @ [blk]) rms of
                  Inl e \<Rightarrow> Inl e | Inr (sys, ms, ds) \<Rightarrow> Inr (sys, ms, d @ ds)))
      | AssistantMessage a \<Rightarrow>
          (case flush_user js pending of
             Inl e \<Rightarrow> Inl e
           | Inr flushed \<Rightarrow>
               (case assistantToMessage js i a of
                  Inl e \<Rightarrow> Inl e
                | Inr (am, d) \<Rightarrow>
                    (case chat_loop js (i + 1) [] rms of
                       Inl e \<Rightarrow> Inl e | Inr (sys, ms, ds) \<Rightarrow> Inr (sys, flushed @ am # ms, d @ ds))))
      | FunctionMessage \<Rightarrow>
          (case chat_loop js (i + 1) pending rms of
             Inl e \<Rightarrow> Inl e
           | Inr (sys, ms, ds) \<Rightarrow>
               Inr (sys, ms, \<lparr>dp_Field = at_index ''messages'' i @ ''.function'',
                              dp_Reason = ''legacy function role has no Anthropic equivalent''\<rparr> # ds))
      | UnknownMessage role \<Rightarrow>
          (case chat_loop js (i + 1) pending rms of
             Inl e \<Rightarrow> Inl e
           | Inr (sys, ms, ds) \<Rightarrow> Inr (sys, ms, no_equivalent (at_index ''messages'' i @ ''.'' @ role) # ds)))"

definition translateChatMessages ::
  "(string \<Rightarrow> string option) \<Rightarrow> chat_message list \<Rightarrow> translate_error + string \<times> ant_message list \<times> drop list" where
  "translateChatMessages js msgs =
     (case chat_loop js 0 [] msgs of
        Inl e \<Rightarrow> Inl e | Inr (sys, ms, ds) \<Rightarrow> Inr (join_with blank_line sys, ms, ds))"

definition unsupported_drops :: "chat_request \<Rightarrow> drop list" where
  "unsupported_drops src =
     no_equivalent_if (cq_N src) ''n'' @ no_equivalent_if (cq_StreamOptions src) ''stream_options'' @
     no_equivalent_if (cq_PresencePenalty src) ''presence_penalty'' @
     no_equivalent_if (cq_FrequencyPenalty src) ''frequency_penalty'' @ no_equivalent_if (cq_LogitBias src) ''logit_bias'' @
     no_equivalent_if (cq_LogProbs src) ''logprobs'' @ no_equivalent_if (cq_TopLogProbs src) ''top_logprobs'' @
     no_equivalent_if (cq_ResponseFormat src) ''response_format'' @ no_equivalent_if (cq_Seed src) ''seed'' @
     no_equivalent_if (cq_Modalities src) ''modalities'' @ no_equivalent_if (cq_Audio src) ''audio'' @
     no_equivalent_if (cq_Metadata src) ''metadata'' @ no_equivalent_if (cq_Store src) ''store'' @
     no_equivalent_if (cq_Think src) ''think'' @ no_equivalent_if (cq_ChatTemplateKwargs src) ''chat_template_kwargs''"

definition chat_effort :: "chat_request \<Rightarrow> output_config option" where
  "chat_effort src =
     (if cq_ReasoningEffort src \<noteq> [] then Some \<lparr>oc_Effort = cq_ReasoningEffort src, oc_Format = False, oc_Extra = False\<rparr>
      else case cq_Reasoning src of
             None \<Rightarrow> None
           | Some e \<Rightarrow> if e \<noteq> [] then Some \<lparr>oc_Effort = e, oc_Format = False, oc_Extra = False\<rparr> else None)"

definition translateChatRequestToMessages ::
  "(string \<Rightarrow> string option) \<Rightarrow> chat_request \<Rightarrow> translate_error + messages_request \<times> drop list" where
  "translateChatRequestToMessages js src =
     (case stopToSequences (cq_Stop src) of
        Inl e \<Rightarrow> Inl e
      | Inr seqs \<Rightarrow>
          (let (tools, td) = translateToolsToMessages (cq_Tools src)
           in case translateToolChoiceToMessages (cq_ToolChoice src) (cq_ParallelToolCalls src) of
                Inl e \<Rightarrow> Inl e
              | Inr (tc, tcd) \<Rightarrow>
                  (case translateChatMessages js (cq_Messages src) of
                     Inl e \<Rightarrow> Inl e
                   | Inr (system, msgs, md) \<Rightarrow>
                       Inr (\<lparr>mq_Model = cq_Model src,
                             mq_MaxTokens =
                               (case cq_MaxCompletionTokens src of
                                  Some n \<Rightarrow> n
                                | None \<Rightarrow> (case cq_MaxTokens src of Some n \<Rightarrow> n | None \<Rightarrow> defaultAnthropicMaxTokens)),
                             mq_Messages = msgs, mq_System = (if system \<noteq> [] then RawString system else RawAbsent),
                             mq_Temperature = cq_Temperature src, mq_TopP = cq_TopP src, mq_TopK = None,
                             mq_StopSequences = seqs, mq_Stream = cq_Stream src, mq_Tools = tools, mq_ToolChoice = tc,
                             mq_Metadata = (if cq_User src \<noteq> [] then Some \<lparr>md_UserID = cq_User src, md_Extra = False\<rparr> else None),
                             mq_Thinking = False, mq_ServiceTier = cq_ServiceTier src, mq_OutputConfig = chat_effort src,
                             mq_ContextManagement = False\<rparr>,
                            unsupported_drops src @ td @ tcd @ md))))"

section \<open>Responses\<close>

definition mapFinishReason :: "string option \<Rightarrow> string option \<times> drop list" where
  "mapFinishReason fr =
     (case fr of
        None \<Rightarrow> (None, [])
      | Some r \<Rightarrow>
          if r = ''stop'' then (Some ''end_turn'', [])
          else if r = ''length'' then (Some ''max_tokens'', [])
          else if r = ''tool_calls'' \<or> r = ''function_call'' then (Some ''tool_use'', [])
          else if r = ''content_filter''
               then (Some ''end_turn'', [\<lparr>dp_Field = ''choices[0].finish_reason=content_filter'',
                       dp_Reason = ''mapped to end_turn; Anthropic has no content_filter stop_reason''\<rparr>])
          else (Some ''end_turn'', [\<lparr>dp_Field = ''choices[0].finish_reason='' @ r,
                       dp_Reason = ''unknown finish_reason mapped to end_turn''\<rparr>]))"

definition mapStopReasonToFinish :: "string option \<Rightarrow> string option \<times> drop list" where
  "mapStopReasonToFinish sr =
     (case sr of
        None \<Rightarrow> (None, [])
      | Some r \<Rightarrow>
          if r = ''end_turn'' \<or> r = ''stop_sequence'' then (Some ''stop'', [])
          else if r = ''max_tokens'' then (Some ''length'', [])
          else if r = ''tool_use'' then (Some ''tool_calls'', [])
          else (Some ''stop'', [\<lparr>dp_Field = ''stop_reason='' @ r, dp_Reason = ''unknown stop_reason mapped to stop''\<rparr>]))"

definition translateUsage :: "chat_usage option \<Rightarrow> string \<Rightarrow> ant_usage" where
  "translateUsage u serviceTier =
     (let out = \<lparr>us_InputTokens = 0, us_OutputTokens = 0, us_CacheReadInputTokens = None, us_ServiceTier = serviceTier\<rparr>
      in case u of
           None \<Rightarrow> out
         | Some c \<Rightarrow>
             out\<lparr>us_InputTokens := cu_PromptTokens c, us_OutputTokens := cu_CompletionTokens c,
                 us_CacheReadInputTokens :=
                   (case cu_CachedTokens c of Some n \<Rightarrow> if n > 0 then Some n else None | None \<Rightarrow> None)\<rparr>)"

definition usageToChat :: "ant_usage \<Rightarrow> chat_usage" where
  "usageToChat u =
     \<lparr>cu_PromptTokens = us_InputTokens u, cu_CompletionTokens = us_OutputTokens u,
      cu_TotalTokens = i64 (us_InputTokens u + us_OutputTokens u), cu_CachedTokens = us_CacheReadInputTokens u\<rparr>"

definition contentBlocksFromMessage :: "response_message \<Rightarrow> translate_error + content_block list \<times> drop list" where
  "contentBlocksFromMessage msg =
     (case assistant_text ''choices[0].message.content'' (rm_Content msg) of
        None \<Rightarrow> Inl ErrDecode
      | Some (texts, d1) \<Rightarrow>
          (let (refusal, d2) = refusal_block ''choices[0].message'' (rm_Refusal msg);
               d3 = no_equivalent_if (rm_Audio msg) ''choices[0].message.audio'';
               calls = map (\<lambda>tc. tool_use_of (if tl_Arguments tc = [] then ''{}'' else tl_Arguments tc) tc) (rm_ToolCalls msg)
           in Inr (texts @ refusal @ calls, d1 @ d2 @ d3)))"

definition empty_response :: messages_response where
  "empty_response =
     \<lparr>mr_ID = [], mr_Model = [], mr_Content = [], mr_StopReason = None, mr_StopSequence = None,
      mr_Usage = \<lparr>us_InputTokens = 0, us_OutputTokens = 0, us_CacheReadInputTokens = None, us_ServiceTier = []\<rparr>,
      mr_Container = False, mr_StopDetails = False, mr_ContextManagement = False\<rparr>"

text \<open>The encoding of the response fails on tool arguments that are no JSON.\<close>

definition translateChatResponseToMessages ::
  "(string \<Rightarrow> string option) \<Rightarrow> chat_response \<Rightarrow> translate_error + messages_response \<times> drop list" where
  "translateChatResponseToMessages js src =
     (let dst = empty_response\<lparr>mr_ID := cr_ID src, mr_Model := cr_Model src,
                  mr_Usage := translateUsage (cr_Usage src) (cr_ServiceTier src)\<rparr>;
          drops =
            no_equivalent_if (cr_SystemFingerprint src \<noteq> []) ''system_fingerprint'' @
            (if length (cr_Choices src) > 1
             then [\<lparr>dp_Field = ''choices[1:]'', dp_Reason = ''Anthropic returns a single message; extra OpenAI choices dropped''\<rparr>]
             else [])
      in case cr_Choices src of
           [] \<Rightarrow> Inr (dst, drops)
         | choice # _ \<Rightarrow>
             (case mapFinishReason (ch_FinishReason choice) of
                (stop, sd) \<Rightarrow>
                  (case contentBlocksFromMessage (ch_Message choice) of
                     Inl e \<Rightarrow> Inl e
                   | Inr (blocks, bd) \<Rightarrow>
                       (case those (map (compact_block js) blocks) of
                          None \<Rightarrow> Inl ErrEncode
                        | Some encoded \<Rightarrow>
                            Inr (dst\<lparr>mr_StopReason := stop, mr_Content := encoded\<rparr>,
                                 drops @ sd @ no_equivalent_if (ch_LogProbs choice) ''choices[0].logprobs'' @ bd)))))"

definition messageContentFromBlocks :: "content_block list \<Rightarrow> string \<times> tool_call list \<times> drop list" where
  "messageContentFromBlocks blocks = assistant_loop (at_index ''content'') 0 blocks"

definition translateMessagesResponseToChat :: "messages_response \<Rightarrow> chat_response \<times> drop list" where
  "translateMessagesResponseToChat src =
     (case messageContentFromBlocks (mr_Content src) of
        (text, calls, cd) \<Rightarrow>
          (case mapStopReasonToFinish (mr_StopReason src) of
             (finish, fd) \<Rightarrow>
               (\<lparr>cr_ID = mr_ID src, cr_Model = mr_Model src, cr_SystemFingerprint = [],
                 cr_ServiceTier = us_ServiceTier (mr_Usage src),
                 cr_Choices = [\<lparr>ch_Message = \<lparr>rm_Content = (if text \<noteq> [] then RawString text else RawAbsent), rm_ToolCalls = calls,
                                  rm_Refusal = None, rm_Audio = False\<rparr>,
                                ch_FinishReason = finish, ch_LogProbs = False\<rparr>],
                 cr_Usage = Some (usageToChat (mr_Usage src))\<rparr>,
                cd @ fd @ no_equivalent_if (mr_StopSequence src \<noteq> None) ''stop_sequence'' @
                no_equivalent_if (mr_Container src) ''container'' @ no_equivalent_if (mr_StopDetails src) ''stop_details'' @
                no_equivalent_if (mr_ContextManagement src) ''context_management'')))"

section \<open>Error bodies\<close>

text \<open>\<^verbatim>\<open>http.StatusText\<close>, empty for a code it does not know.\<close>

definition status_texts :: "(int \<times> string) list" where
  "status_texts =
     [(100, ''Continue''), (101, ''Switching Protocols''), (102, ''Processing''), (103, ''Early Hints''),
      (200, ''OK''), (201, ''Created''), (202, ''Accepted''), (203, ''Non-Authoritative Information''),
      (204, ''No Content''), (205, ''Reset Content''), (206, ''Partial Content''), (207, ''Multi-Status''),
      (208, ''Already Reported''), (226, ''IM Used''), (300, ''Multiple Choices''), (301, ''Moved Permanently''),
      (302, ''Found''), (303, ''See Other''), (304, ''Not Modified''), (305, ''Use Proxy''),
      (307, ''Temporary Redirect''), (308, ''Permanent Redirect''), (400, ''Bad Request''), (401, ''Unauthorized''),
      (402, ''Payment Required''), (403, ''Forbidden''), (404, ''Not Found''), (405, ''Method Not Allowed''),
      (406, ''Not Acceptable''), (407, ''Proxy Authentication Required''), (408, ''Request Timeout''), (409, ''Conflict''),
      (410, ''Gone''), (411, ''Length Required''), (412, ''Precondition Failed''), (413, ''Request Entity Too Large''),
      (414, ''Request URI Too Long''), (415, ''Unsupported Media Type''), (416, ''Requested Range Not Satisfiable''),
      (417, ''Expectation Failed''), (418, ''I'' @ [CHR 0x27] @ ''m a teapot''), (421, ''Misdirected Request''),
      (422, ''Unprocessable Entity''), (423, ''Locked''), (424, ''Failed Dependency''), (425, ''Too Early''),
      (426, ''Upgrade Required''), (428, ''Precondition Required''), (429, ''Too Many Requests''),
      (431, ''Request Header Fields Too Large''), (451, ''Unavailable For Legal Reasons''),
      (500, ''Internal Server Error''), (501, ''Not Implemented''), (502, ''Bad Gateway''), (503, ''Service Unavailable''),
      (504, ''Gateway Timeout''), (505, ''HTTP Version Not Supported''), (506, ''Variant Also Negotiates''),
      (507, ''Insufficient Storage''), (508, ''Loop Detected''), (510, ''Not Extended''),
      (511, ''Network Authentication Required'')]"

definition StatusText :: "int \<Rightarrow> string" where
  "StatusText status = (case map_of status_texts status of Some t \<Rightarrow> t | None \<Rightarrow> [])"

text \<open>\<open>probe\<close> is \<^verbatim>\<open>error.message\<close> of the decoded body, \<open>None\<close> when the body does not decode.\<close>

definition openAIErrorMessage :: "string option \<Rightarrow> int \<Rightarrow> string" where
  "openAIErrorMessage probe status =
     (let txt = StatusText status; fallback = (if txt \<noteq> [] then txt else ''upstream error'')
      in case probe of Some m \<Rightarrow> if m \<noteq> [] then m else fallback | None \<Rightarrow> fallback)"

definition anthropicErrorMessage :: "string option \<Rightarrow> int \<Rightarrow> string" where
  "anthropicErrorMessage probe status =
     (let txt = StatusText status; fallback = (if txt \<noteq> [] then txt else ''upstream error'')
      in case probe of Some m \<Rightarrow> if m \<noteq> [] then m else fallback | None \<Rightarrow> fallback)"

definition anthropicErrorType :: "int \<Rightarrow> string" where
  "anthropicErrorType status =
     (if status = 400 then ''invalid_request_error''
      else if status = 401 then ''authentication_error''
      else if status = 403 then ''permission_error''
      else if status = 404 then ''not_found_error''
      else if status = 413 then ''request_too_large''
      else if status = 429 then ''rate_limit_error''
      else if status = 529 then ''overloaded_error''
      else ''api_error'')"

definition openAIErrorType :: "int \<Rightarrow> string" where
  "openAIErrorType status =
     (if status = 429 then ''rate_limit_error''
      else if status = 401 \<or> status = 403 then ''authentication_error''
      else if 400 \<le> status \<and> status < 500 then ''invalid_request_error''
      else ''api_error'')"

definition translateChatErrorToMessages :: "int \<Rightarrow> string option \<Rightarrow> stream_error" where
  "translateChatErrorToMessages status probe =
     \<lparr>se_Type = anthropicErrorType status, se_Message = openAIErrorMessage probe status\<rparr>"

definition translateMessagesErrorToChat :: "int \<Rightarrow> string option \<Rightarrow> stream_error" where
  "translateMessagesErrorToChat status probe =
     \<lparr>se_Type = openAIErrorType status, se_Message = anthropicErrorMessage probe status\<rparr>"

end
