(* ===== verification/Translate_Roundtrip.thy ===== *)
theory Translate_Roundtrip
  imports Translate_Message
begin

text \<open>
  What survives the translation of whole messages: the requests and responses both dialects can say, as
  predicates, and the theorems that translating them to Chat and back is the identity and drops nothing.
\<close>

section \<open>Messages both dialects can say\<close>

text \<open>An image whose source is told from its URL, a tool input that is compact JSON.\<close>

definition canonical_image :: "image_source \<Rightarrow> bool" where
  "canonical_image src \<longleftrightarrow> imageURLToSource (imageSourceToURL src) = src"

lemma comma_position: "c \<notin> set x \<Longrightarrow> index_byte c (x @ c # y) = Some (length x)"
  by (induction x) auto

lemma canonical_base64:
  "CHR '','' \<notin> set mt \<Longrightarrow> CHR '';'' \<notin> set mt \<Longrightarrow>
     canonical_image \<lparr>is_Type = ''base64'', is_MediaType = mt, is_Data = dat, is_URL = []\<rparr>"
proof -
  assume a: "CHR '','' \<notin> set mt" "CHR '';'' \<notin> set mt"
  have 1: "index_byte (CHR '','') (mt @ '';base64,'' @ dat) = Some (length (mt @ '';base64''))"
    using comma_position [of "CHR '',''" "mt @ '';base64''" dat] a by simp
  have 2: "index_byte (CHR '';'') (mt @ '';base64'') = Some (length mt)"
    using comma_position [of "CHR '';''" mt "''base64''"] a by simp
  show ?thesis
    using 1 2 by (simp add: canonical_image_def imageSourceToURL_def imageURLToSource_def Let_def)
qed

definition is_part :: "content_block \<Rightarrow> bool" where
  "is_part b = (case b of TextBlock _ \<Rightarrow> True | ImageBlock src \<Rightarrow> canonical_image src | _ \<Rightarrow> False)"

definition is_result :: "content_block \<Rightarrow> bool" where
  "is_result b = (case b of ToolResultBlock _ (RawString _) None \<Rightarrow> True | _ \<Rightarrow> False)"

definition is_call :: "(string \<Rightarrow> string option) \<Rightarrow> content_block \<Rightarrow> bool" where
  "is_call js b = (case b of ToolUseBlock _ _ inp \<Rightarrow> trim_space inp \<noteq> [] \<and> js inp = Some inp | _ \<Rightarrow> False)"

definition canonical_user :: "content_block list \<Rightarrow> bool" where
  "canonical_user bs \<longleftrightarrow> bs \<noteq> [] \<and> list_all is_part (dropWhile is_result bs)"

definition canonical_assistant :: "(string \<Rightarrow> string option) \<Rightarrow> content_block list \<Rightarrow> bool" where
  "canonical_assistant js bs \<longleftrightarrow>
     (case bs of
        [] \<Rightarrow> False
      | TextBlock t # bs' \<Rightarrow> t \<noteq> [] \<and> list_all (is_call js) bs'
      | _ \<Rightarrow> list_all (is_call js) bs)"

text \<open>Turns: blocks as content, user turns not side by side.\<close>

fun canonical_turns :: "(string \<Rightarrow> string option) \<Rightarrow> bool \<Rightarrow> ant_message list \<Rightarrow> bool" where
  "canonical_turns js after_user [] = True"
| "canonical_turns js after_user (m # ms) =
     (case am_Content m of
        RawBlocks bs \<Rightarrow>
          if am_Role m = ''assistant'' then canonical_assistant js bs \<and> canonical_turns js False ms
          else am_Role m = ''user'' \<and> \<not> after_user \<and> canonical_user bs \<and> canonical_turns js True ms
      | _ \<Rightarrow> False)"

definition canonical_tool :: "ant_tool \<Rightarrow> bool" where
  "canonical_tool t \<longleftrightarrow> at_Type t = [] \<and> at_DeferLoading t = None \<and> \<not> at_CacheControl t"

definition canonical_choice :: "ant_tool_choice \<Rightarrow> bool" where
  "canonical_choice tc \<longleftrightarrow>
     tc_Type tc \<in> {''auto'', ''any'', ''none''} \<and> tc_Name tc = [] \<or> tc_Type tc = ''tool'' \<and> tc_Name tc \<noteq> []"

definition canonical_request :: "(string \<Rightarrow> string option) \<Rightarrow> messages_request \<Rightarrow> bool" where
  "canonical_request js r \<longleftrightarrow>
     mq_MaxTokens r > 0 \<and> canonical_turns js False (mq_Messages r) \<and>
     (case mq_System r of RawAbsent \<Rightarrow> True | RawString s \<Rightarrow> s \<noteq> [] | _ \<Rightarrow> False) \<and>
     mq_TopK r = None \<and> list_all canonical_tool (mq_Tools r) \<and>
     (case mq_ToolChoice r of None \<Rightarrow> True | Some tc \<Rightarrow> canonical_choice tc) \<and>
     (case mq_Metadata r of None \<Rightarrow> True | Some md \<Rightarrow> md_UserID md \<noteq> [] \<and> \<not> md_Extra md) \<and>
     \<not> mq_Thinking r \<and>
     (case mq_OutputConfig r of None \<Rightarrow> True | Some oc \<Rightarrow> oc_Effort oc \<noteq> [] \<and> \<not> oc_Format oc \<and> \<not> oc_Extra oc) \<and>
     \<not> mq_ContextManagement r"

section \<open>The round trip\<close>

lemma compact_parts:
  "list_all (\<lambda>b. is_part b \<or> is_result b \<or> is_call js b) bs \<Longrightarrow> those (map (compact_block js) bs) = Some bs"
proof (induction bs)
  case (Cons b bs)
  then show ?case
    by (cases b) (auto simp: is_part_def is_result_def is_call_def split: raw_content.splits option.splits)
qed simp

lemma user_loop_parts:
  "list_all is_part bs \<Longrightarrow>
     \<exists>parts. user_loop idx bi bs = Inr ([], parts, []) \<and> (parts = [] \<longleftrightarrow> bs = []) \<and>
       (\<forall>i k. parts_to_blocks i False k parts = (bs, []))"
proof (induction bs arbitrary: bi)
  case (Cons b bs)
  from Cons.IH [of "bi + 1"] Cons.prems obtain parts where
    "user_loop idx (bi + 1) bs = Inr ([], parts, [])" "\<forall>i k. parts_to_blocks i False k parts = (bs, [])"
    by auto
  with Cons.prems show ?case
    by (cases b) (auto simp: is_part_def canonical_image_def)
qed simp

lemma no_drops:
  "(case x of Inl e \<Rightarrow> Inl e | Inr (sys, ms, ds) \<Rightarrow> Inr (sys, ms, [] @ ds)) = x"
  "(case x of Inl e \<Rightarrow> Inl e | Inr (sys, ms, ds) \<Rightarrow> Inr (sys, ms, ds)) = x"
  by (auto split: sum.split)

lemma user_loop_turn:
  "list_all is_part (dropWhile is_result bs) \<Longrightarrow>
     \<exists>out parts. user_loop idx bi bs = Inr (out, parts, []) \<and>
       (\<forall>i pending rest. chat_loop js i pending
          ((if parts = [] then out else out @ [UserMessage (RawBlocks parts)]) @ rest) =
          chat_loop js (i + length (if parts = [] then out else out @ [UserMessage (RawBlocks parts)])) (pending @ bs) rest)"
proof (induction bs arbitrary: bi)
  case (Cons b bs)
  show ?case
  proof (cases "is_result b")
    case True
    then obtain t s where b: "b = ToolResultBlock t (RawString s) None"
      by (cases b) (auto simp: is_result_def split: raw_content.splits option.splits)
    from Cons.IH [of "bi + 1"] Cons.prems True obtain out parts where
      u: "user_loop idx (bi + 1) bs = Inr (out, parts, [])"
      "\<forall>i pending rest. chat_loop js i pending
          ((if parts = [] then out else out @ [UserMessage (RawBlocks parts)]) @ rest) =
          chat_loop js (i + length (if parts = [] then out else out @ [UserMessage (RawBlocks parts)])) (pending @ bs) rest"
      by auto
    have "user_loop idx bi (b # bs) = Inr (ToolMessage t (RawString s) # out, parts, [])"
      using u(1) by (simp add: b translateToolResult_def)
    then show ?thesis
      using u(2) by (auto simp: b toolMessageToResult_def no_drops)
  next
    case False
    then have p: "list_all is_part (b # bs)" using Cons.prems by simp
    from user_loop_parts [OF p, of idx bi] obtain parts where
      "user_loop idx bi (b # bs) = Inr ([], parts, [])" "parts \<noteq> []" "\<forall>i k. parts_to_blocks i False k parts = (b # bs, [])"
      by blast
    then show ?thesis by (auto simp: userContentToBlocks_def contentPartsToBlocks_def no_drops)
  qed
qed simp

lemma user_turn:
  assumes "canonical_user bs"
  shows "\<exists>out. translateUserBlocks idx bs = Inr (out, []) \<and>
    (\<forall>i pending rest. chat_loop js i pending (out @ rest) = chat_loop js (i + length out) (pending @ bs) rest) \<and>
    flush_user js bs = Inr [\<lparr>am_Role = ''user'', am_Content = RawBlocks bs\<rparr>]"
proof -
  have c: "list_all is_part (dropWhile is_result bs)" "bs \<noteq> []" using assms by (auto simp: canonical_user_def)
  have "list_all (\<lambda>b. is_part b \<or> is_result b \<or> is_call js b) (takeWhile is_result bs @ dropWhile is_result bs)"
    using c(1) unfolding list_all_append by (auto simp: list_all_iff dest: set_takeWhileD)
  then have "those (map (compact_block js) bs) = Some bs" by (intro compact_parts) simp
  then have f: "flush_user js bs = Inr [\<lparr>am_Role = ''user'', am_Content = RawBlocks bs\<rparr>]"
    using c(2) by (simp add: flush_user_def SetContentBlocks_def raw_slice_def)
  from user_loop_turn [OF c(1), of idx 0 js] obtain out parts where
    u: "user_loop idx 0 bs = Inr (out, parts, [])"
    "\<forall>i pending rest. chat_loop js i pending ((if parts = [] then out else out @ [UserMessage (RawBlocks parts)]) @ rest) =
      chat_loop js (i + length (if parts = [] then out else out @ [UserMessage (RawBlocks parts)])) (pending @ bs) rest"
    by blast
  have "translateUserBlocks idx bs = Inr (if parts = [] then out else out @ [UserMessage (RawBlocks parts)], [])"
    by (simp add: translateUserBlocks_def u(1))
  with u(2) f show ?thesis by blast
qed

lemma assistant_loop_calls:
  "list_all (is_call js) bs \<Longrightarrow>
     \<exists>calls. assistant_loop path bi bs = ([], calls, []) \<and>
       map (\<lambda>tc. tool_use_of (if trim_space (tl_Arguments tc) \<noteq> [] then tl_Arguments tc else ''{}'') tc) calls = bs \<and>
       (\<forall>tc \<in> set calls. trim_space (tl_Arguments tc) \<noteq> [])"
proof (induction bs arbitrary: bi)
  case (Cons b bs)
  then obtain calls where "assistant_loop path (bi + 1) bs = ([], calls, [])"
    "map (\<lambda>tc. tool_use_of (if trim_space (tl_Arguments tc) \<noteq> [] then tl_Arguments tc else ''{}'') tc) calls = bs"
    "\<forall>tc \<in> set calls. trim_space (tl_Arguments tc) \<noteq> []"
    by auto
  with Cons.prems show ?case
    by (cases b) (auto simp: is_call_def tool_use_of_def tool_arguments_def)
qed simp

lemma canonical_assistant_parts:
  assumes "canonical_assistant js bs"
  obtains t bs' where "bs = (if t = [] then [] else [TextBlock t]) @ bs'" "list_all (is_call js) bs'"
proof (cases bs)
  case (Cons b bs')
  then have "\<exists>t bs'. bs = (if t = [] then [] else [TextBlock t]) @ bs' \<and> list_all (is_call js) bs'"
    using assms by (cases b) (force simp: canonical_assistant_def is_call_def)+
  then show ?thesis using that by blast
qed (use assms in \<open>simp add: canonical_assistant_def\<close>)

lemma assistant_turn:
  assumes "canonical_assistant js bs"
  shows "\<exists>a. translateAssistantBlocks idx bs = ([AssistantMessage a], []) \<and>
    (\<forall>i. assistantToMessage js i a = Inr (\<lparr>am_Role = ''assistant'', am_Content = RawBlocks bs\<rparr>, []))"
proof -
  have "bs \<noteq> []" using assms by (auto simp: canonical_assistant_def)
  then obtain t bs' where bs: "bs = (if t = [] then [] else [TextBlock t]) @ bs'" "list_all (is_call js) bs'" "bs \<noteq> []"
    using canonical_assistant_parts [OF assms] by blast
  have compact: "those (map (compact_block js) bs) = Some bs"
    by (rule compact_parts) (use bs in \<open>auto simp: is_part_def list_all_iff\<close>)
  obtain calls bi where calls: "assistant_loop (block_path idx) bi bs' = ([], calls, [])" "bi = (if t = [] then 0 else 1)"
    "map (\<lambda>tc. tool_use_of (if trim_space (tl_Arguments tc) \<noteq> [] then tl_Arguments tc else ''{}'') tc) calls = bs'"
    using assistant_loop_calls [OF bs(2)] by blast
  then have "assistant_loop (block_path idx) 0 bs = (t, calls, [])" using bs(1) by (auto split: if_splits)
  then have "translateAssistantBlocks idx bs =
      ([AssistantMessage \<lparr>as_Content = (if t \<noteq> [] then RawString t else RawAbsent), as_ToolCalls = calls,
          as_Refusal = None, as_Audio = False\<rparr>], [])"
    by (simp add: translateAssistantBlocks_def)
  moreover have "assistantToMessage js i \<lparr>as_Content = (if t \<noteq> [] then RawString t else RawAbsent), as_ToolCalls = calls,
      as_Refusal = None, as_Audio = False\<rparr> = Inr (\<lparr>am_Role = ''assistant'', am_Content = RawBlocks bs\<rparr>, [])" for i
    using compact bs(1,3) calls(3)
    by (auto simp: assistantToMessage_def Let_def assistant_text_def refusal_block_def SetContentBlocks_def raw_slice_def)
  ultimately show ?thesis by auto
qed

lemma turns_round_trip:
  "canonical_turns js after_user ms \<Longrightarrow> flush_user js pending = Inr f \<Longrightarrow> (pending \<noteq> [] \<longrightarrow> after_user) \<Longrightarrow>
     \<exists>out. messages_loop idx ms = Inr (out, []) \<and> (\<forall>i. chat_loop js i pending out = Inr ([], f @ ms, []))"
proof (induction ms arbitrary: after_user pending f idx)
  case (Cons m ms)
  obtain bs where bs: "am_Content m = RawBlocks bs" using Cons.prems(1) by (auto split: raw_content.splits)
  show ?case
  proof (cases "am_Role m = ''assistant''")
    case True
    then have m: "m = \<lparr>am_Role = ''assistant'', am_Content = RawBlocks bs\<rparr>" using bs by (cases m) simp
    have c: "canonical_assistant js bs" "canonical_turns js False ms" using Cons.prems(1) True bs by auto
    from assistant_turn [OF c(1), of idx] obtain a where
      a: "translateAssistantBlocks idx bs = ([AssistantMessage a], [])" "\<forall>i. assistantToMessage js i a = Inr (m, [])"
      unfolding m by blast
    from Cons.IH [OF c(2), of "[]" "[]" "idx + 1"] obtain out where
      "messages_loop (idx + 1) ms = Inr (out, [])" "\<forall>i. chat_loop js i [] out = Inr ([], ms, [])"
      by (auto simp: flush_user_def)
    with a Cons.prems(2) True show ?thesis by (auto simp: translateMessage_def bs)
  next
    case False
    then have c: "am_Role m = ''user''" "\<not> after_user" "canonical_user bs" "canonical_turns js True ms"
      using Cons.prems(1) bs by auto
    then have m: "m = \<lparr>am_Role = ''user'', am_Content = RawBlocks bs\<rparr>" using bs by (cases m) simp
    from user_turn [OF c(3), of idx js] obtain o1 where
      o1: "translateUserBlocks idx bs = Inr (o1, [])"
      "\<forall>i pending rest. chat_loop js i pending (o1 @ rest) = chat_loop js (i + length o1) (pending @ bs) rest"
      "flush_user js bs = Inr [m]"
      unfolding m by blast
    from Cons.IH [OF c(4) o1(3), of "idx + 1"] obtain out where
      "messages_loop (idx + 1) ms = Inr (out, [])" "\<forall>i. chat_loop js i bs out = Inr ([], [m] @ ms, [])"
      by auto
    moreover have "pending = []" using Cons.prems(3) c(2) by auto
    ultimately show ?thesis using o1 Cons.prems(2) False by (auto simp: translateMessage_def bs flush_user_def)
  qed
qed auto

lemma tools_round_trip:
  "list_all canonical_tool ts \<Longrightarrow> \<exists>cs. tools_to_chat i ts = (cs, []) \<and> (\<forall>k. tools_to_messages k cs = (ts, []))"
proof (induction ts arbitrary: i)
  case (Cons t ts)
  then obtain cs where cs: "tools_to_chat (i + 1) ts = (cs, [])" "\<forall>k. tools_to_messages k cs = (ts, [])" by auto
  have t: "at_Type t = []" "at_DeferLoading t = None" "\<not> at_CacheControl t" using Cons.prems by (auto simp: canonical_tool_def)
  show ?case using cs t by (cases t) auto
qed simp

lemma choice_round_trip:
  "canonical_choice tc \<Longrightarrow>
     translateToolChoiceToMessages (fst (translateToolChoice tc)) (snd (translateToolChoice tc)) = Inr (Some tc, [])"
  by (cases tc; cases "tc_DisableParallelToolUse tc")
     (auto simp: canonical_choice_def translateToolChoice_def translateToolChoiceToMessages_def)


definition sample_dialogue :: messages_request where
  "sample_dialogue =
     \<lparr>mq_Model = ''m'', mq_MaxTokens = 100,
      mq_Messages =
        [\<lparr>am_Role = ''user'', am_Content = RawBlocks [TextBlock ''look'',
            ImageBlock \<lparr>is_Type = ''base64'', is_MediaType = ''image/png'', is_Data = ''AAAA'', is_URL = []\<rparr>]\<rparr>,
         \<lparr>am_Role = ''assistant'', am_Content = RawBlocks [TextBlock ''ok'', ToolUseBlock ''t1'' ''f'' ''{}'']\<rparr>,
         \<lparr>am_Role = ''user'', am_Content = RawBlocks [ToolResultBlock ''t1'' (RawString ''42'') None, TextBlock ''and?'']\<rparr>],
      mq_System = RawString ''be brief'', mq_Temperature = None, mq_TopP = None, mq_TopK = None,
      mq_StopSequences = [''END''], mq_Stream = True,
      mq_Tools = [\<lparr>at_Type = [], at_Name = ''f'', at_Description = ''d'', at_InputSchema = ''{}'', at_DeferLoading = None,
                    at_CacheControl = False\<rparr>],
      mq_ToolChoice = Some \<lparr>tc_Type = ''any'', tc_Name = [], tc_DisableParallelToolUse = Some True\<rparr>,
      mq_Metadata = Some \<lparr>md_UserID = ''u'', md_Extra = False\<rparr>, mq_Thinking = False, mq_ServiceTier = ''auto'',
      mq_OutputConfig = Some \<lparr>oc_Effort = ''low'', oc_Format = False, oc_Extra = False\<rparr>, mq_ContextManagement = False\<rparr>"


section \<open>Responses\<close>

definition canonical_response :: "(string \<Rightarrow> string option) \<Rightarrow> messages_response \<Rightarrow> bool" where
  "canonical_response js r \<longleftrightarrow>
     canonical_assistant js (mr_Content r) \<and> mr_StopReason r \<in> {None, Some ''end_turn'', Some ''max_tokens'', Some ''tool_use''} \<and>
     mr_StopSequence r = None \<and> \<not> mr_Container r \<and> \<not> mr_StopDetails r \<and> \<not> mr_ContextManagement r \<and>
     (case us_CacheReadInputTokens (mr_Usage r) of None \<Rightarrow> True | Some n \<Rightarrow> n > 0)"

text \<open>
  A Messages response with text, tool calls and the stop reasons both dialects know survives the translation
  to Chat and back unchanged and without a drop, its usage and service tier included.
\<close>

theorem response_round_trip:
  assumes "canonical_response js r"
  shows "snd (translateMessagesResponseToChat r) = [] \<and>
    translateChatResponseToMessages js (fst (translateMessagesResponseToChat r)) = Inr (r, [])"
proof -
  note c = assms [unfolded canonical_response_def]
  from c obtain t bs' where bs: "mr_Content r = (if t = [] then [] else [TextBlock t]) @ bs'" "list_all (is_call js) bs'"
    using canonical_assistant_parts by blast
  have compact: "those (map (compact_block js) (mr_Content r)) = Some (mr_Content r)"
    by (rule compact_parts) (use bs in \<open>auto simp: is_part_def list_all_iff\<close>)
  obtain calls bi where calls: "assistant_loop (at_index ''content'') bi bs' = ([], calls, [])" "bi = (if t = [] then 0 else 1)"
    "map (\<lambda>tc. tool_use_of (if trim_space (tl_Arguments tc) \<noteq> [] then tl_Arguments tc else ''{}'') tc) calls = bs'"
    "\<forall>tc \<in> set calls. trim_space (tl_Arguments tc) \<noteq> []"
    using assistant_loop_calls [OF bs(2)] by blast
  then have loop: "assistant_loop (at_index ''content'') 0 (mr_Content r) = (t, calls, [])" using bs(1) by (auto split: if_splits)
  have same: "map (\<lambda>tc. tool_use_of (if tl_Arguments tc = [] then ''{}'' else tl_Arguments tc) tc) calls = bs'"
    unfolding calls(3) [symmetric] using calls(4) by (intro map_cong refl) auto
  obtain f where f: "mapStopReasonToFinish (mr_StopReason r) = (f, [])" "mapFinishReason f = (mr_StopReason r, [])"
    using c by (auto simp: mapStopReasonToFinish_def mapFinishReason_def)
  have usage: "translateUsage (Some (usageToChat (mr_Usage r))) (us_ServiceTier (mr_Usage r)) = mr_Usage r"
    using c by (cases "mr_Usage r"; cases "us_CacheReadInputTokens (mr_Usage r)") (auto simp: translateUsage_def usageToChat_def)
  have there: "translateMessagesResponseToChat r =
      (\<lparr>cr_ID = mr_ID r, cr_Model = mr_Model r, cr_SystemFingerprint = [], cr_ServiceTier = us_ServiceTier (mr_Usage r),
        cr_Choices = [\<lparr>ch_Message = \<lparr>rm_Content = (if t \<noteq> [] then RawString t else RawAbsent), rm_ToolCalls = calls,
                         rm_Refusal = None, rm_Audio = False\<rparr>, ch_FinishReason = f, ch_LogProbs = False\<rparr>],
        cr_Usage = Some (usageToChat (mr_Usage r))\<rparr>, [])"
    using c by (simp add: translateMessagesResponseToChat_def messageContentFromBlocks_def loop f(1))
  have "r = \<lparr>mr_ID = mr_ID r, mr_Model = mr_Model r, mr_Content = mr_Content r, mr_StopReason = mr_StopReason r,
      mr_StopSequence = None, mr_Usage = mr_Usage r, mr_Container = False, mr_StopDetails = False, mr_ContextManagement = False\<rparr>"
    using c by (cases r) simp
  moreover have "contentBlocksFromMessage \<lparr>rm_Content = (if t \<noteq> [] then RawString t else RawAbsent), rm_ToolCalls = calls,
      rm_Refusal = None, rm_Audio = False\<rparr> = Inr (mr_Content r, [])"
    using same bs(1) by (simp add: contentBlocksFromMessage_def assistant_text_def refusal_block_def)
  ultimately show ?thesis
    unfolding there
    by (simp add: translateChatResponseToMessages_def usage f(2) compact empty_response_def)
qed

definition sample_reply :: messages_response where
  "sample_reply =
     \<lparr>mr_ID = ''msg_1'', mr_Model = ''m'', mr_Content = [TextBlock ''ok'', ToolUseBlock ''t1'' ''f'' ''{}''],
      mr_StopReason = Some ''tool_use'', mr_StopSequence = None,
      mr_Usage = \<lparr>us_InputTokens = 7, us_OutputTokens = 3, us_CacheReadInputTokens = Some 2, us_ServiceTier = ''auto''\<rparr>,
      mr_Container = False, mr_StopDetails = False, mr_ContextManagement = False\<rparr>"

lemma response_round_trip_witness:
  "translateChatResponseToMessages (\<lambda>s. Some s) (fst (translateMessagesResponseToChat sample_reply)) = Inr (sample_reply, [])"
proof -
  have "canonical_response (\<lambda>s. Some s) sample_reply" by code_simp
  from response_round_trip [OF this] show ?thesis by blast
qed

end
