(* ===== verification/Translate_Stream.thy ===== *)
theory Translate_Stream
  imports Translate_Message
begin

text \<open>
  Translation of streamed responses, \<^verbatim>\<open>internal/translate/anthropic_openai_stream.go\<close>,
  \<^verbatim>\<open>openai_anthropic_stream.go\<close> and \<^verbatim>\<open>stream_reader.go\<close>: the two translators as state transformers
  from payloads to the events they emit, and the reader that feeds them the lines of an upstream body. An
  emitted event stands for its frame of bytes. What a payload decodes to is an argument of the translators. The
  locale \<open>framed_translator\<close> is the contract between a translator and the reader; both translators are its
  interpretations.
\<close>

section \<open>Chat chunks to Messages events\<close>

datatype block_kind = blockNone | blockText | blockTool

text \<open>
  \<^verbatim>\<open>chatToMessagesStream\<close>. \<^verbatim>\<open>openTools\<close> maps the index of a tool call to that of its block, in the
  order of insertion. Encoding an event cannot fail, so the field \<^verbatim>\<open>err\<close> stays nil and is left out.
\<close>

record chat_to_messages =
  cm_started :: bool
  cm_id :: string
  cm_model :: string
  cm_usageIn :: int
  cm_usageOut :: int
  cm_stopRaw :: "string option"
  cm_curKind :: block_kind
  cm_curIndex :: int
  cm_nextIndex :: int
  cm_openTools :: "(int \<times> int) list"

definition new_chat_to_messages :: chat_to_messages where
  "new_chat_to_messages =
     \<lparr>cm_started = False, cm_id = [], cm_model = [], cm_usageIn = 0, cm_usageOut = 0, cm_stopRaw = None,
      cm_curKind = blockNone, cm_curIndex = 0, cm_nextIndex = 0, cm_openTools = []\<rparr>"

definition ensureStarted :: "chat_to_messages \<Rightarrow> chat_to_messages \<times> stream_event list" where
  "ensureStarted s =
     (if cm_started s then (s, [])
      else (s\<lparr>cm_started := True\<rparr>,
            [MessageStart (empty_response\<lparr>mr_ID := (if cm_id s = [] then ''msg_translated'' else cm_id s),
               mr_Model := cm_model s,
               mr_Usage := \<lparr>us_InputTokens = cm_usageIn s, us_OutputTokens = 0, us_CacheReadInputTokens = None,
                            us_ServiceTier = []\<rparr>\<rparr>)]))"

text \<open>\<^verbatim>\<open>closeTools\<close> ranges over the map, then sorts the indices of the blocks.\<close>

definition closeTools :: "chat_to_messages \<Rightarrow> chat_to_messages \<times> stream_event list" where
  "closeTools s = (s\<lparr>cm_openTools := []\<rparr>, map ContentBlockStop (sort (map snd (cm_openTools s))))"

definition closeCurrent :: "chat_to_messages \<Rightarrow> chat_to_messages \<times> stream_event list" where
  "closeCurrent s =
     (case cm_curKind s of
        blockNone \<Rightarrow> (s, [])
      | blockTool \<Rightarrow> (case closeTools s of (s', evs) \<Rightarrow> (s'\<lparr>cm_curKind := blockNone\<rparr>, evs))
      | blockText \<Rightarrow> (s\<lparr>cm_curKind := blockNone\<rparr>, [ContentBlockStop (cm_curIndex s)]))"

definition openText :: "chat_to_messages \<Rightarrow> chat_to_messages \<times> stream_event list" where
  "openText s =
     (s\<lparr>cm_curKind := blockText, cm_curIndex := cm_nextIndex s, cm_nextIndex := cm_nextIndex s + 1\<rparr>,
      [ContentBlockStart (cm_nextIndex s) (Some (TextBlock []))])"

definition openTool :: "int \<Rightarrow> string \<Rightarrow> string \<Rightarrow> chat_to_messages \<Rightarrow> chat_to_messages \<times> stream_event list" where
  "openTool oaIndex i name s =
     (s\<lparr>cm_curKind := blockTool, cm_curIndex := cm_nextIndex s, cm_nextIndex := cm_nextIndex s + 1,
        cm_openTools := AList.update oaIndex (cm_nextIndex s) (cm_openTools s)\<rparr>,
      [ContentBlockStart (cm_nextIndex s) (Some (ToolUseBlock i name ''{}''))])"

text \<open>A \<^verbatim>\<open>null\<close> content decodes as the empty string, which emits nothing either.\<close>

definition handleContent :: "content_part raw_content \<Rightarrow> chat_to_messages \<Rightarrow> chat_to_messages \<times> stream_event list" where
  "handleContent raw s =
     (case as_string raw of
        None \<Rightarrow> (s, [])
      | Some text \<Rightarrow>
          if text = [] then (s, [])
          else if cm_curKind s = blockText then (s, [ContentBlockDelta (cm_curIndex s) (Some (TextDelta text))])
          else (case closeCurrent s of (s1, e1) \<Rightarrow>
                 (case openText s1 of (s2, e2) \<Rightarrow>
                   (s2, e1 @ e2 @ [ContentBlockDelta (cm_curIndex s2) (Some (TextDelta text))]))))"

text \<open>One tool call of a delta; \<^verbatim>\<open>None\<close> is the nil dereference of a delta without its function.\<close>

definition handle_tool_call :: "tool_call_delta \<Rightarrow> chat_to_messages \<Rightarrow> (chat_to_messages \<times> stream_event list) option" where
  "handle_tool_call tc s =
     (case td_Function tc of
        None \<Rightarrow> None
      | Some (name, args) \<Rightarrow>
          Some (let (s1, e1) =
                      (if td_ID tc \<noteq> [] \<or> name \<noteq> []
                       then (let (s1, e1) = (if cm_curKind s = blockText then closeCurrent s else (s, []))
                             in case map_of (cm_openTools s1) (td_Index tc) of
                                  Some _ \<Rightarrow> (s1, e1)
                                | None \<Rightarrow> (case openTool (td_Index tc) (td_ID tc) name s1 of (s2, e2) \<Rightarrow> (s2, e1 @ e2)))
                       else (s, []))
                in (s1, e1 @ (if args = [] then []
                              else case map_of (cm_openTools s1) (td_Index tc) of
                                     None \<Rightarrow> []
                                   | Some idx \<Rightarrow> [ContentBlockDelta idx (Some (InputJSONDelta args))]))))"

fun handleToolCalls :: "tool_call_delta list \<Rightarrow> chat_to_messages \<Rightarrow> (chat_to_messages \<times> stream_event list) option" where
  "handleToolCalls [] s = Some (s, [])"
| "handleToolCalls (tc # tcs) s =
     (case handle_tool_call tc s of
        None \<Rightarrow> None
      | Some (s1, e1) \<Rightarrow> (case handleToolCalls tcs s1 of None \<Rightarrow> None | Some (s2, e2) \<Rightarrow> Some (s2, e1 @ e2)))"

text \<open>What a payload decodes to: an object with a top-level error, a chunk, or neither.\<close>

datatype chunk_payload = ErrorPayload string | ChunkPayload chat_chunk | BadPayload

definition absorb_chunk :: "chat_chunk \<Rightarrow> chat_to_messages \<Rightarrow> chat_to_messages" where
  "absorb_chunk c s =
     (let s1 = (if ck_ID c \<noteq> [] then s\<lparr>cm_id := ck_ID c\<rparr> else s);
          s2 = (if ck_Model c \<noteq> [] then s1\<lparr>cm_model := ck_Model c\<rparr> else s1)
      in case ck_Usage c of
           None \<Rightarrow> s2
         | Some u \<Rightarrow> s2\<lparr>cm_usageIn := cu_PromptTokens u, cm_usageOut := cu_CompletionTokens u\<rparr>)"

definition translate_choice :: "chunk_choice list \<Rightarrow> chat_to_messages \<Rightarrow> (chat_to_messages \<times> stream_event list) option" where
  "translate_choice choices s =
     (case choices of
        [] \<Rightarrow> Some (s, [])
      | ch # _ \<Rightarrow>
          (case handleContent (cc_Content ch) s of
             (s1, e1) \<Rightarrow>
               (case handleToolCalls (cc_ToolCalls ch) s1 of
                  None \<Rightarrow> None
                | Some (s2, e2) \<Rightarrow>
                    Some (case cc_FinishReason ch of
                            None \<Rightarrow> s2
                          | Some r \<Rightarrow> s2\<lparr>cm_stopRaw := fst (mapFinishReason (Some r))\<rparr>, e1 @ e2))))"

definition chat_Translate ::
  "(string \<Rightarrow> chunk_payload) \<Rightarrow> chat_to_messages \<Rightarrow> string \<Rightarrow> (chat_to_messages \<times> stream_event list) option" where
  "chat_Translate decode s frame =
     (let frame = trim_space frame
      in if frame = [] then Some (s, [])
         else case decode frame of
                ErrorPayload msg \<Rightarrow> Some (s, [ErrorEvent \<lparr>se_Type = ''api_error'', se_Message = msg\<rparr>])
              | BadPayload \<Rightarrow> Some (s, [])
              | ChunkPayload c \<Rightarrow>
                  (case ensureStarted (absorb_chunk c s) of
                     (s1, e1) \<Rightarrow>
                       (case translate_choice (ck_Choices c) s1 of
                          None \<Rightarrow> None
                        | Some (s2, e2) \<Rightarrow> Some (s2, e1 @ e2))))"

definition chat_Close :: "chat_to_messages \<Rightarrow> chat_to_messages \<times> stream_event list" where
  "chat_Close s =
     (case ensureStarted s of
        (s1, e1) \<Rightarrow>
          (case closeCurrent s1 of
             (s2, e2) \<Rightarrow>
               (s2, e1 @ e2 @ [MessageDelta (cm_stopRaw s2) (cm_usageIn s2) (cm_usageOut s2), MessageStop])))"

section \<open>Messages events to Chat chunks\<close>

record messages_to_chat =
  mt_id :: string
  mt_model :: string
  mt_roleEmitted :: bool
  mt_inputTokens :: int
  mt_outputTokens :: int
  mt_stopReason :: "string option"
  mt_curKind :: block_kind
  mt_curToolIndex :: int
  mt_nextToolIndex :: int

definition new_messages_to_chat :: messages_to_chat where
  "new_messages_to_chat =
     \<lparr>mt_id = [], mt_model = [], mt_roleEmitted = False, mt_inputTokens = 0, mt_outputTokens = 0, mt_stopReason = None,
      mt_curKind = blockNone, mt_curToolIndex = 0, mt_nextToolIndex = 0\<rparr>"

datatype chat_frame = ChunkFrame chat_chunk | ErrorFrame string string | DoneFrame

definition mt_chunk :: "messages_to_chat \<Rightarrow> chunk_choice list \<Rightarrow> chat_usage option \<Rightarrow> chat_frame" where
  "mt_chunk s choices usage =
     ChunkFrame \<lparr>ck_ID = (if mt_id s = [] then ''chatcmpl_translated'' else mt_id s), ck_Model = mt_model s,
                 ck_Choices = choices, ck_Usage = usage\<rparr>"

abbreviation empty_choice :: chunk_choice where
  "empty_choice \<equiv> \<lparr>cc_Role = [], cc_Content = RawAbsent, cc_ToolCalls = [], cc_FinishReason = None\<rparr>"

definition ensureRole :: "messages_to_chat \<Rightarrow> messages_to_chat \<times> chat_frame list" where
  "ensureRole s =
     (if mt_roleEmitted s then (s, [])
      else (s\<lparr>mt_roleEmitted := True\<rparr>, [mt_chunk (s\<lparr>mt_roleEmitted := True\<rparr>) [empty_choice\<lparr>cc_Role := ''assistant''\<rparr>] None]))"

definition emitContent :: "string \<Rightarrow> messages_to_chat \<Rightarrow> chat_frame" where
  "emitContent text s = mt_chunk s [empty_choice\<lparr>cc_Content := RawString text\<rparr>] None"

definition emitToolStart :: "int \<Rightarrow> string \<Rightarrow> string \<Rightarrow> messages_to_chat \<Rightarrow> chat_frame" where
  "emitToolStart idx i name s =
     mt_chunk s [empty_choice\<lparr>cc_ToolCalls := [\<lparr>td_Index = idx, td_ID = i, td_Function = Some (name, [])\<rparr>]\<rparr>] None"

definition emitToolArgs :: "int \<Rightarrow> string \<Rightarrow> messages_to_chat \<Rightarrow> chat_frame" where
  "emitToolArgs idx args s =
     mt_chunk s [empty_choice\<lparr>cc_ToolCalls := [\<lparr>td_Index = idx, td_ID = [], td_Function = Some ([], args)\<rparr>]\<rparr>] None"

definition handleBlockStart :: "content_block option \<Rightarrow> messages_to_chat \<Rightarrow> messages_to_chat \<times> chat_frame list" where
  "handleBlockStart blk s =
     (case ensureRole s of
        (s, e1) \<Rightarrow>
          (case blk of
             Some (TextBlock t) \<Rightarrow>
               (let s = s\<lparr>mt_curKind := blockText\<rparr> in (s, e1 @ (if t = [] then [] else [emitContent t s])))
           | Some (ToolUseBlock i name _) \<Rightarrow>
               (let s = s\<lparr>mt_curKind := blockTool, mt_curToolIndex := mt_nextToolIndex s,
                          mt_nextToolIndex := mt_nextToolIndex s + 1\<rparr>
                in (s, e1 @ [emitToolStart (mt_curToolIndex s) i name s]))
           | _ \<Rightarrow> (s\<lparr>mt_curKind := blockNone\<rparr>, e1)))"

definition handleBlockDelta :: "block_delta option \<Rightarrow> messages_to_chat \<Rightarrow> chat_frame list" where
  "handleBlockDelta d s =
     (case d of
        Some (TextDelta t) \<Rightarrow> if mt_curKind s = blockText \<and> t \<noteq> [] then [emitContent t s] else []
      | Some (InputJSONDelta j) \<Rightarrow> if mt_curKind s = blockTool then [emitToolArgs (mt_curToolIndex s) j s] else []
      | _ \<Rightarrow> [])"

definition mt_finishReason :: "messages_to_chat \<Rightarrow> string" where
  "mt_finishReason s = (case fst (mapStopReasonToFinish (mt_stopReason s)) of None \<Rightarrow> ''stop'' | Some r \<Rightarrow> r)"

definition absorb_start :: "messages_response \<Rightarrow> messages_to_chat \<Rightarrow> messages_to_chat" where
  "absorb_start m s =
     (let s1 = (if mr_ID m \<noteq> [] then s\<lparr>mt_id := mr_ID m\<rparr> else s);
          s2 = (if mr_Model m \<noteq> [] then s1\<lparr>mt_model := mr_Model m\<rparr> else s1)
      in if us_InputTokens (mr_Usage m) > 0 then s2\<lparr>mt_inputTokens := us_InputTokens (mr_Usage m)\<rparr> else s2)"

definition absorb_delta :: "string option \<Rightarrow> int \<Rightarrow> int \<Rightarrow> messages_to_chat \<Rightarrow> messages_to_chat" where
  "absorb_delta stop input output s =
     (let s1 = (if stop \<noteq> None then s\<lparr>mt_stopReason := stop\<rparr> else s);
          s2 = (if output > 0 then s1\<lparr>mt_outputTokens := output\<rparr> else s1)
      in if input > 0 then s2\<lparr>mt_inputTokens := input\<rparr> else s2)"

fun handle_event :: "stream_event \<Rightarrow> messages_to_chat \<Rightarrow> messages_to_chat \<times> chat_frame list" where
  "handle_event (MessageStart m) s = ensureRole (absorb_start m s)"
| "handle_event (ContentBlockStart _ blk) s = handleBlockStart blk s"
| "handle_event (ContentBlockDelta _ d) s = (s, handleBlockDelta d s)"
| "handle_event (ContentBlockStop _) s = (s\<lparr>mt_curKind := blockNone\<rparr>, [])"
| "handle_event (MessageDelta stop input output) s = (absorb_delta stop input output s, [])"
| "handle_event (ErrorEvent e) s = (s, [ErrorFrame (se_Message e) (se_Type e)])"
| "handle_event MessageStop s = (s, [])"
| "handle_event (OtherEvent _) s = (s, [])"

text \<open>\<open>decode\<close> is \<^verbatim>\<open>UnmarshalStreamEvent\<close>, \<open>None\<close> on an error.\<close>

definition messages_Translate ::
  "(string \<Rightarrow> stream_event option) \<Rightarrow> messages_to_chat \<Rightarrow> string \<Rightarrow> (messages_to_chat \<times> chat_frame list) option" where
  "messages_Translate decode s frame =
     (let frame = trim_space frame
      in if frame = [] then Some (s, [])
         else case decode frame of None \<Rightarrow> Some (s, []) | Some ev \<Rightarrow> Some (handle_event ev s))"

definition messages_Close :: "messages_to_chat \<Rightarrow> messages_to_chat \<times> chat_frame list" where
  "messages_Close s =
     (case ensureRole s of
        (s1, e1) \<Rightarrow>
          (s1, e1 @
             [mt_chunk s1 [empty_choice\<lparr>cc_FinishReason := Some (mt_finishReason s1)\<rparr>] None,
              mt_chunk s1 [] (Some \<lparr>cu_PromptTokens = mt_inputTokens s1, cu_CompletionTokens = mt_outputTokens s1,
                                    cu_TotalTokens = i64 (mt_inputTokens s1 + mt_outputTokens s1), cu_CachedTokens = None\<rparr>),
              DoneFrame]))"

section \<open>The reader of an upstream body\<close>

text \<open>\<^verbatim>\<open>ReadString\<close> with a newline: the complete lines of a body and the unterminated rest.\<close>

fun body_lines :: "string \<Rightarrow> string list \<times> string" where
  "body_lines [] = ([], [])"
| "body_lines (c # s) =
     (case body_lines s of
        (ls, rest) \<Rightarrow>
          if c = CHR 0x0A then ([c] # ls, rest)
          else (case ls of [] \<Rightarrow> ([], c # rest) | l # ls' \<Rightarrow> ((c # l) # ls', rest)))"

definition trim_eol :: "string \<Rightarrow> string" where
  "trim_eol line = rev (dropWhile (\<lambda>c. c = CHR 0x0D \<or> c = CHR 0x0A) (rev line))"

definition data_field :: "string \<Rightarrow> string option \<Rightarrow> string option" where
  "data_field line payload =
     (let trimmed = trim_eol line in if has_prefix trimmed ''data:'' then Some (trim_space (drop 5 trimmed)) else payload)"

text \<open>
  \<^verbatim>\<open>nextEvent\<close>: the payload if a data line was seen, the lines left, and whether the end of the body was
  reached. \<open>rest\<close> is the unterminated last line.
\<close>

fun nextEvent :: "string list \<Rightarrow> string \<Rightarrow> string option \<Rightarrow> string option \<times> string list \<times> bool" where
  "nextEvent [] rest payload = (data_field rest payload, [], True)"
| "nextEvent (l # ls) rest payload =
     (if has_prefix (trim_eol l) ''data:'' then nextEvent ls rest (data_field l payload)
      else if trim_eol l = [] \<and> payload \<noteq> None then (payload, ls, False)
      else nextEvent ls rest payload)"

definition isDone :: "string \<Rightarrow> bool" where
  "isDone data \<longleftrightarrow> trim_space data = ''[DONE]''"

datatype read_end = CleanEnd | ReadFailed | Crashed

lemma nextEvent_shorter: "nextEvent ls rest p = (q, ls', False) \<Longrightarrow> length ls' < length ls"
  by (induction ls rest p rule: nextEvent.induct) (auto split: if_splits simp: less_SucI)

text \<open>
  Reading a translated body to its end: \<^verbatim>\<open>Read\<close> calls \<^verbatim>\<open>fill\<close> whenever nothing is pending, so what a
  client receives is what the calls of \<^verbatim>\<open>fill\<close> append. \<open>broken\<close> says that the upstream body ends in an error
  other than \<^verbatim>\<open>io.EOF\<close>, \<^verbatim>\<open>Crashed\<close> that a translator panicked.
\<close>

function drain ::
  "('s \<Rightarrow> string \<Rightarrow> ('s \<times> 'o list) option) \<Rightarrow> ('s \<Rightarrow> 's \<times> 'o list) \<Rightarrow> bool \<Rightarrow> string \<Rightarrow> string list \<Rightarrow> 's \<Rightarrow> 'o list \<times> read_end"
where
  "drain tr cl broken rest ls s =
     (case nextEvent ls rest None of
        (data, ls', at_end) \<Rightarrow>
          if at_end \<and> broken then ([], ReadFailed)
          else case data of
                 None \<Rightarrow> (snd (cl s), CleanEnd)
               | Some d \<Rightarrow>
                   if isDone d then (snd (cl s), CleanEnd)
                   else case tr s d of
                          None \<Rightarrow> ([], Crashed)
                        | Some (s', out) \<Rightarrow>
                            if at_end then (out @ snd (cl s'), CleanEnd)
                            else (case drain tr cl broken rest ls' s' of (out', e) \<Rightarrow> (out @ out', e)))"
  by pat_completeness auto
termination
  by (relation "measure (\<lambda>(tr, cl, broken, rest, ls, s). length ls)") (auto dest: nextEvent_shorter [OF sym])

declare drain.simps [simp del]

definition read_translated ::
  "('s \<Rightarrow> string \<Rightarrow> ('s \<times> 'o list) option) \<Rightarrow> ('s \<Rightarrow> 's \<times> 'o list) \<Rightarrow> 's \<Rightarrow> bool \<Rightarrow> string \<Rightarrow> 'o list \<times> read_end" where
  "read_translated tr cl s0 broken body = (case body_lines body of (ls, rest) \<Rightarrow> drain tr cl broken rest ls s0)"

section \<open>The contract of a translator\<close>

fun accepts :: "('a \<Rightarrow> 'o \<Rightarrow> 'a option) \<Rightarrow> 'a \<Rightarrow> 'o list \<Rightarrow> 'a option" where
  "accepts acc a [] = Some a"
| "accepts acc a (x # xs) = (case acc a x of None \<Rightarrow> None | Some a' \<Rightarrow> accepts acc a' xs)"

lemma accepts_append: "accepts acc a (xs @ ys) = (case accepts acc a xs of None \<Rightarrow> None | Some a' \<Rightarrow> accepts acc a' ys)"
  by (induction xs arbitrary: a) (auto split: option.splits)

text \<open>
  \<open>acc\<close> is an automaton of well-framed output and \<open>R\<close> relates a translator's state to the automaton's. Every
  call keeps the relation, and the closing call ends in a final state.
\<close>

locale framed_translator =
  fixes tr :: "'s \<Rightarrow> string \<Rightarrow> ('s \<times> 'o list) option"
    and cl :: "'s \<Rightarrow> 's \<times> 'o list"
    and acc :: "'a \<Rightarrow> 'o \<Rightarrow> 'a option"
    and R :: "'s \<Rightarrow> 'a \<Rightarrow> bool"
    and final :: "'a \<Rightarrow> bool"
  assumes translate_framed: "R s a \<Longrightarrow> tr s d = Some (s', out) \<Longrightarrow> \<exists>a'. accepts acc a out = Some a' \<and> R s' a'"
    and close_framed: "R s a \<Longrightarrow> \<exists>a'. accepts acc a (snd (cl s)) = Some a' \<and> final a'"
begin

lemma drain_framed:
  "R s a \<Longrightarrow> drain tr cl broken rest ls s = (out, e) \<Longrightarrow>
     \<exists>a'. accepts acc a out = Some a' \<and> (e = CleanEnd \<longrightarrow> final a')"
proof (induction "length ls" arbitrary: ls s a out e rule: less_induct)
  case less
  obtain data ls' at_end where n: "nextEvent ls rest None = (data, ls', at_end)" by (cases "nextEvent ls rest None")
  note unfolded = drain.simps [of tr cl broken rest ls s, unfolded less.prems(2) n prod.case]
  show ?case
  proof (cases "(at_end \<and> broken) \<or> data = None \<or> isDone (the data)")
    case True
    then show ?thesis
      using unfolded close_framed [OF less.prems(1)] by (auto split: if_splits option.splits)
  next
    case False
    then obtain d where d: "data = Some d" "\<not> isDone d" "\<not> (at_end \<and> broken)" by auto
    show ?thesis
    proof (cases "tr s d")
      case None
      then show ?thesis using unfolded d by (auto split: if_splits)
    next
      case (Some r)
      obtain s' o1 where r: "tr s d = Some (s', o1)" using Some by (cases r) auto
      obtain a1 where a1: "accepts acc a o1 = Some a1" "R s' a1"
        using translate_framed [OF less.prems(1) r] by auto
      show ?thesis
      proof (cases at_end)
        case True
        then show ?thesis
          using unfolded d r a1 close_framed [OF a1(2)] by (auto simp: accepts_append)
      next
        case False
        obtain out2 e2 where rec: "drain tr cl broken rest ls' s' = (out2, e2)"
          by (cases "drain tr cl broken rest ls' s'")
        have "length ls' < length ls" using nextEvent_shorter [of ls rest None data ls'] n False by simp
        from less.hyps [OF this a1(2) rec] show ?thesis
          using unfolded d r a1 False rec by (auto simp: accepts_append)
      qed
    qed
  qed
qed

lemma read_framed:
  assumes "R s a" "read_translated tr cl s broken body = (out, e)"
  shows "\<exists>a'. accepts acc a out = Some a' \<and> (e = CleanEnd \<longrightarrow> final a')"
  using assms drain_framed unfolding read_translated_def by (auto split: prod.splits)

end

section \<open>The lifecycle of a Messages stream\<close>

text \<open>
  The frames of one message: \<^verbatim>\<open>message_start\<close> once and before the blocks, blocks numbered 0, 1, 2, ..., a
  text block never open beside another block, deltas only for an open block of their kind, \<^verbatim>\<open>message_delta\<close>
  when every block is closed, then \<^verbatim>\<open>message_stop\<close>, then nothing. Error events may come at any time before.
\<close>

record lifecycle_state =
  lf_started :: bool
  lf_open :: "(int \<times> block_kind) list"
  lf_next :: int
  lf_ended :: bool
  lf_stopped :: bool

definition no_message :: lifecycle_state where
  "no_message = \<lparr>lf_started = False, lf_open = [], lf_next = 0, lf_ended = False, lf_stopped = False\<rparr>"

definition may_open :: "lifecycle_state \<Rightarrow> int \<Rightarrow> block_kind \<Rightarrow> lifecycle_state option" where
  "may_open a i k =
     (if lf_started a \<and> \<not> lf_ended a \<and> i = lf_next a \<and> list_all (\<lambda>p. k = blockTool \<and> snd p = blockTool) (lf_open a)
      then Some (a\<lparr>lf_open := lf_open a @ [(i, k)], lf_next := lf_next a + 1\<rparr>) else None)"

fun lifecycle :: "lifecycle_state \<Rightarrow> stream_event \<Rightarrow> lifecycle_state option" where
  "lifecycle a (MessageStart m) =
     (if \<not> lf_started a \<and> \<not> lf_stopped a \<and> mr_Content m = [] \<and> mr_ID m \<noteq> [] then Some (a\<lparr>lf_started := True\<rparr>) else None)"
| "lifecycle a (ContentBlockStart i (Some (TextBlock t))) = may_open a i blockText"
| "lifecycle a (ContentBlockStart i (Some (ToolUseBlock _ _ _))) = may_open a i blockTool"
| "lifecycle a (ContentBlockDelta i (Some (TextDelta t))) =
     (if \<not> lf_ended a \<and> (i, blockText) \<in> set (lf_open a) then Some a else None)"
| "lifecycle a (ContentBlockDelta i (Some (InputJSONDelta t))) =
     (if \<not> lf_ended a \<and> (i, blockTool) \<in> set (lf_open a) then Some a else None)"
| "lifecycle a (ContentBlockStop i) =
     (if \<not> lf_ended a \<and> i \<in> fst ` set (lf_open a)
      then Some (a\<lparr>lf_open := filter (\<lambda>p. fst p \<noteq> i) (lf_open a)\<rparr>) else None)"
| "lifecycle a (MessageDelta _ _ _) =
     (if lf_started a \<and> \<not> lf_ended a \<and> lf_open a = [] then Some (a\<lparr>lf_ended := True\<rparr>) else None)"
| "lifecycle a MessageStop = (if lf_ended a \<and> \<not> lf_stopped a then Some (a\<lparr>lf_stopped := True\<rparr>) else None)"
| "lifecycle a (ErrorEvent e) = (if lf_stopped a then None else Some a)"
| "lifecycle a _ = None"

lemma stops_accepted:
  "distinct xs \<Longrightarrow> set xs \<subseteq> fst ` set (lf_open a) \<Longrightarrow> \<not> lf_ended a \<Longrightarrow>
     accepts lifecycle a (map ContentBlockStop xs) = Some (a\<lparr>lf_open := filter (\<lambda>p. fst p \<notin> set xs) (lf_open a)\<rparr>)"
proof (induction xs arbitrary: a)
  case (Cons x xs)
  let ?a = "a\<lparr>lf_open := filter (\<lambda>p. fst p \<noteq> x) (lf_open a)\<rparr>"
  have "set xs \<subseteq> fst ` set (lf_open ?a)" using Cons.prems by fastforce
  with Cons.IH [of ?a] Cons.prems show ?case by (auto intro: filter_cong)
qed simp

text \<open>The state of the translator as the lifecycle sees it.\<close>

definition chat_tracks :: "chat_to_messages \<Rightarrow> lifecycle_state \<Rightarrow> bool" where
  "chat_tracks s a \<longleftrightarrow>
     \<not> lf_ended a \<and> \<not> lf_stopped a \<and> lf_started a = cm_started s \<and> lf_next a = cm_nextIndex s \<and>
     distinct (map snd (cm_openTools s)) \<and> (\<forall>p \<in> set (cm_openTools s). snd p < cm_nextIndex s) \<and>
     lf_open a = (case cm_curKind s of
                    blockNone \<Rightarrow> []
                  | blockText \<Rightarrow> [(cm_curIndex s, blockText)]
                  | blockTool \<Rightarrow> map (\<lambda>p. (snd p, blockTool)) (cm_openTools s)) \<and>
     (cm_curKind s \<noteq> blockTool \<longrightarrow> cm_openTools s = [])"

lemma track_ensure:
  "chat_tracks s a \<Longrightarrow> ensureStarted s = (s', out) \<Longrightarrow>
     \<exists>a'. accepts lifecycle a out = Some a' \<and> chat_tracks s' a' \<and> cm_started s'"
  by (auto simp: ensureStarted_def chat_tracks_def empty_response_def split: if_splits block_kind.splits)

lemma track_close:
  assumes "chat_tracks s a" "closeCurrent s = (s', out)"
  shows "\<exists>a'. accepts lifecycle a out = Some a' \<and> chat_tracks s' a' \<and> cm_started s' = cm_started s \<and> cm_curKind s' = blockNone"
proof (cases "cm_curKind s")
  case blockTool
  let ?xs = "sort (map snd (cm_openTools s))"
  have "accepts lifecycle a (map ContentBlockStop ?xs) =
      Some (a\<lparr>lf_open := filter (\<lambda>p. fst p \<notin> set ?xs) (lf_open a)\<rparr>)"
    by (rule stops_accepted) (use assms(1) blockTool in \<open>auto simp: chat_tracks_def image_image\<close>)
  moreover have "filter (\<lambda>p. fst p \<notin> set ?xs) (lf_open a) = []"
    using assms(1) blockTool by (auto simp: chat_tracks_def filter_empty_conv)
  ultimately show ?thesis
    using assms blockTool by (auto simp: closeCurrent_def closeTools_def chat_tracks_def)
qed (use assms in \<open>auto simp: closeCurrent_def chat_tracks_def\<close>)

lemma track_open_text:
  "chat_tracks s a \<Longrightarrow> cm_started s \<Longrightarrow> cm_curKind s = blockNone \<Longrightarrow> openText s = (s', out) \<Longrightarrow>
     \<exists>a'. accepts lifecycle a out = Some a' \<and> chat_tracks s' a' \<and> cm_started s' \<and> cm_curKind s' = blockText"
  by (auto simp: openText_def chat_tracks_def may_open_def)

lemma update_new: "map_of al k = None \<Longrightarrow> AList.update k v al = al @ [(k, v)]"
  by (induction al) (auto split: if_splits)

lemma track_open_tool:
  "chat_tracks s a \<Longrightarrow> cm_started s \<Longrightarrow> cm_curKind s \<noteq> blockText \<Longrightarrow> map_of (cm_openTools s) k = None \<Longrightarrow>
     openTool k i name s = (s', out) \<Longrightarrow>
     \<exists>a'. accepts lifecycle a out = Some a' \<and> chat_tracks s' a' \<and> cm_started s'"
  by (cases "cm_curKind s")
     (force simp: openTool_def chat_tracks_def may_open_def list_all_iff update_new)+

lemma track_text_delta:
  "chat_tracks s a \<Longrightarrow> cm_curKind s = blockText \<Longrightarrow>
     \<not> lf_ended a \<and> (cm_curIndex s, blockText) \<in> set (lf_open a)"
  by (simp add: chat_tracks_def)

lemma track_content:
  assumes "chat_tracks s a" "cm_started s" "handleContent raw s = (s', out)"
  shows "\<exists>a'. accepts lifecycle a out = Some a' \<and> chat_tracks s' a' \<and> cm_started s'"
proof (cases "as_string raw = None \<or> as_string raw = Some [] \<or> cm_curKind s = blockText")
  case True
  then show ?thesis using assms track_text_delta [OF assms(1)] by (auto simp: handleContent_def split: option.splits if_splits)
next
  case False
  then obtain t where t: "as_string raw = Some t" "t \<noteq> []" "cm_curKind s \<noteq> blockText" by auto
  obtain s1 e1 where c: "closeCurrent s = (s1, e1)" by (cases "closeCurrent s")
  obtain s2 e2 where o: "openText s1 = (s2, e2)" by (cases "openText s1")
  from track_close [OF assms(1) c] assms(2) obtain a1 where
    a1: "accepts lifecycle a e1 = Some a1" "chat_tracks s1 a1" "cm_started s1" "cm_curKind s1 = blockNone" by auto
  from track_open_text [OF a1(2-4) o] obtain a2 where
    a2: "accepts lifecycle a1 e2 = Some a2" "chat_tracks s2 a2" "cm_started s2" "cm_curKind s2 = blockText" by auto
  show ?thesis
    using assms(3) t c o a1 a2 track_text_delta [OF a2(2,4)] by (auto simp: handleContent_def accepts_append)
qed

lemma track_args:
  "chat_tracks s a \<Longrightarrow> map_of (cm_openTools s) k = Some idx \<Longrightarrow>
     \<not> lf_ended a \<and> (idx, blockTool) \<in> set (lf_open a)"
  by (cases "cm_curKind s") (force simp: chat_tracks_def dest: map_of_SomeD)+

text \<open>What a tool call delta opens, the block it closes included.\<close>

lemma track_opening:
  assumes "chat_tracks s a" "cm_started s"
    "(if cm_curKind s = blockText then closeCurrent s else (s, [])) = (s1, e1)" "map_of (cm_openTools s1) k = None"
    "openTool k i name s1 = (s2, e2)"
  shows "\<exists>a'. accepts lifecycle a (e1 @ e2) = Some a' \<and> chat_tracks s2 a' \<and> cm_started s2"
proof -
  have "\<exists>a1. accepts lifecycle a e1 = Some a1 \<and> chat_tracks s1 a1 \<and> cm_started s1 \<and> cm_curKind s1 \<noteq> blockText"
    using assms(1-3) track_close [OF assms(1)] by (auto split: if_splits)
  then obtain a1 where "accepts lifecycle a e1 = Some a1" "chat_tracks s1 a1" "cm_started s1" "cm_curKind s1 \<noteq> blockText"
    by auto
  with track_open_tool [OF _ _ _ assms(4,5)] show ?thesis by (auto simp: accepts_append)
qed

lemma track_tool_call:
  assumes "chat_tracks s a" "cm_started s" "handle_tool_call tc s = Some (s', out)"
  shows "\<exists>a'. accepts lifecycle a out = Some a' \<and> chat_tracks s' a' \<and> cm_started s'"
proof -
  obtain name args where f: "td_Function tc = Some (name, args)"
    using assms(3) by (auto simp: handle_tool_call_def split: option.splits)
  define pre where "pre = (if cm_curKind s = blockText then closeCurrent s else (s, []))"
  obtain s1 e1 where p: "pre = (s1, e1)" by (cases pre)
  define opened where "opened =
    (if td_ID tc \<noteq> [] \<or> name \<noteq> []
     then (case map_of (cm_openTools s1) (td_Index tc) of
             Some _ \<Rightarrow> (s1, e1)
           | None \<Rightarrow> (case openTool (td_Index tc) (td_ID tc) name s1 of (s2, e2) \<Rightarrow> (s2, e1 @ e2)))
     else (s, []))"
  obtain s2 e2 where o: "opened = (s2, e2)" by (cases opened)
  have "\<exists>a'. accepts lifecycle a e2 = Some a' \<and> chat_tracks s2 a' \<and> cm_started s2"
  proof (cases "(td_ID tc \<noteq> [] \<or> name \<noteq> []) \<and> map_of (cm_openTools s1) (td_Index tc) = None")
    case True
    then show ?thesis
      using o track_opening [OF assms(1,2) p [unfolded pre_def]] by (auto simp: opened_def split: prod.splits)
  next
    case False
    then show ?thesis
      using o p assms(1,2) track_close [OF assms(1)] by (auto simp: opened_def pre_def split: if_splits option.splits)
  qed
  then obtain a' where a': "accepts lifecycle a e2 = Some a'" "chat_tracks s2 a'" "cm_started s2" by auto
  have "(s', out) = (s2, e2 @ (if args = [] then []
        else case map_of (cm_openTools s2) (td_Index tc) of
               None \<Rightarrow> [] | Some idx \<Rightarrow> [ContentBlockDelta idx (Some (InputJSONDelta args))]))"
    using assms(3) f p o unfolding handle_tool_call_def opened_def pre_def
    by (simp split: if_splits option.splits prod.splits)
  then show ?thesis
    using a' track_args [OF a'(2)] by (auto simp: accepts_append split: option.splits)
qed

lemma track_tool_calls:
  "handleToolCalls tcs s = Some (s', out) \<Longrightarrow> chat_tracks s a \<Longrightarrow> cm_started s \<Longrightarrow>
     \<exists>a'. accepts lifecycle a out = Some a' \<and> chat_tracks s' a' \<and> cm_started s'"
proof (induction tcs arbitrary: s a out)
  case (Cons tc tcs)
  from Cons.prems(1) obtain s1 e1 e2 where
    1: "handle_tool_call tc s = Some (s1, e1)" "handleToolCalls tcs s1 = Some (s', e2)" "out = e1 @ e2"
    by (auto split: option.splits)
  from track_tool_call [OF Cons.prems(2,3) 1(1)] obtain a1 where
    2: "accepts lifecycle a e1 = Some a1" "chat_tracks s1 a1" "cm_started s1" by auto
  from Cons.IH [OF 1(2) 2(2,3)] show ?case using 1(3) 2(1) by (auto simp: accepts_append)
qed auto

lemma track_stop: "chat_tracks (s\<lparr>cm_stopRaw := r\<rparr>) a = chat_tracks s a"
  by (cases "cm_curKind s") (simp_all add: chat_tracks_def)

lemma track_choice:
  assumes "chat_tracks s a" "cm_started s" "translate_choice chs s = Some (s', out)"
  shows "\<exists>a'. accepts lifecycle a out = Some a' \<and> chat_tracks s' a'"
proof (cases chs)
  case (Cons ch rest)
  obtain s1 e1 where c: "handleContent (cc_Content ch) s = (s1, e1)" by (cases "handleContent (cc_Content ch) s")
  with Cons assms(3) obtain s2 e2 where t: "handleToolCalls (cc_ToolCalls ch) s1 = Some (s2, e2)" "out = e1 @ e2"
    and s': "chat_tracks s' = chat_tracks s2"
    by (auto simp: translate_choice_def track_stop fun_eq_iff split: option.splits)
  from track_content [OF assms(1,2) c] obtain a1 where
    1: "accepts lifecycle a e1 = Some a1" "chat_tracks s1 a1" "cm_started s1" by auto
  from track_tool_calls [OF t(1) 1(2,3)] obtain a2 where
    2: "accepts lifecycle a1 e2 = Some a2" "chat_tracks s2 a2" by auto
  show ?thesis using 1 2 t(2) s' by (auto simp: accepts_append)
qed (use assms in \<open>auto simp: translate_choice_def\<close>)

lemma track_absorb: "chat_tracks (absorb_chunk c s) a = chat_tracks s a"
  by (cases "cm_curKind s"; cases "ck_Usage c") (simp_all add: absorb_chunk_def chat_tracks_def)

lemma track_translate:
  assumes "chat_tracks s a" "chat_Translate decode s d = Some (s', out)"
  shows "\<exists>a'. accepts lifecycle a out = Some a' \<and> chat_tracks s' a'"
proof (cases "trim_space d = [] \<or> (\<forall>c. decode (trim_space d) \<noteq> ChunkPayload c)")
  case True
  have "lf_stopped a = False" using assms(1) by (simp add: chat_tracks_def)
  with True show ?thesis
    using assms by (auto simp: chat_Translate_def Let_def split: if_splits chunk_payload.splits)
next
  case False
  then obtain c where c: "trim_space d \<noteq> []" "decode (trim_space d) = ChunkPayload c" by auto
  obtain s1 e1 where e: "ensureStarted (absorb_chunk c s) = (s1, e1)" by (cases "ensureStarted (absorb_chunk c s)")
  obtain s2 e2 where t: "translate_choice (ck_Choices c) s1 = Some (s2, e2)" "s' = s2" "out = e1 @ e2"
    using assms(2) c e by (auto simp: chat_Translate_def split: option.splits)
  from track_ensure [OF _ e, of a] assms(1) obtain a1 where
    1: "accepts lifecycle a e1 = Some a1" "chat_tracks s1 a1" "cm_started s1" by (auto simp: track_absorb)
  from track_choice [OF 1(2,3) t(1)] show ?thesis using 1 t(2,3) by (auto simp: accepts_append)
qed

lemma track_Close:
  assumes "chat_tracks s a"
  shows "\<exists>a'. accepts lifecycle a (snd (chat_Close s)) = Some a' \<and> lf_stopped a'"
proof -
  obtain s1 e1 where e: "ensureStarted s = (s1, e1)" by (cases "ensureStarted s")
  obtain s2 e2 where c: "closeCurrent s1 = (s2, e2)" by (cases "closeCurrent s1")
  from track_ensure [OF assms e] obtain a1 where
    1: "accepts lifecycle a e1 = Some a1" "chat_tracks s1 a1" "cm_started s1" by auto
  from track_close [OF 1(2) c] 1(3) obtain a2 where
    2: "accepts lifecycle a1 e2 = Some a2" "chat_tracks s2 a2" "cm_started s2" "cm_curKind s2 = blockNone" by auto
  then have "lf_started a2" "\<not> lf_ended a2" "lf_open a2 = []" "\<not> lf_stopped a2" by (auto simp: chat_tracks_def)
  then show ?thesis using e c 1 2 by (auto simp: chat_Close_def accepts_append)
qed

interpretation chat_events:
  framed_translator "chat_Translate decode" chat_Close lifecycle chat_tracks lf_stopped for decode
  by unfold_locales (auto intro: track_translate track_Close)

lemma chat_tracks_new: "chat_tracks new_chat_to_messages no_message"
  by (simp add: chat_tracks_def new_chat_to_messages_def no_message_def)

text \<open>
  C27. Whatever the Chat stream of an upstream contains, the Messages stream the client reads is well framed: each
  event is in order for the lifecycle, and when the body is read to its end, the message is complete.
\<close>

theorem translated_stream_framed:
  assumes "read_translated (chat_Translate decode) chat_Close new_chat_to_messages broken body = (evs, e)"
  shows "\<exists>a. accepts lifecycle no_message evs = Some a \<and> (e = CleanEnd \<longrightarrow> lf_stopped a)"
  using chat_events.read_framed [OF chat_tracks_new assms] .

definition sample_delta :: "string \<Rightarrow> tool_call_delta list \<Rightarrow> chat_chunk" where
  "sample_delta text calls =
     \<lparr>ck_ID = ''c1'', ck_Model = ''gpt-4o'',
      ck_Choices = [empty_choice\<lparr>cc_Content := RawString text, cc_ToolCalls := calls\<rparr>], ck_Usage = None\<rparr>"

definition sample_decode :: "string \<Rightarrow> chunk_payload" where
  "sample_decode p =
     (if p = ''a'' then ChunkPayload (sample_delta ''Hi'' [])
      else if p = ''b'' then ChunkPayload (sample_delta [] [\<lparr>td_Index = 0, td_ID = ''t1'', td_Function = Some (''f'', ''{}'')\<rparr>])
      else if p = ''c'' then ChunkPayload (sample_delta [] [\<lparr>td_Index = 0, td_ID = ''t1'', td_Function = None\<rparr>])
      else BadPayload)"

definition sample_body :: "string list \<Rightarrow> string" where
  "sample_body ps = concat (map (\<lambda>p. ''data: '' @ p @ [CHR 0x0A, CHR 0x0A]) ps)"

lemma sample_stream:
  "map_prod length id (read_translated (chat_Translate sample_decode) chat_Close new_chat_to_messages False
     (sample_body [''a'', ''b'', ''[DONE]''])) = (9, CleanEnd)"
  by code_simp

lemma translated_stream_framed_witness:
  "\<exists>evs a. read_translated (chat_Translate sample_decode) chat_Close new_chat_to_messages False
      (sample_body [''a'', ''b'', ''[DONE]'']) = (evs, CleanEnd) \<and>
     length evs = 9 \<and> accepts lifecycle no_message evs = Some a \<and> lf_stopped a"
proof -
  obtain evs e where r: "read_translated (chat_Translate sample_decode) chat_Close new_chat_to_messages False
      (sample_body [''a'', ''b'', ''[DONE]'']) = (evs, e)"
    by fastforce
  with sample_stream have "length evs = 9" "e = CleanEnd" by auto
  with r translated_stream_framed [OF r] show ?thesis by blast
qed

text \<open>A tool call delta without its function object crashes the translator.\<close>

lemma nil_function_panics:
  "read_translated (chat_Translate sample_decode) chat_Close new_chat_to_messages False (sample_body [''c'']) = ([], Crashed)"
  by code_simp

section \<open>Streamed and buffered translation agree\<close>

text \<open>The payloads of a body are what an echoing translator makes of it.\<close>

definition payloads :: "string \<Rightarrow> string list" where
  "payloads body = fst (read_translated (\<lambda>s d. Some (s, [d])) (\<lambda>s. (s, [])) () False body)"

fun feed :: "('s \<Rightarrow> string \<Rightarrow> ('s \<times> 'o list) option) \<Rightarrow> 's \<Rightarrow> string list \<Rightarrow> ('s \<times> 'o list) option" where
  "feed tr s [] = Some (s, [])"
| "feed tr s (d # ds) =
     (case tr s d of
        None \<Rightarrow> None
      | Some (s1, o1) \<Rightarrow> (case feed tr s1 ds of None \<Rightarrow> None | Some (s2, o2) \<Rightarrow> Some (s2, o1 @ o2)))"

lemma drain_feed:
  "feed tr s (fst (drain (\<lambda>u d. Some (u, [d])) (\<lambda>u. (u, [])) False rest ls ())) = Some (s', out) \<Longrightarrow>
     drain tr cl False rest ls s = (out @ snd (cl s'), CleanEnd)"
proof (induction "length ls" arbitrary: ls s out rule: less_induct)
  case less
  obtain data ls' at_end where n: "nextEvent ls rest None = (data, ls', at_end)" by (cases "nextEvent ls rest None")
  show ?case
  proof (cases "data = None \<or> isDone (the data) \<or> at_end")
    case True
    then show ?thesis
      using less.prems n
      by (subst drain.simps) (subst (asm) drain.simps, auto split: option.splits if_splits)
  next
    case False
    then obtain d where d: "data = Some d" "\<not> isDone d" "\<not> at_end" by auto
    let ?echo = "drain (\<lambda>u d. Some (u, [d])) (\<lambda>u. (u, [])) False rest"
    have e: "?echo ls () = (d # fst (?echo ls' ()), snd (?echo ls' ()))"
      by (subst drain.simps) (use n d in \<open>simp split: prod.split\<close>)
    obtain s1 o1 o2 where t: "tr s d = Some (s1, o1)" "feed tr s1 (fst (?echo ls' ())) = Some (s', o2)" "out = o1 @ o2"
      using less.prems unfolding e by (auto split: option.splits)
    have "length ls' < length ls" using nextEvent_shorter [of ls rest None data ls'] n d(3) by simp
    from less.hyps [OF this t(2)] show ?thesis
      by (subst drain.simps) (use n d t in simp)
  qed
qed

lemma read_feed:
  "feed tr s (payloads body) = Some (s', out) \<Longrightarrow> read_translated tr cl s False body = (out @ snd (cl s'), CleanEnd)"
  unfolding read_translated_def payloads_def by (auto split: prod.splits intro: drain_feed)

text \<open>What a Messages client collects: the blocks, each with its deltas appended.\<close>

fun collect :: "content_block list \<Rightarrow> stream_event \<Rightarrow> content_block list" where
  "collect bs (ContentBlockStart _ (Some (TextBlock t))) = bs @ [TextBlock t]"
| "collect bs (ContentBlockStart _ (Some (ToolUseBlock i n _))) = bs @ [ToolUseBlock i n []]"
| "collect bs (ContentBlockDelta k (Some (TextDelta t))) =
     bs[nat k := (case bs ! nat k of TextBlock u \<Rightarrow> TextBlock (u @ t) | b \<Rightarrow> b)]"
| "collect bs (ContentBlockDelta k (Some (InputJSONDelta t))) =
     bs[nat k := (case bs ! nat k of ToolUseBlock i n u \<Rightarrow> ToolUseBlock i n (u @ t) | b \<Rightarrow> b)]"
| "collect bs _ = bs"

fun finish_input :: "content_block \<Rightarrow> content_block" where
  "finish_input (ToolUseBlock i n u) = ToolUseBlock i n (if u = [] then ''{}'' else u)"
| "finish_input b = b"

definition collected :: "stream_event list \<Rightarrow> content_block list" where
  "collected evs = map finish_input (foldl collect [] evs)"

text \<open>What a Chat client collects: the text and the tool calls by their index.\<close>

fun merge_call :: "int \<Rightarrow> string \<Rightarrow> string \<Rightarrow> string \<Rightarrow> (int \<times> tool_call) list \<Rightarrow> (int \<times> tool_call) list" where
  "merge_call k i n args [] = [(k, \<lparr>tl_ID = i, tl_Name = n, tl_Arguments = args\<rparr>)]"
| "merge_call k i n args ((k', c) # calls) =
     (if k' = k then (k', c\<lparr>tl_Arguments := tl_Arguments c @ args\<rparr>) # calls else (k', c) # merge_call k i n args calls)"

definition merge_delta :: "(int \<times> tool_call) list \<Rightarrow> tool_call_delta \<Rightarrow> (int \<times> tool_call) list" where
  "merge_delta calls tc =
     (case td_Function tc of None \<Rightarrow> calls | Some (n, args) \<Rightarrow> merge_call (td_Index tc) (td_ID tc) n args calls)"

definition content_text :: "chunk_choice \<Rightarrow> string" where
  "content_text ch = (case as_string (cc_Content ch) of Some t \<Rightarrow> t | None \<Rightarrow> [])"

definition merge_choice :: "string \<times> (int \<times> tool_call) list \<Rightarrow> chunk_choice \<Rightarrow> string \<times> (int \<times> tool_call) list" where
  "merge_choice st ch = (fst st @ content_text ch, foldl merge_delta (snd st) (cc_ToolCalls ch))"

definition assembled :: "chunk_choice list \<Rightarrow> response_message" where
  "assembled chs =
     (let st = foldl merge_choice ([], []) chs
      in \<lparr>rm_Content = RawString (fst st), rm_ToolCalls = map snd (snd st), rm_Refusal = None, rm_Audio = False\<rparr>)"

definition body_choices :: "(string \<Rightarrow> chunk_payload) \<Rightarrow> string list \<Rightarrow> chunk_choice list" where
  "body_choices decode ds =
     concat (map (\<lambda>d. if trim_space d = [] then []
                      else case decode (trim_space d) of ChunkPayload c \<Rightarrow> take 1 (ck_Choices c) | _ \<Rightarrow> []) ds)"

text \<open>
  An orderly stream: no text after a tool call, every delta of a tool call has its function, and the first one
  of an index an id or a name.
\<close>

definition orderly_delta :: "(int \<times> tool_call) list \<Rightarrow> tool_call_delta \<Rightarrow> bool" where
  "orderly_delta calls tc =
     (case td_Function tc of
        None \<Rightarrow> False
      | Some (n, args) \<Rightarrow> map_of calls (td_Index tc) \<noteq> None \<or> td_ID tc \<noteq> [] \<or> n \<noteq> [])"

fun orderly_deltas :: "(int \<times> tool_call) list \<Rightarrow> tool_call_delta list \<Rightarrow> bool" where
  "orderly_deltas calls [] = True"
| "orderly_deltas calls (tc # tcs) = (orderly_delta calls tc \<and> orderly_deltas (merge_delta calls tc) tcs)"

fun orderly :: "string \<times> (int \<times> tool_call) list \<Rightarrow> chunk_choice list \<Rightarrow> bool" where
  "orderly st [] = True"
| "orderly st (ch # chs) =
     ((content_text ch = [] \<or> snd st = []) \<and> orderly_deltas (snd st) (cc_ToolCalls ch) \<and> orderly (merge_choice st ch) chs)"

text \<open>The blocks a client has collected, and the state of the translator, for what the chunks assemble to.\<close>

definition text_blocks :: "string \<Rightarrow> content_block list" where
  "text_blocks text = (if text = [] then [] else [TextBlock text])"

definition call_block :: "int \<times> tool_call \<Rightarrow> content_block" where
  "call_block p = ToolUseBlock (tl_ID (snd p)) (tl_Name (snd p)) (tl_Arguments (snd p))"

definition blocks_of :: "string \<times> (int \<times> tool_call) list \<Rightarrow> content_block list" where
  "blocks_of st = text_blocks (fst st) @ map call_block (snd st)"

definition tool_map :: "string \<times> (int \<times> tool_call) list \<Rightarrow> (int \<times> int) list" where
  "tool_map st = zip (map fst (snd st)) (map int [length (text_blocks (fst st))..<length (blocks_of st)])"

definition collects :: "chat_to_messages \<Rightarrow> string \<times> (int \<times> tool_call) list \<Rightarrow> bool" where
  "collects s st \<longleftrightarrow>
     cm_nextIndex s = int (length (blocks_of st)) \<and> distinct (map fst (snd st)) \<and> cm_openTools s = tool_map st \<and>
     (if snd st \<noteq> [] then cm_curKind s = blockTool
      else if fst st \<noteq> [] then cm_curKind s = blockText \<and> cm_curIndex s = 0 else cm_curKind s = blockNone)"

lemma merge_call_keys: "map fst (merge_call k i n args calls) = map fst calls @ (if map_of calls k = None then [k] else [])"
  by (induction calls) auto

lemma merge_call_new:
  "map_of calls k = None \<Longrightarrow> merge_call k i n args calls = calls @ [(k, \<lparr>tl_ID = i, tl_Name = n, tl_Arguments = args\<rparr>)]"
  by (induction calls) (auto split: if_splits)

lemma merge_call_old:
  "distinct (map fst calls) \<Longrightarrow> p < length calls \<Longrightarrow> calls ! p = (k, c) \<Longrightarrow>
     merge_call k i n args calls = calls[p := (k, c\<lparr>tl_Arguments := tl_Arguments c @ args\<rparr>)]"
proof (induction calls arbitrary: p)
  case (Cons a calls)
  show ?case
  proof (cases p)
    case (Suc q)
    then have q: "q < length calls" "calls ! q = (k, c)" using Cons.prems by auto
    then have "(k, c) \<in> set calls" by (metis nth_mem)
    then have "fst a \<noteq> k" using Cons.prems(1) image_eqI [of k fst "(k, c)" "set calls"] by auto
    then show ?thesis using Cons.IH [OF _ q] Cons.prems(1) Suc by (cases a) simp
  qed (use Cons.prems in auto)
qed simp

lemma collects_content:
  assumes "collects s st" "content_text ch = [] \<or> snd st = []" "handleContent (cc_Content ch) s = (s', out)"
  shows "collects s' (fst st @ content_text ch, snd st) \<and> foldl collect (blocks_of st) out = blocks_of (fst st @ content_text ch, snd st)"
proof (cases "content_text ch = []")
  case True
  then have "s' = s \<and> out = []" using assms(3) by (auto simp: content_text_def handleContent_def split: option.splits)
  then show ?thesis using assms(1) True by simp
next
  case False
  with assms(2) have c: "snd st = []" by simp
  from False have t: "as_string (cc_Content ch) = Some (content_text ch)"
    by (auto simp: content_text_def split: option.splits)
  show ?thesis
    using assms(1,3) False c t
    by (auto simp: handleContent_def collects_def blocks_of_def text_blocks_def tool_map_def closeCurrent_def openText_def
        split: if_splits)
qed

lemma call_position:
  assumes "map_of calls k = Some c" "distinct (map fst calls)"
  obtains p where "p < length calls" "calls ! p = (k, c)"
  using assms map_of_SomeD [of calls k c] that by (auto simp: in_set_conv_nth)

lemma tool_map_find:
  assumes "collects s st" "p < length (snd st)" "snd st ! p = (k, c)"
  shows "map_of (cm_openTools s) k = Some (int (length (text_blocks (fst st)) + p))"
proof -
  have "map_of (zip (map fst (snd st)) (map int [length (text_blocks (fst st))..<length (blocks_of st)]))
      (map fst (snd st) ! p) = Some (map int [length (text_blocks (fst st))..<length (blocks_of st)] ! p)"
    by (rule map_of_zip_nth) (use assms in \<open>auto simp: collects_def blocks_of_def\<close>)
  then show ?thesis using assms by (simp add: collects_def tool_map_def blocks_of_def)
qed

lemma tool_map_none: "map_of calls k = None \<Longrightarrow> map_of (tool_map (text, calls)) k = None"
  by (auto simp: tool_map_def map_of_eq_None_iff dest: set_zip_leftD)

text \<open>More arguments of a known tool call.\<close>

lemma collects_args:
  assumes "collects s (text, calls)" "map_of calls k = Some c"
  shows "collects s (text, merge_call k i n args calls) \<and>
    (\<exists>idx. map_of (cm_openTools s) k = Some idx \<and>
       collect (blocks_of (text, calls)) (ContentBlockDelta idx (Some (InputJSONDelta args))) =
         blocks_of (text, merge_call k i n args calls)) \<and> (args = [] \<longrightarrow> merge_call k i n args calls = calls)"
proof -
  have dist: "distinct (map fst calls)" using assms(1) by (simp add: collects_def)
  obtain p where p: "p < length calls" "calls ! p = (k, c)" using call_position [OF assms(2) dist] .
  let ?c = "c\<lparr>tl_Arguments := tl_Arguments c @ args\<rparr>"
  have m: "merge_call k i n args calls = calls[p := (k, ?c)]" by (rule merge_call_old [OF dist p])
  have keys: "map fst (calls[p := (k, ?c)]) = map fst calls"
    using p by (metis fst_conv list_update_id map_update)
  have "collects s (text, calls[p := (k, ?c)])"
    using assms(1) keys p by (auto simp: collects_def tool_map_def blocks_of_def)
  moreover have "map_of (cm_openTools s) k = Some (int (length (text_blocks text) + p))"
    using tool_map_find [OF assms(1)] p by simp
  moreover have "blocks_of (text, calls) ! (length (text_blocks text) + p) = call_block (k, c)"
    using p by (simp add: blocks_of_def nth_append)
  then have "collect (blocks_of (text, calls)) (ContentBlockDelta (int (length (text_blocks text) + p)) (Some (InputJSONDelta args))) =
      blocks_of (text, calls[p := (k, ?c)])"
    by (simp add: blocks_of_def call_block_def list_update_append map_update nat_int_add del: of_nat_add)
  moreover have "args = [] \<longrightarrow> calls[p := (k, ?c)] = calls" using p by (metis (no_types) append_Nil2 list_update_id tool_call.surjective tool_call.update_convs(3))
  ultimately show ?thesis unfolding m by blast
qed

text \<open>The first delta of a tool call.\<close>

lemma collects_opening:
  assumes "collects s (text, calls)" "map_of calls k = None"
    "(if cm_curKind s = blockText then closeCurrent s else (s, [])) = (s1, e1)"
  shows "map_of (cm_openTools s1) k = None \<and> foldl collect (blocks_of (text, calls)) e1 = blocks_of (text, calls) \<and>
    collects (fst (openTool k i n s1)) (text, calls @ [(k, \<lparr>tl_ID = i, tl_Name = n, tl_Arguments = []\<rparr>)]) \<and>
    foldl collect (blocks_of (text, calls)) (snd (openTool k i n s1)) =
      blocks_of (text, calls @ [(k, \<lparr>tl_ID = i, tl_Name = n, tl_Arguments = []\<rparr>)])"
proof -
  have none: "map_of (tool_map (text, calls)) k = None" by (rule tool_map_none [OF assms(2)])
  have s1: "cm_openTools s1 = tool_map (text, calls) \<and> cm_nextIndex s1 = int (length (blocks_of (text, calls))) \<and>
      foldl collect (blocks_of (text, calls)) e1 = blocks_of (text, calls)"
    using assms(1,3) by (auto simp: collects_def closeCurrent_def split: if_splits)
  have "tool_map (text, calls) @ [(k, int (length (blocks_of (text, calls))))] =
      tool_map (text, calls @ [(k, \<lparr>tl_ID = i, tl_Name = n, tl_Arguments = []\<rparr>)])"
    by (simp add: tool_map_def blocks_of_def)
  moreover have "k \<notin> fst ` set calls" using assms(2) by (simp add: map_of_eq_None_iff)
  ultimately show ?thesis
    using s1 none assms(1)
    by (auto simp: openTool_def collects_def update_new blocks_of_def call_block_def)
qed

lemma merge_call_opened:
  "map_of calls k = None \<Longrightarrow>
     merge_call k i n args (calls @ [(k, \<lparr>tl_ID = i, tl_Name = n, tl_Arguments = []\<rparr>)]) = merge_call k i n args calls"
  by (induction calls) (auto split: if_splits)

lemma collects_call:
  assumes "collects s (text, calls)" "orderly_delta calls tc"
  shows "\<exists>s' out. handle_tool_call tc s = Some (s', out) \<and> collects s' (text, merge_delta calls tc) \<and>
    foldl collect (blocks_of (text, calls)) out = blocks_of (text, merge_delta calls tc)"
proof -
  obtain n args where f: "td_Function tc = Some (n, args)" using assms(2) by (auto simp: orderly_delta_def split: option.splits)
  let ?k = "td_Index tc" and ?i = "td_ID tc"
  have merged: "merge_delta calls tc = merge_call ?k ?i n args calls" by (simp add: merge_delta_def f)
  show ?thesis
  proof (cases "map_of calls ?k")
    case (Some c)
    from Some have "calls \<noteq> []" by auto
    with assms(1) have "cm_curKind s = blockTool" by (simp add: collects_def)
    moreover from collects_args [OF assms(1) Some, of ?i n args] obtain idx where
      a: "collects s (text, merge_call ?k ?i n args calls)" "map_of (cm_openTools s) ?k = Some idx"
      "collect (blocks_of (text, calls)) (ContentBlockDelta idx (Some (InputJSONDelta args))) =
         blocks_of (text, merge_call ?k ?i n args calls)"
      "args = [] \<longrightarrow> merge_call ?k ?i n args calls = calls"
      by blast
    ultimately have "handle_tool_call tc s =
        Some (s, if args = [] then [] else [ContentBlockDelta idx (Some (InputJSONDelta args))])"
      by (simp add: handle_tool_call_def f Let_def)
    then show ?thesis using a merged by (cases "args = []") auto
  next
    case None
    obtain s1 e1 where pre: "(if cm_curKind s = blockText then closeCurrent s else (s, [])) = (s1, e1)" by fastforce
    obtain s2 e2 where o: "openTool ?k ?i n s1 = (s2, e2)" by fastforce
    let ?calls = "calls @ [(?k, \<lparr>tl_ID = ?i, tl_Name = n, tl_Arguments = []\<rparr>)]"
    from collects_opening [OF assms(1) None pre, of ?i n] o have
      1: "map_of (cm_openTools s1) ?k = None" "foldl collect (blocks_of (text, calls)) e1 = blocks_of (text, calls)"
      "collects s2 (text, ?calls)" "foldl collect (blocks_of (text, calls)) e2 = blocks_of (text, ?calls)"
      by auto
    have "map_of ?calls ?k = Some \<lparr>tl_ID = ?i, tl_Name = n, tl_Arguments = []\<rparr>" using None by (simp add: map_add_def)
    from collects_args [OF 1(3) this, of ?i n args] obtain idx where
      a: "collects s2 (text, merge_call ?k ?i n args calls)" "map_of (cm_openTools s2) ?k = Some idx"
      "collect (blocks_of (text, ?calls)) (ContentBlockDelta idx (Some (InputJSONDelta args))) =
         blocks_of (text, merge_call ?k ?i n args calls)"
      "args = [] \<longrightarrow> merge_call ?k ?i n args calls = ?calls"
      unfolding merge_call_opened [OF None] by blast
    have "?i \<noteq> [] \<or> n \<noteq> []" using assms(2) None by (simp add: orderly_delta_def f)
    then have "handle_tool_call tc s =
        Some (s2, e1 @ e2 @ (if args = [] then [] else [ContentBlockDelta idx (Some (InputJSONDelta args))]))"
      using a(2) by (simp add: handle_tool_call_def f Let_def pre 1(1) o)
    then show ?thesis using a 1 merged by (cases "args = []") auto
  qed
qed

lemma collects_calls:
  "collects s (text, calls) \<Longrightarrow> orderly_deltas calls tcs \<Longrightarrow>
     \<exists>s' out. handleToolCalls tcs s = Some (s', out) \<and> collects s' (text, foldl merge_delta calls tcs) \<and>
       foldl collect (blocks_of (text, calls)) out = blocks_of (text, foldl merge_delta calls tcs)"
proof (induction tcs arbitrary: s calls)
  case (Cons tc tcs)
  from collects_call [OF Cons.prems(1), of tc] Cons.prems(2) obtain s1 e1 where
    1: "handle_tool_call tc s = Some (s1, e1)" "collects s1 (text, merge_delta calls tc)"
    "foldl collect (blocks_of (text, calls)) e1 = blocks_of (text, merge_delta calls tc)"
    by auto
  from Cons.IH [OF 1(2)] Cons.prems(2) obtain s2 e2 where
    "handleToolCalls tcs s1 = Some (s2, e2)" "collects s2 (text, foldl merge_delta (merge_delta calls tc) tcs)"
    "foldl collect (blocks_of (text, merge_delta calls tc)) e2 = blocks_of (text, foldl merge_delta (merge_delta calls tc) tcs)"
    by auto
  with 1 show ?case by auto
qed simp

lemma collects_other:
  "collects (s\<lparr>cm_stopRaw := r\<rparr>) st = collects s st" "collects (absorb_chunk c s) st = collects s st"
  by (simp_all add: collects_def absorb_chunk_def Let_def split: option.splits)

lemma collects_choice:
  assumes "collects s st" "orderly st (take 1 chs)"
  shows "\<exists>s' out. translate_choice chs s = Some (s', out) \<and> collects s' (foldl merge_choice st (take 1 chs)) \<and>
    foldl collect (blocks_of st) out = blocks_of (foldl merge_choice st (take 1 chs))"
proof (cases chs)
  case Nil
  then show ?thesis using assms by (simp add: translate_choice_def)
next
  case (Cons ch rest)
  obtain s1 e1 where c: "handleContent (cc_Content ch) s = (s1, e1)" by fastforce
  from collects_content [OF assms(1) _ c] assms(2) Cons have
    1: "collects s1 (fst st @ content_text ch, snd st)" "foldl collect (blocks_of st) e1 = blocks_of (fst st @ content_text ch, snd st)"
    by auto
  from collects_calls [OF 1(1), of "cc_ToolCalls ch"] assms(2) Cons obtain s2 e2 where
    "handleToolCalls (cc_ToolCalls ch) s1 = Some (s2, e2)" "collects s2 (merge_choice st ch)"
    "foldl collect (blocks_of (fst st @ content_text ch, snd st)) e2 = blocks_of (merge_choice st ch)"
    by (auto simp: merge_choice_def)
  with 1 Cons c show ?thesis by (auto simp: translate_choice_def collects_other split: option.split)
qed

lemma collects_start: "collects s st \<Longrightarrow> ensureStarted s = (s', out) \<Longrightarrow> collects s' st \<and> foldl collect bs out = bs"
  by (auto simp: ensureStarted_def collects_def split: if_splits)

lemma collects_translate:
  assumes "collects s st" "orderly st (body_choices decode [d])"
  shows "\<exists>s' out. chat_Translate decode s d = Some (s', out) \<and> collects s' (foldl merge_choice st (body_choices decode [d])) \<and>
    foldl collect (blocks_of st) out = blocks_of (foldl merge_choice st (body_choices decode [d]))"
proof (cases "trim_space d = [] \<or> (\<forall>c. decode (trim_space d) \<noteq> ChunkPayload c)")
  case True
  then show ?thesis
    using assms(1) by (cases "decode (trim_space d)") (auto simp: chat_Translate_def body_choices_def)
next
  case False
  then obtain c where c: "trim_space d \<noteq> []" "decode (trim_space d) = ChunkPayload c" by auto
  obtain s1 e1 where e: "ensureStarted (absorb_chunk c s) = (s1, e1)" by fastforce
  have b: "body_choices decode [d] = take 1 (ck_Choices c)" using c by (simp add: body_choices_def)
  from collects_start [OF _ e, of st "blocks_of st"] assms(1) have
    1: "collects s1 st" "foldl collect (blocks_of st) e1 = blocks_of st"
    by (auto simp: collects_other)
  from collects_choice [OF 1(1), of "ck_Choices c"] assms(2) b obtain s2 e2 where
    "translate_choice (ck_Choices c) s1 = Some (s2, e2)" "collects s2 (foldl merge_choice st (take 1 (ck_Choices c)))"
    "foldl collect (blocks_of st) e2 = blocks_of (foldl merge_choice st (take 1 (ck_Choices c)))"
    by auto
  with 1 c e b show ?thesis by (auto simp: chat_Translate_def Let_def)
qed

lemma orderly_append: "orderly st (xs @ ys) \<longleftrightarrow> orderly st xs \<and> orderly (foldl merge_choice st xs) ys"
  by (induction xs arbitrary: st) auto

lemma body_choices_Cons: "body_choices decode (d # ds) = body_choices decode [d] @ body_choices decode ds"
  by (simp add: body_choices_def)

lemma collects_feed:
  "collects s st \<Longrightarrow> orderly st (body_choices decode ds) \<Longrightarrow>
     \<exists>s' out. feed (chat_Translate decode) s ds = Some (s', out) \<and> collects s' (foldl merge_choice st (body_choices decode ds)) \<and>
       foldl collect (blocks_of st) out = blocks_of (foldl merge_choice st (body_choices decode ds))"
proof (induction ds arbitrary: s st)
  case (Cons d ds)
  from Cons.prems(2) have o: "orderly st (body_choices decode [d])"
    "orderly (foldl merge_choice st (body_choices decode [d])) (body_choices decode ds)"
    by (simp_all add: body_choices_Cons [of decode d ds] orderly_append)
  from collects_translate [OF Cons.prems(1) o(1)] obtain s1 e1 where
    1: "chat_Translate decode s d = Some (s1, e1)" "collects s1 (foldl merge_choice st (body_choices decode [d]))"
    "foldl collect (blocks_of st) e1 = blocks_of (foldl merge_choice st (body_choices decode [d]))"
    by auto
  from Cons.IH [OF 1(2) o(2)] 1 show ?case by (auto simp: body_choices_Cons [of decode d ds])
qed (simp add: body_choices_def)

lemma collect_Close: "foldl collect bs (snd (chat_Close s)) = bs"
proof -
  have stops: "foldl collect bs (map ContentBlockStop xs) = bs" for xs bs by (induction xs) auto
  show ?thesis
    by (auto simp: chat_Close_def ensureStarted_def closeCurrent_def closeTools_def stops split: prod.splits block_kind.splits if_splits)
qed



section \<open>The framing of a Chat stream\<close>

text \<open>
  The role chunk first, then content and tool calls numbered 0, 1, 2, ..., arguments only for a call that has
  begun, one finish reason, one usage chunk without choices, the \<^verbatim>\<open>[DONE]\<close> sentinel, then nothing. Error
  frames may come before the finish reason, also before the role.
\<close>

datatype chat_phase = AwaitRole | Streaming nat | Finished | UsageSent | StreamDone

definition fits_delta :: "nat \<Rightarrow> chunk_choice \<Rightarrow> chat_phase option" where
  "fits_delta n ch =
     (if cc_Role ch \<noteq> [] then None
      else if cc_FinishReason ch \<noteq> None
           then (if cc_Content ch = RawAbsent \<and> cc_ToolCalls ch = [] then Some Finished else None)
      else case cc_ToolCalls ch of
             [] \<Rightarrow> (case cc_Content ch of RawString t \<Rightarrow> if t \<noteq> [] then Some (Streaming n) else None | _ \<Rightarrow> None)
           | [tc] \<Rightarrow>
               (case td_Function tc of
                  None \<Rightarrow> None
                | Some (name, args) \<Rightarrow>
                    if cc_Content ch \<noteq> RawAbsent then None
                    else if td_Index tc = int n \<and> args = [] then Some (Streaming (n + 1))
                    else if 0 \<le> td_Index tc \<and> td_Index tc < int n \<and> td_ID tc = [] \<and> name = [] then Some (Streaming n)
                    else None)
           | _ \<Rightarrow> None)"

fun chat_framing :: "chat_phase \<Rightarrow> chat_frame \<Rightarrow> chat_phase option" where
  "chat_framing AwaitRole (ChunkFrame c) =
     (if ck_ID c \<noteq> [] \<and> ck_Choices c = [empty_choice\<lparr>cc_Role := ''assistant''\<rparr>] \<and> ck_Usage c = None then Some (Streaming 0) else None)"
| "chat_framing AwaitRole (ErrorFrame _ _) = Some AwaitRole"
| "chat_framing (Streaming n) (ErrorFrame _ _) = Some (Streaming n)"
| "chat_framing (Streaming n) (ChunkFrame c) =
     (case ck_Choices c of [ch] \<Rightarrow> if ck_ID c \<noteq> [] \<and> ck_Usage c = None then fits_delta n ch else None | _ \<Rightarrow> None)"
| "chat_framing Finished (ChunkFrame c) =
     (if ck_ID c \<noteq> [] \<and> ck_Choices c = [] \<and> ck_Usage c \<noteq> None then Some UsageSent else None)"
| "chat_framing UsageSent DoneFrame = Some StreamDone"
| "chat_framing _ _ = None"

definition messages_tracks :: "messages_to_chat \<Rightarrow> chat_phase \<Rightarrow> bool" where
  "messages_tracks s p \<longleftrightarrow>
     p = (if mt_roleEmitted s then Streaming (nat (mt_nextToolIndex s)) else AwaitRole) \<and> 0 \<le> mt_nextToolIndex s \<and>
     (if mt_roleEmitted s then mt_curKind s = blockTool \<longrightarrow> 0 \<le> mt_curToolIndex s \<and> mt_curToolIndex s < mt_nextToolIndex s
      else mt_curKind s = blockNone \<and> mt_nextToolIndex s = 0)"

lemma chunk_framed:
  "chat_framing AwaitRole (mt_chunk s [\<lparr>cc_Role = ''assistant'', cc_Content = RawAbsent, cc_ToolCalls = [], cc_FinishReason = None\<rparr>] None) =
     Some (Streaming 0)"
  "chat_framing (Streaming n) (mt_chunk s [ch] None) = fits_delta n ch"
  "chat_framing Finished (mt_chunk s [] (Some u)) = Some UsageSent"
  by (simp_all add: mt_chunk_def)

lemma frame_role:
  "messages_tracks s p \<Longrightarrow> ensureRole s = (s', out) \<Longrightarrow>
     \<exists>p'. accepts chat_framing p out = Some p' \<and> messages_tracks s' p' \<and> mt_roleEmitted s'"
  by (auto simp: ensureRole_def messages_tracks_def chunk_framed split: if_splits)

lemma frame_block_start:
  assumes "messages_tracks s p" "handleBlockStart blk s = (s', out)"
  shows "\<exists>p'. accepts chat_framing p out = Some p' \<and> messages_tracks s' p'"
proof -
  obtain s1 e1 where r: "ensureRole s = (s1, e1)" by fastforce
  from frame_role [OF assms(1) r] obtain p1 where
    p1: "accepts chat_framing p e1 = Some p1" "messages_tracks s1 p1" "mt_roleEmitted s1" by auto
  have p1': "p1 = Streaming (nat (mt_nextToolIndex s1))" "0 \<le> mt_nextToolIndex s1"
    using p1(2,3) by (auto simp: messages_tracks_def)
  show ?thesis
  proof (cases blk)
    case None
    then show ?thesis using assms(2) r p1 p1' by (auto simp: handleBlockStart_def messages_tracks_def)
  next
    case (Some b)
    then show ?thesis
      using assms(2) r p1 p1'
      by (cases b)
         (auto simp: handleBlockStart_def messages_tracks_def accepts_append emitContent_def emitToolStart_def chunk_framed
           fits_delta_def Let_def nat_add_distrib split: if_splits)
  qed
qed

lemma frame_block_delta:
  "messages_tracks s p \<Longrightarrow> accepts chat_framing p (handleBlockDelta d s) = Some p"
  by (auto simp: handleBlockDelta_def messages_tracks_def emitContent_def emitToolArgs_def chunk_framed fits_delta_def
      split: option.splits block_delta.splits if_splits)

lemma messages_tracks_absorb:
  "messages_tracks (absorb_start m s) p = messages_tracks s p"
  "messages_tracks (absorb_delta stop i n s) p = messages_tracks s p"
  by (simp_all add: absorb_start_def absorb_delta_def messages_tracks_def Let_def)

lemma frame_event:
  assumes "messages_tracks s p" "handle_event ev s = (s', out)"
  shows "\<exists>p'. accepts chat_framing p out = Some p' \<and> messages_tracks s' p'"
proof (cases ev)
  case (MessageStart m)
  with assms frame_role [of "absorb_start m s" p s' out] show ?thesis by (auto simp: messages_tracks_absorb)
next
  case (ContentBlockStart i b)
  with assms frame_block_start show ?thesis by auto
next
  case (ContentBlockDelta i d)
  with assms frame_block_delta show ?thesis by auto
next
  case (ErrorEvent e)
  with assms show ?thesis by (cases "mt_roleEmitted s") (auto simp: messages_tracks_def)
qed (use assms in \<open>auto simp: messages_tracks_absorb, auto simp: messages_tracks_def split: if_splits\<close>)

lemma frame_translate:
  "messages_tracks s p \<Longrightarrow> messages_Translate decode s d = Some (s', out) \<Longrightarrow>
     \<exists>p'. accepts chat_framing p out = Some p' \<and> messages_tracks s' p'"
  using frame_event by (fastforce simp: messages_Translate_def Let_def split: if_splits option.splits)

lemma frame_Close:
  assumes "messages_tracks s p"
  shows "\<exists>p'. accepts chat_framing p (snd (messages_Close s)) = Some p' \<and> p' = StreamDone"
proof -
  obtain s1 e1 where r: "ensureRole s = (s1, e1)" by fastforce
  from frame_role [OF assms r] obtain p1 where
    "accepts chat_framing p e1 = Some p1" "messages_tracks s1 p1" "mt_roleEmitted s1" by auto
  then show ?thesis
    using r by (auto simp: messages_Close_def accepts_append chunk_framed messages_tracks_def fits_delta_def)
qed

interpretation chat_frames:
  framed_translator "messages_Translate decode" messages_Close chat_framing messages_tracks "\<lambda>p. p = StreamDone" for decode
  by unfold_locales (auto intro: frame_translate simp: frame_Close)

lemma messages_tracks_new: "messages_tracks new_messages_to_chat AwaitRole"
  by (simp add: messages_tracks_def new_messages_to_chat_def)

lemma messages_never_crashes: "snd (read_translated (messages_Translate decode) messages_Close s broken body) \<noteq> Crashed"
proof -
  have "snd (drain (messages_Translate decode) messages_Close broken rest ls s) \<noteq> Crashed" for rest ls
  proof (induction "length ls" arbitrary: ls s rule: less_induct)
    case less
    obtain data ls' at_end where n: "nextEvent ls rest None = (data, ls', at_end)" by (cases "nextEvent ls rest None")
    have t: "(messages_Translate decode s d = None) = False" for d by (simp add: messages_Translate_def Let_def split: option.split)
    have "\<not> at_end \<Longrightarrow> length ls' < length ls" using nextEvent_shorter [of ls rest None data ls'] n by simp
    then have ih: "\<not> at_end \<Longrightarrow> snd (drain (messages_Translate decode) messages_Close broken rest ls' s') \<noteq> Crashed" for s'
      using less.hyps by blast
    show ?case
      by (subst drain.simps) (use n ih in \<open>simp add: t split_beta split: option.split\<close>)
  qed
  then show ?thesis by (simp add: read_translated_def split: prod.split)
qed

text \<open>
  C29. Whatever the Messages stream of an upstream contains, the Chat stream the client reads is well framed, the
  tool calls numbered on their own; when the body is read to its end it is closed by \<^verbatim>\<open>[DONE]\<close>, and no
  payload crashes this translator.
\<close>

theorem translated_chat_framed:
  assumes "read_translated (messages_Translate decode) messages_Close new_messages_to_chat broken body = (out, e)"
  shows "\<exists>p. accepts chat_framing AwaitRole out = Some p \<and> (e = CleanEnd \<longrightarrow> p = StreamDone) \<and> e \<noteq> Crashed"
  using chat_frames.read_framed [OF messages_tracks_new assms] messages_never_crashes [of decode new_messages_to_chat broken body]
  by (auto simp: assms)

definition sample_event :: "string \<Rightarrow> stream_event option" where
  "sample_event p =
     (if p = ''a'' then Some (ContentBlockStart 0 (Some (TextBlock ''Hi'')))
      else if p = ''b'' then Some (ContentBlockStart 1 (Some (ToolUseBlock ''t1'' ''f'' [])))
      else if p = ''c'' then Some (ContentBlockDelta 1 (Some (InputJSONDelta ''{}'')))
      else None)"

lemma translated_chat_framed_witness:
  "\<exists>out p. read_translated (messages_Translate sample_event) messages_Close new_messages_to_chat False
      (sample_body [''a'', ''b'', ''c'']) = (out, CleanEnd) \<and>
     length out = 7 \<and> accepts chat_framing AwaitRole out = Some p \<and> p = StreamDone"
proof -
  obtain out e where r: "read_translated (messages_Translate sample_event) messages_Close new_messages_to_chat False
      (sample_body [''a'', ''b'', ''c'']) = (out, e)"
    by fastforce
  have "map_prod length id (read_translated (messages_Translate sample_event) messages_Close new_messages_to_chat False
      (sample_body [''a'', ''b'', ''c''])) = (7, CleanEnd)"
    by code_simp
  with r have "length out = 7" "e = CleanEnd" by auto
  with r translated_chat_framed [OF r] show ?thesis by blast
qed

text \<open>
  Two tool calls of one Chat message are open side by side in the translated stream, and the other translator,
  which keeps a single current block, would mix up interleaved arguments.
\<close>

lemma tool_blocks_overlap:
  "\<exists>s evs. handleToolCalls
      [\<lparr>td_Index = 0, td_ID = ''t0'', td_Function = Some (''f'', [])\<rparr>, \<lparr>td_Index = 1, td_ID = ''t1'', td_Function = Some (''g'', [])\<rparr>,
       \<lparr>td_Index = 0, td_ID = [], td_Function = Some ([], ''{}'')\<rparr>] new_chat_to_messages = Some (s, evs) \<and>
     evs = [ContentBlockStart 0 (Some (ToolUseBlock ''t0'' ''f'' ''{}'')), ContentBlockStart 1 (Some (ToolUseBlock ''t1'' ''g'' ''{}'')),
            ContentBlockDelta 0 (Some (InputJSONDelta ''{}''))] \<and>
     (\<exists>c. last (snd (foldl (\<lambda>(t, out) e. case handle_event e t of (t', o') \<Rightarrow> (t', out @ o')) (new_messages_to_chat, []) evs)) = ChunkFrame c \<and>
        map (map td_Index \<circ> cc_ToolCalls) (ck_Choices c) = [[1]])"
  by (simp add: handle_tool_call_def openTool_def new_chat_to_messages_def new_messages_to_chat_def handleBlockStart_def
      ensureRole_def handleBlockDelta_def emitToolArgs_def emitToolStart_def mt_chunk_def Let_def)

end
