(* ===== verification/Translate_Stage.thy ===== *)
theory Translate_Stage
  imports Translate_Stream Destination
begin

text \<open>
  Where the gateway translates: the registry of \<^verbatim>\<open>internal/translate/translate.go\<close> with the two translators
  it holds, and the request and response legs of \<^verbatim>\<open>cmd/gateway/translate.go\<close> with the sink of drops. Decoding
  and encoding the bodies are fields of the record \<open>wire\<close>. The reader of a translated stream is its contents,
  \<open>read_stream\<close>. The refusals of the final handler when a pair has no translator are \<open>translation_gate\<close> of
  \<open>Destination\<close>.
\<close>

section \<open>The registry\<close>

text \<open>The two translators; both translate errors and streams.\<close>

datatype translator = anthropicOpenAIChat | openAIAnthropicChat

fun tr_Source :: "translator \<Rightarrow> string" where
  "tr_Source anthropicOpenAIChat = ''messages''"
| "tr_Source openAIAnthropicChat = ''chat''"

fun tr_Target :: "translator \<Rightarrow> string" where
  "tr_Target anthropicOpenAIChat = ''chat''"
| "tr_Target openAIAnthropicChat = ''messages''"

type_synonym tr_registry = "((string \<times> string) \<times> translator) list"

definition NewRegistry :: tr_registry where
  "NewRegistry = []"

text \<open>\<^verbatim>\<open>Register\<close>; \<open>None\<close> is a panic.\<close>

definition tr_Register :: "translator \<Rightarrow> tr_registry \<Rightarrow> tr_registry option" where
  "tr_Register t r =
     (if tr_Source t = tr_Target t then None
      else if map_of r (tr_Source t, tr_Target t) \<noteq> None then None
      else Some (((tr_Source t, tr_Target t), t) # r))"

definition tr_Lookup :: "tr_registry \<Rightarrow> string \<Rightarrow> string \<Rightarrow> translator option" where
  "tr_Lookup r src target = map_of r (src, target)"

definition defaultRegistry :: tr_registry where
  "defaultRegistry =
     (case tr_Register anthropicOpenAIChat NewRegistry of
        None \<Rightarrow> []
      | Some r \<Rightarrow> (case tr_Register openAIAnthropicChat r of None \<Rightarrow> [] | Some r' \<Rightarrow> r'))"

lemma lookup_default:
  "tr_Lookup defaultRegistry src target =
     (if src = ''messages'' \<and> target = ''chat'' then Some anthropicOpenAIChat
      else if src = ''chat'' \<and> target = ''messages'' then Some openAIAnthropicChat else None)"
  by (simp add: tr_Lookup_def defaultRegistry_def tr_Register_def NewRegistry_def)

definition translatorRegistered :: "mutable_state \<Rightarrow> bool" where
  "translatorRegistered s \<longleftrightarrow> tr_Lookup defaultRegistry (ms_SourceProtocol s) (ms_Protocol s) \<noteq> None"

section \<open>Bodies\<close>

text \<open>
  The wire format of the four bodies, decoding and encoding. \<^verbatim>\<open>wr_js\<close> is \<^verbatim>\<open>json.Compact\<close>, \<^verbatim>\<open>wr_error\<close>
  the message of a decoded error body, \<^verbatim>\<open>wr_stream\<close> the top-level \<^verbatim>\<open>stream\<close> flag, false when absent.
\<close>

record wire =
  wr_js :: "string \<Rightarrow> string option"
  wr_messages_request :: "string \<Rightarrow> messages_request option"
  wr_chat_request :: "string \<Rightarrow> chat_request option"
  wr_messages_response :: "string \<Rightarrow> messages_response option"
  wr_chat_response :: "string \<Rightarrow> chat_response option"
  wr_error :: "string \<Rightarrow> string option"
  wr_chunk :: "string \<Rightarrow> chunk_payload"
  wr_event :: "string \<Rightarrow> stream_event option"
  wr_stream :: "string \<Rightarrow> bool"
  wr_put_messages_request :: "messages_request \<Rightarrow> string"
  wr_put_chat_request :: "chat_request \<Rightarrow> string"
  wr_put_messages_response :: "messages_response \<Rightarrow> string"
  wr_put_chat_response :: "chat_response \<Rightarrow> string"
  wr_put_messages_error :: "stream_error \<Rightarrow> string"
  wr_put_chat_error :: "stream_error \<Rightarrow> string"
  wr_put_event :: "stream_event \<Rightarrow> string"
  wr_put_frame :: "chat_frame \<Rightarrow> string"

fun TranslateRequest :: "wire \<Rightarrow> translator \<Rightarrow> string \<Rightarrow> translate_error + string \<times> drop list" where
  "TranslateRequest w anthropicOpenAIChat body =
     (case wr_messages_request w body of
        None \<Rightarrow> Inl ErrDecode
      | Some src \<Rightarrow>
          (case translateMessagesRequestToChat src of
             Inl e \<Rightarrow> Inl e
           | Inr (dst, drops) \<Rightarrow> Inr (wr_put_chat_request w dst, drops)))"
| "TranslateRequest w openAIAnthropicChat body =
     (case wr_chat_request w body of
        None \<Rightarrow> Inl ErrDecode
      | Some src \<Rightarrow>
          (case translateChatRequestToMessages (wr_js w) src of
             Inl e \<Rightarrow> Inl e
           | Inr (dst, drops) \<Rightarrow> Inr (wr_put_messages_request w dst, drops)))"

fun TranslateResponse :: "wire \<Rightarrow> translator \<Rightarrow> string \<Rightarrow> translate_error + string \<times> drop list" where
  "TranslateResponse w anthropicOpenAIChat body =
     (case wr_chat_response w body of
        None \<Rightarrow> Inl ErrDecode
      | Some src \<Rightarrow>
          (case translateChatResponseToMessages (wr_js w) src of
             Inl e \<Rightarrow> Inl e
           | Inr (dst, drops) \<Rightarrow> Inr (wr_put_messages_response w dst, drops)))"
| "TranslateResponse w openAIAnthropicChat body =
     (case wr_messages_response w body of
        None \<Rightarrow> Inl ErrDecode
      | Some src \<Rightarrow>
          (case translateMessagesResponseToChat src of (dst, drops) \<Rightarrow> Inr (wr_put_chat_response w dst, drops)))"

fun TranslateError :: "wire \<Rightarrow> translator \<Rightarrow> int \<Rightarrow> string \<Rightarrow> string" where
  "TranslateError w anthropicOpenAIChat status body =
     wr_put_messages_error w (translateChatErrorToMessages status (wr_error w body))"
| "TranslateError w openAIAnthropicChat status body =
     wr_put_chat_error w (translateMessagesErrorToChat status (wr_error w body))"

text \<open>What a client reads from the translating reader over an upstream body: bytes, and how they end.\<close>

fun read_stream :: "wire \<Rightarrow> translator \<Rightarrow> bool \<Rightarrow> string \<Rightarrow> string \<times> read_end" where
  "read_stream w anthropicOpenAIChat broken body =
     (case read_translated (chat_Translate (wr_chunk w)) chat_Close new_chat_to_messages broken body of
        (evs, e) \<Rightarrow> (concat (map (wr_put_event w) evs), e))"
| "read_stream w openAIAnthropicChat broken body =
     (case read_translated (messages_Translate (wr_event w)) messages_Close new_messages_to_chat broken body of
        (frames, e) \<Rightarrow> (concat (map (wr_put_frame w) frames), e))"

section \<open>The request leg\<close>

text \<open>\<open>broken\<close> says that reading the inbound body fails. The drop sink of the request is a list.\<close>

record tr_request =
  tq_Body :: string
  tq_Header :: headers
  tq_ContentLength :: int

datatype leg_error = errNoTranslator | ErrRead | ErrTranslate translate_error

definition setRequestBody :: "string \<Rightarrow> tr_request \<Rightarrow> tr_request" where
  "setRequestBody body r =
     r\<lparr>tq_Body := body, tq_ContentLength := int (length body),
       tq_Header := header_set (tq_Header r) ''Content-Length'' (itoa (length body))\<rparr>"

definition translateRequestBody ::
  "wire \<Rightarrow> mutable_state \<Rightarrow> bool \<Rightarrow> tr_request \<Rightarrow> drop list \<Rightarrow> leg_error + bool \<times> tr_request \<times> drop list" where
  "translateRequestBody w s broken r sink =
     (if \<not> translationActive s then Inr (False, r, sink)
      else case tr_Lookup defaultRegistry (ms_SourceProtocol s) (ms_Protocol s) of
             None \<Rightarrow> Inl errNoTranslator
           | Some tr \<Rightarrow>
               if broken then Inl ErrRead
               else case TranslateRequest w tr (tq_Body r) of
                      Inl e \<Rightarrow> Inl (ErrTranslate e)
                    | Inr (out, drops) \<Rightarrow> Inr (wr_stream w out, setRequestBody out r, sink @ drops))"

section \<open>The response leg\<close>

text \<open>A body is bytes, or a translating reader over the upstream body.\<close>

datatype leg_body = Bytes string bool | Translating translator string bool

record tr_response =
  tp_StatusCode :: int
  tp_Header :: headers
  tp_Body :: leg_body
  tp_ContentLength :: int

definition replace_body :: "string \<Rightarrow> tr_response \<Rightarrow> tr_response" where
  "replace_body out resp =
     resp\<lparr>tp_Body := Bytes out False, tp_ContentLength := int (length out),
          tp_Header := header_set (tp_Header resp) ''Content-Length'' (itoa (length out))\<rparr>"

definition translateResponseBody ::
  "wire \<Rightarrow> mutable_state option \<Rightarrow> bool \<Rightarrow> tr_response \<Rightarrow> drop list \<Rightarrow> leg_error + tr_response \<times> drop list" where
  "translateResponseBody w state streaming resp sink =
     (case (state, tp_Body resp) of
        (Some s, Bytes body broken) \<Rightarrow>
          if \<not> translationActive s then Inr (resp, sink)
          else (case tr_Lookup defaultRegistry (ms_SourceProtocol s) (ms_Protocol s) of
                  None \<Rightarrow> Inr (resp, sink)
                | Some tr \<Rightarrow>
                    if tp_StatusCode resp \<ge> 400
                    then (if broken then Inl ErrRead
                          else let r = replace_body (TranslateError w tr (tp_StatusCode resp) body) resp
                               in Inr (r\<lparr>tp_Header := header_set (tp_Header r) ''Content-Type'' ''application/json''\<rparr>, sink))
                    else if streaming
                    then Inr (resp\<lparr>tp_Body := Translating tr body broken, tp_ContentLength := -1,
                                   tp_Header := header_set (header_del (tp_Header resp) ''Content-Length'')
                                                  ''Content-Type'' ''text/event-stream''\<rparr>, sink)
                    else if broken then Inl ErrRead
                    else (case TranslateResponse w tr body of
                            Inl e \<Rightarrow> Inl (ErrTranslate e)
                          | Inr (out, drops) \<Rightarrow> Inr (replace_body out resp, sink @ drops)))
      | _ \<Rightarrow> Inr (resp, sink))"

definition lossyHeaderName :: string where
  "lossyHeaderName = ''X-Slipspace-Translation-Lossy''"

definition uniqueFields :: "drop list \<Rightarrow> string" where
  "uniqueFields drops = join_with '', '' (sort (rev (remdups (rev (map dp_Field drops)))))"

text \<open>The increments of the drop counter and the response; \<open>metered\<close> says that the counter exists.\<close>

definition finalizeTranslationDrops ::
  "bool \<Rightarrow> bool \<Rightarrow> mutable_state option \<Rightarrow> drop list \<Rightarrow> tr_response \<Rightarrow> (string \<times> string \<times> string) list \<times> tr_response" where
  "finalizeTranslationDrops metered lossyHeader state sink resp =
     (case state of
        None \<Rightarrow> ([], resp)
      | Some s \<Rightarrow>
          if \<not> translationActive s \<or> sink = [] then ([], resp)
          else (if metered then map (\<lambda>d. (ms_SourceProtocol s, ms_Protocol s, dp_Field d)) sink else [],
                if lossyHeader then resp\<lparr>tp_Header := header_set (tp_Header resp) lossyHeaderName (uniqueFields sink)\<rparr>
                else resp))"

text \<open>\<open>rewrite\<close> stands for the response rewrites of the rules, which run first; \<open>None\<close> is their error.\<close>

definition newResponseBodyTransform ::
  "wire \<Rightarrow> bool \<Rightarrow> bool \<Rightarrow> (bool \<Rightarrow> tr_response \<Rightarrow> tr_response option) \<Rightarrow> mutable_state option \<Rightarrow> bool \<Rightarrow>
     tr_response \<Rightarrow> drop list \<Rightarrow> ((string \<times> string \<times> string) list \<times> tr_response) option" where
  "newResponseBodyTransform w metered lossyHeader rewrite state streaming resp sink =
     (case rewrite streaming resp of
        None \<Rightarrow> None
      | Some r1 \<Rightarrow>
          (case translateResponseBody w state streaming r1 sink of
             Inl e \<Rightarrow> None
           | Inr (r2, sink2) \<Rightarrow> Some (finalizeTranslationDrops metered lossyHeader state sink2 r2)))"

section \<open>Properties of the response leg\<close>

lemma content_keys:
  "canonical_key ''Content-Length'' = ''Content-Length''" "canonical_key ''Content-Type'' = ''Content-Type''"
  "canonical_key lossyHeaderName = lossyHeaderName"
  by code_simp+

text \<open>The length the response declares is that of its body, or none is declared for a stream.\<close>

definition framed_response :: "tr_response \<Rightarrow> bool" where
  "framed_response r =
     (case tp_Body r of
        Bytes out broken \<Rightarrow>
          \<not> broken \<and> tp_ContentLength r = int (length out) \<and> header_get (tp_Header r) ''Content-Length'' = itoa (length out)
      | Translating tr body broken \<Rightarrow>
          tp_ContentLength r = -1 \<and> header_get (tp_Header r) ''Content-Length'' = [] \<and>
          header_get (tp_Header r) ''Content-Type'' = ''text/event-stream'')"

lemma framed_replace: "framed_response (replace_body out resp)"
  by (simp add: framed_response_def replace_body_def header_laws)

lemma framed_other_header:
  "canonical_key k \<noteq> ''Content-Length'' \<Longrightarrow> canonical_key k \<noteq> ''Content-Type'' \<or> (\<exists>out b. tp_Body r = Bytes out b) \<Longrightarrow>
     framed_response (r\<lparr>tp_Header := header_set (tp_Header r) k v\<rparr>) = framed_response r"
  by (auto simp: framed_response_def header_laws content_keys split: leg_body.splits)


definition sample_wire :: wire where
  "sample_wire =
     \<lparr>wr_js = Some, wr_messages_request = (\<lambda>_. None), wr_chat_request = (\<lambda>_. None), wr_messages_response = (\<lambda>_. None),
      wr_chat_response = (\<lambda>_. None), wr_error = (\<lambda>_. Some ''slow down''), wr_chunk = (\<lambda>_. BadPayload), wr_event = (\<lambda>_. None),
      wr_stream = (\<lambda>_. False), wr_put_messages_request = (\<lambda>_. []), wr_put_chat_request = (\<lambda>_. []),
      wr_put_messages_response = (\<lambda>_. []), wr_put_chat_response = (\<lambda>_. []),
      wr_put_messages_error = (\<lambda>e. se_Type e @ '': '' @ se_Message e), wr_put_chat_error = (\<lambda>e. se_Message e),
      wr_put_event = (\<lambda>_. []), wr_put_frame = (\<lambda>_. [])\<rparr>"

definition sample_translation :: mutable_state where
  "sample_translation = (NewMutableState [] ''chat'' [] [])\<lparr>ms_SourceProtocol := ''messages''\<rparr>"

definition sample_upstream :: tr_response where
  "sample_upstream = \<lparr>tp_StatusCode = 429, tp_Header = [], tp_Body = Bytes ''{}'' False, tp_ContentLength = 2\<rparr>"


end
