(* ===== verification/Token_Usage.thy ===== *)
theory Token_Usage
  imports Prelude
begin

text \<open>
  Reading the usage out of a captured response: the two parsers of server-sent events
  (\<^verbatim>\<open>internal/middleware/sseframe\<close> and \<^verbatim>\<open>internal/observability/livefeed/accumulator/sse.go\<close>) over the
  lines \<^verbatim>\<open>bufio.Scanner\<close> yields, and the token extractors of \<^verbatim>\<open>internal/middleware/tokens\<close>. What a frame
  decodes to is an argument of the extractors, with the fields they read.
\<close>

section \<open>Lines\<close>

text \<open>
  \<^verbatim>\<open>bufio.Scanner\<close> with \<^verbatim>\<open>ScanLines\<close> and a buffer of \<^verbatim>\<open>maxFrameBytes\<close>: lines without their newline and one
  carriage return before it. A line that does not fit the buffer with its newline ends the scan.
\<close>

definition maxFrameBytes :: int where "maxFrameBytes = 4194304"

definition dropCR :: "string \<Rightarrow> string" where
  "dropCR line = (if line \<noteq> [] \<and> last line = CHR 0x0D then butlast line else line)"

fun take_lines :: "string list \<Rightarrow> string list" where
  "take_lines [] = []"
| "take_lines (l # ls) = (if int (length l) < maxFrameBytes then dropCR l # take_lines ls else [])"

text \<open>The pieces between the newlines; an empty last piece is no line.\<close>

definition raw_lines :: "string \<Rightarrow> string list" where
  "raw_lines raw = (let ps = split_on (CHR 0x0A) raw in if last ps = [] then butlast ps else ps)"

definition scan_lines :: "string \<Rightarrow> string list" where
  "scan_lines raw = take_lines (raw_lines raw)"

abbreviation newline :: string where "newline \<equiv> [CHR 0x0A]"

text \<open>\<^verbatim>\<open>TrimPrefix\<close>, and the value of a data line.\<close>

definition trim_prefix :: "string \<Rightarrow> string \<Rightarrow> string" where
  "trim_prefix s p = (if has_prefix s p then drop (length p) s else s)"

definition data_value :: "string \<Rightarrow> string" where
  "data_value line = trim_prefix (trim_prefix line ''data:'') '' ''"

section \<open>The frames of a response\<close>

fun looksLikeJSON :: "string \<Rightarrow> bool" where
  "looksLikeJSON [] = False"
| "looksLikeJSON (b # raw) =
     (if b \<in> {CHR '' '', CHR 0x09, CHR 0x0A, CHR 0x0D} then looksLikeJSON raw else b = CHR ''{'' \<or> b = CHR ''['')"

definition frame_flush :: "string list \<Rightarrow> string list" where
  "frame_flush dataLines =
     (if dataLines = [] then []
      else let data = join_with newline dataLines
           in if data = [] \<or> trim_space data = ''[DONE]'' then [] else [data])"

fun collate_lines :: "string list \<Rightarrow> string list \<Rightarrow> string list" where
  "collate_lines dataLines [] = frame_flush dataLines"
| "collate_lines dataLines (line # lines) =
     (if line = [] then frame_flush dataLines @ collate_lines [] lines
      else if has_prefix line '':'' \<or> has_prefix line ''event:'' then collate_lines dataLines lines
      else if has_prefix line ''data:'' then collate_lines (dataLines @ [data_value line]) lines
      else collate_lines dataLines lines)"

definition Collate :: "string \<Rightarrow> string list" where
  "Collate raw = (if raw = [] then [] else if looksLikeJSON raw then [raw] else collate_lines [] (scan_lines raw))"

section \<open>The events of a stream\<close>

record sse_event =
  ev_Name :: string
  ev_Data :: string

definition event_flush :: "string \<Rightarrow> string list \<Rightarrow> sse_event list" where
  "event_flush name dataLines = (if dataLines \<noteq> [] then [\<lparr>ev_Name = name, ev_Data = join_with newline dataLines\<rparr>] else [])"

fun parse_lines :: "string \<Rightarrow> string list \<Rightarrow> string list \<Rightarrow> sse_event list" where
  "parse_lines name dataLines [] = event_flush name dataLines"
| "parse_lines name dataLines (line # lines) =
     (if line = [] then event_flush name dataLines @ parse_lines [] [] lines
      else if has_prefix line '':'' then parse_lines name dataLines lines
      else if has_prefix line ''event:'' then parse_lines (trim_space (trim_prefix line ''event:'')) dataLines lines
      else if has_prefix line ''data:'' then parse_lines name (dataLines @ [data_value line]) lines
      else parse_lines name dataLines lines)"

definition parseSSE :: "string \<Rightarrow> sse_event list" where
  "parseSSE raw = parse_lines [] [] (scan_lines raw)"

lemma collate_parse:
  "collate_lines ds lines = filter (\<lambda>d. d \<noteq> [] \<and> trim_space d \<noteq> ''[DONE]'') (map ev_Data (parse_lines name ds lines))"
proof (induction lines arbitrary: ds name)
  case (Cons line lines)
  show ?case
    using Cons.IH [of "[]" "[]"] Cons.IH [of ds name] Cons.IH [of "ds @ [data_value line]" name]
      Cons.IH [of ds "trim_space (trim_prefix line ''event:'')"]
    by (auto simp: frame_flush_def event_flush_def Let_def)
qed (auto simp: frame_flush_def event_flush_def Let_def)

text \<open>
  The two parsers agree: the frames the telemetry reads are the data of the events the live feed reads, but
  for empty ones and the \<^verbatim>\<open>[DONE]\<close> sentinel. So both see the same response.
\<close>

theorem parsers_agree:
  assumes "\<not> looksLikeJSON raw"
  shows "Collate raw = filter (\<lambda>d. d \<noteq> [] \<and> trim_space d \<noteq> ''[DONE]'') (map ev_Data (parseSSE raw))"
  using assms
  by (cases "raw = []")
     (simp_all add: Collate_def parseSSE_def scan_lines_def raw_lines_def event_flush_def
       collate_parse [of "[]" "take_lines (let ps = split_on (CHR 0x0A) raw in if last ps = [] then butlast ps else ps)" "[]"])

definition sample_sse :: string where
  "sample_sse = ''event: m'' @ [CHR 0x0D, CHR 0x0A] @ ''data: {}'' @ [CHR 0x0A, CHR 0x0A] @ '': ping'' @ [CHR 0x0A] @
     ''data: [DONE]'' @ [CHR 0x0A, CHR 0x0A]"

lemma parsers_agree_witness:
  "Collate sample_sse = [''{}''] \<and> length (parseSSE sample_sse) = 2 \<and>
     Collate sample_sse = filter (\<lambda>d. d \<noteq> [] \<and> trim_space d \<noteq> ''[DONE]'') (map ev_Data (parseSSE sample_sse))"
proof -
  have "\<not> looksLikeJSON sample_sse" "Collate sample_sse = [''{}'']" "length (parseSSE sample_sse) = 2" by code_simp+
  with parsers_agree [of sample_sse] show ?thesis by simp
qed

section \<open>Aggregation\<close>

datatype strategy = StrategyLastWins | StrategyAddition | StrategyIncremental

record usage =
  ug_Input :: int
  ug_Output :: int
  ug_Cached :: int
  ug_CacheCreation :: int
  ug_CacheCreation5m :: int
  ug_CacheCreation1h :: int
  ug_InputAudio :: int
  ug_OutputAudio :: int

definition no_usage :: usage where
  "no_usage =
     \<lparr>ug_Input = 0, ug_Output = 0, ug_Cached = 0, ug_CacheCreation = 0, ug_CacheCreation5m = 0, ug_CacheCreation1h = 0,
      ug_InputAudio = 0, ug_OutputAudio = 0\<rparr>"

definition usage_IsZero :: "usage \<Rightarrow> bool" where
  "usage_IsZero u \<longleftrightarrow> u = no_usage"

text \<open>The counts of a snapshot, and whether it is recognised.\<close>

record token_snapshot =
  sn_Counts :: usage
  sn_Recognised :: bool

definition new_aggregator :: token_snapshot where
  "new_aggregator = \<lparr>sn_Counts = no_usage, sn_Recognised = False\<rparr>"

definition add_usage :: "usage \<Rightarrow> usage \<Rightarrow> usage" where
  "add_usage a u =
     \<lparr>ug_Input = i64 (ug_Input a + ug_Input u), ug_Output = i64 (ug_Output a + ug_Output u),
      ug_Cached = i64 (ug_Cached a + ug_Cached u), ug_CacheCreation = i64 (ug_CacheCreation a + ug_CacheCreation u),
      ug_CacheCreation5m = i64 (ug_CacheCreation5m a + ug_CacheCreation5m u),
      ug_CacheCreation1h = i64 (ug_CacheCreation1h a + ug_CacheCreation1h u),
      ug_InputAudio = i64 (ug_InputAudio a + ug_InputAudio u), ug_OutputAudio = i64 (ug_OutputAudio a + ug_OutputAudio u)\<rparr>"

definition incremental :: "usage \<Rightarrow> usage \<Rightarrow> usage" where
  "incremental a u =
     (let a1 = (if ug_Input a = 0 \<and> ug_Cached a = 0 \<and> ug_CacheCreation a = 0
                then a\<lparr>ug_Input := ug_Input u, ug_Cached := ug_Cached u, ug_CacheCreation := ug_CacheCreation u,
                       ug_CacheCreation5m := ug_CacheCreation5m u, ug_CacheCreation1h := ug_CacheCreation1h u,
                       ug_InputAudio := ug_InputAudio u\<rparr>
                else a)
      in a1\<lparr>ug_Output := ug_Output u, ug_OutputAudio := ug_OutputAudio u\<rparr>)"

definition agg_Handle :: "strategy \<Rightarrow> usage \<Rightarrow> token_snapshot \<Rightarrow> token_snapshot" where
  "agg_Handle st u a =
     (if usage_IsZero u then a
      else \<lparr>sn_Counts = (case st of
                StrategyLastWins \<Rightarrow> u
              | StrategyAddition \<Rightarrow> add_usage (sn_Counts a) u
              | StrategyIncremental \<Rightarrow> incremental (sn_Counts a) u),
            sn_Recognised = True\<rparr>)"

section \<open>The extractors\<close>

text \<open>Frames as far as an extractor reads them.\<close>

record openai_chat_usage =
  oc_PromptTokens :: int
  oc_CompletionTokens :: int
  oc_PromptDetails :: "(int \<times> int) option"
    \<comment> \<open>cached and audio tokens\<close>
  oc_CompletionAudio :: "int option"

definition openaiChatUsageToObservation :: "openai_chat_usage \<Rightarrow> usage" where
  "openaiChatUsageToObservation u =
     (let out = no_usage\<lparr>ug_Input := oc_PromptTokens u, ug_Output := oc_CompletionTokens u\<rparr>;
          out = (case oc_PromptDetails u of None \<Rightarrow> out | Some (c, a) \<Rightarrow> out\<lparr>ug_Cached := c, ug_InputAudio := a\<rparr>)
      in case oc_CompletionAudio u of None \<Rightarrow> out | Some a \<Rightarrow> out\<lparr>ug_OutputAudio := a\<rparr>)"

record openai_responses_usage =
  ou_InputTokens :: int
  ou_OutputTokens :: int
  ou_Cached :: "int option"

definition openaiResponsesUsageToObservation :: "openai_responses_usage \<Rightarrow> usage" where
  "openaiResponsesUsageToObservation u =
     (let out = no_usage\<lparr>ug_Input := ou_InputTokens u, ug_Output := ou_OutputTokens u\<rparr>
      in case ou_Cached u of None \<Rightarrow> out | Some c \<Rightarrow> out\<lparr>ug_Cached := c\<rparr>)"

record tool_item =
  it_Type :: string
  it_ID :: string

record responses_frame =
  rf_Usage :: "openai_responses_usage option"
  rf_ResponseUsage :: "openai_responses_usage option"
  rf_Output :: "tool_item list"
  rf_Item :: "tool_item option"
  rf_ResponseOutput :: "tool_item list"

definition pickResponsesUsage :: "responses_frame \<Rightarrow> openai_responses_usage option" where
  "pickResponsesUsage b = (case rf_Usage b of Some u \<Rightarrow> Some u | None \<Rightarrow> rf_ResponseUsage b)"

record anthropic_usage =
  an_InputTokens :: int
  an_OutputTokens :: int
  an_CacheRead :: int
  an_CacheCreation :: int
  an_Tiers :: "(int \<times> int) option"
    \<comment> \<open>5m and 1h\<close>
  an_ServerToolUse :: "(string \<times> int option) list"
    \<comment> \<open>a member that is no integer is \<open>None\<close>\<close>

record anthropic_frame =
  af_Type :: string
  af_Usage :: "anthropic_usage option"
  af_Message :: "anthropic_usage option option"
    \<comment> \<open>the message, if any, and its usage\<close>

definition usageForType :: "anthropic_frame \<Rightarrow> anthropic_usage option" where
  "usageForType f =
     (case af_Message f of
        Some u \<Rightarrow> if af_Type f = ''message_start'' then u else af_Usage f
      | None \<Rightarrow> af_Usage f)"

definition anthropicUsageToObservation :: "anthropic_usage \<Rightarrow> usage" where
  "anthropicUsageToObservation u =
     (let out = no_usage\<lparr>ug_Input := i64 (i64 (an_InputTokens u + an_CacheRead u) + an_CacheCreation u),
                  ug_Output := an_OutputTokens u, ug_Cached := an_CacheRead u, ug_CacheCreation := an_CacheCreation u\<rparr>
      in case an_Tiers u of None \<Rightarrow> out | Some (m5, h1) \<Rightarrow> out\<lparr>ug_CacheCreation5m := m5, ug_CacheCreation1h := h1\<rparr>)"

definition counters :: "anthropic_usage \<Rightarrow> (string \<times> int) list option" where
  "counters u =
     (let m = List.map_filter (\<lambda>(k, v). map_option (Pair k) v) (an_ServerToolUse u) in if m = [] then None else Some m)"

record gemini_usage =
  gm_PromptTokenCount :: int
  gm_TotalTokenCount :: int
  gm_Cached :: int
  gm_PromptDetails :: "(string \<times> int) list"
  gm_CandidatesDetails :: "(string \<times> int) list"

fun audioTokens :: "(string \<times> int) list \<Rightarrow> int" where
  "audioTokens [] = 0"
| "audioTokens ((m, n) # ds) = (if m = ''AUDIO'' then n else audioTokens ds)"

definition geminiUsageToObservation :: "gemini_usage \<Rightarrow> usage" where
  "geminiUsageToObservation u =
     no_usage\<lparr>ug_Input := gm_PromptTokenCount u, ug_Cached := gm_Cached u,
       ug_InputAudio := audioTokens (gm_PromptDetails u), ug_OutputAudio := audioTokens (gm_CandidatesDetails u),
       ug_Output := (if gm_TotalTokenCount u > gm_PromptTokenCount u
                     then i64 (gm_TotalTokenCount u - gm_PromptTokenCount u) else 0)\<rparr>"

text \<open>A Gemini frame: its usage, and per candidate the number of its grounding queries.\<close>

record gemini_frame =
  gf_Usage :: "gemini_usage option"
  gf_Queries :: "nat option list"

text \<open>What the frames decode to; \<open>None\<close> is a decoding error.\<close>

record frame_codec =
  fc_chat :: "string \<Rightarrow> openai_chat_usage option option"
  fc_responses :: "string \<Rightarrow> responses_frame option"
  fc_anthropic :: "string \<Rightarrow> anthropic_frame option"
  fc_gemini :: "string \<Rightarrow> gemini_frame option"

definition extractOpenAIChat :: "frame_codec \<Rightarrow> string list \<Rightarrow> token_snapshot" where
  "extractOpenAIChat c frames =
     foldl (\<lambda>a f. case fc_chat c f of
              Some (Some u) \<Rightarrow> agg_Handle StrategyLastWins (openaiChatUsageToObservation u) a | _ \<Rightarrow> a) new_aggregator frames"

definition extractOpenAIResponses :: "frame_codec \<Rightarrow> string list \<Rightarrow> token_snapshot" where
  "extractOpenAIResponses c frames =
     foldl (\<lambda>a f. case Option.bind (fc_responses c f) pickResponsesUsage of
              Some u \<Rightarrow> agg_Handle StrategyLastWins (openaiResponsesUsageToObservation u) a | None \<Rightarrow> a) new_aggregator frames"

definition extractAnthropicMessages :: "frame_codec \<Rightarrow> string list \<Rightarrow> token_snapshot" where
  "extractAnthropicMessages c frames =
     foldl (\<lambda>a f. case Option.bind (fc_anthropic c f) usageForType of
              Some u \<Rightarrow> agg_Handle StrategyLastWins (anthropicUsageToObservation u) a | None \<Rightarrow> a) new_aggregator frames"

definition extractGeminiContent :: "frame_codec \<Rightarrow> string list \<Rightarrow> token_snapshot" where
  "extractGeminiContent c frames =
     foldl (\<lambda>a f. case Option.bind (fc_gemini c f) gf_Usage of
              Some u \<Rightarrow> agg_Handle StrategyLastWins (geminiUsageToObservation u) a | None \<Rightarrow> a) new_aggregator frames"

definition ExtractFrames :: "frame_codec \<Rightarrow> string \<Rightarrow> string list \<Rightarrow> token_snapshot" where
  "ExtractFrames c endpoint frames =
     (if frames = [] then new_aggregator
      else if endpoint = ''chat_completions'' \<or> endpoint = ''chat'' then extractOpenAIChat c frames
      else if endpoint = ''responses'' then extractOpenAIResponses c frames
      else if endpoint = ''messages'' then extractAnthropicMessages c frames
      else if endpoint = ''generate_content'' then extractGeminiContent c frames
      else new_aggregator)"

definition Extract :: "frame_codec \<Rightarrow> string \<Rightarrow> string \<Rightarrow> token_snapshot" where
  "Extract c endpoint raw = ExtractFrames c endpoint (Collate raw)"

section \<open>Server tools\<close>

definition extractAnthropicServerToolUse :: "frame_codec \<Rightarrow> string list \<Rightarrow> (string \<times> int) list option" where
  "extractAnthropicServerToolUse c frames =
     foldl (\<lambda>out f. case Option.bind (fc_anthropic c f) usageForType of
              None \<Rightarrow> out | Some u \<Rightarrow> (case counters u of None \<Rightarrow> out | Some m \<Rightarrow> Some m)) None frames"

definition isResponsesServerToolCall :: "string \<Rightarrow> bool" where
  "isResponsesServerToolCall t \<longleftrightarrow> t \<noteq> ''function_call'' \<and> has_suffix t ''_call''"

definition call_key :: "tool_item \<Rightarrow> string" where
  "call_key it = it_Type it @ [CHR 0x00] @ it_ID it"

definition bump :: "string \<Rightarrow> (string \<times> int) list \<Rightarrow> (string \<times> int) list" where
  "bump t counts = AList.update t (i64 ((case map_of counts t of Some n \<Rightarrow> n | None \<Rightarrow> 0) + 1)) counts"

definition count_call :: "tool_item \<Rightarrow> string list \<times> (string \<times> int) list \<Rightarrow> string list \<times> (string \<times> int) list" where
  "count_call it st =
     (case st of
        (seen, counts) \<Rightarrow>
          if \<not> isResponsesServerToolCall (it_Type it) then (seen, counts)
          else if it_ID it = [] then (seen, bump (it_Type it) counts)
          else if call_key it \<in> set seen then (seen, counts)
          else (call_key it # seen, bump (it_Type it) counts))"

definition frame_items :: "responses_frame \<Rightarrow> tool_item list" where
  "frame_items f = rf_Output f @ (case rf_Item f of None \<Rightarrow> [] | Some it \<Rightarrow> [it]) @ rf_ResponseOutput f"

definition extractResponsesServerToolCalls :: "frame_codec \<Rightarrow> string list \<Rightarrow> (string \<times> int) list option" where
  "extractResponsesServerToolCalls c frames =
     (let counts = snd (foldl (\<lambda>st f. case fc_responses c f of None \<Rightarrow> st | Some fr \<Rightarrow> fold count_call (frame_items fr) st)
                          ([], []) frames)
      in if counts = [] then None else Some counts)"

definition extractGeminiServerToolCalls :: "frame_codec \<Rightarrow> string list \<Rightarrow> (string \<times> int) list option" where
  "extractGeminiServerToolCalls c frames =
     (let n = foldl (\<lambda>n f. case fc_gemini c f of
                None \<Rightarrow> n
              | Some fr \<Rightarrow> foldl (\<lambda>n q. case q of Some k \<Rightarrow> if k > 0 then k else n | None \<Rightarrow> n) n (gf_Queries fr)) 0 frames
      in if n = 0 then None else Some [(''web_search_queries'', int n)])"

definition ServerToolUseFrames :: "frame_codec \<Rightarrow> string \<Rightarrow> string list \<Rightarrow> (string \<times> int) list option" where
  "ServerToolUseFrames c endpoint frames =
     (if frames = [] then None
      else if endpoint = ''messages'' then extractAnthropicServerToolUse c frames
      else if endpoint = ''responses'' then extractResponsesServerToolCalls c frames
      else if endpoint = ''generate_content'' then extractGeminiServerToolCalls c frames
      else None)"

section \<open>Properties\<close>

text \<open>The observations of a response, in order, and the last one that is not zero.\<close>

definition observations :: "frame_codec \<Rightarrow> string \<Rightarrow> string list \<Rightarrow> usage list" where
  "observations c endpoint frames =
     (if endpoint = ''chat_completions'' \<or> endpoint = ''chat''
      then List.map_filter (\<lambda>f. map_option openaiChatUsageToObservation (Option.bind (fc_chat c f) (\<lambda>u. u))) frames
      else if endpoint = ''responses''
      then List.map_filter (\<lambda>f. map_option openaiResponsesUsageToObservation (Option.bind (fc_responses c f) pickResponsesUsage)) frames
      else if endpoint = ''messages''
      then List.map_filter (\<lambda>f. map_option anthropicUsageToObservation (Option.bind (fc_anthropic c f) usageForType)) frames
      else if endpoint = ''generate_content''
      then List.map_filter (\<lambda>f. map_option geminiUsageToObservation (Option.bind (fc_gemini c f) gf_Usage)) frames
      else [])"

definition last_observation :: "usage list \<Rightarrow> token_snapshot" where
  "last_observation us =
     (let vs = filter (\<lambda>u. \<not> usage_IsZero u) us
      in if vs = [] then new_aggregator else \<lparr>sn_Counts = last vs, sn_Recognised = True\<rparr>)"

lemma fold_last_wins:
  "foldl (\<lambda>a u. agg_Handle StrategyLastWins u a) a us =
     (let vs = filter (\<lambda>u. \<not> usage_IsZero u) us in if vs = [] then a else \<lparr>sn_Counts = last vs, sn_Recognised = True\<rparr>)"
  by (induction us arbitrary: a) (auto simp: agg_Handle_def Let_def)

lemma fold_map_filter:
  "foldl (\<lambda>a f. case g f of Some u \<Rightarrow> h u a | None \<Rightarrow> a) a fs =
     foldl (\<lambda>a u. agg_Handle StrategyLastWins u a) a (List.map_filter (\<lambda>f. map_option k (g f)) fs)"
  if "\<And>u a. h u a = agg_Handle StrategyLastWins (k u) a"
  by (induction fs arbitrary: a) (auto simp: List.map_filter_def that split: option.split)

lemma chat_bind:
  "(\<lambda>a f. case fc_chat c f of Some (Some u) \<Rightarrow> h u a | _ \<Rightarrow> a) =
     (\<lambda>a f. case Option.bind (fc_chat c f) (\<lambda>u. u) of Some u \<Rightarrow> h u a | None \<Rightarrow> a)"
  by (auto simp: fun_eq_iff split: option.split)

text \<open>
  The token counts of a response are those of its last frame that reports any: for every dialect the
  snapshot is the last non-zero observation as a whole, and it is recognised exactly when there is one.
\<close>

theorem extract_last_observation:
  "Extract c endpoint raw = last_observation (observations c endpoint (Collate raw))"
proof (cases "Collate raw = []")
  case False
  then show ?thesis
    unfolding Extract_def ExtractFrames_def extractOpenAIChat_def extractOpenAIResponses_def extractAnthropicMessages_def
      extractGeminiContent_def observations_def last_observation_def chat_bind
    by (simp add: fold_map_filter [where k = openaiChatUsageToObservation] fold_map_filter [where k = openaiResponsesUsageToObservation]
        fold_map_filter [where k = anthropicUsageToObservation] fold_map_filter [where k = geminiUsageToObservation]
        fold_last_wins del: foldl_Cons)
qed (simp add: Extract_def ExtractFrames_def last_observation_def observations_def List.map_filter_def)

text \<open>
  A terminal frame that reports only output tokens wipes the input counts of the first frame: a zero field is
  not skipped.
\<close>

lemma partial_usage_wipes_input:
  "agg_Handle StrategyLastWins (no_usage\<lparr>ug_Output := 5\<rparr>)
     (agg_Handle StrategyLastWins (no_usage\<lparr>ug_Input := 1000, ug_Output := 1\<rparr>) new_aggregator) =
   \<lparr>sn_Counts = no_usage\<lparr>ug_Output := 5\<rparr>, sn_Recognised = True\<rparr>"
  by (simp add: agg_Handle_def usage_IsZero_def no_usage_def)

text \<open>The calls of a type: the items without an id and the ids, each once.\<close>

definition billed_calls :: "string \<Rightarrow> tool_item list \<Rightarrow> nat" where
  "billed_calls t its =
     length (filter (\<lambda>it. it_Type it = t \<and> it_ID it = []) its) +
     card {it_ID it |it. it \<in> set its \<and> it_Type it = t \<and> it_ID it \<noteq> []}"

definition count_of :: "string \<Rightarrow> (string \<times> int) list \<Rightarrow> int" where
  "count_of t counts = (case map_of counts t of Some n \<Rightarrow> n | None \<Rightarrow> 0)"

lemma count_of_bump: "count_of t (bump t' counts) = (if t = t' then i64 (count_of t counts + 1) else count_of t counts)"
  by (simp add: count_of_def bump_def AList.update_conv')

definition nul_free :: "tool_item \<Rightarrow> bool" where
  "nul_free it \<longleftrightarrow> CHR 0x00 \<notin> set (it_Type it)"

lemma call_key_inj:
  assumes "nul_free a" "nul_free b" "call_key a = call_key b"
  shows "it_Type a = it_Type b \<and> it_ID a = it_ID b"
proof -
  have "takeWhile (\<lambda>c. c \<noteq> CHR 0x00) (call_key x) = it_Type x" if "nul_free x" for x
    using that unfolding call_key_def nul_free_def by (induction "it_Type x" arbitrary: x) (auto simp: takeWhile_append)
  then have "it_Type a = it_Type b" using assms by metis
  then show ?thesis using assms(3) by (simp add: call_key_def)
qed

definition ids_of :: "string \<Rightarrow> tool_item list \<Rightarrow> string set" where
  "ids_of t its = {it_ID it |it. it \<in> set its \<and> it_Type it = t \<and> it_ID it \<noteq> []}"

lemma ids_of_snoc:
  "ids_of t (its @ [x]) = (if it_Type x = t \<and> it_ID x \<noteq> [] then insert (it_ID x) (ids_of t its) else ids_of t its)"
  by (auto simp: ids_of_def)

lemma ids_of_finite: "finite (ids_of t its)"
proof -
  have "ids_of t its \<subseteq> it_ID ` set its" by (auto simp: ids_of_def)
  then show ?thesis by (rule finite_subset) simp
qed

lemma billed_calls_snoc:
  "billed_calls t (its @ [x]) =
     (if it_Type x = t \<and> (it_ID x = [] \<or> it_ID x \<notin> ids_of t its) then billed_calls t its + 1 else billed_calls t its)"
proof -
  have b: "billed_calls t xs = length (filter (\<lambda>it. it_Type it = t \<and> it_ID it = []) xs) + card (ids_of t xs)" for xs
    by (simp add: billed_calls_def ids_of_def)
  show ?thesis by (simp add: b ids_of_snoc ids_of_finite card_insert_if)
qed

lemma billed_calls_le: "billed_calls t its \<le> length its"
  by (induction its rule: rev_induct) (simp_all add: billed_calls_snoc, simp add: billed_calls_def)

lemma count_calls:
  assumes "list_all nul_free its" "int (length its) < 2 ^ 63"
  shows "set (fst (fold count_call its ([], []))) =
      call_key ` {it \<in> set its. isResponsesServerToolCall (it_Type it) \<and> it_ID it \<noteq> []} \<and>
    (\<forall>t. count_of t (snd (fold count_call its ([], []))) =
      (if isResponsesServerToolCall t then int (billed_calls t its) else 0))"
  using assms
proof (induction its rule: rev_induct)
  case Nil
  then show ?case by (simp add: count_of_def billed_calls_def)
next
  case (snoc x its)
  obtain seen counts where f: "fold count_call its ([], []) = (seen, counts)" by fastforce
  have ih: "set seen = call_key ` {it \<in> set its. isResponsesServerToolCall (it_Type it) \<and> it_ID it \<noteq> []}"
    "\<And>t. count_of t counts = (if isResponsesServerToolCall t then int (billed_calls t its) else 0)"
    using snoc f by auto
  have b: "int (billed_calls t its) < 2 ^ 63 - 1" for t using billed_calls_le [of t its] snoc.prems(2) by simp
  then have up: "i64 (int (billed_calls t its) + 1) = int (billed_calls t its) + 1" for t
    using b [of t] by (intro i64_id) simp_all
  have mem: "call_key x \<in> set seen \<longleftrightarrow> it_ID x \<in> ids_of (it_Type x) its"
    if "isResponsesServerToolCall (it_Type x)" "it_ID x \<noteq> []"
  proof
    assume "call_key x \<in> set seen"
    then obtain y where y: "y \<in> set its" "call_key x = call_key y" "it_ID y \<noteq> []" using ih(1) by auto
    have "nul_free x" "nul_free y" using snoc.prems(1) y(1) by (auto simp: list_all_iff)
    from call_key_inj [OF this y(2)] y show "it_ID x \<in> ids_of (it_Type x) its" by (auto simp: ids_of_def)
  next
    assume "it_ID x \<in> ids_of (it_Type x) its"
    then obtain y where "y \<in> set its" "it_Type y = it_Type x" "it_ID y = it_ID x" by (auto simp: ids_of_def)
    then show "call_key x \<in> set seen"
      unfolding ih(1) using that by (intro image_eqI [of _ _ y]) (auto simp: call_key_def)
  qed
  have step: "fold count_call (its @ [x]) ([], []) =
      (if \<not> isResponsesServerToolCall (it_Type x) then (seen, counts)
       else if it_ID x = [] then (seen, bump (it_Type x) counts)
       else if call_key x \<in> set seen then (seen, counts)
       else (call_key x # seen, bump (it_Type x) counts))"
    unfolding fold_append comp_def f by (simp add: count_call_def)
  have sub: "{it \<in> set (its @ [x]). isResponsesServerToolCall (it_Type it) \<and> it_ID it \<noteq> []} =
      (if isResponsesServerToolCall (it_Type x) \<and> it_ID x \<noteq> [] then {x} else {}) \<union>
      {it \<in> set its. isResponsesServerToolCall (it_Type it) \<and> it_ID it \<noteq> []}"
    by auto
  have keys: "set (fst (fold count_call (its @ [x]) ([], []))) =
      call_key ` {it \<in> set (its @ [x]). isResponsesServerToolCall (it_Type it) \<and> it_ID it \<noteq> []}"
    unfolding step sub image_Un ih(1) [symmetric] by auto
  have "count_of t (snd (fold count_call (its @ [x]) ([], []))) =
      (if isResponsesServerToolCall t then int (billed_calls t (its @ [x])) else 0)" for t
    unfolding step billed_calls_snoc using mem by (auto simp: count_of_bump ih(2) up)
  with keys show ?case by blast
qed

definition response_items :: "frame_codec \<Rightarrow> string list \<Rightarrow> tool_item list" where
  "response_items c frames = concat (map (\<lambda>f. case fc_responses c f of None \<Rightarrow> [] | Some fr \<Rightarrow> frame_items fr) frames)"

lemma frames_fold:
  "foldl (\<lambda>st f. case fc_responses c f of None \<Rightarrow> st | Some fr \<Rightarrow> fold count_call (frame_items fr) st) st frames =
     fold count_call (response_items c frames) st"
  by (induction frames arbitrary: st) (auto simp: response_items_def split: option.split)

text \<open>
  C31. A server tool call is billed once however often the stream repeats its item: for each type of call the
  count is the number of different ids, plus the items without one.
\<close>

theorem server_calls_counted_once:
  assumes "list_all nul_free (response_items c frames)" "int (length (response_items c frames)) < 2 ^ 63"
    "isResponsesServerToolCall t"
  shows "count_of t (case ServerToolUseFrames c ''responses'' frames of Some m \<Rightarrow> m | None \<Rightarrow> []) =
    int (billed_calls t (response_items c frames))"
proof (cases "frames = []")
  case True
  then show ?thesis by (simp add: ServerToolUseFrames_def response_items_def billed_calls_def count_of_def)
next
  case False
  have "count_of t (snd (fold count_call (response_items c frames) ([], []))) = int (billed_calls t (response_items c frames))"
    using count_calls [OF assms(1,2)] assms(3) by simp
  with False show ?thesis
    by (cases "snd (fold count_call (response_items c frames) ([], []))")
       (simp_all add: ServerToolUseFrames_def extractResponsesServerToolCalls_def frames_fold Let_def)
qed

definition sample_search :: responses_frame where
  "sample_search =
     \<lparr>rf_Usage = None, rf_ResponseUsage = None, rf_Output = [],
      rf_Item = Some \<lparr>it_Type = ''web_search_call'', it_ID = ''ws_1''\<rparr>, rf_ResponseOutput = []\<rparr>"

definition sample_frame_codec :: frame_codec where
  "sample_frame_codec =
     \<lparr>fc_chat = (\<lambda>_. None), fc_responses = (\<lambda>f. if f = ''x'' then Some sample_search else None), fc_anthropic = (\<lambda>_. None),
      fc_gemini = (\<lambda>_. None)\<rparr>"

lemma server_calls_counted_once_witness:
  "count_of ''web_search_call''
     (case ServerToolUseFrames sample_frame_codec ''responses'' [''x'', ''x'', ''y''] of Some m \<Rightarrow> m | None \<Rightarrow> []) = 1"
proof -
  have i: "response_items sample_frame_codec [''x'', ''x'', ''y''] =
      [\<lparr>it_Type = ''web_search_call'', it_ID = ''ws_1''\<rparr>, \<lparr>it_Type = ''web_search_call'', it_ID = ''ws_1''\<rparr>]"
    by code_simp
  have b: "billed_calls ''web_search_call'' (response_items sample_frame_codec [''x'', ''x'', ''y'']) = 1"
    using billed_calls_snoc [of "''web_search_call''" "[\<lparr>it_Type = ''web_search_call'', it_ID = ''ws_1''\<rparr>]" "\<lparr>it_Type = ''web_search_call'', it_ID = ''ws_1''\<rparr>"]
      billed_calls_snoc [of "''web_search_call''" "[]" "\<lparr>it_Type = ''web_search_call'', it_ID = ''ws_1''\<rparr>"]
    by (simp add: i ids_of_def billed_calls_def)
  have "isResponsesServerToolCall ''web_search_call''" by code_simp
  moreover have "list_all nul_free (response_items sample_frame_codec [''x'', ''x'', ''y''])"
    unfolding i by (simp add: nul_free_def)
  ultimately show ?thesis
    using server_calls_counted_once [of sample_frame_codec "[''x'', ''x'', ''y'']" "''web_search_call''"] b i by simp
qed

end
