(* ===== verification/Stream_Accumulate.thy ===== *)
theory Stream_Accumulate
  imports Token_Usage Translate_Stream
begin

text \<open>
  The accumulators of \<^verbatim>\<open>internal/observability/livefeed/accumulator\<close>, which reassemble a captured stream
  into the response the provider would have sent without streaming: Chat, Messages, Responses and Gemini. The
  events are \<open>parseSSE\<close> of \<open>Token_Usage\<close>; what their data decodes to, and the encoding of the result, are
  arguments. Fields an accumulator only copies are one opaque value.
\<close>

section \<open>Updating one entry at a time\<close>

text \<open>Entries of an association list that are created or updated by the items with their key.\<close>

definition upsert :: "('a \<Rightarrow> int) \<Rightarrow> ('a \<Rightarrow> 'b option \<Rightarrow> 'b) \<Rightarrow> 'a \<Rightarrow> (int \<times> 'b) list \<Rightarrow> (int \<times> 'b) list" where
  "upsert key f x m = AList.update (key x) (f x (map_of m (key x))) m"

lemma upsert_independent:
  "map_of (fold (upsert key f) xs m) i = fold (\<lambda>x s. Some (f x s)) (filter (\<lambda>x. key x = i) xs) (map_of m i)"
  by (induction xs arbitrary: m) (auto simp: upsert_def AList.update_conv')

lemma upsert_keys:
  "set (map fst (fold (upsert key f) xs m)) = set (map fst m) \<union> key ` set xs"
  "distinct (map fst m) \<Longrightarrow> distinct (map fst (fold (upsert key f) xs m))"
  by (induction xs arbitrary: m) (auto simp: upsert_def dom_update distinct_update)

lemma sorted_keys:
  "distinct (map fst m) \<Longrightarrow> set (map fst m) = int ` {..<n} \<Longrightarrow> sort (map fst m) = map int [0..<n]"
  by (rule sorted_distinct_set_unique) (simp_all add: atLeast0LessThan sorted_map sorted_wrt_upt distinct_map)

text \<open>The walk over the events that the accumulators below share.\<close>

fun event_walk :: "(string \<Rightarrow> 'e option) \<Rightarrow> ('e \<Rightarrow> 's \<Rightarrow> 's) \<Rightarrow> sse_event list \<Rightarrow> bool \<times> 's \<Rightarrow> bool \<times> 's" where
  "event_walk decode absorb [] st = st"
| "event_walk decode absorb (ev # evs) (partial, s) =
     (if ev_Data ev = [] then event_walk decode absorb evs (partial, s)
      else case decode (ev_Data ev) of
             None \<Rightarrow> event_walk decode absorb evs (True, s)
           | Some e \<Rightarrow> event_walk decode absorb evs (partial, absorb e s))"

lemma walk_events:
  "map decode (map ev_Data evs) = map Some es \<Longrightarrow> [] \<notin> set (map ev_Data evs) \<Longrightarrow>
     event_walk decode absorb evs (partial, s) = (partial, fold absorb es s)"
proof (induction evs arbitrary: es s)
  case (Cons ev evs)
  then show ?case by (cases es) auto
qed simp

section \<open>Chat\<close>

text \<open>A content delta: a string, an array of parts with type and text, or anything else, which is ignored.\<close>

datatype delta_content = DCAbsent | DCString string | DCParts "(string \<times> string) list" | DCOther

definition decodeContentString :: "delta_content \<Rightarrow> string" where
  "decodeContentString raw =
     (case raw of
        DCString s \<Rightarrow> s
      | DCParts ps \<Rightarrow> concat (map snd (filter (\<lambda>p. fst p = ''text'') ps))
      | _ \<Rightarrow> [])"

record acc_tool_delta =
  atd_Index :: int
  atd_ID :: string
  atd_Type :: string
  atd_Function :: "(string \<times> string) option"

record acc_choice =
  ach_Index :: int
  ach_Role :: string
  ach_Content :: delta_content
  ach_Refusal :: "string option"
  ach_ToolCalls :: "acc_tool_delta list"
  ach_FinishReason :: "string option"

record acc_chunk =
  ack_ID :: string
  ack_Object :: string
  ack_Created :: int
  ack_Model :: string
  ack_SystemFingerprint :: string
  ack_ServiceTier :: string
  ack_Usage :: "chat_usage option"
  ack_Choices :: "acc_choice list"

record tool_state =
  ots_id :: string
  ots_kind :: string
  ots_name :: string
  ots_args :: string

text \<open>\<^verbatim>\<open>tools\<close> with \<^verbatim>\<open>toolOrder\<close> is an association list in the order of insertion.\<close>

record choice_state =
  ocs_role :: string
  ocs_content :: string
  ocs_contentSeen :: bool
  ocs_refusal :: "string option"
  ocs_finishReason :: "string option"
  ocs_tools :: "(int \<times> tool_state) list"

record openai_state =
  oas_id :: string
  oas_object :: string
  oas_created :: int
  oas_model :: string
  oas_systemFingerprint :: string
  oas_serviceTier :: string
  oas_usage :: "chat_usage option"
  oas_choices :: "(int \<times> choice_state) list"

definition new_tool_state :: tool_state where
  "new_tool_state = \<lparr>ots_id = [], ots_kind = [], ots_name = [], ots_args = []\<rparr>"

definition new_choice_state :: choice_state where
  "new_choice_state =
     \<lparr>ocs_role = [], ocs_content = [], ocs_contentSeen = False, ocs_refusal = None, ocs_finishReason = None, ocs_tools = []\<rparr>"

definition newOpenAIState :: openai_state where
  "newOpenAIState =
     \<lparr>oas_id = [], oas_object = [], oas_created = 0, oas_model = [], oas_systemFingerprint = [], oas_serviceTier = [],
      oas_usage = None, oas_choices = []\<rparr>"

definition keep :: "string \<Rightarrow> string \<Rightarrow> string" where
  "keep new old = (if new \<noteq> [] then new else old)"

definition absorb_tool :: "acc_tool_delta \<Rightarrow> (int \<times> tool_state) list \<Rightarrow> (int \<times> tool_state) list" where
  "absorb_tool td tools =
     (let t = (case map_of tools (atd_Index td) of Some t \<Rightarrow> t | None \<Rightarrow> new_tool_state);
          t = t\<lparr>ots_id := keep (atd_ID td) (ots_id t), ots_kind := keep (atd_Type td) (ots_kind t)\<rparr>;
          t = (case atd_Function td of
                 None \<Rightarrow> t
               | Some (n, args) \<Rightarrow> t\<lparr>ots_name := keep n (ots_name t), ots_args := ots_args t @ args\<rparr>)
      in AList.update (atd_Index td) t tools)"

definition absorb_choice :: "acc_choice \<Rightarrow> choice_state \<Rightarrow> choice_state" where
  "absorb_choice cc ch =
     (let text = decodeContentString (ach_Content cc);
          ch = ch\<lparr>ocs_role := keep (ach_Role cc) (ocs_role ch)\<rparr>;
          ch = (if text \<noteq> [] then ch\<lparr>ocs_content := ocs_content ch @ text, ocs_contentSeen := True\<rparr> else ch);
          ch = (if ach_Refusal cc \<noteq> None then ch\<lparr>ocs_refusal := ach_Refusal cc\<rparr> else ch);
          ch = ch\<lparr>ocs_tools := fold absorb_tool (ach_ToolCalls cc) (ocs_tools ch)\<rparr>
      in if ach_FinishReason cc \<noteq> None then ch\<lparr>ocs_finishReason := ach_FinishReason cc\<rparr> else ch)"

definition upsert_choice :: "acc_choice \<Rightarrow> (int \<times> choice_state) list \<Rightarrow> (int \<times> choice_state) list" where
  "upsert_choice cc cs =
     AList.update (ach_Index cc) (absorb_choice cc (case map_of cs (ach_Index cc) of Some ch \<Rightarrow> ch | None \<Rightarrow> new_choice_state)) cs"

definition openai_absorb :: "acc_chunk \<Rightarrow> openai_state \<Rightarrow> openai_state" where
  "openai_absorb c s =
     s\<lparr>oas_id := keep (ack_ID c) (oas_id s),
       oas_object := (if ack_Object c \<noteq> [] then ''chat.completion'' else oas_object s),
       oas_created := (if ack_Created c \<noteq> 0 then ack_Created c else oas_created s),
       oas_model := keep (ack_Model c) (oas_model s),
       oas_systemFingerprint := keep (ack_SystemFingerprint c) (oas_systemFingerprint s),
       oas_serviceTier := keep (ack_ServiceTier c) (oas_serviceTier s),
       oas_usage := (if ack_Usage c \<noteq> None then ack_Usage c else oas_usage s),
       oas_choices := fold upsert_choice (ack_Choices c) (oas_choices s)\<rparr>"

text \<open>The assembled response: tool calls as id, type, name and arguments.\<close>

record acc_message =
  acm_Index :: int
  acm_Role :: string
  acm_Content :: "string option"
  acm_Refusal :: "string option"
  acm_ToolCalls :: "(string \<times> string \<times> string \<times> string) list"
  acm_FinishReason :: "string option"

record acc_completion =
  acr_ID :: string
  acr_Object :: string
  acr_Created :: int
  acr_Model :: string
  acr_SystemFingerprint :: string
  acr_ServiceTier :: string
  acr_Choices :: "acc_message list"
  acr_Usage :: "chat_usage option"

definition assemble_tool :: "tool_state \<Rightarrow> string \<times> string \<times> string \<times> string" where
  "assemble_tool t = (ots_id t, if ots_kind t = [] then ''function'' else ots_kind t, ots_name t, ots_args t)"

definition assemble_choice :: "int \<Rightarrow> choice_state \<Rightarrow> acc_message" where
  "assemble_choice idx ch =
     \<lparr>acm_Index = idx, acm_Role = ocs_role ch, acm_Content = (if ocs_contentSeen ch then Some (ocs_content ch) else None),
      acm_Refusal = ocs_refusal ch, acm_ToolCalls = map (\<lambda>p. assemble_tool (snd p)) (ocs_tools ch),
      acm_FinishReason = ocs_finishReason ch\<rparr>"

definition openai_assemble :: "openai_state \<Rightarrow> acc_completion" where
  "openai_assemble s =
     \<lparr>acr_ID = oas_id s, acr_Object = (if oas_object s = [] then ''chat.completion'' else oas_object s),
      acr_Created = oas_created s, acr_Model = oas_model s, acr_SystemFingerprint = oas_systemFingerprint s,
      acr_ServiceTier = oas_serviceTier s,
      acr_Choices = map (\<lambda>idx. assemble_choice idx (the (map_of (oas_choices s) idx))) (sort (map fst (oas_choices s))),
      acr_Usage = oas_usage s\<rparr>"

text \<open>The walk over the events; the flag says that a chunk did not decode.\<close>

fun openai_walk :: "(string \<Rightarrow> acc_chunk option) \<Rightarrow> sse_event list \<Rightarrow> bool \<times> openai_state \<Rightarrow> bool \<times> openai_state" where
  "openai_walk decode [] st = st"
| "openai_walk decode (ev # evs) (partial, s) =
     (if ev_Data ev = [] then openai_walk decode evs (partial, s)
      else if trim_space (ev_Data ev) = ''[DONE]'' then (partial, s)
      else case decode (ev_Data ev) of
             None \<Rightarrow> openai_walk decode evs (True, s)
           | Some c \<Rightarrow> openai_walk decode evs (partial, openai_absorb c s))"

definition accumulateOpenAIChat :: "(string \<Rightarrow> acc_chunk option) \<Rightarrow> string \<Rightarrow> acc_completion \<times> bool" where
  "accumulateOpenAIChat decode raw =
     (case openai_walk decode (parseSSE raw) (False, newOpenAIState) of (partial, s) \<Rightarrow> (openai_assemble s, partial))"

section \<open>Reassembly\<close>

text \<open>
  How a provider streams one choice: its role, its content and the arguments of its tool calls in any
  fragments, its finish reason, its usage. Each tool call begins with its id, type and name.
\<close>

definition plain_chunk :: "acc_completion \<Rightarrow> acc_choice list \<Rightarrow> acc_chunk" where
  "plain_chunk r chs =
     \<lparr>ack_ID = acr_ID r, ack_Object = ''chat.completion.chunk'', ack_Created = acr_Created r, ack_Model = acr_Model r,
      ack_SystemFingerprint = acr_SystemFingerprint r, ack_ServiceTier = acr_ServiceTier r, ack_Usage = None, ack_Choices = chs\<rparr>"

definition plain_choice :: "int \<Rightarrow> acc_choice" where
  "plain_choice i =
     \<lparr>ach_Index = i, ach_Role = [], ach_Content = DCAbsent, ach_Refusal = None, ach_ToolCalls = [], ach_FinishReason = None\<rparr>"

definition tool_choices :: "int \<Rightarrow> int \<Rightarrow> string \<times> string \<times> string \<times> string list \<Rightarrow> acc_choice list" where
  "tool_choices i k t =
     (case t of
        (tid, kind, name, frags) \<Rightarrow>
          (plain_choice i)\<lparr>ach_ToolCalls := [\<lparr>atd_Index = k, atd_ID = tid, atd_Type = kind, atd_Function = Some (name, [])\<rparr>]\<rparr> #
          map (\<lambda>f. (plain_choice i)\<lparr>ach_ToolCalls := [\<lparr>atd_Index = k, atd_ID = [], atd_Type = [], atd_Function = Some ([], f)\<rparr>]\<rparr>) frags)"

definition choice_stream ::
  "int \<Rightarrow> string \<Rightarrow> string list \<Rightarrow> (string \<times> string \<times> string \<times> string list) list \<Rightarrow> string \<Rightarrow> acc_choice list" where
  "choice_stream i role texts tools finish =
     (plain_choice i)\<lparr>ach_Role := role\<rparr> # map (\<lambda>t. (plain_choice i)\<lparr>ach_Content := DCString t\<rparr>) texts @
     concat (map (\<lambda>(k, t). tool_choices i (int k) t) (enumerate 0 tools)) @
     [(plain_choice i)\<lparr>ach_FinishReason := Some finish\<rparr>]"

lemma absorb_texts:
  "fold absorb_choice (map (\<lambda>t. (plain_choice i)\<lparr>ach_Content := DCString t\<rparr>) texts) ch =
     ch\<lparr>ocs_content := ocs_content ch @ concat texts, ocs_contentSeen := (ocs_contentSeen ch \<or> concat texts \<noteq> [])\<rparr>"
  by (induction texts arbitrary: ch)
     (auto simp: absorb_choice_def plain_choice_def decodeContentString_def keep_def Let_def)

lemma update_last: "k \<notin> fst ` set pre \<Longrightarrow> AList.update k v (pre @ [(k, t)]) = pre @ [(k, v)]"
  by (induction pre) auto

lemma map_of_last: "k \<notin> fst ` set pre \<Longrightarrow> map_of (pre @ [(k, t)]) k = Some t"
  by (induction pre) auto

lemma absorb_args:
  "ocs_tools ch = pre @ [(k, t)] \<Longrightarrow> k \<notin> fst ` set pre \<Longrightarrow>
     fold absorb_choice
       (map (\<lambda>f. (plain_choice i)\<lparr>ach_ToolCalls := [\<lparr>atd_Index = k, atd_ID = [], atd_Type = [], atd_Function = Some ([], f)\<rparr>]\<rparr>) frags) ch =
     ch\<lparr>ocs_tools := pre @ [(k, t\<lparr>ots_args := ots_args t @ concat frags\<rparr>)]\<rparr>"
proof (induction frags arbitrary: ch t)
  case (Cons f frags)
  let ?cc = "(plain_choice i)\<lparr>ach_ToolCalls := [\<lparr>atd_Index = k, atd_ID = [], atd_Type = [], atd_Function = Some ([], f)\<rparr>]\<rparr>"
  have "absorb_choice ?cc ch = ch\<lparr>ocs_tools := pre @ [(k, t\<lparr>ots_args := ots_args t @ f\<rparr>)]\<rparr>"
    using Cons.prems
    by (simp add: absorb_choice_def plain_choice_def decodeContentString_def keep_def absorb_tool_def Let_def update_last map_of_last
        del: map_of_append)
  with Cons.IH [of "ch\<lparr>ocs_tools := pre @ [(k, t\<lparr>ots_args := ots_args t @ f\<rparr>)]\<rparr>" "t\<lparr>ots_args := ots_args t @ f\<rparr>"] Cons.prems(2)
  show ?case by simp
qed simp

definition tool_of :: "string \<times> string \<times> string \<times> string list \<Rightarrow> tool_state" where
  "tool_of t = (case t of (tid, kind, name, frags) \<Rightarrow> \<lparr>ots_id = tid, ots_kind = kind, ots_name = name, ots_args = concat frags\<rparr>)"

lemma absorb_tool_call:
  assumes "k \<notin> fst ` set (ocs_tools ch)"
  shows "fold absorb_choice (tool_choices i k t) ch = ch\<lparr>ocs_tools := ocs_tools ch @ [(k, tool_of t)]\<rparr>"
proof -
  obtain tid kind name frags where t: "t = (tid, kind, name, frags)" by (metis prod_cases4)
  let ?cc = "(plain_choice i)\<lparr>ach_ToolCalls := [\<lparr>atd_Index = k, atd_ID = tid, atd_Type = kind, atd_Function = Some (name, [])\<rparr>]\<rparr>"
  let ?t = "\<lparr>ots_id = tid, ots_kind = kind, ots_name = name, ots_args = []\<rparr>"
  have "map_of (ocs_tools ch) k = None" using assms by (simp add: map_of_eq_None_iff)
  then have "absorb_choice ?cc ch = ch\<lparr>ocs_tools := ocs_tools ch @ [(k, ?t)]\<rparr>"
    by (simp add: absorb_choice_def plain_choice_def decodeContentString_def keep_def absorb_tool_def new_tool_state_def Let_def
        update_new)
  with absorb_args [of "ch\<lparr>ocs_tools := ocs_tools ch @ [(k, ?t)]\<rparr>" "ocs_tools ch" k ?t i frags] assms
  show ?thesis by (simp add: t tool_choices_def tool_of_def)
qed

lemma absorb_tool_calls:
  "fst ` set (ocs_tools ch) \<subseteq> {..<int n} \<Longrightarrow>
     fold absorb_choice (concat (map (\<lambda>(k, t). tool_choices i (int k) t) (enumerate n tools))) ch =
     ch\<lparr>ocs_tools := ocs_tools ch @ map (\<lambda>(k, t). (int k, tool_of t)) (enumerate n tools)\<rparr>"
proof (induction tools arbitrary: n ch)
  case (Cons t tools)
  have "int n \<notin> fst ` set (ocs_tools ch)" using Cons.prems by auto
  note 1 = absorb_tool_call [OF this, of i t]
  have "fst ` set (ocs_tools (ch\<lparr>ocs_tools := ocs_tools ch @ [(int n, tool_of t)]\<rparr>)) \<subseteq> {..<int (Suc n)}"
    using Cons.prems by force
  from Cons.IH [OF this] 1 show ?case by (simp add: enumerate_simps)
qed simp

text \<open>The state a streamed choice leaves.\<close>

definition choice_result :: "string \<Rightarrow> string list \<Rightarrow> (string \<times> string \<times> string \<times> string list) list \<Rightarrow> string \<Rightarrow> choice_state" where
  "choice_result role texts tools finish =
     \<lparr>ocs_role = role, ocs_content = concat texts, ocs_contentSeen = (concat texts \<noteq> []), ocs_refusal = None,
      ocs_finishReason = Some finish, ocs_tools = map (\<lambda>(k, t). (int k, tool_of t)) (enumerate 0 tools)\<rparr>"

lemma absorb_stream:
  "fold absorb_choice (choice_stream i role texts tools finish) new_choice_state = choice_result role texts tools finish"
proof -
  let ?c1 = "new_choice_state\<lparr>ocs_role := role\<rparr>"
  let ?c2 = "?c1\<lparr>ocs_content := concat texts, ocs_contentSeen := (concat texts \<noteq> [])\<rparr>"
  let ?c3 = "?c2\<lparr>ocs_tools := map (\<lambda>(k, t). (int k, tool_of t)) (enumerate 0 tools)\<rparr>"
  have 1: "absorb_choice ((plain_choice i)\<lparr>ach_Role := role\<rparr>) new_choice_state = ?c1"
    by (simp add: absorb_choice_def plain_choice_def decodeContentString_def keep_def new_choice_state_def)
  have 2: "fold absorb_choice (map (\<lambda>t. (plain_choice i)\<lparr>ach_Content := DCString t\<rparr>) texts) ?c1 = ?c2"
    by (simp add: absorb_texts new_choice_state_def)
  have 3: "fold absorb_choice (concat (map (\<lambda>(k, t). tool_choices i (int k) t) (enumerate 0 tools))) ?c2 = ?c3"
    by (subst absorb_tool_calls) (simp_all add: new_choice_state_def)
  have 4: "absorb_choice ((plain_choice i)\<lparr>ach_FinishReason := Some finish\<rparr>) ?c3 = choice_result role texts tools finish"
    by (simp add: absorb_choice_def plain_choice_def decodeContentString_def keep_def new_choice_state_def choice_result_def)
  show ?thesis unfolding choice_stream_def fold_append fold.simps comp_def 1 2 3 4 by simp
qed

text \<open>Choices do not disturb each other, however their deltas are interleaved.\<close>

lemma upsert_lookup:
  "map_of (upsert_choice c acc) i =
     (if ach_Index c = i then Some (absorb_choice c (case map_of acc i of Some ch \<Rightarrow> ch | None \<Rightarrow> new_choice_state))
      else map_of acc i)"
  by (auto simp: upsert_choice_def AList.update_conv')

lemma choices_independent:
  "map_of (fold upsert_choice ccs acc) i =
     (case filter (\<lambda>c. ach_Index c = i) ccs of
        [] \<Rightarrow> map_of acc i
      | cs \<Rightarrow> Some (fold absorb_choice cs (case map_of acc i of Some ch \<Rightarrow> ch | None \<Rightarrow> new_choice_state)))"
proof (induction ccs arbitrary: acc)
  case (Cons c ccs)
  show ?case
    by (simp add: Cons.IH upsert_lookup split: list.split)
qed simp

lemma upsert_choice_upsert:
  "upsert_choice = upsert ach_Index (\<lambda>c found. absorb_choice c (case found of Some ch \<Rightarrow> ch | None \<Rightarrow> new_choice_state))"
  by (simp add: fun_eq_iff upsert_choice_def upsert_def)

lemma absorb_chunks:
  "fold openai_absorb (map (plain_chunk r) css) s =
     (if css = [] then s
      else s\<lparr>oas_id := keep (acr_ID r) (oas_id s), oas_object := ''chat.completion'',
        oas_created := (if acr_Created r \<noteq> 0 then acr_Created r else oas_created s), oas_model := keep (acr_Model r) (oas_model s),
        oas_systemFingerprint := keep (acr_SystemFingerprint r) (oas_systemFingerprint s),
        oas_serviceTier := keep (acr_ServiceTier r) (oas_serviceTier s),
        oas_choices := fold upsert_choice (concat css) (oas_choices s)\<rparr>)"
  by (induction css arbitrary: s) (auto simp: openai_absorb_def plain_chunk_def keep_def)

lemma walk_chunks:
  "map decode ds = map Some cs \<Longrightarrow> list_all (\<lambda>d. d \<noteq> [] \<and> trim_space d \<noteq> ''[DONE]'') ds \<Longrightarrow> map ev_Data evs = ds @ [''[DONE]''] \<Longrightarrow>
     openai_walk decode evs (partial, s) = (partial, fold openai_absorb cs s)"
proof (induction ds arbitrary: cs evs s)
  case Nil
  then have "trim_space (''[DONE]'') = ''[DONE]''" by code_simp
  then show ?case using Nil by (cases evs) auto
next
  case (Cons d ds)
  then obtain c cs' ev evs' where "cs = c # cs'" "evs = ev # evs'" by (cases cs; cases evs) auto
  with Cons show ?case by auto
qed

text \<open>A message as it is streamed: role, text fragments, tool calls with argument fragments, finish reason.\<close>

type_synonym streamed_message = "string \<times> string list \<times> (string \<times> string \<times> string \<times> string list) list \<times> string"

definition whole_message :: "nat \<times> streamed_message \<Rightarrow> acc_message" where
  "whole_message m =
     (case m of
        (i, role, texts, tools, finish) \<Rightarrow>
          \<lparr>acm_Index = int i, acm_Role = role, acm_Content = (if concat texts = [] then None else Some (concat texts)),
           acm_Refusal = None,
           acm_ToolCalls = map (\<lambda>(tid, kind, name, frags). (tid, if kind = [] then ''function'' else kind, name, concat frags)) tools,
           acm_FinishReason = Some finish\<rparr>)"

definition message_stream :: "nat \<times> streamed_message \<Rightarrow> acc_choice list" where
  "message_stream m = (case m of (i, role, texts, tools, finish) \<Rightarrow> choice_stream (int i) role texts tools finish)"


definition sample_streamed :: streamed_message where
  "sample_streamed = (''assistant'', [''Hel'', ''lo''], [(''t1'', [], ''f'', [''{'', ''}''])], ''tool_calls'')"

definition sample_completion :: acc_completion where
  "sample_completion =
     \<lparr>acr_ID = ''c1'', acr_Object = ''chat.completion'', acr_Created = 7, acr_Model = ''m'', acr_SystemFingerprint = [],
      acr_ServiceTier = [],
      acr_Choices = [\<lparr>acm_Index = 0, acm_Role = ''assistant'', acm_Content = Some ''Hello'', acm_Refusal = None,
                       acm_ToolCalls = [(''t1'', ''function'', ''f'', ''{}'')], acm_FinishReason = Some ''tool_calls''\<rparr>],
      acr_Usage = Some \<lparr>cu_PromptTokens = 3, cu_CompletionTokens = 2, cu_TotalTokens = 5, cu_CachedTokens = None\<rparr>\<rparr>"

definition sample_payloads :: "string list" where
  "sample_payloads = [''0'', ''1'', ''2'', ''3'', ''4'', ''5'', ''6'', ''7'']"

definition sample_chunks :: "acc_chunk list" where
  "sample_chunks =
     map (plain_chunk sample_completion) (map (\<lambda>c. [c]) (message_stream (0, sample_streamed))) @
     [(plain_chunk sample_completion [])\<lparr>ack_Usage := acr_Usage sample_completion\<rparr>]"


end
