(* ===== verification/Messages_Accumulate.thy ===== *)
theory Messages_Accumulate
  imports Stream_Accumulate
begin

text \<open>
  The accumulator of a Messages stream (\<^verbatim>\<open>internal/observability/livefeed/accumulator/anthropic_messages.go\<close>).
  Modelled are the fields it reads, merges or replaces; the others are one opaque value of their record.
\<close>

section \<open>Messages\<close>

record acc_text =
  abt_Text :: string
  abt_Citations :: "string list"
  abt_Rest :: string

record acc_tool_use =
  abu_ID :: string
  abu_Name :: string
  abu_Input :: string
  abu_Rest :: string

record acc_thinking =
  abh_Thinking :: string
  abh_Signature :: string
  abh_Rest :: string

datatype acc_block =
    ABText acc_text
  | ABToolUse acc_tool_use
  | ABServerToolUse acc_tool_use
  | ABThinking acc_thinking
  | ABOther string

datatype acc_delta =
    ADText string
  | ADInputJSON string
  | ADThinking string
  | ADSignature string
  | ADCitations string
  | ADUnknown

record acc_usage =
  aau_InputTokens :: int
  aau_OutputTokens :: int
  aau_CacheCreation :: "int option"
  aau_CacheRead :: "int option"
  aau_OutputDetails :: "string option"
  aau_ServerToolUse :: "string option"
  aau_Iterations :: "string list"
  aau_Extra :: "(string \<times> string) list"
  aau_Rest :: string

record acc_response =
  aar_Type :: string
  aar_Role :: string
  aar_Content :: "acc_block list"
  aar_StopReason :: "string option"
  aar_StopSequence :: "string option"
  aar_Usage :: acc_usage
  aar_ContextManagement :: "string option"
  aar_StopDetails :: string
  aar_Rest :: string

record acc_message_delta =
  amd_StopReason :: "string option"
  amd_StopSequence :: "string option"
  amd_Usage :: acc_usage
  amd_Extra :: "(string \<times> string) list"
  amd_DeltaExtra :: "(string \<times> string) list"

datatype acc_event =
    AEMessageStart acc_response
  | AEBlockStart int "acc_block option"
  | AEBlockDelta int acc_delta
  | AEMessageDelta acc_message_delta
  | AEOther

record block_state =
  abs_kind :: string
  abs_text :: string
  abs_toolID :: string
  abs_toolName :: string
  abs_toolArgs :: string
  abs_thinking :: string
  abs_signature :: string
  abs_citations :: "string list"
  abs_raw :: "acc_block option"

text \<open>\<^verbatim>\<open>blocks\<close> with \<^verbatim>\<open>blockOrder\<close> is an association list in the order of insertion.\<close>

record anthropic_state =
  aas_base :: acc_response
  aas_gotStart :: bool
  aas_blocks :: "(int \<times> block_state) list"

definition new_block_state :: block_state where
  "new_block_state =
     \<lparr>abs_kind = [], abs_text = [], abs_toolID = [], abs_toolName = [], abs_toolArgs = [], abs_thinking = [],
      abs_signature = [], abs_citations = [], abs_raw = None\<rparr>"

definition empty_usage :: acc_usage where
  "empty_usage =
     \<lparr>aau_InputTokens = 0, aau_OutputTokens = 0, aau_CacheCreation = None, aau_CacheRead = None, aau_OutputDetails = None,
      aau_ServerToolUse = None, aau_Iterations = [], aau_Extra = [], aau_Rest = []\<rparr>"

definition newAnthropicState :: anthropic_state where
  "newAnthropicState =
     \<lparr>aas_base = \<lparr>aar_Type = [], aar_Role = [], aar_Content = [], aar_StopReason = None, aar_StopSequence = None,
         aar_Usage = empty_usage, aar_ContextManagement = None, aar_StopDetails = [], aar_Rest = []\<rparr>,
      aas_gotStart = False, aas_blocks = []\<rparr>"

definition absorbBlockStart :: "acc_block option \<Rightarrow> block_state option \<Rightarrow> block_state" where
  "absorbBlockStart block found =
     (let st = (case found of Some st \<Rightarrow> st | None \<Rightarrow> new_block_state)\<lparr>abs_raw := block\<rparr>
      in case block of
           Some (ABText b) \<Rightarrow> st\<lparr>abs_kind := ''text'', abs_text := abs_text st @ abt_Text b\<rparr>
         | Some (ABToolUse b) \<Rightarrow> st\<lparr>abs_kind := ''tool_use'', abs_toolID := abu_ID b, abs_toolName := abu_Name b\<rparr>
         | Some (ABServerToolUse b) \<Rightarrow> st\<lparr>abs_kind := ''server_tool_use'', abs_toolID := abu_ID b, abs_toolName := abu_Name b\<rparr>
         | Some (ABThinking b) \<Rightarrow>
             st\<lparr>abs_kind := ''thinking'', abs_thinking := abs_thinking st @ abh_Thinking b, abs_signature := abh_Signature b\<rparr>
         | _ \<Rightarrow> st)"

definition absorbBlockDelta :: "acc_delta \<Rightarrow> block_state option \<Rightarrow> block_state" where
  "absorbBlockDelta delta found =
     (let st = (case found of Some st \<Rightarrow> st | None \<Rightarrow> new_block_state\<lparr>abs_kind := ''text''\<rparr>)
      in case delta of
           ADText t \<Rightarrow> st\<lparr>abs_text := abs_text st @ t\<rparr>
         | ADInputJSON j \<Rightarrow> st\<lparr>abs_toolArgs := abs_toolArgs st @ j\<rparr>
         | ADThinking t \<Rightarrow> st\<lparr>abs_thinking := abs_thinking st @ t\<rparr>
         | ADSignature g \<Rightarrow> st\<lparr>abs_signature := g\<rparr>
         | ADCitations c \<Rightarrow> st\<lparr>abs_citations := abs_citations st @ [c]\<rparr>
         | ADUnknown \<Rightarrow> st)"

definition present :: "string \<Rightarrow> (string \<times> string) list \<Rightarrow> string option" where
  "present k extra =
     (case map_of extra k of Some raw \<Rightarrow> if raw \<noteq> [] \<and> raw \<noteq> ''null'' then Some raw else None | None \<Rightarrow> None)"

definition merge_extra :: "(string \<times> string) list \<Rightarrow> (string \<times> string) list \<Rightarrow> (string \<times> string) list" where
  "merge_extra new old = fold (\<lambda>(k, v). AList.update k v) new old"

definition merge_usage :: "acc_usage \<Rightarrow> acc_usage \<Rightarrow> acc_usage" where
  "merge_usage e b =
     b\<lparr>aau_OutputTokens := (if aau_OutputTokens e \<noteq> 0 then aau_OutputTokens e else aau_OutputTokens b),
       aau_InputTokens := (if aau_InputTokens e \<noteq> 0 then aau_InputTokens e else aau_InputTokens b),
       aau_CacheCreation := (if aau_CacheCreation e \<noteq> None then aau_CacheCreation e else aau_CacheCreation b),
       aau_CacheRead := (if aau_CacheRead e \<noteq> None then aau_CacheRead e else aau_CacheRead b),
       aau_OutputDetails := (if aau_OutputDetails e \<noteq> None then aau_OutputDetails e else aau_OutputDetails b),
       aau_ServerToolUse := (if aau_ServerToolUse e \<noteq> None then aau_ServerToolUse e else aau_ServerToolUse b),
       aau_Iterations := (if aau_Iterations e \<noteq> [] then aau_Iterations e else aau_Iterations b),
       aau_Extra := merge_extra (aau_Extra e) (aau_Extra b)\<rparr>"

text \<open>\<open>cm\<close> decodes the context management of the event, \<open>None\<close> an error.\<close>

definition absorbMessageDelta :: "(string \<Rightarrow> string option) \<Rightarrow> acc_message_delta \<Rightarrow> acc_response \<Rightarrow> acc_response" where
  "absorbMessageDelta cm e base =
     base\<lparr>aar_StopReason := (if amd_StopReason e \<noteq> None then amd_StopReason e else aar_StopReason base),
       aar_StopSequence := (if amd_StopSequence e \<noteq> None then amd_StopSequence e else aar_StopSequence base),
       aar_Usage := merge_usage (amd_Usage e) (aar_Usage base),
       aar_ContextManagement :=
         (case Option.bind (present ''context_management'' (amd_Extra e)) cm of
            Some c \<Rightarrow> Some c | None \<Rightarrow> aar_ContextManagement base),
       aar_StopDetails :=
         (case present ''stop_details'' (amd_DeltaExtra e) of Some raw \<Rightarrow> raw | None \<Rightarrow> aar_StopDetails base)\<rparr>"

definition anthropic_absorb :: "(string \<Rightarrow> string option) \<Rightarrow> acc_event \<Rightarrow> anthropic_state \<Rightarrow> anthropic_state" where
  "anthropic_absorb cm ev s =
     (case ev of
        AEMessageStart msg \<Rightarrow> s\<lparr>aas_base := msg, aas_gotStart := True\<rparr>
      | AEBlockStart i block \<Rightarrow>
          s\<lparr>aas_blocks := AList.update i (absorbBlockStart block (map_of (aas_blocks s) i)) (aas_blocks s)\<rparr>
      | AEBlockDelta i delta \<Rightarrow>
          s\<lparr>aas_blocks := AList.update i (absorbBlockDelta delta (map_of (aas_blocks s) i)) (aas_blocks s)\<rparr>
      | AEMessageDelta e \<Rightarrow> s\<lparr>aas_base := absorbMessageDelta cm e (aas_base s)\<rparr>
      | AEOther \<Rightarrow> s)"

definition splice_input :: "(string \<Rightarrow> bool) \<Rightarrow> block_state \<Rightarrow> acc_tool_use \<Rightarrow> acc_tool_use" where
  "splice_input valid st b =
     b\<lparr>abu_ID := abs_toolID st, abu_Name := abs_toolName st,
       abu_Input := (if abs_toolArgs st \<noteq> [] \<and> valid (abs_toolArgs st) then abs_toolArgs st
                     else if abu_Input b = [] then ''{}'' else abu_Input b)\<rparr>"

definition no_tool_use :: acc_tool_use where
  "no_tool_use = \<lparr>abu_ID = [], abu_Name = [], abu_Input = [], abu_Rest = []\<rparr>"

definition assemble_block :: "(string \<Rightarrow> bool) \<Rightarrow> block_state \<Rightarrow> acc_block list" where
  "assemble_block valid st =
     (if abs_kind st = ''text''
      then let b = (case abs_raw st of Some (ABText b) \<Rightarrow> b | _ \<Rightarrow> \<lparr>abt_Text = [], abt_Citations = [], abt_Rest = []\<rparr>)
           in [ABText (b\<lparr>abt_Text := abs_text st, abt_Citations := abt_Citations b @ abs_citations st\<rparr>)]
      else if abs_kind st = ''tool_use''
      then [ABToolUse (splice_input valid st (case abs_raw st of Some (ABToolUse b) \<Rightarrow> b | _ \<Rightarrow> no_tool_use))]
      else if abs_kind st = ''server_tool_use''
      then [ABServerToolUse (splice_input valid st (case abs_raw st of Some (ABServerToolUse b) \<Rightarrow> b | _ \<Rightarrow> no_tool_use))]
      else if abs_kind st = ''thinking''
      then let b = (case abs_raw st of Some (ABThinking b) \<Rightarrow> b | _ \<Rightarrow> \<lparr>abh_Thinking = [], abh_Signature = [], abh_Rest = []\<rparr>)
           in [ABThinking (b\<lparr>abh_Thinking := abs_thinking st, abh_Signature := abs_signature st\<rparr>)]
      else case abs_raw st of Some b \<Rightarrow> [b] | None \<Rightarrow> [])"

definition anthropic_assemble :: "(string \<Rightarrow> bool) \<Rightarrow> anthropic_state \<Rightarrow> acc_response" where
  "anthropic_assemble valid s =
     (let resp = (if aas_gotStart s then aas_base s else (aas_base s)\<lparr>aar_Type := ''message'', aar_Role := ''assistant''\<rparr>)
      in resp\<lparr>aar_Content :=
           concat (map (\<lambda>i. assemble_block valid (the (map_of (aas_blocks s) i))) (sort (map fst (aas_blocks s))))\<rparr>)"

text \<open>What \<^verbatim>\<open>encoding/json\<close> and the registry of events give the accumulator.\<close>

record messages_codec =
  mc_event :: "string \<Rightarrow> acc_event option"
  mc_context :: "string \<Rightarrow> string option"
  mc_valid :: "string \<Rightarrow> bool"

definition accumulateAnthropicMessages :: "messages_codec \<Rightarrow> string \<Rightarrow> acc_response \<times> bool" where
  "accumulateAnthropicMessages c raw =
     (case event_walk (mc_event c) (anthropic_absorb (mc_context c)) (parseSSE raw) (False, newAnthropicState) of
        (partial, s) \<Rightarrow> (anthropic_assemble (mc_valid c) s, partial))"

text \<open>
  Tool arguments that arrive before the block they belong to was started are kept as an empty text block: the
  bytes are lost.
\<close>

lemma orphan_arguments_lost:
  "anthropic_assemble valid (fold (anthropic_absorb cm) [AEBlockDelta 0 (ADInputJSON j)] newAnthropicState) =
     (aas_base newAnthropicState)\<lparr>aar_Type := ''message'', aar_Role := ''assistant'',
       aar_Content := [ABText \<lparr>abt_Text = [], abt_Citations = [], abt_Rest = []\<rparr>]\<rparr>"
  by (simp add: anthropic_assemble_def anthropic_absorb_def newAnthropicState_def absorbBlockDelta_def new_block_state_def
      assemble_block_def)


text \<open>A streamed block: what its start carries, and the deltas that follow.\<close>

type_synonym streamed_block = "acc_block \<times> acc_delta list"

definition block_stream :: "int \<Rightarrow> streamed_block \<Rightarrow> acc_event list" where
  "block_stream i b = AEBlockStart i (Some (fst b)) # map (AEBlockDelta i) (snd b)"

definition texts :: "acc_delta list \<Rightarrow> string" where
  "texts ds = concat (map (\<lambda>d. case d of ADText t \<Rightarrow> t | _ \<Rightarrow> []) ds)"

definition arguments :: "acc_delta list \<Rightarrow> string" where
  "arguments ds = concat (map (\<lambda>d. case d of ADInputJSON j \<Rightarrow> j | _ \<Rightarrow> []) ds)"

definition thoughts :: "acc_delta list \<Rightarrow> string" where
  "thoughts ds = concat (map (\<lambda>d. case d of ADThinking t \<Rightarrow> t | _ \<Rightarrow> []) ds)"

definition citations :: "acc_delta list \<Rightarrow> string list" where
  "citations ds = concat (map (\<lambda>d. case d of ADCitations x \<Rightarrow> [x] | _ \<Rightarrow> []) ds)"

definition sealed :: "acc_delta list \<Rightarrow> string \<Rightarrow> string" where
  "sealed ds g = fold (\<lambda>d g. case d of ADSignature g' \<Rightarrow> g' | _ \<Rightarrow> g) ds g"

text \<open>The block those amount to; a call has its arguments, or what its start had, when they are no JSON.\<close>

definition with_input :: "(string \<Rightarrow> bool) \<Rightarrow> string \<Rightarrow> acc_tool_use \<Rightarrow> acc_tool_use" where
  "with_input valid args b =
     b\<lparr>abu_Input := (if args \<noteq> [] \<and> valid args then args else if abu_Input b = [] then ''{}'' else abu_Input b)\<rparr>"

definition whole_block :: "(string \<Rightarrow> bool) \<Rightarrow> streamed_block \<Rightarrow> acc_block" where
  "whole_block valid b =
     (case b of
        (ABText t, ds) \<Rightarrow> ABText (t\<lparr>abt_Text := abt_Text t @ texts ds, abt_Citations := abt_Citations t @ citations ds\<rparr>)
      | (ABToolUse t, ds) \<Rightarrow> ABToolUse (with_input valid (arguments ds) t)
      | (ABServerToolUse t, ds) \<Rightarrow> ABServerToolUse (with_input valid (arguments ds) t)
      | (ABThinking t, ds) \<Rightarrow>
          ABThinking (t\<lparr>abh_Thinking := abh_Thinking t @ thoughts ds, abh_Signature := sealed ds (abh_Signature t)\<rparr>)
      | (ABOther x, ds) \<Rightarrow> ABOther x)"

lemmas delta_parts = texts_def arguments_def thoughts_def citations_def sealed_def

lemma absorb_deltas:
  "fold (\<lambda>d s. Some (absorbBlockDelta d s)) ds (Some st) =
     Some (st\<lparr>abs_text := abs_text st @ texts ds, abs_toolArgs := abs_toolArgs st @ arguments ds,
       abs_thinking := abs_thinking st @ thoughts ds, abs_signature := sealed ds (abs_signature st),
       abs_citations := abs_citations st @ citations ds\<rparr>)"
proof (induction ds arbitrary: st)
  case (Cons d ds)
  have step: "absorbBlockDelta d (Some st) =
      st\<lparr>abs_text := abs_text st @ texts [d], abs_toolArgs := abs_toolArgs st @ arguments [d],
        abs_thinking := abs_thinking st @ thoughts [d], abs_signature := sealed [d] (abs_signature st),
        abs_citations := abs_citations st @ citations [d]\<rparr>"
    by (cases d) (simp_all add: absorbBlockDelta_def delta_parts)
  have parts: "texts (d # ds) = texts [d] @ texts ds" "arguments (d # ds) = arguments [d] @ arguments ds"
    "thoughts (d # ds) = thoughts [d] @ thoughts ds" "citations (d # ds) = citations [d] @ citations ds"
    "sealed (d # ds) g = sealed ds (sealed [d] g)" for g
    by (simp_all add: delta_parts)
  show ?case by (simp add: step parts Cons.IH)
qed (simp add: delta_parts)

text \<open>The events of a block, and what they do to its entry.\<close>

fun block_index :: "acc_event \<Rightarrow> int option" where
  "block_index (AEBlockStart i b) = Some i"
| "block_index (AEBlockDelta i d) = Some i"
| "block_index ev = None"

fun block_step :: "acc_event \<Rightarrow> block_state option \<Rightarrow> block_state" where
  "block_step (AEBlockStart i b) found = absorbBlockStart b found"
| "block_step (AEBlockDelta i d) found = absorbBlockDelta d found"
| "block_step ev found = new_block_state"

lemma block_assembled:
  "\<exists>st. fold (\<lambda>e s. Some (block_step e s)) (block_stream i b) None = Some st \<and> assemble_block valid st = [whole_block valid b]"
proof -
  obtain start ds where b: "b = (start, ds)" by fastforce
  have steps: "fold (\<lambda>e s. Some (block_step e s)) (map (AEBlockDelta i) ds) s = fold (\<lambda>d s. Some (absorbBlockDelta d s)) ds s" for s
    by (simp add: fold_map comp_def)
  show ?thesis
    by (cases start)
       (simp_all add: b block_stream_def steps absorb_deltas absorbBlockStart_def new_block_state_def assemble_block_def
         whole_block_def with_input_def splice_input_def)
qed

fun base_step :: "(string \<Rightarrow> string option) \<Rightarrow> acc_event \<Rightarrow> acc_response \<times> bool \<Rightarrow> acc_response \<times> bool" where
  "base_step cm (AEMessageStart msg) b = (msg, True)"
| "base_step cm (AEMessageDelta e) b = (absorbMessageDelta cm e (fst b), snd b)"
| "base_step cm ev b = b"

lemma absorb_block_event:
  "aas_blocks (anthropic_absorb cm e s) =
     (if block_index e = None then aas_blocks s else upsert (\<lambda>e. the (block_index e)) block_step e (aas_blocks s))"
  by (cases e) (simp_all add: anthropic_absorb_def upsert_def)

lemma absorb_base_event:
  "(aas_base (anthropic_absorb cm e s), aas_gotStart (anthropic_absorb cm e s)) =
     (if block_index e = None \<and> e \<noteq> AEOther then base_step cm e (aas_base s, aas_gotStart s) else (aas_base s, aas_gotStart s))"
  by (cases e) (simp_all add: anthropic_absorb_def)

lemma absorbed_blocks:
  "aas_blocks (fold (anthropic_absorb cm) evs s) =
     fold (upsert (\<lambda>e. the (block_index e)) block_step) (filter (\<lambda>e. block_index e \<noteq> None) evs) (aas_blocks s)"
  by (induction evs arbitrary: s) (simp_all add: absorb_block_event)

lemma absorbed_base:
  "(aas_base (fold (anthropic_absorb cm) evs s), aas_gotStart (fold (anthropic_absorb cm) evs s)) =
     fold (base_step cm) (filter (\<lambda>e. block_index e = None \<and> e \<noteq> AEOther) evs) (aas_base s, aas_gotStart s)"
  by (induction evs arbitrary: s) (simp_all add: absorb_base_event)

lemma merge_fresh: "distinct (map fst (old @ new)) \<Longrightarrow> merge_extra new old = old @ new"
proof (induction new arbitrary: old)
  case (Cons kv new)
  obtain k v where kv: "kv = (k, v)" by fastforce
  have "AList.update k v old = old @ [(k, v)]" using Cons.prems by (intro update_new) (simp add: kv map_of_eq_None_iff)
  with Cons.IH [of "old @ [(k, v)]"] Cons.prems show ?case by (simp add: kv merge_extra_def)
qed (simp add: merge_extra_def)

text \<open>
  A response as it is streamed: the start has no content, no stop reason and a placeholder of the usage, the
  terminal delta has the rest.
\<close>

definition opening_part :: "int \<Rightarrow> acc_response \<Rightarrow> acc_response" where
  "opening_part n r =
     r\<lparr>aar_Content := [], aar_StopReason := None, aar_StopSequence := None,
       aar_Usage := (aar_Usage r)\<lparr>aau_OutputTokens := n, aau_OutputDetails := None, aau_ServerToolUse := None,
         aau_Iterations := [], aau_Extra := []\<rparr>\<rparr>"

definition closing_part :: "acc_response \<Rightarrow> acc_message_delta" where
  "closing_part r =
     \<lparr>amd_StopReason = aar_StopReason r, amd_StopSequence = aar_StopSequence r, amd_Usage = aar_Usage r, amd_Extra = [],
      amd_DeltaExtra = []\<rparr>"

lemma opening_closing_parts:
  assumes "aau_OutputTokens (aar_Usage r) \<noteq> 0" "distinct (map fst (aau_Extra (aar_Usage r)))"
  shows "(absorbMessageDelta cm (closing_part r) (opening_part n r))\<lparr>aar_Content := aar_Content r\<rparr> = r"
  using assms
  by (cases r)
     (simp add: absorbMessageDelta_def closing_part_def opening_part_def merge_usage_def present_def merge_fresh)



definition sample_response :: acc_response where
  "sample_response =
     \<lparr>aar_Type = ''message'', aar_Role = ''assistant'',
      aar_Content = [ABText \<lparr>abt_Text = ''Hi'', abt_Citations = [], abt_Rest = []\<rparr>,
        ABToolUse \<lparr>abu_ID = ''t1'', abu_Name = ''f'', abu_Input = ''{}'', abu_Rest = []\<rparr>],
      aar_StopReason = Some ''tool_use'', aar_StopSequence = None,
      aar_Usage = empty_usage\<lparr>aau_InputTokens := 9, aau_OutputTokens := 4, aau_Extra := [(''x'', ''1'')]\<rparr>,
      aar_ContextManagement = None, aar_StopDetails = [], aar_Rest = ''id''\<rparr>"

definition sample_blocks :: "streamed_block list" where
  "sample_blocks =
     [(ABText \<lparr>abt_Text = [], abt_Citations = [], abt_Rest = []\<rparr>, [ADText ''H'', ADText ''i'']),
      (ABToolUse \<lparr>abu_ID = ''t1'', abu_Name = ''f'', abu_Input = ''{}'', abu_Rest = []\<rparr>, [ADInputJSON ''{'', ADInputJSON ''}''])]"

definition sample_events :: "acc_event list" where
  "sample_events =
     AEMessageStart (opening_part 1 sample_response) # AEOther # block_stream 0 (sample_blocks ! 0) @ block_stream 1 (sample_blocks ! 1) @
     [AEMessageDelta (closing_part sample_response), AEOther]"

definition sample_keys :: "string list" where
  "sample_keys = [''0'', ''1'', ''2'', ''3'', ''4'', ''5'', ''6'', ''7'', ''8'', ''9'']"

definition sample_messages_codec :: messages_codec where
  "sample_messages_codec =
     \<lparr>mc_event = map_of (zip sample_keys sample_events), mc_context = (\<lambda>_. None), mc_valid = (\<lambda>j. j = ''{}'')\<rparr>"


end
