(* ===== verification/Content_Accumulate.thy ===== *)
theory Content_Accumulate
  imports Messages_Accumulate
begin

text \<open>
  The accumulators of Gemini and Responses streams, and the dispatch on the protocol
  (\<^verbatim>\<open>gemini_content.go\<close>, \<^verbatim>\<open>openai_responses.go\<close> and \<^verbatim>\<open>accumulator.go\<close> of
  \<^verbatim>\<open>internal/observability/livefeed/accumulator\<close>). Raw JSON is a string.
\<close>

section \<open>Gemini\<close>

record g_text =
  gt_Text :: string
  gt_Thought :: "bool option"
  gt_Signature :: "string option"
  gt_Extra :: "(string \<times> string) list"

datatype g_part = GText g_text | GOther string

record g_content =
  gk_Role :: string
  gk_Parts :: "g_part list"
  gk_Extra :: "(string \<times> string) list"

record g_citations =
  gci_Sources :: "string list"
  gci_Extra :: "(string \<times> string) list"

record g_grounding =
  ggm_SearchEntryPoint :: "string option"
  ggm_Chunks :: "string list"
  ggm_Supports :: "string list"
  ggm_Queries :: "string list"
  ggm_Retrieval :: string
  ggm_Extra :: "(string \<times> string) list"

record g_candidate =
  gcd_Content :: "g_content option"
  gcd_FinishReason :: "string option"
  gcd_FinishMessage :: "string option"
  gcd_Index :: "int option"
  gcd_SafetyRatings :: "string list"
  gcd_Citations :: "g_citations option"
  gcd_TokenCount :: "int option"
  gcd_Grounding :: "g_grounding option"
  gcd_URLContext :: string
  gcd_Logprobs :: string
  gcd_Extra :: "(string \<times> string) list"

record g_status =
  gms_Stage :: string
  gms_Retirement :: string
  gms_Message :: string
  gms_Extra :: "(string \<times> string) list"

record g_response =
  grr_Candidates :: "g_candidate list"
  grr_PromptFeedback :: "string option"
  grr_Usage :: "string option"
  grr_ModelVersion :: string
  grr_ResponseID :: string
  grr_ModelStatus :: "g_status option"
  grr_Error :: string
  grr_Extra :: "(string \<times> string) list"

record cand_state =
  gcs_role :: string
  gcs_parts :: "g_part list"
  gcs_finishReason :: "string option"
  gcs_tokenCount :: "int option"
  gcs_finishMessage :: "string option"
  gcs_safetyRatings :: "string list"
  gcs_citations :: "g_citations option"
  gcs_grounding :: "g_grounding option"
  gcs_urlContext :: string
  gcs_logprobs :: string
  gcs_extra :: "(string \<times> string) list"

text \<open>\<^verbatim>\<open>candidates\<close> with \<^verbatim>\<open>candOrder\<close> is an association list in the order of insertion.\<close>

record gemini_state =
  gst_base :: g_response
  gst_candidates :: "(int \<times> cand_state) list"

definition new_cand_state :: cand_state where
  "new_cand_state =
     \<lparr>gcs_role = [], gcs_parts = [], gcs_finishReason = None, gcs_tokenCount = None, gcs_finishMessage = None,
      gcs_safetyRatings = [], gcs_citations = None, gcs_grounding = None, gcs_urlContext = [], gcs_logprobs = [], gcs_extra = []\<rparr>"

definition newGeminiState :: gemini_state where
  "newGeminiState =
     \<lparr>gst_base = \<lparr>grr_Candidates = [], grr_PromptFeedback = None, grr_Usage = None, grr_ModelVersion = [], grr_ResponseID = [],
        grr_ModelStatus = None, grr_Error = [], grr_Extra = []\<rparr>,
      gst_candidates = []\<rparr>"

definition plainText :: "g_text \<Rightarrow> bool" where
  "plainText tp \<longleftrightarrow> gt_Thought tp = None \<and> gt_Signature tp = None \<and> gt_Extra tp = []"

definition appendPart :: "g_part \<Rightarrow> g_part list \<Rightarrow> g_part list" where
  "appendPart p parts =
     (case p of
        GText tp \<Rightarrow>
          if gt_Text tp = [] \<and> plainText tp then parts
          else if plainText tp \<and> parts \<noteq> []
          then (case last parts of
                  GText l \<Rightarrow> if plainText l then butlast parts @ [GText (l\<lparr>gt_Text := gt_Text l @ gt_Text tp\<rparr>)] else parts @ [p]
                | GOther _ \<Rightarrow> parts @ [p])
          else parts @ [p]
      | GOther _ \<Rightarrow> parts @ [p])"

definition rawEmpty :: "string \<Rightarrow> bool" where
  "rawEmpty raw = (let s = trim_space raw in s = [] \<or> s = ''null'' \<or> s = ''{}'')"

definition citations_empty :: "g_citations option \<Rightarrow> bool" where
  "citations_empty cm = (case cm of None \<Rightarrow> True | Some m \<Rightarrow> gci_Sources m = [] \<and> gci_Extra m = [])"

definition grounding_empty :: "g_grounding option \<Rightarrow> bool" where
  "grounding_empty gm =
     (case gm of
        None \<Rightarrow> True
      | Some m \<Rightarrow> ggm_SearchEntryPoint m = None \<and> ggm_Chunks m = [] \<and> ggm_Supports m = [] \<and> ggm_Queries m = [] \<and>
          rawEmpty (ggm_Retrieval m) \<and> ggm_Extra m = [])"

definition status_empty :: "g_status option \<Rightarrow> bool" where
  "status_empty ms =
     (case ms of None \<Rightarrow> True | Some m \<Rightarrow> gms_Stage m = [] \<and> gms_Retirement m = [] \<and> gms_Message m = [] \<and> gms_Extra m = [])"

definition carried :: "('a \<Rightarrow> bool) \<Rightarrow> 'a \<Rightarrow> 'a \<Rightarrow> 'a" where
  "carried blank new old = (if blank new then old else new)"

definition content_role :: "g_candidate \<Rightarrow> string" where
  "content_role cand = (case gcd_Content cand of None \<Rightarrow> [] | Some k \<Rightarrow> gk_Role k)"

definition content_parts :: "g_candidate \<Rightarrow> g_part list" where
  "content_parts cand = (case gcd_Content cand of None \<Rightarrow> [] | Some k \<Rightarrow> gk_Parts k)"

definition absorb_candidate :: "g_candidate \<Rightarrow> cand_state \<Rightarrow> cand_state" where
  "absorb_candidate cand st =
     \<lparr>gcs_role = carried (\<lambda>r. r = []) (content_role cand) (gcs_role st),
      gcs_parts = fold appendPart (content_parts cand) (gcs_parts st),
      gcs_finishReason = carried (\<lambda>r. r = None) (gcd_FinishReason cand) (gcs_finishReason st),
      gcs_tokenCount = carried (\<lambda>r. r = None) (gcd_TokenCount cand) (gcs_tokenCount st),
      gcs_finishMessage = carried (\<lambda>r. r = None) (gcd_FinishMessage cand) (gcs_finishMessage st),
      gcs_safetyRatings = carried (\<lambda>r. r = []) (gcd_SafetyRatings cand) (gcs_safetyRatings st),
      gcs_citations = carried citations_empty (gcd_Citations cand) (gcs_citations st),
      gcs_grounding = carried grounding_empty (gcd_Grounding cand) (gcs_grounding st),
      gcs_urlContext = carried rawEmpty (gcd_URLContext cand) (gcs_urlContext st),
      gcs_logprobs = carried rawEmpty (gcd_Logprobs cand) (gcs_logprobs st),
      gcs_extra = merge_extra (gcd_Extra cand) (gcs_extra st)\<rparr>"

definition cand_index :: "g_candidate \<Rightarrow> int" where
  "cand_index cand = (case gcd_Index cand of None \<Rightarrow> 0 | Some i \<Rightarrow> i)"

definition upsert_candidate :: "g_candidate \<Rightarrow> (int \<times> cand_state) list \<Rightarrow> (int \<times> cand_state) list" where
  "upsert_candidate =
     upsert cand_index (\<lambda>cand found. absorb_candidate cand (case found of Some st \<Rightarrow> st | None \<Rightarrow> new_cand_state))"

definition gemini_absorb_base :: "g_response \<Rightarrow> g_response \<Rightarrow> g_response" where
  "gemini_absorb_base chunk b =
     b\<lparr>grr_PromptFeedback := carried (\<lambda>r. r = None) (grr_PromptFeedback chunk) (grr_PromptFeedback b),
       grr_Usage := carried (\<lambda>r. r = None) (grr_Usage chunk) (grr_Usage b),
       grr_ModelVersion := carried (\<lambda>r. r = []) (grr_ModelVersion chunk) (grr_ModelVersion b),
       grr_ResponseID := carried (\<lambda>r. r = []) (grr_ResponseID chunk) (grr_ResponseID b),
       grr_ModelStatus := carried status_empty (grr_ModelStatus chunk) (grr_ModelStatus b),
       grr_Error := carried rawEmpty (grr_Error chunk) (grr_Error b),
       grr_Extra := merge_extra (grr_Extra chunk) (grr_Extra b)\<rparr>"

definition gemini_absorb :: "g_response \<Rightarrow> gemini_state \<Rightarrow> gemini_state" where
  "gemini_absorb chunk s =
     \<lparr>gst_base = gemini_absorb_base chunk (gst_base s),
      gst_candidates = fold upsert_candidate (grr_Candidates chunk) (gst_candidates s)\<rparr>"

definition assemble_candidate :: "int \<Rightarrow> cand_state \<Rightarrow> g_candidate" where
  "assemble_candidate idx st =
     \<lparr>gcd_Content =
        (if gcs_parts st \<noteq> [] \<or> gcs_role st \<noteq> []
         then Some \<lparr>gk_Role = (if gcs_role st = [] then ''model'' else gcs_role st), gk_Parts = gcs_parts st, gk_Extra = []\<rparr>
         else None),
      gcd_FinishReason = gcs_finishReason st, gcd_FinishMessage = gcs_finishMessage st, gcd_Index = Some idx,
      gcd_SafetyRatings = gcs_safetyRatings st, gcd_Citations = gcs_citations st, gcd_TokenCount = gcs_tokenCount st,
      gcd_Grounding = gcs_grounding st, gcd_URLContext = gcs_urlContext st, gcd_Logprobs = gcs_logprobs st,
      gcd_Extra = gcs_extra st\<rparr>"

definition gemini_assemble :: "gemini_state \<Rightarrow> g_response" where
  "gemini_assemble s =
     (gst_base s)\<lparr>grr_Candidates :=
        map (\<lambda>i. assemble_candidate i (the (map_of (gst_candidates s) i))) (sort (map fst (gst_candidates s)))\<rparr>"

definition accumulateGeminiContent :: "(string \<Rightarrow> g_response option) \<Rightarrow> string \<Rightarrow> g_response \<times> bool" where
  "accumulateGeminiContent decode raw =
     (case event_walk decode gemini_absorb (parseSSE raw) (False, newGeminiState) of (partial, s) \<Rightarrow> (gemini_assemble s, partial))"

text \<open>An empty usage object that follows the counts replaces them.\<close>

lemma usage_placeholder_wins:
  "grr_Usage (gemini_assemble (gemini_absorb (r\<lparr>grr_Usage := Some ''{}''\<rparr>) s)) = Some ''{}''"
  by (simp add: gemini_assemble_def gemini_absorb_def gemini_absorb_base_def carried_def)

section \<open>A Gemini response in chunks\<close>

text \<open>
  Parts as a response has them without streaming: no empty plain text, no two plain texts side by side. Plain
  text comes in any fragments, other parts whole; empty fragments may come anywhere.
\<close>

definition is_plain :: "g_part \<Rightarrow> bool" where
  "is_plain p = (case p of GText t \<Rightarrow> plainText t | GOther _ \<Rightarrow> False)"

definition text_of :: "g_part \<Rightarrow> string" where
  "text_of p = (case p of GText t \<Rightarrow> gt_Text t | GOther _ \<Rightarrow> [])"

definition padding :: "g_part \<Rightarrow> bool" where
  "padding p \<longleftrightarrow> is_plain p \<and> text_of p = []"

fun settled :: "g_part list \<Rightarrow> bool" where
  "settled [] = True"
| "settled (p # ps) \<longleftrightarrow> \<not> padding p \<and> \<not> (is_plain p \<and> ps \<noteq> [] \<and> is_plain (hd ps)) \<and> settled ps"

definition fragments :: "g_part \<Rightarrow> g_part list \<Rightarrow> bool" where
  "fragments p fs \<longleftrightarrow>
     (if is_plain p then list_all is_plain fs \<and> concat (map text_of fs) = text_of p else filter (\<lambda>f. \<not> padding f) fs = [p])"

lemma plain_is: "is_plain p \<Longrightarrow> p = GText \<lparr>gt_Text = text_of p, gt_Thought = None, gt_Signature = None, gt_Extra = []\<rparr>"
  by (cases p) (auto simp: is_plain_def plainText_def text_of_def)

lemma append_padding: "padding p \<Longrightarrow> appendPart p parts = parts"
  by (cases p) (auto simp: padding_def is_plain_def text_of_def appendPart_def)

lemma append_whole: "\<not> padding p \<Longrightarrow> \<not> is_plain p \<or> parts = [] \<or> \<not> is_plain (last parts) \<Longrightarrow> appendPart p parts = parts @ [p]"
  by (cases p) (auto simp: padding_def is_plain_def text_of_def appendPart_def split: g_part.split)

abbreviation plain :: "string \<Rightarrow> g_part" where
  "plain t \<equiv> GText \<lparr>gt_Text = t, gt_Thought = None, gt_Signature = None, gt_Extra = []\<rparr>"

lemma append_fragment: "appendPart (plain t) (parts @ [plain u]) = parts @ [plain (u @ t)]"
  by (simp add: appendPart_def plainText_def)

lemma append_fragments: "list_all is_plain fs \<Longrightarrow> fold appendPart fs (parts @ [plain u]) = parts @ [plain (u @ concat (map text_of fs))]"
proof (induction fs arbitrary: u)
  case (Cons f fs)
  then have "f = plain (text_of f)" using plain_is by simp
  then have "appendPart f (parts @ [plain u]) = parts @ [plain (u @ text_of f)]" using append_fragment by metis
  with Cons show ?case by simp
qed simp

lemma drop_padding: "fold appendPart fs parts = fold appendPart (filter (\<lambda>f. \<not> padding f) fs) parts"
  by (induction fs arbitrary: parts) (simp_all add: append_padding)

lemma absorb_part:
  assumes "fragments p fs" "\<not> padding p" "is_plain p \<longrightarrow> parts = [] \<or> \<not> is_plain (last parts)"
  shows "fold appendPart fs parts = parts @ [p]"
proof (cases "is_plain p")
  case False
  with assms show ?thesis by (subst drop_padding) (simp add: fragments_def append_whole)
next
  case True
  let ?gs = "filter (\<lambda>f. \<not> padding f) fs"
  have gs: "list_all is_plain ?gs" "concat (map text_of ?gs) = text_of p"
  proof -
    have "concat (map text_of ?gs) = concat (map text_of fs)" by (induction fs) (auto simp: padding_def)
    then show "list_all is_plain ?gs" "concat (map text_of ?gs) = text_of p"
      using assms(1) True by (auto simp: fragments_def list_all_iff)
  qed
  moreover have "text_of p \<noteq> []" using assms(2) True by (simp add: padding_def)
  ultimately obtain g gs' where g: "?gs = g # gs'" by (cases ?gs) auto
  then have "\<not> padding g" "is_plain g" using gs(1) by (auto dest: filter_eq_ConsD)
  then have "appendPart g parts = parts @ [plain (text_of g)]"
    using append_whole [of g parts] plain_is assms(3) True by metis
  with append_fragments [of gs' parts "text_of g"] gs g plain_is [OF True]
  show ?thesis by (subst drop_padding) (simp add: g)
qed

lemma absorb_parts:
  "list_all2 fragments ps fss \<Longrightarrow> settled ps \<Longrightarrow> (ps \<noteq> [] \<and> is_plain (hd ps) \<longrightarrow> parts = [] \<or> \<not> is_plain (last parts)) \<Longrightarrow>
     fold appendPart (concat fss) parts = parts @ ps"
proof (induction ps fss arbitrary: parts rule: list_all2_induct)
  case (Cons p ps fs fss)
  have "fold appendPart fs parts = parts @ [p]"
    using Cons.hyps(1) Cons.prems by (intro absorb_part) auto
  moreover have "fold appendPart (concat fss) (parts @ [p]) = (parts @ [p]) @ ps"
    using Cons.prems by (intro Cons.IH) auto
  ultimately show ?case by simp
qed simp


text \<open>A value that chunks announce: each chunk has it or a placeholder, and one has it.\<close>

definition announced :: "('a \<Rightarrow> bool) \<Rightarrow> 'a \<Rightarrow> 'a \<Rightarrow> 'a list \<Rightarrow> bool" where
  "announced blank none v vs \<longleftrightarrow> (\<forall>x \<in> set vs. blank x \<or> x = v) \<and> (v = none \<or> v \<in> set vs \<and> \<not> blank v)"

lemma carried_announced: "announced blank none v vs \<Longrightarrow> fold (carried blank) vs none = v"
proof -
  have "(\<forall>x \<in> set vs. blank x \<or> x = v) \<Longrightarrow>
      fold (carried blank) vs old = (if \<exists>x \<in> set vs. \<not> blank x then v else old)" for old
    by (induction vs arbitrary: old) (auto simp: carried_def)
  then show "announced blank none v vs \<Longrightarrow> fold (carried blank) vs none = v" by (auto simp: announced_def)
qed

definition candidate_content :: "g_candidate list \<Rightarrow> g_content option \<Rightarrow> bool" where
  "candidate_content cs k \<longleftrightarrow>
     (case k of
        None \<Rightarrow> concat (map content_role cs) = [] \<and> list_all padding (concat (map content_parts cs))
      | Some k \<Rightarrow>
          announced (\<lambda>r. r = []) [] (gk_Role k) (map content_role cs) \<and> gk_Role k \<noteq> [] \<and> gk_Extra k = [] \<and>
          settled (gk_Parts k) \<and> (\<exists>fss. list_all2 fragments (gk_Parts k) fss \<and> concat (map content_parts cs) = concat fss))"

definition candidate_streamed :: "g_candidate list \<Rightarrow> g_candidate \<Rightarrow> bool" where
  "candidate_streamed cs r \<longleftrightarrow>
     candidate_content cs (gcd_Content r) \<and>
     announced (\<lambda>r. r = None) None (gcd_FinishReason r) (map gcd_FinishReason cs) \<and>
     announced (\<lambda>r. r = None) None (gcd_FinishMessage r) (map gcd_FinishMessage cs) \<and>
     announced (\<lambda>r. r = []) [] (gcd_SafetyRatings r) (map gcd_SafetyRatings cs) \<and>
     announced citations_empty None (gcd_Citations r) (map gcd_Citations cs) \<and>
     announced (\<lambda>r. r = None) None (gcd_TokenCount r) (map gcd_TokenCount cs) \<and>
     announced grounding_empty None (gcd_Grounding r) (map gcd_Grounding cs) \<and>
     announced rawEmpty [] (gcd_URLContext r) (map gcd_URLContext cs) \<and>
     announced rawEmpty [] (gcd_Logprobs r) (map gcd_Logprobs cs) \<and>
     concat (map gcd_Extra cs) = gcd_Extra r \<and> distinct (map fst (gcd_Extra r))"

definition response_streamed :: "g_response list \<Rightarrow> g_response \<Rightarrow> bool" where
  "response_streamed chunks r \<longleftrightarrow>
     announced (\<lambda>r. r = None) None (grr_PromptFeedback r) (map grr_PromptFeedback chunks) \<and>
     announced (\<lambda>r. r = None) None (grr_Usage r) (map grr_Usage chunks) \<and>
     announced (\<lambda>r. r = []) [] (grr_ModelVersion r) (map grr_ModelVersion chunks) \<and>
     announced (\<lambda>r. r = []) [] (grr_ResponseID r) (map grr_ResponseID chunks) \<and>
     announced status_empty None (grr_ModelStatus r) (map grr_ModelStatus chunks) \<and>
     announced rawEmpty [] (grr_Error r) (map grr_Error chunks) \<and>
     concat (map grr_Extra chunks) = grr_Extra r \<and> distinct (map fst (grr_Extra r))"

lemma merge_extra_append: "merge_extra (a @ b) m = merge_extra b (merge_extra a m)"
  by (simp add: merge_extra_def)

lemma absorb_candidates:
  "fold absorb_candidate cs st =
     \<lparr>gcs_role = fold (carried (\<lambda>r. r = [])) (map content_role cs) (gcs_role st),
      gcs_parts = fold appendPart (concat (map content_parts cs)) (gcs_parts st),
      gcs_finishReason = fold (carried (\<lambda>r. r = None)) (map gcd_FinishReason cs) (gcs_finishReason st),
      gcs_tokenCount = fold (carried (\<lambda>r. r = None)) (map gcd_TokenCount cs) (gcs_tokenCount st),
      gcs_finishMessage = fold (carried (\<lambda>r. r = None)) (map gcd_FinishMessage cs) (gcs_finishMessage st),
      gcs_safetyRatings = fold (carried (\<lambda>r. r = [])) (map gcd_SafetyRatings cs) (gcs_safetyRatings st),
      gcs_citations = fold (carried citations_empty) (map gcd_Citations cs) (gcs_citations st),
      gcs_grounding = fold (carried grounding_empty) (map gcd_Grounding cs) (gcs_grounding st),
      gcs_urlContext = fold (carried rawEmpty) (map gcd_URLContext cs) (gcs_urlContext st),
      gcs_logprobs = fold (carried rawEmpty) (map gcd_Logprobs cs) (gcs_logprobs st),
      gcs_extra = merge_extra (concat (map gcd_Extra cs)) (gcs_extra st)\<rparr>"
proof (induction cs arbitrary: st)
  case (Cons c cs)
  show ?case
    unfolding fold_Cons comp_apply Cons.IH list.map concat.simps fold_append merge_extra_append by (simp add: absorb_candidate_def)
qed (simp add: merge_extra_def)

lemma absorb_bases:
  "fold gemini_absorb_base chunks b =
     b\<lparr>grr_PromptFeedback := fold (carried (\<lambda>r. r = None)) (map grr_PromptFeedback chunks) (grr_PromptFeedback b),
       grr_Usage := fold (carried (\<lambda>r. r = None)) (map grr_Usage chunks) (grr_Usage b),
       grr_ModelVersion := fold (carried (\<lambda>r. r = [])) (map grr_ModelVersion chunks) (grr_ModelVersion b),
       grr_ResponseID := fold (carried (\<lambda>r. r = [])) (map grr_ResponseID chunks) (grr_ResponseID b),
       grr_ModelStatus := fold (carried status_empty) (map grr_ModelStatus chunks) (grr_ModelStatus b),
       grr_Error := fold (carried rawEmpty) (map grr_Error chunks) (grr_Error b),
       grr_Extra := merge_extra (concat (map grr_Extra chunks)) (grr_Extra b)\<rparr>"
proof (induction chunks arbitrary: b)
  case (Cons c chunks)
  show ?case
    unfolding fold_Cons comp_apply Cons.IH list.map concat.simps fold_append merge_extra_append by (simp add: gemini_absorb_base_def)
qed (simp add: merge_extra_def)

lemma merge_empty: "distinct (map fst m) \<Longrightarrow> merge_extra m [] = m"
  using merge_fresh [of "[]" m] by simp

lemma candidate_assembled:
  assumes "candidate_streamed cs r" "gcd_Index r = Some i"
  shows "assemble_candidate i (fold absorb_candidate cs new_cand_state) = r"
proof -
  have role: "(case gcd_Content r of None \<Rightarrow> [] | Some k \<Rightarrow> gk_Role k) = fold (carried (\<lambda>r. r = [])) (map content_role cs) []"
  proof (cases "gcd_Content r")
    case None
    then have "announced (\<lambda>r. r = []) [] [] (map content_role cs)"
      using assms(1) by (simp add: candidate_streamed_def candidate_content_def announced_def)
    from carried_announced [OF this] None show ?thesis by simp
  next
    case (Some k)
    then have "announced (\<lambda>r. r = []) [] (gk_Role k) (map content_role cs)"
      using assms(1) by (simp add: candidate_streamed_def candidate_content_def)
    from carried_announced [OF this] Some show ?thesis by simp
  qed
  have parts: "(case gcd_Content r of None \<Rightarrow> [] | Some k \<Rightarrow> gk_Parts k) = fold appendPart (concat (map content_parts cs)) []"
  proof (cases "gcd_Content r")
    case None
    then have "filter (\<lambda>f. \<not> padding f) (concat (map content_parts cs)) = []"
      using assms(1) by (simp add: candidate_streamed_def candidate_content_def list_all_iff filter_empty_conv)
    with None show ?thesis by (simp only: drop_padding [of "concat _"]) simp
  next
    case (Some k)
    then obtain fss where "list_all2 fragments (gk_Parts k) fss" "concat (map content_parts cs) = concat fss" "settled (gk_Parts k)"
      using assms(1) by (auto simp: candidate_streamed_def candidate_content_def)
    with absorb_parts [of "gk_Parts k" fss "[]"] Some show ?thesis by simp
  qed
  have content: "gcd_Content (assemble_candidate i (fold absorb_candidate cs new_cand_state)) = gcd_Content r"
    using assms(1) role parts
    by (cases "gcd_Content r")
       (auto simp: assemble_candidate_def absorb_candidates new_cand_state_def candidate_streamed_def candidate_content_def)
  with assms show ?thesis
    by (cases r)
       (simp add: assemble_candidate_def absorb_candidates new_cand_state_def candidate_streamed_def carried_announced merge_empty)
qed

lemma absorb_all:
  "fold gemini_absorb chunks s =
     \<lparr>gst_base = fold gemini_absorb_base chunks (gst_base s),
      gst_candidates = fold upsert_candidate (concat (map grr_Candidates chunks)) (gst_candidates s)\<rparr>"
  proof (induction chunks arbitrary: s)
  case (Cons c chunks)
  show ?case unfolding fold_Cons comp_apply Cons.IH list.map concat.simps fold_append by (simp add: gemini_absorb_def)
qed simp

lemma candidate_states:
  "cs \<noteq> [] \<Longrightarrow>
     fold (\<lambda>c s. Some (absorb_candidate c (case s of Some st \<Rightarrow> st | None \<Rightarrow> new_cand_state))) cs None =
     Some (fold absorb_candidate cs new_cand_state)"
proof -
  have "fold (\<lambda>c s. Some (absorb_candidate c (case s of Some st \<Rightarrow> st | None \<Rightarrow> new_cand_state))) cs (Some st) =
      Some (fold absorb_candidate cs st)" for st
    by (induction cs arbitrary: st) simp_all
  then show "cs \<noteq> [] \<Longrightarrow> ?thesis" by (cases cs) simp_all
qed


definition blank_candidate :: g_candidate where
  "blank_candidate =
     \<lparr>gcd_Content = None, gcd_FinishReason = None, gcd_FinishMessage = None, gcd_Index = None, gcd_SafetyRatings = [],
      gcd_Citations = None, gcd_TokenCount = None, gcd_Grounding = None, gcd_URLContext = [], gcd_Logprobs = [], gcd_Extra = []\<rparr>"

definition says :: "g_part list \<Rightarrow> g_candidate" where
  "says ps = blank_candidate\<lparr>gcd_Content := Some \<lparr>gk_Role = ''model'', gk_Parts = ps, gk_Extra = []\<rparr>\<rparr>"

definition blank_chunk :: g_response where
  "blank_chunk = gst_base newGeminiState"

definition sample_gemini :: g_response where
  "sample_gemini =
     blank_chunk\<lparr>grr_Candidates := [(says [plain ''Hello'', GOther ''code''])\<lparr>gcd_Index := Some 0, gcd_FinishReason := Some ''STOP''\<rparr>],
       grr_Usage := Some ''u''\<rparr>"

definition sample_gemini_chunks :: "g_response list" where
  "sample_gemini_chunks =
     [blank_chunk\<lparr>grr_Candidates := [says [plain ''Hel'']]\<rparr>, blank_chunk\<lparr>grr_Candidates := [says [plain [], plain ''lo'', GOther ''code'']]\<rparr>,
      blank_chunk\<lparr>grr_Candidates := [blank_candidate\<lparr>gcd_FinishReason := Some ''STOP'', gcd_URLContext := ''{}''\<rparr>], grr_Usage := Some ''u''\<rparr>]"

lemmas gemini_sample = sample_gemini_def sample_gemini_chunks_def blank_chunk_def newGeminiState_def says_def blank_candidate_def


section \<open>Responses\<close>

text \<open>An event as far as the accumulator reads it; an unknown type is kept by the registry and ignored.\<close>

record responses_event =
  rv_Type :: string
  rv_Response :: string
  rv_OutputIndex :: int
  rv_Item :: string

record responses_body =
  rb_Object :: string
  rb_Output :: "string list"
  rb_Rest :: string

record responses_codec =
  rc_event :: "string \<Rightarrow> responses_event option"
  rc_item :: "string \<Rightarrow> string option"
  rc_response :: "string \<Rightarrow> responses_body option"
  rc_encode :: "responses_body \<Rightarrow> string option"

record responses_state =
  rs_snapshot :: string
  rs_hasFinal :: bool
  rs_hasPartial :: bool
  rs_finalized :: "(int \<times> string) list"

text \<open>What an accumulator gives back.\<close>

record acc_result =
  res_Assembled :: string
  res_Recognised :: bool
  res_Partial :: bool

definition newResponsesState :: responses_state where
  "newResponsesState = \<lparr>rs_snapshot = [], rs_hasFinal = False, rs_hasPartial = False, rs_finalized = []\<rparr>"

definition responses_absorb :: "responses_event \<Rightarrow> responses_state \<Rightarrow> responses_state" where
  "responses_absorb e s =
     (if rv_Type e = ''response.completed'' \<or> rv_Type e = ''response.failed''
      then if rv_Response e \<noteq> [] then s\<lparr>rs_snapshot := rv_Response e, rs_hasFinal := True\<rparr> else s
      else if rv_Type e = ''response.in_progress''
      then if \<not> rs_hasFinal s \<and> rv_Response e \<noteq> [] then s\<lparr>rs_snapshot := rv_Response e, rs_hasPartial := True\<rparr> else s
      else if rv_Type e = ''response.created''
      then if \<not> rs_hasFinal s \<and> \<not> rs_hasPartial s \<and> rv_Response e \<noteq> [] then s\<lparr>rs_snapshot := rv_Response e\<rparr> else s
      else if rv_Type e = ''response.output_item.done''
      then if rv_Item e \<noteq> [] then s\<lparr>rs_finalized := AList.update (rv_OutputIndex e) (rv_Item e) (rs_finalized s)\<rparr> else s
      else s)"

definition orderedFinalizedItems :: "responses_codec \<Rightarrow> (int \<times> string) list \<Rightarrow> string list" where
  "orderedFinalizedItems c finalized =
     List.map_filter (\<lambda>idx. rc_item c (the (map_of finalized idx))) (sort (map fst finalized))"

definition foldFinalizedOutput :: "responses_codec \<Rightarrow> string \<Rightarrow> (int \<times> string) list \<Rightarrow> string" where
  "foldFinalizedOutput c snapshot finalized =
     (if finalized = [] then snapshot
      else case rc_response c snapshot of
             None \<Rightarrow> snapshot
           | Some resp \<Rightarrow>
               if rb_Output resp \<noteq> [] then snapshot
               else let items = orderedFinalizedItems c finalized
                    in if items = [] then snapshot
                       else case rc_encode c (resp\<lparr>rb_Output := items\<rparr>) of None \<Rightarrow> snapshot | Some out \<Rightarrow> out)"

definition accumulateOpenAIResponses :: "responses_codec \<Rightarrow> string \<Rightarrow> acc_result" where
  "accumulateOpenAIResponses c raw =
     (case event_walk (rc_event c) responses_absorb (parseSSE raw) (False, newResponsesState) of
        (partial, s) \<Rightarrow>
          if rs_snapshot s = []
          then (let shell = \<lparr>rb_Object = ''response'', rb_Output = orderedFinalizedItems c (rs_finalized s), rb_Rest = []\<rparr>
                in case rc_encode c shell of
                     None \<Rightarrow> \<lparr>res_Assembled = [], res_Recognised = False, res_Partial = True\<rparr>
                   | Some out \<Rightarrow> \<lparr>res_Assembled = out, res_Recognised = False, res_Partial = True\<rparr>)
          else \<lparr>res_Assembled = foldFinalizedOutput c (rs_snapshot s) (rs_finalized s), res_Recognised = False,
                res_Partial = (partial \<or> \<not> rs_hasFinal s)\<rparr>)"

text \<open>The terminal snapshots of a stream, and its finished items.\<close>

definition final_event :: "responses_event \<Rightarrow> bool" where
  "final_event e \<longleftrightarrow> (rv_Type e = ''response.completed'' \<or> rv_Type e = ''response.failed'') \<and> rv_Response e \<noteq> []"

definition item_event :: "responses_event \<Rightarrow> bool" where
  "item_event e \<longleftrightarrow> rv_Type e = ''response.output_item.done'' \<and> rv_Item e \<noteq> []"

lemma absorb_item:
  "rs_finalized (responses_absorb e s) =
     (if item_event e then upsert rv_OutputIndex (\<lambda>e _. rv_Item e) e (rs_finalized s) else rs_finalized s)"
  by (auto simp: responses_absorb_def item_event_def upsert_def)

lemma absorb_items:
  "rs_finalized (fold responses_absorb es s) =
     fold (upsert rv_OutputIndex (\<lambda>e _. rv_Item e)) (filter item_event es) (rs_finalized s)"
  by (induction es arbitrary: s) (simp_all add: absorb_item)

lemma absorb_snapshot:
  "final_event e \<Longrightarrow> rs_hasFinal (responses_absorb e s) \<and> rs_snapshot (responses_absorb e s) = rv_Response e"
  "\<not> final_event e \<Longrightarrow> rs_hasFinal (responses_absorb e s) = rs_hasFinal s"
  "\<not> final_event e \<Longrightarrow> rs_hasFinal s \<Longrightarrow> rs_snapshot (responses_absorb e s) = rs_snapshot s"
  by (auto simp: responses_absorb_def final_event_def)

lemma absorb_final:
  "(rs_hasFinal (fold responses_absorb es newResponsesState) \<longleftrightarrow> filter final_event es \<noteq> []) \<and>
     (filter final_event es \<noteq> [] \<longrightarrow>
        rs_snapshot (fold responses_absorb es newResponsesState) = rv_Response (last (filter final_event es)))"
proof (induction es rule: rev_induct)
  case (snoc e es)
  then show ?case
    using absorb_snapshot [of e "fold responses_absorb es newResponsesState"] by (cases "final_event e") simp_all
qed (simp add: newResponsesState_def)

lemma map_filter_all: "map f xs = map Some ys \<Longrightarrow> List.map_filter f xs = ys"
  by (induction xs arbitrary: ys) (auto simp: List.map_filter_simps)

lemma last_item: "xs \<noteq> [] \<Longrightarrow> fold (\<lambda>e s. Some (f e)) xs s = Some (f (last xs))"
  by (induction xs arbitrary: s) auto


text \<open>
  A response that was cut at its token limit ends with \<^verbatim>\<open>response.incomplete\<close>, which the registry does not know:
  its snapshot is ignored and the response shown as in progress and partial.
\<close>

lemma incomplete_response_ignored:
  assumes "map (rc_event c) (map ev_Data (parseSSE raw)) =
      map Some [\<lparr>rv_Type = ''response.in_progress'', rv_Response = s1, rv_OutputIndex = 0, rv_Item = []\<rparr>,
        \<lparr>rv_Type = ''response.incomplete'', rv_Response = s2, rv_OutputIndex = 0, rv_Item = []\<rparr>]"
    "[] \<notin> set (map ev_Data (parseSSE raw))" "s1 \<noteq> []"
  shows "accumulateOpenAIResponses c raw = \<lparr>res_Assembled = s1, res_Recognised = False, res_Partial = True\<rparr>"
  unfolding accumulateOpenAIResponses_def walk_events [OF assms(1,2)] using assms(3)
  by (simp add: responses_absorb_def newResponsesState_def foldFinalizedOutput_def)

definition sample_responses :: "responses_event list" where
  "sample_responses =
     [\<lparr>rv_Type = ''response.created'', rv_Response = ''a'', rv_OutputIndex = 0, rv_Item = []\<rparr>,
      \<lparr>rv_Type = ''response.output_item.done'', rv_Response = [], rv_OutputIndex = 1, rv_Item = ''q''\<rparr>,
      \<lparr>rv_Type = ''response.output_item.done'', rv_Response = [], rv_OutputIndex = 0, rv_Item = ''p''\<rparr>,
      \<lparr>rv_Type = ''response.completed'', rv_Response = ''b'', rv_OutputIndex = 0, rv_Item = []\<rparr>]"

definition sample_responses_codec :: responses_codec where
  "sample_responses_codec =
     \<lparr>rc_event = map_of (zip [''0'', ''1'', ''2'', ''3''] sample_responses), rc_item = Some,
      rc_response = (\<lambda>s. Some \<lparr>rb_Object = ''response'', rb_Output = [], rb_Rest = s\<rparr>),
      rc_encode = (\<lambda>b. Some (concat (rb_Output b) @ rb_Rest b))\<rparr>"


section \<open>Dispatch\<close>

record acc_codecs =
  ak_chat :: "string \<Rightarrow> acc_chunk option"
  ak_chat_encode :: "acc_completion \<Rightarrow> string option"
  ak_messages :: messages_codec
  ak_messages_encode :: "acc_response \<Rightarrow> string option"
  ak_gemini :: "string \<Rightarrow> g_response option"
  ak_gemini_encode :: "g_response \<Rightarrow> string option"
  ak_responses :: responses_codec

definition encoded :: "('a \<Rightarrow> string option) \<Rightarrow> 'a \<times> bool \<Rightarrow> acc_result" where
  "encoded encode a =
     (case encode (fst a) of
        None \<Rightarrow> \<lparr>res_Assembled = [], res_Recognised = False, res_Partial = True\<rparr>
      | Some out \<Rightarrow> \<lparr>res_Assembled = out, res_Recognised = False, res_Partial = snd a\<rparr>)"

definition accumulators :: "acc_codecs \<Rightarrow> (string \<times> (string \<Rightarrow> acc_result)) list" where
  "accumulators k =
     [(''chat_completions'', \<lambda>raw. encoded (ak_chat_encode k) (accumulateOpenAIChat (ak_chat k) raw)),
      (''chat'', \<lambda>raw. encoded (ak_chat_encode k) (accumulateOpenAIChat (ak_chat k) raw)),
      (''messages'', \<lambda>raw. encoded (ak_messages_encode k) (accumulateAnthropicMessages (ak_messages k) raw)),
      (''generate_content'', \<lambda>raw. encoded (ak_gemini_encode k) (accumulateGeminiContent (ak_gemini k) raw)),
      (''responses'', accumulateOpenAIResponses (ak_responses k))]"

definition no_result :: acc_result where
  "no_result = \<lparr>res_Assembled = [], res_Recognised = False, res_Partial = False\<rparr>"

definition Accumulate :: "acc_codecs \<Rightarrow> string \<Rightarrow> string \<Rightarrow> string \<Rightarrow> acc_result" where
  "Accumulate k provider endpoint raw =
     (case map_of (accumulators k) endpoint of
        None \<Rightarrow> no_result
      | Some fn \<Rightarrow> if raw = [] then no_result else (fn raw)\<lparr>res_Recognised := True\<rparr>)"

text \<open>The response the live feed and the connectors get for a streamed request, and whether it is partial.\<close>

definition assembleResponse :: "acc_codecs \<Rightarrow> bool \<Rightarrow> string \<Rightarrow> string \<Rightarrow> string option \<Rightarrow> string option \<times> bool" where
  "assembleResponse k streaming provider protocol buf =
     (if \<not> streaming then (None, False)
      else case buf of
             None \<Rightarrow> (None, False)
           | Some body \<Rightarrow>
               if body = [] then (None, False)
               else let res = Accumulate k provider protocol body
                    in if \<not> res_Recognised res then (None, False) else (Some (res_Assembled res), res_Partial res))"

definition responseForUnmapped :: "acc_codecs \<Rightarrow> bool \<Rightarrow> string \<Rightarrow> string \<Rightarrow> string option \<Rightarrow> string option" where
  "responseForUnmapped k streaming provider protocol buf =
     (case buf of
        None \<Rightarrow> None
      | Some raw \<Rightarrow>
          if raw = [] then None
          else if \<not> streaming then Some raw
          else let res = Accumulate k provider protocol raw
               in if res_Recognised res \<and> res_Assembled res \<noteq> [] then Some (res_Assembled res) else None)"

text \<open>Both readers of a streamed response see the same reconstruction.\<close>

lemma readers_agree:
  "responseForUnmapped k True provider protocol buf = Some out \<longleftrightarrow>
     fst (assembleResponse k True provider protocol buf) = Some out \<and> out \<noteq> []"
  by (auto simp: responseForUnmapped_def assembleResponse_def Let_def split: option.splits)

end
