(* ===== verification/Record_Filter.thy ===== *)
theory Record_Filter
  imports Connector_Schema Connector_Record "HOL-Library.Word"
begin

text \<open>
  What a connector binding does to a record (\<^verbatim>\<open>cmd/gateway/binding.go\<close>): sampling by a hash of the correlation id
  on 64-bit words, the filter, and the cap on bodies. The random number of random sampling is an argument.
\<close>

unbundle bit_operations_syntax

section \<open>Sampling\<close>

text \<open>FNV-1a over 64 bits, as \<^verbatim>\<open>hash/fnv\<close> computes it byte by byte.\<close>

definition fnv64a :: "string \<Rightarrow> 64 word" where
  "fnv64a s = foldl (\<lambda>h c. (h XOR word_of_nat (of_char c)) * 0x100000001B3) 0xCBF29CE484222325 s"

definition sample_bucket :: "string \<Rightarrow> rat" where
  "sample_bucket cid = of_int (uint (fnv64a cid AND 0xFFFFFFFFFFFF)) / of_int (0xFFFFFFFFFFFF + 1)"

text \<open>The random number of a \<^verbatim>\<open>random\<close> sampling is an argument.\<close>

definition samplingIncludes :: "f64 \<Rightarrow> connector_record \<Rightarrow> connector_binding \<Rightarrow> bool" where
  "samplingIncludes rnd rec b =
     (let s = SamplingRate (Some b)
      in if f64_less s (Fin 0) \<or> f64_eq s (Fin 0) then False
         else if f64_less (Fin 1) s \<or> f64_eq s (Fin 1) then True
         else let bucket = (if cb_SamplingKey b = ''random'' then rnd else Fin (sample_bucket (cr_CorrelationID (cr_Ids rec))))
              in f64_less bucket s)"

section \<open>Filters\<close>

fun inStringList :: "string \<Rightarrow> string list \<Rightarrow> bool" where
  "inStringList v list = (list = [] \<or> v \<in> set list)"

fun model_pattern_loop :: "string \<Rightarrow> string list \<Rightarrow> bool" where
  "model_pattern_loop model [] = False"
| "model_pattern_loop model (p # ps) =
     (if has_suffix p ''*''
      then has_prefix model (butlast p) \<or> model_pattern_loop model ps
      else p = model \<or> model_pattern_loop model ps)"

definition filter_models :: "string \<Rightarrow> string list \<Rightarrow> bool" where
  "filter_models model patterns = (patterns = [] \<or> model_pattern_loop model patterns)"

definition matchesTagsAny :: "string list \<Rightarrow> string list \<Rightarrow> bool" where
  "matchesTagsAny recTags want = (want = [] \<or> list_ex (\<lambda>w. w \<in> set recTags) want)"

definition matchesTagsAll :: "string list \<Rightarrow> string list \<Rightarrow> bool" where
  "matchesTagsAll recTags want = list_all (\<lambda>w. w \<in> set recTags) want"

definition matchesFilter :: "connector_record \<Rightarrow> connector_filter option \<Rightarrow> bool" where
  "matchesFilter rec fo =
     (case fo of
        None \<Rightarrow> True
      | Some f \<Rightarrow>
          if \<not> inStringList (cr_Provider rec) (cf_Providers f) then False
          else if \<not> inStringList (cr_Protocol rec) (cf_Protocols f) then False
          else if \<not> filter_models (cr_Model rec) (cf_Models f) then False
          else (let statusMin = (if cf_StatusMin f = 0 then 200 else cf_StatusMin f);
                    statusMax = (if cf_StatusMax f = 0 then 599 else cf_StatusMax f);
                    status = (if cr_UpstreamStatus rec = 0 then crs_Status (cr_Response rec) else cr_UpstreamStatus rec)
                in if status < statusMin \<or> status > statusMax then False
                   else if \<not> matchesTagsAny (cr_Tags rec) (cf_TagsAny f) then False
                   else matchesTagsAll (cr_Tags rec) (cf_TagsAll f)))"

section \<open>Size caps\<close>

record oversize_outcome =
  ov_Triggered :: bool
  ov_Dropped :: bool
  ov_CapBytes :: int
  ov_BodyBytes :: int

definition not_oversize :: oversize_outcome where
  "not_oversize = \<lparr>ov_Triggered = False, ov_Dropped = False, ov_CapBytes = 0, ov_BodyBytes = 0\<rparr>"

definition strip_bodies :: "connector_record \<Rightarrow> connector_record" where
  "strip_bodies rec =
     rec\<lparr>cr_Request := (cr_Request rec)\<lparr>crq_Body := None, crq_BodyOmitted := True\<rparr>,
       cr_Response := (cr_Response rec)\<lparr>crs_Body := None, crs_BodyOmitted := True, crs_Assembled := None,
         crs_AssemblyPartial := False\<rparr>\<rparr>"

text \<open>A record that is not shipped is the zero record of the source, here \<open>None\<close>.\<close>

definition applyOversize :: "connector_record \<Rightarrow> connector_binding \<Rightarrow> string \<Rightarrow> connector_record option \<times> oversize_outcome" where
  "applyOversize rec b connectorType =
     (let maxBytes = (case cb_MaxBodyBytes b of None \<Rightarrow> DefaultMaxBodyBytes connectorType | Some n \<Rightarrow> n)
      in if maxBytes \<le> 0 then (Some rec, not_oversize)
         else let maxLen = max (crq_BodyBytes (cr_Request rec)) (crs_BodyBytes (cr_Response rec))
              in if maxLen \<le> maxBytes then (Some rec, not_oversize)
                 else let behaviour = (if cb_OversizeBehaviour b = [] then ''metadata_only'' else cb_OversizeBehaviour b)
                      in if behaviour = ''drop_record''
                         then (None, \<lparr>ov_Triggered = True, ov_Dropped = True, ov_CapBytes = maxBytes, ov_BodyBytes = maxLen\<rparr>)
                         else if behaviour = ''metadata_only''
                         then (Some (strip_bodies rec),
                               \<lparr>ov_Triggered = True, ov_Dropped = False, ov_CapBytes = maxBytes, ov_BodyBytes = maxLen\<rparr>)
                         else (Some rec, not_oversize))"

definition evaluateBinding ::
  "f64 \<Rightarrow> connector_record \<Rightarrow> connector_binding \<Rightarrow> string \<Rightarrow> connector_record option \<times> oversize_outcome" where
  "evaluateBinding rnd rec b connectorType =
     (if \<not> samplingIncludes rnd rec b then (None, not_oversize)
      else if \<not> matchesFilter rec (cb_Filter b) then (None, not_oversize)
      else applyOversize rec b connectorType)"

section \<open>Properties\<close>

lemma bucket_word: "uint ((w :: 64 word) AND 0xFFFFFFFFFFFF) < 2 ^ 48"
proof -
  have "w AND 0xFFFFFFFFFFFF = take_bit 48 w" by (simp add: take_bit_eq_mask mask_eq_exp_minus_1)
  then show ?thesis by (simp add: take_bit_eq_mod uint_mod unsigned_take_bit_eq)
qed

lemma bucket_unit: "0 \<le> sample_bucket cid" "sample_bucket cid < 1"
proof -
  have "uint (fnv64a cid AND 0xFFFFFFFFFFFF) < 0xFFFFFFFFFFFF + 1"
    using bucket_word [of "fnv64a cid"] by simp
  then have "(of_int (uint (fnv64a cid AND 0xFFFFFFFFFFFF)) :: rat) < of_int (0xFFFFFFFFFFFF + 1)"
    by (simp only: of_int_less_iff)
  then show "sample_bucket cid < 1" unfolding sample_bucket_def by (subst divide_less_eq_1_pos) simp_all
  have "0 \<le> uint (fnv64a cid AND 0xFFFFFFFFFFFF)" by simp
  then have "(0 :: rat) \<le> of_int (uint (fnv64a cid AND 0xFFFFFFFFFFFF))" by (simp only: of_int_0_le_iff)
  then show "0 \<le> sample_bucket cid" unfolding sample_bucket_def by (intro divide_nonneg_nonneg) simp_all
qed

text \<open>
  A size cap holds: whatever the body sizes, a record that a validated binding with a cap ships either is
  within the cap, unchanged, or has lost both bodies and the assembled response and says so.
\<close>

theorem capped_bodies_never_ship:
  assumes "binding_Validate (Some b) = None" "cb_MaxBodyBytes b = Some n" "0 < n"
    and "fst (evaluateBinding rnd rec b connectorType) = Some out"
  shows "out = rec \<and> crq_BodyBytes (cr_Request rec) \<le> n \<and> crs_BodyBytes (cr_Response rec) \<le> n \<or>
    crq_Body (cr_Request out) = None \<and> crs_Body (cr_Response out) = None \<and> crs_Assembled (cr_Response out) = None \<and>
    crq_BodyOmitted (cr_Request out) \<and> crs_BodyOmitted (cr_Response out)"
proof -
  have "cb_OversizeBehaviour b \<in> {[], ''metadata_only'', ''drop_record''}"
    using assms(1) by (auto simp: binding_Validate_def split: if_splits)
  then show ?thesis
    using assms(2-4) by (auto simp: evaluateBinding_def applyOversize_def strip_bodies_def Let_def split: if_splits)
qed

definition sample_capped :: connector_binding where
  "sample_capped =
     \<lparr>cb_Connector = ''s3'', cb_Sampling = None, cb_SamplingKey = [], cb_MaxBodyBytes = Some 3, cb_OversizeBehaviour = [],
      cb_Filter = None\<rparr>"

lemma capped_bodies_never_ship_witness:
  "fst (evaluateBinding (Fin 0) sample_record sample_capped ''s3'') = Some (strip_bodies sample_record) \<and>
     crs_Body (cr_Response (strip_bodies sample_record)) = None"
proof -
  have v: "binding_Validate (Some sample_capped) = None" by code_simp
  have s: "fst (evaluateBinding (Fin 0) sample_record sample_capped ''s3'') = Some (strip_bodies sample_record)"
    by (simp add: evaluateBinding_def samplingIncludes_def SamplingRate_def matchesFilter_def applyOversize_def sample_capped_def
        sample_record_def Let_def)
  have n: "strip_bodies sample_record \<noteq> sample_record" by (simp add: strip_bodies_def sample_record_def)
  from capped_bodies_never_ship [OF v _ _ s, of 3] s n show ?thesis by (simp add: sample_capped_def)
qed

text \<open>
  Sampling by correlation id is consistent: a higher rate keeps every record a lower one keeps, and requests of
  one correlation id are kept or dropped together.
\<close>

lemma sampling_consistent:
  assumes "cb_SamplingKey b \<noteq> ''random''" "cb_SamplingKey b' \<noteq> ''random''"
    and "SamplingRate (Some b) = Fin s" "SamplingRate (Some b') = Fin s'" "s \<le> s'"
    and "cr_CorrelationID (cr_Ids rec) = cr_CorrelationID (cr_Ids rec')"
  shows "samplingIncludes rnd rec b \<Longrightarrow> samplingIncludes rnd' rec' b'"
  using assms bucket_unit [of "cr_CorrelationID (cr_Ids rec')"]
  by (auto simp: samplingIncludes_def Let_def split: if_splits)

text \<open>The kept share is the rate: the bucket is a number in the unit interval with 48 bits.\<close>

lemma sampling_meaning:
  assumes "cb_SamplingKey b \<noteq> ''random''" "SamplingRate (Some b) = Fin s"
  shows "samplingIncludes rnd rec b \<longleftrightarrow> sample_bucket (cr_CorrelationID (cr_Ids rec)) < s"
  using assms bucket_unit [of "cr_CorrelationID (cr_Ids rec)"]
  by (auto simp: samplingIncludes_def Let_def)

end
