(* ===== verification/Pusher.thy ===== *)
theory Pusher
  imports Connector_Record
begin

text \<open>
  The real-time sender of records to a webhook (\<^verbatim>\<open>internal/arbiter/pusher\<close>): a bounded queue that drops when it is
  full, workers that deliver with retries and back-off, and the close. The queue and the records the workers hold
  are part of the state; the workers, the request path and the close are the steps of a relation.
\<close>

section \<open>State\<close>

record push_options =
  po_Endpoint :: string
  po_GatewayID :: string
  po_Secret :: string
  po_Workers :: int
  po_Buffer :: int
  po_Timeout :: int
  po_MaxAttempts :: int
  po_BackoffBase :: int
  po_BackoffMax :: int

text \<open>
  \<open>pu_Queue\<close> is the content of the channel, \<open>pu_InFlight\<close> the records the workers hold; \<open>pu_Drops\<close> and
  \<open>pu_Failures\<close> are the calls of the two hooks.
\<close>

record pusher =
  pu_Endpoint :: string
  pu_GatewayID :: string
  pu_Secret :: string
  pu_Timeout :: int
  pu_MaxAttempts :: nat
  pu_BackoffBase :: int
  pu_BackoffMax :: int
  pu_Buffer :: nat
  pu_Workers :: nat
  pu_Queue :: "connector_record list"
  pu_InFlight :: "connector_record list"
  pu_Closed :: bool
  pu_Dropped :: nat
  pu_Sent :: nat
  pu_Failed :: nat
  pu_Lost :: nat
  pu_Drops :: "string list"
  pu_Failures :: "string list"

definition positive_or :: "int \<Rightarrow> int \<Rightarrow> int" where
  "positive_or n d = (if n \<le> 0 then d else n)"

text \<open>Durations are nanoseconds.\<close>

definition New_pusher :: "push_options \<Rightarrow> pusher" where
  "New_pusher opts =
     \<lparr>pu_Endpoint = po_Endpoint opts, pu_GatewayID = po_GatewayID opts, pu_Secret = po_Secret opts,
      pu_Timeout = positive_or (po_Timeout opts) 5000000000, pu_MaxAttempts = nat (positive_or (po_MaxAttempts opts) 5),
      pu_BackoffBase = positive_or (po_BackoffBase opts) 250000000, pu_BackoffMax = positive_or (po_BackoffMax opts) 5000000000,
      pu_Buffer = nat (positive_or (po_Buffer opts) 1024), pu_Workers = nat (positive_or (po_Workers opts) 2),
      pu_Queue = [], pu_InFlight = [], pu_Closed = False, pu_Dropped = 0, pu_Sent = 0, pu_Failed = 0, pu_Lost = 0,
      pu_Drops = [], pu_Failures = []\<rparr>"

section \<open>Accepting records\<close>

definition push_drop :: "string \<Rightarrow> pusher \<Rightarrow> pusher" where
  "push_drop reason p = p\<lparr>pu_Dropped := pu_Dropped p + 1, pu_Drops := pu_Drops p @ [reason]\<rparr>"

definition push_Enqueue :: "connector_record \<Rightarrow> pusher \<Rightarrow> bool \<times> pusher" where
  "push_Enqueue rec p =
     (if pu_Closed p then (False, push_drop ''closed'' p)
      else if length (pu_Queue p) < pu_Buffer p then (True, p\<lparr>pu_Queue := pu_Queue p @ [rec]\<rparr>)
      else (False, push_drop ''queue_full'' p))"

definition push_Close :: "pusher \<Rightarrow> pusher" where
  "push_Close p = p\<lparr>pu_Closed := True\<rparr>"

section \<open>Sending\<close>

datatype send_outcome = sendOK | sendRetry | sendRejected | sendEncode

datatype http_result = NetworkError | HttpStatus int

text \<open>\<^verbatim>\<open>json.Marshal\<close>, whether the request can be built, and HMAC-SHA256 of a key and a message.\<close>

record push_env =
  pe_marshal :: "connector_record \<Rightarrow> string option"
  pe_buildable :: "string \<Rightarrow> bool"
  pe_hmac :: "string \<Rightarrow> string \<Rightarrow> string"

record push_request =
  pq_URL :: string
  pq_Headers :: "(string \<times> string) list"
  pq_Body :: string

definition hex_digit :: "nat \<Rightarrow> char" where
  "hex_digit n = ''0123456789abcdef'' ! n"

definition hex_encode :: "string \<Rightarrow> string" where
  "hex_encode s = concat (map (\<lambda>c. [hex_digit (of_char c div 16), hex_digit (of_char c mod 16)]) s)"

definition push_sign :: "push_env \<Rightarrow> pusher \<Rightarrow> string \<Rightarrow> string" where
  "push_sign env p body = hex_encode (pe_hmac env (pu_Secret p) body)"

definition retryableStatus :: "int \<Rightarrow> bool" where
  "retryableStatus code = (code = 408 \<or> code = 429 \<or> code \<ge> 500)"

definition push_request_of :: "push_env \<Rightarrow> pusher \<Rightarrow> string \<Rightarrow> push_request" where
  "push_request_of env p raw =
     \<lparr>pq_URL = pu_Endpoint p,
      pq_Headers = [(''Content-Type'', ''application/json''), (''X-Slipspace-Gateway-Id'', pu_GatewayID p),
        (''X-Slipspace-Signature'', push_sign env p raw)],
      pq_Body = raw\<rparr>"

definition fail_attempt :: "string list \<Rightarrow> pusher \<Rightarrow> pusher" where
  "fail_attempt kinds p = p\<lparr>pu_Failed := pu_Failed p + 1, pu_Failures := pu_Failures p @ kinds\<rparr>"

text \<open>The outcome, the request that went out, if any, and the pusher.\<close>

definition push_send :: "push_env \<Rightarrow> connector_record \<Rightarrow> http_result \<Rightarrow> pusher \<Rightarrow> send_outcome \<times> push_request list \<times> pusher" where
  "push_send env rec res p =
     (case pe_marshal env rec of
        None \<Rightarrow> (sendEncode, [], fail_attempt [] p)
      | Some raw \<Rightarrow>
          if \<not> pe_buildable env (pu_Endpoint p) then (sendEncode, [], fail_attempt [] p)
          else let req = push_request_of env p raw
               in case res of
                    NetworkError \<Rightarrow> (sendRetry, [req], fail_attempt [''network''] p)
                  | HttpStatus code \<Rightarrow>
                      if code < 200 \<or> code \<ge> 300
                      then (if retryableStatus code then sendRetry else sendRejected, [req], fail_attempt [''status''] p)
                      else (sendOK, [req], p\<lparr>pu_Sent := pu_Sent p + 1\<rparr>))"

definition push_lose :: "string \<Rightarrow> pusher \<Rightarrow> pusher" where
  "push_lose reason p = p\<lparr>pu_Lost := pu_Lost p + 1, pu_Drops := pu_Drops p @ [reason]\<rparr>"

fun backoff_loop :: "int \<Rightarrow> int \<Rightarrow> nat \<Rightarrow> int" where
  "backoff_loop m d 0 = min d m"
| "backoff_loop m d (Suc k) = (let d' = i64 (d * 2) in if d' \<ge> m then m else backoff_loop m d' k)"

definition backoffFor :: "pusher \<Rightarrow> nat \<Rightarrow> int" where
  "backoffFor p attempt = backoff_loop (pu_BackoffMax p) (pu_BackoffBase p) (attempt - 1)"

lemma send_frame [simp]:
  assumes "push_send env rec res p = (out, reqs, p')"
  shows "pu_MaxAttempts p' = pu_MaxAttempts p"
  using assms by (auto simp: push_send_def fail_attempt_def Let_def split: option.splits http_result.splits if_splits)

text \<open>
  The loop of \<^verbatim>\<open>deliver\<close>: \<open>results n\<close> is what attempt \<open>n\<close> meets, \<open>draining n\<close> whether the pusher was closed when
  it waits after it. It gives the requests, the waits and the pusher.
\<close>

function push_deliver ::
  "push_env \<Rightarrow> (nat \<Rightarrow> http_result) \<Rightarrow> (nat \<Rightarrow> bool) \<Rightarrow> connector_record \<Rightarrow> nat \<Rightarrow> pusher \<Rightarrow> push_request list \<times> int list \<times> pusher" where
  "push_deliver env results draining rec attempt p =
     (case push_send env rec (results attempt) p of
        (sendOK, reqs, p') \<Rightarrow> (reqs, [], p')
      | (sendEncode, reqs, p') \<Rightarrow> (reqs, [], push_lose ''encode'' p')
      | (sendRejected, reqs, p') \<Rightarrow> (reqs, [], push_lose ''rejected'' p')
      | (sendRetry, reqs, p') \<Rightarrow>
          if attempt \<ge> pu_MaxAttempts p' then (reqs, [], push_lose ''exhausted'' p')
          else case push_deliver env results draining rec (attempt + 1) p' of
                 (reqs', waits, p'') \<Rightarrow> (reqs @ reqs', (if draining attempt then 0 else backoffFor p' attempt) # waits, p''))"
  by pat_completeness auto
termination
  by (relation "measure (\<lambda>(env, results, draining, rec, attempt, p). pu_MaxAttempts p - attempt)")
     (auto dest!: send_frame [OF sym])

declare push_deliver.simps [simp del]

section \<open>One delivery\<close>

text \<open>What a delivery leaves alone: the settings and the queue.\<close>

definition push_frame :: "pusher \<Rightarrow> pusher \<Rightarrow> bool" where
  "push_frame p p' \<longleftrightarrow>
     p'\<lparr>pu_Sent := pu_Sent p, pu_Failed := pu_Failed p, pu_Lost := pu_Lost p, pu_Drops := pu_Drops p, pu_Failures := pu_Failures p\<rparr> = p"

lemma push_frame_refl: "push_frame p p"
  by (simp add: push_frame_def)

lemma push_frame_fields:
  "push_frame p p' \<Longrightarrow>
     pu_Endpoint p' = pu_Endpoint p \<and> pu_GatewayID p' = pu_GatewayID p \<and> pu_Secret p' = pu_Secret p \<and>
     pu_Timeout p' = pu_Timeout p \<and> pu_MaxAttempts p' = pu_MaxAttempts p \<and> pu_BackoffBase p' = pu_BackoffBase p \<and>
     pu_BackoffMax p' = pu_BackoffMax p \<and> pu_Buffer p' = pu_Buffer p \<and> pu_Workers p' = pu_Workers p \<and>
     pu_Queue p' = pu_Queue p \<and> pu_InFlight p' = pu_InFlight p \<and> pu_Closed p' = pu_Closed p \<and> pu_Dropped p' = pu_Dropped p"
  by (cases p; cases p') (simp add: push_frame_def)

lemma push_frame_trans: "push_frame p q \<Longrightarrow> push_frame q r \<Longrightarrow> push_frame p r"
  by (cases p; cases q; cases r) (simp add: push_frame_def)

lemma send_spec:
  assumes "push_send env rec res p = (out, reqs, p')"
  shows "push_frame p p'" "pu_Lost p' = pu_Lost p" "pu_Drops p' = pu_Drops p"
    "pu_Sent p' = pu_Sent p + (if out = sendOK then 1 else 0)" "length reqs \<le> 1"
    "\<And>q. q \<in> set reqs \<Longrightarrow> \<exists>raw. pe_marshal env rec = Some raw \<and> q = push_request_of env p raw"
  using assms
  by (auto simp: push_send_def fail_attempt_def push_frame_def Let_def split: option.splits http_result.splits if_splits)

lemma lose_spec:
  "push_frame p (push_lose reason p)" "pu_Lost (push_lose reason p) = pu_Lost p + 1" "pu_Sent (push_lose reason p) = pu_Sent p"
  "pu_Drops (push_lose reason p) = pu_Drops p @ [reason]"
  by (simp_all add: push_lose_def push_frame_def)

lemma request_of_frame: "push_frame p p' \<Longrightarrow> push_request_of env p' raw = push_request_of env p raw"
  using push_frame_fields [of p p'] by (simp add: push_request_of_def push_sign_def)

lemma backoff_le: "backoff_loop m d k \<le> m"
  by (induction k arbitrary: d) (simp_all add: Let_def)

lemma push_deliver_spec:
  assumes "push_deliver env results draining rec attempt p = (reqs, waits, p')"
  shows "push_frame p p' \<and>
    (pu_Sent p' = pu_Sent p + 1 \<and> pu_Lost p' = pu_Lost p \<and> pu_Drops p' = pu_Drops p \<or>
     pu_Sent p' = pu_Sent p \<and> pu_Lost p' = pu_Lost p + 1 \<and> (\<exists>reason. pu_Drops p' = pu_Drops p @ [reason])) \<and>
    length reqs \<le> Suc (pu_MaxAttempts p - attempt) \<and> length waits \<le> pu_MaxAttempts p - attempt \<and>
    (\<forall>w \<in> set waits. w \<le> max 0 (pu_BackoffMax p)) \<and>
    (\<forall>q \<in> set reqs. \<exists>raw. pe_marshal env rec = Some raw \<and> q = push_request_of env p raw)"
  using assms
proof (induction env results draining rec attempt p arbitrary: reqs waits p' rule: push_deliver.induct)
  case (1 env results draining rec attempt p)
  obtain out rq p1 where s: "push_send env rec (results attempt) p = (out, rq, p1)" by (metis prod_cases3)
  note sp = send_spec [OF s]
  show ?case
  proof (cases "out = sendRetry \<and> attempt < pu_MaxAttempts p1")
    case False
    then have "\<exists>reason. p' = (if out = sendOK then p1 else push_lose reason p1) \<and> reqs = rq \<and> waits = []"
      using 1(2) s by (cases out) (auto simp: push_deliver.simps [of env results draining rec attempt p])
    with sp push_frame_trans [OF sp(1) lose_spec(1)] show ?thesis by (cases "out = sendOK") (auto simp: lose_spec)
  next
    case True
    obtain rq' w' p2 where d: "push_deliver env results draining rec (attempt + 1) p1 = (rq', w', p2)" by (metis prod_cases3)
    have e: "reqs = rq @ rq'" "waits = (if draining attempt then 0 else backoffFor p1 attempt) # w'" "p' = p2"
      using 1(2) s d True by (auto simp: push_deliver.simps [of env results draining rec attempt p])
    have ih: "push_frame p1 p2 \<and>
        (pu_Sent p2 = pu_Sent p1 + 1 \<and> pu_Lost p2 = pu_Lost p1 \<and> pu_Drops p2 = pu_Drops p1 \<or>
         pu_Sent p2 = pu_Sent p1 \<and> pu_Lost p2 = pu_Lost p1 + 1 \<and> (\<exists>reason. pu_Drops p2 = pu_Drops p1 @ [reason])) \<and>
        length rq' \<le> Suc (pu_MaxAttempts p1 - (attempt + 1)) \<and> length w' \<le> pu_MaxAttempts p1 - (attempt + 1) \<and>
        (\<forall>w \<in> set w'. w \<le> max 0 (pu_BackoffMax p1)) \<and>
        (\<forall>q \<in> set rq'. \<exists>raw. pe_marshal env rec = Some raw \<and> q = push_request_of env p1 raw)"
      using 1(1) [of out "(rq, p1)" rq p1] s d True by simp
    note f = push_frame_fields [OF sp(1)] and r = request_of_frame [OF sp(1)]
    have "push_frame p p2" using push_frame_trans sp(1) ih by blast
    moreover have "backoffFor p1 attempt \<le> pu_BackoffMax p" using f by (simp add: backoffFor_def backoff_le)
    moreover have "pu_Sent p1 = pu_Sent p" using sp(4) True by simp
    ultimately show ?thesis
      using ih sp(2,3,5,6) True f r by (auto simp: e)
  qed
qed

text \<open>The schedule: the base doubled per attempt, up to the cap.\<close>

lemma backoff_doubles:
  assumes "0 < d" "d < 2 ^ 62" "m < 2 ^ 62"
  shows "backoff_loop m d k = min (d * 2 ^ k) m"
  using assms
proof (induction k arbitrary: d)
  case (Suc k)
  have w: "i64 (d * 2) = d * 2" using Suc.prems by (intro i64_id) simp_all
  show ?case
  proof (cases "d * 2 \<ge> m")
    case True
    have "(1::int) \<le> 2 ^ k" by simp
    then have "d * 2 * 1 \<le> d * 2 * 2 ^ k" using Suc.prems(1) by (intro mult_left_mono) simp_all
    with True w show ?thesis by (simp add: Let_def min_def)
  next
    case False
    then have "d * 2 < 2 ^ 62" using Suc.prems(3) by simp
    with Suc.IH [of "d * 2"] Suc.prems False w show ?thesis by (simp add: Let_def mult.assoc)
  qed
qed simp

text \<open>
  C37. Transient failures do not lose a record: when one of the allowed attempts meets a success and those before
  it only network errors, timeouts, throttling or server errors, the record is delivered, after one request per
  attempt and the doubling waits.
\<close>

theorem transient_failures_survived:
  assumes "pe_marshal env rec = Some raw" "pe_buildable env (pu_Endpoint p)" "attempt \<le> n" "n \<le> pu_MaxAttempts p"
    and "\<forall>i. attempt \<le> i \<and> i < n \<longrightarrow> (case results i of NetworkError \<Rightarrow> True | HttpStatus code \<Rightarrow> retryableStatus code)"
    and "results n = HttpStatus ok" "200 \<le> ok" "ok < 300"
  shows "\<exists>p'. push_deliver env results (\<lambda>_. False) rec attempt p =
      (replicate (n + 1 - attempt) (push_request_of env p raw), map (backoffFor p) [attempt..<n], p') \<and>
    pu_Sent p' = pu_Sent p + 1 \<and> pu_Lost p' = pu_Lost p"
  using assms
proof (induction "n - attempt" arbitrary: attempt p)
  case 0
  then have "attempt = n" by simp
  then show ?case using 0 by (subst push_deliver.simps) (simp add: push_send_def Let_def)
next
  case (Suc k)
  have lt: "attempt < n" using Suc.hyps(2) by simp
  then have retry: "case results attempt of NetworkError \<Rightarrow> True | HttpStatus code \<Rightarrow> retryableStatus code" using Suc.prems by blast
  obtain kinds where s: "push_send env rec (results attempt) p = (sendRetry, [push_request_of env p raw], fail_attempt kinds p)"
    using retry Suc.prems(1,2) by (auto simp: push_send_def retryableStatus_def Let_def split: http_result.splits)
  let ?p1 = "fail_attempt kinds p"
  have f: "pu_Endpoint ?p1 = pu_Endpoint p" "pu_MaxAttempts ?p1 = pu_MaxAttempts p" "pu_Sent ?p1 = pu_Sent p" "pu_Lost ?p1 = pu_Lost p"
    "push_request_of env ?p1 raw = push_request_of env p raw" "backoffFor ?p1 = backoffFor p"
    by (simp_all add: fail_attempt_def push_request_of_def push_sign_def backoffFor_def fun_eq_iff)
  have "\<exists>p'. push_deliver env results (\<lambda>_. False) rec (attempt + 1) ?p1 =
      (replicate (n + 1 - (attempt + 1)) (push_request_of env ?p1 raw), map (backoffFor ?p1) [attempt + 1..<n], p') \<and>
    pu_Sent p' = pu_Sent ?p1 + 1 \<and> pu_Lost p' = pu_Lost ?p1"
    using Suc.prems lt by (intro Suc.hyps(1)) (use Suc.hyps(2) f in simp_all)
  then obtain p' where d: "push_deliver env results (\<lambda>_. False) rec (attempt + 1) ?p1 =
      (replicate (n - attempt) (push_request_of env p raw), map (backoffFor p) [attempt + 1..<n], p')"
    "pu_Sent p' = pu_Sent p + 1" "pu_Lost p' = pu_Lost p" unfolding f by auto
  have "push_deliver env results (\<lambda>_. False) rec attempt p =
      (push_request_of env p raw # replicate (n - attempt) (push_request_of env p raw), backoffFor p attempt # map (backoffFor p) [attempt + 1..<n], p')"
    using s d(1) lt Suc.prems(4) f by (subst push_deliver.simps) simp
  moreover have "n + 1 - attempt = Suc (n - attempt)" using lt by simp
  ultimately show ?case using d(2,3) lt by (simp add: upt_conv_Cons)
qed

definition sample_push_env :: push_env where
  "sample_push_env = \<lparr>pe_marshal = (\<lambda>r. Some (cr_ID r)), pe_buildable = (\<lambda>_. True), pe_hmac = (\<lambda>k m. k @ m)\<rparr>"

definition sample_push_options :: push_options where
  "sample_push_options =
     \<lparr>po_Endpoint = ''https://a/api/v1/ingest/record'', po_GatewayID = ''gw'', po_Secret = ''k'', po_Workers = 0, po_Buffer = 1,
      po_Timeout = 0, po_MaxAttempts = 0, po_BackoffBase = 0, po_BackoffMax = 0\<rparr>"

lemma transient_failures_survived_witness:
  "\<exists>p'. push_deliver sample_push_env (\<lambda>n. if n < 3 then HttpStatus 503 else HttpStatus 204) (\<lambda>_. False) sample_record 1
      (New_pusher sample_push_options) =
    (replicate 3 (push_request_of sample_push_env (New_pusher sample_push_options) ''r1''), [250000000, 500000000], p') \<and> pu_Sent p' = 1"
proof -
  let ?p = "New_pusher sample_push_options"
  have "\<exists>p'. push_deliver sample_push_env (\<lambda>n. if n < 3 then HttpStatus 503 else HttpStatus 204) (\<lambda>_. False) sample_record 1 ?p =
      (replicate (3 + 1 - 1) (push_request_of sample_push_env ?p ''r1''), map (backoffFor ?p) [1..<3], p') \<and>
      pu_Sent p' = pu_Sent ?p + 1 \<and> pu_Lost p' = pu_Lost ?p"
    by (rule transient_failures_survived [where ok = 204])
       (simp_all add: sample_push_env_def sample_record_def New_pusher_def sample_push_options_def positive_or_def retryableStatus_def)
  moreover have "map (backoffFor ?p) [1..<3] = [250000000, 500000000]" by code_simp
  moreover have "pu_Sent ?p = 0" by (simp add: New_pusher_def)
  ultimately show ?thesis by auto
qed

section \<open>The pusher as a state machine\<close>

text \<open>
  The steps of the request path, the workers and \<^verbatim>\<open>Close\<close>, in any order; the second component counts the records
  that were offered.
\<close>

inductive push_step :: "push_env \<Rightarrow> pusher \<times> nat \<Rightarrow> pusher \<times> nat \<Rightarrow> bool" for env where
  push_offer: "push_step env (p, n) (snd (push_Enqueue rec p), n + 1)"
| push_take: "pu_Queue p = rec # q \<Longrightarrow> length (pu_InFlight p) < pu_Workers p \<Longrightarrow>
    push_step env (p, n) (p\<lparr>pu_Queue := q, pu_InFlight := pu_InFlight p @ [rec]\<rparr>, n)"
| push_finish: "pu_InFlight p = xs @ rec # ys \<Longrightarrow>
    push_step env (p, n) (snd (snd (push_deliver env results draining rec 1 (p\<lparr>pu_InFlight := xs @ ys\<rparr>))), n)"
| push_close: "push_step env (p, n) (push_Close p, n)"

inductive_cases push_stepE: "push_step env (p, n) (p', n')"

inductive push_reach :: "push_env \<Rightarrow> push_options \<Rightarrow> pusher \<times> nat \<Rightarrow> bool" for env opts where
  push_init: "push_reach env opts (New_pusher opts, 0)"
| push_more: "push_reach env opts s \<Longrightarrow> push_step env s s' \<Longrightarrow> push_reach env opts s'"

definition push_inv :: "push_options \<Rightarrow> pusher \<times> nat \<Rightarrow> bool" where
  "push_inv opts s \<longleftrightarrow>
     (case s of (p, n) \<Rightarrow>
        n = pu_Dropped p + pu_Sent p + pu_Lost p + length (pu_Queue p) + length (pu_InFlight p) \<and>
        length (pu_Queue p) \<le> pu_Buffer p \<and> length (pu_InFlight p) \<le> pu_Workers p \<and>
        length (pu_Drops p) = pu_Dropped p + pu_Lost p \<and>
        pu_Buffer p = pu_Buffer (New_pusher opts) \<and> pu_Workers p = pu_Workers (New_pusher opts))"

lemma push_step_inv:
  assumes "push_inv opts s" "push_step env s s'"
  shows "push_inv opts s'"
  using assms(2,1)
proof cases
  case (push_offer p n rec)
  then show ?thesis using assms(1) by (auto simp: push_inv_def push_Enqueue_def push_drop_def)
next
  case (push_take p rec q n)
  then show ?thesis using assms(1) by (auto simp: push_inv_def)
next
  case (push_finish p xs rec ys n results draining)
  obtain reqs waits p' where d: "push_deliver env results draining rec 1 (p\<lparr>pu_InFlight := xs @ ys\<rparr>) = (reqs, waits, p')"
    by (metis prod_cases3)
  from push_deliver_spec [OF d] push_frame_fields [of "p\<lparr>pu_InFlight := xs @ ys\<rparr>" p'] show ?thesis
    using assms(1) push_finish d by (auto simp: push_inv_def)
next
  case (push_close p n)
  then show ?thesis using assms(1) by (simp add: push_inv_def push_Close_def)
qed

text \<open>
  C38. The request path never waits and no record vanishes silently: in every interleaving of requests, workers and a
  close, the records offered are those dropped, delivered, lost, queued and in flight, the queue stays within its
  bound, and every drop and loss was reported.
\<close>

theorem pushed_records_accounted:
  assumes "push_reach env opts (p, n)"
  shows "n = pu_Dropped p + pu_Sent p + pu_Lost p + length (pu_Queue p) + length (pu_InFlight p) \<and>
    length (pu_Queue p) \<le> pu_Buffer (New_pusher opts) \<and> length (pu_InFlight p) \<le> pu_Workers (New_pusher opts) \<and>
    length (pu_Drops p) = pu_Dropped p + pu_Lost p"
proof -
  have "push_inv opts s" if "push_reach env opts s" for s
    using that by induction (simp add: push_inv_def New_pusher_def, blast intro: push_step_inv)
  from this [OF assms] show ?thesis by (simp add: push_inv_def)
qed

lemma pushed_records_accounted_witness:
  "pu_Dropped (snd (push_Enqueue sample_record (snd (push_Enqueue sample_record (New_pusher sample_push_options))))) = 1"
proof -
  have r: "push_reach sample_push_env sample_push_options
      (snd (push_Enqueue sample_record (snd (push_Enqueue sample_record (New_pusher sample_push_options)))), 0 + 1 + 1)"
    by (rule push_more [OF push_more [OF push_init push_offer] push_offer])
  have "pu_Queue (snd (push_Enqueue sample_record (snd (push_Enqueue sample_record (New_pusher sample_push_options))))) = [sample_record]"
    "pu_InFlight (snd (push_Enqueue sample_record (snd (push_Enqueue sample_record (New_pusher sample_push_options))))) = []"
    "pu_Sent (snd (push_Enqueue sample_record (snd (push_Enqueue sample_record (New_pusher sample_push_options))))) = 0"
    "pu_Lost (snd (push_Enqueue sample_record (snd (push_Enqueue sample_record (New_pusher sample_push_options))))) = 0"
    by (simp_all add: push_Enqueue_def New_pusher_def sample_push_options_def positive_or_def push_drop_def)
  with pushed_records_accounted [OF r] show ?thesis by simp
qed

end
