(* ===== verification/Config_Store.thy ===== *)
theory Config_Store
  imports Prelude
begin

text \<open>
  The store of the live configuration (\<^verbatim>\<open>internal/config/store.go\<close>): a snapshot, swapped atomically, and callbacks
  that are called with it after the lock is released. A \<^verbatim>\<open>Replace\<close> or \<^verbatim>\<open>Subscribe\<close> gives the calls its goroutine has
  still to make; goroutines interleave call by call.
\<close>

section \<open>The store\<close>

record ('c, 's) config_store =
  st_Current :: 'c
  st_Subs :: "'s list"

definition NewStore :: "'c \<Rightarrow> ('c, 's) config_store" where
  "NewStore initial = \<lparr>st_Current = initial, st_Subs = []\<rparr>"

definition config_Snapshot :: "('c, 's) config_store \<Rightarrow> 'c" where
  "config_Snapshot s = st_Current s"

text \<open>Both give the store and the calls to make outside the lock.\<close>

definition store_Subscribe :: "'s \<Rightarrow> ('c, 's) config_store \<Rightarrow> ('c, 's) config_store \<times> ('s \<times> 'c) list" where
  "store_Subscribe fn s = (s\<lparr>st_Subs := st_Subs s @ [fn]\<rparr>, [(fn, st_Current s)])"

definition store_Replace :: "'c \<Rightarrow> ('c, 's) config_store \<Rightarrow> ('c, 's) config_store \<times> ('s \<times> 'c) list" where
  "store_Replace new s = (s\<lparr>st_Current := new\<rparr>, map (\<lambda>fn. (fn, new)) (st_Subs s))"

section \<open>Goroutines\<close>

text \<open>The store, the calls each goroutine has still to make, and the calls made so far.\<close>

record ('c, 's) store_run =
  sr_Store :: "('c, 's) config_store"
  sr_Pending :: "('s \<times> 'c) list list"
  sr_Calls :: "('s \<times> 'c) list"

definition all_called :: "('c, 's) store_run \<Rightarrow> bool" where
  "all_called r \<longleftrightarrow> list_all (\<lambda>ds. ds = []) (sr_Pending r)"

text \<open>\<open>serial\<close>: a \<^verbatim>\<open>Replace\<close> only starts when the calls of those before it are made.\<close>

inductive store_step :: "bool \<Rightarrow> ('c, 's) store_run \<Rightarrow> ('c, 's) store_run \<Rightarrow> bool" for serial where
  store_replace: "(serial \<longrightarrow> all_called r) \<Longrightarrow> store_Replace new (sr_Store r) = (s', ds) \<Longrightarrow>
    store_step serial r (r\<lparr>sr_Store := s', sr_Pending := sr_Pending r @ [ds]\<rparr>)"
| store_subscribe: "store_Subscribe fn (sr_Store r) = (s', ds) \<Longrightarrow>
    store_step serial r (r\<lparr>sr_Store := s', sr_Pending := sr_Pending r @ [ds]\<rparr>)"
| store_call: "sr_Pending r = xs @ (d # ds) # ys \<Longrightarrow>
    store_step serial r (r\<lparr>sr_Pending := xs @ ds # ys, sr_Calls := sr_Calls r @ [d]\<rparr>)"

inductive store_reach :: "bool \<Rightarrow> 'c \<Rightarrow> ('c, 's) store_run \<Rightarrow> bool" for serial initial where
  store_init: "store_reach serial initial \<lparr>sr_Store = NewStore initial, sr_Pending = [], sr_Calls = []\<rparr>"
| store_more: "store_reach serial initial r \<Longrightarrow> store_step serial r r' \<Longrightarrow> store_reach serial initial r'"

definition last_call :: "'s \<Rightarrow> ('s \<times> 'c) list \<Rightarrow> 'c option" where
  "last_call fn calls =
     (let ds = filter (\<lambda>d. fst d = fn) calls in if ds = [] then None else Some (snd (last ds)))"

lemma last_call_snoc: "last_call fn (calls @ [(fn', c)]) = (if fn' = fn then Some c else last_call fn calls)"
  by (simp add: last_call_def Let_def)

text \<open>Every call still to make carries the current snapshot, and who has none to come has it.\<close>

definition store_inv :: "('c, 's) store_run \<Rightarrow> bool" where
  "store_inv r \<longleftrightarrow>
     (\<forall>ds \<in> set (sr_Pending r). \<forall>d \<in> set ds. snd d = st_Current (sr_Store r)) \<and>
     (\<forall>fn \<in> set (st_Subs (sr_Store r)).
        (\<exists>ds \<in> set (sr_Pending r). \<exists>d \<in> set ds. fst d = fn) \<or> last_call fn (sr_Calls r) = Some (st_Current (sr_Store r)))"

lemma store_step_inv:
  assumes "store_inv r" "store_step True r r'"
  shows "store_inv r'"
  using assms(2,1)
proof cases
  case (store_replace new s' ds)
  then have none: "\<forall>ds \<in> set (sr_Pending r). ds = []" by (simp add: all_called_def list_all_iff)
  have "s' = (sr_Store r)\<lparr>st_Current := new\<rparr>" "ds = map (\<lambda>fn. (fn, new)) (st_Subs (sr_Store r))"
    using store_replace(3) by (simp_all add: store_Replace_def)
  with none show ?thesis unfolding store_replace(1) store_inv_def by fastforce
next
  case (store_subscribe fn s' ds)
  then have "s' = (sr_Store r)\<lparr>st_Subs := st_Subs (sr_Store r) @ [fn]\<rparr>" "ds = [(fn, st_Current (sr_Store r))]"
    by (simp_all add: store_Subscribe_def)
  with assms(1) show ?thesis unfolding store_subscribe(1) store_inv_def by simp
next
  case (store_call xs d ds ys)
  obtain fn c where d: "d = (fn, c)" by fastforce
  have "c = st_Current (sr_Store r)" using assms(1) store_call(2) d by (simp add: store_inv_def)
  with assms(1) store_call(2) d show ?thesis
    unfolding store_call(1) store_inv_def by (auto simp: last_call_snoc)
qed


lemma run_steps:
  assumes "store_reach serial i \<lparr>sr_Store = \<lparr>st_Current = c, st_Subs = ss\<rparr>, sr_Pending = ps, sr_Calls = cs\<rparr>"
  shows "store_reach serial i \<lparr>sr_Store = \<lparr>st_Current = c, st_Subs = ss @ [fn]\<rparr>, sr_Pending = ps @ [[(fn, c)]], sr_Calls = cs\<rparr>"
    "\<not> serial \<or> list_all (\<lambda>ds. ds = []) ps \<Longrightarrow>
      store_reach serial i \<lparr>sr_Store = \<lparr>st_Current = new, st_Subs = ss\<rparr>, sr_Pending = ps @ [map (\<lambda>fn. (fn, new)) ss], sr_Calls = cs\<rparr>"
    "ps = xs @ (d # ds) # ys \<Longrightarrow>
      store_reach serial i \<lparr>sr_Store = \<lparr>st_Current = c, st_Subs = ss\<rparr>, sr_Pending = xs @ ds # ys, sr_Calls = cs @ [d]\<rparr>"
  using store_more [OF assms store_subscribe] store_more [OF assms store_replace] store_more [OF assms store_call]
  by (auto simp: store_Subscribe_def store_Replace_def all_called_def)


text \<open>
  Replacements that overlap can call a subscriber in the wrong order: it ends with a snapshot that is not the live one.
\<close>

lemma overlapping_replacements_leave_stale:
  "\<exists>r :: (nat, nat) store_run. store_reach False 0 r \<and> all_called r \<and> config_Snapshot (sr_Store r) = 2 \<and> last_call 7 (sr_Calls r) = Some 1"
proof -
  note i = store_init [of False "0 :: nat", unfolded NewStore_def]
  note s1 = run_steps(3) [OF run_steps(1) [OF i, of "7 :: nat"], of "[]" "(7, 0)" "[]" "[]", simplified]
  note s2 = run_steps(2) [OF run_steps(2) [OF s1, of 1, simplified], of 2, simplified]
  note s3 = run_steps(3) [OF s2, of "[[], [(7, 1)]]" "(7, 2)" "[]" "[]", simplified]
  note s4 = run_steps(3) [OF s3, of "[[]]" "(7, 1)" "[]" "[[]]", simplified]
  show ?thesis by (intro exI conjI) (rule s4, simp_all add: all_called_def config_Snapshot_def last_call_def)
qed

end
