(* ===== verification/Record_Sinks.thy ===== *)
theory Record_Sinks
  imports Record_Filter Pusher Config_Store Spool_Run
begin

text \<open>
  How records reach the connectors and how connectors are edited live (\<^verbatim>\<open>cmd/gateway/sinks.go\<close>, the wiring of
  \<^verbatim>\<open>main.go\<close> and the dispatch of \<^verbatim>\<open>reporter.go\<close>): webhooks have a pusher, the other types a track of the spool, and a
  subscriber of the configuration store keeps both in step with the connectors of the snapshot. What builds a
  connector, resolves a secret and answers the file system is an argument of each call.
\<close>

section \<open>The set of pushers\<close>

type_synonym pusher_set = "(string \<times> pusher) list"

definition ps_get :: "string \<Rightarrow> pusher_set \<Rightarrow> pusher option" where
  "ps_get name s = map_of s name"

definition ps_put :: "string \<Rightarrow> pusher \<Rightarrow> pusher_set \<Rightarrow> pusher_set" where
  "ps_put name p s = AList.update name p s"

definition ps_remove :: "string \<Rightarrow> pusher_set \<Rightarrow> pusher option \<times> pusher_set" where
  "ps_remove name s = (map_of s name, AList.delete name s)"

definition ps_names :: "pusher_set \<Rightarrow> string list" where
  "ps_names s = sort (map fst s)"

definition ps_closeAll :: "pusher_set \<Rightarrow> pusher list \<times> pusher_set" where
  "ps_closeAll s = (map (\<lambda>x. push_Close (snd x)) s, [])"

section \<open>The difference of two connector lists\<close>

record connector_diff =
  df_Removed :: "connector list"
  df_Added :: "connector list"

definition diff_empty :: "connector_diff \<Rightarrow> bool" where
  "diff_empty d \<longleftrightarrow> df_Removed d = [] \<and> df_Added d = []"

text \<open>A map filled in a loop: the last entry of a name wins. \<open>fp\<close> is the JSON encoding of a connector.\<close>

definition connectors_by_name :: "connector list \<Rightarrow> string \<Rightarrow> connector option" where
  "connectors_by_name cs n = map_of (rev (map (\<lambda>c. (cn_Name c, c)) cs)) n"

definition changed_in :: "(connector \<Rightarrow> string) \<Rightarrow> connector list \<Rightarrow> connector \<Rightarrow> bool" where
  "changed_in fp cs c = (case connectors_by_name cs (cn_Name c) of None \<Rightarrow> True | Some x \<Rightarrow> fp x \<noteq> fp c)"

definition diffConnectors :: "(connector \<Rightarrow> string) \<Rightarrow> connector list \<Rightarrow> connector list \<Rightarrow> connector_diff" where
  "diffConnectors fp old cur = \<lparr>df_Removed = filter (changed_in fp cur) old, df_Added = filter (changed_in fp old) cur\<rparr>"

section \<open>Sinks\<close>

text \<open>
  \<open>sk_Retired\<close> are the pushers that were closed; \<open>sk_NoSink\<close> the webhook names whose records found no pusher,
  as counted.
\<close>

record sinks =
  sk_Pushers :: pusher_set
  sk_Retired :: "pusher list"
  sk_Spool :: "spool option"
  sk_Last :: "connector list"
  sk_NoSink :: "string list"

text \<open>
  \<open>sn_build\<close> is the connector factory, with the options of a track apart from its rotation; \<open>sn_secret\<close> resolves a
  secret reference.
\<close>

record sink_env =
  sn_fingerprint :: "connector \<Rightarrow> string"
  sn_secret :: "string \<Rightarrow> string option"
  sn_build :: "connector \<Rightarrow> register_opts option"
  sn_mkdir :: "string \<Rightarrow> bool"
  sn_recover :: "string \<Rightarrow> recover_env"
  sn_stop :: "string \<Rightarrow> stop_env"

definition webhook_options :: "connector \<Rightarrow> string \<Rightarrow> push_options" where
  "webhook_options c secret =
     \<lparr>po_Endpoint = cn_URL c, po_GatewayID = cn_GatewayID c, po_Secret = secret, po_Workers = 0, po_Buffer = 0,
      po_Timeout = i64 (cn_TimeoutMS c * 1000000), po_MaxAttempts = 0, po_BackoffBase = 0, po_BackoffMax = 0\<rparr>"

definition newWebhookPusher :: "sink_env \<Rightarrow> connector \<Rightarrow> pusher option" where
  "newWebhookPusher env c = map_option (\<lambda>secret. New_pusher (webhook_options c secret)) (sn_secret env (cn_SecretRef c))"

definition rotation_of :: "connector \<Rightarrow> rotation_opts" where
  "rotation_of c =
     (case cn_Rotation c of
        None \<Rightarrow> \<lparr>ro_MaxBytes = 0, ro_MaxAge = 0\<rparr>
      | Some r \<Rightarrow> \<lparr>ro_MaxBytes = cr_MaxBytes r, ro_MaxAge = i64 (cr_MaxAgeSeconds r * 1000000000)\<rparr>)"

definition spoolTrackOptions :: "connector \<Rightarrow> register_opts \<Rightarrow> register_opts" where
  "spoolTrackOptions c conn = conn\<lparr>rg_Connector := Some (cn_Name c), rg_Rotation := rotation_of c\<rparr>"

definition removeSink :: "sink_env \<Rightarrow> connector \<Rightarrow> sinks \<Rightarrow> sinks" where
  "removeSink env c s =
     (if cn_Type c = ''webhook''
      then (case ps_remove (cn_Name c) (sk_Pushers s) of
              (None, ps) \<Rightarrow> s\<lparr>sk_Pushers := ps\<rparr>
            | (Some p, ps) \<Rightarrow> s\<lparr>sk_Pushers := ps, sk_Retired := sk_Retired s @ [push_Close p]\<rparr>)
      else case sk_Spool s of
             None \<Rightarrow> s
           | Some sp \<Rightarrow> s\<lparr>sk_Spool := Some (snd (UnregisterTrack (sn_stop env (cn_Name c)) (cn_Name c) sp))\<rparr>)"

definition addSink :: "sink_env \<Rightarrow> connector \<Rightarrow> sinks \<Rightarrow> sinks" where
  "addSink env c s =
     (if cn_Type c = ''webhook''
      then (case newWebhookPusher env c of
              None \<Rightarrow> s
            | Some p \<Rightarrow> s\<lparr>sk_Pushers := ps_put (cn_Name c) p (sk_Pushers s)\<rparr>)
      else case sk_Spool s of
             None \<Rightarrow> s
           | Some sp \<Rightarrow>
               (case sn_build env c of
                  None \<Rightarrow> s
                | Some conn \<Rightarrow>
                    s\<lparr>sk_Spool := Some (snd (RegisterTrack (sn_mkdir env (cn_Name c)) (sn_recover env (cn_Name c))
                        (spoolTrackOptions c conn) sp))\<rparr>))"

definition apply_diff :: "sink_env \<Rightarrow> connector_diff \<Rightarrow> sinks \<Rightarrow> sinks" where
  "apply_diff env d s = fold (addSink env) (df_Added d) (fold (removeSink env) (df_Removed d) s)"

definition onSnapshot :: "sink_env \<Rightarrow> connector list option \<Rightarrow> sinks \<Rightarrow> sinks" where
  "onSnapshot env cfg s =
     (case cfg of
        None \<Rightarrow> s
      | Some cs \<Rightarrow>
          let d = diffConnectors (sn_fingerprint env) (sk_Last s) cs; s = s\<lparr>sk_Last := cs\<rparr>
          in if diff_empty d then s else apply_diff env d s)"

section \<open>Dispatch\<close>

definition dispatchRecord :: "connector_record \<Rightarrow> string \<Rightarrow> string \<Rightarrow> sinks \<Rightarrow> sinks" where
  "dispatchRecord rec name connectorType s =
     (if connectorType = ''webhook''
      then (case ps_get name (sk_Pushers s) of
              Some p \<Rightarrow> s\<lparr>sk_Pushers := AList.update name (snd (push_Enqueue rec p)) (sk_Pushers s)\<rparr>
            | None \<Rightarrow> s\<lparr>sk_NoSink := sk_NoSink s @ [name]\<rparr>)
      else case sk_Spool s of
             Some sp \<Rightarrow> s\<lparr>sk_Spool := Some (spool_Enqueue rec [name] sp)\<rparr>
           | None \<Rightarrow> s)"

text \<open>
  The loop over the bindings of the configuration; \<open>rnd n\<close> is the random number of the \<open>n\<close>th, \<open>index\<close> the
  connectors of the snapshot.
\<close>

fun enqueueRecord ::
  "(nat \<Rightarrow> f64) \<Rightarrow> (string \<Rightarrow> connector option) \<Rightarrow> connector_record \<Rightarrow> connector_binding list \<Rightarrow> nat \<Rightarrow> sinks \<Rightarrow> sinks" where
  "enqueueRecord rnd index rec [] n s = s"
| "enqueueRecord rnd index rec (b # bs) n s =
     (let connectorType = (case index (cb_Connector b) of None \<Rightarrow> [] | Some c \<Rightarrow> cn_Type c)
      in case fst (evaluateBinding (rnd n) rec b connectorType) of
           None \<Rightarrow> enqueueRecord rnd index rec bs (n + 1) s
         | Some out \<Rightarrow> enqueueRecord rnd index rec bs (n + 1) (dispatchRecord out (cb_Connector b) connectorType s))"

section \<open>Sinks follow the configuration\<close>

definition pusher_of :: "connector \<Rightarrow> pusher \<Rightarrow> bool" where
  "pusher_of c p \<longleftrightarrow>
     pu_Endpoint p = cn_URL c \<and> pu_GatewayID p = cn_GatewayID c \<and>
     pu_Timeout p = positive_or (i64 (cn_TimeoutMS c * 1000000)) 5000000000 \<and> \<not> pu_Closed p"

text \<open>
  Pushers and tracks are both a table of sinks by name. What the reconciler relies on: removing takes out the one
  entry, and adding a connector changes no entry but its own, which then runs with its settings.
\<close>

definition table_ok ::
  "('t \<Rightarrow> string \<Rightarrow> 'v option) \<Rightarrow> (connector \<Rightarrow> bool) \<Rightarrow> (connector \<Rightarrow> 'v \<Rightarrow> bool) \<Rightarrow> connector set \<Rightarrow> 't \<Rightarrow> bool" where
  "table_ok look kind fits C t \<longleftrightarrow> (\<forall>n v. look t n = Some v \<longrightarrow> (\<exists>c \<in> C. cn_Name c = n \<and> kind c \<and> fits c v))"

locale sink_table =
  fixes look :: "'t \<Rightarrow> string \<Rightarrow> 'v option"
    and kind :: "connector \<Rightarrow> bool"
    and fits :: "connector \<Rightarrow> 'v \<Rightarrow> bool"
    and remove :: "string \<Rightarrow> 't \<Rightarrow> 't"
    and add :: "connector \<Rightarrow> 't \<Rightarrow> 't"
  assumes look_remove: "look (remove n t) m = (if m = n then None else look t m)"
    and look_add: "kind c \<Longrightarrow> look (add c t) n = Some v \<Longrightarrow> look t n = Some v \<or> n = cn_Name c \<and> fits c v"
begin

lemma remove_ok:
  assumes "table_ok look kind fits C t"
  shows "table_ok look kind fits (C - {c}) (if kind c then remove (cn_Name c) t else t)"
  unfolding table_ok_def
proof (intro allI impI)
  fix n v assume v: "look (if kind c then remove (cn_Name c) t else t) n = Some v"
  then have "look t n = Some v" "kind c \<Longrightarrow> n \<noteq> cn_Name c" by (auto simp: look_remove split: if_splits)
  moreover from this obtain x where "x \<in> C" "cn_Name x = n" "kind x" "fits x v" using assms by (auto simp: table_ok_def)
  ultimately show "\<exists>x \<in> C - {c}. cn_Name x = n \<and> kind x \<and> fits x v" by blast
qed

lemma add_ok:
  assumes "table_ok look kind fits C t"
  shows "table_ok look kind fits (insert c C) (if kind c then add c t else t)"
  unfolding table_ok_def
proof (intro allI impI)
  fix n v assume "look (if kind c then add c t else t) n = Some v"
  then consider "look t n = Some v" | "kind c" "n = cn_Name c" "fits c v" using look_add by (cases "kind c") auto
  then show "\<exists>x \<in> insert c C. cn_Name x = n \<and> kind x \<and> fits x v"
    by cases (use assms in \<open>auto simp: table_ok_def\<close>)
qed

lemma weaken_ok: "table_ok look kind fits C t \<Longrightarrow> C \<subseteq> D \<Longrightarrow> table_ok look kind fits D t"
  unfolding table_ok_def by blast

end

definition is_webhook :: "connector \<Rightarrow> bool" where
  "is_webhook c \<longleftrightarrow> cn_Type c = ''webhook''"

definition is_spooled :: "connector \<Rightarrow> bool" where
  "is_spooled c \<longleftrightarrow> cn_Type c \<noteq> ''webhook''"

definition track_at :: "spool \<Rightarrow> string \<Rightarrow> (track_opts \<times> track) option" where
  "track_at sp n = map_of (sp_Tracks sp) n"

definition track_of :: "connector \<Rightarrow> track_opts \<times> track \<Rightarrow> bool" where
  "track_of c v \<longleftrightarrow> to_Rotation (fst v) = rotation_withDefaults (rotation_of c)"

text \<open>Every sink belongs to a connector, with its settings, and is of its kind.\<close>

definition in_step :: "connector set \<Rightarrow> sinks \<Rightarrow> bool" where
  "in_step C s \<longleftrightarrow>
     table_ok map_of is_webhook pusher_of C (sk_Pushers s) \<and>
     (\<forall>sp. sk_Spool s = Some sp \<longrightarrow> table_ok track_at is_spooled track_of C sp)"

text \<open>Every connector has its sink.\<close>

definition has_sink :: "sinks \<Rightarrow> connector \<Rightarrow> bool" where
  "has_sink s c \<longleftrightarrow>
     (if cn_Type c = ''webhook'' then map_of (sk_Pushers s) (cn_Name c) \<noteq> None
      else \<exists>sp. sk_Spool s = Some sp \<and> map_of (sp_Tracks sp) (cn_Name c) \<noteq> None)"

lemma by_name:
  assumes "distinct (map cn_Name cs)"
  shows "connectors_by_name cs n = Some c \<longleftrightarrow> c \<in> set cs \<and> cn_Name c = n"
    "connectors_by_name cs n = None \<longleftrightarrow> n \<notin> cn_Name ` set cs"
proof -
  have d: "distinct (map fst (rev (map (\<lambda>c. (cn_Name c, c)) cs)))"
    using assms by (simp add: rev_map [symmetric] comp_def)
  show "connectors_by_name cs n = Some c \<longleftrightarrow> c \<in> set cs \<and> cn_Name c = n"
    unfolding connectors_by_name_def map_of_eq_Some_iff [OF d] by auto
  show "connectors_by_name cs n = None \<longleftrightarrow> n \<notin> cn_Name ` set cs"
    unfolding connectors_by_name_def map_of_eq_None_iff by force
qed

lemma changed_iff:
  assumes "distinct (map cn_Name cs)" "\<And>x. x \<in> set cs \<Longrightarrow> fp x = fp c \<Longrightarrow> x = c"
  shows "changed_in fp cs c \<longleftrightarrow> c \<notin> set cs"
proof (cases "connectors_by_name cs (cn_Name c)")
  case None
  then show ?thesis using by_name(2) [OF assms(1), of "cn_Name c"] by (auto simp: changed_in_def)
next
  case (Some x)
  then have x: "x \<in> set cs" "cn_Name x = cn_Name c" using by_name(1) [OF assms(1)] by auto
  have "c \<in> set cs \<Longrightarrow> x = c" using by_name(1) [OF assms(1), of "cn_Name c" c] Some by simp
  then show ?thesis using Some x assms(2) [of x] by (auto simp: changed_in_def)
qed

lemma unregistered_track:
  "map_of (sp_Tracks (snd (UnregisterTrack env name sp))) n = (if n = name then None else map_of (sp_Tracks sp) n)"
  by (auto simp: UnregisterTrack_def Let_def delete_conv' split: option.splits)

lemma registered_track:
  "map_of (sp_Tracks (snd (RegisterTrack mk env ro sp))) n = Some (opts, t) \<Longrightarrow>
     map_of (sp_Tracks sp) n = Some (opts, t) \<or> rg_Connector ro = Some n \<and> to_Rotation opts = rotation_withDefaults (rg_Rotation ro)"
  by (auto simp: RegisterTrack_def register_begin_def register_commit_def track_options_def Let_def update_conv'
      split: option.splits if_splits prod.splits)

lemma registered_track_keeps:
  "map_of (sp_Tracks sp) n \<noteq> None \<Longrightarrow> map_of (sp_Tracks (snd (RegisterTrack mk env ro sp))) n \<noteq> None"
  by (auto simp: RegisterTrack_def register_begin_def register_commit_def Let_def update_conv'
      split: option.splits if_splits prod.splits)

definition add_pusher :: "sink_env \<Rightarrow> connector \<Rightarrow> pusher_set \<Rightarrow> pusher_set" where
  "add_pusher env c ps = (case newWebhookPusher env c of None \<Rightarrow> ps | Some p \<Rightarrow> ps_put (cn_Name c) p ps)"

definition remove_track :: "sink_env \<Rightarrow> string \<Rightarrow> spool \<Rightarrow> spool" where
  "remove_track env name sp = snd (UnregisterTrack (sn_stop env name) name sp)"

definition add_track :: "sink_env \<Rightarrow> connector \<Rightarrow> spool \<Rightarrow> spool" where
  "add_track env c sp =
     (case sn_build env c of
        None \<Rightarrow> sp
      | Some conn \<Rightarrow> snd (RegisterTrack (sn_mkdir env (cn_Name c)) (sn_recover env (cn_Name c)) (spoolTrackOptions c conn) sp))"

interpretation webhook_table: sink_table map_of is_webhook pusher_of AList.delete "add_pusher env" for env
proof
  show "map_of (AList.delete n t) m = (if m = n then None else map_of t m)" for n m and t :: pusher_set
    by (simp add: delete_conv')
  show "map_of t n = Some v \<or> n = cn_Name c \<and> pusher_of c v" if "map_of (add_pusher env c t) n = Some v" for c t n v
    using that
    by (auto simp: add_pusher_def newWebhookPusher_def ps_put_def update_conv' webhook_options_def New_pusher_def pusher_of_def
        split: option.splits if_splits)
qed

interpretation track_table: sink_table track_at is_spooled track_of "remove_track env" "add_track env" for env
proof
  show "track_at (remove_track env n t) m = (if m = n then None else track_at t m)" for n m t
    by (simp add: track_at_def remove_track_def unregistered_track)
  show "track_at t n = Some v \<or> n = cn_Name c \<and> track_of c v" if "track_at (add_track env c t) n = Some v" for c t n v
    using that registered_track [of _ _ "spoolTrackOptions c _" t n "fst v" "snd v"]
    by (auto simp: track_at_def add_track_def track_of_def spoolTrackOptions_def split: option.splits)
qed

lemma removed_sink:
  "sk_Pushers (removeSink env c s) = (if is_webhook c then AList.delete (cn_Name c) (sk_Pushers s) else sk_Pushers s)"
  "sk_Spool (removeSink env c s) = map_option (\<lambda>sp. if is_spooled c then remove_track env (cn_Name c) sp else sp) (sk_Spool s)"
  "sk_Last (removeSink env c s) = sk_Last s"
  by (simp_all add: removeSink_def ps_remove_def is_webhook_def is_spooled_def remove_track_def option.map_ident split: option.split)

lemma added_sink:
  "sk_Pushers (addSink env c s) = (if is_webhook c then add_pusher env c (sk_Pushers s) else sk_Pushers s)"
  "sk_Spool (addSink env c s) = map_option (\<lambda>sp. if is_spooled c then add_track env c sp else sp) (sk_Spool s)"
  "sk_Last (addSink env c s) = sk_Last s"
  by (simp_all add: addSink_def is_webhook_def is_spooled_def add_pusher_def add_track_def option.map_ident split: option.split)

lemma remove_in_step: "in_step C s \<Longrightarrow> in_step (C - {c}) (removeSink env c s)"
  unfolding in_step_def removed_sink map_option_eq_Some
  using webhook_table.remove_ok [of C "sk_Pushers s" c] track_table.remove_ok [of C _ c env] by blast

lemma add_in_step: "in_step C s \<Longrightarrow> in_step (insert c C) (addSink env c s)"
  unfolding in_step_def added_sink map_option_eq_Some
  using webhook_table.add_ok [of C "sk_Pushers s" c env] track_table.add_ok [of C _ c env] by blast

lemma removes_in_step: "in_step C s \<Longrightarrow> in_step (C - set rs) (fold (removeSink env) rs s)"
proof (induction rs arbitrary: C s)
  case (Cons r rs)
  have "C - set (r # rs) = C - {r} - set rs" by auto
  with Cons.IH [OF remove_in_step [OF Cons.prems, of r env]] show ?case by simp
qed simp

lemma adds_in_step: "in_step C s \<Longrightarrow> in_step (C \<union> set as) (fold (addSink env) as s)"
proof (induction as arbitrary: C s)
  case (Cons a as)
  have "C \<union> set (a # as) = insert a C \<union> set as" by auto
  with Cons.IH [OF add_in_step [OF Cons.prems, of a env]] show ?case by simp
qed simp

text \<open>What building a sink needs to succeed.\<close>

definition buildable :: "sink_env \<Rightarrow> connector \<Rightarrow> bool" where
  "buildable env c \<longleftrightarrow>
     (if cn_Type c = ''webhook'' then sn_secret env (cn_SecretRef c) \<noteq> None
      else cn_Name c \<noteq> [] \<and> sn_build env c \<noteq> None \<and> sn_mkdir env (cn_Name c) \<and>
        (\<forall>d. snd (fst (Recover (sn_recover env (cn_Name c)) d)) = None))"

lemma remove_keeps_sink: "has_sink s x \<Longrightarrow> cn_Name x \<noteq> cn_Name c \<Longrightarrow> has_sink (removeSink env c s) x"
  by (auto simp: has_sink_def removed_sink is_webhook_def is_spooled_def remove_track_def unregistered_track delete_conv' split: if_splits)

lemma add_keeps_sink: "has_sink s x \<Longrightarrow> has_sink (addSink env c s) x"
  using registered_track_keeps
  by (fastforce simp: has_sink_def addSink_def ps_put_def update_conv' split: if_splits option.splits)

lemma add_gives_sink:
  assumes "buildable env c" "sk_Spool s \<noteq> None"
  shows "has_sink (addSink env c s) c"
proof (cases "cn_Type c = ''webhook''")
  case True
  then show ?thesis using assms(1)
    by (auto simp: has_sink_def addSink_def buildable_def newWebhookPusher_def ps_put_def update_conv')
next
  case False
  obtain sp conn where o: "sk_Spool s = Some sp" "sn_build env c = Some conn" using assms False by (auto simp: buildable_def)
  obtain rep d where r: "Recover (sn_recover env (cn_Name c)) (sp_Disks sp (cn_Name c)) = ((rep, None), d)"
    using assms(1) False unfolding buildable_def by (metis prod.collapse)
  have "map_of (sp_Tracks (snd (RegisterTrack (sn_mkdir env (cn_Name c)) (sn_recover env (cn_Name c)) (spoolTrackOptions c conn) sp)))
      (cn_Name c) \<noteq> None"
    using assms(1) False
    by (auto simp: RegisterTrack_def register_begin_def register_commit_def buildable_def spoolTrackOptions_def newTrack_def Let_def
        update_conv' r split: option.splits prod.splits if_splits)
  then show ?thesis using False o by (simp add: has_sink_def addSink_def)
qed

lemma added_spool: "sk_Spool (addSink env c s) = None \<longleftrightarrow> sk_Spool s = None" "sk_Last (addSink env c s) = sk_Last s"
  by (simp_all add: added_sink)

lemma removes_frame:
  "sk_Spool (fold (removeSink env) rs s) = None \<longleftrightarrow> sk_Spool s = None" "sk_Last (fold (removeSink env) rs s) = sk_Last s"
  by (induction rs arbitrary: s) (simp_all add: removed_sink)

lemma adds_frame:
  "sk_Spool (fold (addSink env) as s) = None \<longleftrightarrow> sk_Spool s = None" "sk_Last (fold (addSink env) as s) = sk_Last s"
  by (induction as arbitrary: s) (simp_all add: added_spool)

lemma removes_keep_sink: "has_sink s x \<Longrightarrow> cn_Name x \<notin> cn_Name ` set rs \<Longrightarrow> has_sink (fold (removeSink env) rs s) x"
  by (induction rs arbitrary: s) (auto intro: remove_keeps_sink)

lemma adds_keep_sink: "has_sink s x \<Longrightarrow> has_sink (fold (addSink env) as s) x"
  by (induction as arbitrary: s) (auto intro: add_keeps_sink)

lemma adds_give_sink:
  "x \<in> set as \<Longrightarrow> buildable env x \<Longrightarrow> sk_Spool s \<noteq> None \<Longrightarrow> has_sink (fold (addSink env) as s) x"
proof (induction as arbitrary: s)
  case (Cons a as)
  show ?case
  proof (cases "x \<in> set as")
    case True
    have "sk_Spool (addSink env a s) \<noteq> None" using Cons.prems(3) added_spool(1) by metis
    from Cons.IH [OF True Cons.prems(2) this] show ?thesis by simp
  next
    case False
    with Cons.prems adds_keep_sink [OF add_gives_sink [of env a s], of env as] show ?thesis by simp
  qed
qed simp

text \<open>One snapshot.\<close>

lemma snapshot_in_step:
  assumes "in_step (set (sk_Last s)) s" "distinct (map cn_Name (sk_Last s))" "distinct (map cn_Name cs)"
    and "inj_on (sn_fingerprint env) (set (sk_Last s) \<union> set cs)"
  shows "in_step (set cs) (onSnapshot env (Some cs) s)" "sk_Last (onSnapshot env (Some cs) s) = cs"
    "sk_Spool (onSnapshot env (Some cs) s) = None \<longleftrightarrow> sk_Spool s = None"
    "\<forall>c \<in> set (sk_Last s). has_sink s c \<Longrightarrow> \<forall>c \<in> set cs. buildable env c \<Longrightarrow> sk_Spool s \<noteq> None \<Longrightarrow>
      \<forall>c \<in> set cs. has_sink (onSnapshot env (Some cs) s) c"
proof -
  let ?old = "sk_Last s" and ?s = "s\<lparr>sk_Last := cs\<rparr>"
  define rem where "rem = filter (\<lambda>c. c \<notin> set cs) ?old"
  define add where "add = filter (\<lambda>c. c \<notin> set ?old) cs"
  have c1: "changed_in (sn_fingerprint env) cs c \<longleftrightarrow> c \<notin> set cs" if "c \<in> set ?old" for c
    using that assms(4) by (intro changed_iff assms(3)) (auto dest: inj_onD)
  have c2: "changed_in (sn_fingerprint env) ?old c \<longleftrightarrow> c \<notin> set ?old" if "c \<in> set cs" for c
    using that assms(4) by (intro changed_iff assms(2)) (auto dest: inj_onD)
  have d: "diffConnectors (sn_fingerprint env) ?old cs = \<lparr>df_Removed = rem, df_Added = add\<rparr>"
    unfolding diffConnectors_def rem_def add_def using c1 c2 by (simp cong: filter_cong)
  have e: "onSnapshot env (Some cs) s = fold (addSink env) add (fold (removeSink env) rem ?s)"
    unfolding onSnapshot_def by (simp add: d diff_empty_def apply_diff_def Let_def)
  have "in_step (set ?old) ?s" using assms(1) by (simp add: in_step_def)
  from adds_in_step [OF removes_in_step [OF this, of rem env], of add env]
  have "in_step (set ?old - set rem \<union> set add) (onSnapshot env (Some cs) s)" unfolding e .
  moreover have "set ?old - set rem \<union> set add = set cs" unfolding rem_def add_def by auto
  ultimately show "in_step (set cs) (onSnapshot env (Some cs) s)" by simp
  show "sk_Last (onSnapshot env (Some cs) s) = cs" "sk_Spool (onSnapshot env (Some cs) s) = None \<longleftrightarrow> sk_Spool s = None"
    unfolding e by (simp_all add: removes_frame adds_frame)
  assume h: "\<forall>c \<in> set ?old. has_sink s c" "\<forall>c \<in> set cs. buildable env c" "sk_Spool s \<noteq> None"
  show "\<forall>c \<in> set cs. has_sink (onSnapshot env (Some cs) s) c"
  proof
    fix c assume c: "c \<in> set cs"
    show "has_sink (onSnapshot env (Some cs) s) c"
    proof (cases "c \<in> set ?old")
      case False
      with c h show ?thesis unfolding e by (intro adds_give_sink) (simp_all add: add_def removes_frame)
    next
      case True
      have "cn_Name c \<notin> cn_Name ` set rem"
        using True c assms(2) by (auto simp: rem_def distinct_map dest: inj_onD)
      moreover have "has_sink ?s c = has_sink s c" by (simp add: has_sink_def)
      with h(1) True have "has_sink ?s c" by blast
      ultimately show ?thesis unfolding e by (intro adds_keep_sink removes_keep_sink)
    qed
  qed
qed

section \<open>Runs\<close>

datatype sink_event = Configured sink_env "connector list" | Dispatched connector_record string string

fun sink_step :: "sink_event \<Rightarrow> sinks \<Rightarrow> sinks" where
  "sink_step (Configured env cs) s = onSnapshot env (Some cs) s"
| "sink_step (Dispatched rec name ty) s = dispatchRecord rec name ty s"

definition last_configured :: "sink_event list \<Rightarrow> connector list \<Rightarrow> connector list" where
  "last_configured evs cs = fold (\<lambda>e l. case e of Configured env l' \<Rightarrow> l' | Dispatched _ _ _ \<Rightarrow> l) evs cs"

lemma dispatch_in_step:
  "in_step C s \<Longrightarrow> in_step C (dispatchRecord rec name ty s)"
  "sk_Last (dispatchRecord rec name ty s) = sk_Last s"
  "has_sink s c \<Longrightarrow> has_sink (dispatchRecord rec name ty s) c"
  "sk_Spool (dispatchRecord rec name ty s) = None \<longleftrightarrow> sk_Spool s = None"
proof -
  have e: "pusher_of c (snd (push_Enqueue rec p)) \<longleftrightarrow> pusher_of c p" for c p
    by (simp add: pusher_of_def push_Enqueue_def push_drop_def)
  have t: "map_of (sp_Tracks (spool_enqueue_one rec name sp)) n = Some (opts, tr) \<Longrightarrow> \<exists>tr'. map_of (sp_Tracks sp) n = Some (opts, tr')"
    for sp n opts tr
    by (auto simp: spool_enqueue_one_def update_conv' split: option.splits if_splits)
  have k: "map_of (sp_Tracks sp) n \<noteq> None \<Longrightarrow> map_of (sp_Tracks (spool_enqueue_one rec name sp)) n \<noteq> None" for sp n
    by (auto simp: spool_enqueue_one_def update_conv' split: option.splits)
  have "table_ok map_of is_webhook pusher_of C ps \<Longrightarrow> map_of ps name = Some p \<Longrightarrow>
      table_ok map_of is_webhook pusher_of C (AList.update name (snd (push_Enqueue rec p)) ps)" for ps p
    unfolding table_ok_def update_conv' by (auto simp: e)
  moreover have "table_ok track_at is_spooled track_of C sp \<Longrightarrow> table_ok track_at is_spooled track_of C (spool_enqueue_one rec name sp)" for sp
    unfolding table_ok_def track_at_def track_of_def using t by fastforce
  ultimately show "in_step C s \<Longrightarrow> in_step C (dispatchRecord rec name ty s)"
    by (simp add: in_step_def dispatchRecord_def ps_get_def split: option.split)
  show "sk_Last (dispatchRecord rec name ty s) = sk_Last s" "sk_Spool (dispatchRecord rec name ty s) = None \<longleftrightarrow> sk_Spool s = None"
    by (simp_all add: dispatchRecord_def split: option.split)
  show "has_sink s c \<Longrightarrow> has_sink (dispatchRecord rec name ty s) c"
    using k by (fastforce simp: has_sink_def dispatchRecord_def ps_get_def update_conv' split: option.split if_splits)
qed

definition configured_in :: "connector set \<Rightarrow> sink_event \<Rightarrow> bool" where
  "configured_in U e \<longleftrightarrow>
     (case e of
        Configured env cs \<Rightarrow> distinct (map cn_Name cs) \<and> set cs \<subseteq> U \<and> inj_on (sn_fingerprint env) U
      | Dispatched _ _ _ \<Rightarrow> True)"

definition built_in :: "sink_event \<Rightarrow> bool" where
  "built_in e \<longleftrightarrow> (case e of Configured env cs \<Rightarrow> \<forall>c \<in> set cs. buildable env c | Dispatched _ _ _ \<Rightarrow> True)"

lemma step_in_step:
  assumes "in_step (set (sk_Last s)) s" "distinct (map cn_Name (sk_Last s))" "set (sk_Last s) \<subseteq> U" "configured_in U e"
  shows "in_step (set (sk_Last (sink_step e s))) (sink_step e s) \<and> distinct (map cn_Name (sk_Last (sink_step e s))) \<and>
    set (sk_Last (sink_step e s)) \<subseteq> U \<and> (sk_Spool (sink_step e s) = None \<longleftrightarrow> sk_Spool s = None) \<and>
    sk_Last (sink_step e s) = last_configured [e] (sk_Last s) \<and>
    (built_in e \<longrightarrow> sk_Spool s \<noteq> None \<longrightarrow> (\<forall>c \<in> set (sk_Last s). has_sink s c) \<longrightarrow>
       (\<forall>c \<in> set (sk_Last (sink_step e s)). has_sink (sink_step e s) c))"
proof (cases e)
  case (Dispatched rec name ty)
  with assms dispatch_in_step show ?thesis by (auto simp: last_configured_def)
next
  case (Configured env cs)
  then have c: "distinct (map cn_Name cs)" "set cs \<subseteq> U" "inj_on (sn_fingerprint env) U"
    using assms(4) by (simp_all add: configured_in_def)
  have "inj_on (sn_fingerprint env) (set (sk_Last s) \<union> set cs)" using c(2,3) assms(3) by (auto intro: inj_on_subset)
  note one = snapshot_in_step [OF assms(1,2) c(1) this]
  have "built_in e \<Longrightarrow> \<forall>c \<in> set cs. buildable env c" using Configured by (simp add: built_in_def)
  with one c Configured show ?thesis by (auto simp: last_configured_def)
qed


definition sample_hook :: connector where
  "sample_hook =
     \<lparr>cn_Name = ''hook'', cn_Type = ''webhook'', cn_Auth = None, cn_Rotation = None, cn_UploadTimeoutSeconds = 0, cn_Bucket = [],
      cn_Prefix = [], cn_Region = [], cn_EndpointURL = [], cn_UsePathStyle = False, cn_Account = [], cn_Container = [],
      cn_URL = ''https://a'', cn_SecretRef = ''env:S'', cn_GatewayID = ''gw'', cn_TimeoutMS = 0\<rparr>"

definition sample_sink_env :: sink_env where
  "sample_sink_env =
     \<lparr>sn_fingerprint = cn_URL, sn_secret = (\<lambda>_. Some ''k''), sn_build = (\<lambda>_. None), sn_mkdir = (\<lambda>_. False),
      sn_recover = (\<lambda>_. quiet_recovery), sn_stop = (\<lambda>_. graceful)\<rparr>"

definition sample_sinks :: sinks where
  "sample_sinks =
     \<lparr>sk_Pushers = [], sk_Retired = [], sk_Spool = new_spool ''/spool'' (\<lambda>_. []), sk_Last = [], sk_NoSink = []\<rparr>"

definition sample_sink_events :: "sink_event list" where
  "sample_sink_events =
     [Configured sample_sink_env [sample_hook], Dispatched sample_record ''hook'' ''webhook'',
      Configured sample_sink_env [sample_hook\<lparr>cn_URL := ''https://b''\<rparr>]]"


section \<open>No silent loss\<close>

text \<open>What happened to the records sent to a name: kept in a queue, or counted as dropped.\<close>

definition total_at :: "sinks \<Rightarrow> string \<Rightarrow> nat" where
  "total_at s n =
     (case map_of (sk_Pushers s) n of Some p \<Rightarrow> pu_Dropped p + length (pu_Queue p) | None \<Rightarrow> 0) + count_list (sk_NoSink s) n +
     (case sk_Spool s of Some sp \<Rightarrow> name_total sp n | None \<Rightarrow> 0)"

lemma count_list_snoc: "count_list (xs @ [x]) y = count_list xs y + (if x = y then 1 else 0)"
  by (induction xs) simp_all

lemma dispatch_total:
  assumes "sk_Spool s \<noteq> None"
  shows "total_at (dispatchRecord rec name ty s) n = total_at s n + (if n = name then 1 else 0)"
  using assms
  by (auto simp: total_at_def dispatchRecord_def ps_get_def push_Enqueue_def push_drop_def update_conv' enqueue_one_total
      count_list_snoc split: option.split)

text \<open>The connectors whose bindings ship the record.\<close>

fun shipped_to :: "(nat \<Rightarrow> f64) \<Rightarrow> (string \<Rightarrow> connector option) \<Rightarrow> connector_record \<Rightarrow> connector_binding list \<Rightarrow> nat \<Rightarrow> string list" where
  "shipped_to rnd index rec [] k = []"
| "shipped_to rnd index rec (b # bs) k =
     (if fst (evaluateBinding (rnd k) rec b (case index (cb_Connector b) of None \<Rightarrow> [] | Some c \<Rightarrow> cn_Type c)) = None then []
      else [cb_Connector b]) @ shipped_to rnd index rec bs (k + 1)"

text \<open>
  C40. A record is never lost silently on its way to a connector: for every name, what its pusher holds or dropped,
  what its track took or dropped and what was counted as without a sink grow by the number of bindings that ship to it.
\<close>

theorem shipped_records_accounted:
  assumes "sk_Spool s \<noteq> None"
  shows "total_at (enqueueRecord rnd index rec bs k s) n = total_at s n + count_list (shipped_to rnd index rec bs k) n"
  using assms
proof (induction bs arbitrary: k s)
  case (Cons b bs)
  let ?ty = "case index (cb_Connector b) of None \<Rightarrow> [] | Some c \<Rightarrow> cn_Type c"
  show ?case
  proof (cases "fst (evaluateBinding (rnd k) rec b ?ty)")
    case None
    with Cons show ?thesis by (simp add: Let_def)
  next
    case (Some out)
    have "sk_Spool (dispatchRecord out (cb_Connector b) ?ty s) \<noteq> None" using Cons.prems dispatch_in_step(4) by metis
    from Cons.IH [OF this, of "k + 1"] Some show ?thesis
      by (simp add: Let_def dispatch_total [OF Cons.prems])
  qed
qed simp

lemma shipped_records_accounted_witness:
  "total_at (enqueueRecord (\<lambda>_. Fin 0) (\<lambda>_. None) sample_record [sample_capped, sample_capped] 0 sample_sinks) ''s3'' = 2"
proof -
  have "sk_Spool sample_sinks \<noteq> None" by (simp add: sample_sinks_def new_spool_def)
  from shipped_records_accounted [OF this, of "\<lambda>_. Fin 0" "\<lambda>_. None" sample_record "[sample_capped, sample_capped]" 0 "''s3''"]
  show ?thesis
    by (simp add: evaluateBinding_def samplingIncludes_def SamplingRate_def matchesFilter_def applyOversize_def sample_capped_def
        sample_record_def Let_def total_at_def sample_sinks_def new_spool_def name_total_def count_of_def)
qed

text \<open>
  Snapshots that reach the reconciler in the wrong order leave it with the sinks of the older one: the connector a
  later write created has none, and its records are dropped.
\<close>

lemma late_snapshot_reverts_sinks:
  "map_of (sk_Pushers (fold sink_step [Configured sample_sink_env [sample_hook], Configured sample_sink_env []] sample_sinks)) ''hook'' = None"
  by code_simp

end
