(* ===== verification/Spec2Isabelle.thy ===== *)
theory Spec2Isabelle
  imports Rule_Engine Orchestrator Destination Pricing Admin_Edit Spool_Run Live_Feed Agent_Route
    Translate_Roundtrip Translate_Stage Content_Accumulate Record_Sinks
begin

text \<open>
  Slipspace Gateway is an HTTP gateway in front of providers of language models. A request is
  authenticated, routed by the configuration its key names, rewritten by rules, sent to one or more
  targets of a resilience policy, answered, and reported. An operator edits the configuration through
  an admin API, which validates, persists and publishes a new snapshot. This library models those parts
  as HOL functions translated from the Go source, and proves what makes them correct. Paths below are
  relative to the repository.

  \<^bold>\<open>The language.\<close> \<open>Prelude\<close> holds what the code uses of Go: byte strings, 64-bit integers (an \<^verbatim>\<open>int\<close>
  that may overflow is wrapped with \<open>i64\<close>), the comparisons of IEEE doubles, \<^verbatim>\<open>http.Header\<close> and sums
  for results with an error. A map that is only looked up is a partial function; a map that is ranged
  over is an association list in an arbitrary order. \<open>Url_Query\<close> and \<open>Ip_Address\<close> write out the parts
  of \<^verbatim>\<open>net/url\<close> and \<^verbatim>\<open>net\<close> the code calls. Outside the model, and arguments of it: regular
  expressions, Unicode case mapping, gjson, \<^verbatim>\<open>url.Parse\<close>, clocks, randomness, the
  embedded rate card, decoding and encoding of YAML and JSON.

  \<^bold>\<open>Rules\<close> (\<^verbatim>\<open>contracts/rules\<close>, \<^verbatim>\<open>internal/middleware/rules\<close>). \<open>Rule_Schema\<close>: conditions, actions and
  load-time validation. \<open>Rule_State\<close>: the per-request state and its operations, with its invariant.
  \<open>Rule_Conditions\<close>: the matchers and the depth-capped group walk, equal to a plain reading of a
  condition. \<open>Rule_Actions\<close> and \<open>Rule_Engine\<close>: actions and the walk over a configuration's rules;
  the chain is sequential composition, preserves the state invariant, and validated rules never fail.

  \<^bold>\<open>Resilience\<close> (\<^verbatim>\<open>contracts/resilience\<close>, \<^verbatim>\<open>internal/middleware/resilience\<close>, \<^verbatim>\<open>internal/proxy\<close>,
  \<^verbatim>\<open>internal/httperr\<close>). \<open>Resilience_Schema\<close>: policies and validation. \<open>Breaker\<close>: the circuit breaker as a
  state machine over a bucket ring, refined to a sliding window, with the invariant of its half-open
  quota and the store that keeps one per target. \<open>Response_Writer\<close>: the buffering writer, the error
  writer and the attempt buffer. \<open>Orchestrator\<close>: failover, load balancing, retry pacing; one response
  reaches the client, attempts start from the rules' baseline and are bounded. The walks recurse on
  the list of targets and need no fuel. Sums of weights are taken to be below 2 to the 63.

  \<^bold>\<open>Routing and forwarding\<close> (\<^verbatim>\<open>contracts/config/model.go\<close>, \<^verbatim>\<open>internal/selection\<close>,
  \<^verbatim>\<open>internal/middleware/auth\<close>, \<^verbatim>\<open>cmd/gateway\<close>, \<^verbatim>\<open>internal/proxy/forwarder.go\<close>). \<open>Config_Schema\<close>,
  \<open>Selection\<close> and \<open>Passthrough\<close>: bindings, target resolution, the policy of a group, the path matcher.
  \<open>Auth_Resolver\<close>: who is calling. \<open>Destination\<close>: the upstream request and which credentials it
  carries. \<open>Pricing\<close> (\<^verbatim>\<open>internal/pricing\<close>): the rate table and its lookup.

  \<^bold>\<open>Configuration\<close> (\<^verbatim>\<open>internal/config\<close>). \<open>Connector_Schema\<close> and \<open>Config_Validate\<close>: validation, and what a
  validated configuration guarantees the data plane. \<open>Config_Load\<close>: merging the files of a directory
  and building the indexes. \<open>Config_Write\<close>: which blocks go to which file; writing and loading again
  gives the written blocks. A directory maps file names to documents, and a write may fail per file.

  \<^bold>\<open>Admin API\<close> (\<^verbatim>\<open>internal/admin\<close>). \<open>Admin_View\<close>: projections, redaction and the read handlers.
  \<open>Admin_Write\<close>: every write handler with its shared commit. \<open>Admin_Run\<close>: runs of requests, the invariant
  of the running snapshot, agreement with the directory after a restart, completeness of the reference
  checks; the locale \<open>config_operation\<close> is what a handler promises and \<open>api\<close> its interpretation.
  \<open>Admin_Edit\<close>: types of replies, reading and writing back, lost updates. Handlers run one at a time
  there, except in \<open>last_writer_wins\<close>, which is about their overlap.

  \<^bold>\<open>Spool\<close> (\<^verbatim>\<open>internal/spool\<close>, \<^verbatim>\<open>contracts/connector\<close>). \<open>Connector_Record\<close>: records, sealed segments and
  the classes of upload errors. \<open>Spool_Disk\<close>: the directory of a track as a map of files with a fault
  per system call; segments, sidecars, the moves between \<^verbatim>\<open>active\<close>, \<^verbatim>\<open>sealed\<close>, \<^verbatim>\<open>uploading\<close>, \<^verbatim>\<open>deadletter\<close>
  and \<^verbatim>\<open>quarantine\<close>, and recovery. \<open>Spool_Track\<close>: queue, drain, rotation, breaker, back-off, the retry
  loop of a segment and the scan. Its loop ends by the measure of attempts left, so it needs no fuel.
  \<open>Spool_Run\<close>: the steps of a running track, with stops and restarts between any two of them, its
  invariant, and the spool that routes records to tracks and edits them live. The goroutines of a track
  are interleaved at the granularity of one record, one scan, one stop or one restart. Destinations,
  zstd and JSON are arguments or represented by what a file decodes to.

  \<^bold>\<open>Live feed\<close> (\<^verbatim>\<open>internal/headers\<close>, \<^verbatim>\<open>internal/observability/livefeed\<close>). \<open>Header_Redaction\<close>: which headers
  a capture masks. \<open>Live_Feed\<close>: the ring with its subscribers, the bounded capture of a response, and the
  store of bodies, a doubly linked list in a heap of nodes that implements an LRU list. Its eviction is a
  \<^verbatim>\<open>while\<close> that is proved to end.

  \<^bold>\<open>Correlation and agent routing\<close> (\<^verbatim>\<open>internal/observability\<close>, \<^verbatim>\<open>internal/agentroute\<close>,
  \<^verbatim>\<open>contracts/advise\<close>, \<^verbatim>\<open>cmd/gateway\<close>). \<open>Correlation\<close>: the ids a request is filed under and the headers
  they come from. \<open>Agent_Register\<close>: the table of pins with its expiry and apply window. \<open>Agent_Route\<close>: who
  is an agent, what an advisor is told, the service with its calls in flight, whose arrivals and answers
  are the events of a run in any order, and the selection stage, which turns a pin into the alias of a
  target.

  \<^bold>\<open>Translation\<close> (\<^verbatim>\<open>protocols/anthropic/messages\<close>, \<^verbatim>\<open>protocols/openai/chat\<close>, \<^verbatim>\<open>internal/translate\<close>,
  \<^verbatim>\<open>cmd/gateway/translate.go\<close>). \<open>Wire_Types\<close>: the two dialects as decoded values. \<open>Translate_Message\<close>:
  requests, responses and errors in both directions with the drops they report. \<open>Translate_Roundtrip\<close>:
  what survives there and back. \<open>Translate_Stream\<close>: the two stream translators and the reader of an
  upstream body, whose recursion is measured by the lines left; the locale \<open>framed_translator\<close> is the
  contract between them, and its interpretations \<open>chat_events\<close> and \<open>chat_frames\<close> give that every
  translated stream is well framed. Streamed and buffered translation agree. \<open>Translate_Stage\<close>: the
  registry and the request and response legs in the gateway.

  \<^bold>\<open>Usage and reassembly\<close> (\<^verbatim>\<open>internal/middleware/sseframe\<close>, \<^verbatim>\<open>internal/middleware/tokens\<close>,
  \<^verbatim>\<open>internal/observability/livefeed/accumulator\<close>). \<open>Token_Usage\<close>: the two parsers of captured streams, which
  agree, the token counts of a response in every dialect and the server tools it is billed for.
  \<open>Stream_Accumulate\<close>, \<open>Messages_Accumulate\<close> and \<open>Content_Accumulate\<close>: the accumulators of Chat, Messages,
  Gemini and Responses streams and their dispatch; each gives back the response that was streamed, however
  it was cut and interleaved.

  \<^bold>\<open>Delivery of records\<close> (\<^verbatim>\<open>internal/config/store.go\<close>, \<^verbatim>\<open>internal/arbiter/pusher\<close>,
  \<^verbatim>\<open>cmd/gateway/binding.go\<close>, \<^verbatim>\<open>sinks.go\<close>, \<^verbatim>\<open>reporter.go\<close>). \<open>Config_Store\<close>: the live snapshot and its
  subscribers, with the order in which goroutines call them. \<open>Record_Filter\<close>: sampling, filter and size cap
  of a binding. \<open>Pusher\<close>: the queue and the retries of a webhook, which account for every record.
  \<open>Record_Sinks\<close>: pushers and tracks are two tables of sinks, under the locale \<open>sink_table\<close> and its
  interpretations \<open>webhook_table\<close> and \<open>track_table\<close>; they follow the connectors of the snapshots the
  reconciler is called with, and no shipped record is lost uncounted.

  \<^bold>\<open>Not modelled.\<close> HTTP plumbing and wiring, OpenTelemetry spans and meters, cloud uploads, the
  requests of the Responses and Gemini dialects, the encoding of bodies and the
  preservation of unknown fields, body patches (gjson and sjson), the arbiter service, command line tools.
\<close>

end
